(* ===== verification/Prelude.thy ===== *)
theory Prelude
  imports Complex_Main "HOL-Library.AList" "HOL-Library.Char_ord" "HOL-Library.List_Lexorder"
begin

text \<open>
  Shared vocabulary of the development: the JavaScript values the blueprint runtime stores,
  the string and list operations of the standard library its code calls, and the generic
  lemmas on lists the components share.

  Conventions used everywhere:
  \<^item> a JavaScript string is a \<open>string\<close> (code units below 256);
  \<^item> an object used as a dictionary (\<open>Record<string, T>\<close>) and a \<open>Map\<close> are association lists in
    enumeration order, written with \<open>AList.update\<close> (an existing key keeps its place, a new
    one goes to the end) and read with \<open>map_of\<close>;
  \<^item> \<open>x | undefined\<close> is an \<open>option\<close>;
  \<^item> a call that may throw returns \<open>'e + 'a\<close>, with \<open>Inl\<close> for the thrown error;
  \<^item> a JSON text is the value \<open>JSON.parse\<close> gives for it, and \<open>None\<close> where it throws.
\<close>

named_theorems frame_simps \<open>fields an operation leaves unchanged\<close>

text \<open>Optional fields are checked by evaluation.\<close>

lemma pred_option_code [code]: "pred_option P x = (case x of None \<Rightarrow> True | Some y \<Rightarrow> P y)"
  by (cases x) simp_all

section \<open>JavaScript values\<close>

text \<open>A number is a finite double (a rational) or one of the three non-finite values.\<close>

datatype js_number = Finite rat | PosInfinity | NegInfinity | NaN

datatype json =
    JUndefined
  | JNull
  | JBool bool
  | JNum js_number
  | JStr string
  | JArr "json list"
  | JObj "(string \<times> json) list"

type_synonym json_text = "json option"
type_synonym 'a dict = "(string \<times> 'a) list"

text \<open>\<open>Number.isInteger\<close>, with the integer itself.\<close>

fun js_int :: "js_number \<Rightarrow> int option" where
  "js_int (Finite q) = (if of_int \<lfloor>q\<rfloor> = q then Some \<lfloor>q\<rfloor> else None)"
| "js_int _ = None"

fun js_is_finite :: "js_number \<Rightarrow> bool" where
  "js_is_finite (Finite _) = True"
| "js_is_finite _ = False"

text \<open>\<open>value?.field\<close> for a field name that no primitive and no array carries.\<close>

fun jfield :: "string \<Rightarrow> json \<Rightarrow> json" where
  "jfield k (JObj kvs) = (case map_of kvs k of None \<Rightarrow> JUndefined | Some v \<Rightarrow> v)"
| "jfield k _ = JUndefined"

fun jstr :: "json \<Rightarrow> string option" where
  "jstr (JStr s) = Some s"
| "jstr _ = None"

lemma js_int_of_int [simp]: "js_int (Finite (of_int n)) = Some n"
  by simp

lemma js_int_Some_iff: "js_int x = Some n \<longleftrightarrow> x = Finite (of_int n)"
  by (cases x) (auto split: if_splits)

text \<open>
  \<open>isDeepStrictEqual\<close> on JSON values ignores the order of object keys: values are equal when
  their key-sorted forms are.
\<close>

fun json_norm :: "json \<Rightarrow> json"
and json_norm_list :: "json list \<Rightarrow> json list"
and json_norm_fields :: "(string \<times> json) list \<Rightarrow> (string \<times> json) list" where
  "json_norm (JArr xs) = JArr (json_norm_list xs)"
| "json_norm (JObj kvs) = JObj (sort_key fst (json_norm_fields kvs))"
| "json_norm j = j"
| "json_norm_list [] = []"
| "json_norm_list (x # xs) = json_norm x # json_norm_list xs"
| "json_norm_fields [] = []"
| "json_norm_fields ((k, v) # kvs) = (k, json_norm v) # json_norm_fields kvs"

definition json_deep_eq :: "json \<Rightarrow> json \<Rightarrow> bool" where
  "json_deep_eq a b \<longleftrightarrow> json_norm a = json_norm b"

lemma json_deep_eq_refl [simp]: "json_deep_eq a a"
  by (simp add: json_deep_eq_def)

section \<open>Calls that may throw\<close>

definition ebind :: "'e + 'a \<Rightarrow> ('a \<Rightarrow> 'e + 'b) \<Rightarrow> 'e + 'b" where
  "ebind x f = (case x of Inl e \<Rightarrow> Inl e | Inr a \<Rightarrow> f a)"

lemma ebind_simps [simp]: "ebind (Inl e) f = Inl e" "ebind (Inr a) f = f a"
  by (simp_all add: ebind_def)

lemma ebind_Inr: "ebind x f = Inr b \<longleftrightarrow> (\<exists>a. x = Inr a \<and> f a = Inr b)"
  by (cases x) auto

text \<open>\<open>if (c) throw e\<close>, then the rest.\<close>

definition throw_if :: "bool \<Rightarrow> 'e \<Rightarrow> 'e + 'a \<Rightarrow> 'e + 'a" where
  "throw_if c e k = (if c then Inl e else k)"

lemma throw_if_Inr [simp]: "throw_if c e k = Inr b \<longleftrightarrow> \<not> c \<and> k = Inr b"
  by (simp add: throw_if_def)

lemma throw_if_simps [simp]: "throw_if True e k = Inl e" "throw_if False e k = k"
  by (simp_all add: throw_if_def)

section \<open>Strings\<close>

definition is_hex :: "char \<Rightarrow> bool" where
  "is_hex c \<longleftrightarrow> c \<in> set ''0123456789abcdef''"

definition is_digit :: "char \<Rightarrow> bool" where
  "is_digit c \<longleftrightarrow> c \<in> set ''0123456789''"

definition is_lower :: "char \<Rightarrow> bool" where
  "is_lower c \<longleftrightarrow> c \<in> set ''abcdefghijklmnopqrstuvwxyz''"

definition is_upper :: "char \<Rightarrow> bool" where
  "is_upper c \<longleftrightarrow> c \<in> set ''ABCDEFGHIJKLMNOPQRSTUVWXYZ''"

definition is_alnum :: "char \<Rightarrow> bool" where
  "is_alnum c \<longleftrightarrow> is_digit c \<or> is_lower c \<or> is_upper c"

text \<open>The code units \<open>String.prototype.trim\<close> removes: TAB, LF, VT, FF, CR, SPACE, NBSP.\<close>

definition is_space :: "char \<Rightarrow> bool" where
  "is_space c \<longleftrightarrow> (of_char c :: nat) \<in> {9, 10, 11, 12, 13, 32, 160}"

definition js_trim :: "string \<Rightarrow> string" where
  "js_trim s = rev (dropWhile is_space (rev (dropWhile is_space s)))"

text \<open>\<open>/^[a-f0-9]{64}$/\<close>\<close>

definition is_sha256 :: "string \<Rightarrow> bool" where
  "is_sha256 s \<longleftrightarrow> length s = 64 \<and> list_all is_hex s"

text \<open>\<open>String.prototype.split\<close> on a separator of one code unit: never the empty list.\<close>

fun split_on :: "'a \<Rightarrow> 'a list \<Rightarrow> 'a list list" where
  "split_on c [] = [[]]"
| "split_on c (x # xs) =
     (if x = c then [] # split_on c xs
      else case split_on c xs of [] \<Rightarrow> [[x]] | p # ps \<Rightarrow> (x # p) # ps)"

text \<open>The part before the first separator, and the part after it (\<open>slice\<close> around \<open>indexOf\<close>).\<close>

definition before_char :: "char \<Rightarrow> string \<Rightarrow> string" where
  "before_char c s = takeWhile (\<lambda>x. x \<noteq> c) s"

definition after_char :: "char \<Rightarrow> string \<Rightarrow> string" where
  "after_char c s = tl (dropWhile (\<lambda>x. x \<noteq> c) s)"

lemma split_on_not_Nil [simp]: "split_on c s \<noteq> []"
  by (induction s) (auto split: list.splits)

lemma hd_split_on [simp]: "hd (split_on c s) = before_char c s"
proof (induction s)
  case (Cons x xs)
  then show ?case
    by (cases "split_on c xs") (auto simp: before_char_def)
qed (simp add: before_char_def)

lemma before_char_append:
  "c \<notin> set xs \<Longrightarrow> before_char c (xs @ c # ys) = xs"
  by (induction xs) (auto simp: before_char_def)

lemma after_char_append:
  "c \<notin> set xs \<Longrightarrow> after_char c (xs @ c # ys) = ys"
  by (induction xs) (auto simp: after_char_def)

lemma split_at_char:
  "c \<in> set s \<Longrightarrow> s = before_char c s @ c # after_char c s"
  by (induction s) (auto simp: before_char_def after_char_def)

text \<open>The decimal text of a number, without leading zeros; it tells numbers apart.\<close>

fun digit_string :: "nat \<Rightarrow> string" where
  "digit_string n = (if n < 10 then [char_of (48 + n)] else digit_string (n div 10) @ [char_of (48 + n mod 10)])"

declare digit_string.simps [simp del]

lemma digit_char: "n < 10 \<Longrightarrow> of_char (char_of (48 + n) :: char) = 48 + (n :: nat)"
  by (simp add: of_char_of)

lemma digit_string_inj: "digit_string m = digit_string n \<Longrightarrow> m = n"
proof (induction m arbitrary: n rule: digit_string.induct)
  case (1 m)
  have last: "of_char (last (digit_string k)) = 48 + k mod 10" for k
    by (subst digit_string.simps) (simp add: digit_char)
  have init: "butlast (digit_string k) = (if k < 10 then [] else digit_string (k div 10))" for k
    by (subst digit_string.simps) simp
  have nonempty: "digit_string k \<noteq> []" for k by (subst digit_string.simps) simp
  have mod: "m mod 10 = n mod 10" using last[of m] last[of n] 1(2) by simp
  show ?case
  proof (cases "m < 10")
    case True
    hence "n < 10" using init[of m] init[of n] 1(2) nonempty by (metis)
    thus ?thesis using True mod by simp
  next
    case False
    hence "\<not> n < 10" "digit_string (m div 10) = digit_string (n div 10)"
      using init[of m] init[of n] 1(2) nonempty by (metis)+
    hence "m div 10 = n div 10" using 1(1)[OF False] by blast
    thus ?thesis using mod by (metis div_mult_mod_eq)
  qed
qed

lemma digit_string_dashless: "CHR ''-'' \<notin> set (digit_string n)"
proof (induction n rule: digit_string.induct)
  case (1 n)
  have "CHR ''-'' \<noteq> char_of (48 + k)" if "k < 10" for k :: nat
  proof
    assume "CHR ''-'' = char_of (48 + k)"
    hence "of_char (CHR ''-'') = (48 + k :: nat)" using digit_char[OF that] by simp
    thus False by simp
  qed
  thus ?case using 1 by (subst digit_string.simps) auto
qed

section \<open>Lists\<close>

text \<open>\<open>const x = xs.find(p); if (x) mutate(x)\<close>: the first match is updated in place.\<close>

fun update_first :: "('a \<Rightarrow> bool) \<Rightarrow> ('a \<Rightarrow> 'a) \<Rightarrow> 'a list \<Rightarrow> 'a list" where
  "update_first p f [] = []"
| "update_first p f (x # xs) = (if p x then f x # xs else x # update_first p f xs)"

definition find_last :: "('a \<Rightarrow> bool) \<Rightarrow> 'a list \<Rightarrow> 'a option" where
  "find_last p xs = List.find p (rev xs)"

text \<open>\<open>xs.slice(xs.length - n)\<close> when the list is longer than \<open>n\<close>.\<close>

definition last_n :: "nat \<Rightarrow> 'a list \<Rightarrow> 'a list" where
  "last_n n xs = drop (length xs - n) xs"

lemma length_update_first [simp]: "length (update_first p f xs) = length xs"
  by (induction xs) auto

lemma map_update_first [simp]:
  "(\<And>x. g (f x) = g x) \<Longrightarrow> map g (update_first p f xs) = map g xs"
  by (induction xs) auto

lemma update_first_id: "\<not> (\<exists>x\<in>set xs. p x) \<Longrightarrow> update_first p f xs = xs"
  by (induction xs) auto

lemma set_update_first: "set (update_first p f xs) \<subseteq> set xs \<union> f ` {x \<in> set xs. p x}"
  by (induction xs) auto

lemma set_update_first_find:
  "set (update_first p f xs)
     \<subseteq> set xs \<union> (case List.find p xs of None \<Rightarrow> {} | Some x \<Rightarrow> {f x})"
  by (induction xs) auto

lemma list_all2_update_first:
  assumes "\<And>x. x \<in> set xs \<Longrightarrow> R x x"
    and "\<And>x. List.find p xs = Some x \<Longrightarrow> R x (f x)"
  shows "list_all2 R xs (update_first p f xs)"
  using assms
proof (induction xs)
  case (Cons x xs)
  show ?case
  proof (cases "p x")
    case True
    with Cons.prems show ?thesis by (auto intro: list_all2_refl simp: list.rel_refl_strong)
  next
    case False
    with Cons show ?thesis by auto
  qed
qed simp

lemma list_all2_map_right:
  "(\<And>x. x \<in> set xs \<Longrightarrow> R x (f x)) \<Longrightarrow> list_all2 R xs (map f xs)"
  by (induction xs) auto

lemma find_Some_set: "List.find p xs = Some x \<Longrightarrow> x \<in> set xs \<and> p x"
  by (auto simp: find_Some_iff)

lemma find_None_all: "List.find p xs = None \<longleftrightarrow> (\<forall>x\<in>set xs. \<not> p x)"
  by (auto simp: find_None_iff)

lemma find_None_ex: "List.find p xs = None \<longleftrightarrow> \<not> list_ex p xs"
  by (auto simp: find_None_iff list_ex_iff)

lemma find_last_Some_set: "find_last p xs = Some x \<Longrightarrow> x \<in> set xs \<and> p x"
  unfolding find_last_def using find_Some_set by fastforce

lemma length_last_n [simp]: "length (last_n n xs) = min n (length xs)"
  by (simp add: last_n_def)

lemma set_last_n: "set (last_n n xs) \<subseteq> set xs"
  by (simp add: last_n_def set_drop_subset)

lemma last_n_short [simp]: "length xs \<le> n \<Longrightarrow> last_n n xs = xs"
  by (simp add: last_n_def)

lemma sorted_last_n: "sorted (map f xs) \<Longrightarrow> sorted (map f (last_n n xs))"
  by (simp add: last_n_def sorted_wrt_drop flip: drop_map)

lemma sorted_map_const: "\<forall>x\<in>set xs. f x = c \<Longrightarrow> sorted (map f xs)"
  by (induction xs) auto

lemma update_first_find:
  "List.find p xs = Some x \<Longrightarrow> p (f x) \<Longrightarrow> List.find p (update_first p f xs) = Some (f x)"
  by (induction xs) (auto split: if_splits)

lemma dict_keys_update:
  "map fst (AList.update k v d) = (if k \<in> fst ` set d then map fst d else map fst d @ [k])"
  by (induction d) auto

section \<open>Lists that only grow\<close>

text \<open>Old elements stay in place and change by \<open>R\<close>; new ones are added at the end.\<close>

definition list_evolves :: "('a \<Rightarrow> 'a \<Rightarrow> bool) \<Rightarrow> 'a list \<Rightarrow> 'a list \<Rightarrow> bool" where
  "list_evolves R as bs \<longleftrightarrow> (\<exists>cs new. bs = cs @ new \<and> list_all2 R as cs)"

lemma list_evolves_append: "(\<And>a. R a a) \<Longrightarrow> list_evolves R as (as @ new)"
  unfolding list_evolves_def by (intro exI [of _ as] exI [of _ new]) (simp add: list.rel_refl)

lemma list_evolves_refl: "(\<And>a. R a a) \<Longrightarrow> list_evolves R as as"
  using list_evolves_append [of R as "[]"] by simp

lemma list_evolves_all2: "list_all2 R as bs \<Longrightarrow> list_evolves R as bs"
  unfolding list_evolves_def by (intro exI [of _ bs] exI [of _ "[]"]) simp

lemma list_evolves_map: "(\<And>a. a \<in> set as \<Longrightarrow> R a (f a)) \<Longrightarrow> list_evolves R as (map f as)"
  by (intro list_evolves_all2 list_all2_map_right)

lemma list_evolves_update:
  "(\<And>a. R a a) \<Longrightarrow> (\<And>a. List.find p as = Some a \<Longrightarrow> R a (f a)) \<Longrightarrow> list_evolves R as (update_first p f as)"
  by (intro list_evolves_all2 list_all2_update_first)

lemma list_evolves_trans:
  assumes R: "\<And>a b c. R a b \<Longrightarrow> R b c \<Longrightarrow> R a c"
    and "list_evolves R as bs" and "list_evolves R bs cs"
  shows "list_evolves R as cs"
proof -
  from assms(2,3) obtain bs' n cs' m where
    b: "bs = bs' @ n" "list_all2 R as bs'" and c: "cs = cs' @ m" "list_all2 R bs cs'"
    unfolding list_evolves_def by blast
  from c(2) b(1) obtain us vs where "cs' = us @ vs" "list_all2 R bs' us"
    by (auto simp: list_all2_append1)
  moreover from this b(2) have "list_all2 R as us"
    using list_all2_trans [of R R R] R by metis
  ultimately show ?thesis unfolding list_evolves_def
    using c(1) by (intro exI [of _ us] exI [of _ "vs @ m"]) simp
qed

lemma list_evolves_nth:
  "list_evolves R as bs \<Longrightarrow> i < length as \<Longrightarrow> i < length bs \<and> R (as ! i) (bs ! i)"
  by (auto simp: list_evolves_def list_all2_conv_all_nth nth_append)

lemma list_evolves_find:
  assumes "list_evolves R as bs" and p: "\<And>a b. R a b \<Longrightarrow> p b = p a" and "List.find p as = Some a"
  shows "\<exists>b. List.find p bs = Some b \<and> R a b"
proof -
  from assms(1) obtain cs new where bs: "bs = cs @ new" and r: "list_all2 R as cs"
    by (auto simp: list_evolves_def)
  from r assms(3) have "\<exists>b. List.find p (cs @ new) = Some b \<and> R a b"
    by (induction rule: list_all2_induct) (auto simp: p split: if_splits)
  with bs show ?thesis by simp
qed

end
