(* ===== verification/RunTypes.thy ===== *)
theory RunTypes
  imports Prelude
begin

text \<open>
  The canonical Run, Attempt, TeamStage and Command records of \<open>persistence/records.ts\<close>, with
  the content-free fact types they embed (\<open>host/runtime-diagnostics.ts\<close>,
  \<open>host/teamstage-diagnostics.ts\<close>, \<open>conversation/contracts.ts\<close>). TypeScript interfaces are
  records, string unions are datatypes, optional fields are options. Field prefixes name the
  record a field belongs to.
\<close>

section \<open>State vocabularies\<close>

datatype run_state =
    Queued | Running | WaitingInput | Cancelling | RecoveryRequired
  | Succeeded | Failed | Cancelled | TimedOut

datatype attempt_state =
    APreparing | AReady | ARunning | AWaitingInput | ACancelling | ARecoveryRequired
  | ASucceeded | AFailed | ACancelled | ATimedOut | ASkipped

datatype team_stage_state =
    SProvisioning | SActive | SWaitingInput | SCancelling | SRecoveryRequired
  | SSucceeded | SFailed | SCancelled | STimedOut

datatype team_effect_state = EPending | ESucceeded | EFailed | ERecoveryRequired

datatype acceptance_code = Accepted | Rejected

definition TERMINAL_RUN_STATES :: "run_state list" where
  "TERMINAL_RUN_STATES = [Succeeded, Failed, Cancelled, TimedOut]"

text \<open>\<open>TERMINAL_ATTEMPTS\<close> of the store, also \<open>ATTEMPT_TERMINAL\<close> of recovery.\<close>

definition TERMINAL_ATTEMPTS :: "attempt_state list" where
  "TERMINAL_ATTEMPTS = [ASucceeded, AFailed, ACancelled, ATimedOut, ASkipped]"

definition TEAM_KNOWN_CHECKS :: "string list" where
  "TEAM_KNOWN_CHECKS = [''schema'', ''digest'', ''artifact-digest'', ''agreement'']"

definition RUN_RECORD_SCHEMA_VERSION :: nat where
  "RUN_RECORD_SCHEMA_VERSION = 3"

section \<open>Frozen execution context\<close>

record model_selection =
  ms_provider :: string
  ms_model :: string
  ms_reasoningEffort :: "string option"

type_synonym binding_selections = "model_selection option dict"
type_synonym digests = "string dict"

datatype source_kind = SourceUi | SourceTool

record run_source =
  src_sessionId :: string
  src_kind :: source_kind
  src_callId :: "string option"
  src_turn :: "nat option"

datatype library_ref = GlobalLibrary | WorkspaceLibrary string

record asset_ref =
  as_library :: library_ref
  as_blueprintId :: string

record target_workspace =
  tw_workspaceId :: string
  tw_rootFingerprint :: "string option"

record exec_context =
  cx_instanceAssetRef :: "asset_ref option"
  cx_originAssetRef :: "asset_ref option"
  cx_targetWorkspace :: "target_workspace option"
  cx_preparationDigest :: "string option"

record frozen_blueprint =
  fb_blueprintId :: string
  fb_documentRevision :: string
  fb_semanticRevision :: string
  fb_definitionJson :: json_text
  fb_snapshotId :: string
  fb_bindingDigests :: digests
  fb_bindingSelections :: binding_selections

record parent_run =
  pr_runId :: string
  pr_attemptId :: string

section \<open>Attempt facts\<close>

datatype json_type = TNull | TArray | TObject | TString | TNumber | TBoolean

record diag_input =
  di_type :: json_type
  di_bytes :: nat
  di_sha256 :: string

record diag_tools =
  dt_effectiveNames :: "string list"
  dt_denials :: "(string \<times> string) list option"

record diag_acceptance =
  da_code :: string
  da_issueCount :: "nat option"

record diagnostics =
  dg_input :: diag_input
  dg_resourceDigests :: digests
  dg_modelSelection :: "model_selection option"
  dg_tools :: diag_tools
  dg_acceptance :: diag_acceptance
  dg_recovery :: "string option"

datatype attempt_diagnostics = DUnavailable | DAvailable diagnostics

record attempt_intent =
  i_seq :: nat
  i_at :: int
  i_kind :: string
  i_resourceDigests :: digests
  i_bindingDigests :: "digests option"

record attempt_result =
  o_seq :: nat
  o_at :: int
  o_ok :: bool
  o_outcome :: json
  o_evidence :: string

datatype message_state = MsgPending | MsgAccepted

record attempt_message =
  msg_requestId :: string
  msg_digest :: string
  msg_messageId :: string
  msg_state :: message_state
  msg_at :: int

record attempt =
  a_attemptId :: string
  a_nodeId :: string
  a_state :: attempt_state
  a_attempt :: nat
  a_intent :: "attempt_intent option"
  a_result :: "attempt_result option"
  a_sessionId :: "string option"
  a_childRunId :: "string option"
  a_messages :: "attempt_message list option"
  a_diagnostics :: "attempt_diagnostics option"

section \<open>TeamStage facts\<close>

record team_reservation =
  rv_runId :: string
  rv_stageId :: string
  rv_definitionRevision :: string
  rv_attemptId :: string
  rv_effectId :: string
  rv_logicalName :: string
  rv_nativeName :: string
  rv_reservationSeq :: nat
  rv_schemaCanonicalJson :: json
  rv_schemaDigest :: string
  rv_schemaResourceId :: string
  rv_schemaResourceDigest :: string
  rv_resourceDigests :: digests
  rv_memberId :: string
  rv_sessionId :: "string option"

record capture_evidence =
  ce_producerSessionId :: string
  ce_callId :: string
  ce_rootCallId :: string
  ce_turnId :: string
  ce_completedTurnId :: string
  ce_startLogSeq :: nat
  ce_captureLogSeq :: nat
  ce_endLogSeq :: nat
  ce_completedAt :: int
  ce_flushedAt :: int
  ce_quiescentAt :: int

record team_capture =
  cp_artifactId :: string
  cp_digest :: string
  cp_byteLength :: nat
  cp_evidenceDigest :: string
  cp_runId :: string
  cp_definitionRevision :: string
  cp_nodeId :: string
  cp_stageId :: string
  cp_attemptId :: string
  cp_taskId :: string
  cp_teamId :: string
  cp_producerMemberId :: string
  cp_logicalName :: string
  cp_nativeName :: string
  cp_effectId :: string
  cp_reservationSeq :: nat
  cp_schemaDigest :: string
  cp_schemaResourceId :: string
  cp_schemaResourceDigest :: string
  cp_resourceDigests :: digests
  cp_evidence :: capture_evidence

datatype member_phase = PhProvisioning | PhActive | PhFailed | PhInactive

record member_evidence =
  me_runId :: string
  me_stageId :: string
  me_taskId :: string
  me_attemptId :: string
  me_captureId :: string
  me_schemaDigest :: string
  me_valueDigest :: string
  me_completedTurnId :: string
  me_flushedAt :: int
  me_quiescentAt :: int

record team_member =
  m_memberId :: string
  m_name :: "string option"
  m_logicalName :: "string option"
  m_phase :: member_phase
  m_status :: string
  m_sessionId :: "string option"
  m_evidence :: "member_evidence option"

record team_effect =
  e_effectId :: string
  e_kind :: string
  e_stageId :: string
  e_teamId :: string
  e_actorSessionId :: string
  e_memberName :: "string option"
  e_taskId :: "string option"
  e_memberId :: "string option"
  e_state :: team_effect_state
  e_intentAt :: int
  e_settledAt :: "int option"
  e_ok :: "bool option"
  e_errorCode :: "string option"
  e_resultTaskId :: "string option"
  e_resultTaskRevision :: "nat option"
  e_resultMemberId :: "string option"
  e_resultStatus :: "string option"

record output_acceptance =
  oa_code :: acceptance_code
  oa_schemaVersion :: nat
  oa_runId :: string
  oa_stageId :: string
  oa_taskId :: string
  oa_attemptId :: "string option"
  oa_sourceSessionId :: string
  oa_artifactId :: string
  oa_digest :: string
  oa_evidenceDigest :: string
  oa_checks :: "string list"
  oa_issueCode :: "string option"

record host_verdict =
  hv_artifactId :: string
  hv_digest :: string
  hv_byteLength :: nat
  hv_schemaDigest :: string
  hv_evidenceDigest :: string
  hv_runId :: string
  hv_stageId :: string
  hv_taskId :: string
  hv_attemptId :: string
  hv_producerSessionId :: string
  hv_producerMemberId :: string

datatype abort_source = AbortDeadline | AbortCaller | AbortStageControl

record exec_abort =
  ab_source :: abort_source
  ab_code :: string
  ab_occurredAt :: nat

record team_execution =
  x_startedAt :: nat
  x_deadlineAt :: "nat option"
  x_timeoutMs :: "nat option"
  x_abort :: "exec_abort option"

record team_cancel =
  tc_requestedAt :: int
  tc_reason :: "string option"

record team_recovery =
  tr_code :: string
  tr_detail :: "string option"

record team_stage =
  ts_schemaVersion :: nat
  ts_stageId :: string
  ts_runId :: string
  ts_teamId :: string
  ts_leadSessionId :: string
  ts_taskSpecificationFingerprint :: string
  ts_attemptId :: "string option"
  ts_requiredMemberIds :: "string list option"
  ts_requiredChecks :: "string list option"
  ts_primaryMemberId :: "string option"
  ts_taskId :: "string option"
  ts_taskRevision :: "nat option"
  ts_state :: team_stage_state
  ts_members :: "team_member list"
  ts_effects :: "team_effect list option"
  ts_reservations :: "team_reservation list option"
  ts_captures :: "team_capture list option"
  ts_outputAcceptance :: "output_acceptance option"
  ts_cancel :: "team_cancel option"
  ts_recovery :: "team_recovery option"
  ts_execution :: "team_execution option"
  ts_updatedAt :: int

section \<open>Run and command records\<close>

datatype event_kind =
    EvAdmitted | EvIntent | EvResult | EvState | EvDecision | EvCancelRequested | EvRecovery

record run_event =
  l_seq :: nat
  l_at :: int
  l_kind :: event_kind
  l_detail :: "json dict"

datatype binding_admission = AdmissionPending | AdmissionCaptured

record run_record =
  r_schemaVersion :: nat
  r_blueprintId :: "string option"
  r_source :: "run_source option"
  r_runId :: string
  r_definitionRevision :: string
  r_definitionJson :: json_text
  r_composition :: "frozen_blueprint list option"
  r_documentRevision :: "string option"
  r_parent :: "parent_run option"
  r_inputRef :: json_text
  r_bindingDigests :: "digests option"
  r_bindingAdmission :: "binding_admission option"
  r_bindingSelections :: "binding_selections option"
  r_context :: "exec_context option"
  r_commandKey :: string
  r_state :: run_state
  r_attempts :: "attempt list"
  r_teamStage :: "team_stage option"
  r_log :: "run_event list"
  r_seq :: nat
  r_createdAt :: int
  r_updatedAt :: int

record command_record =
  c_commandKey :: string
  c_scope :: string
  c_requestId :: string
  c_payloadFingerprint :: string
  c_runId :: "string option"
  c_createdAt :: int

record run_lifecycle =
  lc_runId :: string
  lc_archived :: bool
  lc_updatedAt :: int

end
