(* ===== verification/RunSchema.thy ===== *)
theory RunSchema
  imports RunTypes
begin

text \<open>
  The zod schemas of \<open>persistence/records.ts\<close> that every durable write passes: which typed
  records they accept. A \<open>strictObject\<close> of the schema is the record type itself; what remains
  are the length, pattern, sign and uniqueness constraints and the cross-field refinements
  (\<open>superRefine\<close>). Strings that must be nonempty are \<open>min(1)\<close> in the source.
\<close>

section \<open>Elementary constraints\<close>

definition nonempty :: "string \<Rightarrow> bool" where
  "nonempty s \<longleftrightarrow> s \<noteq> []"

text \<open>\<open>runIdCodec\<close>: \<open>/^[A-Za-z0-9][A-Za-z0-9_-]*$/\<close>.\<close>

definition run_id_ok :: "string \<Rightarrow> bool" where
  "run_id_ok s \<longleftrightarrow>
     (case s of [] \<Rightarrow> False
      | c # cs \<Rightarrow> is_alnum c \<and> list_all (\<lambda>x. is_alnum x \<or> x = CHR ''_'' \<or> x = CHR ''-'') cs)"

text \<open>A UUID position: hexadecimal groups of 8, 4, 4, 4 and 12 joined by dashes.\<close>

definition hex_groups :: "nat list \<Rightarrow> string \<Rightarrow> bool" where
  "hex_groups ns s \<longleftrightarrow>
     map length (split_on CHR ''-'' s) = ns \<and> list_all (list_all is_hex) (split_on CHR ''-'' s)"

text \<open>\<open>teamArtifactIdSchema\<close>: \<open>ta-\<close> and a version 4 UUID.\<close>

definition team_artifact_id_ok :: "string \<Rightarrow> bool" where
  "team_artifact_id_ok s \<longleftrightarrow>
     take 3 s = ''ta-'' \<and> hex_groups [8, 4, 4, 4, 12] (drop 3 s)
     \<and> s ! 17 = CHR ''4'' \<and> s ! 22 \<in> set ''89ab''"

text \<open>\<open>nativeName\<close>: \<open>/^bp-[a-f0-9-]{36}$/\<close>, at most 64 characters.\<close>

definition native_name_ok :: "string \<Rightarrow> bool" where
  "native_name_ok s \<longleftrightarrow>
     take 3 s = ''bp-'' \<and> length s = 39 \<and> list_all (\<lambda>c. is_hex c \<or> c = CHR ''-'') (drop 3 s)"

definition digest_dict_ok :: "digests \<Rightarrow> bool" where
  "digest_dict_ok d \<longleftrightarrow> list_all (\<lambda>(k, v). is_sha256 v) d"

text \<open>\<open>resourceDigestsSchema\<close> also wants nonempty keys.\<close>

definition resource_digests_ok :: "digests \<Rightarrow> bool" where
  "resource_digests_ok d \<longleftrightarrow> list_all (\<lambda>(k, v). nonempty k \<and> is_sha256 v) d"

definition model_selection_ok :: "model_selection \<Rightarrow> bool" where
  "model_selection_ok s \<longleftrightarrow>
     nonempty (ms_provider s) \<and> nonempty (ms_model s)
     \<and> pred_option nonempty (ms_reasoningEffort s)"

definition binding_selections_ok :: "binding_selections \<Rightarrow> bool" where
  "binding_selections_ok d \<longleftrightarrow>
     list_all (\<lambda>(k, v). nonempty k \<and> pred_option model_selection_ok v) d"

section \<open>Frozen context\<close>

definition run_source_ok :: "run_source \<Rightarrow> bool" where
  "run_source_ok s \<longleftrightarrow> nonempty (src_sessionId s) \<and> pred_option nonempty (src_callId s)"

definition asset_ref_ok :: "asset_ref \<Rightarrow> bool" where
  "asset_ref_ok a \<longleftrightarrow>
     (case as_library a of GlobalLibrary \<Rightarrow> True | WorkspaceLibrary w \<Rightarrow> nonempty w)
     \<and> nonempty (as_blueprintId a)"

definition run_context_ok :: "exec_context \<Rightarrow> bool" where
  "run_context_ok c \<longleftrightarrow>
     pred_option asset_ref_ok (cx_instanceAssetRef c)
     \<and> pred_option asset_ref_ok (cx_originAssetRef c)
     \<and> pred_option (\<lambda>w. nonempty (tw_workspaceId w) \<and> pred_option nonempty (tw_rootFingerprint w))
         (cx_targetWorkspace c)
     \<and> pred_option nonempty (cx_preparationDigest c)"

definition frozen_blueprint_ok :: "frozen_blueprint \<Rightarrow> bool" where
  "frozen_blueprint_ok f \<longleftrightarrow>
     nonempty (fb_blueprintId f) \<and> is_sha256 (fb_documentRevision f)
     \<and> is_sha256 (fb_semanticRevision f) \<and> run_id_ok (fb_snapshotId f)
     \<and> digest_dict_ok (fb_bindingDigests f) \<and> binding_selections_ok (fb_bindingSelections f)"

definition parent_run_ok :: "parent_run \<Rightarrow> bool" where
  "parent_run_ok p \<longleftrightarrow> run_id_ok (pr_runId p) \<and> nonempty (pr_attemptId p)"

section \<open>Attempts\<close>

text \<open>\<open>attemptDiagnosticsCodec\<close>: its model selection carries no length constraint.\<close>

definition attempt_diagnostics_ok :: "attempt_diagnostics \<Rightarrow> bool" where
  "attempt_diagnostics_ok d \<longleftrightarrow>
     (case d of DUnavailable \<Rightarrow> True
      | DAvailable g \<Rightarrow>
          is_sha256 (di_sha256 (dg_input g)) \<and> digest_dict_ok (dg_resourceDigests g)
          \<and> pred_option (list_all (\<lambda>(t, code). nonempty code)) (dt_denials (dg_tools g))
          \<and> nonempty (da_code (dg_acceptance g)) \<and> pred_option nonempty (dg_recovery g))"

definition attempt_ok :: "attempt \<Rightarrow> bool" where
  "attempt_ok a \<longleftrightarrow>
     nonempty (a_attemptId a) \<and> nonempty (a_nodeId a)
     \<and> pred_option (\<lambda>i. pred_option digest_dict_ok (i_bindingDigests i)) (a_intent a)
     \<and> pred_option run_id_ok (a_childRunId a)
     \<and> pred_option (list_all (\<lambda>m. nonempty (msg_requestId m) \<and> is_sha256 (msg_digest m)
          \<and> nonempty (msg_messageId m))) (a_messages a)
     \<and> pred_option attempt_diagnostics_ok (a_diagnostics a)"

section \<open>TeamStage\<close>

definition reservation_ok :: "team_reservation \<Rightarrow> bool" where
  "reservation_ok v \<longleftrightarrow>
     nonempty (rv_runId v) \<and> nonempty (rv_stageId v) \<and> nonempty (rv_definitionRevision v)
     \<and> nonempty (rv_attemptId v) \<and> nonempty (rv_effectId v) \<and> nonempty (rv_logicalName v)
     \<and> native_name_ok (rv_nativeName v) \<and> 0 < rv_reservationSeq v
     \<and> is_sha256 (rv_schemaDigest v) \<and> nonempty (rv_schemaResourceId v)
     \<and> is_sha256 (rv_schemaResourceDigest v) \<and> resource_digests_ok (rv_resourceDigests v)
     \<and> nonempty (rv_memberId v) \<and> pred_option nonempty (rv_sessionId v)"

definition capture_evidence_ok :: "capture_evidence \<Rightarrow> bool" where
  "capture_evidence_ok e \<longleftrightarrow>
     nonempty (ce_producerSessionId e) \<and> nonempty (ce_callId e) \<and> nonempty (ce_rootCallId e)
     \<and> nonempty (ce_turnId e) \<and> nonempty (ce_completedTurnId e)
     \<and> 0 \<le> ce_completedAt e \<and> 0 \<le> ce_flushedAt e \<and> 0 \<le> ce_quiescentAt e
     \<and> \<not> (ce_turnId e \<noteq> ce_completedTurnId e
          \<or> ce_captureLogSeq e \<le> ce_startLogSeq e \<or> ce_endLogSeq e \<le> ce_captureLogSeq e
          \<or> ce_flushedAt e < ce_completedAt e \<or> ce_quiescentAt e < ce_flushedAt e)"

definition capture_ok :: "team_capture \<Rightarrow> bool" where
  "capture_ok c \<longleftrightarrow>
     team_artifact_id_ok (cp_artifactId c) \<and> is_sha256 (cp_digest c) \<and> 0 < cp_byteLength c
     \<and> is_sha256 (cp_evidenceDigest c) \<and> nonempty (cp_runId c)
     \<and> nonempty (cp_definitionRevision c) \<and> nonempty (cp_nodeId c) \<and> nonempty (cp_stageId c)
     \<and> nonempty (cp_attemptId c) \<and> nonempty (cp_taskId c) \<and> nonempty (cp_teamId c)
     \<and> nonempty (cp_producerMemberId c) \<and> nonempty (cp_logicalName c)
     \<and> nonempty (cp_nativeName c) \<and> nonempty (cp_effectId c) \<and> 0 < cp_reservationSeq c
     \<and> is_sha256 (cp_schemaDigest c) \<and> nonempty (cp_schemaResourceId c)
     \<and> is_sha256 (cp_schemaResourceDigest c) \<and> resource_digests_ok (cp_resourceDigests c)
     \<and> capture_evidence_ok (cp_evidence c)"

definition member_ok :: "team_member \<Rightarrow> bool" where
  "member_ok m \<longleftrightarrow>
     nonempty (m_memberId m) \<and> pred_option nonempty (m_name m)
     \<and> pred_option nonempty (m_logicalName m) \<and> nonempty (m_status m)
     \<and> pred_option nonempty (m_sessionId m)
     \<and> pred_option (\<lambda>e. nonempty (me_runId e) \<and> nonempty (me_stageId e) \<and> nonempty (me_taskId e)
          \<and> nonempty (me_attemptId e) \<and> nonempty (me_captureId e)
          \<and> is_sha256 (me_schemaDigest e) \<and> is_sha256 (me_valueDigest e)
          \<and> nonempty (me_completedTurnId e)) (m_evidence m)"

definition effect_ok :: "team_effect \<Rightarrow> bool" where
  "effect_ok e \<longleftrightarrow>
     nonempty (e_effectId e) \<and> nonempty (e_kind e) \<and> nonempty (e_stageId e)
     \<and> nonempty (e_teamId e) \<and> nonempty (e_actorSessionId e)
     \<and> pred_option nonempty (e_memberName e) \<and> pred_option nonempty (e_taskId e)
     \<and> pred_option nonempty (e_memberId e) \<and> pred_option nonempty (e_errorCode e)
     \<and> pred_option nonempty (e_resultTaskId e) \<and> pred_option (\<lambda>n. 0 < n) (e_resultTaskRevision e)
     \<and> pred_option nonempty (e_resultMemberId e) \<and> pred_option nonempty (e_resultStatus e)
     \<and> \<not> (e_state e \<noteq> EPending \<and> e_settledAt e = None)
     \<and> \<not> (e_state e = ESucceeded \<and> e_ok e \<noteq> Some True)
     \<and> \<not> (e_state e = EFailed \<and> e_ok e \<noteq> Some False)"

definition output_acceptance_ok :: "output_acceptance \<Rightarrow> bool" where
  "output_acceptance_ok a \<longleftrightarrow>
     oa_schemaVersion a = 1 \<and> nonempty (oa_runId a) \<and> nonempty (oa_stageId a)
     \<and> nonempty (oa_taskId a) \<and> pred_option nonempty (oa_attemptId a)
     \<and> nonempty (oa_sourceSessionId a) \<and> nonempty (oa_artifactId a) \<and> is_sha256 (oa_digest a)
     \<and> is_sha256 (oa_evidenceDigest a) \<and> oa_checks a \<noteq> [] \<and> list_all nonempty (oa_checks a)
     \<and> pred_option nonempty (oa_issueCode a)
     \<and> \<not> (oa_code a = Rejected \<and> oa_issueCode a = None)"

definition host_verdict_ok :: "host_verdict \<Rightarrow> bool" where
  "host_verdict_ok v \<longleftrightarrow>
     nonempty (hv_artifactId v) \<and> is_sha256 (hv_digest v) \<and> is_sha256 (hv_schemaDigest v)
     \<and> is_sha256 (hv_evidenceDigest v) \<and> nonempty (hv_runId v) \<and> nonempty (hv_stageId v)
     \<and> nonempty (hv_taskId v) \<and> nonempty (hv_attemptId v) \<and> nonempty (hv_producerSessionId v)
     \<and> nonempty (hv_producerMemberId v)"

text \<open>\<open>teamStageExecutionCodec\<close>: the deadline follows from the budget, the abort from its source.\<close>

definition execution_ok :: "team_execution \<Rightarrow> bool" where
  "execution_ok x \<longleftrightarrow>
     pred_option (\<lambda>t. 0 < t) (x_timeoutMs x)
     \<and> pred_option (\<lambda>b. ab_code b \<in> set [''teamstage-deadline-exceeded'', ''teamstage-cancelled'',
           ''teamstage-team-effect-unknown'', ''teamstage-not-dispatching'', ''teamstage-aborted'']) (x_abort x)
     \<and> (x_deadlineAt x = None) = (x_timeoutMs x = None)
     \<and> (case (x_deadlineAt x, x_timeoutMs x) of (Some d, Some t) \<Rightarrow> d = x_startedAt x + t | _ \<Rightarrow> True)
     \<and> pred_option (\<lambda>b. x_startedAt x \<le> ab_occurredAt b) (x_abort x)
     \<and> pred_option (\<lambda>b.
           (ab_source b = AbortDeadline \<and> x_deadlineAt x \<noteq> None
              \<and> ab_code b = ''teamstage-deadline-exceeded'')
           \<or> (ab_source b = AbortCaller \<and> ab_code b = ''teamstage-cancelled'')
           \<or> (ab_source b = AbortStageControl
              \<and> ab_code b \<in> set [''teamstage-team-effect-unknown'', ''teamstage-not-dispatching'',
                    ''teamstage-aborted''])) (x_abort x)"

text \<open>The \<open>superRefine\<close> of \<open>teamStageRecordSchema\<close>: output, task and attempt agree.\<close>

definition stage_output_ok :: "team_stage \<Rightarrow> bool" where
  "stage_output_ok s \<longleftrightarrow>
     (ts_taskId s = None) = (ts_taskRevision s = None)
     \<and> pred_option (\<lambda>a. oa_runId a = ts_runId s \<and> oa_stageId a = ts_stageId s
          \<and> ts_taskId s \<noteq> None \<and> ts_taskRevision s \<noteq> None
          \<and> Some (oa_taskId a) = ts_taskId s
          \<and> \<not> (ts_attemptId s \<noteq> None \<and> oa_attemptId a \<noteq> None
               \<and> oa_attemptId a \<noteq> ts_attemptId s)) (ts_outputAcceptance s)
     \<and> (ts_state s = SSucceeded \<longrightarrow>
          map_option oa_code (ts_outputAcceptance s) = Some Accepted
          \<and> ts_attemptId s \<noteq> None
          \<and> Option.bind (ts_outputAcceptance s) oa_attemptId = ts_attemptId s)"

text \<open>Identities inside one stage are unique, and every effect names this stage and team.\<close>

definition somes :: "'a option list \<Rightarrow> 'a list" where
  "somes xs = List.map_filter id xs"

definition stage_unique_ok :: "team_stage \<Rightarrow> bool" where
  "stage_unique_ok s \<longleftrightarrow>
     pred_option distinct (ts_requiredMemberIds s) \<and> pred_option distinct (ts_requiredChecks s)
     \<and> distinct (map m_memberId (ts_members s))
     \<and> distinct (somes (map m_name (ts_members s)))
     \<and> distinct (somes (map m_sessionId (ts_members s)))
     \<and> pred_option (\<lambda>es. distinct (map e_effectId es)
          \<and> list_all (\<lambda>e. e_stageId e = ts_stageId s \<and> e_teamId e = ts_teamId s) es) (ts_effects s)
     \<and> pred_option (\<lambda>vs. distinct (map rv_logicalName vs) \<and> distinct (map rv_nativeName vs)
          \<and> distinct (map rv_effectId vs)) (ts_reservations s)
     \<and> pred_option (\<lambda>cs. distinct (map cp_producerMemberId cs)
          \<and> distinct (map cp_artifactId cs)) (ts_captures s)"

definition team_stage_ok :: "team_stage \<Rightarrow> bool" where
  "team_stage_ok s \<longleftrightarrow>
     ts_schemaVersion s = 1
     \<and> nonempty (ts_stageId s) \<and> nonempty (ts_runId s) \<and> nonempty (ts_teamId s)
     \<and> nonempty (ts_leadSessionId s) \<and> is_sha256 (ts_taskSpecificationFingerprint s)
     \<and> pred_option nonempty (ts_attemptId s)
     \<and> pred_option (\<lambda>xs. xs \<noteq> [] \<and> list_all nonempty xs) (ts_requiredMemberIds s)
     \<and> pred_option (\<lambda>xs. xs \<noteq> [] \<and> list_all nonempty xs) (ts_requiredChecks s)
     \<and> pred_option nonempty (ts_primaryMemberId s) \<and> pred_option nonempty (ts_taskId s)
     \<and> pred_option (\<lambda>n. 0 < n) (ts_taskRevision s)
     \<and> list_all member_ok (ts_members s) \<and> pred_option (list_all effect_ok) (ts_effects s)
     \<and> pred_option (list_all reservation_ok) (ts_reservations s)
     \<and> pred_option (list_all capture_ok) (ts_captures s)
     \<and> pred_option output_acceptance_ok (ts_outputAcceptance s)
     \<and> pred_option (\<lambda>c. pred_option nonempty (tc_reason c)) (ts_cancel s)
     \<and> pred_option (\<lambda>c. nonempty (tr_code c)) (ts_recovery s)
     \<and> pred_option execution_ok (ts_execution s)
     \<and> stage_output_ok s \<and> stage_unique_ok s"

section \<open>Run records\<close>

definition run_record_ok :: "run_record \<Rightarrow> bool" where
  "run_record_ok r \<longleftrightarrow>
     r_schemaVersion r \<in> {1, 2, RUN_RECORD_SCHEMA_VERSION}
     \<and> pred_option nonempty (r_blueprintId r) \<and> pred_option run_source_ok (r_source r)
     \<and> run_id_ok (r_runId r) \<and> nonempty (r_definitionRevision r)
     \<and> pred_option (list_all frozen_blueprint_ok) (r_composition r)
     \<and> pred_option is_sha256 (r_documentRevision r) \<and> pred_option parent_run_ok (r_parent r)
     \<and> pred_option digest_dict_ok (r_bindingDigests r)
     \<and> pred_option binding_selections_ok (r_bindingSelections r)
     \<and> pred_option run_context_ok (r_context r) \<and> nonempty (r_commandKey r)
     \<and> list_all attempt_ok (r_attempts r) \<and> pred_option team_stage_ok (r_teamStage r)
     \<and> \<not> (r_bindingAdmission r \<noteq> None \<and> r_bindingDigests r = None)
     \<and> pred_option (\<lambda>s. ts_runId s = r_runId r) (r_teamStage r)"

text \<open>
  The schema's \<open>transform\<close>: the marker becomes the current version, and a record with binding
  digests but no admission marker gets the marker its digests imply.
\<close>

definition run_record_transform :: "run_record \<Rightarrow> run_record" where
  "run_record_transform r =
     (let r1 = r\<lparr>r_schemaVersion := RUN_RECORD_SCHEMA_VERSION\<rparr> in
      case (r_bindingAdmission r1, r_bindingDigests r1) of
        (None, Some d) \<Rightarrow>
          r1\<lparr>r_bindingAdmission := Some (if d = [] then AdmissionPending else AdmissionCaptured)\<rparr>
      | _ \<Rightarrow> r1)"

definition run_record_parse :: "run_record \<Rightarrow> run_record option" where
  "run_record_parse r = (if run_record_ok r then Some (run_record_transform r) else None)"

definition command_record_ok :: "command_record \<Rightarrow> bool" where
  "command_record_ok c \<longleftrightarrow>
     nonempty (c_commandKey c) \<and> nonempty (c_scope c) \<and> nonempty (c_requestId c)
     \<and> nonempty (c_payloadFingerprint c)"

definition run_lifecycle_ok :: "run_lifecycle \<Rightarrow> bool" where
  "run_lifecycle_ok c \<longleftrightarrow> nonempty (lc_runId c)"

section \<open>What parsing keeps\<close>

lemma run_record_transform_frame [frame_simps, simp]:
  "r_runId (run_record_transform r) = r_runId r"
  "r_state (run_record_transform r) = r_state r"
  "r_attempts (run_record_transform r) = r_attempts r"
  "r_teamStage (run_record_transform r) = r_teamStage r"
  "r_log (run_record_transform r) = r_log r"
  "r_seq (run_record_transform r) = r_seq r"
  "r_commandKey (run_record_transform r) = r_commandKey r"
  "r_definitionJson (run_record_transform r) = r_definitionJson r"
  "r_definitionRevision (run_record_transform r) = r_definitionRevision r"
  "r_inputRef (run_record_transform r) = r_inputRef r"
  "r_parent (run_record_transform r) = r_parent r"
  "r_composition (run_record_transform r) = r_composition r"
  "r_bindingDigests (run_record_transform r) = r_bindingDigests r"
  "r_bindingSelections (run_record_transform r) = r_bindingSelections r"
  "r_createdAt (run_record_transform r) = r_createdAt r"
  "r_updatedAt (run_record_transform r) = r_updatedAt r"
  "r_source (run_record_transform r) = r_source r"
  "r_context (run_record_transform r) = r_context r"
  "r_blueprintId (run_record_transform r) = r_blueprintId r"
  "r_documentRevision (run_record_transform r) = r_documentRevision r"
  by (simp_all add: run_record_transform_def Let_def split: option.splits)

lemma run_record_transform_idem [simp]:
  "run_record_transform (run_record_transform r) = run_record_transform r"
  by (simp add: run_record_transform_def Let_def split: option.splits)

lemma run_record_transform_ok: "run_record_ok r \<Longrightarrow> run_record_ok (run_record_transform r)"
  by (auto simp: run_record_ok_def run_record_transform_def Let_def split: option.splits)

lemma run_record_parse_Some:
  "run_record_parse r = Some r' \<longleftrightarrow> run_record_ok r \<and> r' = run_record_transform r"
  by (auto simp: run_record_parse_def)

lemma run_record_parse_stored: "run_record_parse r = Some r' \<Longrightarrow> run_record_parse r' = Some r'"
  by (simp add: run_record_parse_Some run_record_transform_ok)

end
