(* ===== verification/RunStates.thy ===== *)
theory RunStates
  imports RunSchema
begin

text \<open>
  The Run state machine of \<open>orchestration/state.ts\<close> and the closed vocabulary of errors the
  persistence layer throws. A thrown error is a value of \<open>store_error\<close>; an error whose class the
  code never inspects is \<open>OtherError\<close>.
\<close>

section \<open>Errors\<close>

datatype store_error =
    RunNotFoundError string
  | TerminalStateError string run_state
  | AttemptSettledError
  | DecisionConflictError
  | TeamStageConflictError string string
  | TeamTaskConflictError string string
  | TeamOutputRejectedError string string
  | TeamEffectReplayError
  | TeamSettlementReplay run_record
  | TeamArtifactError string
  | TeamRecoveryUnchangedError string
  | IllegalTransitionError run_state run_state
  | RecoveryStaleError string nat nat
  | ManagedNodeError string
  | CommandConflictError string string string
  | CommandIdentityInvalidError string string
  | RunLifecycleConflictError string
  | DurabilityFailureError string
  | OtherError string

section \<open>The transition table\<close>

fun ALLOWED :: "run_state \<Rightarrow> run_state list" where
  "ALLOWED Queued = [Running, Cancelling, Cancelled, Succeeded, Failed, TimedOut, RecoveryRequired]"
| "ALLOWED Running = [WaitingInput, Cancelling, Cancelled, Succeeded, Failed, TimedOut, RecoveryRequired]"
| "ALLOWED WaitingInput = [Running, Cancelling, Cancelled, RecoveryRequired]"
| "ALLOWED Cancelling = [Cancelled, Failed, TimedOut, Succeeded, RecoveryRequired]"
| "ALLOWED RecoveryRequired = [Succeeded, Failed, Cancelled, TimedOut]"
| "ALLOWED Succeeded = []"
| "ALLOWED Failed = []"
| "ALLOWED Cancelled = []"
| "ALLOWED TimedOut = []"

definition isTerminal :: "run_state \<Rightarrow> bool" where
  "isTerminal s \<longleftrightarrow> s \<in> set TERMINAL_RUN_STATES"

definition canTransitionRun :: "run_state \<Rightarrow> run_state \<Rightarrow> bool" where
  "canTransitionRun st st2 \<longleftrightarrow>
     (if st = st2 then True
      else if st \<in> set TERMINAL_RUN_STATES then False
      else st2 \<in> set (ALLOWED st))"

definition transitionRun :: "run_state \<Rightarrow> run_state \<Rightarrow> store_error + run_state" where
  "transitionRun st st2 =
     (if canTransitionRun st st2 then Inr st2 else Inl (IllegalTransitionError st st2))"

definition attempt_terminal :: "attempt_state \<Rightarrow> bool" where
  "attempt_terminal s \<longleftrightarrow> s \<in> set TERMINAL_ATTEMPTS"

instantiation run_state :: enum
begin

definition enum_run_state :: "run_state list" where
  "enum_run_state =
     [Queued, Running, WaitingInput, Cancelling, RecoveryRequired, Succeeded, Failed, Cancelled, TimedOut]"

definition enum_all_run_state :: "(run_state \<Rightarrow> bool) \<Rightarrow> bool" where
  "enum_all_run_state P \<longleftrightarrow> list_all P enum_class.enum"

definition enum_ex_run_state :: "(run_state \<Rightarrow> bool) \<Rightarrow> bool" where
  "enum_ex_run_state P \<longleftrightarrow> list_ex P enum_class.enum"

instance
proof
  show *: "(UNIV :: run_state set) = set enum_class.enum"
    unfolding enum_run_state_def using run_state.exhaust by auto
  show "distinct (enum_class.enum :: run_state list)"
    by (simp add: enum_run_state_def)
  show "enum_class.enum_all P = Ball UNIV P" for P :: "run_state \<Rightarrow> bool"
    unfolding enum_all_run_state_def * by (simp add: list_all_iff)
  show "enum_class.enum_ex P = Bex UNIV P" for P :: "run_state \<Rightarrow> bool"
    unfolding enum_ex_run_state_def * by (simp add: list_ex_iff)
qed

end

section \<open>Facts about the table\<close>

text \<open>
  The phase of a state: admission, active work, the cancellation cutoff, recovery, settled.
  No legal transition moves to an earlier phase.
\<close>

fun run_phase :: "run_state \<Rightarrow> nat" where
  "run_phase Queued = 0"
| "run_phase Running = 1"
| "run_phase WaitingInput = 1"
| "run_phase Cancelling = 2"
| "run_phase RecoveryRequired = 3"
| "run_phase _ = 4"

lemma isTerminal_iff_phase: "isTerminal s \<longleftrightarrow> run_phase s = 4"
  by (cases s) (simp_all add: isTerminal_def TERMINAL_RUN_STATES_def)

lemma isTerminal_simps [simp]:
  "\<not> isTerminal Queued" "\<not> isTerminal Running" "\<not> isTerminal WaitingInput"
  "\<not> isTerminal Cancelling" "\<not> isTerminal RecoveryRequired"
  "isTerminal Succeeded" "isTerminal Failed" "isTerminal Cancelled" "isTerminal TimedOut"
  by (simp_all add: isTerminal_def TERMINAL_RUN_STATES_def)

lemma attempt_terminal_simps [simp]:
  "\<not> attempt_terminal APreparing" "\<not> attempt_terminal AReady" "\<not> attempt_terminal ARunning"
  "\<not> attempt_terminal AWaitingInput" "\<not> attempt_terminal ACancelling"
  "\<not> attempt_terminal ARecoveryRequired" "attempt_terminal ASucceeded" "attempt_terminal AFailed"
  "attempt_terminal ACancelled" "attempt_terminal ATimedOut" "attempt_terminal ASkipped"
  by (simp_all add: attempt_terminal_def TERMINAL_ATTEMPTS_def)

lemma canTransitionRun_refl [simp]: "canTransitionRun s s"
  by (simp add: canTransitionRun_def)

lemma canTransitionRun_table:
  "canTransitionRun s t \<longleftrightarrow> s = t \<or> t \<in> set (ALLOWED s)"
  by (cases s) (auto simp: canTransitionRun_def TERMINAL_RUN_STATES_def)

lemma canTransitionRun_phase: "canTransitionRun s t \<Longrightarrow> run_phase s \<le> run_phase t"
  by (cases s) (auto simp: canTransitionRun_table)

lemma canTransitionRun_terminal: "canTransitionRun s t \<Longrightarrow> isTerminal s \<Longrightarrow> t = s"
  by (simp add: canTransitionRun_def isTerminal_def split: if_splits)

lemma transitionRun_Inr: "transitionRun s t = Inr u \<longleftrightarrow> canTransitionRun s t \<and> u = t"
  by (auto simp: transitionRun_def)

text \<open>A history of one Run: consecutive durable states, each a legal transition.\<close>

inductive run_path :: "run_state \<Rightarrow> run_state \<Rightarrow> bool" where
  path_refl: "run_path s s"
| path_step: "run_path s t \<Longrightarrow> canTransitionRun t u \<Longrightarrow> run_path s u"

lemma run_path_trans: "run_path s t \<Longrightarrow> run_path t u \<Longrightarrow> run_path s u"
  by (rotate_tac, induction rule: run_path.induct) (auto intro: run_path.intros)

lemma run_path_phase: "run_path s t \<Longrightarrow> run_phase s \<le> run_phase t"
  by (induction rule: run_path.induct) (auto dest: canTransitionRun_phase)

lemma run_path_terminal: "run_path s t \<Longrightarrow> isTerminal s \<Longrightarrow> t = s"
  by (induction rule: run_path.induct) (auto dest: canTransitionRun_terminal)

end
