(* ===== verification/Domain.thy ===== *)
theory Domain
  imports RunStates
begin

text \<open>
  The durable tables of \<open>persistence/directory-domain.ts\<close> behind the interface
  \<open>KvTableLike\<close> of \<open>persistence/domain.ts\<close>. A table is the rows on disk together with what
  decides whether a mutation may land: the domain is open, the writer lease still belongs to
  this process (the fence), and whether the file system fails before or after the rename that
  publishes a row. Every mutation of a key is serialized by the table, so one call is one
  atomic step.
\<close>

section \<open>Tables\<close>

text \<open>
  \<open>FaultBefore\<close>: the temporary file or its rename fails, nothing is published.
  \<open>FaultAfter\<close>: the row is published, then the directory sync or the event append fails, so the
  caller sees an error although the write is durable.
\<close>

datatype write_fault = NoFault | FaultBefore | FaultAfter

record 'v table =
  t_rows :: "'v dict"
  t_closed :: bool
  t_owned :: bool
  t_fault :: write_fault

text \<open>
  \<open>parse key value\<close> is the schema check with its transform, \<open>hidden\<close> the lazy archive of
  definition-v1 Runs, \<open>key_ok\<close> the storage-key grammar of \<open>recordPath\<close>.
\<close>

record 'v table_schema =
  sch_parse :: "string \<Rightarrow> 'v \<Rightarrow> 'v option"
  sch_hidden :: "'v \<Rightarrow> bool"
  sch_key_ok :: "string \<Rightarrow> bool"

definition table_get :: "'v table_schema \<Rightarrow> 'v table \<Rightarrow> string \<Rightarrow> store_error + 'v option" where
  "table_get S t k =
     (if t_closed t then Inl (OtherError ''directory domain is closed'')
      else if \<not> sch_key_ok S k then Inl (OtherError ''invalid run ID'')
      else case map_of (t_rows t) k of
             None \<Rightarrow> Inr None
           | Some v \<Rightarrow>
               if sch_hidden S v then Inr None
               else case sch_parse S k v of
                      None \<Rightarrow> Inl (OtherError ''directory record failed schema validation'')
                    | Some w \<Rightarrow> Inr (Some w))"

definition table_write :: "'v table \<Rightarrow> string \<Rightarrow> 'v \<Rightarrow> (store_error + 'v) \<times> 'v table" where
  "table_write t k v =
     (case t_fault t of
        NoFault \<Rightarrow> (Inr v, t\<lparr>t_rows := AList.update k v (t_rows t)\<rparr>)
      | FaultBefore \<Rightarrow> (Inl (OtherError ''write failed''), t)
      | FaultAfter \<Rightarrow> (Inl (OtherError ''write failed''), t\<lparr>t_rows := AList.update k v (t_rows t)\<rparr>))"

definition table_put ::
  "'v table_schema \<Rightarrow> 'v table \<Rightarrow> string \<Rightarrow> 'v \<Rightarrow> (store_error + 'v) \<times> 'v table" where
  "table_put S t k v =
     (if t_closed t then (Inl (OtherError ''directory domain is closed''), t)
      else if \<not> t_owned t then (Inl (OtherError ''coordinator lease lost''), t)
      else case sch_parse S k v of
             None \<Rightarrow> (Inl (OtherError ''directory record failed schema validation''), t)
           | Some w \<Rightarrow>
               if \<not> sch_key_ok S k then (Inl (OtherError ''invalid run ID''), t)
               else table_write t k w)"

definition table_update ::
  "'v table_schema \<Rightarrow> 'v table \<Rightarrow> string \<Rightarrow> ('v option \<Rightarrow> store_error + 'v)
     \<Rightarrow> (store_error + 'v) \<times> 'v table" where
  "table_update S t k updateFn =
     (case table_get S t k of
        Inl e \<Rightarrow> (Inl e, t)
      | Inr current \<Rightarrow>
          (case updateFn current of
             Inl e \<Rightarrow> (Inl e, t)
           | Inr v \<Rightarrow>
               (case sch_parse S k v of
                  None \<Rightarrow> (Inl (OtherError ''directory record failed schema validation''), t)
                | Some w \<Rightarrow>
                    if \<not> t_owned t then (Inl (OtherError ''coordinator lease lost''), t)
                    else table_write t k w)))"

definition table_delete :: "'v table_schema \<Rightarrow> 'v table \<Rightarrow> string \<Rightarrow> (store_error + unit) \<times> 'v table" where
  "table_delete S t k =
     (if t_closed t then (Inl (OtherError ''directory domain is closed''), t)
      else if \<not> t_owned t then (Inl (OtherError ''coordinator lease lost''), t)
      else if \<not> sch_key_ok S k then (Inl (OtherError ''invalid run ID''), t)
      else case t_fault t of
             NoFault \<Rightarrow> (Inr (), t\<lparr>t_rows := AList.delete k (t_rows t)\<rparr>)
           | FaultBefore \<Rightarrow> (Inl (OtherError ''write failed''), t)
           | FaultAfter \<Rightarrow> (Inl (OtherError ''write failed''), t\<lparr>t_rows := AList.delete k (t_rows t)\<rparr>))"

text \<open>\<open>entries()\<close>: every owned row in directory order; one unreadable row fails the listing.\<close>

fun table_entries_rows ::
  "'v table_schema \<Rightarrow> 'v dict \<Rightarrow> store_error + 'v dict" where
  "table_entries_rows S [] = Inr []"
| "table_entries_rows S ((k, v) # rows) =
     (if \<not> sch_key_ok S k \<or> sch_hidden S v then table_entries_rows S rows
      else case sch_parse S k v of
             None \<Rightarrow> Inl (OtherError ''directory record is unreadable'')
           | Some w \<Rightarrow>
               (case table_entries_rows S rows of
                  Inl e \<Rightarrow> Inl e
                | Inr es \<Rightarrow> Inr ((k, w) # es)))"

definition table_entries :: "'v table_schema \<Rightarrow> 'v table \<Rightarrow> store_error + 'v dict" where
  "table_entries S t =
     (if t_closed t then Inl (OtherError ''directory domain is closed'')
      else table_entries_rows S (t_rows t))"

section \<open>The three schemas\<close>

text \<open>\<open>legacyRunValue\<close> and \<open>isLegacyDefinition\<close>: the frozen definition declares schema 1.\<close>

definition isLegacyDefinition :: "run_record \<Rightarrow> bool" where
  "isLegacyDefinition r \<longleftrightarrow>
     (case r_definitionJson r of
        None \<Rightarrow> False
      | Some v \<Rightarrow> jfield ''schemaVersion'' v = JNum (Finite 1))"

definition runs_schema :: "run_record table_schema" where
  "runs_schema = \<lparr>
     sch_parse = (\<lambda>k r. case run_record_parse r of
        None \<Rightarrow> None | Some r' \<Rightarrow> if r_runId r' = k then Some r' else None),
     sch_hidden = isLegacyDefinition,
     sch_key_ok = run_id_ok \<rparr>"

definition commands_schema :: "command_record table_schema" where
  "commands_schema = \<lparr>
     sch_parse = (\<lambda>k c. if command_record_ok c then Some c else None),
     sch_hidden = (\<lambda>_. False),
     sch_key_ok = (\<lambda>_. True) \<rparr>"

definition lifecycle_schema :: "run_lifecycle table_schema" where
  "lifecycle_schema = \<lparr>
     sch_parse = (\<lambda>k c. if run_lifecycle_ok c then Some c else None),
     sch_hidden = (\<lambda>_. False),
     sch_key_ok = (\<lambda>_. True) \<rparr>"

record domain =
  d_runs :: "run_record table"
  d_commands :: "command_record table"
  d_lifecycle :: "run_lifecycle table"

definition open_table :: "'v dict \<Rightarrow> 'v table" where
  "open_table rows = \<lparr>t_rows = rows, t_closed = False, t_owned = True, t_fault = NoFault\<rparr>"

definition open_domain :: "run_record dict \<Rightarrow> command_record dict \<Rightarrow> run_lifecycle dict \<Rightarrow> domain" where
  "open_domain rs cs ls =
     \<lparr>d_runs = open_table rs, d_commands = open_table cs, d_lifecycle = open_table ls\<rparr>"

section \<open>The interface the store relies on\<close>

text \<open>
  The laws of one key-value table as the store uses it: reading back what an acknowledged write
  stored, leaving every other key alone, and publishing nothing that the schema or the update
  function refused. \<open>visible\<close> rows are the ones a later \<open>get\<close> returns.
\<close>

locale kv_table =
  fixes get :: "'t \<Rightarrow> string \<Rightarrow> store_error + 'v option"
    and put :: "'t \<Rightarrow> string \<Rightarrow> 'v \<Rightarrow> (store_error + 'v) \<times> 't"
    and update :: "'t \<Rightarrow> string \<Rightarrow> ('v option \<Rightarrow> store_error + 'v) \<Rightarrow> (store_error + 'v) \<times> 't"
    and norm :: "'v \<Rightarrow> 'v"
    and visible :: "'v \<Rightarrow> bool"
  assumes put_written:
      "put t k v = (Inr w, t') \<Longrightarrow> w = norm v \<and> (visible w \<longrightarrow> get t' k = Inr (Some w))"
    and put_rows:
      "put t k v = (res, t') \<Longrightarrow> get t' j = Inr (Some x) \<Longrightarrow>
         get t j = Inr (Some x) \<or> (j = k \<and> x = norm v)"
    and update_written:
      "update t k f = (Inr w, t') \<Longrightarrow>
         (\<exists>cur v. get t k = Inr cur \<and> f cur = Inr v \<and> w = norm v)
         \<and> (visible w \<longrightarrow> get t' k = Inr (Some w))"
    and update_rows:
      "update t k f = (res, t') \<Longrightarrow> get t' j = Inr (Some x) \<Longrightarrow>
         get t j = Inr (Some x)
         \<or> (j = k \<and> (\<exists>cur v. get t k = Inr cur \<and> f cur = Inr v \<and> x = norm v))"
    and update_other:
      "update t k f = (res, t') \<Longrightarrow> j \<noteq> k \<Longrightarrow> get t' j = get t j"
    and update_kept:
      "update t k f = (res, t') \<Longrightarrow> get t k = Inr (Some x) \<Longrightarrow>
         get t' k = Inr (Some x)
         \<or> (\<exists>v. f (Some x) = Inr v \<and> (visible (norm v) \<longrightarrow> get t' k = Inr (Some (norm v))))"
    and put_other:
      "put t k v = (res, t') \<Longrightarrow> j \<noteq> k \<Longrightarrow> get t' j = get t j"
begin

text \<open>
  The read-modify-write rule: a property of every visible row survives an update whose
  function keeps it, also when the write is reported as failed after it was published.
\<close>

lemma update_invariant:
  assumes rows: "\<And>j x. get t j = Inr (Some x) \<Longrightarrow> P j x"
    and step: "\<And>cur v. get t k = Inr cur \<Longrightarrow> f cur = Inr v \<Longrightarrow> P k (norm v)"
    and upd: "update t k f = (res, t')" and got: "get t' j = Inr (Some x)"
  shows "P j x"
  using update_rows [OF upd got] rows step by blast

lemma put_invariant:
  assumes rows: "\<And>j x. get t j = Inr (Some x) \<Longrightarrow> P j x"
    and new: "P k (norm v)"
    and upd: "put t k v = (res, t')" and got: "get t' j = Inr (Some x)"
  shows "P j x"
  using put_rows [OF upd got] rows new by blast

lemma update_refused:
  assumes "\<And>cur. get t k = Inr cur \<Longrightarrow> \<exists>e. f cur = Inl e"
    and "update t k f = (res, t')"
  shows "\<exists>e. res = Inl e"
proof (rule ccontr)
  assume "\<not> (\<exists>e. res = Inl e)"
  then obtain w where "res = Inr w" by (cases res) auto
  with assms update_written [of t k f w t'] show False by fastforce
qed

end

section \<open>The tables satisfy the interface\<close>

definition runs_get :: "run_record table \<Rightarrow> string \<Rightarrow> store_error + run_record option" where
  "runs_get = table_get runs_schema"

definition runs_put :: "run_record table \<Rightarrow> string \<Rightarrow> run_record \<Rightarrow> (store_error + run_record) \<times> run_record table" where
  "runs_put = table_put runs_schema"

definition runs_update ::
  "run_record table \<Rightarrow> string \<Rightarrow> (run_record option \<Rightarrow> store_error + run_record)
     \<Rightarrow> (store_error + run_record) \<times> run_record table" where
  "runs_update = table_update runs_schema"

definition commands_get :: "command_record table \<Rightarrow> string \<Rightarrow> store_error + command_record option" where
  "commands_get = table_get commands_schema"

definition commands_put ::
  "command_record table \<Rightarrow> string \<Rightarrow> command_record \<Rightarrow> (store_error + command_record) \<times> command_record table" where
  "commands_put = table_put commands_schema"

definition commands_update ::
  "command_record table \<Rightarrow> string \<Rightarrow> (command_record option \<Rightarrow> store_error + command_record)
     \<Rightarrow> (store_error + command_record) \<times> command_record table" where
  "commands_update = table_update commands_schema"

definition lifecycle_get :: "run_lifecycle table \<Rightarrow> string \<Rightarrow> store_error + run_lifecycle option" where
  "lifecycle_get = table_get lifecycle_schema"

definition lifecycle_put ::
  "run_lifecycle table \<Rightarrow> string \<Rightarrow> run_lifecycle \<Rightarrow> (store_error + run_lifecycle) \<times> run_lifecycle table" where
  "lifecycle_put = table_put lifecycle_schema"

text \<open>A schema whose parse normalizes (\<open>n\<close>), is stable on its own output and keeps visibility.\<close>

definition schema_norm :: "'v table_schema \<Rightarrow> ('v \<Rightarrow> 'v) \<Rightarrow> bool" where
  "schema_norm S n \<longleftrightarrow>
     (\<forall>k v w. sch_parse S k v = Some w \<longrightarrow> w = n v \<and> sch_parse S k w = Some w)"

lemma table_write_cases:
  assumes "table_write t k w = (res, t')"
  obtains "t' = t" "\<exists>e. res = Inl e"
  | "t' = t\<lparr>t_rows := AList.update k w (t_rows t)\<rparr>" "res = Inr w \<or> (\<exists>e. res = Inl e)"
  using assms by (cases "t_fault t") (auto simp: table_write_def)

lemma table_get_after_write:
  assumes "schema_norm S n" and "sch_parse S k v = Some w"
  shows "table_get S (t\<lparr>t_rows := AList.update k w (t_rows t)\<rparr>) j =
     (if j = k then
        if t_closed t then Inl (OtherError ''directory domain is closed'')
        else if \<not> sch_key_ok S k then Inl (OtherError ''invalid run ID'')
        else if sch_hidden S w then Inr None else Inr (Some w)
      else table_get S t j)"
proof -
  have "sch_parse S k w = Some w"
    using assms unfolding schema_norm_def by blast
  then show ?thesis
    by (simp add: table_get_def update_conv' split: option.splits)
qed

lemma table_put_spec:
  assumes S: "schema_norm S n" and put: "table_put S t k v = (res, t')"
  shows "(\<exists>e. t' = t \<and> res = Inl e)
     \<or> (\<exists>w. sch_parse S k v = Some w \<and> w = n v \<and> \<not> t_closed t \<and> sch_key_ok S k
          \<and> t' = t\<lparr>t_rows := AList.update k w (t_rows t)\<rparr> \<and> (res = Inr w \<or> (\<exists>e. res = Inl e)))"
proof (cases "\<not> t_closed t \<and> t_owned t \<and> sch_key_ok S k")
  case False
  with put show ?thesis by (auto simp: table_put_def split: if_splits option.splits)
next
  case ok: True
  show ?thesis
  proof (cases "sch_parse S k v")
    case None
    with ok put show ?thesis by (auto simp: table_put_def)
  next
    case (Some w)
    with ok put have "table_write t k w = (res, t')" by (simp add: table_put_def)
    moreover from S Some have "w = n v" by (simp add: schema_norm_def)
    ultimately show ?thesis using ok Some by (elim table_write_cases) auto
  qed
qed

lemma table_update_spec:
  assumes S: "schema_norm S n" and upd: "table_update S t k f = (res, t')"
  shows "(\<exists>e. t' = t \<and> res = Inl e)
     \<or> (\<exists>cur v w. table_get S t k = Inr cur \<and> f cur = Inr v \<and> sch_parse S k v = Some w \<and> w = n v
          \<and> \<not> t_closed t \<and> sch_key_ok S k
          \<and> t' = t\<lparr>t_rows := AList.update k w (t_rows t)\<rparr> \<and> (res = Inr w \<or> (\<exists>e. res = Inl e)))"
proof (cases "\<exists>cur v w. table_get S t k = Inr cur \<and> f cur = Inr v \<and> sch_parse S k v = Some w \<and> t_owned t")
  case False
  with upd have "t' = t \<and> (\<exists>e. res = Inl e)"
    by (cases "table_get S t k")
      (auto simp: table_update_def split: if_splits sum.splits option.splits, metis)
  then show ?thesis by blast
next
  case True
  then obtain cur v w where g: "table_get S t k = Inr cur" "f cur = Inr v" "sch_parse S k v = Some w"
    and own: "t_owned t" by blast
  with upd have "table_write t k w = (res, t')" by (simp add: table_update_def)
  moreover from g(1) have "\<not> t_closed t" "sch_key_ok S k"
    by (auto simp: table_get_def split: if_splits)
  moreover from S g(3) have "w = n v" by (simp add: schema_norm_def)
  ultimately show ?thesis using g by (elim table_write_cases) auto
qed

lemma table_kv:
  assumes S: "schema_norm S n"
  shows "kv_table (table_get S) (table_put S) (table_update S) n (\<lambda>v. \<not> sch_hidden S v)"
proof
  fix t k v w t'
  assume "table_put S t k v = (Inr w, t')"
  with table_put_spec [OF S this] show "w = n v \<and> (\<not> sch_hidden S w \<longrightarrow> table_get S t' k = Inr (Some w))"
    by (auto simp: table_get_after_write [OF S])
next
  fix t k v res t' j x
  assume "table_put S t k v = (res, t')" and "table_get S t' j = Inr (Some x)"
  then show "table_get S t j = Inr (Some x) \<or> (j = k \<and> x = n v)"
    using table_put_spec [OF S] by (fastforce simp: table_get_after_write [OF S] split: if_splits)
next
  fix t k f w t'
  assume "table_update S t k f = (Inr w, t')"
  with table_update_spec [OF S this]
  show "(\<exists>cur v. table_get S t k = Inr cur \<and> f cur = Inr v \<and> w = n v)
      \<and> (\<not> sch_hidden S w \<longrightarrow> table_get S t' k = Inr (Some w))"
    by (auto simp: table_get_after_write [OF S])
next
  fix t k f res t' j x
  assume "table_update S t k f = (res, t')" and "table_get S t' j = Inr (Some x)"
  then show "table_get S t j = Inr (Some x)
      \<or> (j = k \<and> (\<exists>cur v. table_get S t k = Inr cur \<and> f cur = Inr v \<and> x = n v))"
    using table_update_spec [OF S] by (fastforce simp: table_get_after_write [OF S] split: if_splits)
next
  fix t k f res t' j
  assume "table_update S t k f = (res, t')" and "j \<noteq> k"
  then show "table_get S t' j = table_get S t j"
    using table_update_spec [OF S] by (fastforce simp: table_get_after_write [OF S])
next
  fix t k f res t' x
  assume "table_update S t k f = (res, t')" and "table_get S t k = Inr (Some x)"
  then show "table_get S t' k = Inr (Some x)
      \<or> (\<exists>v. f (Some x) = Inr v \<and> (\<not> sch_hidden S (n v) \<longrightarrow> table_get S t' k = Inr (Some (n v))))"
    using table_update_spec [OF S] by (fastforce simp: table_get_after_write [OF S])
next
  fix t k v res t' j
  assume "table_put S t k v = (res, t')" and "j \<noteq> k"
  then show "table_get S t' j = table_get S t j"
    using table_put_spec [OF S] by (fastforce simp: table_get_after_write [OF S])
qed

lemma schema_norms:
  "schema_norm runs_schema run_record_transform"
  "schema_norm commands_schema id"
  "schema_norm lifecycle_schema id"
  by (auto simp: schema_norm_def runs_schema_def commands_schema_def lifecycle_schema_def
      run_record_parse_def run_record_transform_ok split: option.splits if_splits)

interpretation runs_kv: kv_table runs_get runs_put runs_update run_record_transform
    "\<lambda>r. \<not> isLegacyDefinition r"
  using table_kv [OF schema_norms(1)]
  by (simp add: runs_get_def runs_put_def runs_update_def) (simp add: runs_schema_def)

interpretation commands_kv: kv_table commands_get commands_put commands_update id "\<lambda>_. True"
  using table_kv [OF schema_norms(2)]
  by (simp add: commands_get_def commands_put_def commands_update_def) (simp add: commands_schema_def)

end
