(* ===== verification/Admission.thy ===== *)
theory Admission
  imports Domain
begin

text \<open>
  Command admission (\<open>persistence/command-admission.ts\<close>): a start command is identified by its
  scope and request id; replaying it with the same payload fingerprint returns the original
  record, another payload under the same identity is a conflict.
\<close>

record admission_request =
  ar_scope :: string
  ar_requestId :: string
  ar_payloadFingerprint :: string

record admission_result =
  ad_commandKey :: string
  ad_runId :: "string option"
  ad_replayed :: bool
  ad_record :: command_record

text \<open>\<open>KEY_PATTERN\<close>: \<open>/^[a-zA-Z0-9_-]+$/\<close>.\<close>

definition KEY_PATTERN :: "string \<Rightarrow> bool" where
  "KEY_PATTERN s \<longleftrightarrow> s \<noteq> [] \<and> list_all (\<lambda>c. is_alnum c \<or> c = CHR ''_'' \<or> c = CHR ''-'') s"

definition commandKey :: "string \<Rightarrow> string \<Rightarrow> store_error + string" where
  "commandKey scope requestId =
     (if \<not> KEY_PATTERN scope \<or> \<not> KEY_PATTERN requestId
      then Inl (CommandIdentityInvalidError scope requestId)
      else Inr (scope @ ''--'' @ requestId))"

definition admit ::
  "admission_request \<Rightarrow> int \<Rightarrow> command_record table \<Rightarrow> (store_error + admission_result) \<times> command_record table" where
  "admit request now t =
     (case commandKey (ar_scope request) (ar_requestId request) of
        Inl e \<Rightarrow> (Inl e, t)
      | Inr key \<Rightarrow>
          (case commands_get t key of
             Inl _ \<Rightarrow> (Inl (DurabilityFailureError ''command get''), t)
           | Inr (Some existing) \<Rightarrow>
               if c_payloadFingerprint existing \<noteq> ar_payloadFingerprint request
               then (Inl (CommandConflictError key (c_payloadFingerprint existing)
                       (ar_payloadFingerprint request)), t)
               else (Inr \<lparr>ad_commandKey = key, ad_runId = c_runId existing, ad_replayed = True,
                          ad_record = existing\<rparr>, t)
           | Inr None \<Rightarrow>
               (let record = \<lparr>c_commandKey = key, c_scope = ar_scope request,
                       c_requestId = ar_requestId request,
                       c_payloadFingerprint = ar_payloadFingerprint request,
                       c_runId = None, c_createdAt = now\<rparr>
                in case commands_put t key record of
                     (Inl _, t') \<Rightarrow> (Inl (DurabilityFailureError ''command put''), t')
                   | (Inr _, t') \<Rightarrow>
                       (Inr \<lparr>ad_commandKey = key, ad_runId = None, ad_replayed = False,
                             ad_record = record\<rparr>, t'))))"

definition bind_fn :: "string \<Rightarrow> command_record option \<Rightarrow> store_error + command_record" where
  "bind_fn runId value =
     (case value of
        None \<Rightarrow> Inl (OtherError ''vanished before bind'')
      | Some c \<Rightarrow>
          if c_runId c \<noteq> None \<and> c_runId c \<noteq> Some runId then Inl (OtherError ''already bound'')
          else Inr (c\<lparr>c_runId := Some runId\<rparr>))"

definition bindRun :: "string \<Rightarrow> string \<Rightarrow> command_record table \<Rightarrow> (store_error + unit) \<times> command_record table" where
  "bindRun key runId t =
     (case commands_update t key (bind_fn runId) of
        (Inr _, t') \<Rightarrow> (Inr (), t')
      | (Inl e, t') \<Rightarrow>
          if e = OtherError ''already bound'' then (Inl (CommandConflictError key ''bound'' runId), t')
          else (Inl (DurabilityFailureError ''command bind''), t'))"

section \<open>Identity of a command\<close>

lemma commandKey_Inr:
  "commandKey s i = Inr k \<longleftrightarrow> KEY_PATTERN s \<and> KEY_PATTERN i \<and> k = s @ ''--'' @ i"
  by (auto simp: commandKey_def)

lemma commandKey_nonempty: "commandKey s i = Inr k \<Longrightarrow> nonempty k"
  by (auto simp: commandKey_Inr nonempty_def)

text \<open>
  Keys are joined with \<open>--\<close>, which both parts may contain. Where no scope contains a dash (the
  runtime's own scopes are plain words) the key determines the identity.
\<close>

lemma dashless_prefix_unique:
  "CHR ''-'' \<notin> set s \<Longrightarrow> CHR ''-'' \<notin> set s' \<Longrightarrow> s @ CHR ''-'' # i = s' @ CHR ''-'' # i' \<Longrightarrow> s = s' \<and> i = i'"
proof (induction s arbitrary: s')
  case Nil
  then show ?case by (cases s') auto
next
  case (Cons c s)
  then show ?case by (cases s') auto
qed

section \<open>What admission does to the command table\<close>

lemma admit_Inr:
  assumes "admit q now t = (Inr ad, t')"
  shows "commandKey (ar_scope q) (ar_requestId q) = Inr (ad_commandKey ad)
     \<and> c_payloadFingerprint (ad_record ad) = ar_payloadFingerprint q
     \<and> (ad_replayed ad \<longrightarrow> t' = t \<and> commands_get t (ad_commandKey ad) = Inr (Some (ad_record ad))
            \<and> ad_runId ad = c_runId (ad_record ad))
     \<and> (\<not> ad_replayed ad \<longrightarrow> commands_get t (ad_commandKey ad) = Inr None \<and> ad_runId ad = None
            \<and> c_runId (ad_record ad) = None
            \<and> commands_get t' (ad_commandKey ad) = Inr (Some (ad_record ad)))"
  using assms commands_kv.put_written
  by (auto simp: admit_def Let_def split: sum.splits option.splits if_splits prod.splits)

lemma admit_rows:
  assumes "admit q now t = (res, t')" and "commands_get t' j = Inr (Some c)"
  shows "commands_get t j = Inr (Some c) \<or> (c_runId c = None)"
  using assms
  by (auto simp: admit_def Let_def split: sum.splits option.splits if_splits prod.splits
      dest: commands_kv.put_rows)

text \<open>A command is bound at most once: rebinding to another Run is refused.\<close>

lemma bindRun_rows:
  assumes "bindRun key rid t = (res, t')" and "commands_get t' j = Inr (Some c)"
  shows "commands_get t j = Inr (Some c) \<or> (j = key \<and> c_runId c = Some rid
      \<and> (\<exists>c0. commands_get t key = Inr (Some c0) \<and> (c_runId c0 = None \<or> c_runId c0 = Some rid)
           \<and> c = c0\<lparr>c_runId := Some rid\<rparr>))"
proof -
  from assms(1) obtain res' where "commands_update t key (bind_fn rid) = (res', t')"
    by (auto simp: bindRun_def split: prod.splits sum.splits if_splits)
  from commands_kv.update_rows [OF this assms(2)] show ?thesis
    by (auto simp: bind_fn_def split: option.splits if_splits)
qed

lemma bindRun_bound:
  "bindRun key rid t = (Inr (), t') \<Longrightarrow> \<exists>c. commands_get t' key = Inr (Some c) \<and> c_runId c = Some rid"
  using commands_kv.update_written
  by (fastforce simp: bindRun_def bind_fn_def split: prod.splits sum.splits if_splits option.splits)

end
