(* ===== verification/StoreCore.thy ===== *)
theory StoreCore
  imports Admission
begin

text \<open>
  The atomic transition of \<open>persistence/run-store.ts\<close>: reads, the reducer protocol
  \<open>applyTransition\<close> with its guards and error filter, and the contract every reducer of the
  program meets. A reducer is a function from the draft to the changed draft or a thrown error.
  \<open>clk\<close> gives the values of the \<open>Date.now()\<close> calls of one operation, indexed by call site.
\<close>

definition LOG_CAP :: nat where
  "LOG_CAP = 200"

section \<open>Comparisons\<close>

text \<open>
  \<open>isDeepStrictEqual\<close> on two dictionaries: the order of the keys does not matter. For digests
  this is also what \<open>sameDigests\<close> computes.
\<close>

definition same_dict :: "'a dict \<Rightarrow> 'a dict \<Rightarrow> bool" where
  "same_dict a b \<longleftrightarrow> length a = length b \<and> list_all (\<lambda>(k, _). map_of b k \<noteq> None \<and> map_of a k = map_of b k) a"

definition sameDigests :: "digests \<Rightarrow> digests \<Rightarrow> bool" where
  "sameDigests a b \<longleftrightarrow>
     length a = length b \<and> list_all (\<lambda>(k, _). map_of b k \<noteq> None \<and> map_of a k = map_of b k) a"

text \<open>\<open>s.includes(needle)\<close>\<close>

definition str_includes :: "string \<Rightarrow> string \<Rightarrow> bool" where
  "str_includes s needle \<longleftrightarrow> list_ex (\<lambda>i. take (length needle) (drop i s) = needle) [0..<Suc (length s)]"

section \<open>Reading\<close>

definition tryGet :: "string \<Rightarrow> domain \<Rightarrow> store_error + run_record option" where
  "tryGet runId d =
     (case runs_get (d_runs d) runId of
        Inl _ \<Rightarrow> Inl (DurabilityFailureError ''run read'')
      | Inr None \<Rightarrow> Inr None
      | Inr (Some r) \<Rightarrow> if isLegacyDefinition r then Inr None else Inr (Some r))"

definition get_run :: "string \<Rightarrow> domain \<Rightarrow> store_error + run_record" where
  "get_run runId d =
     (case tryGet runId d of
        Inl e \<Rightarrow> Inl e
      | Inr None \<Rightarrow> Inl (RunNotFoundError runId)
      | Inr (Some r) \<Rightarrow> Inr r)"

definition listRunIds :: "domain \<Rightarrow> store_error + string list" where
  "listRunIds d =
     (case table_entries runs_schema (d_runs d) of
        Inl _ \<Rightarrow> Inl (DurabilityFailureError ''run list'')
      | Inr es \<Rightarrow> Inr (sort (map fst (filter (\<lambda>(_, r). \<not> isLegacyDefinition r) es))))"

section \<open>One atomic transition\<close>

definition acceptance_fact :: "string \<Rightarrow> diag_acceptance" where
  "acceptance_fact c = \<lparr>da_code = c, da_issueCount = None\<rparr>"

text \<open>\<open>if (a.diagnostics?.status === 'available') a.diagnostics.acceptance = { code }\<close>\<close>

definition set_acceptance :: "string \<Rightarrow> attempt \<Rightarrow> attempt" where
  "set_acceptance c a =
     (case a_diagnostics a of
        Some (DAvailable g) \<Rightarrow> a\<lparr>a_diagnostics := Some (DAvailable (g\<lparr>dg_acceptance := acceptance_fact c\<rparr>))\<rparr>
      | _ \<Rightarrow> a)"

definition set_recovery_fact :: "string \<Rightarrow> attempt \<Rightarrow> attempt" where
  "set_recovery_fact c a =
     (case a_diagnostics a of
        Some (DAvailable g) \<Rightarrow> a\<lparr>a_diagnostics := Some (DAvailable (g\<lparr>dg_recovery := Some c\<rparr>))\<rparr>
      | _ \<Rightarrow> a)"

text \<open>The loop over \<open>draft.attempts\<close> that keeps available diagnostics honest.\<close>

definition honest_diagnostics :: "attempt \<Rightarrow> attempt" where
  "honest_diagnostics a =
     (if a_state a = ARecoveryRequired \<and> a_result a = None
      then set_recovery_fact ''effect-unknown'' (set_acceptance ''recovery-required'' a)
      else case a_result a of
             None \<Rightarrow> a
           | Some res \<Rightarrow>
               (case jstr (jfield ''recovery'' (o_outcome res)) of
                  None \<Rightarrow> a
                | Some reviewed \<Rightarrow>
                    if reviewed \<in> set [''succeeded'', ''failed'', ''cancelled'', ''timed_out'']
                    then (let code = ''reviewed-'' @ (if reviewed = ''timed_out'' then ''timed-out'' else reviewed)
                          in set_recovery_fact code (set_acceptance code a))
                    else a))"

text \<open>The function \<open>applyTransition\<close> hands to \<open>runs.update\<close>.\<close>

definition commit ::
  "string \<Rightarrow> int \<Rightarrow> (run_record \<Rightarrow> store_error + bool) \<Rightarrow> (run_record \<Rightarrow> store_error + run_record)
     \<Rightarrow> run_record option \<Rightarrow> store_error + run_record" where
  "commit runId now settlementReplay reducer value =
     (case value of
        None \<Rightarrow> Inl (RunNotFoundError runId)
      | Some v \<Rightarrow>
          (case settlementReplay v of
             Inl e \<Rightarrow> Inl e
           | Inr replayed \<Rightarrow>
               if replayed then Inl (TeamSettlementReplay v)
               else if isTerminal (r_state v) then Inl (TerminalStateError runId (r_state v))
               else case reducer v of
                      Inl e \<Rightarrow> Inl e
                    | Inr draft \<Rightarrow>
                        (case (if r_state draft \<noteq> r_state v then transitionRun (r_state v) (r_state draft)
                               else Inr (r_state draft)) of
                           Inl e \<Rightarrow> Inl e
                         | Inr _ \<Rightarrow>
                             Inr (draft\<lparr>r_attempts := map honest_diagnostics (r_attempts draft),
                                        r_seq := Suc (r_seq v),
                                        r_updatedAt := now,
                                        r_log := last_n LOG_CAP (r_log draft)\<rparr>))))"

text \<open>The error classes \<open>applyTransition\<close> rethrows unchanged.\<close>

fun rethrown :: "store_error \<Rightarrow> bool" where
  "rethrown (TeamSettlementReplay _) = True"
| "rethrown (RunNotFoundError _) = True"
| "rethrown (TerminalStateError _ _) = True"
| "rethrown AttemptSettledError = True"
| "rethrown DecisionConflictError = True"
| "rethrown (TeamStageConflictError _ _) = True"
| "rethrown (TeamRecoveryUnchangedError _) = True"
| "rethrown (TeamTaskConflictError _ _) = True"
| "rethrown (TeamOutputRejectedError _ _) = True"
| "rethrown TeamEffectReplayError = True"
| "rethrown (TeamArtifactError _) = True"
| "rethrown (IllegalTransitionError _ _) = True"
| "rethrown (RecoveryStaleError _ _ _) = True"
| "rethrown (ManagedNodeError _) = True"
| "rethrown _ = False"

definition transition_error :: "string \<Rightarrow> store_error \<Rightarrow> store_error" where
  "transition_error runId e =
     (if rethrown e then e
      else case e of
             OtherError msg \<Rightarrow>
               if str_includes msg ''has no record'' then RunNotFoundError runId
               else DurabilityFailureError (''run transition '' @ runId)
           | _ \<Rightarrow> DurabilityFailureError (''run transition '' @ runId))"

definition applyTransition ::
  "string \<Rightarrow> int \<Rightarrow> (run_record \<Rightarrow> store_error + bool) \<Rightarrow> (run_record \<Rightarrow> store_error + run_record)
     \<Rightarrow> domain \<Rightarrow> (store_error + run_record) \<times> domain" where
  "applyTransition runId now settlementReplay reducer d =
     (case runs_update (d_runs d) runId (commit runId now settlementReplay reducer) of
        (Inr nxt, t) \<Rightarrow> (Inr nxt, d\<lparr>d_runs := t\<rparr>)
      | (Inl e, t) \<Rightarrow> (Inl (transition_error runId e), d\<lparr>d_runs := t\<rparr>))"

definition no_replay :: "run_record \<Rightarrow> store_error + bool" where
  "no_replay v = Inr False"

definition transition ::
  "string \<Rightarrow> int \<Rightarrow> (run_record \<Rightarrow> store_error + run_record) \<Rightarrow> domain
     \<Rightarrow> (store_error + run_record) \<times> domain" where
  "transition runId now reducer d = applyTransition runId now no_replay reducer d"

section \<open>What a reducer promises\<close>

text \<open>The facts frozen when a Run is admitted.\<close>

definition frozen_facts where
  "frozen_facts r =
     ((r_runId r, r_commandKey r, r_definitionRevision r, r_definitionJson r, r_inputRef r),
      (r_parent r, r_source r, r_context r, r_blueprintId r, r_documentRevision r, r_createdAt r))"

text \<open>
  How one Attempt may change: its identity and intent never do, and once it has a result or a
  terminal state both are immutable.
\<close>

definition attempt_settled :: "attempt \<Rightarrow> bool" where
  "attempt_settled a \<longleftrightarrow> a_result a \<noteq> None \<or> attempt_terminal (a_state a)"

definition message_list :: "attempt_message list option \<Rightarrow> attempt_message list" where
  "message_list ms = (case ms of None \<Rightarrow> [] | Some l \<Rightarrow> l)"

abbreviation attempt_messages :: "attempt \<Rightarrow> attempt_message list" where
  "attempt_messages a \<equiv> message_list (a_messages a)"

text \<open>A message keeps its identity and its acceptance is final; a reserved child identity is final.\<close>

definition message_evolves :: "attempt_message \<Rightarrow> attempt_message \<Rightarrow> bool" where
  "message_evolves m n \<longleftrightarrow>
     msg_requestId n = msg_requestId m \<and> msg_digest n = msg_digest m \<and> msg_messageId n = msg_messageId m
     \<and> (msg_state m = MsgAccepted \<longrightarrow> msg_state n = MsgAccepted)"

definition attempt_evolves :: "attempt \<Rightarrow> attempt \<Rightarrow> bool" where
  "attempt_evolves a b \<longleftrightarrow>
     a_attemptId b = a_attemptId a \<and> a_nodeId b = a_nodeId a \<and> a_attempt b = a_attempt a
     \<and> a_intent b = a_intent a \<and> a_sessionId b = a_sessionId a
     \<and> (a_childRunId a \<noteq> None \<longrightarrow> a_childRunId b = a_childRunId a)
     \<and> list_evolves message_evolves (attempt_messages a) (attempt_messages b)
     \<and> (attempt_settled a \<longrightarrow> a_result b = a_result a \<and> a_state b = a_state a)"

definition attempts_evolve :: "attempt list \<Rightarrow> attempt list \<Rightarrow> bool" where
  "attempts_evolve = list_evolves attempt_evolves"

text \<open>
  Well-formedness of an Attempt at sequence number \<open>n\<close>: only a skipped node has no intent, the
  result follows the intent, a result settles the Attempt and a success has an \<open>ok\<close> result.
\<close>

definition attempt_wf :: "nat \<Rightarrow> attempt \<Rightarrow> bool" where
  "attempt_wf n a \<longleftrightarrow>
     (case a_intent a of
        None \<Rightarrow> a_state a = ASkipped \<and> a_result a = None
      | Some i \<Rightarrow> i_seq i \<le> n \<and> pred_option (\<lambda>res. i_seq i < o_seq res \<and> o_seq res \<le> n) (a_result a))
     \<and> (a_result a \<noteq> None \<longrightarrow> attempt_terminal (a_state a))
     \<and> (a_state a = ASucceeded \<longrightarrow> (case a_result a of None \<Rightarrow> False | Some res \<Rightarrow> o_ok res))"

definition attempts_wf :: "nat \<Rightarrow> attempt list \<Rightarrow> bool" where
  "attempts_wf n as \<longleftrightarrow> list_all (attempt_wf n) as \<and> distinct (map a_nodeId as)"

definition log_extends :: "nat \<Rightarrow> run_event list \<Rightarrow> run_event list \<Rightarrow> bool" where
  "log_extends n l l' \<longleftrightarrow> (\<exists>es. l' = l @ es \<and> list_all (\<lambda>e. l_seq e = n) es)"

definition binding_frozen :: "run_record \<Rightarrow> run_record \<Rightarrow> bool" where
  "binding_frozen v w \<longleftrightarrow>
     (r_bindingAdmission v = Some AdmissionCaptured \<longrightarrow>
        r_bindingAdmission w = Some AdmissionCaptured \<and> r_bindingDigests w = r_bindingDigests v
        \<and> r_bindingSelections w = r_bindingSelections v)"

definition draft_ok :: "run_record \<Rightarrow> run_record \<Rightarrow> bool" where
  "draft_ok v w \<longleftrightarrow>
     frozen_facts w = frozen_facts v \<and> r_seq w = r_seq v
     \<and> log_extends (Suc (r_seq v)) (r_log v) (r_log w)
     \<and> binding_frozen v w
     \<and> attempts_evolve (r_attempts v) (r_attempts w)
     \<and> (attempts_wf (r_seq v) (r_attempts v) \<longrightarrow> attempts_wf (Suc (r_seq v)) (r_attempts w))"

text \<open>The relation between two durable versions of one Run, any number of transitions apart.\<close>

definition run_evolves :: "run_record \<Rightarrow> run_record \<Rightarrow> bool" where
  "run_evolves v w \<longleftrightarrow>
     frozen_facts w = frozen_facts v \<and> r_seq v \<le> r_seq w \<and> run_path (r_state v) (r_state w)
     \<and> binding_frozen v w \<and> attempts_evolve (r_attempts v) (r_attempts w)
     \<and> (isTerminal (r_state v) \<longrightarrow> w = v)"

text \<open>Well-formedness of a durable Run.\<close>

definition run_wf :: "run_record \<Rightarrow> bool" where
  "run_wf r \<longleftrightarrow>
     attempts_wf (r_seq r) (r_attempts r)
     \<and> length (r_log r) \<le> LOG_CAP \<and> sorted (map l_seq (r_log r))
     \<and> list_all (\<lambda>e. l_seq e \<le> r_seq r) (r_log r)"

section \<open>The durable view\<close>

text \<open>
  What a Run id denotes in the rows on disk, read by any process that opens them: the abstract
  state of the store.
\<close>

definition stored :: "domain \<Rightarrow> string \<Rightarrow> run_record option" where
  "stored d j =
     (case runs_get ((d_runs d)\<lparr>t_closed := False\<rparr>) j of Inl _ \<Rightarrow> None | Inr r \<Rightarrow> r)"

lemma runs_get_closed: "t_closed t \<Longrightarrow> \<exists>e. runs_get t k = Inl e"
  by (simp add: runs_get_def table_get_def)

lemma stored_open: "\<not> t_closed (d_runs d) \<Longrightarrow> stored d j = Some v \<longleftrightarrow> runs_get (d_runs d) j = Inr (Some v)"
proof -
  assume "\<not> t_closed (d_runs d)"
  then have "(d_runs d)\<lparr>t_closed := False\<rparr> = d_runs d" by simp
  then show ?thesis by (auto simp: stored_def split: sum.splits)
qed

lemma runs_update_closed: "t_closed t \<Longrightarrow> runs_update t k f = (res, t') \<Longrightarrow> t' = t"
  by (auto simp: runs_update_def table_update_def table_get_def)

lemma runs_update_open: "runs_update t k f = (res, t') \<Longrightarrow> t_closed t' = t_closed t"
  using table_update_spec [OF schema_norms(1)] by (fastforce simp: runs_update_def)

lemma runs_put_closed: "t_closed t \<Longrightarrow> runs_put t k v = (res, t') \<Longrightarrow> t' = t"
  by (auto simp: runs_put_def table_put_def)

lemma runs_put_open: "runs_put t k v = (res, t') \<Longrightarrow> t_closed t' = t_closed t"
  using table_put_spec [OF schema_norms(1)] by (fastforce simp: runs_put_def)

lemma runs_get_visible: "runs_get t k = Inr (Some r) \<Longrightarrow> \<not> isLegacyDefinition r"
  by (auto simp: runs_get_def table_get_def runs_schema_def run_record_parse_def isLegacyDefinition_def
      split: if_splits option.splits)

lemma runs_get_key: "runs_get t k = Inr (Some r) \<Longrightarrow> r_runId r = k"
  by (auto simp: runs_get_def table_get_def runs_schema_def split: if_splits option.splits)

lemma tryGet_Some:
  "tryGet k d = Inr (Some r) \<longleftrightarrow> runs_get (d_runs d) k = Inr (Some r)"
  using runs_get_visible by (auto simp: tryGet_def split: sum.splits option.splits if_splits)

lemma get_run_Inr: "get_run k d = Inr r \<longleftrightarrow> runs_get (d_runs d) k = Inr (Some r)"
  by (cases "tryGet k d") (auto simp: get_run_def tryGet_Some [symmetric] split: option.splits)

lemma get_run_stored: "get_run k d = Inr r \<Longrightarrow> stored d k = Some r"
proof -
  assume "get_run k d = Inr r"
  then have g: "runs_get (d_runs d) k = Inr (Some r)" by (simp add: get_run_Inr)
  then have "\<not> t_closed (d_runs d)" by (metis Inl_Inr_False runs_get_closed)
  with g show ?thesis by (simp add: stored_open)
qed

section \<open>Diagnostics leave the Attempt facts alone\<close>

lemma set_acceptance_frame [frame_simps, simp]:
  "a_attemptId (set_acceptance c a) = a_attemptId a" "a_nodeId (set_acceptance c a) = a_nodeId a"
  "a_attempt (set_acceptance c a) = a_attempt a" "a_state (set_acceptance c a) = a_state a"
  "a_intent (set_acceptance c a) = a_intent a" "a_result (set_acceptance c a) = a_result a"
  "a_sessionId (set_acceptance c a) = a_sessionId a"
  "a_childRunId (set_acceptance c a) = a_childRunId a" "a_messages (set_acceptance c a) = a_messages a"
  by (auto simp: set_acceptance_def split: option.splits attempt_diagnostics.splits)

lemma set_recovery_fact_frame [frame_simps, simp]:
  "a_attemptId (set_recovery_fact c a) = a_attemptId a" "a_nodeId (set_recovery_fact c a) = a_nodeId a"
  "a_attempt (set_recovery_fact c a) = a_attempt a" "a_state (set_recovery_fact c a) = a_state a"
  "a_intent (set_recovery_fact c a) = a_intent a" "a_result (set_recovery_fact c a) = a_result a"
  "a_sessionId (set_recovery_fact c a) = a_sessionId a"
  "a_childRunId (set_recovery_fact c a) = a_childRunId a" "a_messages (set_recovery_fact c a) = a_messages a"
  by (auto simp: set_recovery_fact_def split: option.splits attempt_diagnostics.splits)

lemma honest_diagnostics_frame [frame_simps, simp]:
  "a_attemptId (honest_diagnostics a) = a_attemptId a" "a_nodeId (honest_diagnostics a) = a_nodeId a"
  "a_attempt (honest_diagnostics a) = a_attempt a" "a_state (honest_diagnostics a) = a_state a"
  "a_intent (honest_diagnostics a) = a_intent a" "a_result (honest_diagnostics a) = a_result a"
  "a_sessionId (honest_diagnostics a) = a_sessionId a"
  "a_childRunId (honest_diagnostics a) = a_childRunId a" "a_messages (honest_diagnostics a) = a_messages a"
  by (auto simp: honest_diagnostics_def Let_def split: option.splits)

section \<open>Evolution of Attempts and Runs\<close>

lemma messages_evolve_refl [simp]: "list_evolves message_evolves ms ms"
  by (rule list_evolves_refl) (simp add: message_evolves_def)

lemma messages_evolve_trans:
  "list_evolves message_evolves ls ms \<Longrightarrow> list_evolves message_evolves ms ns \<Longrightarrow> list_evolves message_evolves ls ns"
  by (rule list_evolves_trans [of message_evolves _ ms]) (auto simp: message_evolves_def)

lemma attempt_evolves_refl [simp, intro]: "attempt_evolves a a"
  by (simp add: attempt_evolves_def)

lemma attempt_evolves_trans:
  assumes "attempt_evolves a b" "attempt_evolves b c"
  shows "attempt_evolves a c"
proof -
  have "list_evolves message_evolves (attempt_messages a) (attempt_messages c)"
    by (rule messages_evolve_trans [of _ "attempt_messages b"]) (use assms in \<open>simp_all add: attempt_evolves_def\<close>)
  with assms show ?thesis by (auto simp: attempt_evolves_def attempt_settled_def)
qed

lemma attempt_evolves_honest: "attempt_evolves a (honest_diagnostics a)"
  by (simp add: attempt_evolves_def)

lemma attempt_wf_honest [simp]: "attempt_wf n (honest_diagnostics a) \<longleftrightarrow> attempt_wf n a"
  by (cases "a_intent a") (simp_all add: attempt_wf_def)

lemma attempt_wf_mono: "attempt_wf n a \<Longrightarrow> n \<le> m \<Longrightarrow> attempt_wf m a"
  by (cases "a_intent a"; cases "a_result a") (auto simp: attempt_wf_def)

lemma attempts_wf_mono: "attempts_wf n as \<Longrightarrow> n \<le> m \<Longrightarrow> attempts_wf m as"
  by (auto simp: attempts_wf_def list_all_iff intro: attempt_wf_mono)

lemma attempts_evolve_refl [simp, intro]: "attempts_evolve as as"
  unfolding attempts_evolve_def by (intro list_evolves_refl attempt_evolves_refl)

lemma attempts_evolve_trans: "attempts_evolve as bs \<Longrightarrow> attempts_evolve bs cs \<Longrightarrow> attempts_evolve as cs"
  unfolding attempts_evolve_def by (rule list_evolves_trans [OF attempt_evolves_trans])

lemma attempts_evolve_map:
  "(\<And>a. a \<in> set as \<Longrightarrow> attempt_evolves a (f a)) \<Longrightarrow> attempts_evolve as (map f as)"
  unfolding attempts_evolve_def by (rule list_evolves_map)

lemma attempts_evolve_update:
  "(\<And>a. List.find p as = Some a \<Longrightarrow> attempt_evolves a (f a)) \<Longrightarrow> attempts_evolve as (update_first p f as)"
  unfolding attempts_evolve_def by (rule list_evolves_update [OF attempt_evolves_refl])

lemma attempts_evolve_append: "attempts_evolve as (as @ new)"
  unfolding attempts_evolve_def by (rule list_evolves_append [OF attempt_evolves_refl])

lemma attempts_wf_map:
  assumes "attempts_wf n as"
    and "\<And>a. a \<in> set as \<Longrightarrow> attempt_wf n a \<Longrightarrow> attempt_wf m (f a) \<and> a_nodeId (f a) = a_nodeId a"
  shows "attempts_wf m (map f as)"
proof -
  have eq: "map a_nodeId (map f as) = map a_nodeId as"
    using assms by (auto simp: attempts_wf_def list_all_iff)
  show ?thesis unfolding attempts_wf_def eq
    using assms by (simp add: attempts_wf_def list_all_iff)
qed

lemma attempts_wf_update:
  assumes "attempts_wf n as" and "n \<le> m"
    and "\<And>a. List.find p as = Some a \<Longrightarrow> attempt_wf n a \<Longrightarrow> attempt_wf m (f a)"
    and "\<And>a. a_nodeId (f a) = a_nodeId a"
  shows "attempts_wf m (update_first p f as)"
proof -
  have "attempt_wf m a" if "a \<in> set (update_first p f as)" for a
  proof -
    from that set_update_first_find [of p f as] consider "a \<in> set as"
      | x where "List.find p as = Some x" "a = f x"
      by (auto split: option.splits)
    then show ?thesis
    proof cases
      case 1
      with assms show ?thesis by (auto simp: attempts_wf_def list_all_iff intro: attempt_wf_mono)
    next
      case 2
      with assms find_Some_set show ?thesis by (fastforce simp: attempts_wf_def list_all_iff)
    qed
  qed
  with assms show ?thesis by (auto simp: attempts_wf_def list_all_iff)
qed

lemma attempts_wf_snoc:
  "attempts_wf n as \<Longrightarrow> n \<le> m \<Longrightarrow> attempt_wf m a \<Longrightarrow> a_nodeId a \<notin> a_nodeId ` set as \<Longrightarrow>
   attempts_wf m (as @ [a])"
  by (auto simp: attempts_wf_def list_all_iff intro: attempt_wf_mono)

lemma run_evolves_refl [simp, intro]: "run_evolves v v"
  by (simp add: run_evolves_def binding_frozen_def path_refl)

lemma run_evolves_trans: "run_evolves u v \<Longrightarrow> run_evolves v w \<Longrightarrow> run_evolves u w"
  unfolding run_evolves_def
  by (intro conjI; (elim conjE)?)
    (auto simp: binding_frozen_def intro: run_path_trans attempts_evolve_trans)

lemma log_extends_refl [simp]: "log_extends n l l"
  by (simp add: log_extends_def)

lemma log_extends_snoc [simp]: "l_seq e = n \<Longrightarrow> log_extends n l (l @ [e])"
  by (simp add: log_extends_def)

section \<open>The reducer interface\<close>

locale run_reducer =
  fixes reduce :: "run_record \<Rightarrow> store_error + run_record"
  assumes keeps: "reduce v = Inr w \<Longrightarrow> draft_ok v w"
begin

lemma commit_evolves:
  assumes "commit rid now rp reduce (Some v) = Inr w"
  shows "run_evolves v (run_record_transform w) \<and> r_seq w = Suc (r_seq v)"
proof -
  from assms obtain x where x: "reduce v = Inr x" "\<not> isTerminal (r_state v)"
      "canTransitionRun (r_state v) (r_state x)"
    and w: "w = x\<lparr>r_attempts := map honest_diagnostics (r_attempts x), r_seq := Suc (r_seq v),
                  r_updatedAt := now, r_log := last_n LOG_CAP (r_log x)\<rparr>"
    by (auto simp: commit_def transitionRun_Inr split: sum.splits if_splits)
  from keeps [OF x(1)] have ok: "draft_ok v x" .
  then have "attempts_evolve (r_attempts v) (r_attempts w)"
    unfolding w draft_ok_def
    by (auto intro: attempts_evolve_trans attempts_evolve_map attempt_evolves_honest)
  moreover have "run_path (r_state v) (r_state w)"
    using x(3) w by (auto intro: run_path.intros)
  moreover have "binding_frozen v (run_record_transform w)"
    using ok by (auto simp: w draft_ok_def binding_frozen_def run_record_transform_def Let_def split: option.splits)
  ultimately show ?thesis using ok x(2)
    by (simp add: run_evolves_def draft_ok_def frozen_facts_def w)
qed

lemma commit_wf:
  assumes "commit rid now rp reduce (Some v) = Inr w" and "run_wf v"
  shows "run_wf w"
proof -
  from assms obtain x where x: "reduce v = Inr x"
    and w: "w = x\<lparr>r_attempts := map honest_diagnostics (r_attempts x), r_seq := Suc (r_seq v),
                  r_updatedAt := now, r_log := last_n LOG_CAP (r_log x)\<rparr>"
    by (auto simp: commit_def split: sum.splits if_splits)
  from keeps [OF x] have ok: "draft_ok v x" .
  then obtain es where es: "r_log x = r_log v @ es" "list_all (\<lambda>e. l_seq e = Suc (r_seq v)) es"
    by (auto simp: draft_ok_def log_extends_def)
  have srt: "sorted (map l_seq (r_log x))" and bnd: "\<forall>e\<in>set (r_log x). l_seq e \<le> Suc (r_seq v)"
    using es assms(2) sorted_map_const [of es l_seq]
    by (auto simp: run_wf_def sorted_append list_all_iff le_Suc_eq)
  have "attempts_wf (Suc (r_seq v)) (r_attempts w)"
    unfolding w using ok assms(2)
    by (auto simp: draft_ok_def run_wf_def intro: attempts_wf_map)
  moreover have "list_all (\<lambda>e. l_seq e \<le> Suc (r_seq v)) (last_n LOG_CAP (r_log x))"
    using bnd set_last_n by (fastforce simp: list_all_iff)
  ultimately show ?thesis using srt by (simp add: run_wf_def w sorted_last_n)
qed

lemma commit_visible:
  assumes "commit rid now rp reduce (Some v) = Inr w"
  shows "isLegacyDefinition (run_record_transform w) = isLegacyDefinition v"
  using commit_evolves [OF assms] by (simp add: run_evolves_def frozen_facts_def isLegacyDefinition_def)

text \<open>
  One transition on the durable view: other Runs are untouched, and the addressed Run is either
  unchanged or replaced by the committed draft. An acknowledged transition is the latter.
\<close>

lemma applyTransition_stored:
  assumes tr: "applyTransition rid now rp reduce d = (res, d')"
  shows "(\<forall>j. j \<noteq> rid \<longrightarrow> stored d' j = stored d j)
     \<and> (stored d' rid = stored d rid
        \<or> (\<exists>v w. stored d rid = Some v \<and> commit rid now rp reduce (Some v) = Inr w
             \<and> stored d' rid = Some (run_record_transform w)))"
proof -
  from tr obtain res' t where u: "runs_update (d_runs d) rid (commit rid now rp reduce) = (res', t)"
    and d': "d' = d\<lparr>d_runs := t\<rparr>"
    by (auto simp: applyTransition_def split: prod.splits sum.splits)
  show ?thesis
  proof (cases "t_closed (d_runs d)")
    case True
    with u have "t = d_runs d" by (blast dest: runs_update_closed)
    with d' show ?thesis by simp
  next
    case False
    with runs_update_open [OF u] d' have op: "\<not> t_closed (d_runs d)" "\<not> t_closed (d_runs d')" by simp_all
    have same: "(d_runs d)\<lparr>t_closed := False\<rparr> = d_runs d" "t\<lparr>t_closed := False\<rparr> = t"
      using op d' by simp_all
    have oth: "\<forall>j. j \<noteq> rid \<longrightarrow> stored d' j = stored d j"
      using runs_kv.update_other [OF u] d' same by (simp add: stored_def)
    have this_id: "stored d' rid = stored d rid
        \<or> (\<exists>v w. stored d rid = Some v \<and> commit rid now rp reduce (Some v) = Inr w
             \<and> stored d' rid = Some (run_record_transform w))"
    proof (cases "stored d rid")
      case None
      have "stored d' rid \<noteq> Some x" for x
      proof
        assume "stored d' rid = Some x"
        with op d' have "runs_get t rid = Inr (Some x)" by (simp add: stored_open)
        from runs_kv.update_rows [OF u this] None op(1) obtain cur v where
          "runs_get (d_runs d) rid = Inr cur" "commit rid now rp reduce cur = Inr v"
          by (auto simp: stored_open [symmetric])
        with None op(1) show False
          by (cases cur) (auto simp: commit_def stored_open [symmetric])
      qed
      with None show ?thesis by (cases "stored d' rid") auto
    next
      case (Some v)
      with op(1) have g: "runs_get (d_runs d) rid = Inr (Some v)" by (simp add: stored_open)
      from runs_kv.update_kept [OF u g] show ?thesis
      proof (elim disjE exE conjE)
        assume "runs_get t rid = Inr (Some v)"
        with Some op(2) d' show ?thesis by (simp add: stored_open)
      next
        fix w
        assume w: "commit rid now rp reduce (Some v) = Inr w"
          and vis: "\<not> isLegacyDefinition (run_record_transform w)
             \<longrightarrow> runs_get t rid = Inr (Some (run_record_transform w))"
        from commit_visible [OF w] runs_get_visible [OF g] vis
        have "runs_get t rid = Inr (Some (run_record_transform w))" by simp
        with w Some op(2) d' show ?thesis by (simp add: stored_open)
      qed
    qed
    with oth show ?thesis by blast
  qed
qed

lemma applyTransition_written:
  assumes tr: "applyTransition rid now rp reduce d = (Inr r, d')"
  shows "\<exists>v w. get_run rid d = Inr v \<and> commit rid now rp reduce (Some v) = Inr w
           \<and> r = run_record_transform w \<and> get_run rid d' = Inr r"
proof -
  from tr obtain t where u: "runs_update (d_runs d) rid (commit rid now rp reduce) = (Inr r, t)"
    and d': "d' = d\<lparr>d_runs := t\<rparr>"
    by (auto simp: applyTransition_def split: prod.splits sum.splits)
  from runs_kv.update_written [OF u] obtain cur v where
    w: "runs_get (d_runs d) rid = Inr cur" "commit rid now rp reduce cur = Inr v"
       "r = run_record_transform v" "\<not> isLegacyDefinition r \<longrightarrow> runs_get t rid = Inr (Some r)"
    by blast
  from w(2) obtain x where cur: "cur = Some x" by (cases cur) (auto simp: commit_def)
  with w commit_visible runs_get_visible have "\<not> isLegacyDefinition r" by blast
  with w cur d' show ?thesis by (auto simp: get_run_Inr)
qed

text \<open>An acknowledged transition, with the fields of the record it returns.\<close>

lemma applyTransition_facts:
  assumes "applyTransition rid now rp reduce d = (Inr r, d')"
  obtains v w where "get_run rid d = Inr v" "rp v = Inr False" "reduce v = Inr w" "\<not> isTerminal (r_state v)"
    "canTransitionRun (r_state v) (r_state w)" "get_run rid d' = Inr r"
    "r_state r = r_state w" "r_attempts r = map honest_diagnostics (r_attempts w)"
    "r_seq r = Suc (r_seq v)" "r_teamStage r = r_teamStage w" "r_log r = last_n LOG_CAP (r_log w)"
    "frozen_facts r = frozen_facts v" "r_bindingDigests r = r_bindingDigests w"
    "r_bindingSelections r = r_bindingSelections w"
    "r_bindingAdmission w \<noteq> None \<Longrightarrow> r_bindingAdmission r = r_bindingAdmission w"
proof -
  from applyTransition_written [OF assms] obtain v w0 where v: "get_run rid d = Inr v"
    and c: "commit rid now rp reduce (Some v) = Inr w0" and r: "r = run_record_transform w0"
    and g: "get_run rid d' = Inr r" by blast
  from c obtain w where w: "reduce v = Inr w" "rp v = Inr False" "\<not> isTerminal (r_state v)"
      "canTransitionRun (r_state v) (r_state w)"
    and w0: "w0 = w\<lparr>r_attempts := map honest_diagnostics (r_attempts w), r_seq := Suc (r_seq v),
                  r_updatedAt := now, r_log := last_n LOG_CAP (r_log w)\<rparr>"
    by (auto simp: commit_def transitionRun_Inr split: sum.splits if_splits)
  from keeps [OF w(1)] have "frozen_facts r = frozen_facts v"
    by (simp add: draft_ok_def r w0 frozen_facts_def)
  moreover have "r_bindingAdmission r = r_bindingAdmission w" if "r_bindingAdmission w \<noteq> None"
    using that by (auto simp: r w0 run_record_transform_def Let_def)
  ultimately show thesis using that v w g r w0 by simp
qed

end

section \<open>Frame and error facts of a transition\<close>

lemma runs_update_error:
  assumes "runs_update t k f = (Inl e, t')"
  shows "(\<exists>cur. runs_get t k = Inr cur \<and> f cur = Inl e \<and> t' = t) \<or> (\<exists>m. e = OtherError m)"
  using assms
  by (auto simp: runs_update_def runs_get_def table_update_def table_get_def table_write_def
      split: sum.splits option.splits if_splits write_fault.splits)

lemma applyTransition_error:
  assumes "applyTransition rid now rp red d = (Inl e, d')" and "rethrown e" and "e \<noteq> RunNotFoundError rid"
  shows "\<exists>cur. runs_get (d_runs d) rid = Inr cur \<and> commit rid now rp red cur = Inl e \<and> d' = d"
proof -
  from assms obtain e0 t where u: "runs_update (d_runs d) rid (commit rid now rp red) = (Inl e0, t)"
    and e: "e = transition_error rid e0" and d': "d' = d\<lparr>d_runs := t\<rparr>"
    by (auto simp: applyTransition_def split: prod.splits sum.splits)
  from runs_update_error [OF u] show ?thesis
  proof (elim disjE exE conjE)
    fix cur
    assume c: "runs_get (d_runs d) rid = Inr cur" "commit rid now rp red cur = Inl e0" "t = d_runs d"
    have "e = e0"
      using assms(2,3) e by (cases e0) (auto simp: transition_error_def split: if_splits)
    with c d' show ?thesis by simp
  next
    fix m
    assume "e0 = OtherError m"
    with e assms(2,3) show ?thesis by (auto simp: transition_error_def split: if_splits)
  qed
qed

lemma applyTransition_other:
  assumes "applyTransition rid now rp red d = (res, d')" and "j \<noteq> rid"
  shows "get_run j d' = get_run j d"
proof -
  from assms(1) obtain res' t where "runs_update (d_runs d) rid (commit rid now rp red) = (res', t)"
    and "d' = d\<lparr>d_runs := t\<rparr>"
    by (auto simp: applyTransition_def split: prod.splits sum.splits)
  with assms(2) runs_kv.update_other show ?thesis
    by (fastforce simp: get_run_def tryGet_def)
qed

text \<open>A transition touches only the Run table.\<close>

lemma applyTransition_tables:
  "applyTransition rid now rp red d = (res, d') \<Longrightarrow> d_commands d' = d_commands d \<and> d_lifecycle d' = d_lifecycle d"
  by (auto simp: applyTransition_def split: prod.splits sum.splits)

lemmas transition_other = applyTransition_other [where rp = no_replay, folded transition_def]
lemmas transition_tables = applyTransition_tables [where rp = no_replay, folded transition_def]
lemmas transition_error = applyTransition_error [where rp = no_replay, folded transition_def]

end
