(* ===== verification/RunStore.thy ===== *)
theory RunStore
  imports StoreCore
begin

text \<open>
  The Run operations of \<open>persistence/run-store.ts\<close>: admission, binding snapshot, dispatch intent
  and result, cancellation, human decision, terminal settlement, history lifecycle and the
  rebuildable projection. Each operation takes the domain and returns its result with the domain
  it leaves. Random identifiers are arguments. The reducers are shown to meet the contract of
  \<open>StoreCore\<close>.
\<close>

section \<open>Admission of a Run\<close>

record run_metadata =
  md_parent :: "parent_run option"
  md_composition :: "frozen_blueprint list option"
  md_documentRevision :: "string option"
  md_reservedRunId :: "string option"
  md_blueprintId :: "string option"
  md_source :: "run_source option"
  md_bindingDigests :: "digests option"
  md_bindingSelections :: "binding_selections option"
  md_context :: "exec_context option"

definition metadata_ok :: "run_metadata \<Rightarrow> bool" where
  "metadata_ok m \<longleftrightarrow>
     pred_option parent_run_ok (md_parent m)
     \<and> pred_option (list_all frozen_blueprint_ok) (md_composition m)
     \<and> pred_option is_sha256 (md_documentRevision m) \<and> pred_option run_id_ok (md_reservedRunId m)
     \<and> pred_option nonempty (md_blueprintId m) \<and> pred_option run_source_ok (md_source m)
     \<and> pred_option digest_dict_ok (md_bindingDigests m)
     \<and> pred_option binding_selections_ok (md_bindingSelections m)
     \<and> pred_option run_context_ok (md_context m)"

text \<open>The loop over \<open>listRunIds()\<close> that looks for the Run of a command key.\<close>

fun find_by_command :: "string \<Rightarrow> domain \<Rightarrow> string list \<Rightarrow> store_error + (string \<times> run_record) option" where
  "find_by_command key d [] = Inr None"
| "find_by_command key d (i # ids) =
     (case get_run i d of
        Inl e \<Rightarrow> Inl e
      | Inr r \<Rightarrow> if r_commandKey r = key then Inr (Some (i, r)) else find_by_command key d ids)"

definition discover_run :: "string \<Rightarrow> domain \<Rightarrow> store_error + (string \<times> run_record) option" where
  "discover_run key d =
     (case listRunIds d of Inl e \<Rightarrow> Inl e | Inr ids \<Rightarrow> find_by_command key d ids)"

definition replayRun :: "admission_request \<Rightarrow> domain \<Rightarrow> store_error + run_record option" where
  "replayRun request d =
     (case commandKey (ar_scope request) (ar_requestId request) of
        Inl e \<Rightarrow> Inl e
      | Inr key \<Rightarrow>
          (case commands_get (d_commands d) key of
             Inl _ \<Rightarrow> Inl (DurabilityFailureError ''command-replay-read'')
           | Inr None \<Rightarrow> Inr None
           | Inr (Some existing) \<Rightarrow>
               if c_payloadFingerprint existing \<noteq> ar_payloadFingerprint request
               then Inl (CommandConflictError key (c_payloadFingerprint existing) (ar_payloadFingerprint request))
               else case c_runId existing of
                      Some rid \<Rightarrow> (case get_run rid d of Inl e \<Rightarrow> Inl e | Inr r \<Rightarrow> Inr (Some r))
                    | None \<Rightarrow> (case discover_run key d of
                         Inl e \<Rightarrow> Inl e | Inr found \<Rightarrow> Inr (map_option snd found))))"

text \<open>The record \<open>createRunSerial\<close> publishes.\<close>

definition new_run ::
  "admission_request \<Rightarrow> string \<Rightarrow> string \<Rightarrow> json_text \<Rightarrow> json_text \<Rightarrow> run_metadata \<Rightarrow> string \<Rightarrow> int \<Rightarrow> run_record" where
  "new_run request key definitionRevision definitionJson inputRef m runId now = \<lparr>
     r_schemaVersion = RUN_RECORD_SCHEMA_VERSION,
     r_blueprintId = md_blueprintId m,
     r_source = md_source m,
     r_runId = runId,
     r_definitionRevision = definitionRevision,
     r_definitionJson = definitionJson,
     r_composition = md_composition m,
     r_documentRevision = md_documentRevision m,
     r_parent = md_parent m,
     r_inputRef = inputRef,
     r_bindingDigests = md_bindingDigests m,
     r_bindingAdmission =
       map_option (\<lambda>d. if d = [] then AdmissionPending else AdmissionCaptured) (md_bindingDigests m),
     r_bindingSelections = md_bindingSelections m,
     r_context = md_context m,
     r_commandKey = key,
     r_state = Queued,
     r_attempts = [],
     r_teamStage = None,
     r_log = [\<lparr>l_seq = 0, l_at = now, l_kind = EvAdmitted,
        l_detail = [(''scope'', JStr (ar_scope request)), (''requestId'', JStr (ar_requestId request))]\<rparr>],
     r_seq = 0,
     r_createdAt = now,
     r_updatedAt = now \<rparr>"

definition createRunSerial ::
  "admission_request \<Rightarrow> string \<Rightarrow> json_text \<Rightarrow> json_text \<Rightarrow> run_metadata \<Rightarrow> string \<Rightarrow> (nat \<Rightarrow> int) \<Rightarrow> domain
     \<Rightarrow> (store_error + string \<times> bool) \<times> domain" where
  "createRunSerial request definitionRevision definitionJson inputRef m uuid clk d =
     (case admit request (clk 0) (d_commands d) of
        (Inl e, t) \<Rightarrow> (Inl e, d\<lparr>d_commands := t\<rparr>)
      | (Inr admitted, t) \<Rightarrow>
          (let d1 = d\<lparr>d_commands := t\<rparr>; key = ad_commandKey admitted in
           if ad_replayed admitted \<and> ad_runId admitted \<noteq> None
           then (Inr (the (ad_runId admitted), True), d1)
           else case (if ad_replayed admitted then discover_run key d1 else Inr None) of
                  Inl e \<Rightarrow> (Inl e, d1)
                | Inr (Some (found, _)) \<Rightarrow>
                    (case bindRun key found (d_commands d1) of
                       (Inl e, t') \<Rightarrow> (Inl e, d1\<lparr>d_commands := t'\<rparr>)
                     | (Inr _, t') \<Rightarrow> (Inr (found, True), d1\<lparr>d_commands := t'\<rparr>))
                | Inr None \<Rightarrow>
                    (let runId = (case md_reservedRunId m of Some rid \<Rightarrow> rid | None \<Rightarrow> ''run-'' @ uuid) in
                     case (if md_reservedRunId m \<noteq> None then runs_get (d_runs d1) runId else Inr None) of
                       Inl _ \<Rightarrow> (Inl (DurabilityFailureError ''child reservation read''), d1)
                     | Inr (Some _) \<Rightarrow> (Inl AttemptSettledError, d1)
                     | Inr None \<Rightarrow>
                         (case runs_put (d_runs d1) runId
                             (new_run request key definitionRevision definitionJson inputRef m runId (clk 1)) of
                            (Inl _, r') \<Rightarrow> (Inl (DurabilityFailureError (''run create '' @ runId)), d1\<lparr>d_runs := r'\<rparr>)
                          | (Inr _, r') \<Rightarrow>
                              (case bindRun key runId (d_commands d1) of
                                 (Inl _, t') \<Rightarrow>
                                   (Inl (DurabilityFailureError (''run create '' @ runId)),
                                    d1\<lparr>d_runs := r', d_commands := t'\<rparr>)
                               | (Inr _, t') \<Rightarrow> (Inr (runId, False), d1\<lparr>d_runs := r', d_commands := t'\<rparr>))))))"

definition createRun ::
  "admission_request \<Rightarrow> string \<Rightarrow> json_text \<Rightarrow> json_text \<Rightarrow> run_metadata \<Rightarrow> string \<Rightarrow> (nat \<Rightarrow> int) \<Rightarrow> domain
     \<Rightarrow> (store_error + string \<times> bool) \<times> domain" where
  "createRun request definitionRevision definitionJson inputRef m uuid clk d =
     (if \<not> metadata_ok m then (Inl (OtherError ''invalid metadata''), d)
      else createRunSerial request definitionRevision definitionJson inputRef m uuid clk d)"

section \<open>Binding snapshot\<close>

definition setBindingDigests_reducer ::
  "digests \<Rightarrow> binding_selections \<Rightarrow> run_record \<Rightarrow> store_error + run_record" where
  "setBindingDigests_reducer parsed selections v =
     (if r_bindingAdmission v = Some AdmissionCaptured then
        if \<not> (case r_bindingDigests v of None \<Rightarrow> False | Some b \<Rightarrow> same_dict b parsed)
           \<or> \<not> same_dict (case r_bindingSelections v of None \<Rightarrow> [] | Some s \<Rightarrow> s) selections
        then Inl AttemptSettledError
        else Inr v
      else if r_state v \<noteq> Queued \<or> r_attempts v \<noteq> [] then Inl AttemptSettledError
      else if (case r_bindingDigests v of None \<Rightarrow> False | Some b \<Rightarrow> b \<noteq> [] \<and> \<not> same_dict b parsed)
      then Inl AttemptSettledError
      else Inr (v\<lparr>r_bindingDigests := Some parsed, r_bindingSelections := Some selections,
                  r_bindingAdmission := Some AdmissionCaptured\<rparr>))"

definition setBindingDigests ::
  "string \<Rightarrow> digests \<Rightarrow> binding_selections \<Rightarrow> (nat \<Rightarrow> int) \<Rightarrow> domain \<Rightarrow> (store_error + run_record) \<times> domain" where
  "setBindingDigests runId digests selections clk d =
     (if \<not> digest_dict_ok digests then (Inl (OtherError ''invalid binding digests''), d)
      else if \<not> binding_selections_ok selections then (Inl (OtherError ''invalid binding selections''), d)
      else transition runId (clk 0) (setBindingDigests_reducer digests selections) d)"

section \<open>Dispatch intent\<close>

record intent_request =
  q_nodeId :: string
  q_kind :: string
  q_resourceDigests :: "digests option"
  q_bindingDigests :: "digests option"
  q_diagnostics :: "attempt_diagnostics option"
  q_sessionId :: "string option"
  q_sessionIdForAttempt :: "(string \<Rightarrow> string) option"

definition recordIntent_reducer ::
  "intent_request \<Rightarrow> string \<Rightarrow> digests \<Rightarrow> string option \<Rightarrow> int \<Rightarrow> run_record \<Rightarrow> store_error + run_record" where
  "recordIntent_reducer q newAttemptId resourceDigests persistedSessionId now v =
     (if r_state v \<notin> {Queued, Running} then Inl AttemptSettledError
      else if list_ex (\<lambda>a. a_state a \<in> {AFailed, ATimedOut, ACancelled}) (r_attempts v) then Inl AttemptSettledError
      else if list_ex (\<lambda>a. a_nodeId a = q_nodeId q) (r_attempts v) then Inl AttemptSettledError
      else let seq = Suc (r_seq v);
               intent = \<lparr>i_seq = seq, i_at = now, i_kind = q_kind q, i_resourceDigests = resourceDigests,
                         i_bindingDigests = q_bindingDigests q\<rparr>
           in Inr (v\<lparr>r_state := Running,
                r_attempts := r_attempts v @ [\<lparr>a_attemptId = newAttemptId, a_nodeId = q_nodeId q,
                   a_state = ARunning, a_attempt = 1, a_intent = Some intent, a_result = None,
                   a_sessionId = persistedSessionId, a_childRunId = None, a_messages = None,
                   a_diagnostics = q_diagnostics q\<rparr>],
                r_log := r_log v @ [\<lparr>l_seq = seq, l_at = now, l_kind = EvIntent,
                   l_detail = [(''attemptId'', JStr newAttemptId), (''nodeId'', JStr (q_nodeId q)),
                               (''kind'', JStr (q_kind q))]\<rparr>]\<rparr>))"

definition recordIntent ::
  "string \<Rightarrow> intent_request \<Rightarrow> string \<Rightarrow> (nat \<Rightarrow> int) \<Rightarrow> domain
     \<Rightarrow> (store_error + string \<times> nat \<times> attempt_intent) \<times> domain" where
  "recordIntent runId q uuid clk d =
     (if q_sessionId q \<noteq> None \<and> q_sessionIdForAttempt q \<noteq> None then (Inl AttemptSettledError, d)
      else if \<not> pred_option nonempty (q_sessionId q) then (Inl (OtherError ''invalid session id''), d)
      else if \<not> pred_option attempt_diagnostics_ok (q_diagnostics q) then (Inl (OtherError ''invalid diagnostics''), d)
      else if \<not> pred_option digest_dict_ok (q_bindingDigests q) then (Inl (OtherError ''invalid binding digests''), d)
      else
        let resourceDigests = (case q_resourceDigests q of Some rd \<Rightarrow> rd
              | None \<Rightarrow> (case q_diagnostics q of Some (DAvailable g) \<Rightarrow> dg_resourceDigests g | _ \<Rightarrow> []));
            newAttemptId = ''att-'' @ uuid;
            generated = map_option (\<lambda>f. f newAttemptId) (q_sessionIdForAttempt q);
            persisted = (case generated of Some s \<Rightarrow> Some s | None \<Rightarrow> q_sessionId q)
        in if (case q_diagnostics q of Some (DAvailable g) \<Rightarrow> \<not> sameDigests resourceDigests (dg_resourceDigests g) | _ \<Rightarrow> False)
           then (Inl AttemptSettledError, d)
           else if \<not> pred_option nonempty generated then (Inl (OtherError ''invalid session id''), d)
           else case transition runId (clk 1)
                      (recordIntent_reducer q newAttemptId resourceDigests persisted (clk 0)) d of
                  (Inl e, d') \<Rightarrow> (Inl e, d')
                | (Inr r, d') \<Rightarrow>
                    (Inr (newAttemptId, r_seq r,
                          \<lparr>i_seq = r_seq r, i_at = clk 0, i_kind = q_kind q, i_resourceDigests = resourceDigests,
                           i_bindingDigests = q_bindingDigests q\<rparr>), d'))"

section \<open>Result\<close>

record result_request =
  p_ok :: bool
  p_outcome :: json
  p_evidence :: string
  p_diagnostics :: "attempt_diagnostics option"

text \<open>The diagnostics guard of \<open>recordResult\<close>: \<open>True\<close> where it throws.\<close>

definition diagnostics_conflict :: "attempt \<Rightarrow> attempt_diagnostics \<Rightarrow> bool" where
  "diagnostics_conflict a dg \<longleftrightarrow>
     (case dg of DUnavailable \<Rightarrow> False
      | DAvailable g \<Rightarrow>
          \<not> sameDigests (case a_intent a of None \<Rightarrow> [] | Some i \<Rightarrow> i_resourceDigests i) (dg_resourceDigests g))
     \<or> (case a_diagnostics a of
          Some (DAvailable old) \<Rightarrow>
            (case dg of DUnavailable \<Rightarrow> True
             | DAvailable g \<Rightarrow>
                 dg_input g \<noteq> dg_input old \<or> dg_modelSelection g \<noteq> dg_modelSelection old
                 \<or> dt_effectiveNames (dg_tools g) \<noteq> dt_effectiveNames (dg_tools old))
        | _ \<Rightarrow> False)"

definition result_state :: "run_state \<Rightarrow> result_request \<Rightarrow> attempt_state" where
  "result_state runState q =
     (let kind = jfield ''kind'' (p_outcome q) in
      if runState = Cancelling \<or> kind = JStr ''cancelled'' then ACancelled
      else if kind = JStr ''timeout'' then ATimedOut
      else if p_ok q then ASucceeded else AFailed)"

definition settle_attempt :: "result_request \<Rightarrow> attempt_state \<Rightarrow> nat \<Rightarrow> int \<Rightarrow> attempt \<Rightarrow> attempt" where
  "settle_attempt q st seq now a =
     a\<lparr>a_diagnostics := (case p_diagnostics q of None \<Rightarrow> a_diagnostics a | Some dg \<Rightarrow> Some dg),
       a_result := Some \<lparr>o_seq = seq, o_at = now, o_ok = p_ok q, o_outcome = p_outcome q,
                         o_evidence = p_evidence q\<rparr>,
       a_state := st\<rparr>"

definition recordResult_reducer ::
  "string \<Rightarrow> string \<Rightarrow> result_request \<Rightarrow> int \<Rightarrow> run_record \<Rightarrow> store_error + run_record" where
  "recordResult_reducer runId attemptId q now v =
     (case List.find (\<lambda>a. a_attemptId a = attemptId) (r_attempts v) of
        None \<Rightarrow> Inl (OtherError ''attempt not found in run'')
      | Some a \<Rightarrow>
          if (case r_teamStage v of None \<Rightarrow> False
              | Some s \<Rightarrow> ts_state s = SProvisioning \<and> ts_attemptId s = Some attemptId
                  \<and> a_result a = None \<and> \<not> attempt_terminal (a_state a))
          then Inl (TeamStageConflictError runId ''cannot settle the original Attempt while TeamStage is provisioning'')
          else if a_result a \<noteq> None \<or> attempt_terminal (a_state a) then Inl AttemptSettledError
          else if (case p_diagnostics q of None \<Rightarrow> False | Some dg \<Rightarrow> diagnostics_conflict a dg)
          then Inl AttemptSettledError
          else
            let seq = Suc (r_seq v);
                attempts = update_first (\<lambda>x. a_attemptId x = attemptId)
                  (settle_attempt q (result_state (r_state v) q) seq now) (r_attempts v)
            in Inr (v\<lparr>r_attempts := attempts,
                 r_state := (if r_state v = Cancelling
                     \<and> list_all (\<lambda>x. a_result x \<noteq> None \<or> attempt_terminal (a_state x)) attempts
                   then Cancelled else r_state v),
                 r_log := r_log v @ [\<lparr>l_seq = seq, l_at = now, l_kind = EvResult,
                    l_detail = [(''attemptId'', JStr attemptId), (''ok'', JBool (p_ok q)),
                                (''evidence'', JStr (p_evidence q))]\<rparr>]\<rparr>))"

definition recordResult ::
  "string \<Rightarrow> string \<Rightarrow> result_request \<Rightarrow> (nat \<Rightarrow> int) \<Rightarrow> domain \<Rightarrow> (store_error + run_record) \<times> domain" where
  "recordResult runId attemptId q clk d =
     (if \<not> pred_option attempt_diagnostics_ok (p_diagnostics q) then (Inl (OtherError ''invalid diagnostics''), d)
      else transition runId (clk 1) (recordResult_reducer runId attemptId q (clk 0)) d)"

section \<open>Cancellation\<close>

definition stage_terminal :: "team_stage_state \<Rightarrow> bool" where
  "stage_terminal s \<longleftrightarrow> s \<in> {SSucceeded, SFailed, SCancelled, STimedOut, SRecoveryRequired}"

definition stage_open :: "team_stage option \<Rightarrow> bool" where
  "stage_open s \<longleftrightarrow> (case s of None \<Rightarrow> False | Some t \<Rightarrow> \<not> stage_terminal (ts_state t))"

text \<open>\<open>typeof reason === 'string' ? reason.trim().slice(0, 256) : ''\<close>\<close>

definition boundedReason :: "string option \<Rightarrow> string" where
  "boundedReason reason = (case reason of None \<Rightarrow> [] | Some r \<Rightarrow> take 256 (js_trim r))"

definition cancel_fact :: "string option \<Rightarrow> int \<Rightarrow> team_cancel" where
  "cancel_fact reason now =
     \<lparr>tc_requestedAt = now, tc_reason = (if boundedReason reason = [] then None else Some (boundedReason reason))\<rparr>"

definition stage_cutoff :: "string option \<Rightarrow> int \<Rightarrow> int \<Rightarrow> team_stage \<Rightarrow> team_stage" where
  "stage_cutoff reason requestedAt updatedAt s =
     s\<lparr>ts_state := SCancelling,
       ts_cancel := (case ts_cancel s of None \<Rightarrow> Some (cancel_fact reason requestedAt) | Some c \<Rightarrow> Some c),
       ts_updatedAt := updatedAt\<rparr>"

definition owned_detail :: "team_stage \<Rightarrow> json dict" where
  "owned_detail s =
     [(''stageId'', JStr (ts_stageId s)),
      (''ownedMemberIds'', JArr (map (JStr \<circ> m_memberId) (ts_members s))),
      (''ownedSessionIds'', JArr (map JStr (somes (map m_sessionId (ts_members s)))))]"

text \<open>An Attempt whose effect may still be in flight.\<close>

definition attempt_in_flight :: "attempt \<Rightarrow> bool" where
  "attempt_in_flight a \<longleftrightarrow>
     a_intent a \<noteq> None \<and> a_result a = None \<and> \<not> attempt_terminal (a_state a) \<and> a_state a \<noteq> AWaitingInput"

definition cancel_attempt :: "bool \<Rightarrow> attempt \<Rightarrow> attempt" where
  "cancel_attempt active a =
     (if a_result a = None \<and> \<not> attempt_terminal (a_state a)
      then if active then a\<lparr>a_state := ACancelling\<rparr>
           else set_acceptance ''cancelled'' (a\<lparr>a_state := ACancelled\<rparr>)
      else a)"

definition requestCancel_reducer ::
  "string option \<Rightarrow> int \<Rightarrow> run_record \<Rightarrow> store_error + run_record" where
  "requestCancel_reducer reason now v =
     (let seq = Suc (r_seq v);
          active = list_ex attempt_in_flight (r_attempts v) \<or> stage_open (r_teamStage v);
          stage = (if stage_open (r_teamStage v) then map_option (stage_cutoff reason now now) (r_teamStage v)
                   else r_teamStage v);
          detail = (if stage_open (r_teamStage v)
                    then (''teamStage'', JStr ''cancelling'') # (case stage of None \<Rightarrow> [] | Some s \<Rightarrow> owned_detail s)
                    else [])
      in if stage_open (r_teamStage v) \<and> \<not> pred_option team_stage_ok stage
         then Inl (OtherError ''invalid team stage'')
         else Inr (v\<lparr>r_state := (if active then Cancelling else Cancelled),
                r_attempts := map (cancel_attempt active) (r_attempts v),
                r_teamStage := stage,
                r_log := r_log v @ [\<lparr>l_seq = seq, l_at = now, l_kind = EvCancelRequested, l_detail = detail\<rparr>]\<rparr>))"

definition requestCancel ::
  "string \<Rightarrow> string option \<Rightarrow> (nat \<Rightarrow> int) \<Rightarrow> domain \<Rightarrow> (store_error + run_record) \<times> domain" where
  "requestCancel runId reason clk d =
     (case get_run runId d of
        Inl e \<Rightarrow> (Inl e, d)
      | Inr current \<Rightarrow>
          (let needsTeamCutoff = (case r_teamStage current of None \<Rightarrow> False
                 | Some s \<Rightarrow> \<not> stage_terminal (ts_state s) \<and> (ts_state s \<noteq> SCancelling \<or> ts_cancel s = None))
           in if isTerminal (r_state current) \<or> r_state current = RecoveryRequired
                 \<or> (r_state current = Cancelling \<and> \<not> needsTeamCutoff)
              then (Inr current, d)
              else applyTransition runId (clk 1) no_replay (requestCancel_reducer reason (clk 0)) d))"

definition requestTeamStageCancel_reducer ::
  "string \<Rightarrow> string option \<Rightarrow> int \<Rightarrow> int \<Rightarrow> run_record \<Rightarrow> store_error + run_record" where
  "requestTeamStageCancel_reducer runId reason requestedAt now v =
     (case r_teamStage v of
        None \<Rightarrow> Inl (TeamStageConflictError runId ''stage binding is missing'')
      | Some s \<Rightarrow>
          if stage_terminal (ts_state s) then Inr v
          else let s' = stage_cutoff reason requestedAt now s in
               if \<not> team_stage_ok s' then Inl (OtherError ''invalid team stage'')
               else Inr (v\<lparr>r_teamStage := Some s',
                     r_log := r_log v @ [\<lparr>l_seq = Suc (r_seq v), l_at = now, l_kind = EvCancelRequested,
                       l_detail = (''teamStage'', JStr ''cancelling'') # (''scope'', JStr ''team-stage'')
                                  # owned_detail s'\<rparr>]\<rparr>))"

definition requestTeamStageCancel ::
  "string \<Rightarrow> string option \<Rightarrow> (nat \<Rightarrow> int) \<Rightarrow> domain \<Rightarrow> (store_error + run_record) \<times> domain" where
  "requestTeamStageCancel runId reason clk d =
     (case get_run runId d of
        Inl e \<Rightarrow> (Inl e, d)
      | Inr current \<Rightarrow>
          (case r_teamStage current of
             None \<Rightarrow> (Inl (TeamStageConflictError runId ''stage binding is missing''), d)
           | Some s \<Rightarrow>
               if stage_terminal (ts_state s) \<or> (ts_state s = SCancelling \<and> ts_cancel s \<noteq> None)
               then (Inr current, d)
               else applyTransition runId (clk 2) no_replay
                      (requestTeamStageCancel_reducer runId reason (clk 0) (clk 1)) d))"

section \<open>Human decision\<close>

datatype decision_action = Approve | Reject

fun action_text :: "decision_action \<Rightarrow> string" where
  "action_text Approve = ''approve''"
| "action_text Reject = ''reject''"

definition decidable_attempt :: "attempt \<Rightarrow> bool" where
  "decidable_attempt a \<longleftrightarrow>
     a_state a = AWaitingInput \<and> a_result a = None
     \<and> (case a_intent a of None \<Rightarrow> False | Some i \<Rightarrow> i_kind i \<in> {''condition'', ''humanDecision''})"

definition decision_outcome :: "string \<Rightarrow> decision_action \<Rightarrow> string \<Rightarrow> string \<Rightarrow> json dict" where
  "decision_outcome decisionId action branch nodeId =
     [(''decisionId'', JStr decisionId), (''action'', JStr (action_text action)),
      (''branch'', JStr branch), (''nodeId'', JStr nodeId)]"

definition decide_attempt :: "string \<Rightarrow> decision_action \<Rightarrow> string \<Rightarrow> nat \<Rightarrow> int \<Rightarrow> attempt \<Rightarrow> attempt" where
  "decide_attempt decisionId action branch seq now a =
     set_acceptance (if action = Approve then ''not-required'' else ''cancelled'')
       (a\<lparr>a_state := (if action = Approve then ASucceeded else ACancelled),
          a_result := Some \<lparr>o_seq = seq, o_at = now, o_ok = (action = Approve),
             o_outcome = JObj (decision_outcome decisionId action branch (a_nodeId a)),
             o_evidence = ''human-decision''\<rparr>\<rparr>)"

definition decide_reducer ::
  "string \<Rightarrow> decision_action \<Rightarrow> string \<Rightarrow> int \<Rightarrow> int \<Rightarrow> run_record \<Rightarrow> store_error + run_record" where
  "decide_reducer decisionId action branch now logAt v =
     (case List.find decidable_attempt (r_attempts v) of
        None \<Rightarrow> Inl DecisionConflictError
      | Some a \<Rightarrow>
          let seq = Suc (r_seq v) in
          Inr (v\<lparr>r_attempts := update_first decidable_attempt (decide_attempt decisionId action branch seq now) (r_attempts v),
                 r_state := (if action = Approve then Running else Cancelled),
                 r_log := r_log v @ [\<lparr>l_seq = seq, l_at = logAt, l_kind = EvDecision,
                   l_detail = decision_outcome decisionId action branch (a_nodeId a)\<rparr>]\<rparr>))"

text \<open>The settled outcomes a decision is looked up in: canonical Attempt results, not the log.\<close>

definition prior_decision :: "string \<Rightarrow> run_record \<Rightarrow> json option" where
  "prior_decision decisionId r =
     List.find (\<lambda>oc. jfield ''decisionId'' oc = JStr decisionId)
       (somes (map (\<lambda>a. map_option o_outcome (a_result a)) (r_attempts r)))"

definition decide ::
  "string \<Rightarrow> string \<Rightarrow> decision_action \<Rightarrow> string \<Rightarrow> (nat \<Rightarrow> int) \<Rightarrow> domain
     \<Rightarrow> (store_error + run_record \<times> bool) \<times> domain" where
  "decide runId decisionId action branch clk d =
     (case get_run runId d of
        Inl e \<Rightarrow> (Inl e, d)
      | Inr current \<Rightarrow>
          (case prior_decision decisionId current of
             Some prior \<Rightarrow>
               if jfield ''action'' prior \<noteq> JStr (action_text action) then (Inl DecisionConflictError, d)
               else (Inr (current, False), d)
           | None \<Rightarrow>
               if r_state current \<noteq> WaitingInput \<or> decisionId = [] then (Inl DecisionConflictError, d)
               else case applyTransition runId (clk 2) no_replay
                           (decide_reducer decisionId action branch (clk 0) (clk 1)) d of
                      (Inl e, d') \<Rightarrow> (Inl e, d')
                    | (Inr r, d') \<Rightarrow> (Inr (r, True), d')))"

section \<open>Terminal settlement\<close>

datatype settlement = ToSucceeded | ToFailed | ToCancelled | ToTimedOut | ToRecoveryRequired

fun settlement_state :: "settlement \<Rightarrow> run_state" where
  "settlement_state ToSucceeded = Succeeded"
| "settlement_state ToFailed = Failed"
| "settlement_state ToCancelled = Cancelled"
| "settlement_state ToTimedOut = TimedOut"
| "settlement_state ToRecoveryRequired = RecoveryRequired"

text \<open>The original Attempt of a TeamStage that is still provisioning blocks settlement.\<close>

definition provisioning_blocks :: "run_record \<Rightarrow> bool" where
  "provisioning_blocks v \<longleftrightarrow>
     (case r_teamStage v of None \<Rightarrow> False
      | Some s \<Rightarrow> ts_state s = SProvisioning \<and> ts_attemptId s \<noteq> None
          \<and> (case List.find (\<lambda>a. Some (a_attemptId a) = ts_attemptId s) (r_attempts v) of
               None \<Rightarrow> False
             | Some a \<Rightarrow> a_result a = None \<and> \<not> attempt_terminal (a_state a)))"

definition team_cancel_known :: "team_stage \<Rightarrow> attempt option \<Rightarrow> bool" where
  "team_cancel_known s original \<longleftrightarrow>
     ts_state s = SCancelled \<and> ts_cancel s \<noteq> None \<and> ts_recovery s = None
     \<and> \<not> (case ts_effects s of None \<Rightarrow> False
          | Some es \<Rightarrow> list_ex (\<lambda>e. e_state e \<in> {EPending, ERecoveryRequired}) es)
     \<and> (case original of None \<Rightarrow> False
        | Some a \<Rightarrow> a_nodeId a = ts_stageId s \<and> map_option i_kind (a_intent a) = Some ''agentTask''
            \<and> a_state a = ACancelling \<and> a_result a = None)"

definition settle_team_attempt :: "nat \<Rightarrow> int \<Rightarrow> attempt \<Rightarrow> attempt" where
  "settle_team_attempt seq now a =
     set_acceptance ''cancelled''
       (a\<lparr>a_state := ACancelled,
          a_result := Some \<lparr>o_seq = seq, o_at = now, o_ok = False,
             o_outcome = JObj [(''kind'', JStr ''cancelled'')], o_evidence = ''teamstage-cancelled''\<rparr>\<rparr>)"

definition recover_attempt :: "attempt \<Rightarrow> attempt" where
  "recover_attempt a =
     (if a_intent a \<noteq> None \<and> a_result a = None \<and> \<not> attempt_terminal (a_state a)
      then set_recovery_fact ''effect-unknown'' (set_acceptance ''recovery-required'' (a\<lparr>a_state := ARecoveryRequired\<rparr>))
      else a)"

definition settleTerminal_reducer ::
  "string \<Rightarrow> settlement \<Rightarrow> json dict \<Rightarrow> int \<Rightarrow> int \<Rightarrow> run_record \<Rightarrow> store_error + run_record" where
  "settleTerminal_reducer runId terminal detail now logAt v =
     (if provisioning_blocks v
      then Inl (TeamStageConflictError runId ''cannot settle the original Attempt while TeamStage is provisioning'')
      else
        let seq = Suc (r_seq v);
            teamCase = terminal = ToCancelled \<and> r_state v = Cancelling
              \<and> (case r_teamStage v of None \<Rightarrow> False | Some s \<Rightarrow> ts_attemptId s \<noteq> None);
            team_id = Option.bind (r_teamStage v) ts_attemptId;
            isOriginal = (\<lambda>a. Some (a_attemptId a) = team_id)
        in if teamCase
              \<and> \<not> (case r_teamStage v of None \<Rightarrow> False
                    | Some s \<Rightarrow> team_cancel_known s (List.find isOriginal (r_attempts v)))
           then Inl (TeamStageConflictError runId ''known Team cancellation is required to settle the original Attempt'')
           else
             let attempts1 = (if teamCase then update_first isOriginal (settle_team_attempt seq now) (r_attempts v)
                              else r_attempts v);
                 log1 = (if teamCase
                         then r_log v @ [\<lparr>l_seq = seq, l_at = now, l_kind = EvResult,
                           l_detail = [(''attemptId'', JStr (case team_id of None \<Rightarrow> [] | Some i \<Rightarrow> i)),
                                       (''ok'', JBool False), (''evidence'', JStr ''teamstage-cancelled'')]\<rparr>]
                         else r_log v)
             in Inr (v\<lparr>r_state := (if r_state v = Cancelling \<and> terminal \<noteq> ToRecoveryRequired then Cancelled
                                   else settlement_state terminal),
                  r_attempts := (if terminal = ToRecoveryRequired then map recover_attempt attempts1 else attempts1),
                  r_log := log1 @ [\<lparr>l_seq = seq, l_at = logAt,
                     l_kind = (if terminal = ToRecoveryRequired then EvRecovery else EvState), l_detail = detail\<rparr>]\<rparr>))"

definition settleTerminal ::
  "string \<Rightarrow> settlement \<Rightarrow> json dict \<Rightarrow> (nat \<Rightarrow> int) \<Rightarrow> domain \<Rightarrow> (store_error + run_record) \<times> domain" where
  "settleTerminal runId terminal detail clk d =
     transition runId (clk 2) (settleTerminal_reducer runId terminal detail (clk 0) (clk 1)) d"

section \<open>History lifecycle and projection\<close>

definition isArchived :: "string \<Rightarrow> domain \<Rightarrow> store_error + bool" where
  "isArchived runId d =
     (case lifecycle_get (d_lifecycle d) runId of
        Inl _ \<Rightarrow> Inl (DurabilityFailureError ''run lifecycle read'')
      | Inr None \<Rightarrow> Inr False
      | Inr (Some l) \<Rightarrow> Inr (lc_archived l))"

definition setArchived ::
  "string \<Rightarrow> bool \<Rightarrow> (nat \<Rightarrow> int) \<Rightarrow> domain \<Rightarrow> (store_error + string \<times> bool) \<times> domain" where
  "setArchived runId archived clk d =
     (case get_run runId d of
        Inl e \<Rightarrow> (Inl e, d)
      | Inr r \<Rightarrow>
          if \<not> isTerminal (r_state r) then (Inl (RunLifecycleConflictError runId), d)
          else case lifecycle_put (d_lifecycle d) runId
                      \<lparr>lc_runId = runId, lc_archived = archived, lc_updatedAt = clk 0\<rparr> of
                 (Inl _, t) \<Rightarrow> (Inl (DurabilityFailureError ''run lifecycle write''), d\<lparr>d_lifecycle := t\<rparr>)
               | (Inr _, t) \<Rightarrow> (Inr (runId, archived), d\<lparr>d_lifecycle := t\<rparr>))"

record projection =
  pj_total :: nat
  pj_byState :: "(run_state \<times> nat) list"
  pj_runs :: "(string \<times> run_state \<times> string) list"

fun project_runs :: "domain \<Rightarrow> string list \<Rightarrow> (run_state \<times> nat) list \<times> (string \<times> run_state \<times> string) list
    \<Rightarrow> store_error + (run_state \<times> nat) list \<times> (string \<times> run_state \<times> string) list" where
  "project_runs d [] acc = Inr acc"
| "project_runs d (i # ids) (counts, runs) =
     (case get_run i d of
        Inl e \<Rightarrow> Inl e
      | Inr r \<Rightarrow>
          project_runs d ids
            (AList.update (r_state r) (Suc (case map_of counts (r_state r) of None \<Rightarrow> 0 | Some n \<Rightarrow> n)) counts,
             runs @ [(r_runId r, r_state r, r_definitionRevision r)]))"

definition rebuildProjection :: "domain \<Rightarrow> store_error + projection" where
  "rebuildProjection d =
     (case listRunIds d of
        Inl e \<Rightarrow> Inl e
      | Inr ids \<Rightarrow>
          (case project_runs d ids ([], []) of
             Inl e \<Rightarrow> Inl e
           | Inr (counts, runs) \<Rightarrow> Inr \<lparr>pj_total = length ids, pj_byState = counts, pj_runs = runs\<rparr>))"

section \<open>Every reducer meets the contract\<close>

lemma draft_okI:
  assumes "frozen_facts w = frozen_facts v" and "r_seq w = r_seq v"
    and "log_extends (Suc (r_seq v)) (r_log v) (r_log w)"
    and "binding_frozen v w"
    and "attempts_evolve (r_attempts v) (r_attempts w)"
    and "attempts_wf (r_seq v) (r_attempts v) \<Longrightarrow> attempts_wf (Suc (r_seq v)) (r_attempts w)"
  shows "draft_ok v w"
  using assms by (simp add: draft_ok_def)

text \<open>An Attempt that is settled by a fresh result: the shape all settlements share.\<close>

lemma attempt_evolves_open:
  "\<not> attempt_settled a \<Longrightarrow> a_attemptId b = a_attemptId a \<Longrightarrow> a_nodeId b = a_nodeId a \<Longrightarrow>
   a_attempt b = a_attempt a \<Longrightarrow> a_intent b = a_intent a \<Longrightarrow> a_childRunId b = a_childRunId a \<Longrightarrow>
   a_sessionId b = a_sessionId a \<Longrightarrow>
   a_messages b = a_messages a \<Longrightarrow> attempt_evolves a b"
  by (simp add: attempt_evolves_def)

lemma attempt_wf_settle:
  assumes "attempt_wf n a" and "\<not> attempt_settled a" and "a_intent b = a_intent a"
    and "a_result b = Some res" and "o_seq res = Suc n" and "attempt_terminal (a_state b)"
    and "a_state b = ASucceeded \<Longrightarrow> o_ok res"
  shows "attempt_wf (Suc n) b"
  using assms by (auto simp: attempt_wf_def attempt_settled_def split: option.splits)

lemma attempt_wf_open:
  assumes "attempt_wf n a" and "\<not> attempt_settled a" and "a_intent b = a_intent a"
    and "a_result b = None" and "a_state b \<noteq> ASucceeded"
  shows "attempt_wf (Suc n) b"
  using assms by (auto simp: attempt_wf_def attempt_settled_def split: option.splits)

text \<open>An Attempt that is not settled, for reducers that do not check it themselves.\<close>

definition attempt_open :: "string \<Rightarrow> run_record \<Rightarrow> bool" where
  "attempt_open attemptId v \<longleftrightarrow>
     (case List.find (\<lambda>a. a_attemptId a = attemptId) (r_attempts v) of None \<Rightarrow> True | Some a \<Rightarrow> \<not> attempt_settled a)"

lemma attempt_wf_wait: "attempt_wf n a \<Longrightarrow> \<not> attempt_settled a \<Longrightarrow> attempt_wf (Suc n) (a\<lparr>a_state := AWaitingInput\<rparr>)"
  by (rule attempt_wf_open) (auto simp: attempt_settled_def)

lemmas reducer_facts =
  frozen_facts_def binding_frozen_def log_extends_def attempt_settled_def

interpretation binding_red: run_reducer "setBindingDigests_reducer digests selections" for digests selections
proof
  fix v w
  assume "setBindingDigests_reducer digests selections v = Inr w"
  then show "draft_ok v w"
    by (intro draft_okI)
      (auto simp: setBindingDigests_reducer_def reducer_facts attempts_wf_mono split: if_splits)
qed

interpretation intent_red: run_reducer "recordIntent_reducer q aid rd sid now" for q aid rd sid now
proof
  fix v w
  assume r: "recordIntent_reducer q aid rd sid now v = Inr w"
  show "draft_ok v w"
  proof (rule draft_okI)
    show "attempts_evolve (r_attempts v) (r_attempts w)"
      using r by (auto simp: recordIntent_reducer_def Let_def attempts_evolve_append split: if_splits)
    assume "attempts_wf (r_seq v) (r_attempts v)"
    moreover have "q_nodeId q \<notin> a_nodeId ` set (r_attempts v)"
      using r by (auto simp: recordIntent_reducer_def list_ex_iff split: if_splits)
    ultimately show "attempts_wf (Suc (r_seq v)) (r_attempts w)"
      using r by (auto simp: recordIntent_reducer_def Let_def attempt_wf_def
          intro!: attempts_wf_snoc [where n = "r_seq v"] split: if_splits)
  qed (use r in \<open>auto simp: recordIntent_reducer_def Let_def reducer_facts split: if_splits\<close>)
qed

interpretation result_red: run_reducer "recordResult_reducer rid aid q now" for rid aid q now
proof
  fix v w
  assume r: "recordResult_reducer rid aid q now v = Inr w"
  then obtain a where a: "List.find (\<lambda>x. a_attemptId x = aid) (r_attempts v) = Some a" "\<not> attempt_settled a"
    by (auto simp: recordResult_reducer_def attempt_settled_def split: option.splits if_splits)
  from r a have w: "r_attempts w = update_first (\<lambda>x. a_attemptId x = aid)
        (settle_attempt q (result_state (r_state v) q) (Suc (r_seq v)) now) (r_attempts v)"
      and f: "frozen_facts w = frozen_facts v" "r_seq w = r_seq v" "binding_frozen v w"
        "log_extends (Suc (r_seq v)) (r_log v) (r_log w)"
    by (auto simp: recordResult_reducer_def Let_def reducer_facts split: if_splits)
  show "draft_ok v w"
  proof (rule draft_okI [OF f(1,2,4,3)])
    show "attempts_evolve (r_attempts v) (r_attempts w)"
      unfolding w using a by (intro attempts_evolve_update attempt_evolves_open) (auto simp: settle_attempt_def)
    assume "attempts_wf (r_seq v) (r_attempts v)"
    then show "attempts_wf (Suc (r_seq v)) (r_attempts w)"
      unfolding w using a
      by (elim attempts_wf_update)
        (auto simp: settle_attempt_def result_state_def Let_def intro: attempt_wf_settle split: if_splits)
  qed
qed

lemma cancel_attempt_evolves: "attempt_evolves a (cancel_attempt active a)"
  by (simp add: attempt_evolves_def cancel_attempt_def attempt_settled_def)

lemma cancel_attempt_wf: "attempt_wf n a \<Longrightarrow> attempt_wf (Suc n) (cancel_attempt active a)"
  by (cases "attempt_settled a")
    (auto simp: cancel_attempt_def attempt_settled_def intro: attempt_wf_mono attempt_wf_open)

lemma cancel_attempt_node [simp]: "a_nodeId (cancel_attempt active a) = a_nodeId a"
  by (simp add: cancel_attempt_def)

interpretation cancel_red: run_reducer "requestCancel_reducer reason now" for reason now
proof
  fix v w
  assume r: "requestCancel_reducer reason now v = Inr w"
  then have w: "r_attempts w = map (cancel_attempt
      (list_ex attempt_in_flight (r_attempts v) \<or> stage_open (r_teamStage v))) (r_attempts v)"
    by (auto simp: requestCancel_reducer_def Let_def split: if_splits)
  show "draft_ok v w"
  proof (rule draft_okI)
    show "attempts_evolve (r_attempts v) (r_attempts w)"
      unfolding w by (intro attempts_evolve_map cancel_attempt_evolves)
    show "attempts_wf (Suc (r_seq v)) (r_attempts w)" if "attempts_wf (r_seq v) (r_attempts v)"
      unfolding w using that by (rule attempts_wf_map) (simp add: cancel_attempt_wf)
  qed (use r in \<open>auto simp: requestCancel_reducer_def Let_def reducer_facts split: if_splits\<close>)
qed

interpretation stage_cancel_red: run_reducer "requestTeamStageCancel_reducer rid reason reqAt now"
  for rid reason reqAt now
proof
  fix v w
  assume "requestTeamStageCancel_reducer rid reason reqAt now v = Inr w"
  then show "draft_ok v w"
    by (intro draft_okI)
      (auto simp: requestTeamStageCancel_reducer_def Let_def reducer_facts attempts_wf_mono
        split: if_splits option.splits)
qed

interpretation decide_red: run_reducer "decide_reducer decisionId action branch now logAt"
  for decisionId action branch now logAt
proof
  fix v w
  assume r: "decide_reducer decisionId action branch now logAt v = Inr w"
  then have w: "r_attempts w = update_first decidable_attempt
      (decide_attempt decisionId action branch (Suc (r_seq v)) now) (r_attempts v)"
    by (auto simp: decide_reducer_def Let_def split: option.splits)
  have o: "\<not> attempt_settled a" if "decidable_attempt a" for a
    using that by (simp add: decidable_attempt_def attempt_settled_def)
  show "draft_ok v w"
  proof (rule draft_okI)
    show "attempts_evolve (r_attempts v) (r_attempts w)"
      unfolding w using o
      by (intro attempts_evolve_update attempt_evolves_open) (auto simp: decide_attempt_def dest: find_Some_set)
    show "attempts_wf (Suc (r_seq v)) (r_attempts w)" if "attempts_wf (r_seq v) (r_attempts v)"
      unfolding w using that o
      by (elim attempts_wf_update)
        (auto simp: decide_attempt_def intro: attempt_wf_settle dest!: find_Some_set)
  qed (use r in \<open>auto simp: decide_reducer_def Let_def reducer_facts split: option.splits\<close>)
qed

lemma recover_attempt_evolves: "attempt_evolves a (recover_attempt a)"
  by (simp add: attempt_evolves_def recover_attempt_def attempt_settled_def)

lemma recover_attempt_wf: "attempt_wf n a \<Longrightarrow> attempt_wf (Suc n) (recover_attempt a)"
  by (cases "attempt_settled a")
    (auto simp: recover_attempt_def attempt_settled_def intro: attempt_wf_mono attempt_wf_open)

lemma recover_attempt_node [simp]: "a_nodeId (recover_attempt a) = a_nodeId a"
  by (simp add: recover_attempt_def)

text \<open>The two shapes a settlement gives the Attempts.\<close>

lemma settleTerminal_attempts:
  assumes "settleTerminal_reducer rid terminal detail now logAt v = Inr w"
  obtains (recovery) "terminal = ToRecoveryRequired" "r_attempts w = map recover_attempt (r_attempts v)"
  | (same) "r_attempts w = r_attempts v" "terminal \<noteq> ToRecoveryRequired"
  | (team) s a where "terminal = ToCancelled" "r_state v = Cancelling" "r_teamStage v = Some s"
      "List.find (\<lambda>x. Some (a_attemptId x) = ts_attemptId s) (r_attempts v) = Some a"
      "team_cancel_known s (Some a)"
      "r_attempts w = update_first (\<lambda>x. Some (a_attemptId x) = ts_attemptId s)
          (settle_team_attempt (Suc (r_seq v)) now) (r_attempts v)"
  using assms
  by (auto simp: settleTerminal_reducer_def Let_def team_cancel_known_def split: if_splits option.splits)

interpretation settle_red: run_reducer "settleTerminal_reducer rid terminal detail now logAt"
  for rid terminal detail now logAt
proof
  fix v w
  assume r: "settleTerminal_reducer rid terminal detail now logAt v = Inr w"
  have f: "frozen_facts w = frozen_facts v" "r_seq w = r_seq v" "binding_frozen v w"
      "log_extends (Suc (r_seq v)) (r_log v) (r_log w)"
    using r by (auto simp: settleTerminal_reducer_def Let_def reducer_facts split: if_splits)
  have "attempts_evolve (r_attempts v) (r_attempts w)
      \<and> (attempts_wf (r_seq v) (r_attempts v) \<longrightarrow> attempts_wf (Suc (r_seq v)) (r_attempts w))"
    using r
  proof (cases rule: settleTerminal_attempts)
    case recovery
    then show ?thesis
      by (auto intro: attempts_evolve_map recover_attempt_evolves recover_attempt_wf elim!: attempts_wf_map)
  next
    case same
    then show ?thesis by (auto intro: attempts_wf_mono)
  next
    case (team s a)
    then have o: "\<not> attempt_settled a" by (simp add: team_cancel_known_def attempt_settled_def)
    have "attempts_evolve (r_attempts v) (r_attempts w)"
      using team o by (auto simp: settle_team_attempt_def intro!: attempts_evolve_update attempt_evolves_open)
    moreover have "attempts_wf (r_seq v) (r_attempts v) \<Longrightarrow> attempts_wf (Suc (r_seq v)) (r_attempts w)"
      unfolding team(6) using team(4) o
      by (elim attempts_wf_update) (auto simp: settle_team_attempt_def intro: attempt_wf_settle)
    ultimately show ?thesis by blast
  qed
  with f show "draft_ok v w" by (simp add: draft_ok_def)
qed

end
