(* ===== verification/Definition.thy ===== *)
theory Definition
  imports RunTypes
begin

text \<open>
  The blueprint definition (\<open>definition/types.ts\<close>), the resource-reference rules
  (\<open>definition/resource-ref.ts\<close>) and the strict codec (\<open>definition/codec.ts\<close>): a parsed JSON
  value becomes a definition, or is rejected because of a malformed shape, an unknown field or an
  unsupported version.
\<close>

section \<open>Vocabulary\<close>

definition SCHEMA_VERSION :: int where
  "SCHEMA_VERSION = 2"

datatype resource_kind = RAgent | RPrompt | RSkill | RSchema | RScript | RMcp | RSubflow

datatype resource_source = SharedSource string string | PackageSource string | HostSource string

datatype resource_format = FAgentPreset | FMcpDefinition

record resource_ref =
  rr_kind :: resource_kind
  rr_path :: "string option"
  rr_source :: "resource_source option"
  rr_bindingId :: "string option"
  rr_format :: "resource_format option"

datatype node_kind = KInput | KOutput | KAgentTask | KCondition | KJoin | KHumanDecision | KBlueprintCall

record blueprint_reference =
  br_blueprintId :: string
  br_documentRevision :: string

datatype member_context = CtxFresh | CtxFork

record member_config =
  tm_name :: string
  tm_description :: string
  tm_agentRef :: string
  tm_context :: member_context

record stage_config =
  sc_subject :: string
  sc_description :: string
  sc_members :: "member_config list"
  sc_requiredChecks :: "string list"

record condition_config =
  cc_inputPort :: string
  cc_trueBranch :: string
  cc_falseBranch :: string

text \<open>\<open>n_interaction\<close> and \<open>n_join\<close> record whether the field carries its only literal.\<close>

record graph_node =
  n_id :: string
  n_kind :: node_kind
  n_blueprintRef :: "blueprint_reference option"
  n_outputs :: "string dict option"
  n_inputs :: "string dict option"
  n_agentRef :: "string option"
  n_interaction :: bool
  n_skillRefs :: "string list option"
  n_toolsetRefs :: "string list option"
  n_toolAllowlist :: "string list option"
  n_modelSelection :: "model_selection option"
  n_condition :: "condition_config option"
  n_outputSchemaRef :: "string option"
  n_teamStage :: "stage_config option"
  n_join :: bool
  n_branches :: "string list option"

datatype edge_kind = DataEdge | ControlEdge

record graph_edge =
  ed_kind :: edge_kind
  ed_from :: string
  ed_to :: string

datatype presentation_color = ColDefault | ColBlue | ColGreen | ColAmber | ColRed | ColPurple

record presentation_ports =
  pp_control :: "bool option"
  pp_inputs :: "bool option"
  pp_outputs :: "bool option"

record presentation_node =
  pn_x :: js_number
  pn_y :: js_number
  pn_ports :: "presentation_ports option"
  pn_title :: "string option"
  pn_collapsed :: "bool option"
  pn_pinned :: "bool option"
  pn_width :: "js_number option"
  pn_height :: "js_number option"
  pn_color :: "presentation_color option"

record presentation_group =
  pg_id :: string
  pg_label :: "string option"
  pg_nodeIds :: "string list"

record presentation_edge =
  pe_kind :: edge_kind
  pe_from :: string
  pe_to :: string
  pe_points :: "(js_number \<times> js_number) list"

record presentation =
  ps_nodes :: "presentation_node dict"
  ps_resources :: "(string option \<times> string option) dict option"
  ps_groups :: "presentation_group list option"
  ps_edges :: "presentation_edge list option"

record blueprint_definition =
  bd_schemaVersion :: int
  bd_id :: string
  bd_name :: string
  bd_resources :: "resource_ref dict"
  bd_nodes :: "graph_node list"
  bd_edges :: "graph_edge list"
  bd_presentation :: "presentation option"
  bd_metadata :: "json dict option"

section \<open>Patterns\<close>

text \<open>\<open>idPattern\<close>: \<open>/^[a-zA-Z][a-zA-Z0-9_-]*$/\<close>\<close>

definition idPattern :: "string \<Rightarrow> bool" where
  "idPattern s \<longleftrightarrow>
     (case s of [] \<Rightarrow> False
      | c # cs \<Rightarrow> (is_lower c \<or> is_upper c)
          \<and> list_all (\<lambda>x. is_alnum x \<or> x = CHR ''_'' \<or> x = CHR ''-'') cs)"

definition is_path_char :: "char \<Rightarrow> bool" where
  "is_path_char c \<longleftrightarrow> is_alnum c \<or> c = CHR ''.'' \<or> c = CHR ''_'' \<or> c = CHR ''-''"

text \<open>\<open>pathPattern\<close>: \<open>/^(?!\/)[A-Za-z0-9._\-/]+[A-Za-z0-9._-]$/\<close>\<close>

definition pathPattern :: "string \<Rightarrow> bool" where
  "pathPattern s \<longleftrightarrow>
     2 \<le> length s \<and> hd s \<noteq> CHR ''/'' \<and> list_all (\<lambda>c. is_path_char c \<or> c = CHR ''/'') s
     \<and> is_path_char (last s)"

text \<open>\<open>rootIdPattern\<close>: \<open>/^[a-z][a-z0-9_-]*$/\<close>\<close>

definition rootIdPattern :: "string \<Rightarrow> bool" where
  "rootIdPattern s \<longleftrightarrow>
     (case s of [] \<Rightarrow> False
      | c # cs \<Rightarrow> is_lower c
          \<and> list_all (\<lambda>x. is_lower x \<or> is_digit x \<or> x = CHR ''_'' \<or> x = CHR ''-'') cs)"

definition nonblank :: "string \<Rightarrow> bool" where
  "nonblank s \<longleftrightarrow> js_trim s \<noteq> []"

text \<open>The roster name: \<open>/^[a-z0-9]+(?:-[a-z0-9]+)*$/\<close>, at most 64 characters, never the lead.\<close>

definition memberNamePattern :: "string \<Rightarrow> bool" where
  "memberNamePattern s \<longleftrightarrow>
     list_all (\<lambda>p. p \<noteq> [] \<and> list_all (\<lambda>c. is_lower c \<or> is_digit c) p) (split_on CHR ''-'' s)
     \<and> length s \<le> 64 \<and> s \<noteq> ''lead''"

definition teamText :: "nat \<Rightarrow> string \<Rightarrow> bool" where
  "teamText maxLength s \<longleftrightarrow> 0 < length (js_trim s) \<and> length (js_trim s) \<le> maxLength"

section \<open>Resource references\<close>

definition resource_ref_ok :: "resource_ref \<Rightarrow> bool" where
  "resource_ref_ok r \<longleftrightarrow>
     (case rr_source r of
        None \<Rightarrow> True
      | Some (SharedSource rootId path) \<Rightarrow> rootIdPattern rootId \<and> path \<noteq> []
      | Some (PackageSource _) \<Rightarrow> False
      | Some (HostSource i) \<Rightarrow> nonblank i)
     \<and> pred_option idPattern (rr_bindingId r)"

fun is_host :: "resource_source option \<Rightarrow> bool" where
  "is_host (Some (HostSource _)) = True"
| "is_host _ = False"

fun is_shared :: "resource_source option \<Rightarrow> bool" where
  "is_shared (Some (SharedSource _ _)) = True"
| "is_shared _ = False"

definition portable :: "string option \<Rightarrow> bool" where
  "portable p \<longleftrightarrow>
     (case p of None \<Rightarrow> False
      | Some s \<Rightarrow> pathPattern s \<and> ''..'' \<notin> set (split_on CHR ''/'' s))"

definition isValidResourceRef :: "resource_ref \<Rightarrow> bool" where
  "isValidResourceRef ref \<longleftrightarrow>
     (if \<not> resource_ref_ok ref then False
      else if rr_format ref = Some FAgentPreset \<and> rr_kind ref \<noteq> RAgent then False
      else if rr_format ref = Some FMcpDefinition \<and> rr_kind ref \<noteq> RMcp then False
      else if is_host (rr_source ref) \<and> (rr_path ref \<noteq> None \<or> rr_format ref \<noteq> None) then False
      else if is_host (rr_source ref) \<and> rr_kind ref \<notin> {RAgent, RSkill, RMcp} then False
      else if is_host (rr_source ref) \<and> rr_kind ref \<noteq> RMcp \<and> rr_bindingId ref \<noteq> None then False
      else if is_host (rr_source ref) \<and> rr_kind ref \<in> {RAgent, RSkill} then True
      else if rr_kind ref = RMcp then
        if rr_bindingId ref = None \<or> rr_bindingId ref = Some [] then False
        else if rr_format ref = Some FMcpDefinition then portable (rr_path ref) \<and> rr_source ref = None
        else \<not> (rr_path ref \<noteq> None \<or> (rr_source ref \<noteq> None \<and> \<not> is_host (rr_source ref)))
      else if rr_kind ref = RSkill then
        if is_host (rr_source ref) then True
        else if is_shared (rr_source ref) then rr_path ref = None
        else portable (rr_path ref)
      else if rr_source ref \<noteq> None then False
      else portable (rr_path ref))"

section \<open>Decoding\<close>

text \<open>Field readers of a strict object: a required field, an optional field, the known keys.\<close>

definition req :: "(json \<Rightarrow> 'a option) \<Rightarrow> string \<Rightarrow> json dict \<Rightarrow> 'a option" where
  "req f k kvs = Option.bind (map_of kvs k) f"

definition opt :: "(json \<Rightarrow> 'a option) \<Rightarrow> string \<Rightarrow> json dict \<Rightarrow> 'a option option" where
  "opt f k kvs =
     (case map_of kvs k of
        None \<Rightarrow> Some None
      | Some v \<Rightarrow> if v = JUndefined then Some None else map_option Some (f v))"

definition strict_object :: "string list \<Rightarrow> (json dict \<Rightarrow> 'a option) \<Rightarrow> json \<Rightarrow> 'a option" where
  "strict_object ks f v =
     (case v of JObj kvs \<Rightarrow> if list_all (\<lambda>(k, _). k \<in> set ks) kvs then f kvs else None | _ \<Rightarrow> None)"

fun those :: "'a option list \<Rightarrow> 'a list option" where
  "those [] = Some []"
| "those (None # xs) = None"
| "those (Some x # xs) = map_option (Cons x) (those xs)"

definition d_array :: "(json \<Rightarrow> 'a option) \<Rightarrow> json \<Rightarrow> 'a list option" where
  "d_array f v = (case v of JArr vs \<Rightarrow> those (map f vs) | _ \<Rightarrow> None)"

definition d_record :: "(string \<Rightarrow> bool) \<Rightarrow> (json \<Rightarrow> 'a option) \<Rightarrow> json \<Rightarrow> 'a dict option" where
  "d_record keyOk f v =
     (case v of
        JObj kvs \<Rightarrow> if list_all (\<lambda>(k, _). keyOk k) kvs
                   then those (map (\<lambda>(k, x). map_option (Pair k) (f x)) kvs) else None
      | _ \<Rightarrow> None)"

definition d_string :: "(string \<Rightarrow> bool) \<Rightarrow> json \<Rightarrow> string option" where
  "d_string ok v = (case v of JStr s \<Rightarrow> if ok s then Some s else None | _ \<Rightarrow> None)"

definition d_bool :: "json \<Rightarrow> bool option" where
  "d_bool v = (case v of JBool b \<Rightarrow> Some b | _ \<Rightarrow> None)"

definition d_number :: "(js_number \<Rightarrow> bool) \<Rightarrow> json \<Rightarrow> js_number option" where
  "d_number ok v = (case v of JNum x \<Rightarrow> if js_is_finite x \<and> ok x then Some x else None | _ \<Rightarrow> None)"

definition d_enum :: "(string \<times> 'a) list \<Rightarrow> json \<Rightarrow> 'a option" where
  "d_enum table v = (case v of JStr s \<Rightarrow> map_of table s | _ \<Rightarrow> None)"

definition js_positive :: "js_number \<Rightarrow> bool" where
  "js_positive x \<longleftrightarrow> (case x of Finite q \<Rightarrow> 0 < q | PosInfinity \<Rightarrow> True | _ \<Rightarrow> False)"

definition bool_of :: "'a option \<Rightarrow> bool" where
  "bool_of x \<longleftrightarrow> x \<noteq> None"

definition modelSelectionSchema :: "json \<Rightarrow> model_selection option" where
  "modelSelectionSchema = strict_object [''provider'', ''model'', ''reasoningEffort''] (\<lambda>kv.
     Option.bind (req (d_string nonblank) ''provider'' kv) (\<lambda>p.
     Option.bind (req (d_string nonblank) ''model'' kv) (\<lambda>m.
     Option.bind (opt (d_string nonblank) ''reasoningEffort'' kv) (\<lambda>e.
     Some \<lparr>ms_provider = p, ms_model = m, ms_reasoningEffort = e\<rparr>))))"

definition memberSchema :: "json \<Rightarrow> member_config option" where
  "memberSchema = strict_object [''name'', ''description'', ''agentRef'', ''context''] (\<lambda>kv.
     Option.bind (req (d_string memberNamePattern) ''name'' kv) (\<lambda>n.
     Option.bind (req (d_string (teamText 200)) ''description'' kv) (\<lambda>t.
     Option.bind (req (d_string idPattern) ''agentRef'' kv) (\<lambda>a.
     Option.bind (req (d_enum [(''fresh'', CtxFresh), (''fork'', CtxFork)]) ''context'' kv) (\<lambda>c.
     Some \<lparr>tm_name = n, tm_description = t, tm_agentRef = a, tm_context = c\<rparr>)))))"

definition taskSchema :: "json \<Rightarrow> (string \<times> string) option" where
  "taskSchema = strict_object [''subject'', ''description''] (\<lambda>kv.
     Option.bind (req (d_string (teamText 200)) ''subject'' kv) (\<lambda>s.
     Option.bind (req (d_string (teamText 16384)) ''description'' kv) (\<lambda>t. Some (s, t))))"

definition min1 :: "'a list option \<Rightarrow> 'a list option" where
  "min1 xs = Option.bind xs (\<lambda>ys. if ys = [] then None else Some ys)"

definition teamStageSchema :: "json \<Rightarrow> stage_config option" where
  "teamStageSchema = strict_object [''task'', ''members'', ''requiredChecks''] (\<lambda>kv.
     Option.bind (req taskSchema ''task'' kv) (\<lambda>(s, t).
     Option.bind (req (min1 \<circ> d_array memberSchema) ''members'' kv) (\<lambda>ms.
     Option.bind (req (min1 \<circ> d_array (d_string nonblank)) ''requiredChecks'' kv) (\<lambda>cs.
     Some \<lparr>sc_subject = s, sc_description = t, sc_members = ms, sc_requiredChecks = cs\<rparr>))))"

definition conditionSchema :: "json \<Rightarrow> condition_config option" where
  "conditionSchema = strict_object [''inputPort'', ''trueBranch'', ''falseBranch''] (\<lambda>kv.
     Option.bind (req (d_string (\<lambda>s. s \<noteq> [])) ''inputPort'' kv) (\<lambda>p.
     Option.bind (req (d_string idPattern) ''trueBranch'' kv) (\<lambda>t.
     Option.bind (req (d_string idPattern) ''falseBranch'' kv) (\<lambda>f.
     Some \<lparr>cc_inputPort = p, cc_trueBranch = t, cc_falseBranch = f\<rparr>))))"

definition blueprintRefSchema :: "json \<Rightarrow> blueprint_reference option" where
  "blueprintRefSchema = strict_object [''blueprintId'', ''documentRevision''] (\<lambda>kv.
     Option.bind (req (d_string idPattern) ''blueprintId'' kv) (\<lambda>b.
     Option.bind (req (d_string is_sha256) ''documentRevision'' kv) (\<lambda>r.
     Some \<lparr>br_blueprintId = b, br_documentRevision = r\<rparr>)))"

definition node_kinds :: "(string \<times> node_kind) list" where
  "node_kinds = [(''input'', KInput), (''output'', KOutput), (''agentTask'', KAgentTask),
     (''condition'', KCondition), (''join'', KJoin), (''humanDecision'', KHumanDecision),
     (''blueprintCall'', KBlueprintCall)]"

definition nodeSchema :: "json \<Rightarrow> graph_node option" where
  "nodeSchema = strict_object [''id'', ''kind'', ''blueprintRef'', ''outputs'', ''inputs'', ''agentRef'',
       ''interaction'', ''skillRefs'', ''toolsetRefs'', ''toolAllowlist'', ''modelSelection'', ''condition'',
       ''outputSchemaRef'', ''teamStage'', ''join'', ''branches''] (\<lambda>kv.
     Option.bind (req (d_string idPattern) ''id'' kv) (\<lambda>i.
     Option.bind (req (d_enum node_kinds) ''kind'' kv) (\<lambda>k.
     Option.bind (opt blueprintRefSchema ''blueprintRef'' kv) (\<lambda>br.
     Option.bind (opt (d_record (\<lambda>_. True) (d_string (\<lambda>s. s \<noteq> []))) ''outputs'' kv) (\<lambda>outs.
     Option.bind (opt (d_record (\<lambda>_. True) (d_string (\<lambda>s. s \<noteq> []))) ''inputs'' kv) (\<lambda>ins.
     Option.bind (opt (d_string idPattern) ''agentRef'' kv) (\<lambda>ar.
     Option.bind (opt (d_enum [(''managed'', ())]) ''interaction'' kv) (\<lambda>it.
     Option.bind (opt (d_array (d_string idPattern)) ''skillRefs'' kv) (\<lambda>sk.
     Option.bind (opt (d_array (d_string idPattern)) ''toolsetRefs'' kv) (\<lambda>tl.
     Option.bind (opt (d_array (d_string (\<lambda>s. s \<noteq> []))) ''toolAllowlist'' kv) (\<lambda>ta.
     Option.bind (opt modelSelectionSchema ''modelSelection'' kv) (\<lambda>ms.
     Option.bind (opt conditionSchema ''condition'' kv) (\<lambda>cc.
     Option.bind (opt (d_string idPattern) ''outputSchemaRef'' kv) (\<lambda>os.
     Option.bind (opt teamStageSchema ''teamStage'' kv) (\<lambda>ts.
     Option.bind (opt (d_enum [(''all'', ())]) ''join'' kv) (\<lambda>jn.
     Option.bind (opt (d_array (d_string idPattern)) ''branches'' kv) (\<lambda>bs.
     Some \<lparr>n_id = i, n_kind = k, n_blueprintRef = br, n_outputs = outs, n_inputs = ins, n_agentRef = ar,
           n_interaction = bool_of it, n_skillRefs = sk, n_toolsetRefs = tl, n_toolAllowlist = ta,
           n_modelSelection = ms, n_condition = cc, n_outputSchemaRef = os, n_teamStage = ts,
           n_join = bool_of jn, n_branches = bs\<rparr>)))))))))))))))))"

definition edge_kinds :: "(string \<times> edge_kind) list" where
  "edge_kinds = [(''data'', DataEdge), (''control'', ControlEdge)]"

definition edgeSchema :: "json \<Rightarrow> graph_edge option" where
  "edgeSchema = strict_object [''kind'', ''from'', ''to''] (\<lambda>kv.
     Option.bind (req (d_enum edge_kinds) ''kind'' kv) (\<lambda>k.
     Option.bind (req (d_string (\<lambda>s. s \<noteq> [])) ''from'' kv) (\<lambda>f.
     Option.bind (req (d_string (\<lambda>s. s \<noteq> [])) ''to'' kv) (\<lambda>t.
     Some \<lparr>ed_kind = k, ed_from = f, ed_to = t\<rparr>))))"

definition sourceSchema :: "json \<Rightarrow> resource_source option" where
  "sourceSchema v =
     (if jfield ''kind'' v = JStr ''shared'' then
        strict_object [''kind'', ''rootId'', ''path''] (\<lambda>kv.
          Option.bind (req (d_string rootIdPattern) ''rootId'' kv) (\<lambda>r.
          Option.bind (req (d_string (\<lambda>s. s \<noteq> [])) ''path'' kv) (\<lambda>p. Some (SharedSource r p)))) v
      else if jfield ''kind'' v = JStr ''host'' then
        strict_object [''kind'', ''id''] (\<lambda>kv.
          Option.bind (req (d_string nonblank) ''id'' kv) (\<lambda>i. Some (HostSource i))) v
      else None)"

definition resourceRefSchema :: "json \<Rightarrow> resource_ref option" where
  "resourceRefSchema = strict_object [''kind'', ''path'', ''source'', ''bindingId'', ''format''] (\<lambda>kv.
     Option.bind (req (d_enum [(''agent'', RAgent), (''prompt'', RPrompt), (''skill'', RSkill),
        (''schema'', RSchema), (''script'', RScript), (''mcp'', RMcp), (''subflow'', RSubflow)]) ''kind'' kv) (\<lambda>k.
     Option.bind (opt (d_string (\<lambda>_. True)) ''path'' kv) (\<lambda>p.
     Option.bind (opt sourceSchema ''source'' kv) (\<lambda>s.
     Option.bind (opt (d_string idPattern) ''bindingId'' kv) (\<lambda>b.
     Option.bind (opt (d_enum [(''agent-preset'', FAgentPreset), (''mcp-definition'', FMcpDefinition)]) ''format'' kv) (\<lambda>f.
     Some \<lparr>rr_kind = k, rr_path = p, rr_source = s, rr_bindingId = b, rr_format = f\<rparr>))))))"

definition xySchema :: "json \<Rightarrow> (js_number \<times> js_number) option" where
  "xySchema = strict_object [''x'', ''y''] (\<lambda>kv.
     Option.bind (req (d_number (\<lambda>_. True)) ''x'' kv) (\<lambda>x.
     Option.bind (req (d_number (\<lambda>_. True)) ''y'' kv) (\<lambda>y. Some (x, y))))"

definition portsSchema :: "json \<Rightarrow> presentation_ports option" where
  "portsSchema = strict_object [''control'', ''inputs'', ''outputs''] (\<lambda>kv.
     Option.bind (opt d_bool ''control'' kv) (\<lambda>c.
     Option.bind (opt d_bool ''inputs'' kv) (\<lambda>i.
     Option.bind (opt d_bool ''outputs'' kv) (\<lambda>u.
     Some \<lparr>pp_control = c, pp_inputs = i, pp_outputs = u\<rparr>))))"

definition colors :: "(string \<times> presentation_color) list" where
  "colors = [(''default'', ColDefault), (''blue'', ColBlue), (''green'', ColGreen), (''amber'', ColAmber),
     (''red'', ColRed), (''purple'', ColPurple)]"

definition presentationNodeSchema :: "json \<Rightarrow> presentation_node option" where
  "presentationNodeSchema = strict_object [''x'', ''y'', ''ports'', ''title'', ''collapsed'', ''pinned'',
       ''width'', ''height'', ''color''] (\<lambda>kv.
     Option.bind (req (d_number (\<lambda>_. True)) ''x'' kv) (\<lambda>x.
     Option.bind (req (d_number (\<lambda>_. True)) ''y'' kv) (\<lambda>y.
     Option.bind (opt portsSchema ''ports'' kv) (\<lambda>p.
     Option.bind (opt (d_string (\<lambda>_. True)) ''title'' kv) (\<lambda>t.
     Option.bind (opt d_bool ''collapsed'' kv) (\<lambda>c.
     Option.bind (opt d_bool ''pinned'' kv) (\<lambda>pin.
     Option.bind (opt (d_number js_positive) ''width'' kv) (\<lambda>w.
     Option.bind (opt (d_number js_positive) ''height'' kv) (\<lambda>h.
     Option.bind (opt (d_enum colors) ''color'' kv) (\<lambda>col.
     Some \<lparr>pn_x = x, pn_y = y, pn_ports = p, pn_title = t, pn_collapsed = c, pn_pinned = pin,
           pn_width = w, pn_height = h, pn_color = col\<rparr>))))))))))"

definition groupSchema :: "json \<Rightarrow> presentation_group option" where
  "groupSchema = strict_object [''id'', ''label'', ''nodeIds''] (\<lambda>kv.
     Option.bind (req (d_string idPattern) ''id'' kv) (\<lambda>i.
     Option.bind (opt (d_string (\<lambda>_. True)) ''label'' kv) (\<lambda>l.
     Option.bind (req (d_array (d_string idPattern)) ''nodeIds'' kv) (\<lambda>ns.
     Some \<lparr>pg_id = i, pg_label = l, pg_nodeIds = ns\<rparr>))))"

definition presentationEdgeSchema :: "json \<Rightarrow> presentation_edge option" where
  "presentationEdgeSchema = strict_object [''kind'', ''from'', ''to'', ''points''] (\<lambda>kv.
     Option.bind (req (d_enum edge_kinds) ''kind'' kv) (\<lambda>k.
     Option.bind (req (d_string (\<lambda>s. s \<noteq> [])) ''from'' kv) (\<lambda>f.
     Option.bind (req (d_string (\<lambda>s. s \<noteq> [])) ''to'' kv) (\<lambda>t.
     Option.bind (req (d_array xySchema) ''points'' kv) (\<lambda>ps.
     Some \<lparr>pe_kind = k, pe_from = f, pe_to = t, pe_points = ps\<rparr>)))))"

definition resourceMetadataSchema :: "json \<Rightarrow> (string option \<times> string option) option" where
  "resourceMetadataSchema = strict_object [''title'', ''description''] (\<lambda>kv.
     Option.bind (opt (d_string (\<lambda>_. True)) ''title'' kv) (\<lambda>t.
     Option.bind (opt (d_string (\<lambda>_. True)) ''description'' kv) (\<lambda>d. Some (t, d))))"

definition presentationSchema :: "json \<Rightarrow> presentation option" where
  "presentationSchema = strict_object [''nodes'', ''resources'', ''groups'', ''edges''] (\<lambda>kv.
     Option.bind (req (d_record (\<lambda>_. True) presentationNodeSchema) ''nodes'' kv) (\<lambda>ns.
     Option.bind (opt (d_record idPattern resourceMetadataSchema) ''resources'' kv) (\<lambda>rs.
     Option.bind (opt (d_array groupSchema) ''groups'' kv) (\<lambda>gs.
     Option.bind (opt (d_array presentationEdgeSchema) ''edges'' kv) (\<lambda>es.
     Some \<lparr>ps_nodes = ns, ps_resources = rs, ps_groups = gs, ps_edges = es\<rparr>)))))"

definition graphSchema :: "json \<Rightarrow> (graph_node list \<times> graph_edge list) option" where
  "graphSchema = strict_object [''nodes'', ''edges''] (\<lambda>kv.
     Option.bind (req (d_array nodeSchema) ''nodes'' kv) (\<lambda>ns.
     Option.bind (req (d_array edgeSchema) ''edges'' kv) (\<lambda>es. Some (ns, es))))"

definition d_int :: "json \<Rightarrow> int option" where
  "d_int v = (case v of JNum x \<Rightarrow> js_int x | _ \<Rightarrow> None)"

definition definitionSchema :: "json \<Rightarrow> blueprint_definition option" where
  "definitionSchema = strict_object [''schemaVersion'', ''id'', ''name'', ''resources'', ''graph'',
       ''presentation'', ''metadata''] (\<lambda>kv.
     Option.bind (req d_int ''schemaVersion'' kv) (\<lambda>v.
     Option.bind (req (d_string idPattern) ''id'' kv) (\<lambda>i.
     Option.bind (req (d_string (\<lambda>s. s \<noteq> [])) ''name'' kv) (\<lambda>n.
     Option.bind (req (d_record idPattern resourceRefSchema) ''resources'' kv) (\<lambda>rs.
     Option.bind (req graphSchema ''graph'' kv) (\<lambda>(ns, es).
     Option.bind (opt presentationSchema ''presentation'' kv) (\<lambda>p.
     Option.bind (opt (d_record (\<lambda>_. True) Some) ''metadata'' kv) (\<lambda>m.
     Some \<lparr>bd_schemaVersion = v, bd_id = i, bd_name = n, bd_resources = rs, bd_nodes = ns, bd_edges = es,
           bd_presentation = p, bd_metadata = m\<rparr>))))))))"

datatype definition_error = InvalidJson | UnsupportedVersion | InvalidShape

fun unsupported_version :: "json \<Rightarrow> bool" where
  "unsupported_version (JObj kvs) =
     (case map_of kvs ''schemaVersion'' of
        None \<Rightarrow> False
      | Some v \<Rightarrow> v \<noteq> JNum (Finite (of_int SCHEMA_VERSION)))"
| "unsupported_version _ = False"

definition decodeDefinition :: "json_text \<Rightarrow> definition_error + blueprint_definition" where
  "decodeDefinition text =
     (case text of
        None \<Rightarrow> Inl InvalidJson
      | Some raw \<Rightarrow>
          if unsupported_version raw then Inl UnsupportedVersion
          else case definitionSchema raw of
                 None \<Rightarrow> Inl InvalidShape
               | Some candidate \<Rightarrow>
                   if bd_schemaVersion candidate \<noteq> SCHEMA_VERSION then Inl UnsupportedVersion
                   else Inr candidate)"

end
