(* ===== verification/ArtifactContract.thy ===== *)
theory ArtifactContract
  imports StoreCore Definition
begin

text \<open>
  The artifact contracts of \<open>teamstage/artifact-contract.ts\<close>: canonical JSON, the frozen node of a
  TeamStage, and the binding checks that are repeated inside the atomic transition. SHA-256 over
  a canonical text is the argument \<open>sha\<close>; the two JSON-Schema functions of the tools package are
  arguments as well. A canonical text is represented by the canonical value it prints.
\<close>

definition artifactReject :: "string \<Rightarrow> store_error" where
  "artifactReject issue = TeamArtifactError issue"

text \<open>\<open>canonicalJson\<close>: object keys sorted; \<open>undefined\<close> and non-finite numbers are rejected.\<close>

fun canonicalJson :: "json \<Rightarrow> json option"
and canonical_list :: "json list \<Rightarrow> json list option"
and canonical_fields :: "(string \<times> json) list \<Rightarrow> (string \<times> json) list option" where
  "canonicalJson JUndefined = None"
| "canonicalJson JNull = Some JNull"
| "canonicalJson (JBool b) = Some (JBool b)"
| "canonicalJson (JNum x) = (if js_is_finite x then Some (JNum x) else None)"
| "canonicalJson (JStr s) = Some (JStr s)"
| "canonicalJson (JArr xs) = map_option JArr (canonical_list xs)"
| "canonicalJson (JObj kvs) = map_option (\<lambda>fs. JObj (sort_key fst fs)) (canonical_fields kvs)"
| "canonical_list [] = Some []"
| "canonical_list (x # xs) =
     Option.bind (canonicalJson x) (\<lambda>y. map_option (Cons y) (canonical_list xs))"
| "canonical_fields [] = Some []"
| "canonical_fields ((k, v) # kvs) =
     Option.bind (canonicalJson v) (\<lambda>w. map_option (Cons (k, w)) (canonical_fields kvs))"

definition frozenArtifactNode :: "run_record \<Rightarrow> store_error + graph_node \<times> team_stage" where
  "frozenArtifactNode r =
     (case r_teamStage r of
        None \<Rightarrow> Inl (artifactReject ''artifact-stage-binding-missing'')
      | Some s \<Rightarrow>
          throw_if (ts_attemptId s = None \<or> ts_taskId s = None) (artifactReject ''artifact-stage-binding-missing'')
          (case decodeDefinition (r_definitionJson r) of
             Inl _ \<Rightarrow> Inl (artifactReject ''artifact-frozen-definition-invalid'')
           | Inr d \<Rightarrow>
               (case List.find (\<lambda>n. n_id n = ts_stageId s) (bd_nodes d) of
                  None \<Rightarrow> Inl (artifactReject ''artifact-frozen-node-invalid'')
                | Some n \<Rightarrow>
                    throw_if (n_kind n \<noteq> KAgentTask \<or> n_teamStage n = None \<or> n_outputSchemaRef n = None)
                      (artifactReject ''artifact-frozen-node-invalid'')
                    (throw_if (\<not> list_ex (\<lambda>a. Some (a_attemptId a) = ts_attemptId s \<and> a_nodeId a = n_id n
                                   \<and> a_intent a \<noteq> None) (r_attempts r))
                      (artifactReject ''artifact-attempt-binding-mismatch'')
                    (Inr (n, s))))))"

definition bound_attempt :: "run_record \<Rightarrow> team_stage \<Rightarrow> attempt option" where
  "bound_attempt r s = List.find (\<lambda>a. Some (a_attemptId a) = ts_attemptId s) (r_attempts r)"

definition requireArtifactStageWritable :: "run_record \<Rightarrow> store_error + unit" where
  "requireArtifactStageWritable r =
     ebind (frozenArtifactNode r) (\<lambda>(_, s).
       throw_if (r_state r \<notin> {Queued, Running, WaitingInput} \<or> ts_cancel s \<noteq> None \<or> ts_recovery s \<noteq> None
                 \<or> ts_state s \<notin> {SProvisioning, SActive, SWaitingInput})
         (artifactReject ''artifact-stage-not-writable'')
       (case bound_attempt r s of
          None \<Rightarrow> Inl (OtherError ''attempt is undefined'')
        | Some a \<Rightarrow>
            throw_if (a_result a \<noteq> None \<or> a_state a \<notin> {APreparing, AReady, ARunning, AWaitingInput})
              (artifactReject ''artifact-attempt-not-writable'') (Inr ())))"

definition validateArtifactValue ::
  "(json \<Rightarrow> string) \<Rightarrow> (json \<Rightarrow> bool) \<Rightarrow> (json \<Rightarrow> json \<Rightarrow> bool) \<Rightarrow> json_text \<Rightarrow> string \<Rightarrow> json \<Rightarrow> store_error + unit" where
  "validateArtifactValue sha objectSchema validValue schemaJson schemaDigest value =
     (case schemaJson of
        None \<Rightarrow> Inl (artifactReject ''artifact-schema-invalid'')
      | Some schema \<Rightarrow>
          (case canonicalJson schema of
             None \<Rightarrow> Inl (artifactReject ''artifact-json-invalid'')
           | Some c \<Rightarrow>
               throw_if (sha c \<noteq> schemaDigest \<or> c \<noteq> schema) (artifactReject ''artifact-schema-binding-mismatch'')
               (throw_if (\<not> objectSchema schema) (artifactReject ''artifact-schema-invalid'')
               (throw_if (\<not> validValue schema value) (artifactReject ''artifact-schema-invalid'')
               (Inr ())))))"

section \<open>Provenance\<close>

definition jnat :: "nat \<Rightarrow> json" where
  "jnat n = JNum (Finite (of_nat n))"

definition jint :: "int \<Rightarrow> json" where
  "jint n = JNum (Finite (of_int n))"

definition jdigests :: "digests \<Rightarrow> json" where
  "jdigests d = JObj (map (\<lambda>(k, v). (k, JStr v)) d)"

definition evidence_json :: "capture_evidence \<Rightarrow> json" where
  "evidence_json e = JObj
     [(''producerSessionId'', JStr (ce_producerSessionId e)), (''callId'', JStr (ce_callId e)),
      (''rootCallId'', JStr (ce_rootCallId e)), (''turnId'', JStr (ce_turnId e)),
      (''completedTurnId'', JStr (ce_completedTurnId e)), (''startLogSeq'', jnat (ce_startLogSeq e)),
      (''captureLogSeq'', jnat (ce_captureLogSeq e)), (''endLogSeq'', jnat (ce_endLogSeq e)),
      (''completedAt'', jint (ce_completedAt e)), (''flushedAt'', jint (ce_flushedAt e)),
      (''quiescentAt'', jint (ce_quiescentAt e))]"

text \<open>The facts of a capture without its \<open>evidenceDigest\<close>.\<close>

definition capture_facts :: "team_capture \<Rightarrow> json" where
  "capture_facts c = JObj
     [(''artifactId'', JStr (cp_artifactId c)), (''digest'', JStr (cp_digest c)), (''byteLength'', jnat (cp_byteLength c)),
      (''runId'', JStr (cp_runId c)), (''definitionRevision'', JStr (cp_definitionRevision c)),
      (''nodeId'', JStr (cp_nodeId c)), (''stageId'', JStr (cp_stageId c)), (''attemptId'', JStr (cp_attemptId c)),
      (''taskId'', JStr (cp_taskId c)), (''teamId'', JStr (cp_teamId c)),
      (''producerMemberId'', JStr (cp_producerMemberId c)), (''logicalName'', JStr (cp_logicalName c)),
      (''nativeName'', JStr (cp_nativeName c)), (''effectId'', JStr (cp_effectId c)),
      (''reservationSeq'', jnat (cp_reservationSeq c)), (''schemaDigest'', JStr (cp_schemaDigest c)),
      (''schemaResourceId'', JStr (cp_schemaResourceId c)), (''schemaResourceDigest'', JStr (cp_schemaResourceDigest c)),
      (''resourceDigests'', jdigests (cp_resourceDigests c)), (''evidence'', evidence_json (cp_evidence c))]"

definition captureEvidenceDigest :: "(json \<Rightarrow> string) \<Rightarrow> team_capture \<Rightarrow> string option" where
  "captureEvidenceDigest sha c = map_option sha (canonicalJson (capture_facts c))"

definition memberEvidenceForArtifact :: "team_capture \<Rightarrow> member_evidence" where
  "memberEvidenceForArtifact ref =
     \<lparr>me_runId = cp_runId ref, me_stageId = cp_stageId ref, me_taskId = cp_taskId ref,
      me_attemptId = cp_attemptId ref, me_captureId = cp_artifactId ref, me_schemaDigest = cp_schemaDigest ref,
      me_valueDigest = cp_digest ref, me_completedTurnId = ce_completedTurnId (cp_evidence ref),
      me_flushedAt = ce_flushedAt (cp_evidence ref), me_quiescentAt = ce_quiescentAt (cp_evidence ref)\<rparr>"

section \<open>Binding of a capture\<close>

definition stage_effects :: "team_stage \<Rightarrow> team_effect list" where
  "stage_effects s = (case ts_effects s of None \<Rightarrow> [] | Some es \<Rightarrow> es)"

definition stage_reservations :: "team_stage \<Rightarrow> team_reservation list" where
  "stage_reservations s = (case ts_reservations s of None \<Rightarrow> [] | Some vs \<Rightarrow> vs)"

definition stage_captures :: "team_stage \<Rightarrow> team_capture list" where
  "stage_captures s = (case ts_captures s of None \<Rightarrow> [] | Some cs \<Rightarrow> cs)"

definition producer_mismatch ::
  "run_record \<Rightarrow> graph_node \<Rightarrow> team_stage \<Rightarrow> team_capture \<Rightarrow> team_reservation \<Rightarrow> team_member \<Rightarrow> bool" where
  "producer_mismatch r n s ref v m \<longleftrightarrow>
     m_phase m \<noteq> PhActive \<or> m_status m \<in> {''running'', ''failed'', ''provisioning''}
     \<or> rv_runId v \<noteq> r_runId r \<or> rv_stageId v \<noteq> ts_stageId s \<or> rv_definitionRevision v \<noteq> r_definitionRevision r
     \<or> rv_attemptId v \<noteq> cp_attemptId ref
     \<or> m_sessionId m \<noteq> Some (ce_producerSessionId (cp_evidence ref)) \<or> rv_sessionId v \<noteq> m_sessionId m
     \<or> m_name m \<noteq> Some (rv_nativeName v) \<or> m_logicalName m \<noteq> Some (rv_logicalName v)
     \<or> cp_logicalName ref \<noteq> rv_logicalName v \<or> cp_nativeName ref \<noteq> rv_nativeName v
     \<or> cp_effectId ref \<noteq> rv_effectId v \<or> cp_reservationSeq ref \<noteq> rv_reservationSeq v
     \<or> cp_schemaDigest ref \<noteq> rv_schemaDigest v \<or> Some (cp_schemaResourceId ref) \<noteq> n_outputSchemaRef n
     \<or> cp_schemaResourceId ref \<noteq> rv_schemaResourceId v \<or> cp_schemaResourceDigest ref \<noteq> rv_schemaResourceDigest v
     \<or> \<not> same_dict (cp_resourceDigests ref) (rv_resourceDigests v)"

text \<open>\<open>attempt.intent?.resourceDigests[id]\<close>\<close>

definition intent_digest :: "attempt \<Rightarrow> string \<Rightarrow> string option" where
  "intent_digest a i = Option.bind (a_intent a) (\<lambda>it. map_of (i_resourceDigests it) i)"

definition resource_mismatch ::
  "(json \<Rightarrow> string) \<Rightarrow> graph_node \<Rightarrow> attempt \<Rightarrow> team_reservation \<Rightarrow> bool" where
  "resource_mismatch sha n a v \<longleftrightarrow>
     (case n_teamStage n of None \<Rightarrow> True
      | Some t \<Rightarrow>
          (case List.find (\<lambda>m. tm_name m = rv_logicalName v) (sc_members t) of
             None \<Rightarrow> True
           | Some m \<Rightarrow> map_of (rv_resourceDigests v) (tm_agentRef m) = None))
     \<or> Some (rv_schemaResourceId v) \<noteq> n_outputSchemaRef n
     \<or> intent_digest a (rv_schemaResourceId v) \<noteq> Some (rv_schemaResourceDigest v)
     \<or> map_of (rv_resourceDigests v) (rv_schemaResourceId v) \<noteq> Some (rv_schemaResourceDigest v)
     \<or> sha (rv_schemaCanonicalJson v) \<noteq> rv_schemaDigest v
     \<or> list_ex (\<lambda>(i, dg). intent_digest a i \<noteq> None \<and> intent_digest a i \<noteq> Some dg) (rv_resourceDigests v)"

definition spawn_unverified :: "team_stage \<Rightarrow> team_reservation \<Rightarrow> team_member \<Rightarrow> bool" where
  "spawn_unverified s v m \<longleftrightarrow>
     (case List.find (\<lambda>e. e_effectId e = rv_effectId v) (stage_effects s) of
        None \<Rightarrow> True
      | Some e \<Rightarrow> e_state e \<noteq> ESucceeded \<or> e_kind e \<noteq> ''spawn'' \<or> e_resultMemberId e \<noteq> m_sessionId m
          \<or> e_memberName e \<noteq> Some (rv_nativeName v) \<or> e_actorSessionId e \<noteq> ts_leadSessionId s)"

definition validateCaptureArtifactBinding ::
  "(json \<Rightarrow> string) \<Rightarrow> run_record \<Rightarrow> team_capture \<Rightarrow> bool \<Rightarrow> store_error + unit" where
  "validateCaptureArtifactBinding sha r ref requireCurrentEvidence =
     ebind (frozenArtifactNode r) (\<lambda>(n, s).
       throw_if (cp_runId ref \<noteq> r_runId r \<or> cp_definitionRevision ref \<noteq> r_definitionRevision r
                 \<or> cp_nodeId ref \<noteq> n_id n \<or> cp_stageId ref \<noteq> ts_stageId s \<or> Some (cp_attemptId ref) \<noteq> ts_attemptId s
                 \<or> Some (cp_taskId ref) \<noteq> ts_taskId s \<or> cp_teamId ref \<noteq> ts_teamId s)
         (artifactReject ''artifact-binding-mismatch'')
       (case (List.find (\<lambda>v. rv_memberId v = cp_producerMemberId ref) (stage_reservations s),
              List.find (\<lambda>m. m_memberId m = cp_producerMemberId ref) (ts_members s)) of
          (Some v, Some m) \<Rightarrow>
            throw_if (producer_mismatch r n s ref v m) (artifactReject ''artifact-producer-binding-mismatch'')
            (case bound_attempt r s of
               None \<Rightarrow> Inl (OtherError ''attempt is undefined'')
             | Some a \<Rightarrow>
                 throw_if (resource_mismatch sha n a v) (artifactReject ''artifact-resource-binding-mismatch'')
                 (throw_if (spawn_unverified s v m) (artifactReject ''artifact-spawn-unverified'')
                 (throw_if (requireCurrentEvidence \<and> m_evidence m \<noteq> Some (memberEvidenceForArtifact ref))
                    (artifactReject ''artifact-current-capture-mismatch'')
                 (throw_if (captureEvidenceDigest sha ref \<noteq> Some (cp_evidenceDigest ref))
                    (artifactReject ''artifact-provenance-digest-mismatch'')
                 (Inr ())))))
        | _ \<Rightarrow> Inl (artifactReject ''artifact-producer-binding-mismatch'')))"

section \<open>The full policy of a stage\<close>

definition ordered_reservations :: "stage_config \<Rightarrow> team_stage \<Rightarrow> team_reservation option list" where
  "ordered_reservations t s =
     map (\<lambda>m. List.find (\<lambda>v. rv_logicalName v = tm_name m) (stage_reservations s)) (sc_members t)"

definition fullArtifactPolicy :: "run_record \<Rightarrow> store_error + team_stage \<times> string list \<times> string" where
  "fullArtifactPolicy r =
     ebind (frozenArtifactNode r) (\<lambda>(n, s).
       case n_teamStage n of
         None \<Rightarrow> Inl (OtherError ''teamStage is undefined'')
       | Some t \<Rightarrow>
           throw_if (length (stage_reservations s) \<noteq> length (sc_members t))
             (artifactReject ''artifact-required-reservation-missing'')
           (let ordered = ordered_reservations t s in
            throw_if (list_ex (\<lambda>v. Option.bind v rv_sessionId = None) ordered)
              (artifactReject ''artifact-required-member-missing'')
            (let vs = somes ordered; requiredIds = map rv_memberId vs in
             throw_if (list_ex (\<lambda>v. rv_schemaDigest v \<noteq> rv_schemaDigest (hd vs)
                          \<or> rv_schemaCanonicalJson v \<noteq> rv_schemaCanonicalJson (hd vs)
                          \<or> rv_schemaResourceDigest v \<noteq> rv_schemaResourceDigest (hd vs)) vs)
               (artifactReject ''artifact-schema-binding-mismatch'')
             (throw_if (\<not> distinct requiredIds \<or> \<not> distinct (map rv_sessionId vs)
                        \<or> ts_requiredMemberIds s \<noteq> Some requiredIds
                        \<or> ts_primaryMemberId s \<noteq> (case requiredIds of [] \<Rightarrow> None | i # _ \<Rightarrow> Some i))
               (artifactReject ''artifact-required-policy-mismatch'')
             (throw_if (list_ex (\<lambda>c. c \<notin> set TEAM_KNOWN_CHECKS) (sc_requiredChecks t)
                        \<or> ts_requiredChecks s \<noteq> Some (sc_requiredChecks t))
               (artifactReject ''artifact-required-check-mismatch'')
             (throw_if (list_ex (\<lambda>e. e_state e \<in> {EPending, ERecoveryRequired}) (stage_effects s))
               (artifactReject ''artifact-pending-effect'')
             (Inr (s, requiredIds, hd requiredIds))))))))"

end
