(* ===== verification/TeamStore.thy ===== *)
theory TeamStore
  imports RunStore ArtifactContract
begin

text \<open>
  The TeamStage operations of \<open>persistence/run-store.ts\<close>: binding the stage, its task and members,
  recording captures and the output acceptance, and the atomic settlement of the stage together
  with its graph Attempt. Every reducer meets the contract of \<open>StoreCore\<close>, and the stage facts
  evolve monotonically.
\<close>

section \<open>Helpers of the store\<close>

definition ACTIVE_TEAM_ATTEMPT_STATES :: "attempt_state list" where
  "ACTIVE_TEAM_ATTEMPT_STATES = [APreparing, AReady, ARunning]"

record stage_binding =
  sb_stageId :: string
  sb_teamId :: string
  sb_leadSessionId :: string
  sb_taskSpecificationFingerprint :: string
  sb_attemptId :: "string option"
  sb_requiredMemberIds :: "string list option"
  sb_requiredChecks :: "string list option"
  sb_primaryMemberId :: "string option"

definition stage_binding_ok :: "stage_binding \<Rightarrow> bool" where
  "stage_binding_ok b \<longleftrightarrow>
     nonempty (sb_stageId b) \<and> nonempty (sb_teamId b) \<and> nonempty (sb_leadSessionId b)
     \<and> is_sha256 (sb_taskSpecificationFingerprint b) \<and> pred_option nonempty (sb_attemptId b)
     \<and> pred_option (\<lambda>xs. xs \<noteq> [] \<and> list_all nonempty xs) (sb_requiredMemberIds b)
     \<and> pred_option (\<lambda>xs. xs \<noteq> [] \<and> list_all nonempty xs) (sb_requiredChecks b)
     \<and> pred_option nonempty (sb_primaryMemberId b)"

definition assertActiveTeamStageAttempt :: "run_record \<Rightarrow> stage_binding \<Rightarrow> string \<Rightarrow> store_error + unit" where
  "assertActiveTeamStageAttempt r b runId =
     (case sb_attemptId b of
        None \<Rightarrow> Inr ()
      | Some aid \<Rightarrow>
          (case List.find (\<lambda>a. a_attemptId a = aid) (r_attempts r) of
             None \<Rightarrow> Inl (TeamStageConflictError runId ''stage binding attempt does not belong to the declared graph node'')
           | Some a \<Rightarrow>
               throw_if (a_nodeId a \<noteq> sb_stageId b)
                 (TeamStageConflictError runId ''stage binding attempt does not belong to the declared graph node'')
               (throw_if (map_option i_kind (a_intent a) \<noteq> Some ''agentTask'')
                 (TeamStageConflictError runId ''stage binding attempt is not an agentTask Attempt'')
               (throw_if (a_state a \<notin> set ACTIVE_TEAM_ATTEMPT_STATES \<or> a_result a \<noteq> None)
                 (TeamStageConflictError runId ''stage binding attempt is not active'')
               (Inr ())))))"

definition allowedTeamStageTransition :: "team_stage_state \<Rightarrow> team_stage_state \<Rightarrow> bool" where
  "allowedTeamStageTransition src tgt \<longleftrightarrow>
     (if src = tgt then True
      else if tgt = SRecoveryRequired then True
      else if src = SCancelling then tgt = SCancelled
      else if src = SProvisioning then tgt \<in> {SActive, SWaitingInput, SCancelling, SCancelled, SFailed, STimedOut}
      else if src = SActive then tgt \<in> {SWaitingInput, SCancelling, SSucceeded, SFailed, STimedOut}
      else if src = SWaitingInput then tgt \<in> {SActive, SCancelling, SSucceeded, SFailed, STimedOut}
      else False)"

definition sameTeamOutputAcceptance :: "output_acceptance \<Rightarrow> output_acceptance \<Rightarrow> bool" where
  "sameTeamOutputAcceptance a b \<longleftrightarrow>
     oa_code a = oa_code b \<and> oa_schemaVersion a = oa_schemaVersion b \<and> oa_runId a = oa_runId b
     \<and> oa_stageId a = oa_stageId b \<and> oa_taskId a = oa_taskId b \<and> oa_sourceSessionId a = oa_sourceSessionId b
     \<and> oa_attemptId a = oa_attemptId b \<and> oa_artifactId a = oa_artifactId b \<and> oa_digest a = oa_digest b
     \<and> oa_evidenceDigest a = oa_evidenceDigest b \<and> oa_issueCode a = oa_issueCode b
     \<and> length (oa_checks a) = length (oa_checks b)
     \<and> list_all (\<lambda>(x, y). x = y) (zip (oa_checks a) (oa_checks b))"

text \<open>The states in which a stage no longer takes tasks, members or output.\<close>

definition stage_closed :: "team_stage_state \<Rightarrow> bool" where
  "stage_closed s \<longleftrightarrow> s \<in> {SCancelling, SCancelled, SRecoveryRequired, SSucceeded, SFailed, STimedOut}"

text \<open>\<open>isDeepStrictEqual\<close> on records that embed a digest dictionary.\<close>

definition same_reservation :: "team_reservation \<Rightarrow> team_reservation \<Rightarrow> bool" where
  "same_reservation a b \<longleftrightarrow>
     same_dict (rv_resourceDigests a) (rv_resourceDigests b) \<and> a\<lparr>rv_resourceDigests := []\<rparr> = b\<lparr>rv_resourceDigests := []\<rparr>"

definition same_capture :: "team_capture \<Rightarrow> team_capture \<Rightarrow> bool" where
  "same_capture a b \<longleftrightarrow>
     same_dict (cp_resourceDigests a) (cp_resourceDigests b) \<and> a\<lparr>cp_resourceDigests := []\<rparr> = b\<lparr>cp_resourceDigests := []\<rparr>"

definition stage_event :: "nat \<Rightarrow> int \<Rightarrow> event_kind \<Rightarrow> json dict \<Rightarrow> run_event" where
  "stage_event seq now k detail = \<lparr>l_seq = Suc seq, l_at = now, l_kind = k, l_detail = detail\<rparr>"

text \<open>\<open>teamStageRecordSchema.parse(stage)\<close> as the last step of a reducer, then the log entry.\<close>

definition put_stage :: "run_record \<Rightarrow> team_stage \<Rightarrow> run_event list \<Rightarrow> store_error + run_record" where
  "put_stage v s events =
     throw_if (\<not> team_stage_ok s) (OtherError ''invalid team stage'')
       (Inr (v\<lparr>r_teamStage := Some s, r_log := r_log v @ events\<rparr>))"

section \<open>Binding the stage\<close>

definition new_stage :: "string \<Rightarrow> stage_binding \<Rightarrow> int \<Rightarrow> team_stage" where
  "new_stage runId b now =
     \<lparr>ts_schemaVersion = 1, ts_stageId = sb_stageId b, ts_runId = runId, ts_teamId = sb_teamId b,
      ts_leadSessionId = sb_leadSessionId b,
      ts_taskSpecificationFingerprint = sb_taskSpecificationFingerprint b, ts_attemptId = sb_attemptId b,
      ts_requiredMemberIds = sb_requiredMemberIds b, ts_requiredChecks = sb_requiredChecks b,
      ts_primaryMemberId = sb_primaryMemberId b, ts_taskId = None, ts_taskRevision = None,
      ts_state = SProvisioning, ts_members = [], ts_effects = None, ts_reservations = None, ts_captures = None,
      ts_outputAcceptance = None, ts_cancel = None, ts_recovery = None, ts_execution = None, ts_updatedAt = now\<rparr>"

definition same_binding :: "team_stage \<Rightarrow> stage_binding \<Rightarrow> bool" where
  "same_binding s b \<longleftrightarrow>
     ts_stageId s = sb_stageId b \<and> ts_teamId s = sb_teamId b \<and> ts_leadSessionId s = sb_leadSessionId b
     \<and> ts_taskSpecificationFingerprint s = sb_taskSpecificationFingerprint b \<and> ts_attemptId s = sb_attemptId b
     \<and> (case ts_requiredMemberIds s of None \<Rightarrow> [] | Some x \<Rightarrow> x) = (case sb_requiredMemberIds b of None \<Rightarrow> [] | Some x \<Rightarrow> x)
     \<and> (case ts_requiredChecks s of None \<Rightarrow> [] | Some x \<Rightarrow> x) = (case sb_requiredChecks b of None \<Rightarrow> [] | Some x \<Rightarrow> x)
     \<and> ts_primaryMemberId s = sb_primaryMemberId b"

definition bindTeamStage_reducer :: "string \<Rightarrow> stage_binding \<Rightarrow> int \<Rightarrow> run_record \<Rightarrow> store_error + run_record" where
  "bindTeamStage_reducer runId b now v =
     ebind (assertActiveTeamStageAttempt v b runId) (\<lambda>_.
       put_stage v (new_stage runId b now)
         [stage_event (r_seq v) now EvState [(''teamStage'', JStr ''bound''), (''stageId'', JStr (sb_stageId b)),
            (''teamId'', JStr (sb_teamId b))]])"

definition bindTeamStage ::
  "string \<Rightarrow> stage_binding \<Rightarrow> (nat \<Rightarrow> int) \<Rightarrow> domain \<Rightarrow> (store_error + run_record) \<times> domain" where
  "bindTeamStage runId b clk d =
     (if \<not> stage_binding_ok b
      then (Inl (TeamStageConflictError runId ''stage, team, lead and task specification identities are required''), d)
      else case get_run runId d of
             Inl e \<Rightarrow> (Inl e, d)
           | Inr current \<Rightarrow>
               (case r_teamStage current of
                  Some existing \<Rightarrow>
                    (ebind (assertActiveTeamStageAttempt current b runId) (\<lambda>_.
                       throw_if (\<not> same_binding existing b)
                         (TeamStageConflictError runId ''a different stage/team/lead binding already exists'')
                       (Inr current)), d)
                | None \<Rightarrow> applyTransition runId (clk 1) no_replay (bindTeamStage_reducer runId b (clk 0)) d))"

section \<open>Task binding and revisions\<close>

definition bindTeamTask_reducer ::
  "string \<Rightarrow> string \<Rightarrow> nat \<Rightarrow> int \<Rightarrow> run_record \<Rightarrow> store_error + run_record" where
  "bindTeamTask_reducer runId taskId taskRevision now v =
     (case r_teamStage v of
        None \<Rightarrow> Inl (TeamTaskConflictError runId ''stage binding is missing'')
      | Some s \<Rightarrow>
          put_stage v (s\<lparr>ts_taskId := Some taskId, ts_taskRevision := Some taskRevision, ts_state := SActive,
                          ts_updatedAt := now\<rparr>)
            [stage_event (r_seq v) now EvState [(''teamStage'', JStr ''task-bound''), (''taskId'', JStr taskId),
               (''taskRevision'', jnat taskRevision)]])"

definition bindTeamTask ::
  "string \<Rightarrow> string \<Rightarrow> nat \<Rightarrow> (nat \<Rightarrow> int) \<Rightarrow> domain \<Rightarrow> (store_error + run_record) \<times> domain" where
  "bindTeamTask runId taskId taskRevision clk d =
     (if \<not> nonempty taskId \<or> taskRevision = 0
      then (Inl (TeamTaskConflictError runId ''taskId and positive taskRevision are required''), d)
      else case get_run runId d of
             Inl e \<Rightarrow> (Inl e, d)
           | Inr current \<Rightarrow>
               (case r_teamStage current of
                  None \<Rightarrow> (Inl (TeamTaskConflictError runId ''stage binding is missing''), d)
                | Some existing \<Rightarrow>
                    if ts_taskId existing \<noteq> None \<or> ts_taskRevision existing \<noteq> None then
                      if ts_taskId existing = Some taskId \<and> ts_taskRevision existing = Some taskRevision
                      then (Inr current, d)
                      else (Inl (TeamTaskConflictError runId ''a different task is already bound''), d)
                    else if stage_closed (ts_state existing)
                    then (Inl (TeamTaskConflictError runId ''cannot bind a Team task''), d)
                    else applyTransition runId (clk 1) no_replay (bindTeamTask_reducer runId taskId taskRevision (clk 0)) d))"

definition updateTeamTaskRevision_reducer ::
  "string \<Rightarrow> nat \<Rightarrow> nat \<Rightarrow> int \<Rightarrow> run_record \<Rightarrow> store_error + run_record" where
  "updateTeamTaskRevision_reducer runId expectedRevision nextRevision now v =
     (case r_teamStage v of
        None \<Rightarrow> Inl (TeamTaskConflictError runId ''stale canonical task revision'')
      | Some s \<Rightarrow>
          throw_if (ts_taskId s = None \<or> ts_taskRevision s \<noteq> Some expectedRevision)
            (TeamTaskConflictError runId ''stale canonical task revision'')
          (put_stage v (s\<lparr>ts_taskRevision := Some nextRevision, ts_updatedAt := now\<rparr>)
            [stage_event (r_seq v) now EvState [(''teamStage'', JStr ''task-revision''),
               (''taskId'', JStr (case ts_taskId s of None \<Rightarrow> [] | Some t \<Rightarrow> t)),
               (''expectedRevision'', jnat expectedRevision), (''taskRevision'', jnat nextRevision)]]))"

definition updateTeamTaskRevision ::
  "string \<Rightarrow> nat \<Rightarrow> nat \<Rightarrow> (nat \<Rightarrow> int) \<Rightarrow> domain \<Rightarrow> (store_error + run_record) \<times> domain" where
  "updateTeamTaskRevision runId expectedRevision nextRevision clk d =
     (if expectedRevision < 1 \<or> nextRevision \<noteq> expectedRevision + 1
      then (Inl (TeamTaskConflictError runId ''task revision must advance exactly one step''), d)
      else case get_run runId d of
             Inl e \<Rightarrow> (Inl e, d)
           | Inr current \<Rightarrow>
               (case r_teamStage current of
                  None \<Rightarrow> (Inl (TeamTaskConflictError runId ''stage task binding is missing''), d)
                | Some s \<Rightarrow>
                    if ts_taskId s = None \<or> ts_taskRevision s = None
                    then (Inl (TeamTaskConflictError runId ''stage task binding is missing''), d)
                    else if stage_closed (ts_state s)
                    then (Inl (TeamTaskConflictError runId ''cannot update a Team task''), d)
                    else if ts_taskRevision s \<noteq> Some expectedRevision
                    then (Inl (TeamTaskConflictError runId ''stale canonical task revision''), d)
                    else applyTransition runId (clk 1) no_replay
                           (updateTeamTaskRevision_reducer runId expectedRevision nextRevision (clk 0)) d))"

definition observeTeamTaskRevision_reducer ::
  "string \<Rightarrow> string \<Rightarrow> nat \<Rightarrow> nat \<Rightarrow> int \<Rightarrow> run_record \<Rightarrow> store_error + run_record" where
  "observeTeamTaskRevision_reducer runId taskId taskRevision expectedRevision now v =
     (case r_teamStage v of
        None \<Rightarrow> Inl (TeamTaskConflictError runId ''stale or foreign task observation'')
      | Some s \<Rightarrow>
          throw_if (ts_taskId s \<noteq> Some taskId \<or> ts_taskRevision s \<noteq> Some expectedRevision)
            (TeamTaskConflictError runId ''stale or foreign task observation'')
          (put_stage v (s\<lparr>ts_taskRevision := Some taskRevision, ts_updatedAt := now\<rparr>)
            [stage_event (r_seq v) now EvState [(''teamStage'', JStr ''task-observed''), (''taskId'', JStr taskId),
               (''expectedRevision'', jnat expectedRevision), (''taskRevision'', jnat taskRevision)]]))"

definition observeTeamTaskRevision ::
  "string \<Rightarrow> string \<Rightarrow> nat \<Rightarrow> nat \<Rightarrow> (nat \<Rightarrow> int) \<Rightarrow> domain \<Rightarrow> (store_error + run_record) \<times> domain" where
  "observeTeamTaskRevision runId taskId taskRevision expectedRevision clk d =
     (if \<not> nonempty taskId \<or> taskRevision = 0
      then (Inl (TeamTaskConflictError runId ''task observation is malformed''), d)
      else if expectedRevision < 1 \<or> taskRevision < expectedRevision
      then (Inl (TeamTaskConflictError runId ''task observation cannot move a revision backwards''), d)
      else case get_run runId d of
             Inl e \<Rightarrow> (Inl e, d)
           | Inr current \<Rightarrow>
               (case r_teamStage current of
                  None \<Rightarrow> (Inl (TeamTaskConflictError runId ''stale or foreign task observation''), d)
                | Some s \<Rightarrow>
                    if ts_taskId s \<noteq> Some taskId \<or> ts_taskRevision s \<noteq> Some expectedRevision
                    then (Inl (TeamTaskConflictError runId ''stale or foreign task observation''), d)
                    else if stage_closed (ts_state s)
                    then (Inl (TeamTaskConflictError runId ''cannot observe a Team task''), d)
                    else if taskRevision = expectedRevision then (Inr current, d)
                    else applyTransition runId (clk 1) no_replay
                           (observeTeamTaskRevision_reducer runId taskId taskRevision expectedRevision (clk 0)) d))"

section \<open>Execution budget\<close>

definition recordTeamStageExecution_reducer :: "team_execution \<Rightarrow> int \<Rightarrow> run_record \<Rightarrow> store_error + run_record" where
  "recordTeamStageExecution_reducer frozen now v =
     (case r_teamStage v of
        None \<Rightarrow> Inl (OtherError ''teamStage is undefined'')
      | Some s \<Rightarrow> put_stage v (s\<lparr>ts_execution := Some frozen, ts_updatedAt := now\<rparr>) [])"

definition recordTeamStageExecution ::
  "string \<Rightarrow> string \<Rightarrow> team_execution \<Rightarrow> (nat \<Rightarrow> int) \<Rightarrow> domain \<Rightarrow> (store_error + run_record) \<times> domain" where
  "recordTeamStageExecution runId attemptId frozen clk d =
     (if \<not> execution_ok frozen
      then (Inl (TeamStageConflictError runId ''execution diagnostic is malformed''), d)
      else case get_run runId d of
             Inl e \<Rightarrow> (Inl e, d)
           | Inr current \<Rightarrow>
               (case r_teamStage current of
                  None \<Rightarrow> (Inl (TeamStageConflictError runId ''execution Attempt binding mismatch''), d)
                | Some s \<Rightarrow>
                    if ts_attemptId s \<noteq> Some attemptId
                    then (Inl (TeamStageConflictError runId ''execution Attempt binding mismatch''), d)
                    else if ts_execution s = Some frozen then (Inr current, d)
                    else if ts_state s = SSucceeded
                            \<or> (ts_execution s = None \<and> ts_state s \<notin> {SProvisioning, SActive})
                    then (Inl (TeamStageConflictError runId ''execution diagnostic cannot start after settlement''), d)
                    else if (case ts_execution s of None \<Rightarrow> False
                             | Some previous \<Rightarrow> x_startedAt previous \<noteq> x_startedAt frozen
                                 \<or> x_deadlineAt previous \<noteq> x_deadlineAt frozen
                                 \<or> x_timeoutMs previous \<noteq> x_timeoutMs frozen \<or> x_abort previous \<noteq> None)
                    then (Inl (TeamStageConflictError runId ''execution budget and first abort are immutable''), d)
                    else applyTransition runId (clk 1) no_replay (recordTeamStageExecution_reducer frozen (clk 0)) d))"

section \<open>Lifecycle observations\<close>

text \<open>A field that is absent from the update object is \<open>None\<close>.\<close>

record stage_update =
  su_state :: "team_stage_state option"
  su_members :: "team_member list option"
  su_cancel :: "team_cancel option"
  su_recovery :: "team_recovery option"

definition updateTeamStage_reducer ::
  "string \<Rightarrow> stage_update \<Rightarrow> int \<Rightarrow> run_record \<Rightarrow> store_error + run_record" where
  "updateTeamStage_reducer runId u now v =
     (case r_teamStage v of
        None \<Rightarrow> Inl (TeamStageConflictError runId ''stage binding is missing'')
      | Some s \<Rightarrow>
          throw_if (ts_state s = SSucceeded) (TeamStageConflictError runId ''accepted TeamStage evidence is immutable'')
          (throw_if (su_state u = Some SSucceeded \<and> ts_attemptId s \<noteq> None)
             (TeamStageConflictError runId ''graph-bound success requires atomic Attempt settlement'')
          (throw_if (\<not> pred_option (allowedTeamStageTransition (ts_state s)) (su_state u))
             (TeamStageConflictError runId ''invalid TeamStage transition'')
          (throw_if (su_state u = Some SSucceeded \<and> map_option oa_code (ts_outputAcceptance s) \<noteq> Some Accepted)
             (TeamStageConflictError runId ''accepted Team output is required before stage success'')
          (put_stage v
             (s\<lparr>ts_state := (case su_state u of None \<Rightarrow> ts_state s | Some x \<Rightarrow> x),
                ts_members := (case su_members u of None \<Rightarrow> ts_members s | Some x \<Rightarrow> x),
                ts_cancel := (case su_cancel u of None \<Rightarrow> ts_cancel s | Some x \<Rightarrow> Some x),
                ts_recovery := (case su_recovery u of None \<Rightarrow> ts_recovery s | Some x \<Rightarrow> Some x),
                ts_updatedAt := now\<rparr>) [])))))"

definition updateTeamStage ::
  "string \<Rightarrow> stage_update \<Rightarrow> (nat \<Rightarrow> int) \<Rightarrow> domain \<Rightarrow> (store_error + run_record) \<times> domain" where
  "updateTeamStage runId u clk d =
     (case get_run runId d of
        Inl e \<Rightarrow> (Inl e, d)
      | Inr current \<Rightarrow>
          (case r_teamStage current of
             Some s \<Rightarrow>
               if ts_state s = SSucceeded then
                 if pred_option (\<lambda>x. x = ts_state s) (su_state u) \<and> pred_option (\<lambda>x. x = ts_members s) (su_members u)
                    \<and> (su_cancel u = None \<or> su_cancel u = ts_cancel s)
                    \<and> (su_recovery u = None \<or> su_recovery u = ts_recovery s)
                 then (Inr current, d)
                 else (Inl (TeamStageConflictError runId ''accepted TeamStage evidence is immutable''), d)
               else applyTransition runId (clk 1) no_replay (updateTeamStage_reducer runId u (clk 0)) d
           | None \<Rightarrow> applyTransition runId (clk 1) no_replay (updateTeamStage_reducer runId u (clk 0)) d))"

definition upsertTeamMember_reducer ::
  "string \<Rightarrow> team_member \<Rightarrow> int \<Rightarrow> run_record \<Rightarrow> store_error + run_record" where
  "upsertTeamMember_reducer runId m now v =
     (case r_teamStage v of
        None \<Rightarrow> Inl (TeamStageConflictError runId ''stage binding is missing'')
      | Some s \<Rightarrow>
          throw_if (stage_closed (ts_state s)) (TeamStageConflictError runId ''cannot bind a Team member'')
          (put_stage v
             (s\<lparr>ts_members := filter (\<lambda>c. m_memberId c \<noteq> m_memberId m \<and> (m_name m = None \<or> m_name c \<noteq> m_name m))
                   (ts_members s) @ [m], ts_updatedAt := now\<rparr>)
             [stage_event (r_seq v) now EvState [(''teamStage'', JStr ''member-bound''), (''memberId'', JStr (m_memberId m)),
                (''memberName'', case m_name m of None \<Rightarrow> JUndefined | Some n \<Rightarrow> JStr n)]]))"

definition upsertTeamMember ::
  "string \<Rightarrow> team_member \<Rightarrow> (nat \<Rightarrow> int) \<Rightarrow> domain \<Rightarrow> (store_error + run_record) \<times> domain" where
  "upsertTeamMember runId m clk d =
     (if \<not> member_ok m then (Inl (TeamStageConflictError runId ''member snapshot is malformed''), d)
      else applyTransition runId (clk 1) no_replay (upsertTeamMember_reducer runId m (clk 0)) d)"

end
