(* ===== verification/TeamArtifacts.thy ===== *)
theory TeamArtifacts
  imports TeamStore
begin

text \<open>
  The artifact half of the TeamStage store (\<open>persistence/run-store.ts\<close>): member reservations made
  before a spawn, their binding to native sessions, captures, the recorded acceptance, and the one
  reducer that settles a stage and its graph Attempt together.
\<close>

section \<open>Transitions that map artifact errors\<close>

definition artifact_error :: "string \<Rightarrow> store_error \<Rightarrow> store_error" where
  "artifact_error runId e = (case e of TeamArtifactError issue \<Rightarrow> TeamOutputRejectedError runId issue | _ \<Rightarrow> e)"

definition artifactTransition ::
  "string \<Rightarrow> int \<Rightarrow> (run_record \<Rightarrow> store_error + run_record) \<Rightarrow> (run_record \<Rightarrow> store_error + bool) \<Rightarrow> domain
     \<Rightarrow> (store_error + run_record) \<times> domain" where
  "artifactTransition runId now reducer replay d =
     (case get_run runId d of
        Inl e \<Rightarrow> (Inl e, d)
      | Inr current \<Rightarrow>
          (case replay current of
             Inl e \<Rightarrow> (Inl (artifact_error runId e), d)
           | Inr replayed \<Rightarrow>
               if replayed then (Inr current, d)
               else case applyTransition runId now replay reducer d of
                      (Inr r, d') \<Rightarrow> (Inr r, d')
                    | (Inl e, d') \<Rightarrow>
                        (case e of
                           TeamSettlementReplay r \<Rightarrow> (Inr r, d')
                         | _ \<Rightarrow> (Inl (artifact_error runId e), d'))))"

section \<open>Reserving a member\<close>

record reserve_request =
  rq_attemptId :: string
  rq_effectId :: string
  rq_logicalName :: string
  rq_schema :: json
  rq_resourceDigests :: digests

definition declared_member :: "graph_node \<Rightarrow> string \<Rightarrow> member_config option" where
  "declared_member n name =
     Option.bind (n_teamStage n) (\<lambda>t. List.find (\<lambda>m. tm_name m = name) (sc_members t))"

definition reserve_matching :: "reserve_request \<Rightarrow> json \<Rightarrow> run_record \<Rightarrow> store_error + bool" where
  "reserve_matching q schemaCanonicalJson r =
     ebind (frozenArtifactNode r) (\<lambda>(n, s).
       throw_if (ts_attemptId s \<noteq> Some (rq_attemptId q) \<or> declared_member n (rq_logicalName q) = None)
         (artifactReject ''artifact-reservation-binding-mismatch'')
       (case List.find (\<lambda>v. rv_logicalName v = rq_logicalName q \<or> rv_effectId v = rq_effectId q) (stage_reservations s) of
          None \<Rightarrow> Inr False
        | Some existing \<Rightarrow>
            throw_if (rv_attemptId existing \<noteq> rq_attemptId q \<or> rv_effectId existing \<noteq> rq_effectId q
                      \<or> rv_logicalName existing \<noteq> rq_logicalName q \<or> rv_schemaCanonicalJson existing \<noteq> schemaCanonicalJson
                      \<or> \<not> same_dict (rv_resourceDigests existing) (rq_resourceDigests q))
              (artifactReject ''artifact-reservation-conflict'') (Inr True)))"

text \<open>Once every declared member has a reservation the stage's required members are fixed.\<close>

definition complete_members :: "stage_config \<Rightarrow> team_stage \<Rightarrow> team_stage" where
  "complete_members t s =
     (let ordered = ordered_reservations t s in
      if list_all (\<lambda>v. v \<noteq> None) ordered
      then s\<lparr>ts_requiredMemberIds := Some (map rv_memberId (somes ordered)),
             ts_primaryMemberId := (case map rv_memberId (somes ordered) of [] \<Rightarrow> None | i # _ \<Rightarrow> Some i)\<rparr>
      else s)"

definition reserveTeamMember_reducer ::
  "(json \<Rightarrow> string) \<Rightarrow> string \<Rightarrow> reserve_request \<Rightarrow> json \<Rightarrow> string \<Rightarrow> string \<Rightarrow> int \<Rightarrow> run_record \<Rightarrow> store_error + run_record" where
  "reserveTeamMember_reducer sha runId q schemaCanonicalJson nativeName memberId now v =
     ebind (requireArtifactStageWritable v) (\<lambda>_.
     ebind (frozenArtifactNode v) (\<lambda>(n, s).
       case (declared_member n (rq_logicalName q), List.find (\<lambda>a. a_attemptId a = rq_attemptId q) (r_attempts v),
             n_outputSchemaRef n, n_teamStage n) of
         (Some declared, Some a, Some schemaResourceId, Some t) \<Rightarrow>
           (case map_of (rq_resourceDigests q) schemaResourceId of
              None \<Rightarrow> Inl (artifactReject ''artifact-resource-binding-mismatch'')
            | Some schemaResourceDigest \<Rightarrow>
                throw_if (intent_digest a schemaResourceId \<noteq> Some schemaResourceDigest
                          \<or> map_of (rq_resourceDigests q) (tm_agentRef declared) = None)
                  (artifactReject ''artifact-resource-binding-mismatch'')
                (throw_if (list_ex (\<lambda>(i, dg). intent_digest a i \<noteq> None \<and> intent_digest a i \<noteq> Some dg) (rq_resourceDigests q))
                  (artifactReject ''artifact-resource-binding-mismatch'')
                (throw_if (list_ex (\<lambda>e. e_effectId e = rq_effectId q \<or> e_memberName e = Some nativeName) (stage_effects s))
                  (artifactReject ''artifact-reservation-after-effect'')
                (throw_if (list_ex (\<lambda>w. rv_schemaCanonicalJson w \<noteq> schemaCanonicalJson
                              \<or> rv_schemaResourceDigest w \<noteq> schemaResourceDigest) (stage_reservations s))
                  (artifactReject ''artifact-schema-binding-mismatch'')
                (let reservation = \<lparr>rv_runId = runId, rv_stageId = ts_stageId s,
                       rv_definitionRevision = r_definitionRevision v, rv_attemptId = rq_attemptId q,
                       rv_effectId = rq_effectId q, rv_logicalName = rq_logicalName q, rv_nativeName = nativeName,
                       rv_reservationSeq = Suc (r_seq v), rv_schemaCanonicalJson = schemaCanonicalJson,
                       rv_schemaDigest = sha schemaCanonicalJson, rv_schemaResourceId = schemaResourceId,
                       rv_schemaResourceDigest = schemaResourceDigest, rv_resourceDigests = rq_resourceDigests q,
                       rv_memberId = memberId, rv_sessionId = None\<rparr>
                 in throw_if (\<not> reservation_ok reservation) (artifactReject ''artifact-reservation-invalid'')
                    (throw_if (list_ex (\<lambda>w. rv_nativeName w = nativeName) (stage_reservations s))
                      (artifactReject ''artifact-reservation-conflict'')
                    (put_stage v
                      ((complete_members t (s\<lparr>ts_reservations := Some (stage_reservations s @ [reservation])\<rparr>))
                         \<lparr>ts_requiredChecks := Some (sc_requiredChecks t), ts_updatedAt := now\<rparr>)
                      [stage_event (r_seq v) now EvState [(''teamStage'', JStr ''member-reserved''),
                         (''effectId'', JStr (rq_effectId q)), (''nativeName'', JStr nativeName)]])))))))
       | _ \<Rightarrow> Inl (OtherError ''declared member is undefined'')))"

definition reserveTeamMember ::
  "(json \<Rightarrow> string) \<Rightarrow> (json \<Rightarrow> bool) \<Rightarrow> string \<Rightarrow> reserve_request \<Rightarrow> string \<Rightarrow> string \<Rightarrow> (nat \<Rightarrow> int) \<Rightarrow> domain
     \<Rightarrow> (store_error + team_reservation) \<times> domain" where
  "reserveTeamMember sha objectSchema runId q uuid1 uuid2 clk d =
     (case (if objectSchema (rq_schema q) then canonicalJson (rq_schema q) else None) of
        None \<Rightarrow> (Inl (TeamOutputRejectedError runId ''artifact-schema-invalid''), d)
      | Some c \<Rightarrow>
          (case artifactTransition runId (clk 1)
                  (reserveTeamMember_reducer sha runId q c (''bp-'' @ uuid1) (''member-'' @ uuid2) (clk 0))
                  (reserve_matching q c) d of
             (Inl e, d') \<Rightarrow> (Inl e, d')
           | (Inr r, d') \<Rightarrow>
               (case Option.bind (r_teamStage r)
                       (\<lambda>s. List.find (\<lambda>v. rv_logicalName v = rq_logicalName q) (stage_reservations s)) of
                  None \<Rightarrow> (Inl (OtherError ''reservation is undefined''), d')
                | Some v \<Rightarrow> (Inr v, d'))))"

section \<open>Binding a reserved member to its session\<close>

record member_binding =
  mb_attemptId :: string
  mb_effectId :: string
  mb_memberId :: string
  mb_sessionId :: string

definition member_matching :: "member_binding \<Rightarrow> run_record \<Rightarrow> store_error + bool" where
  "member_matching q r =
     (case Option.bind (r_teamStage r) (\<lambda>s. List.find (\<lambda>v. rv_effectId v = mb_effectId q) (stage_reservations s)) of
        None \<Rightarrow> Inr False
      | Some v \<Rightarrow>
          if rv_sessionId v = None then Inr False
          else throw_if (rv_attemptId v \<noteq> mb_attemptId q \<or> rv_memberId v \<noteq> mb_memberId q
                         \<or> rv_sessionId v \<noteq> Some (mb_sessionId q))
                 (artifactReject ''artifact-member-binding-conflict'') (Inr True))"

definition spawn_open :: "team_stage \<Rightarrow> team_reservation \<Rightarrow> member_binding \<Rightarrow> bool" where
  "spawn_open s v q \<longleftrightarrow>
     (case List.find (\<lambda>e. e_effectId e = mb_effectId q) (stage_effects s) of
        None \<Rightarrow> False
      | Some e \<Rightarrow> e_kind e = ''spawn'' \<and> e_memberName e = Some (rv_nativeName v)
          \<and> e_actorSessionId e = ts_leadSessionId s \<and> e_state e \<in> {EPending, ESucceeded}
          \<and> \<not> (e_state e = ESucceeded \<and> e_resultMemberId e \<noteq> Some (mb_sessionId q)))"

definition bindTeamMemberReservation_reducer ::
  "string \<Rightarrow> member_binding \<Rightarrow> int \<Rightarrow> run_record \<Rightarrow> store_error + run_record" where
  "bindTeamMemberReservation_reducer runId q now v =
     ebind (requireArtifactStageWritable v) (\<lambda>_.
     ebind (frozenArtifactNode v) (\<lambda>(n, s).
       case (List.find (\<lambda>w. rv_effectId w = mb_effectId q) (stage_reservations s), n_teamStage n) of
         (Some rv, Some t) \<Rightarrow>
           throw_if (rv_attemptId rv \<noteq> mb_attemptId q \<or> ts_attemptId s \<noteq> Some (mb_attemptId q)
                     \<or> rv_memberId rv \<noteq> mb_memberId q \<or> rv_runId rv \<noteq> runId \<or> rv_stageId rv \<noteq> ts_stageId s
                     \<or> rv_definitionRevision rv \<noteq> r_definitionRevision v)
             (artifactReject ''artifact-reservation-missing'')
           (throw_if (mb_sessionId q = ts_leadSessionId s
                      \<or> list_ex (\<lambda>w. rv_effectId w \<noteq> mb_effectId q
                           \<and> (rv_memberId w = mb_memberId q \<or> rv_sessionId w = Some (mb_sessionId q))) (stage_reservations s))
             (artifactReject ''artifact-member-binding-conflict'')
           (throw_if (\<not> spawn_open s rv q) (artifactReject ''artifact-spawn-unverified'')
           (throw_if (list_ex (\<lambda>m. m_memberId m = mb_memberId q \<or> m_sessionId m = Some (mb_sessionId q)
                                   \<or> m_name m = Some (rv_nativeName rv)) (ts_members s))
             (artifactReject ''artifact-member-binding-conflict'')
           (put_stage v
             ((complete_members t (s\<lparr>ts_reservations := Some (update_first (\<lambda>w. rv_effectId w = mb_effectId q)
                    (\<lambda>w. w\<lparr>rv_sessionId := Some (mb_sessionId q)\<rparr>) (stage_reservations s)),
                  ts_members := ts_members s @ [\<lparr>m_memberId = mb_memberId q, m_name = Some (rv_nativeName rv),
                     m_logicalName = Some (rv_logicalName rv), m_phase = PhProvisioning, m_status = ''provisioning'',
                     m_sessionId = Some (mb_sessionId q), m_evidence = None\<rparr>]\<rparr>))\<lparr>ts_updatedAt := now\<rparr>)
             [stage_event (r_seq v) now EvState [(''teamStage'', JStr ''reserved-member-bound''),
                (''effectId'', JStr (mb_effectId q)), (''memberId'', JStr (mb_memberId q))]]))))
       | _ \<Rightarrow> Inl (artifactReject ''artifact-reservation-missing'')))"

definition bindTeamMemberReservation ::
  "string \<Rightarrow> member_binding \<Rightarrow> (nat \<Rightarrow> int) \<Rightarrow> domain \<Rightarrow> (store_error + run_record) \<times> domain" where
  "bindTeamMemberReservation runId q clk d =
     (if \<not> (nonempty (mb_attemptId q) \<and> nonempty (mb_effectId q) \<and> nonempty (mb_memberId q) \<and> nonempty (mb_sessionId q))
      then (Inl (TeamOutputRejectedError runId ''artifact-member-binding-invalid''), d)
      else artifactTransition runId (clk 1) (bindTeamMemberReservation_reducer runId q (clk 0)) (member_matching q) d)"

section \<open>Binding a capture\<close>

definition capture_matching :: "(json \<Rightarrow> string) \<Rightarrow> team_capture \<Rightarrow> run_record \<Rightarrow> store_error + bool" where
  "capture_matching sha ref r =
     (case Option.bind (r_teamStage r)
             (\<lambda>s. List.find (\<lambda>c. cp_producerMemberId c = cp_producerMemberId ref) (stage_captures s)) of
        None \<Rightarrow> Inr False
      | Some previous \<Rightarrow>
          throw_if (\<not> same_capture previous ref) (artifactReject ''artifact-capture-conflict'')
          (ebind (validateCaptureArtifactBinding sha r ref True) (\<lambda>_. Inr True)))"

definition bindTeamCaptureArtifact_reducer ::
  "(json \<Rightarrow> string) \<Rightarrow> team_capture \<Rightarrow> team_member \<Rightarrow> nat \<Rightarrow> int \<Rightarrow> run_record \<Rightarrow> store_error + run_record" where
  "bindTeamCaptureArtifact_reducer sha ref member taskRevision now v =
     ebind (requireArtifactStageWritable v) (\<lambda>_.
     ebind (validateCaptureArtifactBinding sha v ref False) (\<lambda>_.
       case r_teamStage v of
         None \<Rightarrow> Inl (OtherError ''teamStage is undefined'')
       | Some s \<Rightarrow>
           throw_if (ts_taskRevision s \<noteq> Some taskRevision
                     \<or> List.find (\<lambda>m. m_memberId m = cp_producerMemberId ref) (ts_members s) \<noteq> Some member)
             (artifactReject ''artifact-current-capture-mismatch'')
           (put_stage v
             (s\<lparr>ts_captures := Some (stage_captures s @ [ref]),
                ts_members := update_first (\<lambda>m. m_memberId m = cp_producerMemberId ref)
                  (\<lambda>m. m\<lparr>m_evidence := Some (memberEvidenceForArtifact ref)\<rparr>) (ts_members s),
                ts_updatedAt := now\<rparr>)
             [stage_event (r_seq v) now EvState [(''teamStage'', JStr ''capture-artifact-bound''),
                (''artifactId'', JStr (cp_artifactId ref)), (''evidenceDigest'', JStr (cp_evidenceDigest ref))]])))"

definition bindTeamCaptureArtifact ::
  "(json \<Rightarrow> string) \<Rightarrow> string \<Rightarrow> team_capture \<Rightarrow> team_member \<Rightarrow> nat \<Rightarrow> (nat \<Rightarrow> int) \<Rightarrow> domain
     \<Rightarrow> (store_error + run_record) \<times> domain" where
  "bindTeamCaptureArtifact sha runId ref member taskRevision clk d =
     (if \<not> capture_ok ref \<or> \<not> member_ok member
      then (Inl (TeamOutputRejectedError runId ''artifact-reference-invalid''), d)
      else artifactTransition runId (clk 1) (bindTeamCaptureArtifact_reducer sha ref member taskRevision (clk 0))
             (capture_matching sha ref) d)"

section \<open>Recorded acceptance\<close>

definition recordTeamOutputAcceptance_reducer ::
  "string \<Rightarrow> output_acceptance \<Rightarrow> int \<Rightarrow> run_record \<Rightarrow> store_error + run_record" where
  "recordTeamOutputAcceptance_reducer runId acc now v =
     (case r_teamStage v of
        None \<Rightarrow> Inl (TeamOutputRejectedError runId ''stage-binding-missing'')
      | Some s \<Rightarrow>
          throw_if (oa_code acc = Accepted \<and> ts_attemptId s \<noteq> None) (TeamOutputRejectedError runId ''accepted-settlement-required'')
          (throw_if (ts_taskId s = None \<or> ts_taskRevision s = None) (TeamOutputRejectedError runId ''task-binding-missing'')
          (throw_if (oa_runId acc \<noteq> runId \<or> oa_stageId acc \<noteq> ts_stageId s \<or> Some (oa_taskId acc) \<noteq> ts_taskId s)
             (TeamOutputRejectedError runId ''foreign-binding'')
          (put_stage v
             (s\<lparr>ts_outputAcceptance := Some acc,
                ts_state := (if oa_code acc = Rejected then SFailed else ts_state s), ts_updatedAt := now\<rparr>)
             [stage_event (r_seq v) now EvResult [(''teamStage'', JStr ''output-acceptance''),
                (''code'', JStr (case oa_code acc of Accepted \<Rightarrow> ''accepted'' | Rejected \<Rightarrow> ''rejected'')),
                (''evidenceDigest'', JStr (oa_evidenceDigest acc))]]))))"

definition recordTeamOutputAcceptance ::
  "string \<Rightarrow> output_acceptance \<Rightarrow> (nat \<Rightarrow> int) \<Rightarrow> domain \<Rightarrow> (store_error + run_record) \<times> domain" where
  "recordTeamOutputAcceptance runId acc clk d =
     (if \<not> output_acceptance_ok acc then (Inl (TeamOutputRejectedError runId ''malformed-acceptance''), d)
      else case get_run runId d of
             Inl e \<Rightarrow> (Inl e, d)
           | Inr current \<Rightarrow>
               if oa_code acc = Accepted \<and> Option.bind (r_teamStage current) ts_attemptId \<noteq> None
               then (Inl (TeamOutputRejectedError runId ''accepted-settlement-required''), d)
               else case Option.bind (r_teamStage current) ts_outputAcceptance of
                      Some existing \<Rightarrow>
                        if sameTeamOutputAcceptance existing acc then (Inr current, d)
                        else (Inl (TeamOutputRejectedError runId ''acceptance-conflict''), d)
                    | None \<Rightarrow>
                        if (case r_teamStage current of None \<Rightarrow> False | Some s \<Rightarrow> stage_closed (ts_state s))
                        then (Inl (TeamOutputRejectedError runId ''stage-not-accepting''), d)
                        else applyTransition runId (clk 1) no_replay
                               (recordTeamOutputAcceptance_reducer runId acc (clk 0)) d)"

section \<open>Settlement of a stage with its Attempt\<close>

record settle_request =
  sq_attemptId :: string
  sq_acceptance :: output_acceptance
  sq_outputs :: "json dict"
  sq_evidence :: "string option"
  sq_definitionRevision :: string
  sq_stage :: team_stage
  sq_hostVerdict :: host_verdict

definition verdict_json :: "host_verdict \<Rightarrow> json" where
  "verdict_json v = JObj
     [(''status'', JStr ''verified''), (''artifactId'', JStr (hv_artifactId v)), (''digest'', JStr (hv_digest v)),
      (''byteLength'', jnat (hv_byteLength v)), (''schemaDigest'', JStr (hv_schemaDigest v)),
      (''evidenceDigest'', JStr (hv_evidenceDigest v)), (''runId'', JStr (hv_runId v)),
      (''stageId'', JStr (hv_stageId v)), (''taskId'', JStr (hv_taskId v)), (''attemptId'', JStr (hv_attemptId v)),
      (''producerSessionId'', JStr (hv_producerSessionId v)), (''producerMemberId'', JStr (hv_producerMemberId v))]"

definition provenance :: "settle_request \<Rightarrow> json" where
  "provenance q = JObj
     [(''definitionRevision'', JStr (sq_definitionRevision q)),
      (''taskRevision'', case ts_taskRevision (sq_stage q) of None \<Rightarrow> JUndefined | Some n \<Rightarrow> jnat n),
      (''hostVerdict'', verdict_json (sq_hostVerdict q))]"

definition settlement_isReplay :: "string \<Rightarrow> settle_request \<Rightarrow> run_record \<Rightarrow> store_error + bool" where
  "settlement_isReplay runId q r =
     (case r_teamStage r of
        None \<Rightarrow> Inr False
      | Some s \<Rightarrow>
          (case ts_outputAcceptance s of
             None \<Rightarrow> Inr False
           | Some acc \<Rightarrow>
               throw_if (\<not> sameTeamOutputAcceptance acc (sq_acceptance q)) (TeamOutputRejectedError runId ''acceptance-conflict'')
               (case List.find (\<lambda>a. a_attemptId a = sq_attemptId q) (r_attempts r) of
                  None \<Rightarrow> Inl (TeamOutputRejectedError runId ''attempt-already-settled'')
                | Some a \<Rightarrow>
                    (case a_result a of
                       None \<Rightarrow> Inl (TeamOutputRejectedError runId ''attempt-already-settled'')
                     | Some res \<Rightarrow>
                         throw_if (ts_state s \<noteq> SSucceeded \<or> ts_attemptId s \<noteq> Some (sq_attemptId q)
                                   \<or> a_state a \<noteq> ASucceeded \<or> \<not> o_ok res)
                           (TeamOutputRejectedError runId ''attempt-already-settled'')
                         (throw_if (\<not> json_deep_eq (jfield ''outputs'' (o_outcome res)) (JObj (sq_outputs q)))
                           (TeamOutputRejectedError runId ''acceptance-conflict'')
                         (throw_if (\<not> json_deep_eq (jfield ''teamVerification'' (o_outcome res)) (provenance q))
                           (TeamOutputRejectedError runId ''host-verdict-binding-mismatch'')
                         (throw_if (r_state r \<in> {Cancelling, Cancelled, RecoveryRequired, Failed, TimedOut})
                           (TeamOutputRejectedError runId ''run-not-accepting'')
                         (Inr True))))))))"

text \<open>The checks that compare the durable stage with the one the host verified.\<close>

definition same_opt_list :: "('a \<Rightarrow> 'a \<Rightarrow> bool) \<Rightarrow> 'a list option \<Rightarrow> 'a list option \<Rightarrow> bool" where
  "same_opt_list eq a b \<longleftrightarrow>
     (case (a, b) of (None, None) \<Rightarrow> True | (Some x, Some y) \<Rightarrow> list_all2 eq x y | _ \<Rightarrow> False)"

definition settle_binding_checks ::
  "string \<Rightarrow> settle_request \<Rightarrow> run_record \<Rightarrow> team_stage \<Rightarrow> store_error + unit" where
  "settle_binding_checks runId q v s =
     (let expected = sq_stage q; acc = sq_acceptance q in
      throw_if (ts_attemptId s \<noteq> Some (sq_attemptId q) \<or> ts_attemptId expected \<noteq> Some (sq_attemptId q))
        (TeamOutputRejectedError runId ''attempt-binding-mismatch'')
      (throw_if (oa_attemptId acc \<noteq> Some (sq_attemptId q)) (TeamOutputRejectedError runId ''acceptance-attempt-mismatch'')
      (throw_if (oa_runId acc \<noteq> runId \<or> oa_stageId acc \<noteq> ts_stageId s \<or> ts_runId s \<noteq> ts_runId expected
                 \<or> ts_stageId s \<noteq> ts_stageId expected \<or> ts_teamId s \<noteq> ts_teamId expected
                 \<or> ts_leadSessionId s \<noteq> ts_leadSessionId expected
                 \<or> ts_taskSpecificationFingerprint s \<noteq> ts_taskSpecificationFingerprint expected)
        (TeamOutputRejectedError runId ''foreign-binding'')
      (throw_if (Some (oa_taskId acc) \<noteq> ts_taskId s) (TeamOutputRejectedError runId ''task-binding-missing'')
      (throw_if (ts_taskId s \<noteq> ts_taskId expected \<or> ts_taskRevision s \<noteq> ts_taskRevision expected)
        (TeamOutputRejectedError runId ''task-binding-unverified'')
      (throw_if (r_definitionRevision v \<noteq> sq_definitionRevision q) (TeamOutputRejectedError runId ''host-verdict-binding-mismatch'')
      (throw_if (ts_requiredMemberIds s \<noteq> ts_requiredMemberIds expected)
        (TeamOutputRejectedError runId ''required-member-policy-override'')
      (throw_if (ts_requiredChecks s \<noteq> ts_requiredChecks expected)
        (TeamOutputRejectedError runId ''required-check-policy-override'')
      (throw_if (ts_primaryMemberId s \<noteq> ts_primaryMemberId expected) (TeamOutputRejectedError runId ''producer-policy-mismatch'')
      (throw_if (ts_members s \<noteq> ts_members expected) (TeamOutputRejectedError runId ''required-member-policy-unsatisfied'')
      (throw_if (\<not> same_opt_list same_reservation (ts_reservations s) (ts_reservations expected)
                 \<or> \<not> same_opt_list same_capture (ts_captures s) (ts_captures expected))
        (TeamOutputRejectedError runId ''artifact-current-capture-mismatch'')
      (Inr ()))))))))))))"

fun validate_captures :: "(json \<Rightarrow> string) \<Rightarrow> run_record \<Rightarrow> team_capture list \<Rightarrow> store_error + unit" where
  "validate_captures sha v [] = Inr ()"
| "validate_captures sha v (ref # refs) =
     ebind (validateCaptureArtifactBinding sha v ref True) (\<lambda>_. validate_captures sha v refs)"

definition settle_artifact_checks ::
  "(json \<Rightarrow> string) \<Rightarrow> string \<Rightarrow> settle_request \<Rightarrow> run_record \<Rightarrow> team_stage \<Rightarrow> store_error + unit" where
  "settle_artifact_checks sha runId q v s =
     (if ts_reservations s = None then Inr ()
      else ebind (fullArtifactPolicy v) (\<lambda>(_, requiredIds, primaryId).
        throw_if (case List.find (\<lambda>c. cp_producerMemberId c = primaryId) (stage_captures s) of
                    None \<Rightarrow> True
                  | Some c \<Rightarrow> cp_artifactId c \<noteq> hv_artifactId (sq_hostVerdict q) \<or> cp_digest c \<noteq> hv_digest (sq_hostVerdict q)
                      \<or> cp_byteLength c \<noteq> hv_byteLength (sq_hostVerdict q)
                      \<or> cp_schemaDigest c \<noteq> hv_schemaDigest (sq_hostVerdict q))
          (TeamOutputRejectedError runId ''artifact-verdict-mismatch'')
        (ebind (validate_captures sha v (stage_captures s)) (\<lambda>_.
          throw_if (ts_captures s = None \<or> length (stage_captures s) \<noteq> length requiredIds
                    \<or> list_ex (\<lambda>i. \<not> list_ex (\<lambda>c. cp_producerMemberId c = i) (stage_captures s)) requiredIds)
            (TeamOutputRejectedError runId ''artifact-required-capture-missing'') (Inr ())))))"

definition settle_stage_attempt :: "settle_request \<Rightarrow> nat \<Rightarrow> int \<Rightarrow> attempt \<Rightarrow> attempt" where
  "settle_stage_attempt q seq now a =
     set_acceptance ''accepted''
       (a\<lparr>a_result := Some \<lparr>o_seq = seq, o_at = now, o_ok = True,
             o_outcome = JObj [(''kind'', JStr ''succeeded''), (''outputs'', JObj (sq_outputs q)),
                               (''teamVerification'', provenance q)],
             o_evidence = (case sq_evidence q of None \<Rightarrow> ''team-stage-accepted'' | Some e \<Rightarrow> e)\<rparr>,
          a_state := ASucceeded\<rparr>)"

definition settleTeamStageAttempt_reducer ::
  "(json \<Rightarrow> string) \<Rightarrow> string \<Rightarrow> settle_request \<Rightarrow> int \<Rightarrow> run_record \<Rightarrow> store_error + run_record" where
  "settleTeamStageAttempt_reducer sha runId q now v =
     throw_if (r_state v = Cancelling \<or> r_state v = RecoveryRequired) (TeamOutputRejectedError runId ''run-not-accepting'')
     (case r_teamStage v of
        None \<Rightarrow> Inl (TeamOutputRejectedError runId ''stage-binding-missing'')
      | Some s \<Rightarrow>
          ebind (settle_binding_checks runId q v s) (\<lambda>_.
          ebind (settle_artifact_checks sha runId q v s) (\<lambda>_.
            throw_if (list_ex (\<lambda>e. e_state e = EPending) (stage_effects s)) (TeamOutputRejectedError runId ''pending-team-effect'')
            (throw_if (ts_effects s \<noteq> ts_effects (sq_stage q)) (TeamOutputRejectedError runId ''host-verdict-binding-mismatch'')
            (case List.find (\<lambda>a. a_attemptId a = sq_attemptId q) (r_attempts v) of
               None \<Rightarrow> Inl (TeamOutputRejectedError runId ''attempt-not-found'')
             | Some a \<Rightarrow>
                 throw_if (a_nodeId a \<noteq> ts_stageId s) (TeamOutputRejectedError runId ''attempt-not-found'')
                 (throw_if (ts_cancel s \<noteq> None \<or> ts_recovery s \<noteq> None \<or> stage_closed (ts_state s))
                    (TeamOutputRejectedError runId ''stage-not-accepting'')
                 (throw_if (a_result a \<noteq> None \<or> a_state a \<in> {ACancelling, ARecoveryRequired, ASucceeded, AFailed,
                              ACancelled, ATimedOut, ASkipped})
                    (TeamOutputRejectedError runId ''attempt-already-settled'')
                 (let s' = s\<lparr>ts_outputAcceptance := Some (sq_acceptance q), ts_state := SSucceeded, ts_updatedAt := now\<rparr> in
                  put_stage (v\<lparr>r_attempts := update_first (\<lambda>x. a_attemptId x = sq_attemptId q)
                       (settle_stage_attempt q (Suc (r_seq v)) now) (r_attempts v)\<rparr>) s'
                    [stage_event (r_seq v) now EvResult [(''attemptId'', JStr (sq_attemptId q)), (''teamStage'', JStr ''accepted''),
                       (''evidence'', JStr (case sq_evidence q of None \<Rightarrow> ''team-stage-accepted'' | Some e \<Rightarrow> e))]]))))))))"

definition settleTeamStageAttempt ::
  "(json \<Rightarrow> string) \<Rightarrow> string \<Rightarrow> settle_request \<Rightarrow> (nat \<Rightarrow> int) \<Rightarrow> domain \<Rightarrow> (store_error + run_record) \<times> domain" where
  "settleTeamStageAttempt sha runId q clk d =
     (if \<not> output_acceptance_ok (sq_acceptance q) then (Inl (TeamOutputRejectedError runId ''malformed-acceptance''), d)
      else if oa_code (sq_acceptance q) \<noteq> Accepted
      then (Inl (TeamOutputRejectedError runId ''accepted-settlement-required''), d)
      else if \<not> team_stage_ok (sq_stage q) \<or> \<not> host_verdict_ok (sq_hostVerdict q)
      then (Inl (TeamOutputRejectedError runId ''host-verdict-required''), d)
      else case get_run runId d of
             Inl e \<Rightarrow> (Inl e, d)
           | Inr current \<Rightarrow>
               (case settlement_isReplay runId q current of
                  Inl e \<Rightarrow> (Inl e, d)
                | Inr replayed \<Rightarrow>
                    if replayed then (Inr current, d)
                    else case applyTransition runId (clk 1) (settlement_isReplay runId q)
                                (settleTeamStageAttempt_reducer sha runId q (clk 0)) d of
                           (Inr r, d') \<Rightarrow> (Inr r, d')
                         | (Inl e, d') \<Rightarrow>
                             (case e of TeamSettlementReplay r \<Rightarrow> (Inr r, d') | _ \<Rightarrow> (Inl e, d'))))"

end
