(* ===== verification/TeamEffects.thy ===== *)
theory TeamEffects
  imports TeamStore
begin

text \<open>
  The durable runner of Team effects (\<open>teamstage/runner.ts\<close>): an intent is committed before the
  native call, the call's known result or its unknown outcome is committed after it, and an effect
  identity is used once.
\<close>

section \<open>Checked facts\<close>

record effect_facts =
  ef_runId :: string
  ef_stageId :: string
  ef_teamId :: string
  ef_effectId :: string
  ef_kind :: string
  ef_actorSessionId :: string
  ef_memberName :: "string option"
  ef_taskId :: "string option"
  ef_memberId :: "string option"

record result_facts =
  rf_ok :: bool
  rf_errorCode :: "string option"
  rf_taskId :: "string option"
  rf_taskRevision :: "nat option"
  rf_memberId :: "string option"
  rf_status :: "string option"

definition logical_id :: "string \<Rightarrow> bool" where
  "logical_id s \<longleftrightarrow> js_trim s \<noteq> [] \<and> length s \<le> 256"

definition effectFacts :: "effect_facts \<Rightarrow> store_error + effect_facts" where
  "effectFacts f =
     throw_if (\<not> (logical_id (ef_runId f) \<and> logical_id (ef_stageId f) \<and> logical_id (ef_teamId f)
        \<and> logical_id (ef_effectId f) \<and> logical_id (ef_kind f) \<and> logical_id (ef_actorSessionId f)
        \<and> pred_option logical_id (ef_memberName f) \<and> pred_option logical_id (ef_taskId f)
        \<and> pred_option logical_id (ef_memberId f)))
       (TeamStageConflictError [] ''must be a non-empty logical identifier'') (Inr f)"

text \<open>\<open>/^[A-Z0-9_.:-]{1,96}$/u\<close>, otherwise the generic code.\<close>

definition errorCode :: "string option \<Rightarrow> string" where
  "errorCode code =
     (case code of
        None \<Rightarrow> ''TEAM_EFFECT_FAILED''
      | Some c \<Rightarrow>
          if c \<noteq> [] \<and> length c \<le> 96 \<and> list_all (\<lambda>x. is_upper x \<or> is_digit x \<or> x \<in> set ''_.:-'') c
          then c else ''TEAM_EFFECT_FAILED'')"

definition status_ok :: "string \<Rightarrow> bool" where
  "status_ok s \<longleftrightarrow>
     s \<noteq> [] \<and> length s \<le> 64 \<and> list_all (\<lambda>x. is_lower x \<or> is_digit x \<or> x = CHR ''_'' \<or> x = CHR ''-'') s"

definition resultFacts :: "result_facts \<Rightarrow> store_error + result_facts" where
  "resultFacts r =
     throw_if (\<not> pred_option logical_id (rf_taskId r)) (TeamStageConflictError [] ''taskId must be a non-empty logical identifier'')
     (throw_if (rf_taskRevision r = Some 0) (TeamStageConflictError [] ''taskRevision must be a positive integer'')
     (throw_if (\<not> pred_option logical_id (rf_memberId r)) (TeamStageConflictError [] ''memberId must be a non-empty logical identifier'')
     (throw_if (\<not> pred_option status_ok (rf_status r)) (TeamStageConflictError [] ''status must be a bounded lowercase identifier'')
     (Inr (r\<lparr>rf_errorCode := map_option (\<lambda>c. errorCode (Some c)) (rf_errorCode r)\<rparr>)))))"

section \<open>The append reducer\<close>

datatype effect_phase = PIntent | PResult | PRecovery

fun phase_text :: "effect_phase \<Rightarrow> string" where
  "phase_text PIntent = ''intent''"
| "phase_text PResult = ''result''"
| "phase_text PRecovery = ''recovery''"

fun phase_event :: "effect_phase \<Rightarrow> event_kind" where
  "phase_event PIntent = EvIntent"
| "phase_event PResult = EvResult"
| "phase_event PRecovery = EvRecovery"

definition intent_effect :: "effect_facts \<Rightarrow> int \<Rightarrow> team_effect" where
  "intent_effect f now =
     \<lparr>e_effectId = ef_effectId f, e_kind = ef_kind f, e_stageId = ef_stageId f, e_teamId = ef_teamId f,
      e_actorSessionId = ef_actorSessionId f, e_memberName = ef_memberName f, e_taskId = ef_taskId f,
      e_memberId = ef_memberId f, e_state = EPending, e_intentAt = now, e_settledAt = None, e_ok = None,
      e_errorCode = None, e_resultTaskId = None, e_resultTaskRevision = None, e_resultMemberId = None,
      e_resultStatus = None\<rparr>"

definition or_else :: "'a option \<Rightarrow> 'a option \<Rightarrow> 'a option" where
  "or_else a b = (case a of None \<Rightarrow> b | Some x \<Rightarrow> Some x)"

definition settle_effect :: "effect_phase \<Rightarrow> result_facts \<Rightarrow> int \<Rightarrow> team_effect \<Rightarrow> team_effect" where
  "settle_effect phase r settledAt e =
     (if phase = PRecovery then e\<lparr>e_state := ERecoveryRequired, e_settledAt := Some settledAt\<rparr>
      else e\<lparr>e_state := (if rf_ok r then ESucceeded else EFailed), e_settledAt := Some settledAt,
             e_ok := Some (rf_ok r), e_errorCode := or_else (rf_errorCode r) (e_errorCode e),
             e_resultTaskId := or_else (rf_taskId r) (e_resultTaskId e),
             e_resultTaskRevision := or_else (rf_taskRevision r) (e_resultTaskRevision e),
             e_resultMemberId := or_else (rf_memberId r) (e_resultMemberId e),
             e_resultStatus := or_else (rf_status r) (e_resultStatus e)\<rparr>)"

definition intent_conflict :: "effect_facts \<Rightarrow> team_effect list \<Rightarrow> store_error option" where
  "intent_conflict f effects =
     (case List.find (\<lambda>e. e_effectId e = ef_effectId f) effects of
        Some e \<Rightarrow>
          if e_state e = EPending
          then Some (TeamTaskConflictError (ef_runId f) ''unresolved Team effect requires recovery'')
          else Some TeamEffectReplayError
      | None \<Rightarrow>
          if ef_kind f = ''create'' \<and> list_ex (\<lambda>e. e_kind e = ''create'' \<and> e_state e = EPending) effects
          then Some (TeamTaskConflictError (ef_runId f) ''a Team task create effect is already unresolved'')
          else if ef_kind f = ''spawn'' \<and> ef_memberName f = None
          then Some (TeamStageConflictError (ef_runId f) ''a Team member spawn requires its canonical member name'')
          else if ef_kind f = ''spawn''
                  \<and> list_ex (\<lambda>e. e_kind e = ''spawn'' \<and> e_memberName e = ef_memberName f \<and> e_state e \<noteq> EFailed) effects
          then Some (TeamTaskConflictError (ef_runId f) ''already has a reserved spawn effect'')
          else None)"

definition opt_field :: "string \<Rightarrow> string option \<Rightarrow> json dict \<Rightarrow> json dict" where
  "opt_field k x d = (case x of None \<Rightarrow> d | Some s \<Rightarrow> AList.update k (JStr s) d)"

definition effect_detail :: "effect_facts \<Rightarrow> effect_phase \<Rightarrow> result_facts \<Rightarrow> json dict" where
  "effect_detail f phase r =
     (let base = opt_field ''memberName'' (ef_memberName f) (opt_field ''memberId'' (ef_memberId f)
           (opt_field ''taskId'' (ef_taskId f)
             [(''teamEffect'', JStr ''team''), (''phase'', JStr (phase_text phase)), (''effectId'', JStr (ef_effectId f)),
              (''kind'', JStr (ef_kind f)), (''stageId'', JStr (ef_stageId f)), (''teamId'', JStr (ef_teamId f)),
              (''actorSessionId'', JStr (ef_actorSessionId f))]))
      in case phase of
           PIntent \<Rightarrow> base
         | PRecovery \<Rightarrow> base @ [(''recovery'', JStr ''required'')]
         | PResult \<Rightarrow>
             opt_field ''status'' (rf_status r) (opt_field ''memberId'' (rf_memberId r)
               ((case rf_taskRevision r of None \<Rightarrow> id | Some n \<Rightarrow> AList.update ''taskRevision'' (jnat n))
                 (opt_field ''taskId'' (rf_taskId r) (opt_field ''errorCode'' (rf_errorCode r)
                   (base @ [(''ok'', JBool (rf_ok r))]))))))"

definition append_reducer ::
  "effect_facts \<Rightarrow> effect_phase \<Rightarrow> result_facts \<Rightarrow> (nat \<Rightarrow> int) \<Rightarrow> run_record \<Rightarrow> store_error + run_record" where
  "append_reducer f phase result clk v =
     (case r_teamStage v of
        None \<Rightarrow> Inl (TeamStageConflictError (ef_runId f) ''Team effect binding does not match the canonical stage'')
      | Some s \<Rightarrow>
          throw_if (ts_stageId s \<noteq> ef_stageId f \<or> ts_teamId s \<noteq> ef_teamId f)
            (TeamStageConflictError (ef_runId f) ''Team effect binding does not match the canonical stage'')
          (let effects = stage_effects s;
               existing = List.find (\<lambda>e. e_effectId e = ef_effectId f) effects
           in ebind
                (if phase = PIntent then
                   (case intent_conflict f effects of
                      Some e \<Rightarrow> Inl e
                    | None \<Rightarrow> Inr (effects @ [intent_effect f (clk 0)], result))
                 else
                   throw_if (map_option e_state existing \<noteq> Some EPending)
                     (TeamTaskConflictError (ef_runId f) ''has no unresolved intent'')
                   (ebind (if phase = PResult then resultFacts result else Inr result) (\<lambda>checked.
                      Inr (update_first (\<lambda>e. e_effectId e = ef_effectId f) (settle_effect phase checked (clk 0)) effects,
                           checked))))
                (\<lambda>(effects', checked).
                   let s1 = (if phase = PRecovery
                             then s\<lparr>ts_state := SRecoveryRequired,
                                    ts_recovery := Some \<lparr>tr_code = ''team-effect-unknown'', tr_detail = Some (ef_effectId f)\<rparr>,
                                    ts_updatedAt := clk 1\<rparr>
                             else s)
                   in put_stage v (s1\<lparr>ts_effects := Some effects'\<rparr>)
                        [stage_event (r_seq v) (clk 2) (phase_event phase) (effect_detail f phase checked)])))"

definition append_effect ::
  "effect_facts \<Rightarrow> effect_phase \<Rightarrow> result_facts \<Rightarrow> (nat \<Rightarrow> int) \<Rightarrow> domain \<Rightarrow> (store_error + run_record) \<times> domain" where
  "append_effect f phase result clk d = transition (ef_runId f) (clk 3) (append_reducer f phase result clk) d"

section \<open>Recording an effect\<close>

datatype effect_error = StoreFailure store_error | TeamEffectUnknownError | EffectCause "string option"

fun is_task_conflict :: "store_error \<Rightarrow> bool" where
  "is_task_conflict (TeamTaskConflictError _ _) = True"
| "is_task_conflict _ = False"

definition unknown_conflict :: "store_error \<Rightarrow> effect_error" where
  "unknown_conflict e = (if is_task_conflict e then TeamEffectUnknownError else StoreFailure e)"

definition no_result :: result_facts where
  "no_result = \<lparr>rf_ok = False, rf_errorCode = None, rf_taskId = None, rf_taskRevision = None, rf_memberId = None,
     rf_status = None\<rparr>"

definition record_effect ::
  "effect_facts \<Rightarrow> effect_phase \<Rightarrow> result_facts \<Rightarrow> (nat \<Rightarrow> int) \<Rightarrow> domain \<Rightarrow> (effect_error + run_record) \<times> domain" where
  "record_effect f phase result clk d =
     (case effectFacts f of
        Inl e \<Rightarrow> (Inl (StoreFailure e), d)
      | Inr checked \<Rightarrow>
          (case append_effect checked phase result clk d of
             (Inl e, d') \<Rightarrow> (Inl (unknown_conflict e), d')
           | (Inr r, d') \<Rightarrow> (Inr r, d')))"

definition recordTeamEffectIntent ::
  "effect_facts \<Rightarrow> (nat \<Rightarrow> int) \<Rightarrow> domain \<Rightarrow> (effect_error + run_record) \<times> domain" where
  "recordTeamEffectIntent f clk d = record_effect f PIntent no_result clk d"

definition recordTeamEffectResult ::
  "effect_facts \<Rightarrow> result_facts \<Rightarrow> (nat \<Rightarrow> int) \<Rightarrow> domain \<Rightarrow> (effect_error + run_record) \<times> domain" where
  "recordTeamEffectResult f result clk d = record_effect f PResult result clk d"

text \<open>The scan of the bounded log, used where the canonical list has no such effect.\<close>

fun log_pending :: "string \<Rightarrow> run_event list \<Rightarrow> bool \<Rightarrow> bool" where
  "log_pending i [] pending = pending"
| "log_pending i (e # es) pending =
     (if map_of (l_detail e) ''teamEffect'' \<noteq> Some (JStr ''team'') \<or> map_of (l_detail e) ''effectId'' \<noteq> Some (JStr i)
      then log_pending i es pending
      else log_pending i es (if l_kind e = EvResult \<or> l_kind e = EvRecovery then False
                             else if l_kind e = EvIntent then True else pending))"

definition unresolved :: "run_record \<Rightarrow> effect_facts \<Rightarrow> bool" where
  "unresolved r f \<longleftrightarrow>
     (case Option.bind (r_teamStage r) (\<lambda>s. List.find (\<lambda>e. e_effectId e = ef_effectId f) (stage_effects s)) of
        Some e \<Rightarrow> e_state e = EPending
      | None \<Rightarrow> log_pending (ef_effectId f) (r_log r) False)"

definition recordTeamEffectRecovery ::
  "effect_facts \<Rightarrow> (nat \<Rightarrow> int) \<Rightarrow> domain \<Rightarrow> (effect_error + run_record) \<times> domain" where
  "recordTeamEffectRecovery f clk d =
     (case effectFacts f of
        Inl e \<Rightarrow> (Inl (StoreFailure e), d)
      | Inr checked \<Rightarrow>
          (case get_run (ef_runId checked) d of
             Inl e \<Rightarrow> (Inl (StoreFailure e), d)
           | Inr current \<Rightarrow>
               if \<not> unresolved current checked then (Inr current, d)
               else case append_effect checked PRecovery no_result clk d of
                      (Inr r, d') \<Rightarrow> (Inr r, d')
                    | (Inl e, d') \<Rightarrow>
                        if is_task_conflict e
                        then (case get_run (ef_runId checked) d' of
                                Inl e' \<Rightarrow> (Inl (StoreFailure e'), d') | Inr r \<Rightarrow> (Inr r, d'))
                        else (Inl (StoreFailure e), d')))"

section \<open>Dispatch\<close>

text \<open>
  The native call is a function of the domain it starts in: it returns a value or throws, possibly
  reported as unknown, and other operations may have run meanwhile.
\<close>

datatype 'a effect_outcome = Returned 'a | Threw "string option" bool

definition dispatch ::
  "effect_facts \<Rightarrow> (domain \<Rightarrow> 'a effect_outcome \<times> domain) \<Rightarrow> ('a \<Rightarrow> store_error + result_facts) \<Rightarrow> (nat \<Rightarrow> nat \<Rightarrow> int)
     \<Rightarrow> domain \<Rightarrow> (effect_error + 'a) \<times> domain" where
  "dispatch f effect result clk d =
     (case effectFacts f of
        Inl e \<Rightarrow> (Inl (StoreFailure e), d)
      | Inr facts \<Rightarrow>
          (case recordTeamEffectIntent facts (clk 0) d of
             (Inl e, d1) \<Rightarrow> (Inl e, d1)
           | (Inr _, d1) \<Rightarrow>
               (case effect d1 of
                  (Threw code isUnknown, d2) \<Rightarrow>
                    (if isUnknown then
                       (case recordTeamEffectRecovery facts (clk 1) d2 of
                          (Inl e, d3) \<Rightarrow> (Inl e, d3) | (Inr _, d3) \<Rightarrow> (Inl (EffectCause code), d3))
                     else
                       (case recordTeamEffectResult facts (no_result\<lparr>rf_errorCode := Some (errorCode code)\<rparr>) (clk 1) d2 of
                          (Inl e, d3) \<Rightarrow> (Inl e, d3) | (Inr _, d3) \<Rightarrow> (Inl (EffectCause code), d3)))
                | (Returned value, d2) \<Rightarrow>
                    (case ebind (result value) resultFacts of
                       Inl e \<Rightarrow>
                         (case recordTeamEffectRecovery facts (clk 1) d2 of
                            (Inl e', d3) \<Rightarrow> (Inl e', d3) | (Inr _, d3) \<Rightarrow> (Inl (StoreFailure e), d3))
                     | Inr r \<Rightarrow>
                         (case recordTeamEffectResult facts r (clk 1) d2 of
                            (Inr _, d3) \<Rightarrow> (Inr value, d3)
                          | (Inl e, d3) \<Rightarrow>
                              (case recordTeamEffectRecovery facts (clk 2) d3 of
                                 (Inl e', d4) \<Rightarrow> (Inl e', d4) | (Inr _, d4) \<Rightarrow> (Inl e, d4)))))))"

end
