(* ===== verification/Recovery.thy ===== *)
theory Recovery
  imports RunStore
begin

text \<open>
  Recovery reconciliation (\<open>orchestration/recovery.ts\<close>, \<open>host/teamstage-recovery.ts\<close>): the scan
  over all Runs when a runtime opens, which quarantines every Run whose external effect is
  unknown, and the reviewed resolution of a quarantined Run.
\<close>

section \<open>Unknown Team effects\<close>

definition unknownTeamEffect :: "run_record \<Rightarrow> team_effect option" where
  "unknownTeamEffect r =
     (case r_teamStage r of None \<Rightarrow> None
      | Some s \<Rightarrow> (case ts_effects s of None \<Rightarrow> None
          | Some es \<Rightarrow> List.find (\<lambda>e. e_state e = EPending \<or> e_state e = ERecoveryRequired) es))"

definition stage_attempt :: "run_record \<Rightarrow> attempt option" where
  "stage_attempt r =
     (case r_teamStage r of None \<Rightarrow> None
      | Some s \<Rightarrow> List.find (\<lambda>a. Some (a_attemptId a) = ts_attemptId s) (r_attempts r))"

definition teamRecoveryNeeded :: "run_record \<Rightarrow> bool" where
  "teamRecoveryNeeded r \<longleftrightarrow>
     (case r_teamStage r of
        None \<Rightarrow> False
      | Some s \<Rightarrow>
          if isTerminal (r_state r) \<or> unknownTeamEffect r = None then False
          else r_state r \<noteq> RecoveryRequired \<or> ts_state s \<noteq> SRecoveryRequired
               \<or> (case stage_attempt r of None \<Rightarrow> False
                  | Some a \<Rightarrow> a_result a = None \<and> \<not> attempt_terminal (a_state a) \<and> a_state a \<noteq> ARecoveryRequired))"

section \<open>Reconciliation on start\<close>

record recovery_entry =
  re_runId :: string
  re_attemptId :: string
  re_nodeId :: string
  re_intentKind :: string

record recovery_report =
  rp_scanned :: nat
  rp_recoveryRequired :: "recovery_entry list"
  rp_untouched :: "string list"

definition quarantine_attempt :: "attempt \<Rightarrow> attempt" where
  "quarantine_attempt a =
     (if a_result a = None \<and> \<not> attempt_terminal (a_state a) then a\<lparr>a_state := ARecoveryRequired\<rparr> else a)"

definition teamRecovery_reducer :: "string \<Rightarrow> int \<Rightarrow> run_record \<Rightarrow> store_error + run_record" where
  "teamRecovery_reducer runId now v =
     (case (r_teamStage v, unknownTeamEffect v) of
        (Some s, Some e) \<Rightarrow>
          if \<not> teamRecoveryNeeded v then Inl (TeamRecoveryUnchangedError runId)
          else Inr (v\<lparr>r_attempts := update_first (\<lambda>a. Some (a_attemptId a) = ts_attemptId s)
                   quarantine_attempt (r_attempts v),
                 r_state := RecoveryRequired,
                 r_teamStage := Some (s\<lparr>ts_state := SRecoveryRequired,
                   ts_recovery := Some \<lparr>tr_code = ''team-effect-unknown'', tr_detail = Some (e_effectId e)\<rparr>,
                   ts_updatedAt := now\<rparr>),
                 r_log := r_log v @ [\<lparr>l_seq = Suc (r_seq v), l_at = now, l_kind = EvRecovery,
                   l_detail = [(''effectId'', JStr (e_effectId e)), (''stageId'', JStr (ts_stageId s)),
                               (''reason'', JStr ''team-effect-unknown'')]\<rparr>]\<rparr>)
      | _ \<Rightarrow> Inl (TeamRecoveryUnchangedError runId))"

definition team_recovery_entry :: "string \<Rightarrow> run_record \<Rightarrow> recovery_entry" where
  "team_recovery_entry runId v =
     (case (r_teamStage v, unknownTeamEffect v) of
        (Some s, Some e) \<Rightarrow>
          \<lparr>re_runId = runId,
           re_attemptId = (case ts_attemptId s of Some i \<Rightarrow> i | None \<Rightarrow> ''team:'' @ e_effectId e),
           re_nodeId = ts_stageId s, re_intentKind = e_kind e\<rparr>
      | _ \<Rightarrow> \<lparr>re_runId = runId, re_attemptId = [], re_nodeId = [], re_intentKind = []\<rparr>)"

definition unsettled_intent :: "attempt \<Rightarrow> bool" where
  "unsettled_intent a \<longleftrightarrow> a_intent a \<noteq> None \<and> a_result a = None \<and> \<not> attempt_terminal (a_state a)"

definition intentRecovery_reducer :: "attempt \<Rightarrow> int \<Rightarrow> run_record \<Rightarrow> store_error + run_record" where
  "intentRecovery_reducer unsettled now v =
     Inr (v\<lparr>r_attempts := map (\<lambda>a. if unsettled_intent a then a\<lparr>a_state := ARecoveryRequired\<rparr> else a) (r_attempts v),
            r_state := RecoveryRequired,
            r_log := r_log v @ [\<lparr>l_seq = Suc (r_seq v), l_at = now, l_kind = EvRecovery,
              l_detail = [(''attemptId'', JStr (a_attemptId unsettled)), (''nodeId'', JStr (a_nodeId unsettled)),
                          (''reason'', JStr ''intent-without-result'')]\<rparr>]\<rparr>)"

text \<open>One turn of the loop: \<open>Inr (Some entry)\<close> quarantines the Run, \<open>Inr None\<close> leaves it untouched.\<close>

definition reconcile_run ::
  "(nat \<Rightarrow> int) \<Rightarrow> string \<Rightarrow> domain \<Rightarrow> (store_error + recovery_entry option) \<times> domain" where
  "reconcile_run clk runId d =
     (case get_run runId d of
        Inl e \<Rightarrow> (Inl e, d)
      | Inr run \<Rightarrow>
          if r_bindingAdmission run = Some AdmissionPending
             \<and> r_state run \<notin> {Succeeded, Failed, Cancelled, TimedOut, RecoveryRequired}
          then (case settleTerminal runId ToRecoveryRequired [(''reason'', JStr ''admission-incomplete'')] clk d of
                  (Inl e, d') \<Rightarrow> (Inl e, d')
                | (Inr _, d') \<Rightarrow> (Inr (Some \<lparr>re_runId = runId, re_attemptId = ''admission'',
                     re_nodeId = ''admission'', re_intentKind = ''binding-snapshot''\<rparr>), d'))
          else if teamRecoveryNeeded run
          then (case transition runId (clk 1) (teamRecovery_reducer runId (clk 0)) d of
                  (Inr _, d') \<Rightarrow> (Inr (Some (team_recovery_entry runId run)), d')
                | (Inl (TerminalStateError _ _), d') \<Rightarrow> (Inr None, d')
                | (Inl (TeamRecoveryUnchangedError _), d') \<Rightarrow> (Inr None, d')
                | (Inl e, d') \<Rightarrow> (Inl e, d'))
          else if r_parent run \<noteq> None \<and> \<not> isTerminal (r_state run) \<and> r_state run \<noteq> RecoveryRequired
          then (case settleTerminal runId ToRecoveryRequired
                       [(''reason'', JStr ''child-supervisor-unavailable''),
                        (''parentRunId'', JStr (pr_runId (the (r_parent run))))] clk d of
                  (Inl e, d') \<Rightarrow> (Inl e, d')
                | (Inr _, d') \<Rightarrow> (Inr (Some \<lparr>re_runId = runId, re_attemptId = pr_attemptId (the (r_parent run)),
                     re_nodeId = ''child'', re_intentKind = ''child-supervision''\<rparr>), d'))
          else if r_state run \<in> {Succeeded, Failed, Cancelled, TimedOut, RecoveryRequired, WaitingInput}
          then (Inr None, d)
          else case List.find unsettled_intent (r_attempts run) of
                 None \<Rightarrow> (Inr None, d)
               | Some unsettled \<Rightarrow>
                   (case transition runId (clk 1) (intentRecovery_reducer unsettled (clk 0)) d of
                      (Inl e, d') \<Rightarrow> (Inl e, d')
                    | (Inr _, d') \<Rightarrow> (Inr (Some \<lparr>re_runId = runId, re_attemptId = a_attemptId unsettled,
                         re_nodeId = a_nodeId unsettled,
                         re_intentKind = (case a_intent unsettled of Some i \<Rightarrow> i_kind i | None \<Rightarrow> ''unknown'')\<rparr>), d')))"

fun reconcile_loop ::
  "(string \<Rightarrow> nat \<Rightarrow> int) \<Rightarrow> string list \<Rightarrow> recovery_report \<Rightarrow> domain
     \<Rightarrow> (store_error + recovery_report) \<times> domain" where
  "reconcile_loop clk [] report d = (Inr report, d)"
| "reconcile_loop clk (i # ids) report d =
     (case reconcile_run (clk i) i d of
        (Inl e, d') \<Rightarrow> (Inl e, d')
      | (Inr outcome, d') \<Rightarrow>
          reconcile_loop clk ids
            (case outcome of
               Some entry \<Rightarrow> report\<lparr>rp_scanned := Suc (rp_scanned report),
                                   rp_recoveryRequired := rp_recoveryRequired report @ [entry]\<rparr>
             | None \<Rightarrow> report\<lparr>rp_scanned := Suc (rp_scanned report),
                             rp_untouched := rp_untouched report @ [i]\<rparr>) d')"

definition reconcileOnStart ::
  "(string \<Rightarrow> nat \<Rightarrow> int) \<Rightarrow> domain \<Rightarrow> (store_error + recovery_report) \<times> domain" where
  "reconcileOnStart clk d =
     (case listRunIds d of
        Inl e \<Rightarrow> (Inl e, d)
      | Inr ids \<Rightarrow> reconcile_loop clk ids \<lparr>rp_scanned = 0, rp_recoveryRequired = [], rp_untouched = []\<rparr> d)"

section \<open>Reviewed resolution\<close>

definition teamStageBlocksRecovery :: "team_stage_state option \<Rightarrow> bool" where
  "teamStageBlocksRecovery st \<longleftrightarrow>
     (case st of None \<Rightarrow> False | Some s \<Rightarrow> s \<notin> {SSucceeded, SFailed, SCancelled, STimedOut})"

datatype recovery_action = RecSucceeded | RecFailed | RecCancelled | RecTimedOut

fun recovery_state :: "recovery_action \<Rightarrow> run_state" where
  "recovery_state RecSucceeded = Succeeded"
| "recovery_state RecFailed = Failed"
| "recovery_state RecCancelled = Cancelled"
| "recovery_state RecTimedOut = TimedOut"

fun recovery_attempt_state :: "recovery_action \<Rightarrow> attempt_state" where
  "recovery_attempt_state RecSucceeded = ASucceeded"
| "recovery_attempt_state RecFailed = AFailed"
| "recovery_attempt_state RecCancelled = ACancelled"
| "recovery_attempt_state RecTimedOut = ATimedOut"

fun recovery_text :: "recovery_action \<Rightarrow> string" where
  "recovery_text RecSucceeded = ''succeeded''"
| "recovery_text RecFailed = ''failed''"
| "recovery_text RecCancelled = ''cancelled''"
| "recovery_text RecTimedOut = ''timed_out''"

record reconcile_options =
  ro_expectedSeq :: "nat option"
  ro_operator :: bool
  ro_guardTeamStage :: bool

definition review_attempt :: "recovery_action \<Rightarrow> string \<Rightarrow> nat \<Rightarrow> int \<Rightarrow> attempt \<Rightarrow> attempt" where
  "review_attempt action evidence seq now a =
     (if a_intent a = None \<or> a_result a \<noteq> None \<or> attempt_terminal (a_state a) then a
      else a\<lparr>a_state := recovery_attempt_state action,
             a_result := Some \<lparr>o_seq = seq, o_at = now, o_ok = (action = RecSucceeded),
               o_outcome = JObj [(''recovery'', JStr (recovery_text action)),
                 (''kind'', JStr (if action = RecTimedOut then ''timeout'' else recovery_text action))],
               o_evidence = evidence\<rparr>\<rparr>)"

definition reconcile_reducer ::
  "recovery_action \<Rightarrow> string \<Rightarrow> reconcile_options \<Rightarrow> int \<Rightarrow> int \<Rightarrow> run_record \<Rightarrow> store_error + run_record" where
  "reconcile_reducer action evidence options now logAt v =
     (if r_state v \<noteq> RecoveryRequired then Inl (IllegalTransitionError (r_state v) (recovery_state action))
      else case (case ro_expectedSeq options of None \<Rightarrow> None
                 | Some n \<Rightarrow> if r_seq v \<noteq> n then Some (RecoveryStaleError (r_runId v) n (r_seq v)) else None) of
             Some e \<Rightarrow> Inl e
           | None \<Rightarrow>
               if ro_guardTeamStage options \<and> teamStageBlocksRecovery (map_option ts_state (r_teamStage v))
               then Inl (TeamStageConflictError (r_runId v) ''TeamStage recovery needs native Team cleanup'')
               else let seq = Suc (r_seq v) in
                    Inr (v\<lparr>r_attempts := map (review_attempt action evidence seq now) (r_attempts v),
                           r_state := recovery_state action,
                           r_log := r_log v @ [\<lparr>l_seq = seq, l_at = logAt, l_kind = EvState,
                             l_detail = [(''recovery'', JStr (recovery_text action)), (''evidence'', JStr evidence)]
                               @ (if ro_operator options then [(''actor'', JStr ''operator'')] else [])\<rparr>]\<rparr>))"

definition reconcile ::
  "run_record \<Rightarrow> recovery_action \<Rightarrow> string \<Rightarrow> reconcile_options \<Rightarrow> (nat \<Rightarrow> int) \<Rightarrow> domain
     \<Rightarrow> (store_error + run_record) \<times> domain" where
  "reconcile run action evidence options clk d =
     (if r_state run \<noteq> RecoveryRequired
      then (Inl (IllegalTransitionError (r_state run) (recovery_state action)), d)
      else transition (r_runId run) (clk 2) (reconcile_reducer action evidence options (clk 0) (clk 1)) d)"

section \<open>The reducers meet the contract\<close>

interpretation team_recovery_red: run_reducer "teamRecovery_reducer rid now" for rid now
proof
  fix v w
  assume r: "teamRecovery_reducer rid now v = Inr w"
  then obtain s where "r_teamStage v = Some s" and w: "r_attempts w =
      update_first (\<lambda>a. Some (a_attemptId a) = ts_attemptId s) quarantine_attempt (r_attempts v)"
    by (auto simp: teamRecovery_reducer_def split: option.splits if_splits)
  show "draft_ok v w"
  proof (rule draft_okI)
    show "attempts_evolve (r_attempts v) (r_attempts w)"
      unfolding w
      by (intro attempts_evolve_update) (simp add: attempt_evolves_def attempt_settled_def quarantine_attempt_def)
    show "attempts_wf (Suc (r_seq v)) (r_attempts w)" if "attempts_wf (r_seq v) (r_attempts v)"
      unfolding w using that
      by (elim attempts_wf_update)
        (auto simp: attempt_settled_def quarantine_attempt_def intro: attempt_wf_open attempt_wf_mono)
  qed (use r in \<open>auto simp: teamRecovery_reducer_def reducer_facts split: option.splits if_splits\<close>)
qed

interpretation intent_recovery_red: run_reducer "intentRecovery_reducer a now" for a now
proof
  fix v w
  assume r: "intentRecovery_reducer a now v = Inr w"
  then have w: "r_attempts w = map (\<lambda>x. if unsettled_intent x then x\<lparr>a_state := ARecoveryRequired\<rparr> else x) (r_attempts v)"
    by (auto simp: intentRecovery_reducer_def)
  show "draft_ok v w"
  proof (rule draft_okI)
    show "attempts_evolve (r_attempts v) (r_attempts w)"
      unfolding w
      by (intro attempts_evolve_map) (simp add: attempt_evolves_def attempt_settled_def unsettled_intent_def)
    show "attempts_wf (Suc (r_seq v)) (r_attempts w)" if "attempts_wf (r_seq v) (r_attempts v)"
      unfolding w using that
      by (elim attempts_wf_map)
        (auto simp: attempt_settled_def unsettled_intent_def intro: attempt_wf_open attempt_wf_mono)
  qed (use r in \<open>auto simp: intentRecovery_reducer_def reducer_facts\<close>)
qed

lemma recovery_attempt_terminal [simp]: "attempt_terminal (recovery_attempt_state action)"
  by (cases action) simp_all

lemma recovery_attempt_succeeded: "recovery_attempt_state action = ASucceeded \<longleftrightarrow> action = RecSucceeded"
  by (cases action) simp_all

lemma recovery_state_terminal [simp]: "isTerminal (recovery_state action)"
  by (cases action) simp_all

interpretation review_red: run_reducer "reconcile_reducer action evidence options now logAt"
  for action evidence options now logAt
proof
  fix v w
  assume r: "reconcile_reducer action evidence options now logAt v = Inr w"
  then have w: "r_attempts w = map (review_attempt action evidence (Suc (r_seq v)) now) (r_attempts v)"
    by (auto simp: reconcile_reducer_def Let_def split: if_splits option.splits)
  show "draft_ok v w"
  proof (rule draft_okI)
    show "attempts_evolve (r_attempts v) (r_attempts w)"
      unfolding w
      by (intro attempts_evolve_map) (simp add: attempt_evolves_def attempt_settled_def review_attempt_def)
    show "attempts_wf (Suc (r_seq v)) (r_attempts w)" if "attempts_wf (r_seq v) (r_attempts v)"
      unfolding w using that
      by (elim attempts_wf_map)
        (auto simp: attempt_settled_def review_attempt_def recovery_attempt_succeeded
          intro: attempt_wf_settle attempt_wf_mono)
  qed (use r in \<open>auto simp: reconcile_reducer_def Let_def reducer_facts split: if_splits option.splits\<close>)
qed

section \<open>What the scan on start establishes\<close>

text \<open>
  A Run the scheduler may look at after a restart: it is settled, quarantined, or it can be
  resumed without repeating an effect.
\<close>

definition resumable :: "run_record \<Rightarrow> bool" where
  "resumable r \<longleftrightarrow>
     isTerminal (r_state r) \<or> r_state r = RecoveryRequired
     \<or> (r_bindingAdmission r \<noteq> Some AdmissionPending \<and> r_parent r = None \<and> \<not> teamRecoveryNeeded r
        \<and> (r_state r = WaitingInput \<or> \<not> list_ex unsettled_intent (r_attempts r)))"

lemma recovery_states: "r_state v \<notin> {Succeeded, Failed, Cancelled, TimedOut} \<longleftrightarrow> \<not> isTerminal (r_state v)"
  by (cases "r_state v") simp_all

lemma canTransition_recovery: "\<not> isTerminal s \<Longrightarrow> canTransitionRun s RecoveryRequired"
  by (cases s) (simp_all add: canTransitionRun_table)

lemma teamRecoveryNeeded_reduces:
  assumes "teamRecoveryNeeded v"
  shows "\<exists>w. teamRecovery_reducer rid now v = Inr w \<and> r_state w = RecoveryRequired \<and> \<not> isTerminal (r_state v)"
  using assms
  by (auto simp: teamRecoveryNeeded_def teamRecovery_reducer_def unknownTeamEffect_def split: option.splits if_splits)

lemma settleTerminal_recovery:
  assumes "settleTerminal rid ToRecoveryRequired detail clk d = (Inr r, d')"
  shows "get_run rid d' = Inr r \<and> r_state r = RecoveryRequired"
  using assms unfolding settleTerminal_def transition_def
  by (elim settle_red.applyTransition_facts)
    (auto simp: settleTerminal_reducer_def Let_def split: if_splits)

lemma team_transition_total:
  assumes "get_run rid d = Inr run" and "teamRecoveryNeeded run"
    and "transition rid now' (teamRecovery_reducer rid now) d = (Inl e, d')"
  shows "\<not> rethrown e \<or> e = RunNotFoundError rid"
proof (rule ccontr)
  assume "\<not> ?thesis"
  with transition_error [OF assms(3)] obtain cur where
    c: "runs_get (d_runs d) rid = Inr cur" "commit rid now' no_replay (teamRecovery_reducer rid now) cur = Inl e"
    by blast
  moreover from c(1) assms(1) have "cur = Some run" by (simp add: get_run_Inr)
  moreover obtain w where "teamRecovery_reducer rid now run = Inr w" "r_state w = RecoveryRequired"
      "\<not> isTerminal (r_state run)"
    using teamRecoveryNeeded_reduces [OF assms(2)] by blast
  ultimately show False
    by (auto simp: commit_def no_replay_def transitionRun_def canTransition_recovery split: if_splits)
qed

lemma reconcile_run_other:
  assumes "reconcile_run clk i d = (res, d')" and "j \<noteq> i"
  shows "get_run j d' = get_run j d"
  using assms
  by (auto simp: reconcile_run_def settleTerminal_def Let_def dest: transition_other
      split: sum.splits if_splits prod.splits option.splits store_error.splits)

lemma reconcile_run_resumable:
  assumes run: "reconcile_run clk i d = (Inr res, d')"
  shows "\<exists>r. get_run i d' = Inr r \<and> resumable r"
proof -
  from run obtain v where v: "get_run i d = Inr v" by (auto simp: reconcile_run_def split: sum.splits)
  consider
      (admission) "r_bindingAdmission v = Some AdmissionPending"
        "r_state v \<notin> {Succeeded, Failed, Cancelled, TimedOut, RecoveryRequired}"
    | (team) "\<not> (r_bindingAdmission v = Some AdmissionPending
        \<and> r_state v \<notin> {Succeeded, Failed, Cancelled, TimedOut, RecoveryRequired})" "teamRecoveryNeeded v"
    | (rest) "\<not> (r_bindingAdmission v = Some AdmissionPending
        \<and> r_state v \<notin> {Succeeded, Failed, Cancelled, TimedOut, RecoveryRequired})" "\<not> teamRecoveryNeeded v"
    by blast
  then show ?thesis
  proof cases
    case admission
    with run v obtain r where "settleTerminal i ToRecoveryRequired [(''reason'', JStr ''admission-incomplete'')] clk d
        = (Inr r, d')"
      by (auto simp: reconcile_run_def split: sum.splits prod.splits)
    from settleTerminal_recovery [OF this] show ?thesis by (auto simp: resumable_def)
  next
    case team
    obtain res' d1 where t: "transition i (clk 1) (teamRecovery_reducer i (clk 0)) d = (res', d1)"
      by (cases "transition i (clk 1) (teamRecovery_reducer i (clk 0)) d")
    from run v team t team_transition_total [OF v team(2)] obtain r where
      "transition i (clk 1) (teamRecovery_reducer i (clk 0)) d = (Inr r, d')"
      by (fastforce simp: reconcile_run_def split: sum.splits if_splits store_error.splits)
    then show ?thesis unfolding transition_def
      by (elim team_recovery_red.applyTransition_facts)
        (auto simp: teamRecovery_reducer_def resumable_def split: option.splits if_splits)
  next
    case rest
    show ?thesis
    proof (cases "r_parent v \<noteq> None \<and> \<not> isTerminal (r_state v) \<and> r_state v \<noteq> RecoveryRequired")
      case True
      with rest run v obtain r where "settleTerminal i ToRecoveryRequired
          [(''reason'', JStr ''child-supervisor-unavailable''), (''parentRunId'', JStr (pr_runId (the (r_parent v))))] clk d
          = (Inr r, d')"
        by (auto simp: reconcile_run_def split: sum.splits prod.splits if_splits)
      from settleTerminal_recovery [OF this] show ?thesis by (auto simp: resumable_def)
    next
      case no_parent: False
      show ?thesis
      proof (cases "List.find unsettled_intent (r_attempts v)")
        case None
        then have "\<not> list_ex unsettled_intent (r_attempts v)" by (auto simp: find_None_all list_ex_iff)
        moreover have "d' = d" using rest run v no_parent None by (auto simp: reconcile_run_def split: if_splits)
        ultimately show ?thesis using v rest no_parent by (cases "r_state v") (auto simp: resumable_def)
      next
        case (Some a)
        show ?thesis
        proof (cases "r_state v \<in> {Succeeded, Failed, Cancelled, TimedOut, RecoveryRequired, WaitingInput}")
          case True
          then have "d' = d" using rest run v no_parent by (auto simp: reconcile_run_def split: if_splits)
          with True v rest no_parent show ?thesis by (auto simp: resumable_def)
        next
          case False
          with rest run v no_parent Some obtain r where
            "transition i (clk 1) (intentRecovery_reducer a (clk 0)) d = (Inr r, d')"
            by (auto simp: reconcile_run_def split: sum.splits prod.splits if_splits)
          then show ?thesis unfolding transition_def
            by (elim intent_recovery_red.applyTransition_facts) (auto simp: intentRecovery_reducer_def resumable_def)
        qed
      qed
    qed
  qed
qed

lemma reconcile_loop_resumable:
  assumes "reconcile_loop clk ids rep d = (Inr rep', d')"
    and "\<forall>i\<in>done. \<exists>r. get_run i d = Inr r \<and> resumable r"
  shows "\<forall>i\<in>done \<union> set ids. \<exists>r. get_run i d' = Inr r \<and> resumable r"
  using assms
proof (induction ids arbitrary: rep d "done")
  case (Cons i ids)
  from Cons.prems(1) obtain out d1 rep1 where r: "reconcile_run (clk i) i d = (Inr out, d1)"
    and l: "reconcile_loop clk ids rep1 d1 = (Inr rep', d')"
    by (auto split: prod.splits sum.splits)
  have "\<forall>j\<in>insert i done. \<exists>r. get_run j d1 = Inr r \<and> resumable r"
    using reconcile_run_resumable [OF r] reconcile_run_other [OF r] Cons.prems(2) by (metis insert_iff)
  from Cons.IH [OF l this] show ?case by simp
qed simp

lemma reconcile_loop_report:
  assumes "reconcile_loop clk ids rep d = (Inr rep', d')"
  shows "rp_scanned rep' = rp_scanned rep + length ids
     \<and> length (rp_recoveryRequired rep') + length (rp_untouched rep')
       = length (rp_recoveryRequired rep) + length (rp_untouched rep) + length ids"
  using assms
proof (induction ids arbitrary: rep d)
  case (Cons i ids)
  from Cons.prems obtain out d1 where r: "reconcile_run (clk i) i d = (Inr out, d1)"
    by (auto split: prod.splits sum.splits)
  with Cons.prems Cons.IH show ?case by (cases out) fastforce+
qed simp

text \<open>A Run that is resumable and has no unknown Team effect is left alone by the scan.\<close>

lemma reconcile_run_untouched:
  assumes "get_run i d = Inr r" and "resumable r" and "\<not> teamRecoveryNeeded r"
  shows "reconcile_run clk i d = (Inr None, d)"
  using assms
  by (cases "r_state r") (simp_all add: reconcile_run_def resumable_def find_None_ex [symmetric])

lemma reconcile_loop_untouched:
  assumes "\<forall>i\<in>set ids. \<exists>r. get_run i d = Inr r \<and> resumable r \<and> \<not> teamRecoveryNeeded r"
  shows "reconcile_loop clk ids rep d =
     (Inr (rep\<lparr>rp_scanned := rp_scanned rep + length ids, rp_untouched := rp_untouched rep @ ids\<rparr>), d)"
  using assms
proof (induction ids arbitrary: rep)
  case (Cons i ids)
  then have "reconcile_run (clk i) i d = (Inr None, d)" by (auto intro: reconcile_run_untouched)
  with Cons show ?case by simp
qed simp

end
