(* ===== verification/TeamContract.thy ===== *)
theory TeamContract
  imports TeamArtifacts TeamEffects Recovery
begin

text \<open>
  The TeamStage reducers meet the store's contract, and the stage facts evolve one way: the
  identity of a stage never changes, its task is bound once and its revision only grows, captures
  and effects are only appended, a settled effect and an accepted output are immutable.
\<close>

section \<open>Reducers that only write the stage\<close>

lemma put_stage_Inr:
  "put_stage v s es = Inr w \<longleftrightarrow> team_stage_ok s \<and> w = v\<lparr>r_teamStage := Some s, r_log := r_log v @ es\<rparr>"
  by (auto simp: put_stage_def)

lemma put_stage_draft:
  assumes "put_stage v s es = Inr w" and "list_all (\<lambda>e. l_seq e = Suc (r_seq v)) es"
  shows "draft_ok v w"
  using assms by (intro draft_okI) (auto simp: put_stage_Inr reducer_facts attempts_wf_mono)

lemma stage_event_seq [simp]: "l_seq (stage_event n now k detail) = Suc n"
  by (simp add: stage_event_def)

interpretation bind_stage_red: run_reducer "bindTeamStage_reducer rid b now" for rid b now
  by unfold_locales (auto simp: bindTeamStage_reducer_def ebind_Inr intro: put_stage_draft)

interpretation bind_task_red: run_reducer "bindTeamTask_reducer rid t n now" for rid t n now
  by unfold_locales (auto simp: bindTeamTask_reducer_def intro: put_stage_draft split: option.splits)

interpretation task_revision_red: run_reducer "updateTeamTaskRevision_reducer rid a b now" for rid a b now
  by unfold_locales (auto simp: updateTeamTaskRevision_reducer_def intro: put_stage_draft split: option.splits)

interpretation observe_red: run_reducer "observeTeamTaskRevision_reducer rid t a b now" for rid t a b now
  by unfold_locales (auto simp: observeTeamTaskRevision_reducer_def intro: put_stage_draft split: option.splits)

interpretation execution_red: run_reducer "recordTeamStageExecution_reducer x now" for x now
  by unfold_locales (auto simp: recordTeamStageExecution_reducer_def intro: put_stage_draft split: option.splits)

interpretation update_stage_red: run_reducer "updateTeamStage_reducer rid u now" for rid u now
  by unfold_locales (auto simp: updateTeamStage_reducer_def intro: put_stage_draft split: option.splits)

interpretation upsert_red: run_reducer "upsertTeamMember_reducer rid m now" for rid m now
  by unfold_locales (auto simp: upsertTeamMember_reducer_def intro: put_stage_draft split: option.splits)

text \<open>The shape of an accepted reservation and of an accepted member binding.\<close>

lemma reserve_reducer_cases:
  assumes "reserveTeamMember_reducer sha rid q c nn mid now v = Inr w"
  obtains (1) n s t rs ev where "frozenArtifactNode v = Inr (n, s)"
    "put_stage v ((complete_members t (s\<lparr>ts_reservations := Some rs\<rparr>))
        \<lparr>ts_requiredChecks := Some (sc_requiredChecks t), ts_updatedAt := now\<rparr>) [stage_event (r_seq v) now EvState ev] = Inr w"
proof -
  from assms obtain n s where ns: "frozenArtifactNode v = Inr (n, s)"
    by (auto simp: reserveTeamMember_reducer_def ebind_Inr)
  from assms obtain d a sid t where o1: "declared_member n (rq_logicalName q) = Some d"
     "List.find (\<lambda>a. a_attemptId a = rq_attemptId q) (r_attempts v) = Some a"
     "n_outputSchemaRef n = Some sid" "n_teamStage n = Some t"
    by (auto simp: reserveTeamMember_reducer_def ebind_Inr ns split: option.split_asm)
  from assms obtain dg where o2: "map_of (rq_resourceDigests q) sid = Some dg"
    by (auto simp: reserveTeamMember_reducer_def ebind_Inr ns o1 split: option.split_asm)
  show thesis
    by (rule that [OF ns]) (insert assms, simp add: reserveTeamMember_reducer_def ebind_Inr ns o1 o2 Let_def, elim conjE, assumption)
qed

lemma bind_member_reducer_cases:
  assumes "bindTeamMemberReservation_reducer rid q now v = Inr w"
  obtains (1) n s t rs ms ev where "frozenArtifactNode v = Inr (n, s)"
    "put_stage v ((complete_members t (s\<lparr>ts_reservations := Some rs, ts_members := ms\<rparr>))
        \<lparr>ts_updatedAt := now\<rparr>) [stage_event (r_seq v) now EvState ev] = Inr w"
proof -
  from assms obtain n s where ns: "frozenArtifactNode v = Inr (n, s)"
    by (auto simp: bindTeamMemberReservation_reducer_def ebind_Inr)
  from assms obtain rv t where o1: "List.find (\<lambda>w. rv_effectId w = mb_effectId q) (stage_reservations s) = Some rv"
     "n_teamStage n = Some t"
    by (auto simp: bindTeamMemberReservation_reducer_def ebind_Inr ns split: option.split_asm)
  show thesis
    by (rule that [OF ns]) (insert assms, simp add: bindTeamMemberReservation_reducer_def ebind_Inr ns o1, elim conjE, assumption)
qed

interpretation reserve_red: run_reducer "reserveTeamMember_reducer sha rid q c nn mid now" for sha rid q c nn mid now
proof
  fix v w
  assume "reserveTeamMember_reducer sha rid q c nn mid now v = Inr w"
  then show "draft_ok v w"
  proof (cases rule: reserve_reducer_cases)
    case (1 n s t rs ev) then show ?thesis by (auto intro: put_stage_draft)
  qed
qed

interpretation bind_member_red: run_reducer "bindTeamMemberReservation_reducer rid q now" for rid q now
proof
  fix v w
  assume "bindTeamMemberReservation_reducer rid q now v = Inr w"
  then show "draft_ok v w"
  proof (cases rule: bind_member_reducer_cases)
    case (1 n s t rs ms ev) then show ?thesis by (auto intro: put_stage_draft)
  qed
qed

interpretation capture_red: run_reducer "bindTeamCaptureArtifact_reducer sha ref m n now" for sha ref m n now
  by unfold_locales
    (auto simp: bindTeamCaptureArtifact_reducer_def ebind_Inr intro: put_stage_draft split: option.splits)

interpretation acceptance_red: run_reducer "recordTeamOutputAcceptance_reducer rid acc now" for rid acc now
  by unfold_locales (auto simp: recordTeamOutputAcceptance_reducer_def intro: put_stage_draft split: option.splits)

interpretation append_red: run_reducer "append_reducer f phase res clk" for f phase res clk
proof
  fix v w
  assume "append_reducer f phase res clk v = Inr w"
  then obtain s es where "put_stage v s es = Inr w" "list_all (\<lambda>e. l_seq e = Suc (r_seq v)) es"
    by (auto simp: append_reducer_def ebind_Inr Let_def split: option.splits)
  then show "draft_ok v w" by (rule put_stage_draft)
qed

text \<open>The settlement also settles the graph Attempt.\<close>

lemma settle_reducer_shape:
  assumes "settleTeamStageAttempt_reducer sha rid q now v = Inr w"
  obtains s a where "r_teamStage v = Some s" "List.find (\<lambda>x. a_attemptId x = sq_attemptId q) (r_attempts v) = Some a"
    "\<not> attempt_settled a" "a_nodeId a = ts_stageId s" "\<not> stage_closed (ts_state s)"
    "r_state v \<notin> {Cancelling, RecoveryRequired}" "ts_attemptId s = Some (sq_attemptId q)"
    "\<not> list_ex (\<lambda>e. e_state e = EPending) (stage_effects s)"
    "w = v\<lparr>r_attempts := update_first (\<lambda>x. a_attemptId x = sq_attemptId q)
             (settle_stage_attempt q (Suc (r_seq v)) now) (r_attempts v),
           r_teamStage := Some (s\<lparr>ts_outputAcceptance := Some (sq_acceptance q), ts_state := SSucceeded, ts_updatedAt := now\<rparr>),
           r_log := r_log v @ [stage_event (r_seq v) now EvResult [(''attemptId'', JStr (sq_attemptId q)),
             (''teamStage'', JStr ''accepted''),
             (''evidence'', JStr (case sq_evidence q of None \<Rightarrow> ''team-stage-accepted'' | Some e \<Rightarrow> e))]]\<rparr>"
proof -
  from assms obtain s a where s: "r_teamStage v = Some s"
    and a: "List.find (\<lambda>x. a_attemptId x = sq_attemptId q) (r_attempts v) = Some a"
    and st: "r_state v \<notin> {Cancelling, RecoveryRequired}"
    and chk: "settle_binding_checks rid q v s = Inr ()"
    and rest: "\<not> list_ex (\<lambda>e. e_state e = EPending) (stage_effects s)" "a_nodeId a = ts_stageId s"
      "\<not> stage_closed (ts_state s)" "a_result a = None"
      "a_state a \<notin> {ACancelling, ARecoveryRequired, ASucceeded, AFailed, ACancelled, ATimedOut, ASkipped}"
    and p: "put_stage (v\<lparr>r_attempts := update_first (\<lambda>x. a_attemptId x = sq_attemptId q)
             (settle_stage_attempt q (Suc (r_seq v)) now) (r_attempts v)\<rparr>)
        (s\<lparr>ts_outputAcceptance := Some (sq_acceptance q), ts_state := SSucceeded, ts_updatedAt := now\<rparr>)
        [stage_event (r_seq v) now EvResult [(''attemptId'', JStr (sq_attemptId q)), (''teamStage'', JStr ''accepted''),
           (''evidence'', JStr (case sq_evidence q of None \<Rightarrow> ''team-stage-accepted'' | Some e \<Rightarrow> e))]] = Inr w"
    unfolding settleTeamStageAttempt_reducer_def Let_def
    by (auto simp: ebind_Inr split: option.splits)
  from chk have "ts_attemptId s = Some (sq_attemptId q)" by (simp add: settle_binding_checks_def Let_def)
  moreover have "\<not> attempt_settled a" using rest(4,5) by (cases "a_state a") (auto simp: attempt_settled_def)
  ultimately show thesis using that s a st rest p by (simp add: put_stage_Inr)
qed

interpretation settle_stage_red: run_reducer "settleTeamStageAttempt_reducer sha rid q now" for sha rid q now
proof
  fix v w
  assume "settleTeamStageAttempt_reducer sha rid q now v = Inr w"
  then show "draft_ok v w"
  proof (cases rule: settle_reducer_shape)
    case (1 s a)
    show ?thesis
    proof (rule draft_okI)
      show "attempts_evolve (r_attempts v) (r_attempts w)"
        using 1(2,3) by (auto simp: 1(9) settle_stage_attempt_def intro!: attempts_evolve_update attempt_evolves_open)
      show "attempts_wf (Suc (r_seq v)) (r_attempts w)" if "attempts_wf (r_seq v) (r_attempts v)"
        using that 1(2,3) unfolding 1(9)
        by (simp, elim attempts_wf_update) (auto simp: settle_stage_attempt_def intro: attempt_wf_settle)
    qed (simp_all add: 1(9) reducer_facts)
  qed
qed

section \<open>How a stage may change\<close>

definition effect_evolves :: "team_effect \<Rightarrow> team_effect \<Rightarrow> bool" where
  "effect_evolves e e' \<longleftrightarrow>
     e_effectId e' = e_effectId e \<and> e_kind e' = e_kind e \<and> e_memberName e' = e_memberName e
     \<and> e_actorSessionId e' = e_actorSessionId e \<and> e_intentAt e' = e_intentAt e
     \<and> (e_state e \<noteq> EPending \<longrightarrow> e' = e)"

text \<open>The budget is fixed when it is first recorded, and the first abort is final.\<close>

definition execution_evolves :: "team_execution \<Rightarrow> team_execution \<Rightarrow> bool" where
  "execution_evolves x y \<longleftrightarrow>
     x_startedAt y = x_startedAt x \<and> x_deadlineAt y = x_deadlineAt x \<and> x_timeoutMs y = x_timeoutMs x
     \<and> (x_abort x \<noteq> None \<longrightarrow> y = x)"

definition stage_evolves :: "team_stage \<Rightarrow> team_stage \<Rightarrow> bool" where
  "stage_evolves s s' \<longleftrightarrow>
     (ts_stageId s', ts_runId s', ts_teamId s', ts_leadSessionId s', ts_taskSpecificationFingerprint s', ts_attemptId s')
       = (ts_stageId s, ts_runId s, ts_teamId s, ts_leadSessionId s, ts_taskSpecificationFingerprint s, ts_attemptId s)
     \<and> (ts_taskId s \<noteq> None \<longrightarrow> ts_taskId s' = ts_taskId s)
     \<and> (\<forall>n. ts_taskRevision s = Some n \<longrightarrow> (\<exists>m. n \<le> m \<and> ts_taskRevision s' = Some m))
     \<and> (ts_outputAcceptance s \<noteq> None \<longrightarrow> ts_outputAcceptance s' = ts_outputAcceptance s)
     \<and> (\<forall>x. ts_execution s = Some x \<longrightarrow> (\<exists>y. ts_execution s' = Some y \<and> execution_evolves x y))
     \<and> (stage_closed (ts_state s) \<longrightarrow> stage_closed (ts_state s'))
     \<and> list_evolves (=) (stage_captures s) (stage_captures s')
     \<and> list_evolves effect_evolves (stage_effects s) (stage_effects s')"

definition stage_step :: "team_stage option \<Rightarrow> team_stage option \<Rightarrow> bool" where
  "stage_step a b \<longleftrightarrow>
     (case a of None \<Rightarrow> True | Some s \<Rightarrow> (case b of None \<Rightarrow> False | Some s' \<Rightarrow> stage_evolves s s'))"

lemma effect_evolves_refl [simp]: "effect_evolves e e"
  by (simp add: effect_evolves_def)

lemma effect_evolves_trans: "effect_evolves a b \<Longrightarrow> effect_evolves b c \<Longrightarrow> effect_evolves a c"
  by (auto simp: effect_evolves_def)

lemma execution_evolves_refl [simp]: "execution_evolves x x"
  by (simp add: execution_evolves_def)

lemma execution_evolves_trans: "execution_evolves a b \<Longrightarrow> execution_evolves b c \<Longrightarrow> execution_evolves a c"
  by (auto simp: execution_evolves_def)

lemma stage_evolves_refl [simp]: "stage_evolves s s"
  by (simp add: stage_evolves_def list_evolves_refl)

lemma stage_evolves_trans:
  assumes "stage_evolves a b" "stage_evolves b c"
  shows "stage_evolves a c"
proof -
  have "list_evolves effect_evolves (stage_effects a) (stage_effects c)"
    by (rule list_evolves_trans [of effect_evolves _ "stage_effects b"])
      (use assms in \<open>auto simp: stage_evolves_def intro: effect_evolves_trans\<close>)
  moreover have "list_evolves (=) (stage_captures a) (stage_captures c)"
    by (rule list_evolves_trans [of "(=)" _ "stage_captures b"]) (use assms in \<open>simp_all add: stage_evolves_def\<close>)
  moreover have "\<exists>y. ts_execution c = Some y \<and> execution_evolves x y" if "ts_execution a = Some x" for x
    using assms that unfolding stage_evolves_def by (meson execution_evolves_trans)
  moreover have "\<exists>m. n \<le> m \<and> ts_taskRevision c = Some m" if "ts_taskRevision a = Some n" for n
    using assms that unfolding stage_evolves_def by (meson order_trans)
  ultimately show ?thesis using assms unfolding stage_evolves_def by simp
qed

lemma stage_step_refl [simp]: "stage_step a a"
  by (simp add: stage_step_def split: option.splits)

lemma stage_step_trans: "stage_step a b \<Longrightarrow> stage_step b c \<Longrightarrow> stage_step a c"
  by (auto simp: stage_step_def intro: stage_evolves_trans split: option.splits)

text \<open>A stage whose protected fields are untouched.\<close>

definition stage_frame where
  "stage_frame s = ((ts_stageId s, ts_runId s, ts_teamId s, ts_leadSessionId s), (ts_taskSpecificationFingerprint s, ts_attemptId s,
      ts_taskId s, ts_taskRevision s), (ts_outputAcceptance s, ts_captures s, ts_effects s, ts_execution s))"

lemma stage_frame_evolves:
  "stage_frame s' = stage_frame s \<Longrightarrow> (stage_closed (ts_state s) \<Longrightarrow> stage_closed (ts_state s')) \<Longrightarrow> stage_evolves s s'"
  by (auto simp: stage_frame_def stage_evolves_def stage_captures_def stage_effects_def intro: list_evolves_refl)

lemma complete_members_frame [simp]:
  "stage_frame (complete_members t s) = stage_frame s" "ts_state (complete_members t s) = ts_state s"
  by (simp_all add: complete_members_def stage_frame_def Let_def)

lemma stage_frame_updates [simp]:
  "stage_frame (s\<lparr>ts_updatedAt := n\<rparr>) = stage_frame s"
  "stage_frame (s\<lparr>ts_requiredChecks := x\<rparr>) = stage_frame s"
  "stage_frame (s\<lparr>ts_reservations := vs\<rparr>) = stage_frame s"
  "stage_frame (s\<lparr>ts_members := ms\<rparr>) = stage_frame s"
  "stage_frame (s\<lparr>ts_state := st\<rparr>) = stage_frame s"
  "stage_frame (s\<lparr>ts_cancel := ca\<rparr>) = stage_frame s"
  "stage_frame (s\<lparr>ts_recovery := rc\<rparr>) = stage_frame s"
  by (simp_all add: stage_frame_def)

lemma stage_cutoff_frame [simp]:
  "stage_frame (stage_cutoff reason a b s) = stage_frame s" "ts_state (stage_cutoff reason a b s) = SCancelling"
  by (simp_all add: stage_cutoff_def)

end
