(* ===== verification/Scheduler.thy ===== *)
theory Scheduler
  imports Definition
begin

text \<open>
  The pure scheduler (\<open>orchestration/scheduler.ts\<close>): the graph compiled to dependency maps, and
  the classification of every node as ready, skipped or blocked from the Attempt states and the
  decisions taken so far.
\<close>

section \<open>Compiled graph\<close>

record data_dep =
  dd_fromNode :: string
  dd_fromPort :: string
  dd_toPort :: string

record control_parent =
  cp_fromNode :: string
  cp_branch :: "string option"

text \<open>
  \<open>s.slice(0, s.indexOf(c))\<close> and \<open>s.slice(s.indexOf(c) + 1)\<close>. Where the separator is missing,
  \<open>indexOf\<close> is -1: the first drops the last character, the second returns the whole string.
\<close>

definition slice_before :: "char \<Rightarrow> string \<Rightarrow> string" where
  "slice_before c s = (if c \<in> set s then before_char c s else butlast s)"

definition slice_after :: "char \<Rightarrow> string \<Rightarrow> string" where
  "slice_after c s = (if c \<in> set s then after_char c s else s)"

definition dep_of_edge :: "graph_edge \<Rightarrow> data_dep" where
  "dep_of_edge e = \<lparr>dd_fromNode = slice_before CHR ''.'' (ed_from e),
     dd_fromPort = slice_after CHR ''.'' (ed_from e), dd_toPort = slice_after CHR ''.'' (ed_to e)\<rparr>"

text \<open>\<open>const [fromNode, branch] = edge.from.split('@')\<close>\<close>

definition parent_of_edge :: "graph_edge \<Rightarrow> control_parent" where
  "parent_of_edge e =
     \<lparr>cp_fromNode = hd (split_on CHR ''@'' (ed_from e)),
      cp_branch = (case split_on CHR ''@'' (ed_from e) of _ # b # _ \<Rightarrow> Some b | _ \<Rightarrow> None)\<rparr>"

definition data_target :: "graph_edge \<Rightarrow> string" where
  "data_target e = slice_before CHR ''.'' (ed_to e)"

definition control_target :: "graph_edge \<Rightarrow> string" where
  "control_target e = hd (split_on CHR ''@'' (ed_to e))"

definition map_append :: "string \<Rightarrow> 'a \<Rightarrow> 'a list dict \<Rightarrow> 'a list dict" where
  "map_append k x m = AList.update k ((case map_of m k of None \<Rightarrow> [] | Some xs \<Rightarrow> xs) @ [x]) m"

record compiled =
  cg_nodeById :: "graph_node dict"
  cg_dataDeps :: "data_dep list dict"
  cg_controlParents :: "control_parent list dict"

fun compile_edges :: "graph_edge list \<Rightarrow> data_dep list dict \<times> control_parent list dict
    \<Rightarrow> data_dep list dict \<times> control_parent list dict" where
  "compile_edges [] acc = acc"
| "compile_edges (e # es) (deps, parents) =
     (if ed_kind e = DataEdge
      then compile_edges es (map_append (data_target e) (dep_of_edge e) deps, parents)
      else compile_edges es (deps, map_append (control_target e) (parent_of_edge e) parents))"

definition node_map :: "graph_node list \<Rightarrow> graph_node dict" where
  "node_map ns = fold (\<lambda>n. AList.update (n_id n) n) ns []"

definition compileGraph :: "blueprint_definition \<Rightarrow> compiled" where
  "compileGraph d =
     (let (deps, parents) = compile_edges (bd_edges d) ([], []) in
      \<lparr>cg_nodeById = node_map (bd_nodes d), cg_dataDeps = deps, cg_controlParents = parents\<rparr>)"

definition lookup_list :: "'a list dict \<Rightarrow> string \<Rightarrow> 'a list" where
  "lookup_list m k = (case map_of m k of None \<Rightarrow> [] | Some xs \<Rightarrow> xs)"

section \<open>Schedule\<close>

record node_view =
  nv_nodeId :: string
  nv_states :: "attempt_state list"

record snapshot =
  sn_attempts :: "node_view list"
  sn_decisions :: "string dict"

record schedule_result =
  sr_ready :: "string list"
  sr_skipped :: "string list"
  sr_blocked :: "string list"
  sr_joinsPending :: "string list"

definition latestState :: "node_view option \<Rightarrow> attempt_state option" where
  "latestState n =
     (case n of None \<Rightarrow> None | Some v \<Rightarrow> if nv_states v = [] then None else Some (last (nv_states v)))"

definition isTerminalSuccess :: "attempt_state option \<Rightarrow> bool" where
  "isTerminalSuccess s \<longleftrightarrow> s = Some ASucceeded"

definition isTerminalAttempt :: "attempt_state option \<Rightarrow> bool" where
  "isTerminalAttempt s \<longleftrightarrow> (case s of None \<Rightarrow> False | Some t \<Rightarrow> t \<in> set TERMINAL_ATTEMPTS)"

text \<open>\<open>new Map(snapshot.attempts.map(a => [a.nodeId, a]))\<close>: a later view of a node replaces an earlier one.\<close>

definition stateOf :: "snapshot \<Rightarrow> string \<Rightarrow> attempt_state option" where
  "stateOf sn i = latestState (find_last (\<lambda>v. nv_nodeId v = i) (sn_attempts sn))"

record control_scan =
  cs_skipped :: bool
  cs_blocked :: bool
  cs_states :: "attempt_state option list"

definition scan_parent :: "compiled \<Rightarrow> snapshot \<Rightarrow> control_parent \<Rightarrow> control_scan \<Rightarrow> control_scan" where
  "scan_parent g sn p c =
     (let st = stateOf sn (cp_fromNode p);
          kind = map_option n_kind (map_of (cg_nodeById g) (cp_fromNode p));
          decides = kind = Some KCondition \<or> kind = Some KHumanDecision;
          settled = c\<lparr>cs_states := cs_states c @ [st], cs_blocked := cs_blocked c \<or> \<not> isTerminalSuccess st\<rparr>
      in if st = Some ASkipped then c\<lparr>cs_skipped := True\<rparr>
         else if \<not> isTerminalAttempt st then c\<lparr>cs_blocked := True, cs_states := cs_states c @ [st]\<rparr>
         else case cp_branch p of
                None \<Rightarrow> settled
              | Some b \<Rightarrow>
                  if st = Some ASucceeded \<and> decides
                  then (case map_of (sn_decisions sn) (cp_fromNode p) of
                          None \<Rightarrow> c\<lparr>cs_blocked := True, cs_states := cs_states c @ [None]\<rparr>
                        | Some selected \<Rightarrow> if selected \<noteq> b then c\<lparr>cs_skipped := True\<rparr> else settled)
                  else settled)"

definition scan_control :: "compiled \<Rightarrow> snapshot \<Rightarrow> control_parent list \<Rightarrow> control_scan" where
  "scan_control g sn ps = fold (scan_parent g sn) ps \<lparr>cs_skipped = False, cs_blocked = False, cs_states = []\<rparr>"

text \<open>The bucket of one node; \<open>VSettled\<close> where the loop body continues without marking it.\<close>

datatype verdict = VSettled | VReady | VSkipped | VBlocked | VJoinPending

definition classify :: "compiled \<Rightarrow> snapshot \<Rightarrow> graph_node \<Rightarrow> verdict" where
  "classify g sn node =
     (let state = stateOf sn (n_id node) in
      if state \<noteq> None \<and> \<not> isTerminalAttempt state then VBlocked
      else if isTerminalAttempt state then VSettled
      else
        let c = scan_control g sn (lookup_list (cg_controlParents g) (n_id node));
            states = map (\<lambda>dep. stateOf sn (dd_fromNode dep)) (lookup_list (cg_dataDeps g) (n_id node))
        in if n_kind node = KJoin then
             let selected = cs_states c @ filter (\<lambda>s. s \<noteq> Some ASkipped) states in
             if selected \<noteq> [] \<and> list_all isTerminalSuccess selected then VReady
             else if list_ex (\<lambda>s. \<not> isTerminalAttempt s) selected then VJoinPending
             else VSkipped
           else if cs_skipped c \<or> Some ASkipped \<in> set states then VSkipped
           else if cs_blocked c then VBlocked
           else if list_all isTerminalSuccess states then VReady
           else VBlocked)"

definition readyNodes :: "blueprint_definition \<Rightarrow> snapshot \<Rightarrow> schedule_result" where
  "readyNodes d sn =
     (let g = compileGraph d;
          bucket = (\<lambda>vs. map n_id (filter (\<lambda>n. classify g sn n \<in> vs) (bd_nodes d)))
      in \<lparr>sr_ready = bucket {VReady}, sr_skipped = bucket {VSkipped},
          sr_blocked = bucket {VBlocked, VJoinPending}, sr_joinsPending = bucket {VJoinPending}\<rparr>)"

lemma success_terminal: "isTerminalSuccess s \<Longrightarrow> isTerminalAttempt s"
  by (simp add: isTerminalSuccess_def isTerminalAttempt_def TERMINAL_ATTEMPTS_def)

section \<open>The dependency maps list the edges\<close>

lemma lookup_map_append:
  "lookup_list (map_append k x m) j = lookup_list m j @ (if j = k then [x] else [])"
  by (simp add: lookup_list_def map_append_def update_conv')

lemma compile_edges_lookup:
  "lookup_list (fst (compile_edges es (deps, parents))) i =
     lookup_list deps i @ map dep_of_edge (filter (\<lambda>e. ed_kind e = DataEdge \<and> data_target e = i) es)"
  "lookup_list (snd (compile_edges es (deps, parents))) i =
     lookup_list parents i @ map parent_of_edge (filter (\<lambda>e. ed_kind e \<noteq> DataEdge \<and> control_target e = i) es)"
  by (induction es "(deps, parents)" arbitrary: deps parents rule: compile_edges.induct)
    (auto simp: lookup_map_append)

lemma compileGraph_deps:
  "lookup_list (cg_dataDeps (compileGraph d)) i =
     map dep_of_edge (filter (\<lambda>e. ed_kind e = DataEdge \<and> data_target e = i) (bd_edges d))"
  using compile_edges_lookup(1) [of "bd_edges d" "[]" "[]" i]
  by (cases "compile_edges (bd_edges d) ([], [])") (simp add: compileGraph_def lookup_list_def)

lemma compileGraph_parents:
  "lookup_list (cg_controlParents (compileGraph d)) i =
     map parent_of_edge (filter (\<lambda>e. ed_kind e \<noteq> DataEdge \<and> control_target e = i) (bd_edges d))"
  using compile_edges_lookup(2) [of "bd_edges d" "[]" "[]" i]
  by (cases "compile_edges (bd_edges d) ([], [])") (simp add: compileGraph_def lookup_list_def)

section \<open>Control scan\<close>

text \<open>A parent is in favour of the node: it succeeded and, where it decides, selected this branch.\<close>

definition in_favour :: "compiled \<Rightarrow> snapshot \<Rightarrow> control_parent \<Rightarrow> bool" where
  "in_favour g sn p \<longleftrightarrow>
     stateOf sn (cp_fromNode p) = Some ASucceeded
     \<and> (case cp_branch p of None \<Rightarrow> True
        | Some b \<Rightarrow>
            (let kind = map_option n_kind (map_of (cg_nodeById g) (cp_fromNode p)) in
             kind = Some KCondition \<or> kind = Some KHumanDecision \<longrightarrow>
               map_of (sn_decisions sn) (cp_fromNode p) = Some b))"

lemma scan_parent_clear:
  "\<not> cs_skipped (scan_parent g sn p c) \<Longrightarrow> \<not> cs_blocked (scan_parent g sn p c) \<Longrightarrow>
   \<not> cs_skipped c \<and> \<not> cs_blocked c \<and> in_favour g sn p"
  by (auto simp: scan_parent_def in_favour_def Let_def isTerminalSuccess_def split: if_splits option.splits)

lemma scan_fold_clear:
  "\<not> cs_skipped (fold (scan_parent g sn) ps c) \<Longrightarrow> \<not> cs_blocked (fold (scan_parent g sn) ps c) \<Longrightarrow>
   \<not> cs_skipped c \<and> \<not> cs_blocked c \<and> (\<forall>p\<in>set ps. in_favour g sn p)"
  by (induction ps arbitrary: c) (auto dest: scan_parent_clear)

lemma scan_control_clear:
  "\<not> cs_skipped (scan_control g sn ps) \<Longrightarrow> \<not> cs_blocked (scan_control g sn ps) \<Longrightarrow>
   \<forall>p\<in>set ps. in_favour g sn p"
  unfolding scan_control_def by (drule (1) scan_fold_clear) simp

text \<open>When every parent is settled and has decided, nothing is pending: the scan never blocks.\<close>

definition parent_resolved :: "compiled \<Rightarrow> snapshot \<Rightarrow> control_parent \<Rightarrow> bool" where
  "parent_resolved g sn p \<longleftrightarrow>
     stateOf sn (cp_fromNode p) = Some ASkipped
     \<or> (stateOf sn (cp_fromNode p) = Some ASucceeded
        \<and> (let kind = map_option n_kind (map_of (cg_nodeById g) (cp_fromNode p)) in
           cp_branch p \<noteq> None \<and> (kind = Some KCondition \<or> kind = Some KHumanDecision) \<longrightarrow>
             map_of (sn_decisions sn) (cp_fromNode p) \<noteq> None))"

lemma scan_parent_resolved:
  assumes "parent_resolved g sn p"
  shows "cs_blocked (scan_parent g sn p c) = cs_blocked c
     \<and> (list_all isTerminalSuccess (cs_states c) \<longrightarrow> list_all isTerminalSuccess (cs_states (scan_parent g sn p c)))"
  using assms
  by (auto simp: scan_parent_def parent_resolved_def Let_def isTerminalSuccess_def isTerminalAttempt_def
      TERMINAL_ATTEMPTS_def split: option.splits)

lemma scan_control_resolved:
  assumes "\<forall>p\<in>set ps. parent_resolved g sn p"
  shows "\<not> cs_blocked (scan_control g sn ps) \<and> list_all isTerminalSuccess (cs_states (scan_control g sn ps))"
proof -
  have "cs_blocked (fold (scan_parent g sn) ps c) = cs_blocked c
     \<and> (list_all isTerminalSuccess (cs_states c) \<longrightarrow> list_all isTerminalSuccess (cs_states (fold (scan_parent g sn) ps c)))"
    for c
    using assms by (induction ps arbitrary: c) (auto dest: scan_parent_resolved)
  then show ?thesis by (simp add: scan_control_def)
qed

section \<open>What a verdict means\<close>

lemma classify_ready:
  assumes "classify g sn n = VReady"
  shows "stateOf sn (n_id n) = None"
    and "n_kind n \<noteq> KJoin \<Longrightarrow> \<forall>dep\<in>set (lookup_list (cg_dataDeps g) (n_id n)). stateOf sn (dd_fromNode dep) = Some ASucceeded"
    and "n_kind n \<noteq> KJoin \<Longrightarrow> \<forall>p\<in>set (lookup_list (cg_controlParents g) (n_id n)). in_favour g sn p"
    and "n_kind n = KJoin \<Longrightarrow> \<forall>dep\<in>set (lookup_list (cg_dataDeps g) (n_id n)).
           stateOf sn (dd_fromNode dep) \<in> {Some ASucceeded, Some ASkipped}"
  using assms scan_control_clear [of g sn "lookup_list (cg_controlParents g) (n_id n)"]
  by (auto simp: classify_def Let_def list_all_iff isTerminalSuccess_def split: if_splits)

lemma classify_resolved:
  assumes "stateOf sn (n_id n) = None"
    and "\<forall>dep\<in>set (lookup_list (cg_dataDeps g) (n_id n)). stateOf sn (dd_fromNode dep) \<in> {Some ASucceeded, Some ASkipped}"
    and "\<forall>p\<in>set (lookup_list (cg_controlParents g) (n_id n)). parent_resolved g sn p"
  shows "classify g sn n \<in> {VReady, VSkipped}"
proof -
  let ?c = "scan_control g sn (lookup_list (cg_controlParents g) (n_id n))"
  let ?states = "map (\<lambda>dep. stateOf sn (dd_fromNode dep)) (lookup_list (cg_dataDeps g) (n_id n))"
  from scan_control_resolved [OF assms(3)]
  have c: "\<not> cs_blocked ?c" "list_all isTerminalSuccess (cs_states ?c)" by simp_all
  have sel: "list_all isTerminalSuccess (cs_states ?c @ filter (\<lambda>s. s \<noteq> Some ASkipped) ?states)"
    using assms(2) c(2) by (auto simp: list_all_iff isTerminalSuccess_def)
  then have "\<not> list_ex (\<lambda>s. \<not> isTerminalAttempt s) (cs_states ?c @ filter (\<lambda>s. s \<noteq> Some ASkipped) ?states)"
    using success_terminal by (auto simp: list_all_iff list_ex_iff)
  moreover have "list_all isTerminalSuccess ?states" if "Some ASkipped \<notin> set ?states"
  proof -
    have "s \<in> {Some ASucceeded, Some ASkipped}" if "s \<in> set ?states" for s
      using that assms(2) by auto
    then have "s = Some ASucceeded" if "s \<in> set ?states" for s
      using that \<open>Some ASkipped \<notin> set ?states\<close> by blast
    then show ?thesis by (simp add: list_all_iff isTerminalSuccess_def)
  qed
  ultimately show ?thesis using assms(1) c(1) sel
    unfolding classify_def Let_def isTerminalAttempt_def by (auto split: if_splits)
qed

end
