(* ===== verification/Validator.thy ===== *)
theory Validator
  imports Scheduler
begin

text \<open>
  The graph validator (\<open>definition/validator.ts\<close>). Issues are collected in the order the code
  pushes them, each with its code and the JSON Pointer as a list of segments; the messages are
  left out. A definition is accepted when no issue was collected.
\<close>

datatype issue_code =
  CInvalidValue | CPathInvalid | CDuplicateId | CDanglingRef | CPortMismatch | CEdgeInvalid | CCycle

datatype seg = Key string | Idx nat

type_synonym issue = "issue_code \<times> seg list"

definition issue_if :: "bool \<Rightarrow> issue_code \<Rightarrow> seg list \<Rightarrow> issue list" where
  "issue_if b c p = (if b then [(c, p)] else [])"

lemma issue_if_Nil [simp]: "issue_if b c p = [] \<longleftrightarrow> \<not> b"
  by (simp add: issue_if_def)

section \<open>Resources\<close>

definition host_issues :: "seg list \<Rightarrow> resource_ref \<Rightarrow> issue list" where
  "host_issues p ref =
     (case rr_source ref of
        Some (HostSource i) \<Rightarrow>
          issue_if (js_trim i = []) CInvalidValue (p @ [Key ''source'', Key ''id''])
          @ issue_if (rr_path ref \<noteq> None) CInvalidValue (p @ [Key ''path''])
          @ issue_if (rr_format ref \<noteq> None) CInvalidValue (p @ [Key ''format''])
          @ issue_if (rr_kind ref \<noteq> RMcp \<and> rr_bindingId ref \<noteq> None) CInvalidValue (p @ [Key ''bindingId''])
          @ issue_if (rr_kind ref \<notin> {RAgent, RSkill, RMcp}) CInvalidValue (p @ [Key ''source''])
      | _ \<Rightarrow> [])"

definition resource_issues :: "string \<Rightarrow> resource_ref \<Rightarrow> issue list" where
  "resource_issues refId ref =
     (let p = [Key ''resources'', Key refId]; host = is_host (rr_source ref) in
      issue_if ((rr_format ref = Some FAgentPreset \<and> rr_kind ref \<noteq> RAgent)
            \<or> (rr_format ref = Some FMcpDefinition \<and> rr_kind ref \<noteq> RMcp)) CInvalidValue (p @ [Key ''format''])
      @ host_issues p ref
      @ (if rr_kind ref = RMcp then
           issue_if (rr_bindingId ref = None \<or> rr_bindingId ref = Some []) CInvalidValue p
           @ (if rr_format ref = Some FMcpDefinition then
                issue_if (\<not> portable (rr_path ref)) CPathInvalid (p @ [Key ''path''])
                @ issue_if (rr_source ref \<noteq> None) CInvalidValue (p @ [Key ''source''])
              else issue_if (rr_path ref \<noteq> None) CInvalidValue (p @ [Key ''path'']))
           @ issue_if (rr_source ref \<noteq> None \<and> \<not> host) CInvalidValue (p @ [Key ''source''])
         else if rr_kind ref = RSkill then
           if host then []
           else if is_shared (rr_source ref) then issue_if (rr_path ref \<noteq> None) CInvalidValue p
           else if rr_path ref \<noteq> None then issue_if (\<not> portable (rr_path ref)) CPathInvalid p
           else [(CInvalidValue, p)]
         else if rr_kind ref = RAgent \<and> host then []
         else issue_if (\<not> portable (rr_path ref)) CPathInvalid p
              @ issue_if (rr_source ref \<noteq> None) CInvalidValue p))"

section \<open>Nodes\<close>

definition has_ref :: "resource_ref dict \<Rightarrow> seg list \<Rightarrow> string option \<Rightarrow> issue list" where
  "has_ref resources p refId =
     (case refId of None \<Rightarrow> [(CDanglingRef, p)]
      | Some r \<Rightarrow> issue_if (map_of resources r = None) CDanglingRef p)"

definition wrong_kind :: "resource_ref dict \<Rightarrow> resource_kind \<Rightarrow> string \<Rightarrow> bool" where
  "wrong_kind resources k r \<longleftrightarrow> (case map_of resources r of None \<Rightarrow> False | Some ref \<Rightarrow> rr_kind ref \<noteq> k)"

definition indexed :: "'a list \<Rightarrow> (nat \<times> 'a) list" where
  "indexed xs = zip [0..<length xs] xs"

text \<open>A \<open>Set\<close> filled while the list is walked: the indices whose element was seen before.\<close>

definition duplicate_issues :: "(nat \<Rightarrow> seg list) \<Rightarrow> string list \<Rightarrow> issue list" where
  "duplicate_issues p xs = concat (map (\<lambda>(i, x). issue_if (x \<in> set (take i xs)) CDuplicateId (p i)) (indexed xs))"

definition list_of :: "'a list option \<Rightarrow> 'a list" where
  "list_of xs = (case xs of None \<Rightarrow> [] | Some ys \<Rightarrow> ys)"

definition call_issues :: "seg list \<Rightarrow> graph_node \<Rightarrow> issue list" where
  "call_issues p n =
     issue_if ((n_kind n = KBlueprintCall) \<noteq> (n_blueprintRef n \<noteq> None)) CInvalidValue (p @ [Key ''blueprintRef''])
     @ (if n_kind n = KBlueprintCall then
          issue_if (n_agentRef n \<noteq> None) CInvalidValue (p @ [Key ''agentRef''])
          @ issue_if (n_skillRefs n \<noteq> None) CInvalidValue (p @ [Key ''skillRefs''])
          @ issue_if (n_toolsetRefs n \<noteq> None) CInvalidValue (p @ [Key ''toolsetRefs''])
          @ issue_if (n_outputSchemaRef n \<noteq> None) CInvalidValue (p @ [Key ''outputSchemaRef''])
          @ issue_if (n_join n) CInvalidValue (p @ [Key ''join''])
          @ issue_if (n_branches n \<noteq> None) CInvalidValue (p @ [Key ''branches''])
          @ issue_if (n_condition n \<noteq> None) CInvalidValue (p @ [Key ''condition''])
        else [])
     @ issue_if (n_interaction n \<and> (n_kind n \<noteq> KAgentTask \<or> n_teamStage n \<noteq> None)) CInvalidValue (p @ [Key ''interaction''])
     @ issue_if (n_modelSelection n \<noteq> None \<and> n_kind n \<noteq> KAgentTask) CInvalidValue (p @ [Key ''modelSelection''])"

definition task_issues :: "resource_ref dict \<Rightarrow> seg list \<Rightarrow> graph_node \<Rightarrow> issue list" where
  "task_issues resources p n =
     (if n_kind n = KAgentTask then
        has_ref resources (p @ [Key ''agentRef'']) (n_agentRef n)
        @ issue_if (case n_agentRef n of None \<Rightarrow> False | Some r \<Rightarrow> wrong_kind resources RAgent r)
            CDanglingRef (p @ [Key ''agentRef''])
        @ concat (map (\<lambda>(i, r). issue_if (wrong_kind resources RSkill r) CDanglingRef (p @ [Key ''skillRefs'', Idx i]))
            (indexed (list_of (n_skillRefs n))))
        @ concat (map (\<lambda>(i, r). issue_if (wrong_kind resources RMcp r) CDanglingRef (p @ [Key ''toolsetRefs'', Idx i]))
            (indexed (list_of (n_toolsetRefs n))))
        @ issue_if (case n_outputSchemaRef n of None \<Rightarrow> False | Some r \<Rightarrow> wrong_kind resources RSchema r)
            CDanglingRef (p @ [Key ''outputSchemaRef''])
      else [])"

definition stage_issues :: "resource_ref dict \<Rightarrow> bool \<Rightarrow> seg list \<Rightarrow> graph_node \<Rightarrow> issue list" where
  "stage_issues resources teamStageSeen p n =
     (case n_teamStage n of None \<Rightarrow> []
      | Some t \<Rightarrow>
          (if n_kind n \<noteq> KAgentTask then [(CInvalidValue, p @ [Key ''teamStage''])]
           else has_ref resources (p @ [Key ''outputSchemaRef'']) (n_outputSchemaRef n))
          @ issue_if teamStageSeen CInvalidValue (p @ [Key ''teamStage''])
          @ concat (map (\<lambda>(i, m).
              let mp = p @ [Key ''teamStage'', Key ''members'', Idx i] in
              issue_if (tm_name m \<in> set (map tm_name (take i (sc_members t)))) CDuplicateId (mp @ [Key ''name''])
              @ has_ref resources (mp @ [Key ''agentRef'']) (Some (tm_agentRef m))
              @ issue_if (wrong_kind resources RAgent (tm_agentRef m)) CDanglingRef (mp @ [Key ''agentRef'']))
              (indexed (sc_members t)))
          @ duplicate_issues (\<lambda>i. p @ [Key ''teamStage'', Key ''requiredChecks'', Idx i]) (sc_requiredChecks t))"

definition condition_issues :: "seg list \<Rightarrow> graph_node \<Rightarrow> issue list" where
  "condition_issues p n =
     issue_if (n_toolAllowlist n \<noteq> None \<and> n_kind n \<noteq> KAgentTask) CInvalidValue (p @ [Key ''toolAllowlist''])
     @ (case n_condition n of None \<Rightarrow> []
        | Some c \<Rightarrow>
            issue_if (n_kind n \<noteq> KCondition
                  \<or> Option.bind (n_inputs n) (\<lambda>d. map_of d (cc_inputPort c)) \<noteq> Some ''boolean''
                  \<or> cc_trueBranch c = cc_falseBranch c
                  \<or> cc_trueBranch c \<notin> set (list_of (n_branches n))
                  \<or> cc_falseBranch c \<notin> set (list_of (n_branches n)))
              CInvalidValue (p @ [Key ''condition'']))
     @ issue_if (n_kind n = KCondition \<and> list_of (n_branches n) = []) CInvalidValue (p @ [Key ''branches''])"

definition node_issues :: "resource_ref dict \<Rightarrow> graph_node list \<Rightarrow> nat \<Rightarrow> graph_node \<Rightarrow> issue list" where
  "node_issues resources nodes i n =
     (let p = [Key ''graph'', Key ''nodes'', Idx i]; before = take i nodes in
      call_issues p n
      @ issue_if (n_id n \<in> set (map n_id before)) CDuplicateId (p @ [Key ''id''])
      @ task_issues resources p n
      @ stage_issues resources (list_ex (\<lambda>m. n_teamStage m \<noteq> None) before) p n
      @ condition_issues p n)"

section \<open>Edges\<close>

text \<open>\<open>parseDataEndpoint\<close>: \<open>nodeId.port\<close> with both parts nonempty, split at the first dot.\<close>

definition parseDataEndpoint :: "string \<Rightarrow> (string \<times> string) option" where
  "parseDataEndpoint value =
     (if CHR ''.'' \<notin> set value \<or> before_char CHR ''.'' value = [] \<or> after_char CHR ''.'' value = []
      then None
      else Some (before_char CHR ''.'' value, after_char CHR ''.'' value))"

definition port_type :: "graph_node dict \<Rightarrow> (graph_node \<Rightarrow> string dict option) \<Rightarrow> string \<times> string \<Rightarrow> string option" where
  "port_type nodeById ports ep =
     Option.bind (map_of nodeById (fst ep)) (\<lambda>n. Option.bind (ports n) (\<lambda>d. map_of d (snd ep)))"

definition endpoint_issues ::
  "graph_node dict \<Rightarrow> (graph_node \<Rightarrow> string dict option) \<Rightarrow> seg list \<Rightarrow> string \<times> string \<Rightarrow> issue list" where
  "endpoint_issues nodeById ports p ep =
     (if map_of nodeById (fst ep) = None then [(CDanglingRef, p)]
      else issue_if (port_type nodeById ports ep = None) CPortMismatch p)"

definition data_edge_issues :: "graph_node dict \<Rightarrow> seg list \<Rightarrow> graph_edge \<Rightarrow> issue list" where
  "data_edge_issues nodeById p e =
     (let src = parseDataEndpoint (ed_from e); tgt = parseDataEndpoint (ed_to e) in
      issue_if (src = None) CEdgeInvalid (p @ [Key ''from''])
      @ issue_if (tgt = None) CEdgeInvalid (p @ [Key ''to''])
      @ (case src of None \<Rightarrow> [] | Some ep \<Rightarrow> endpoint_issues nodeById n_outputs (p @ [Key ''from'']) ep)
      @ (case tgt of None \<Rightarrow> []
         | Some ep \<Rightarrow>
             endpoint_issues nodeById n_inputs (p @ [Key ''to'']) ep
             @ (case (src, port_type nodeById n_inputs ep) of
                  (Some sp, Some inType) \<Rightarrow>
                    (case port_type nodeById n_outputs sp of
                       None \<Rightarrow> []
                     | Some outType \<Rightarrow> issue_if (outType \<noteq> inType) CPortMismatch (p @ [Key ''to'']))
                | _ \<Rightarrow> [])))"

definition control_edge_issues :: "graph_node dict \<Rightarrow> seg list \<Rightarrow> graph_edge \<Rightarrow> issue list" where
  "control_edge_issues nodeById p e =
     (let src = hd (split_on CHR ''@'' (ed_from e)); tgt = hd (split_on CHR ''@'' (ed_to e)) in
      (case map_of nodeById src of
         None \<Rightarrow> [(CDanglingRef, p @ [Key ''from''])]
       | Some owner \<Rightarrow>
           (case split_on CHR ''@'' (ed_from e) of
              _ # branch # _ \<Rightarrow> issue_if (n_kind owner = KCondition \<and> branch \<notin> set (list_of (n_branches owner)))
                CPortMismatch (p @ [Key ''from''])
            | _ \<Rightarrow> []))
      @ (if map_of nodeById tgt = None then [(CDanglingRef, p @ [Key ''to''])]
         else issue_if (CHR ''.'' \<in> set (ed_to e)) CEdgeInvalid (p @ [Key ''to''])))"

definition edge_issues :: "graph_node dict \<Rightarrow> nat \<Rightarrow> graph_edge \<Rightarrow> issue list" where
  "edge_issues nodeById i e =
     (let p = [Key ''graph'', Key ''edges'', Idx i] in
      if ed_kind e = DataEdge then data_edge_issues nodeById p e else control_edge_issues nodeById p e)"

section \<open>Data cycles\<close>

datatype mark = Visiting | Done

record dfs =
  df_cycles :: "string list list"
  df_state :: "(string \<times> mark) list"
  df_stack :: "string list"

fun build_adjacency :: "graph_edge list \<Rightarrow> string list dict \<Rightarrow> string list dict" where
  "build_adjacency [] adj = adj"
| "build_adjacency (e # es) adj =
     build_adjacency es (map_append (before_char CHR ''.'' (ed_from e)) (before_char CHR ''.'' (ed_to e)) adj)"

text \<open>
  \<open>visit\<close>, with fuel for the depth of the recursion: \<open>None\<close> would be a recursion deeper than the
  fuel. \<open>collectDataCycles\<close> starts with more fuel than there are node names.
\<close>

fun visit :: "nat \<Rightarrow> string list dict \<Rightarrow> string \<Rightarrow> dfs \<Rightarrow> dfs option"
and visits :: "nat \<Rightarrow> string list dict \<Rightarrow> string list \<Rightarrow> dfs \<Rightarrow> dfs option" where
  "visit 0 adj i s = None"
| "visit (Suc f) adj i s =
     (if map_of (df_state s) i = Some Done \<or> 10 \<le> length (df_cycles s) then Some s
      else if map_of (df_state s) i = Some Visiting then
        Some (s\<lparr>df_cycles := df_cycles s @ [dropWhile (\<lambda>x. x \<noteq> i) (df_stack s) @ [i]]\<rparr>)
      else
        case visits f adj (lookup_list adj i)
               (s\<lparr>df_state := AList.update i Visiting (df_state s), df_stack := df_stack s @ [i]\<rparr>) of
          None \<Rightarrow> None
        | Some s' \<Rightarrow> Some (s'\<lparr>df_stack := butlast (df_stack s'), df_state := AList.update i Done (df_state s')\<rparr>))"
| "visits f adj [] s = Some s"
| "visits f adj (i # ids) s = (case visit f adj i s of None \<Rightarrow> None | Some s' \<Rightarrow> visits f adj ids s')"

definition cycle_search :: "graph_node list \<Rightarrow> graph_edge list \<Rightarrow> dfs option" where
  "cycle_search nodes dataEdges =
     visits (Suc (Suc (length nodes + length dataEdges))) (build_adjacency dataEdges []) (map n_id nodes)
       \<lparr>df_cycles = [], df_state = [], df_stack = []\<rparr>"

definition collectDataCycles :: "graph_node list \<Rightarrow> graph_edge list \<Rightarrow> string list list" where
  "collectDataCycles nodes dataEdges =
     (case cycle_search nodes dataEdges of None \<Rightarrow> [] | Some s \<Rightarrow> df_cycles s)"

section \<open>Presentation\<close>

text \<open>What \<open>presentationSchema.safeParse\<close> can still reject in a typed presentation.\<close>

definition presentation_shape_issues :: "presentation \<Rightarrow> issue list" where
  "presentation_shape_issues pr =
     concat (map (\<lambda>(k, n).
       let p = [Key ''presentation'', Key ''nodes'', Key k] in
       issue_if (\<not> js_is_finite (pn_x n)) CInvalidValue (p @ [Key ''x''])
       @ issue_if (\<not> js_is_finite (pn_y n)) CInvalidValue (p @ [Key ''y''])
       @ issue_if (\<not> pred_option (\<lambda>w. js_is_finite w \<and> js_positive w) (pn_width n)) CInvalidValue (p @ [Key ''width''])
       @ issue_if (\<not> pred_option (\<lambda>w. js_is_finite w \<and> js_positive w) (pn_height n)) CInvalidValue (p @ [Key ''height'']))
       (ps_nodes pr))
     @ concat (map (\<lambda>(k, _). issue_if (\<not> idPattern k) CInvalidValue [Key ''presentation'', Key ''resources'', Key k])
         (list_of (ps_resources pr)))
     @ concat (map (\<lambda>(i, g).
         let p = [Key ''presentation'', Key ''groups'', Idx i] in
         issue_if (\<not> idPattern (pg_id g)) CInvalidValue (p @ [Key ''id''])
         @ concat (map (\<lambda>(j, x). issue_if (\<not> idPattern x) CInvalidValue (p @ [Key ''nodeIds'', Idx j])) (indexed (pg_nodeIds g))))
         (indexed (list_of (ps_groups pr))))
     @ concat (map (\<lambda>(i, e).
         let p = [Key ''presentation'', Key ''edges'', Idx i] in
         issue_if (pe_from e = []) CInvalidValue (p @ [Key ''from''])
         @ issue_if (pe_to e = []) CInvalidValue (p @ [Key ''to''])
         @ concat (map (\<lambda>(j, (x, y)).
             issue_if (\<not> js_is_finite x) CInvalidValue (p @ [Key ''points'', Idx j, Key ''x''])
             @ issue_if (\<not> js_is_finite y) CInvalidValue (p @ [Key ''points'', Idx j, Key ''y''])) (indexed (pe_points e))))
         (indexed (list_of (ps_edges pr))))"

definition edge_key :: "presentation_edge \<Rightarrow> edge_kind \<times> string \<times> string" where
  "edge_key e = (pe_kind e, pe_from e, pe_to e)"

definition presentation_ref_issues :: "blueprint_definition \<Rightarrow> graph_node dict \<Rightarrow> presentation \<Rightarrow> issue list" where
  "presentation_ref_issues d nodeById pr =
     concat (map (\<lambda>(k, _). issue_if (map_of (bd_resources d) k = None) CDanglingRef
         [Key ''presentation'', Key ''resources'', Key k]) (list_of (ps_resources pr)))
     @ concat (map (\<lambda>(k, _). issue_if (map_of nodeById k = None) CDanglingRef
         [Key ''presentation'', Key ''nodes'', Key k]) (ps_nodes pr))
     @ concat (map (\<lambda>(i, g).
         let gs = list_of (ps_groups pr) in
         issue_if (pg_id g \<in> set (map pg_id (take i gs))) CDuplicateId [Key ''presentation'', Key ''groups'', Idx i, Key ''id'']
         @ concat (map (\<lambda>(j, x).
             let p = [Key ''presentation'', Key ''groups'', Idx i, Key ''nodeIds'', Idx j] in
             issue_if (map_of nodeById x = None) CDanglingRef p
             @ issue_if (x \<in> set (take j (pg_nodeIds g))) CDuplicateId p) (indexed (pg_nodeIds g))))
         (indexed (list_of (ps_groups pr))))
     @ concat (map (\<lambda>(i, e).
         let p = [Key ''presentation'', Key ''edges'', Idx i] in
         issue_if (edge_key e \<notin> set (map (\<lambda>x. (ed_kind x, ed_from x, ed_to x)) (bd_edges d))) CDanglingRef p
         @ issue_if (edge_key e \<in> set (map edge_key (take i (list_of (ps_edges pr))))) CDuplicateId p)
         (indexed (list_of (ps_edges pr))))"

definition presentation_issues :: "blueprint_definition \<Rightarrow> graph_node dict \<Rightarrow> issue list" where
  "presentation_issues d nodeById =
     (case bd_presentation d of None \<Rightarrow> []
      | Some pr \<Rightarrow>
          if presentation_shape_issues pr \<noteq> [] then presentation_shape_issues pr
          else presentation_ref_issues d nodeById pr)"

section \<open>The validator\<close>

definition definition_issues :: "blueprint_definition \<Rightarrow> issue list" where
  "definition_issues d =
     (let nodeById = node_map (bd_nodes d);
          dataEdges = filter (\<lambda>e. ed_kind e = DataEdge) (bd_edges d) in
      concat (map (\<lambda>(refId, ref). resource_issues refId ref) (bd_resources d))
      @ concat (map (\<lambda>(i, n). node_issues (bd_resources d) (bd_nodes d) i n) (indexed (bd_nodes d)))
      @ concat (map (\<lambda>(i, e). edge_issues nodeById i e) (indexed (bd_edges d)))
      @ map (\<lambda>_. (CCycle, [Key ''graph'', Key ''edges''])) (collectDataCycles (bd_nodes d) dataEdges)
      @ presentation_issues d nodeById)"

definition validateDefinition :: "blueprint_definition \<Rightarrow> issue list + unit" where
  "validateDefinition d = (if definition_issues d = [] then Inr () else Inl (definition_issues d))"

end
