(* ===== verification/CycleSearch.thy ===== *)
theory CycleSearch
  imports Validator
begin

text \<open>
  Correctness of the depth-first search \<open>collectDataCycles\<close>: it always ends within its fuel,
  everything it reports is a cycle of the data edges, and when it reports nothing the data graph
  below the nodes has no cycle, although it gives up after ten cycles.
\<close>

section \<open>Edges as a relation\<close>

definition adj_rel :: "string list dict \<Rightarrow> (string \<times> string) set" where
  "adj_rel adj = {(a, b). b \<in> set (lookup_list adj a)}"

definition data_rel :: "graph_edge list \<Rightarrow> (string \<times> string) set" where
  "data_rel es = (\<lambda>e. (before_char CHR ''.'' (ed_from e), before_char CHR ''.'' (ed_to e))) ` set es"

lemma build_adjacency_lookup:
  "lookup_list (build_adjacency es adj) i =
     lookup_list adj i @ map (\<lambda>e. before_char CHR ''.'' (ed_to e))
       (filter (\<lambda>e. before_char CHR ''.'' (ed_from e) = i) es)"
  by (induction es arbitrary: adj) (auto simp: lookup_map_append)

lemma adj_rel_build: "adj_rel (build_adjacency es []) = data_rel es"
  using build_adjacency_lookup [of es "[]"]
  by (auto simp: adj_rel_def data_rel_def lookup_list_def [of "[]"])

definition done_set :: "dfs \<Rightarrow> string set" where
  "done_set s = {i. map_of (df_state s) i = Some Done}"

definition gray_set :: "dfs \<Rightarrow> string set" where
  "gray_set s = {i. map_of (df_state s) i = Some Visiting}"

lemma mark_mem:
  "map_of (df_state s) i = Some Done \<longleftrightarrow> i \<in> done_set s"
  "map_of (df_state s) i = Some Visiting \<longleftrightarrow> i \<in> gray_set s"
  by (simp_all add: done_set_def gray_set_def)

lemma mark_sets [simp]:
  "done_set (s\<lparr>df_state := AList.update i Visiting (df_state s), df_stack := st\<rparr>) = done_set s - {i}"
  "gray_set (s\<lparr>df_state := AList.update i Visiting (df_state s), df_stack := st\<rparr>) = insert i (gray_set s)"
  "done_set (s\<lparr>df_stack := st, df_state := AList.update i Done (df_state s)\<rparr>) = insert i (done_set s)"
  "gray_set (s\<lparr>df_stack := st, df_state := AList.update i Done (df_state s)\<rparr>) = gray_set s - {i}"
  "done_set (s\<lparr>df_cycles := cs\<rparr>) = done_set s"
  "gray_set (s\<lparr>df_cycles := cs\<rparr>) = gray_set s"
  by (auto simp: done_set_def gray_set_def update_conv' split: if_splits)

section \<open>The search ends\<close>

lemma visit_fuel:
  "gray_set s \<subseteq> V \<Longrightarrow> i \<in> V \<Longrightarrow> card V < f + card (gray_set s) \<Longrightarrow> finite V \<Longrightarrow> adj_rel adj `` V \<subseteq> V \<Longrightarrow>
     \<exists>s'. visit f adj i s = Some s' \<and> gray_set s' = gray_set s"
  "gray_set s \<subseteq> V \<Longrightarrow> set ids \<subseteq> V \<Longrightarrow> card V < f + card (gray_set s) \<Longrightarrow> finite V \<Longrightarrow> adj_rel adj `` V \<subseteq> V \<Longrightarrow>
     \<exists>s'. visits f adj ids s = Some s' \<and> gray_set s' = gray_set s"
proof (induction f adj i s and f adj ids s rule: visit_visits.induct)
  case (1 adj i s)
  then have "card (gray_set s) \<le> card V" by (blast intro: card_mono)
  with 1 show ?case by simp
next
  case (2 f adj i s)
  show ?case
  proof (cases "i \<in> done_set s \<or> 10 \<le> length (df_cycles s) \<or> i \<in> gray_set s")
    case True
    then show ?thesis by (auto simp: mark_mem)
  next
    case False
    let ?s = "s\<lparr>df_state := AList.update i Visiting (df_state s), df_stack := df_stack s @ [i]\<rparr>"
    have sub: "set (lookup_list adj i) \<subseteq> V" using "2.prems" by (auto simp: adj_rel_def)
    have fin: "finite (gray_set s)" using "2.prems" by (blast intro: finite_subset)
    have "card V < f + card (gray_set ?s)" using "2.prems"(3) False fin by simp
    moreover have "gray_set ?s \<subseteq> V" using "2.prems" by simp
    ultimately obtain s' where s': "visits f adj (lookup_list adj i) ?s = Some s'" "gray_set s' = insert i (gray_set s)"
      using "2.IH" False sub "2.prems" by (auto simp: mark_mem)
    then show ?thesis using False by (simp add: mark_mem)
  qed
next
  case (4 f adj i ids s)
  then obtain s' where "visit f adj i s = Some s'" "gray_set s' = gray_set s" by auto
  with 4 show ?case by simp
qed simp

section \<open>No report means no cycle\<close>

lemma acyclic_insert:
  assumes "E `` D \<subseteq> D" and "acyclic (E \<inter> D \<times> UNIV)" and "n \<notin> D" and "E `` {n} \<subseteq> D"
  shows "acyclic (E \<inter> insert n D \<times> UNIV)"
proof -
  let ?T = "E \<inter> insert n D \<times> UNIV"
  have stay: "(x, y) \<in> ?T\<^sup>+ \<Longrightarrow> x \<in> D \<Longrightarrow> y \<in> D \<and> (x, y) \<in> (E \<inter> D \<times> UNIV)\<^sup>+" for x y
  proof (induction rule: trancl_induct)
    case (base y)
    with assms(1,3) show ?case by blast
  next
    case (step y z)
    then have "(y, z) \<in> E \<inter> D \<times> UNIV" and "(x, y) \<in> (E \<inter> D \<times> UNIV)\<^sup>+" using assms(3) by auto
    then show ?case using assms(1) by (meson IntE ImageI subsetD trancl.trancl_into_trancl mem_Sigma_iff)
  qed
  have "x \<in> D" if "(x, x) \<in> ?T\<^sup>+" for x
    using that assms(1,4) by (auto dest: tranclD2)
  with stay assms(2) show ?thesis unfolding acyclic_def by blast
qed

definition dfs_good :: "string list dict \<Rightarrow> dfs \<Rightarrow> bool" where
  "dfs_good adj s \<longleftrightarrow>
     adj_rel adj `` done_set s \<subseteq> done_set s \<and> acyclic (adj_rel adj \<inter> done_set s \<times> UNIV)"

lemma visit_cycles_grow:
  "visit f adj i s = Some s' \<Longrightarrow> \<exists>cs. df_cycles s' = df_cycles s @ cs"
  "visits f adj ids s = Some s' \<Longrightarrow> \<exists>cs. df_cycles s' = df_cycles s @ cs"
  by (induction f adj i s and f adj ids s arbitrary: s' and s' rule: visit_visits.induct)
    (fastforce split: if_splits option.splits)+

lemma visit_good:
  "visit f adj i s = Some s' \<Longrightarrow> df_cycles s' = [] \<Longrightarrow> dfs_good adj s \<Longrightarrow>
     dfs_good adj s' \<and> gray_set s' = gray_set s \<and> done_set s \<subseteq> done_set s' \<and> i \<in> done_set s'"
  "visits f adj ids s = Some s' \<Longrightarrow> df_cycles s' = [] \<Longrightarrow> dfs_good adj s \<Longrightarrow>
     dfs_good adj s' \<and> gray_set s' = gray_set s \<and> done_set s \<subseteq> done_set s' \<and> set ids \<subseteq> done_set s'"
proof (induction f adj i s and f adj ids s arbitrary: s' and s' rule: visit_visits.induct)
  case (2 f adj i s)
  show ?case
  proof (cases "i \<in> done_set s \<or> i \<in> gray_set s \<or> 10 \<le> length (df_cycles s)")
    case True
    with "2.prems" show ?thesis by (auto simp: mark_mem split: if_splits)
  next
    case False
    let ?s = "s\<lparr>df_state := AList.update i Visiting (df_state s), df_stack := df_stack s @ [i]\<rparr>"
    from "2.prems" False obtain t where t: "visits f adj (lookup_list adj i) ?s = Some t"
      and s': "s' = t\<lparr>df_stack := butlast (df_stack t), df_state := AList.update i Done (df_state t)\<rparr>"
      by (auto simp: mark_mem split: option.splits)
    have d: "done_set ?s = done_set s" using False by simp
    have "dfs_good adj ?s" using "2.prems"(3) d unfolding dfs_good_def by metis
    with t "2.prems"(2) s' False "2.IH" have IH: "dfs_good adj t" "gray_set t = gray_set ?s"
        "done_set ?s \<subseteq> done_set t" "set (lookup_list adj i) \<subseteq> done_set t"
      by (simp_all add: mark_mem)
    have "i \<in> gray_set t" using IH(2) by simp
    then have ni: "i \<notin> done_set t" by (simp add: gray_set_def done_set_def)
    have "adj_rel adj `` {i} \<subseteq> done_set t" using IH(4) by (auto simp: adj_rel_def)
    with IH(1) ni have "dfs_good adj s'"
      unfolding s' dfs_good_def mark_sets by (auto intro!: acyclic_insert)
    then show ?thesis using IH d False unfolding s' mark_sets by auto
  qed
next
  case (4 f adj i ids s)
  from "4.prems"(1) obtain t where t: "visit f adj i s = Some t" "visits f adj ids t = Some s'"
    by (auto split: option.splits)
  from visit_cycles_grow(2) [OF t(2)] "4.prems"(2) have "df_cycles t = []" by auto
  from "4.IH"(1) [OF t(1) this "4.prems"(3)] have one: "dfs_good adj t" "gray_set t = gray_set s"
    "done_set s \<subseteq> done_set t" "i \<in> done_set t" by simp_all
  from "4.IH"(2) [OF t(1) t(2) "4.prems"(2) one(1)] one show ?case by auto
qed simp_all

section \<open>Every report is a cycle\<close>

definition is_cycle :: "(string \<times> string) set \<Rightarrow> string list \<Rightarrow> bool" where
  "is_cycle E c \<longleftrightarrow> 2 \<le> length c \<and> hd c = last c \<and> successively (\<lambda>a b. (a, b) \<in> E) c"

lemma successively_trancl:
  "successively (\<lambda>a b. (a, b) \<in> E) (x # xs) \<Longrightarrow> xs \<noteq> [] \<Longrightarrow> (x, last xs) \<in> E\<^sup>+"
proof (induction xs arbitrary: x)
  case (Cons y ys)
  then show ?case by (cases ys) (auto intro: trancl_into_trancl2)
qed simp

lemma is_cycle_not_acyclic: "is_cycle E c \<Longrightarrow> \<not> acyclic E"
  by (cases c) (auto simp: is_cycle_def acyclic_def dest!: successively_trancl split: if_splits)

definition dfs_stack_ok :: "string list dict \<Rightarrow> dfs \<Rightarrow> bool" where
  "dfs_stack_ok adj s \<longleftrightarrow>
     set (df_stack s) = gray_set s \<and> successively (\<lambda>a b. (a, b) \<in> adj_rel adj) (df_stack s)
     \<and> list_all (is_cycle (adj_rel adj)) (df_cycles s)"

definition follows :: "string list dict \<Rightarrow> string list \<Rightarrow> string \<Rightarrow> bool" where
  "follows adj st i \<longleftrightarrow> st = [] \<or> (last st, i) \<in> adj_rel adj"

lemma dropWhile_first: "i \<notin> set us \<Longrightarrow> dropWhile (\<lambda>x. x \<noteq> i) (us @ i # ys) = i # ys"
  by (induction us) auto

lemma stack_cycle:
  assumes "successively (\<lambda>a b. (a, b) \<in> E) st" and "i \<in> set st" and "(last st, i) \<in> E"
  shows "is_cycle E (dropWhile (\<lambda>x. x \<noteq> i) st @ [i])"
proof -
  let ?t = "dropWhile (\<lambda>x. x \<noteq> i) st"
  from split_list_first [OF assms(2)] obtain us ys where "st = us @ i # ys" "i \<notin> set us" by blast
  then have ys: "?t = i # ys" by (simp add: dropWhile_first)
  have "successively (\<lambda>a b. (a, b) \<in> E) ?t"
    using assms(1) by (metis successively_append_iff takeWhile_dropWhile_id)
  moreover have "last ?t = last st"
    using ys by (metis last_appendR list.distinct(1) takeWhile_dropWhile_id)
  ultimately have "successively (\<lambda>a b. (a, b) \<in> E) (?t @ [i])"
    using assms(3) ys by (simp only: successively_append_iff) simp
  then show ?thesis using ys by (simp add: is_cycle_def)
qed

lemma visit_stack:
  "visit f adj i s = Some s' \<Longrightarrow> dfs_stack_ok adj s \<Longrightarrow> follows adj (df_stack s) i \<Longrightarrow>
     dfs_stack_ok adj s' \<and> df_stack s' = df_stack s"
  "visits f adj ids s = Some s' \<Longrightarrow> dfs_stack_ok adj s \<Longrightarrow> \<forall>i\<in>set ids. follows adj (df_stack s) i \<Longrightarrow>
     dfs_stack_ok adj s' \<and> df_stack s' = df_stack s"
proof (induction f adj i s and f adj ids s arbitrary: s' and s' rule: visit_visits.induct)
  case (2 f adj i s)
  consider (settled) "i \<in> done_set s \<or> 10 \<le> length (df_cycles s)"
    | (cycle) "i \<notin> done_set s" "\<not> 10 \<le> length (df_cycles s)" "i \<in> gray_set s"
    | (white) "i \<notin> done_set s" "\<not> 10 \<le> length (df_cycles s)" "i \<notin> gray_set s" by blast
  then show ?case
  proof cases
    case settled
    with 2 show ?thesis by (auto simp: mark_mem)
  next
    case cycle
    with 2 have "s' = s\<lparr>df_cycles := df_cycles s @ [dropWhile (\<lambda>x. x \<noteq> i) (df_stack s) @ [i]]\<rparr>"
      by (auto simp: mark_mem)
    moreover have "is_cycle (adj_rel adj) (dropWhile (\<lambda>x. x \<noteq> i) (df_stack s) @ [i])"
      using "2.prems" cycle(3) by (intro stack_cycle) (auto simp: dfs_stack_ok_def follows_def)
    ultimately show ?thesis using "2.prems" by (simp add: dfs_stack_ok_def)
  next
    case white
    let ?s = "s\<lparr>df_state := AList.update i Visiting (df_state s), df_stack := df_stack s @ [i]\<rparr>"
    from "2.prems" white obtain t where t: "visits f adj (lookup_list adj i) ?s = Some t"
      and s': "s' = t\<lparr>df_stack := butlast (df_stack t), df_state := AList.update i Done (df_state t)\<rparr>"
      by (auto simp: mark_mem split: option.splits)
    have "dfs_stack_ok adj ?s"
      using "2.prems"(2,3) unfolding dfs_stack_ok_def mark_sets
      by (auto simp: follows_def successively_append_iff)
    moreover have "\<forall>j\<in>set (lookup_list adj i). follows adj (df_stack ?s) j"
      by (simp add: follows_def adj_rel_def)
    ultimately have IH: "dfs_stack_ok adj t" "df_stack t = df_stack s @ [i]"
      using "2.IH" t white by (auto simp: mark_mem)
    then have "gray_set t - {i} = gray_set s"
      using "2.prems"(2) white(3) by (auto simp: dfs_stack_ok_def)
    then show ?thesis using IH "2.prems"(2) unfolding s' dfs_stack_ok_def mark_sets by simp
  qed
next
  case (4 f adj i ids s)
  from "4.prems"(1) obtain t where t: "visit f adj i s = Some t" "visits f adj ids t = Some s'"
    by (auto split: option.splits)
  with "4.IH"(1) [OF t(1) "4.prems"(2)] "4.prems"(3) have "dfs_stack_ok adj t \<and> df_stack t = df_stack s" by simp
  with "4.IH"(2) [OF t] "4.prems"(3) show ?case by simp
qed simp_all

section \<open>The search as a whole\<close>

lemma cycle_search_total: "\<exists>s. cycle_search nodes es = Some s"
proof -
  let ?V = "n_id ` set nodes \<union> (\<lambda>e. before_char CHR ''.'' (ed_to e)) ` set es"
  have "card ?V \<le> card (n_id ` set nodes) + card ((\<lambda>e. before_char CHR ''.'' (ed_to e)) ` set es)"
    by (rule card_Un_le)
  also have "\<dots> \<le> length nodes + length es"
    by (intro add_mono) (metis card_image_le card_length finite_set le_trans)+
  finally have "card ?V < Suc (Suc (length nodes + length es)) + card (gray_set \<lparr>df_cycles = [], df_state = [], df_stack = []\<rparr>)"
    by simp
  moreover have "adj_rel (build_adjacency es []) `` ?V \<subseteq> ?V"
    by (auto simp: adj_rel_build data_rel_def)
  ultimately have "\<exists>s'. visits (Suc (Suc (length nodes + length es))) (build_adjacency es []) (map n_id nodes)
        \<lparr>df_cycles = [], df_state = [], df_stack = []\<rparr> = Some s'
      \<and> gray_set s' = gray_set \<lparr>df_cycles = [], df_state = [], df_stack = []\<rparr>"
    by (intro visit_fuel(2) [where V = ?V]) (auto simp: gray_set_def)
  then show ?thesis unfolding cycle_search_def by blast
qed

lemma collectDataCycles_acyclic:
  assumes "collectDataCycles nodes es = []"
    and src: "\<forall>e\<in>set es. before_char CHR ''.'' (ed_from e) \<in> n_id ` set nodes"
  shows "acyclic (data_rel es)"
proof -
  let ?adj = "build_adjacency es []" and ?s = "\<lparr>df_cycles = [], df_state = [], df_stack = []\<rparr>"
  obtain s where s: "cycle_search nodes es = Some s" using cycle_search_total by blast
  with assms(1) have "df_cycles s = []" by (simp add: collectDataCycles_def)
  moreover have "dfs_good ?adj ?s" by (simp add: dfs_good_def done_set_def acyclic_def)
  ultimately have "dfs_good ?adj s" "n_id ` set nodes \<subseteq> done_set s"
    using visit_good(2) [OF s [unfolded cycle_search_def]] by simp_all
  moreover from this(2) src have "data_rel es \<inter> done_set s \<times> UNIV = data_rel es"
    by (auto simp: data_rel_def)
  ultimately show ?thesis by (simp add: dfs_good_def adj_rel_build)
qed

lemma collectDataCycles_cycles: "list_all (is_cycle (data_rel es)) (collectDataCycles nodes es)"
proof -
  let ?adj = "build_adjacency es []" and ?s = "\<lparr>df_cycles = [], df_state = [], df_stack = []\<rparr>"
  obtain s where s: "cycle_search nodes es = Some s" using cycle_search_total by blast
  have "dfs_stack_ok ?adj ?s" by (simp add: dfs_stack_ok_def gray_set_def)
  then have "dfs_stack_ok ?adj s"
    using visit_stack(2) [OF s [unfolded cycle_search_def]] by (simp add: follows_def)
  with s show ?thesis by (simp add: collectDataCycles_def dfs_stack_ok_def adj_rel_build)
qed

end
