(* ===== verification/GraphFacts.thy ===== *)
theory GraphFacts
  imports CycleSearch
begin

text \<open>
  What an accepted definition guarantees, and what the scheduler does with it: the resource rules
  of the browser agree with the validator, an accepted data graph has no cycle, a dispatched node
  has all its inputs, and a graph without control cycles never gets stuck.
\<close>

section \<open>Consequences of acceptance\<close>

lemma find_append: "List.find p (xs @ ys) = (case List.find p xs of None \<Rightarrow> List.find p ys | Some x \<Rightarrow> Some x)"
  by (induction xs) auto

lemma node_map_lookup: "map_of (fold (\<lambda>n. AList.update (n_id n) n) ns m) i =
    (case find_last (\<lambda>n. n_id n = i) ns of None \<Rightarrow> map_of m i | Some n \<Rightarrow> Some n)"
proof (induction ns arbitrary: m)
  case (Cons n ns)
  show ?case
    by (simp add: Cons.IH find_last_def find_append update_conv' split: option.splits)
qed (simp add: find_last_def)

lemma node_map_dom: "map_of (node_map ns) i \<noteq> None \<longleftrightarrow> i \<in> n_id ` set ns"
  by (auto simp: node_map_def node_map_lookup find_last_def find_None_iff split: option.splits
      dest: find_Some_set)

lemma set_indexed: "(\<exists>i. (i, x) \<in> set (indexed xs)) \<longleftrightarrow> x \<in> set xs"
  by (auto simp: indexed_def set_zip in_set_conv_nth)

lemma accepted_edge:
  assumes "validateDefinition d = Inr ()" and "e \<in> set (bd_edges d)"
  shows "\<exists>i. edge_issues (node_map (bd_nodes d)) i e = []"
proof -
  from assms(2) set_indexed obtain i where "(i, e) \<in> set (indexed (bd_edges d))" by metis
  with assms(1) show ?thesis
    by (auto simp: validateDefinition_def definition_issues_def Let_def split: if_splits)
qed

lemma endpoint_parts:
  "parseDataEndpoint v = Some ep \<Longrightarrow>
     CHR ''.'' \<in> set v \<and> ep = (before_char CHR ''.'' v, after_char CHR ''.'' v)
     \<and> slice_before CHR ''.'' v = before_char CHR ''.'' v \<and> slice_after CHR ''.'' v = after_char CHR ''.'' v"
  by (auto simp: parseDataEndpoint_def slice_before_def slice_after_def split: if_splits)

text \<open>An accepted data edge joins an output port and an input port of the same wire type.\<close>

lemma accepted_data_edge:
  assumes "validateDefinition d = Inr ()" and "e \<in> set (bd_edges d)" and "ed_kind e = DataEdge"
  shows "dd_fromNode (dep_of_edge e) \<in> n_id ` set (bd_nodes d)"
    and "data_target e \<in> n_id ` set (bd_nodes d)"
    and "dd_fromNode (dep_of_edge e) = before_char CHR ''.'' (ed_from e)"
    and "data_target e = before_char CHR ''.'' (ed_to e)"
    and "\<exists>t. port_type (node_map (bd_nodes d)) n_outputs (dd_fromNode (dep_of_edge e), dd_fromPort (dep_of_edge e)) = Some t
           \<and> port_type (node_map (bd_nodes d)) n_inputs (data_target e, dd_toPort (dep_of_edge e)) = Some t"
proof -
  from accepted_edge [OF assms(1,2)] assms(3) obtain p where
    ok: "data_edge_issues (node_map (bd_nodes d)) p e = []"
    by (auto simp: edge_issues_def Let_def)
  then obtain src tgt where ep: "parseDataEndpoint (ed_from e) = Some src" "parseDataEndpoint (ed_to e) = Some tgt"
    by (auto simp: data_edge_issues_def Let_def)
  note f = endpoint_parts [OF ep(1)] and t = endpoint_parts [OF ep(2)]
  have src: "map_of (node_map (bd_nodes d)) (fst src) \<noteq> None" "port_type (node_map (bd_nodes d)) n_outputs src \<noteq> None"
    and tgt: "map_of (node_map (bd_nodes d)) (fst tgt) \<noteq> None" "port_type (node_map (bd_nodes d)) n_inputs tgt \<noteq> None"
    using ok ep by (auto simp: data_edge_issues_def endpoint_issues_def Let_def split: if_splits)
  show "dd_fromNode (dep_of_edge e) \<in> n_id ` set (bd_nodes d)" "data_target e \<in> n_id ` set (bd_nodes d)"
    "dd_fromNode (dep_of_edge e) = before_char CHR ''.'' (ed_from e)" "data_target e = before_char CHR ''.'' (ed_to e)"
    using f t src(1) tgt(1) node_map_dom by (auto simp: dep_of_edge_def data_target_def)
  obtain a b where ab: "port_type (node_map (bd_nodes d)) n_outputs src = Some a"
      "port_type (node_map (bd_nodes d)) n_inputs tgt = Some b"
    using src(2) tgt(2) by blast
  with ok ep have "a = b" by (auto simp: data_edge_issues_def Let_def)
  with ab f t show "\<exists>t. port_type (node_map (bd_nodes d)) n_outputs (dd_fromNode (dep_of_edge e), dd_fromPort (dep_of_edge e)) = Some t
       \<and> port_type (node_map (bd_nodes d)) n_inputs (data_target e, dd_toPort (dep_of_edge e)) = Some t"
    by (auto simp: dep_of_edge_def data_target_def)
qed

lemma accepted_control_edge:
  assumes "validateDefinition d = Inr ()" and "e \<in> set (bd_edges d)" and "ed_kind e \<noteq> DataEdge"
  shows "cp_fromNode (parent_of_edge e) \<in> n_id ` set (bd_nodes d)" and "control_target e \<in> n_id ` set (bd_nodes d)"
proof -
  from accepted_edge [OF assms(1,2)] assms(3) obtain p where
    "control_edge_issues (node_map (bd_nodes d)) p e = []"
    by (auto simp: edge_issues_def Let_def)
  then have "map_of (node_map (bd_nodes d)) (cp_fromNode (parent_of_edge e)) \<noteq> None"
    "map_of (node_map (bd_nodes d)) (control_target e) \<noteq> None"
    by (auto simp: control_edge_issues_def Let_def parent_of_edge_def control_target_def split: option.splits if_splits)
  then show "cp_fromNode (parent_of_edge e) \<in> n_id ` set (bd_nodes d)" "control_target e \<in> n_id ` set (bd_nodes d)"
    using node_map_dom by blast+
qed

section \<open>Dependencies as relations\<close>

definition data_dependency :: "blueprint_definition \<Rightarrow> (string \<times> string) set" where
  "data_dependency d = {(dd_fromNode dep, i) | dep i. dep \<in> set (lookup_list (cg_dataDeps (compileGraph d)) i)}"

definition control_dependency :: "blueprint_definition \<Rightarrow> (string \<times> string) set" where
  "control_dependency d = {(cp_fromNode p, i) | p i. p \<in> set (lookup_list (cg_controlParents (compileGraph d)) i)}"

lemma data_dependency_edges:
  "data_dependency d = (\<lambda>e. (dd_fromNode (dep_of_edge e), data_target e)) ` {e \<in> set (bd_edges d). ed_kind e = DataEdge}"
  by (auto simp: data_dependency_def compileGraph_deps)

lemma control_dependency_edges:
  "control_dependency d = (\<lambda>e. (cp_fromNode (parent_of_edge e), control_target e)) ` {e \<in> set (bd_edges d). ed_kind e \<noteq> DataEdge}"
  by (auto simp: control_dependency_def compileGraph_parents)

lemma accepted_data_rel:
  assumes "validateDefinition d = Inr ()"
  shows "data_dependency d = data_rel (filter (\<lambda>e. ed_kind e = DataEdge) (bd_edges d))"
  unfolding data_dependency_edges data_rel_def
  using accepted_data_edge(3,4) [OF assms] by (intro image_cong) auto

lemma accepted_acyclic:
  assumes "validateDefinition d = Inr ()"
  shows "acyclic (data_dependency d)"
proof -
  let ?es = "filter (\<lambda>e. ed_kind e = DataEdge) (bd_edges d)"
  have "collectDataCycles (bd_nodes d) ?es = []"
    using assms by (auto simp: validateDefinition_def definition_issues_def Let_def split: if_splits)
  moreover have "\<forall>e\<in>set ?es. before_char CHR ''.'' (ed_from e) \<in> n_id ` set (bd_nodes d)"
    using accepted_data_edge(1,3) [OF assms] by fastforce
  ultimately show ?thesis unfolding accepted_data_rel [OF assms] by (rule collectDataCycles_acyclic)
qed

section \<open>Progress of the scheduler\<close>

definition run_settles :: "blueprint_definition \<Rightarrow> snapshot \<Rightarrow> bool" where
  "run_settles d sn \<longleftrightarrow>
     (\<forall>n\<in>set (bd_nodes d). stateOf sn (n_id n) \<in> {None, Some ASucceeded, Some ASkipped})
     \<and> (\<forall>n\<in>set (bd_nodes d). n_kind n \<in> {KCondition, KHumanDecision} \<and> stateOf sn (n_id n) = Some ASucceeded \<longrightarrow>
           map_of (sn_decisions sn) (n_id n) \<noteq> None)"

lemma node_map_Some: "map_of (node_map ns) i = Some n \<Longrightarrow> n \<in> set ns \<and> n_id n = i"
  by (auto simp: node_map_def node_map_lookup split: option.splits dest: find_last_Some_set)

lemma settled_parent_resolved:
  assumes ok: "run_settles d sn" and st: "stateOf sn (cp_fromNode p) \<in> {Some ASucceeded, Some ASkipped}"
  shows "parent_resolved (compileGraph d) sn p"
proof (cases "map_of (node_map (bd_nodes d)) (cp_fromNode p)")
  case None
  then have "map_of (cg_nodeById (compileGraph d)) (cp_fromNode p) = None"
    by (simp add: compileGraph_def split: prod.splits)
  with st show ?thesis by (auto simp: parent_resolved_def Let_def)
next
  case (Some n)
  then have "map_of (cg_nodeById (compileGraph d)) (cp_fromNode p) = Some n"
    by (simp add: compileGraph_def split: prod.splits)
  with st ok node_map_Some [OF Some] show ?thesis
    by (auto simp: parent_resolved_def run_settles_def Let_def)
qed

lemma scheduler_not_stuck:
  assumes v: "validateDefinition d = Inr ()"
    and ac: "acyclic (data_dependency d \<union> control_dependency d)"
    and ok: "run_settles d sn"
    and n: "n \<in> set (bd_nodes d)" "stateOf sn (n_id n) = None"
  shows "sr_ready (readyNodes d sn) \<noteq> [] \<or> sr_skipped (readyNodes d sn) \<noteq> []"
proof -
  let ?R = "data_dependency d \<union> control_dependency d"
  have "finite ?R" by (simp add: data_dependency_edges control_dependency_edges)
  with ac have "wf ?R" by (rule finite_acyclic_wf [rotated])
  moreover let ?U = "{i \<in> n_id ` set (bd_nodes d). stateOf sn i = None}"
  have "n_id n \<in> ?U" using n by simp
  ultimately obtain i where i: "i \<in> ?U" "\<And>j. (j, i) \<in> ?R \<Longrightarrow> j \<notin> ?U"
    by (meson wfE_min)
  then obtain m where m: "m \<in> set (bd_nodes d)" "n_id m = i" "stateOf sn (n_id m) = None" by auto
  have settled: "stateOf sn j \<in> {Some ASucceeded, Some ASkipped}" if "(j, i) \<in> ?R" for j
  proof -
    have "j \<in> n_id ` set (bd_nodes d)"
      using that accepted_data_edge(1) [OF v] accepted_control_edge(1) [OF v]
      by (auto simp: data_dependency_edges control_dependency_edges)
    with i(2) [OF that] ok show ?thesis by (auto simp: run_settles_def)
  qed
  have "classify (compileGraph d) sn m \<in> {VReady, VSkipped}"
  proof (rule classify_resolved)
    show "\<forall>dep\<in>set (lookup_list (cg_dataDeps (compileGraph d)) (n_id m)). stateOf sn (dd_fromNode dep) \<in> {Some ASucceeded, Some ASkipped}"
      using settled m(2) by (auto simp: data_dependency_def)
    show "\<forall>p\<in>set (lookup_list (cg_controlParents (compileGraph d)) (n_id m)). parent_resolved (compileGraph d) sn p"
      using settled m(2) settled_parent_resolved [OF ok] by (auto simp: control_dependency_def)
  qed (use m in simp)
  with m(1) show ?thesis by (auto simp: readyNodes_def Let_def filter_empty_conv)
qed

section \<open>The browser's resource rules are the validator's\<close>

lemma resource_rules_agree:
  assumes "resource_ref_ok ref"
  shows "isValidResourceRef ref \<longleftrightarrow> resource_issues refId ref = []"
proof (cases "rr_source ref")
  case None
  with assms show ?thesis
    by (cases "rr_kind ref"; cases "rr_format ref"; cases "rr_path ref")
      (auto simp: isValidResourceRef_def resource_issues_def host_issues_def Let_def portable_def)
next
  case (Some src)
  with assms show ?thesis
    by (cases src; cases "rr_kind ref"; cases "rr_format ref"; cases "rr_path ref")
      (auto simp: isValidResourceRef_def resource_issues_def host_issues_def Let_def resource_ref_ok_def nonblank_def)
qed

end
