(* ===== verification/RunDriver.thy ===== *)
theory RunDriver
  imports Recovery GraphFacts
begin

text \<open>
  The Run driver (\<open>service/run-execution.ts\<close>, \<open>driveRun\<close>): the snapshot it derives from the
  durable Attempts, the decision it takes in one turn of its loop, the reducers it commits, and the
  system of one driver with its concurrent node jobs.
\<close>

section \<open>Snapshot\<close>

text \<open>\<open>if (outcome?.branch)\<close>: a decision is a non-empty branch name in the outcome of a result.\<close>

definition attempt_branch :: "attempt \<Rightarrow> string option" where
  "attempt_branch a =
     Option.bind (a_result a) (\<lambda>res.
       Option.bind (jstr (jfield ''branch'' (o_outcome res))) (\<lambda>b. if b = [] then None else Some b))"

definition attempt_states :: "attempt list \<Rightarrow> attempt_state list dict" where
  "attempt_states as = fold (\<lambda>a. map_append (a_nodeId a) (a_state a)) as []"

definition attempt_decisions :: "attempt list \<Rightarrow> string dict" where
  "attempt_decisions as =
     fold (\<lambda>a ds. case attempt_branch a of None \<Rightarrow> ds | Some b \<Rightarrow> AList.update (a_nodeId a) b ds) as []"

definition drive_snapshot :: "run_record \<Rightarrow> snapshot" where
  "drive_snapshot r =
     \<lparr>sn_attempts = map (\<lambda>(i, sts). \<lparr>nv_nodeId = i, nv_states = sts\<rparr>) (attempt_states (r_attempts r)),
      sn_decisions = attempt_decisions (r_attempts r)\<rparr>"

section \<open>Reducers of the driver\<close>

definition skipped_attempt :: "string \<Rightarrow> string \<Rightarrow> attempt" where
  "skipped_attempt i uuid =
     \<lparr>a_attemptId = ''att-'' @ uuid, a_nodeId = i, a_state = ASkipped, a_attempt = 1, a_intent = None, a_result = None,
      a_sessionId = None, a_childRunId = None, a_messages = None, a_diagnostics = None\<rparr>"

fun skip_attempts :: "(string \<times> string) list \<Rightarrow> attempt list \<Rightarrow> attempt list" where
  "skip_attempts [] as = as"
| "skip_attempts ((i, uuid) # rest) as =
     skip_attempts rest (if list_ex (\<lambda>a. a_nodeId a = i) as then as else as @ [skipped_attempt i uuid])"

definition skip_reducer :: "(string \<times> string) list \<Rightarrow> run_record \<Rightarrow> store_error + run_record" where
  "skip_reducer skipped v =
     (if r_state v = Cancelling then Inr v else Inr (v\<lparr>r_attempts := skip_attempts skipped (r_attempts v)\<rparr>))"

definition wait_reducer :: "string \<Rightarrow> run_record \<Rightarrow> store_error + run_record" where
  "wait_reducer attemptId v =
     (if r_state v = Cancelling then Inr v
      else case List.find (\<lambda>a. a_attemptId a = attemptId) (r_attempts v) of
             None \<Rightarrow> Inl (OtherError ''attempt is undefined'')
           | Some _ \<Rightarrow>
               Inr (v\<lparr>r_state := WaitingInput,
                      r_attempts := update_first (\<lambda>a. a_attemptId a = attemptId) (\<lambda>a. a\<lparr>a_state := AWaitingInput\<rparr>)
                        (r_attempts v)\<rparr>))"

section \<open>One turn of the loop\<close>

record node_settlement =
  ns_terminal :: settlement
  ns_detail :: "json dict"

record completion =
  cm_nodeId :: string
  cm_settlement :: "node_settlement option"
  cm_error :: bool

record driver =
  dr_active :: "string list"
  dr_stop :: "node_settlement option"
  dr_fatal :: bool

definition absorb_one :: "completion \<Rightarrow> driver \<Rightarrow> driver" where
  "absorb_one c drv =
     drv\<lparr>dr_active := removeAll (cm_nodeId c) (dr_active drv),
         dr_fatal := dr_fatal drv \<or> cm_error c,
         dr_stop := (case cm_settlement c of
             None \<Rightarrow> dr_stop drv
           | Some s \<Rightarrow> if dr_stop drv = None \<or> ns_terminal s = ToRecoveryRequired then Some s else dr_stop drv)\<rparr>"

definition absorb :: "completion list \<Rightarrow> driver \<Rightarrow> driver" where
  "absorb cs drv = fold absorb_one cs drv"

text \<open>A failed or timed-out Attempt gives the reason; a cancelled sibling only where there is none.\<close>

definition failed_attempt :: "run_record \<Rightarrow> attempt option" where
  "failed_attempt r =
     (case List.find (\<lambda>a. a_state a = AFailed \<or> a_state a = ATimedOut) (r_attempts r) of
        Some a \<Rightarrow> Some a
      | None \<Rightarrow> List.find (\<lambda>a. a_state a = ACancelled) (r_attempts r))"

definition drive_stop :: "run_record \<Rightarrow> driver \<Rightarrow> node_settlement option" where
  "drive_stop r drv =
     (case dr_stop drv of
        Some s \<Rightarrow> Some s
      | None \<Rightarrow>
          map_option (\<lambda>a. \<lparr>ns_terminal = (if a_state a = ATimedOut then ToTimedOut
                                         else if a_state a = ACancelled then ToCancelled else ToFailed),
                          ns_detail = [(''reason'', JStr ''attempt-settled-non-success'')]\<rparr>) (failed_attempt r))"

definition run_stopped :: "run_state \<Rightarrow> bool" where
  "run_stopped s \<longleftrightarrow> isTerminal s \<or> s = RecoveryRequired"

definition exclusive :: "blueprint_definition \<Rightarrow> string \<Rightarrow> bool" where
  "exclusive d i \<longleftrightarrow>
     (case map_of (cg_nodeById (compileGraph d)) i of
        None \<Rightarrow> False
      | Some n \<Rightarrow> n_kind n = KHumanDecision \<or> n_teamStage n \<noteq> None)"

definition run_complete :: "blueprint_definition \<Rightarrow> run_record \<Rightarrow> bool" where
  "run_complete d r \<longleftrightarrow>
     list_all (\<lambda>n. list_ex (\<lambda>a. a_nodeId a = n_id n \<and> a_state a \<in> {ASucceeded, ASkipped}) (r_attempts r)) (bd_nodes d)"

datatype drive_action =
    AwaitJobs | ThrowFatal | SettleRun settlement "json dict" | CancelTeam | Finish
  | Refuse node_settlement | SkipNodes "string list" | LaunchNode string

text \<open>Whether the turn first requests cancellation because the runtime is closing.\<close>

definition drive_cancels :: "bool \<Rightarrow> run_record \<Rightarrow> bool" where
  "drive_cancels closing r \<longleftrightarrow> closing \<and> \<not> run_stopped (r_state r)"

definition drive_end :: "run_record \<Rightarrow> node_settlement option \<Rightarrow> driver \<Rightarrow> drive_action" where
  "drive_end r stop drv =
     (if dr_active drv \<noteq> [] then AwaitJobs
      else if dr_fatal drv then ThrowFatal
      else case stop of
             Some s \<Rightarrow>
               if ns_terminal s = ToRecoveryRequired then SettleRun ToRecoveryRequired (ns_detail s)
               else if run_stopped (r_state r) then Finish
               else if stage_open (r_teamStage r) then CancelTeam
               else SettleRun (ns_terminal s) (ns_detail s)
           | None \<Rightarrow>
               if run_stopped (r_state r) then Finish
               else if stage_open (r_teamStage r) then CancelTeam
               else SettleRun ToCancelled [(''reason'', JStr ''no-in-flight-effect'')])"

text \<open>
  Admission of the next node: only the first ready node is considered, nothing is admitted while a
  ready or an active node must own the Run alone.
\<close>

definition drive_first :: "blueprint_definition \<Rightarrow> string list \<Rightarrow> string list \<Rightarrow> string option" where
  "drive_first d active ready =
     (if active \<noteq> [] \<and> list_ex (exclusive d) ready then None
      else case ready of [] \<Rightarrow> None | i # _ \<Rightarrow> Some i)"

definition may_launch :: "nat \<Rightarrow> blueprint_definition \<Rightarrow> string list \<Rightarrow> string \<Rightarrow> bool" where
  "may_launch capacity d active i \<longleftrightarrow>
     length active < capacity \<and> \<not> list_ex (exclusive d) active \<and> (\<not> exclusive d i \<or> active = [])"

definition drive_schedule :: "nat \<Rightarrow> blueprint_definition \<Rightarrow> run_record \<Rightarrow> driver \<Rightarrow> drive_action" where
  "drive_schedule capacity d r drv =
     (let schedule = readyNodes d (drive_snapshot r);
          ready = filter (\<lambda>i. i \<notin> set (dr_active drv)) (sr_ready schedule);
          idle = (if dr_active drv \<noteq> [] then AwaitJobs
                  else if run_complete d r then SettleRun ToSucceeded [(''reason'', JStr ''selected-paths-settled'')]
                  else SettleRun ToRecoveryRequired [(''reason'', JStr ''no-safe-progress'')])
      in if sr_skipped schedule \<noteq> [] then SkipNodes (sr_skipped schedule)
         else case drive_first d (dr_active drv) ready of
                None \<Rightarrow> idle
              | Some i \<Rightarrow> if may_launch capacity d (dr_active drv) i then LaunchNode i else idle)"

definition drive_turn :: "bool \<Rightarrow> nat \<Rightarrow> blueprint_definition \<Rightarrow> run_record \<Rightarrow> driver \<Rightarrow> drive_action" where
  "drive_turn closing capacity d r drv =
     (let stop = drive_stop r drv in
      if stop \<noteq> None \<or> dr_fatal drv \<or> run_stopped (r_state r) \<or> r_state r = Cancelling \<or> closing
      then drive_end r stop drv
      else if r_state r = WaitingInput then Finish
      else if list_ex (\<lambda>n. n_teamStage n \<noteq> None) (bd_nodes d) \<and> r_source r = None
      then Refuse \<lparr>ns_terminal = ToFailed, ns_detail = [(''reason'', JStr ''teamstage-executor-unavailable'')]\<rparr>
      else drive_schedule capacity d r drv)"

text \<open>What the turn leaves in the driver's own variables.\<close>

definition drive_after :: "run_record \<Rightarrow> drive_action \<Rightarrow> driver \<Rightarrow> driver" where
  "drive_after r action drv =
     (let drv1 = drv\<lparr>dr_stop := drive_stop r drv\<rparr> in
      case action of
        LaunchNode i \<Rightarrow> drv1\<lparr>dr_active := dr_active drv @ [i]\<rparr>
      | Refuse s \<Rightarrow> drv1\<lparr>dr_stop := Some s\<rparr>
      | _ \<Rightarrow> drv1)"

text \<open>
  The loop: every turn absorbs the jobs that completed since the last one, reads whatever record is
  durable at that moment, and acts. Other writers run between the turns, so the record is arbitrary.
\<close>

inductive drive_loop :: "nat \<Rightarrow> blueprint_definition \<Rightarrow> driver \<Rightarrow> bool" for capacity d where
  loop_start: "drive_loop capacity d \<lparr>dr_active = [], dr_stop = None, dr_fatal = False\<rparr>"
| loop_turn: "drive_loop capacity d drv \<Longrightarrow> drv1 = absorb done drv \<Longrightarrow>
    drive_loop capacity d (drive_after r (drive_turn closing capacity d r drv1) drv1)"

text \<open>The prologue of \<open>driveRun\<close> and the receipt of a driver that failed.\<close>

definition drive_admission :: "string \<Rightarrow> (nat \<Rightarrow> int) \<Rightarrow> domain \<Rightarrow> (store_error + bool) \<times> domain" where
  "drive_admission runId clk dm =
     (case get_run runId dm of
        Inl e \<Rightarrow> (Inl e, dm)
      | Inr admitted \<Rightarrow>
          if r_bindingAdmission admitted \<noteq> Some AdmissionPending then (Inr True, dm)
          else if run_stopped (r_state admitted) then (Inr False, dm)
          else case settleTerminal runId ToRecoveryRequired [(''reason'', JStr ''admission-incomplete'')] clk dm of
                 (Inl e, dm') \<Rightarrow> (Inl e, dm')
               | (Inr _, dm') \<Rightarrow> (Inr False, dm'))"

definition driver_failed :: "string \<Rightarrow> (nat \<Rightarrow> int) \<Rightarrow> domain \<Rightarrow> (store_error + run_record) \<times> domain" where
  "driver_failed runId clk dm =
     (case get_run runId dm of
        Inl e \<Rightarrow> (Inl e, dm)
      | Inr r \<Rightarrow>
          if run_stopped (r_state r) then (Inr r, dm)
          else settleTerminal runId
                 (if list_ex (\<lambda>a. a_intent a \<noteq> None \<and> a_result a = None \<and> a_state a \<noteq> AWaitingInput) (r_attempts r)
                  then ToRecoveryRequired else ToFailed)
                 [(''reason'', JStr ''driver-failed'')] clk dm)"

section \<open>The reducers meet the contract\<close>

lemma skip_attempts_append: "\<exists>new. skip_attempts xs as = as @ new"
proof (induction xs as rule: skip_attempts.induct)
  case (2 i uuid rest as)
  then show ?case by (cases "list_ex (\<lambda>a. a_nodeId a = i) as") auto
qed simp

lemma skip_attempts_wf: "attempts_wf n as \<Longrightarrow> attempts_wf n (skip_attempts xs as)"
proof (induction xs as rule: skip_attempts.induct)
  case (2 i uuid rest as)
  have "attempts_wf n (as @ [skipped_attempt i uuid])" if "\<not> list_ex (\<lambda>a. a_nodeId a = i) as"
    using 2(2) that by (intro attempts_wf_snoc) (auto simp: skipped_attempt_def attempt_wf_def list_ex_iff)
  with 2 show ?case by simp
qed simp

interpretation skip_red: run_reducer "skip_reducer skipped" for skipped
proof
  fix v w
  assume r: "skip_reducer skipped v = Inr w"
  obtain new where new: "skip_attempts skipped (r_attempts v) = r_attempts v @ new"
    using skip_attempts_append by blast
  show "draft_ok v w"
  proof (rule draft_okI)
    show "attempts_evolve (r_attempts v) (r_attempts w)"
      using r new by (auto simp: skip_reducer_def attempts_evolve_append split: if_splits)
    show "attempts_wf (Suc (r_seq v)) (r_attempts w)" if "attempts_wf (r_seq v) (r_attempts v)"
      using r attempts_wf_mono [OF that] skip_attempts_wf by (auto simp: skip_reducer_def split: if_splits)
  qed (use r in \<open>auto simp: skip_reducer_def reducer_facts split: if_splits\<close>)
qed

text \<open>
  The waiting reducer does not look at the Attempt it moves: it keeps the contract where that
  Attempt is not settled, which is how the driver calls it.
\<close>

interpretation wait_red: run_reducer
  "\<lambda>v. if attempt_open attemptId v then wait_reducer attemptId v else Inl AttemptSettledError" for attemptId
proof
  fix v w
  assume "(if attempt_open attemptId v then wait_reducer attemptId v else Inl AttemptSettledError) = Inr w"
  then have r: "wait_reducer attemptId v = Inr w" and "attempt_open attemptId v" by (auto split: if_splits)
  then have o: "\<not> attempt_settled a" if "List.find (\<lambda>a. a_attemptId a = attemptId) (r_attempts v) = Some a" for a
    using that by (simp add: attempt_open_def)
  show "draft_ok v w"
  proof (rule draft_okI)
    show "attempts_evolve (r_attempts v) (r_attempts w)"
      using r o by (auto simp: wait_reducer_def intro!: attempts_evolve_update attempt_evolves_open split: if_splits option.splits)
    show "attempts_wf (Suc (r_seq v)) (r_attempts w)" if "attempts_wf (r_seq v) (r_attempts v)"
    proof -
      have "attempts_wf (Suc (r_seq v)) (update_first (\<lambda>a. a_attemptId a = attemptId) (\<lambda>a. a\<lparr>a_state := AWaitingInput\<rparr>) (r_attempts v))"
        by (rule attempts_wf_update [OF that]) (simp_all add: attempt_wf_wait o)
      with r that show ?thesis
        by (auto simp: wait_reducer_def intro: attempts_wf_mono split: if_splits option.splits)
    qed
  qed (use r in \<open>auto simp: wait_reducer_def reducer_facts split: if_splits option.splits\<close>)
qed

end
