(* ===== verification/NodeSessions.thy ===== *)
theory NodeSessions
  imports RunStore Definition
begin

text \<open>
  The reducers that keep node sessions and child Runs inside their Attempt: the managed inbox of a
  live Agent node (\<open>service/managed-node-session.ts\<close>), the identity of a child Run reserved before
  it is created (\<open>service/child-run-execution.ts\<close>), and the frozen composition (\<open>index.ts\<close>).
\<close>

section \<open>Managed node messages\<close>

record message_args =
  ma_runId :: string
  ma_attemptId :: string
  ma_sessionId :: string
  ma_requestId :: string
  ma_delivery :: string
  ma_text :: string

text \<open>
  A live node as an observation sees it: \<open>ln_current\<close> is whether the host registry still holds this
  Agent under the session id.
\<close>

record live_node =
  ln_runId :: string
  ln_attemptId :: string
  ln_accepting :: bool
  ln_aborted :: bool
  ln_current :: bool

definition managed_node :: "blueprint_definition \<Rightarrow> string \<Rightarrow> bool" where
  "managed_node d i \<longleftrightarrow> (case List.find (\<lambda>n. n_id n = i) (bd_nodes d) of None \<Rightarrow> False | Some n \<Rightarrow> n_interaction n)"

definition active_attempt :: "message_args \<Rightarrow> run_record \<Rightarrow> store_error + attempt" where
  "active_attempt q r =
     (case decodeDefinition (r_definitionJson r) of
        Inl _ \<Rightarrow> Inl (OtherError ''invalid definition'')
      | Inr d \<Rightarrow>
          (case List.find (\<lambda>a. a_attemptId a = ma_attemptId q \<and> a_sessionId a = Some (ma_sessionId q)) (r_attempts r) of
             None \<Rightarrow> Inl (ManagedNodeError ''node-not-active'')
           | Some a \<Rightarrow>
               throw_if (r_state r \<noteq> Running \<or> a_result a \<noteq> None \<or> a_state a \<notin> {ARunning, AWaitingInput}
                         \<or> \<not> managed_node d (a_nodeId a))
                 (ManagedNodeError ''node-not-active'') (Inr a)))"

definition assert_live :: "live_node \<Rightarrow> store_error + unit" where
  "assert_live l =
     throw_if (\<not> ln_accepting l \<or> ln_aborted l) (ManagedNodeError ''node-not-active'')
       (throw_if (\<not> ln_current l) (ManagedNodeError ''node-session-unavailable'') (Inr ()))"

definition pending_reducer ::
  "live_node \<Rightarrow> message_args \<Rightarrow> string \<Rightarrow> string \<Rightarrow> int \<Rightarrow> run_record \<Rightarrow> store_error + run_record" where
  "pending_reducer l q digest messageId now v =
     ebind (assert_live l) (\<lambda>_.
     ebind (active_attempt q v) (\<lambda>_.
       Inr (v\<lparr>r_attempts := update_first
          (\<lambda>a. a_attemptId a = ma_attemptId q \<and> a_sessionId a = Some (ma_sessionId q))
          (\<lambda>a. a\<lparr>a_messages := Some (attempt_messages a @ [\<lparr>msg_requestId = ma_requestId q, msg_digest = digest,
                   msg_messageId = messageId, msg_state = MsgPending, msg_at = now\<rparr>]),
                 a_state := ARunning\<rparr>) (r_attempts v)\<rparr>)))"

definition accept_reducer :: "message_args \<Rightarrow> string \<Rightarrow> run_record \<Rightarrow> store_error + run_record" where
  "accept_reducer q messageId v =
     (case Option.bind (List.find (\<lambda>a. a_attemptId a = ma_attemptId q) (r_attempts v))
             (\<lambda>a. List.find (\<lambda>m. msg_requestId m = ma_requestId q) (attempt_messages a)) of
        None \<Rightarrow> Inl (ManagedNodeError ''node-message-unknown'')
      | Some m \<Rightarrow>
          throw_if (msg_messageId m \<noteq> messageId) (ManagedNodeError ''node-message-unknown'')
          (Inr (v\<lparr>r_attempts := update_first (\<lambda>a. a_attemptId a = ma_attemptId q)
             (\<lambda>a. a\<lparr>a_messages := Some (update_first (\<lambda>m. msg_requestId m = ma_requestId q)
                      (\<lambda>m. m\<lparr>msg_state := MsgAccepted\<rparr>) (attempt_messages a))\<rparr>) (r_attempts v)\<rparr>)))"

record message_receipt =
  mr_messageId :: string
  mr_replayed :: bool

text \<open>
  The environment of one call: the live node as seen on entry, when the reducer runs and before
  delivery; other operations may commit between the steps (\<open>me_between\<close>); the native inbox call
  with its flush may throw (\<open>me_deliver\<close>) and is where the message leaves the store.
\<close>

record message_env =
  me_sha :: "json \<Rightarrow> string"
  me_entry :: "live_node option"
  me_reduce :: live_node
  me_before :: live_node
  me_between :: "domain \<Rightarrow> domain"
  me_deliver :: "domain \<Rightarrow> bool \<times> domain"

record message_result =
  mx_outcome :: "store_error + message_receipt"
  mx_delivered :: bool
  mx_uncertain :: bool

definition refused :: "store_error \<Rightarrow> message_result" where
  "refused e = \<lparr>mx_outcome = Inl e, mx_delivered = False, mx_uncertain = False\<rparr>"

definition message_digest :: "(json \<Rightarrow> string) \<Rightarrow> message_args \<Rightarrow> string" where
  "message_digest sha q = sha (JArr [JStr (ma_delivery q), JStr (ma_text q)])"

definition unknown_delivery :: message_result where
  "unknown_delivery = \<lparr>mx_outcome = Inl (ManagedNodeError ''node-message-unknown''), mx_delivered = True, mx_uncertain = True\<rparr>"

definition deliver_message ::
  "message_env \<Rightarrow> message_args \<Rightarrow> string \<Rightarrow> (nat \<Rightarrow> int) \<Rightarrow> domain \<Rightarrow> message_result \<times> domain" where
  "deliver_message env q messageId clk d =
     (case ebind (get_run (ma_runId q) d) (\<lambda>r. ebind (active_attempt q r) (\<lambda>_. assert_live (me_before env))) of
        Inl e \<Rightarrow> (refused e, d)
      | Inr _ \<Rightarrow>
          (case me_deliver env d of
             (False, d1) \<Rightarrow> (unknown_delivery, d1)
           | (True, d1) \<Rightarrow>
               (case transition (ma_runId q) (clk 2) (accept_reducer q messageId) d1 of
                  (Inl _, d2) \<Rightarrow> (unknown_delivery, d2)
                | (Inr _, d2) \<Rightarrow> (\<lparr>mx_outcome = Inr \<lparr>mr_messageId = messageId, mr_replayed = False\<rparr>,
                                 mx_delivered = True, mx_uncertain = False\<rparr>, d2))))"

definition message ::
  "message_env \<Rightarrow> message_args \<Rightarrow> string \<Rightarrow> (nat \<Rightarrow> int) \<Rightarrow> domain \<Rightarrow> message_result \<times> domain" where
  "message env q messageId clk d =
     (case ebind (get_run (ma_runId q) d) (active_attempt q) of
        Inl e \<Rightarrow> (refused e, d)
      | Inr _ \<Rightarrow>
          (case me_entry env of
             None \<Rightarrow> (refused (ManagedNodeError ''node-session-unavailable''), d)
           | Some l \<Rightarrow>
               if ln_runId l \<noteq> ma_runId q \<or> ln_attemptId l \<noteq> ma_attemptId q
               then (refused (ManagedNodeError ''node-session-unavailable''), d)
               else case ebind (assert_live l) (\<lambda>_. ebind (get_run (ma_runId q) d) (active_attempt q)) of
                      Inl e \<Rightarrow> (refused e, d)
                    | Inr a \<Rightarrow>
                        (case List.find (\<lambda>m. msg_requestId m = ma_requestId q) (attempt_messages a) of
                           Some prior \<Rightarrow>
                             if msg_digest prior \<noteq> message_digest (me_sha env) q
                             then (refused (ManagedNodeError ''command-conflict''), d)
                             else if msg_state prior \<noteq> MsgAccepted
                             then (refused (ManagedNodeError ''node-message-unknown''), d)
                             else (\<lparr>mx_outcome = Inr \<lparr>mr_messageId = msg_messageId prior, mr_replayed = True\<rparr>,
                                    mx_delivered = False, mx_uncertain = False\<rparr>, d)
                         | None \<Rightarrow>
                             (case transition (ma_runId q) (clk 1)
                                     (pending_reducer (me_reduce env) q (message_digest (me_sha env) q) messageId (clk 0)) d of
                                (Inl e, d1) \<Rightarrow> (refused e, d1)
                              | (Inr _, d1) \<Rightarrow> deliver_message env q messageId clk (me_between env d1)))))"

text \<open>The binding's \<open>waiting\<close>: an idle live node is shown as waiting for input.\<close>

definition idle_reducer :: "bool \<Rightarrow> bool \<Rightarrow> string \<Rightarrow> run_record \<Rightarrow> store_error + run_record" where
  "idle_reducer live idle attemptId v =
     (if live \<and> r_state v = Running then
        (case List.find (\<lambda>a. a_attemptId a = attemptId) (r_attempts v) of
           None \<Rightarrow> Inl (OtherError ''attempt is undefined'')
         | Some a \<Rightarrow>
             if a_result a = None \<and> idle
             then Inr (v\<lparr>r_attempts := update_first (\<lambda>a. a_attemptId a = attemptId)
                    (\<lambda>a. a\<lparr>a_state := AWaitingInput\<rparr>) (r_attempts v)\<rparr>)
             else Inr v)
      else Inr v)"

section \<open>Child Runs and the frozen composition\<close>

definition child_reducer :: "bool \<Rightarrow> string \<Rightarrow> string \<Rightarrow> run_record \<Rightarrow> store_error + run_record" where
  "child_reducer aborted attemptId uuid v =
     (case List.find (\<lambda>a. a_attemptId a = attemptId) (r_attempts v) of
        None \<Rightarrow> Inl AttemptSettledError
      | Some a \<Rightarrow>
          throw_if (r_state v \<noteq> Running \<or> aborted \<or> a_intent a = None \<or> a_result a \<noteq> None) AttemptSettledError
          (Inr (v\<lparr>r_attempts := update_first (\<lambda>a. a_attemptId a = attemptId)
             (\<lambda>a. a\<lparr>a_childRunId := (case a_childRunId a of Some c \<Rightarrow> Some c | None \<Rightarrow> Some (''run-'' @ uuid))\<rparr>)
             (r_attempts v)\<rparr>)))"

definition composition_reducer :: "frozen_blueprint list \<Rightarrow> run_record \<Rightarrow> store_error + run_record" where
  "composition_reducer composition v = Inr (v\<lparr>r_composition := Some composition\<rparr>)"

section \<open>The reducers meet the contract\<close>

lemma attempts_edit_draft:
  assumes w: "w = v\<lparr>r_attempts := update_first p f (r_attempts v)\<rparr>"
    and e: "\<And>a. List.find p (r_attempts v) = Some a \<Longrightarrow> attempt_evolves a (f a)"
    and wf: "\<And>a. List.find p (r_attempts v) = Some a \<Longrightarrow> attempt_wf (r_seq v) a \<Longrightarrow> attempt_wf (Suc (r_seq v)) (f a)"
    and n: "\<And>a. a_nodeId (f a) = a_nodeId a"
  shows "draft_ok v w"
proof (rule draft_okI)
  show "attempts_evolve (r_attempts v) (r_attempts w)" using e by (simp add: w attempts_evolve_update)
  show "attempts_wf (Suc (r_seq v)) (r_attempts w)" if "attempts_wf (r_seq v) (r_attempts v)"
    unfolding w by simp (rule attempts_wf_update [OF that], simp_all add: wf n)
qed (simp_all add: w reducer_facts)

lemma attempt_wf_detail:
  "attempt_wf n a \<Longrightarrow> a_intent b = a_intent a \<Longrightarrow> a_result b = a_result a \<Longrightarrow> a_state b = a_state a \<Longrightarrow> attempt_wf (Suc n) b"
  using attempt_wf_mono [of n a "Suc n"] by (cases "a_intent a") (simp_all add: attempt_wf_def)

interpretation pending_red: run_reducer "pending_reducer l q digest mid now" for l q digest mid now
proof
  fix v w
  assume r: "pending_reducer l q digest mid now v = Inr w"
  let ?p = "\<lambda>a. a_attemptId a = ma_attemptId q \<and> a_sessionId a = Some (ma_sessionId q)"
  from r obtain x where "active_attempt q v = Inr x" by (auto simp: pending_reducer_def ebind_Inr)
  then have o: "\<not> attempt_settled a" if "List.find ?p (r_attempts v) = Some a" for a
    using that by (auto simp: active_attempt_def attempt_settled_def split: sum.splits option.splits)
  from r have w: "w = v\<lparr>r_attempts := update_first ?p
      (\<lambda>a. a\<lparr>a_messages := Some (attempt_messages a @ [\<lparr>msg_requestId = ma_requestId q, msg_digest = digest,
           msg_messageId = mid, msg_state = MsgPending, msg_at = now\<rparr>]), a_state := ARunning\<rparr>) (r_attempts v)\<rparr>"
    by (auto simp: pending_reducer_def ebind_Inr)
  show "draft_ok v w"
  proof (rule attempts_edit_draft [OF w])
    fix a
    assume "List.find ?p (r_attempts v) = Some a"
    then have u: "\<not> attempt_settled a" by (rule o)
    then show "attempt_evolves a (a\<lparr>a_messages := Some (attempt_messages a @ ms), a_state := ARunning\<rparr>)" for ms
      by (auto simp: attempt_evolves_def message_list_def message_evolves_def intro!: list_evolves_append)
    show "attempt_wf (Suc (r_seq v)) (a\<lparr>a_messages := ms, a_state := ARunning\<rparr>)" if "attempt_wf (r_seq v) a" for ms
      by (rule attempt_wf_open [OF that u]) (use u in \<open>auto simp: attempt_settled_def\<close>)
  qed simp
qed

interpretation accept_red: run_reducer "accept_reducer q mid" for q mid
proof
  fix v w
  assume "accept_reducer q mid v = Inr w"
  then have w: "w = v\<lparr>r_attempts := update_first (\<lambda>a. a_attemptId a = ma_attemptId q)
      (\<lambda>a. a\<lparr>a_messages := Some (update_first (\<lambda>m. msg_requestId m = ma_requestId q)
          (\<lambda>m. m\<lparr>msg_state := MsgAccepted\<rparr>) (attempt_messages a))\<rparr>) (r_attempts v)\<rparr>"
    by (auto simp: accept_reducer_def split: option.splits)
  have "list_evolves message_evolves ms (update_first p (\<lambda>m. m\<lparr>msg_state := MsgAccepted\<rparr>) ms)" for ms p
    by (rule list_evolves_update) (simp_all add: message_evolves_def)
  then show "draft_ok v w"
    by (intro attempts_edit_draft [OF w]) (auto simp: attempt_evolves_def message_list_def intro: attempt_wf_detail)
qed

text \<open>The idle reducer checks the result only: it keeps the contract where the Attempt is not settled.\<close>

interpretation idle_red: run_reducer
  "\<lambda>v. if attempt_open attemptId v then idle_reducer live idle attemptId v else Inl AttemptSettledError"
  for attemptId live idle
proof
  fix v w
  assume r: "(if attempt_open attemptId v then idle_reducer live idle attemptId v else Inl AttemptSettledError) = Inr w"
  then have "w = v \<or> w = v\<lparr>r_attempts := update_first (\<lambda>a. a_attemptId a = attemptId)
      (\<lambda>a. a\<lparr>a_state := AWaitingInput\<rparr>) (r_attempts v)\<rparr>"
    by (cases "List.find (\<lambda>a. a_attemptId a = attemptId) (r_attempts v)")
      (simp_all add: idle_reducer_def eq_commute [of w] split: if_splits)
  then show "draft_ok v w"
  proof (rule disjE)
    assume "w = v"
    then show ?thesis by (auto simp: reducer_facts attempts_wf_mono intro!: draft_okI)
  next
    assume 2: "w = v\<lparr>r_attempts := update_first (\<lambda>a. a_attemptId a = attemptId)
      (\<lambda>a. a\<lparr>a_state := AWaitingInput\<rparr>) (r_attempts v)\<rparr>"
    from r have o: "\<not> attempt_settled a" if "List.find (\<lambda>a. a_attemptId a = attemptId) (r_attempts v) = Some a" for a
      using that by (auto simp: attempt_open_def split: if_splits)
    show ?thesis
      by (rule attempts_edit_draft [OF 2]) (simp_all add: attempt_wf_wait attempt_evolves_open o)
  qed
qed

interpretation child_red: run_reducer "child_reducer aborted attemptId uuid" for aborted attemptId uuid
proof
  fix v w
  assume "child_reducer aborted attemptId uuid v = Inr w"
  then have w: "w = v\<lparr>r_attempts := update_first (\<lambda>a. a_attemptId a = attemptId)
      (\<lambda>a. a\<lparr>a_childRunId := (case a_childRunId a of Some c \<Rightarrow> Some c | None \<Rightarrow> Some (''run-'' @ uuid))\<rparr>)
      (r_attempts v)\<rparr>"
    by (auto simp: child_reducer_def split: option.splits)
  show "draft_ok v w"
    by (rule attempts_edit_draft [OF w]) (auto simp: attempt_evolves_def intro: attempt_wf_detail)
qed

interpretation composition_red: run_reducer "composition_reducer c" for c
  by unfold_locales (auto simp: composition_reducer_def reducer_facts attempts_wf_mono intro!: draft_okI)

end
