(* ===== verification/RunHistory.thy ===== *)
theory RunHistory
  imports TeamContract RunDriver NodeSessions
begin

text \<open>
  Histories of the store: every operation of the components as a step on the durable domain, and
  what holds between any two durable versions of one Run, whatever operations ran between them, in
  whatever order, with faulty writes and restarts.
\<close>

section \<open>What one step may do to a Run\<close>

definition record_step :: "run_record \<Rightarrow> run_record \<Rightarrow> bool" where
  "record_step v w \<longleftrightarrow> run_evolves v w \<and> stage_step (r_teamStage v) (r_teamStage w) \<and> (run_wf v \<longrightarrow> run_wf w)"

text \<open>A Run as \<open>createRun\<close> publishes it.\<close>

definition born :: "run_record \<Rightarrow> bool" where
  "born b \<longleftrightarrow> r_seq b = 0 \<and> r_state b = Queued \<and> r_attempts b = [] \<and> r_teamStage b = None \<and> run_wf b"

definition domain_step :: "domain \<Rightarrow> domain \<Rightarrow> bool" where
  "domain_step d d' \<longleftrightarrow>
     (\<forall>j. (\<forall>v. stored d j = Some v \<longrightarrow> (\<exists>w. stored d' j = Some w \<and> record_step v w))
        \<and> (\<forall>w. stored d j = None \<longrightarrow> stored d' j = Some w \<longrightarrow> (\<exists>b. born b \<and> record_step b w)))"

lemma record_step_refl [simp]: "record_step v v"
  by (simp add: record_step_def)

lemma record_step_trans: "record_step u v \<Longrightarrow> record_step v w \<Longrightarrow> record_step u w"
  by (auto simp: record_step_def intro: run_evolves_trans stage_step_trans)

lemma domain_step_refl [simp]: "domain_step d d"
  unfolding domain_step_def using record_step_refl by simp

lemma domain_step_rows: "(\<And>j. stored d' j = stored d j) \<Longrightarrow> domain_step d d'"
  unfolding domain_step_def using record_step_refl by auto

lemma domain_step_trans:
  assumes "domain_step d e" "domain_step e f"
  shows "domain_step d f"
  unfolding domain_step_def
proof (intro allI conjI impI)
  fix j v
  assume "stored d j = Some v"
  with assms show "\<exists>w. stored f j = Some w \<and> record_step v w"
    unfolding domain_step_def by (meson record_step_trans)
next
  fix j w
  assume n: "stored d j = None" and w: "stored f j = Some w"
  show "\<exists>b. born b \<and> record_step b w"
  proof (cases "stored e j")
    case None
    with w assms(2) show ?thesis by (auto simp: domain_step_def)
  next
    case (Some x)
    with n assms(1) obtain b where "born b" "record_step b x"
      unfolding domain_step_def by blast
    moreover from Some w assms(2) have "record_step x w" by (fastforce simp: domain_step_def)
    ultimately show ?thesis by (blast intro: record_step_trans)
  qed
qed

text \<open>
  The steps of every operation except \<open>createRun\<close>: no Run appears and the commands are untouched.
\<close>

definition quiet_step :: "domain \<Rightarrow> domain \<Rightarrow> bool" where
  "quiet_step d d' \<longleftrightarrow>
     (\<forall>j. (\<forall>v. stored d j = Some v \<longrightarrow> (\<exists>w. stored d' j = Some w \<and> record_step v w))
        \<and> (stored d j = None \<longrightarrow> stored d' j = None))
     \<and> t_rows (d_commands d') = t_rows (d_commands d)"

lemma quiet_step_domain: "quiet_step d d' \<Longrightarrow> domain_step d d'"
  unfolding quiet_step_def domain_step_def by (metis option.distinct(1))

lemma quiet_step_refl [simp]: "quiet_step d d"
  unfolding quiet_step_def using record_step_refl by simp

lemma quiet_step_rows:
  "(\<And>j. stored d' j = stored d j) \<Longrightarrow> t_rows (d_commands d') = t_rows (d_commands d) \<Longrightarrow> quiet_step d d'"
  unfolding quiet_step_def using record_step_refl by auto

lemma quiet_step_trans: "quiet_step d e \<Longrightarrow> quiet_step e f \<Longrightarrow> quiet_step d f"
  unfolding quiet_step_def by (intro conjI, meson record_step_trans, simp)

text \<open>The tables besides the Runs do not count.\<close>

lemma stored_runs: "d_runs d' = d_runs d \<Longrightarrow> stored d' j = stored d j"
  by (simp add: stored_def)

section \<open>Transitions\<close>

lemma run_wf_transform: "run_wf (run_record_transform w) \<longleftrightarrow> run_wf w"
  by (simp add: run_wf_def)

lemma applyTransition_step:
  assumes red: "run_reducer red" and tr: "applyTransition rid now rp red d = (res, d')"
    and st: "\<And>v w. stored d rid = Some v \<Longrightarrow> rp v = Inr False \<Longrightarrow> red v = Inr w \<Longrightarrow>
                stage_step (r_teamStage v) (r_teamStage w)"
  shows "quiet_step d d'"
proof -
  from run_reducer.applyTransition_stored [OF red tr]
  have other: "\<And>j. j \<noteq> rid \<Longrightarrow> stored d' j = stored d j"
    and this_run: "stored d' rid = stored d rid
        \<or> (\<exists>v w. stored d rid = Some v \<and> commit rid now rp red (Some v) = Inr w
             \<and> stored d' rid = Some (run_record_transform w))"
    by blast+
  have tables: "t_rows (d_commands d') = t_rows (d_commands d)" using applyTransition_tables [OF tr] by simp
  from this_run show ?thesis
  proof (elim disjE exE conjE)
    assume "stored d' rid = stored d rid"
    with other tables show ?thesis by (intro quiet_step_rows) metis+
  next
    fix v w
    assume v: "stored d rid = Some v" and c: "commit rid now rp red (Some v) = Inr w"
      and w: "stored d' rid = Some (run_record_transform w)"
    from c obtain x where x: "red v = Inr x" "rp v = Inr False" "r_teamStage w = r_teamStage x"
      by (auto simp: commit_def split: sum.splits if_splits)
    from run_reducer.commit_evolves [OF red c] run_reducer.commit_wf [OF red c] st [OF v x(2,1)] x(3)
    have "record_step v (run_record_transform w)" by (simp add: record_step_def run_wf_transform)
    with v w other record_step_refl tables show ?thesis
      unfolding quiet_step_def by (metis option.distinct(1) option.inject)
  qed
qed

lemma transition_step:
  assumes "run_reducer red" and "transition rid now red d = (res, d')"
    and "\<And>v w. stored d rid = Some v \<Longrightarrow> red v = Inr w \<Longrightarrow> stage_step (r_teamStage v) (r_teamStage w)"
  shows "quiet_step d d'"
  using assms unfolding transition_def by (rule applyTransition_step)

text \<open>The stage after a reducer that ends in \<open>put_stage\<close>.\<close>

lemma put_stage_step:
  "put_stage v s' es = Inr w \<Longrightarrow> stage_evolves s s' \<Longrightarrow> stage_step (Some s) (r_teamStage w)"
  by (auto simp: put_stage_Inr stage_step_def)

lemma transition_cong:
  assumes "\<And>v. stored d rid = Some v \<Longrightarrow> red v = red' v"
  shows "transition rid now red d = transition rid now red' d"
proof (cases "t_closed (d_runs d)")
  case True
  then show ?thesis
    using runs_get_closed by (auto simp: transition_def applyTransition_def runs_update_def table_update_def table_get_def)
next
  case False
  have "commit rid now no_replay red cur = commit rid now no_replay red' cur" if "runs_get (d_runs d) rid = Inr cur" for cur
    using that assms False by (cases cur) (auto simp: commit_def stored_open no_replay_def)
  then show ?thesis
    by (simp add: transition_def applyTransition_def runs_update_def table_update_def runs_get_def split: sum.splits)
qed

section \<open>The Run operations are steps\<close>

lemma new_run_born: "born (run_record_transform (new_run request key dr dj inp m i now))"
  by (simp add: born_def run_wf_transform) (simp add: new_run_def run_wf_def attempts_wf_def LOG_CAP_def)

lemma stored_get: "\<not> t_closed (d_runs d) \<Longrightarrow> stored d j = (case runs_get (d_runs d) j of Inl _ \<Rightarrow> None | Inr r \<Rightarrow> r)"
proof -
  assume "\<not> t_closed (d_runs d)"
  then have "(d_runs d)\<lparr>t_closed := False\<rparr> = d_runs d" by simp
  then show ?thesis by (simp add: stored_def)
qed

lemma runs_put_step:
  assumes put: "runs_put (d_runs d) i (new_run request key dr dj inp m i now) = (r, d_runs d')" and "stored d i = None"
  shows "domain_step d d'"
proof (cases "t_closed (d_runs d)")
  case True
  with put show ?thesis by (auto dest: runs_put_closed intro: domain_step_rows stored_runs)
next
  case False
  with runs_put_open [OF put] have o: "\<not> t_closed (d_runs d')" by simp
  have other: "stored d' j = stored d j" if "j \<noteq> i" for j
    using runs_kv.put_other [OF put that] False o by (simp add: stored_get)
  have new: "\<exists>b. born b \<and> record_step b w" if "stored d' i = Some w" for w
  proof -
    from that o have "runs_get (d_runs d') i = Inr (Some w)" by (simp add: stored_open)
    from runs_kv.put_rows [OF put this] assms(2) False
    have "w = run_record_transform (new_run request key dr dj inp m i now)" by (auto simp: stored_open [symmetric])
    with new_run_born record_step_refl show ?thesis by blast
  qed
  show ?thesis unfolding domain_step_def
  proof (intro allI conjI impI)
    fix j v assume "stored d j = Some v"
    with other assms(2) record_step_refl show "\<exists>w. stored d' j = Some w \<and> record_step v w"
      by (metis option.distinct(1))
  next
    fix j w assume "stored d j = None" "stored d' j = Some w"
    with other new show "\<exists>b. born b \<and> record_step b w" by (metis option.distinct(1))
  qed
qed

lemma createRun_runs:
  assumes "createRun request dr dj inp m uuid clk d = (res, d')"
  obtains (kept) "d_runs d' = d_runs d"
  | (put) i r key now where "runs_put (d_runs d) i (new_run request key dr dj inp m i now) = (r, d_runs d')"
      "i = (case md_reservedRunId m of Some rid \<Rightarrow> rid | None \<Rightarrow> ''run-'' @ uuid)"
      "md_reservedRunId m \<noteq> None \<longrightarrow> runs_get (d_runs d) i = Inr None"
  using assms
  by (fastforce simp: createRun_def createRunSerial_def Let_def split: if_splits prod.splits sum.splits option.splits)

lemma createRun_fresh:
  assumes fresh: "md_reservedRunId m = None \<Longrightarrow> stored d (''run-'' @ uuid) = None"
    and i: "i = (case md_reservedRunId m of Some rid \<Rightarrow> rid | None \<Rightarrow> ''run-'' @ uuid)"
    and r: "md_reservedRunId m \<noteq> None \<longrightarrow> runs_get (d_runs d) i = Inr None"
  shows "stored d i = None"
proof (cases "md_reservedRunId m")
  case None with fresh i show ?thesis by simp
next
  case (Some rid)
  with r have g: "runs_get (d_runs d) i = Inr None" by simp
  then have "\<not> t_closed (d_runs d)" using runs_get_closed [of "d_runs d" i] by auto
  with g show ?thesis by (simp add: stored_get)
qed

lemma createRun_step:
  assumes c: "createRun request dr dj inp m uuid clk d = (res, d')"
    and fresh: "md_reservedRunId m = None \<Longrightarrow> stored d (''run-'' @ uuid) = None"
  shows "domain_step d d'"
  using c
proof (cases rule: createRun_runs)
  case kept
  then show ?thesis by (intro domain_step_rows stored_runs)
next
  case (put i r key now)
  from createRun_fresh [OF fresh put(2,3)] put(1) show ?thesis by (intro runs_put_step)
qed

lemma setBindingDigests_step: "setBindingDigests rid ds sel clk d = (res, d') \<Longrightarrow> quiet_step d d'"
  by (auto simp: setBindingDigests_def setBindingDigests_reducer_def elim!: transition_step [OF binding_red.run_reducer_axioms]
      split: if_splits)

lemma recordIntent_step: "recordIntent rid q uuid clk d = (res, d') \<Longrightarrow> quiet_step d d'"
  by (auto simp: recordIntent_def Let_def recordIntent_reducer_def elim!: transition_step [OF intent_red.run_reducer_axioms]
      split: if_splits prod.splits sum.splits)

lemma recordResult_step: "recordResult rid aid q clk d = (res, d') \<Longrightarrow> quiet_step d d'"
  by (auto simp: recordResult_def recordResult_reducer_def Let_def elim!: transition_step [OF result_red.run_reducer_axioms]
      split: if_splits option.splits)

lemma cutoff_evolves: "stage_evolves s (stage_cutoff reason a b s)"
  by (rule stage_frame_evolves) (simp_all add: stage_closed_def)

lemma requestCancel_step: "requestCancel rid reason clk d = (res, d') \<Longrightarrow> quiet_step d d'"
  by (auto simp: requestCancel_def Let_def requestCancel_reducer_def stage_step_def cutoff_evolves
      elim!: applyTransition_step [OF cancel_red.run_reducer_axioms] split: if_splits sum.splits option.splits)

lemma requestTeamStageCancel_step: "requestTeamStageCancel rid reason clk d = (res, d') \<Longrightarrow> quiet_step d d'"
  by (auto simp: requestTeamStageCancel_def requestTeamStageCancel_reducer_def Let_def stage_step_def cutoff_evolves
      elim!: applyTransition_step [OF stage_cancel_red.run_reducer_axioms] split: if_splits sum.splits option.splits)

lemma decide_step: "decide rid did action branch clk d = (res, d') \<Longrightarrow> quiet_step d d'"
  by (auto simp: decide_def decide_reducer_def Let_def elim!: applyTransition_step [OF decide_red.run_reducer_axioms]
      split: if_splits sum.splits option.splits prod.splits)

lemma settleTerminal_step: "settleTerminal rid t det clk d = (res, d') \<Longrightarrow> quiet_step d d'"
  by (auto simp: settleTerminal_def settleTerminal_reducer_def Let_def elim!: transition_step [OF settle_red.run_reducer_axioms]
      split: if_splits)

lemma setArchived_step: "setArchived rid b clk d = (res, d') \<Longrightarrow> quiet_step d d'"
  by (rule quiet_step_rows, rule stored_runs) (auto simp: setArchived_def split: if_splits sum.splits prod.splits)

section \<open>Recovery is a step\<close>

lemma teamRecovery_stage:
  "teamRecovery_reducer rid now v = Inr w \<Longrightarrow> stage_step (r_teamStage v) (r_teamStage w)"
  by (auto simp: teamRecovery_reducer_def stage_step_def stage_closed_def intro!: stage_frame_evolves
      split: option.splits if_splits)

lemma reconcile_run_step:
  assumes "reconcile_run clk rid d = (res, d')"
  shows "quiet_step d d'"
proof -
  have t: "quiet_step d e" if "transition rid n (teamRecovery_reducer rid m) d = (x, e)" for n m x e
    using that by (rule transition_step [OF team_recovery_red.run_reducer_axioms]) (rule teamRecovery_stage)
  have i: "quiet_step d e" if "transition rid n (intentRecovery_reducer a m) d = (x, e)" for n m a x e
    using that by (rule transition_step [OF intent_recovery_red.run_reducer_axioms]) (auto simp: intentRecovery_reducer_def)
  show ?thesis
    using assms by (auto simp: reconcile_run_def intro: settleTerminal_step t i
        split: sum.splits if_splits prod.splits option.splits store_error.splits)
qed

lemma reconcile_loop_step: "reconcile_loop clk ids report d = (res, d') \<Longrightarrow> quiet_step d d'"
  by (induction ids arbitrary: report d)
    (auto dest: reconcile_run_step intro: quiet_step_trans split: prod.splits sum.splits)

lemma reconcileOnStart_step: "reconcileOnStart clk d = (res, d') \<Longrightarrow> quiet_step d d'"
  by (auto simp: reconcileOnStart_def dest: reconcile_loop_step split: sum.splits)

lemma reconcile_step: "reconcile run action evidence opts clk d = (res, d') \<Longrightarrow> quiet_step d d'"
  by (auto simp: reconcile_def reconcile_reducer_def Let_def elim!: transition_step [OF review_red.run_reducer_axioms]
      split: if_splits option.splits)

section \<open>The TeamStage operations are steps\<close>

lemma bindTeamStage_step: "bindTeamStage rid b clk d = (res, d') \<Longrightarrow> quiet_step d d'"
  by (auto simp: bindTeamStage_def stage_step_def dest!: get_run_stored
      elim!: applyTransition_step [OF bind_stage_red.run_reducer_axioms] split: if_splits sum.splits option.splits)

lemma bindTeamTask_evolves:
  "ts_taskId s = None \<Longrightarrow> ts_taskRevision s = None \<Longrightarrow> \<not> stage_closed (ts_state s) \<Longrightarrow>
   stage_evolves s (s\<lparr>ts_taskId := Some t, ts_taskRevision := Some n, ts_state := SActive, ts_updatedAt := now\<rparr>)"
  by (simp add: stage_evolves_def stage_captures_def stage_effects_def list_evolves_refl)

lemma bindTeamTask_step: "bindTeamTask rid t n clk d = (res, d') \<Longrightarrow> quiet_step d d'"
  by (auto simp: bindTeamTask_def bindTeamTask_reducer_def dest!: get_run_stored
      elim!: applyTransition_step [OF bind_task_red.run_reducer_axioms] put_stage_step
      intro: bindTeamTask_evolves split: if_splits sum.splits option.splits)

lemma task_revision_evolves:
  "pred_option (\<lambda>n. n \<le> m) (ts_taskRevision s) \<Longrightarrow> stage_evolves s (s\<lparr>ts_taskRevision := Some m, ts_updatedAt := now\<rparr>)"
  by (cases "ts_taskRevision s") (simp_all add: stage_evolves_def stage_captures_def stage_effects_def list_evolves_refl)

lemma updateTeamTaskRevision_step: "updateTeamTaskRevision rid a b clk d = (res, d') \<Longrightarrow> quiet_step d d'"
  by (auto simp: updateTeamTaskRevision_def updateTeamTaskRevision_reducer_def
      elim!: applyTransition_step [OF task_revision_red.run_reducer_axioms] put_stage_step
      intro!: task_revision_evolves split: if_splits sum.splits option.splits)

lemma observeTeamTaskRevision_step: "observeTeamTaskRevision rid t a b clk d = (res, d') \<Longrightarrow> quiet_step d d'"
  by (auto simp: observeTeamTaskRevision_def observeTeamTaskRevision_reducer_def
      elim!: applyTransition_step [OF observe_red.run_reducer_axioms] put_stage_step
      intro!: task_revision_evolves split: if_splits sum.splits option.splits)

lemma execution_step:
  "(\<And>x. ts_execution s = Some x \<Longrightarrow> execution_evolves x y) \<Longrightarrow>
   stage_evolves s (s\<lparr>ts_execution := Some y, ts_updatedAt := now\<rparr>)"
  by (simp add: stage_evolves_def stage_captures_def stage_effects_def list_evolves_refl)

lemma recordTeamStageExecution_step: "recordTeamStageExecution rid aid x clk d = (res, d') \<Longrightarrow> quiet_step d d'"
  by (auto simp: recordTeamStageExecution_def recordTeamStageExecution_reducer_def execution_evolves_def dest!: get_run_stored
      elim!: applyTransition_step [OF execution_red.run_reducer_axioms] put_stage_step
      intro!: execution_step split: if_splits sum.splits option.splits)

lemma update_stage_evolves:
  assumes "pred_option (allowedTeamStageTransition (ts_state s)) (su_state u)" "ts_state s \<noteq> SSucceeded"
  shows "stage_evolves s (s\<lparr>ts_state := (case su_state u of None \<Rightarrow> ts_state s | Some x \<Rightarrow> x),
     ts_members := ms, ts_cancel := c, ts_recovery := r, ts_updatedAt := now\<rparr>)"
proof (rule stage_frame_evolves)
  assume c: "stage_closed (ts_state s)"
  have "stage_closed x" if "su_state u = Some x" for x
    using assms c that by (cases x) (auto simp: allowedTeamStageTransition_def stage_closed_def split: if_splits)
  with c show "stage_closed (ts_state (s\<lparr>ts_state := (case su_state u of None \<Rightarrow> ts_state s | Some x \<Rightarrow> x),
     ts_members := ms, ts_cancel := c, ts_recovery := r, ts_updatedAt := now\<rparr>))" for ms c r now
    by (simp split: option.splits)
qed simp

lemma updateTeamStage_stage:
  assumes u: "updateTeamStage_reducer rid u now v = Inr w"
  shows "stage_step (r_teamStage v) (r_teamStage w)"
proof (cases "r_teamStage v")
  case None
  then show ?thesis by (simp add: stage_step_def)
next
  case (Some s)
  with u have "pred_option (allowedTeamStageTransition (ts_state s)) (su_state u)" "ts_state s \<noteq> SSucceeded"
    by (simp_all add: updateTeamStage_reducer_def)
  from update_stage_evolves [OF this] u Some show ?thesis
    by (simp add: updateTeamStage_reducer_def) (elim conjE put_stage_step, blast)
qed

lemma updateTeamStage_step: "updateTeamStage rid u clk d = (res, d') \<Longrightarrow> quiet_step d d'"
  by (auto simp: updateTeamStage_def elim!: applyTransition_step [OF update_stage_red.run_reducer_axioms]
      intro: updateTeamStage_stage split: if_splits sum.splits option.splits)

lemma upsertTeamMember_step: "upsertTeamMember rid m clk d = (res, d') \<Longrightarrow> quiet_step d d'"
  by (auto simp: upsertTeamMember_def upsertTeamMember_reducer_def
      elim!: applyTransition_step [OF upsert_red.run_reducer_axioms] put_stage_step
      intro!: stage_frame_evolves split: if_splits option.splits)

section \<open>The artifact operations are steps\<close>

lemma artifactTransition_step:
  assumes "run_reducer red" and "artifactTransition rid now red rp d = (res, d')"
    and "\<And>v w. stored d rid = Some v \<Longrightarrow> rp v = Inr False \<Longrightarrow> red v = Inr w \<Longrightarrow>
           stage_step (r_teamStage v) (r_teamStage w)"
  shows "quiet_step d d'"
proof -
  have a: "quiet_step d e" if "applyTransition rid now rp red d = (x, e)" for x e
    by (rule applyTransition_step [OF assms(1) that]) (rule assms(3))
  show ?thesis
    using assms(2) by (auto simp: artifactTransition_def intro: a
        split: sum.splits if_splits prod.splits store_error.splits)
qed

lemma frozen_node_stage: "frozenArtifactNode v = Inr (n, s) \<Longrightarrow> r_teamStage v = Some s"
  by (auto simp: frozenArtifactNode_def split: option.splits sum.splits)

lemma reserve_stage:
  assumes "reserveTeamMember_reducer sha rid q c nn mid now v = Inr w"
  shows "stage_step (r_teamStage v) (r_teamStage w)"
  using assms
proof (cases rule: reserve_reducer_cases)
  case (1 n s t rs ev)
  from frozen_node_stage [OF 1(1)] 1(2) show ?thesis
    by (auto elim!: put_stage_step intro!: stage_frame_evolves)
qed

lemma bind_member_stage:
  assumes "bindTeamMemberReservation_reducer rid q now v = Inr w"
  shows "stage_step (r_teamStage v) (r_teamStage w)"
  using assms
proof (cases rule: bind_member_reducer_cases)
  case (1 n s t rs ms ev)
  from frozen_node_stage [OF 1(1)] 1(2) show ?thesis
    by (auto elim!: put_stage_step intro!: stage_frame_evolves)
qed

lemma capture_evolves:
  "stage_evolves s (s\<lparr>ts_captures := Some (stage_captures s @ cs), ts_members := ms, ts_updatedAt := now\<rparr>)"
  by (simp add: stage_evolves_def stage_effects_def list_evolves_refl)
    (simp add: stage_captures_def list_evolves_append)

lemma reserveTeamMember_step: "reserveTeamMember sha os rid q u1 u2 clk d = (res, d') \<Longrightarrow> quiet_step d d'"
  by (auto simp: reserveTeamMember_def intro: artifactTransition_step [OF reserve_red.run_reducer_axioms _ reserve_stage]
      split: option.splits if_splits prod.splits sum.splits)

lemma bindTeamMemberReservation_step: "bindTeamMemberReservation rid q clk d = (res, d') \<Longrightarrow> quiet_step d d'"
  by (auto simp: bindTeamMemberReservation_def
      intro: artifactTransition_step [OF bind_member_red.run_reducer_axioms _ bind_member_stage] split: if_splits)

lemma bindTeamCaptureArtifact_step: "bindTeamCaptureArtifact sha rid ref m n clk d = (res, d') \<Longrightarrow> quiet_step d d'"
  by (auto simp: bindTeamCaptureArtifact_def bindTeamCaptureArtifact_reducer_def ebind_Inr
      elim!: artifactTransition_step [OF capture_red.run_reducer_axioms] put_stage_step
      intro!: capture_evolves split: if_splits option.splits)

lemma acceptance_evolves:
  "ts_outputAcceptance s = None \<Longrightarrow> (stage_closed (ts_state s) \<Longrightarrow> stage_closed st) \<Longrightarrow>
   stage_evolves s (s\<lparr>ts_outputAcceptance := Some acc, ts_state := st, ts_updatedAt := now\<rparr>)"
  "ts_outputAcceptance s = None \<Longrightarrow> stage_evolves s (s\<lparr>ts_outputAcceptance := Some acc, ts_updatedAt := now\<rparr>)"
  by (simp_all add: stage_evolves_def stage_captures_def stage_effects_def list_evolves_refl)

lemma recordTeamOutputAcceptance_step: "recordTeamOutputAcceptance rid acc clk d = (res, d') \<Longrightarrow> quiet_step d d'"
  by (auto simp: recordTeamOutputAcceptance_def recordTeamOutputAcceptance_reducer_def stage_closed_def dest!: get_run_stored
      elim!: applyTransition_step [OF acceptance_red.run_reducer_axioms] put_stage_step
      intro!: acceptance_evolves split: if_splits sum.splits option.splits)

lemma settle_stage:
  assumes "settleTeamStageAttempt_reducer sha rid q now v = Inr w" and "settlement_isReplay rid q v = Inr False"
  shows "stage_step (r_teamStage v) (r_teamStage w)"
  using assms(1)
proof (cases rule: settle_reducer_shape)
  case (1 s a)
  from assms(2) 1(1) have "ts_outputAcceptance s = None"
    by (auto simp: settlement_isReplay_def split: option.splits)
  with 1 show ?thesis by (auto simp: stage_step_def intro!: acceptance_evolves)
qed

lemma settleTeamStageAttempt_step: "settleTeamStageAttempt sha rid q clk d = (res, d') \<Longrightarrow> quiet_step d d'"
  by (auto simp: settleTeamStageAttempt_def
      intro: applyTransition_step [OF settle_stage_red.run_reducer_axioms _ settle_stage]
      split: if_splits sum.splits prod.splits store_error.splits)

section \<open>Effects, node sessions and the driver\<close>

lemma append_evolves:
  assumes "list_evolves effect_evolves (stage_effects s) es"
  shows "stage_evolves s (s\<lparr>ts_effects := Some es\<rparr>)"
    and "stage_evolves s (s\<lparr>ts_state := SRecoveryRequired, ts_recovery := rc, ts_updatedAt := now, ts_effects := Some es\<rparr>)"
  using assms by (simp_all add: stage_evolves_def stage_captures_def stage_effects_def stage_closed_def list_evolves_refl)

lemma settle_effect_evolves: "e_state e = EPending \<Longrightarrow> effect_evolves e (settle_effect phase r t e)"
  by (simp add: settle_effect_def effect_evolves_def)

lemma append_stage:
  assumes "append_reducer f phase res clk v = Inr w"
  shows "stage_step (r_teamStage v) (r_teamStage w)"
proof (cases "r_teamStage v")
  case None
  then show ?thesis by (simp add: stage_step_def)
next
  case (Some s)
  let ?p = "\<lambda>e. e_effectId e = ef_effectId f"
  have settled: "list_evolves effect_evolves (stage_effects s) (update_first ?p (settle_effect ph c t) (stage_effects s))"
    if "List.find ?p (stage_effects s) = Some z" "e_state z = EPending" for ph c t z
    by (rule list_evolves_update) (use that in \<open>auto intro: settle_effect_evolves\<close>)
  have added: "list_evolves effect_evolves (stage_effects s) (stage_effects s @ new)" for new
    by (rule list_evolves_append) simp
  from assms Some show ?thesis
    by (auto simp: append_reducer_def Let_def ebind_Inr elim!: put_stage_step intro!: append_evolves added intro: settled
        split: if_splits option.splits)
qed

lemma append_effect_step: "append_effect f phase r clk d = (res, d') \<Longrightarrow> quiet_step d d'"
  by (auto simp: append_effect_def intro: transition_step [OF append_red.run_reducer_axioms _ append_stage])

lemma record_effect_step: "record_effect f phase r clk d = (res, d') \<Longrightarrow> quiet_step d d'"
  by (auto simp: record_effect_def dest: append_effect_step split: sum.splits prod.splits)

lemma recordTeamEffectRecovery_step: "recordTeamEffectRecovery f clk d = (res, d') \<Longrightarrow> quiet_step d d'"
  by (auto simp: recordTeamEffectRecovery_def dest: append_effect_step split: sum.splits prod.splits if_splits)

lemma skip_step: "transition rid now (skip_reducer skipped) d = (res, d') \<Longrightarrow> quiet_step d d'"
  by (auto simp: skip_reducer_def elim!: transition_step [OF skip_red.run_reducer_axioms] split: if_splits)

text \<open>The driver and the managed node call these for an Attempt that is not settled.\<close>

lemma wait_step:
  assumes "transition rid now (wait_reducer aid) d = (res, d')"
    and "\<And>v. stored d rid = Some v \<Longrightarrow> attempt_open aid v"
  shows "quiet_step d d'"
proof (rule transition_step [OF wait_red.run_reducer_axioms])
  show "transition rid now (\<lambda>v. if attempt_open aid v then wait_reducer aid v else Inl AttemptSettledError) d = (res, d')"
    unfolding assms(1) [symmetric] by (rule transition_cong) (simp add: assms(2))
qed (auto simp: wait_reducer_def split: if_splits option.splits)

lemma idle_step:
  assumes "transition rid now (idle_reducer live idle aid) d = (res, d')"
    and "\<And>v. stored d rid = Some v \<Longrightarrow> attempt_open aid v"
  shows "quiet_step d d'"
proof (rule transition_step [OF idle_red.run_reducer_axioms])
  show "transition rid now (\<lambda>v. if attempt_open aid v then idle_reducer live idle aid v else Inl AttemptSettledError) d
      = (res, d')"
    unfolding assms(1) [symmetric] by (rule transition_cong) (simp add: assms(2))
qed (auto simp: idle_reducer_def split: if_splits option.splits)

lemma pending_step: "transition rid now (pending_reducer l q g mid t) d = (res, d') \<Longrightarrow> quiet_step d d'"
  by (auto simp: pending_reducer_def ebind_Inr elim!: transition_step [OF pending_red.run_reducer_axioms])

lemma accept_step: "transition rid now (accept_reducer q mid) d = (res, d') \<Longrightarrow> quiet_step d d'"
  by (auto simp: accept_reducer_def elim!: transition_step [OF accept_red.run_reducer_axioms] split: option.splits)

lemma child_step: "transition rid now (child_reducer ab aid uuid) d = (res, d') \<Longrightarrow> quiet_step d d'"
  by (auto simp: child_reducer_def elim!: transition_step [OF child_red.run_reducer_axioms] split: option.splits)

lemma composition_step: "transition rid now (composition_reducer c) d = (res, d') \<Longrightarrow> quiet_step d d'"
  by (auto simp: composition_reducer_def elim!: transition_step [OF composition_red.run_reducer_axioms])

section \<open>Histories\<close>

text \<open>
  One durable step: an operation of the store or of its clients, or the environment, which may
  close, reopen or reassign the tables and change the outcome of the next write, but never edits a
  row. A Run id that the store draws is fresh.
\<close>

inductive store_step :: "domain \<Rightarrow> domain \<Rightarrow> bool" where
  st_createRun: "createRun request dr dj inp m uuid clk d = (r1, d') \<Longrightarrow>
     (md_reservedRunId m = None \<Longrightarrow> stored d (''run-'' @ uuid) = None) \<Longrightarrow> store_step d d'"
| st_setBindingDigests: "setBindingDigests rid ds sel clk d = (r2, d') \<Longrightarrow> store_step d d'"
| st_recordIntent: "recordIntent rid iq uuid clk d = (r3, d') \<Longrightarrow> store_step d d'"
| st_recordResult: "recordResult rid aid rq clk d = (r2, d') \<Longrightarrow> store_step d d'"
| st_requestCancel: "requestCancel rid reason clk d = (r2, d') \<Longrightarrow> store_step d d'"
| st_requestTeamStageCancel: "requestTeamStageCancel rid reason clk d = (r2, d') \<Longrightarrow> store_step d d'"
| st_decide: "decide rid did action branch clk d = (r4, d') \<Longrightarrow> store_step d d'"
| st_settleTerminal: "settleTerminal rid t det clk d = (r2, d') \<Longrightarrow> store_step d d'"
| st_setArchived: "setArchived rid b clk d = (r1, d') \<Longrightarrow> store_step d d'"
| st_reconcileOnStart: "reconcileOnStart clks d = (r5, d') \<Longrightarrow> store_step d d'"
| st_reconcile: "reconcile run raction evidence opts clk d = (r2, d') \<Longrightarrow> store_step d d'"
| st_bindTeamStage: "bindTeamStage rid sb clk d = (r2, d') \<Longrightarrow> store_step d d'"
| st_bindTeamTask: "bindTeamTask rid tid n clk d = (r2, d') \<Longrightarrow> store_step d d'"
| st_updateTeamTaskRevision: "updateTeamTaskRevision rid n n2 clk d = (r2, d') \<Longrightarrow> store_step d d'"
| st_observeTeamTaskRevision: "observeTeamTaskRevision rid tid n n2 clk d = (r2, d') \<Longrightarrow> store_step d d'"
| st_recordTeamStageExecution: "recordTeamStageExecution rid aid x clk d = (r2, d') \<Longrightarrow> store_step d d'"
| st_updateTeamStage: "updateTeamStage rid u clk d = (r2, d') \<Longrightarrow> store_step d d'"
| st_upsertTeamMember: "upsertTeamMember rid mem clk d = (r2, d') \<Longrightarrow> store_step d d'"
| st_reserveTeamMember: "reserveTeamMember sha os rid vq u1 u2 clk d = (r6, d') \<Longrightarrow> store_step d d'"
| st_bindTeamMemberReservation: "bindTeamMemberReservation rid mb clk d = (r2, d') \<Longrightarrow> store_step d d'"
| st_bindTeamCaptureArtifact: "bindTeamCaptureArtifact sha rid ref mem n clk d = (r2, d') \<Longrightarrow> store_step d d'"
| st_recordTeamOutputAcceptance: "recordTeamOutputAcceptance rid acc clk d = (r2, d') \<Longrightarrow> store_step d d'"
| st_settleTeamStageAttempt: "settleTeamStageAttempt sha rid sq clk d = (r2, d') \<Longrightarrow> store_step d d'"
| st_recordTeamEffectIntent: "recordTeamEffectIntent f clk d = (r7, d') \<Longrightarrow> store_step d d'"
| st_recordTeamEffectResult: "recordTeamEffectResult f rf clk d = (r7, d') \<Longrightarrow> store_step d d'"
| st_recordTeamEffectRecovery: "recordTeamEffectRecovery f clk d = (r7, d') \<Longrightarrow> store_step d d'"
| st_skip: "transition rid now (skip_reducer skipped) d = (r2, d') \<Longrightarrow> store_step d d'"
| st_wait: "transition rid now (wait_reducer aid) d = (r2, d') \<Longrightarrow>
     (\<And>v. stored d rid = Some v \<Longrightarrow> attempt_open aid v) \<Longrightarrow> store_step d d'"
| st_idle: "transition rid now (idle_reducer live idle aid) d = (r2, d') \<Longrightarrow>
     (\<And>v. stored d rid = Some v \<Longrightarrow> attempt_open aid v) \<Longrightarrow> store_step d d'"
| st_pending: "transition rid now (pending_reducer l mq g mid t0) d = (r2, d') \<Longrightarrow> store_step d d'"
| st_accept: "transition rid now (accept_reducer mq mid) d = (r2, d') \<Longrightarrow> store_step d d'"
| st_child: "transition rid now (child_reducer ab aid uuid) d = (r2, d') \<Longrightarrow> store_step d d'"
| st_composition: "transition rid now (composition_reducer cmp) d = (r2, d') \<Longrightarrow> store_step d d'"
| st_environment: "t_rows (d_runs d') = t_rows (d_runs d) \<Longrightarrow> t_rows (d_commands d') = t_rows (d_commands d) \<Longrightarrow>
     store_step d d'"

lemma stored_rows: "t_rows (d_runs d') = t_rows (d_runs d) \<Longrightarrow> stored d' j = stored d j"
  by (simp add: stored_def runs_get_def table_get_def)

lemmas operation_steps =
  setBindingDigests_step recordIntent_step recordResult_step requestCancel_step
  requestTeamStageCancel_step decide_step settleTerminal_step setArchived_step reconcileOnStart_step reconcile_step
  bindTeamStage_step bindTeamTask_step updateTeamTaskRevision_step observeTeamTaskRevision_step
  recordTeamStageExecution_step updateTeamStage_step upsertTeamMember_step reserveTeamMember_step
  bindTeamMemberReservation_step bindTeamCaptureArtifact_step recordTeamOutputAcceptance_step
  settleTeamStageAttempt_step recordTeamEffectRecovery_step skip_step wait_step idle_step pending_step accept_step child_step
  composition_step

text \<open>A step either admits a Run or is quiet.\<close>

lemma store_step_cases:
  assumes "store_step d d'"
  obtains (create) request dr dj inp m uuid clk r where "createRun request dr dj inp m uuid clk d = (r, d')"
      "md_reservedRunId m = None \<longrightarrow> stored d (''run-'' @ uuid) = None"
  | (quiet) "quiet_step d d'"
  using assms
proof (cases rule: store_step.cases)
  case (st_createRun request dr dj inp m uuid clk r1)
  then show thesis by (intro create) auto
next
  case st_environment
  then show thesis by (intro quiet quiet_step_rows stored_rows)
next
  case st_recordTeamEffectIntent
  then show thesis by (intro quiet) (simp add: recordTeamEffectIntent_def record_effect_step)
next
  case st_recordTeamEffectResult
  then show thesis by (intro quiet) (simp add: recordTeamEffectResult_def record_effect_step)
qed (rule quiet, erule operation_steps, (assumption | simp)?)+

lemma store_step_domain: "store_step d d' \<Longrightarrow> domain_step d d'"
  by (erule store_step_cases) (auto intro: createRun_step quiet_step_domain)

text \<open>Any number of steps.\<close>

abbreviation store_history :: "domain \<Rightarrow> domain \<Rightarrow> bool" where
  "store_history \<equiv> store_step\<^sup>*\<^sup>*"

lemma store_history_domain: "store_history d d' \<Longrightarrow> domain_step d d'"
  by (induction rule: rtranclp_induct) (auto dest: store_step_domain intro: domain_step_trans)

lemma store_history_run:
  assumes "store_history d d'" and "stored d j = Some v"
  obtains w where "stored d' j = Some w" "record_step v w"
  using store_history_domain [OF assms(1)] assms(2) unfolding domain_step_def by blast

lemma store_history_born:
  assumes "store_history d d'" and "stored d j = None" and "stored d' j = Some w"
  obtains b where "born b" "record_step b w"
  using store_history_domain [OF assms(1)] assms(2,3) unfolding domain_step_def by blast

end
