(* ===== verification/Samples.thy ===== *)
theory Samples
  imports RunHistory
begin

text \<open>
  Concrete Runs and domains on which the properties are exercised: a freshly admitted Run, a Run
  with one Attempt in each interesting state, and the tables that hold them.
\<close>

definition clock :: "nat \<Rightarrow> int" where
  "clock n = 1000 + int n"

definition sample_request :: admission_request where
  "sample_request = \<lparr>ar_scope = ''run'', ar_requestId = ''req-1'', ar_payloadFingerprint = ''fp-1''\<rparr>"

definition sample_metadata :: run_metadata where
  "sample_metadata = \<lparr>md_parent = None, md_composition = None, md_documentRevision = None, md_reservedRunId = None,
     md_blueprintId = None, md_source = None, md_bindingDigests = None, md_bindingSelections = None, md_context = None\<rparr>"

definition sample_run :: run_record where
  "sample_run = run_record_transform
     (new_run sample_request ''run--req-1'' ''rev-1'' (Some (JObj [])) (Some (JObj [])) sample_metadata ''run-1'' 1000)"

definition sample_attempt :: "string \<Rightarrow> string \<Rightarrow> attempt_state \<Rightarrow> attempt" where
  "sample_attempt aid i st = \<lparr>a_attemptId = aid, a_nodeId = i, a_state = st, a_attempt = 1,
     a_intent = Some \<lparr>i_seq = 1, i_at = 1001, i_kind = ''agentTask'', i_resourceDigests = [], i_bindingDigests = None\<rparr>,
     a_result = None, a_sessionId = Some (''s-'' @ aid), a_childRunId = None, a_messages = None, a_diagnostics = None\<rparr>"

definition sample_result :: attempt_result where
  "sample_result = \<lparr>o_seq = 2, o_at = 1002, o_ok = True, o_outcome = JObj [(''kind'', JStr ''succeeded'')],
     o_evidence = ''structural-node''\<rparr>"

definition done_attempt :: "string \<Rightarrow> string \<Rightarrow> attempt" where
  "done_attempt aid i = (sample_attempt aid i ASucceeded)\<lparr>a_result := Some sample_result\<rparr>"

definition domain_of :: "run_record \<Rightarrow> domain" where
  "domain_of r = open_domain [(r_runId r, r)] [] []"

definition running_run :: run_record where
  "running_run = sample_run\<lparr>r_state := Running, r_seq := 2,
     r_attempts := [done_attempt ''att-1'' ''a'', sample_attempt ''att-2'' ''b'' ARunning]\<rparr>"

definition settled_run :: run_record where
  "settled_run = sample_run\<lparr>r_state := Succeeded, r_seq := 3, r_attempts := [done_attempt ''att-1'' ''a'']\<rparr>"

definition intent_sample :: intent_request where
  "intent_sample = \<lparr>q_nodeId = ''c'', q_kind = ''agentTask'', q_resourceDigests = None, q_bindingDigests = None,
     q_diagnostics = None, q_sessionId = None, q_sessionIdForAttempt = None\<rparr>"

lemma stored_running: "stored (domain_of running_run) ''run-1'' = Some running_run"
  by code_simp

lemma stored_settled: "stored (domain_of settled_run) ''run-1'' = Some settled_run"
  by code_simp

lemma running_wf: "run_wf running_run"
  by code_simp

lemma running_fields [simp]:
  "r_state running_run = Running" "r_runId running_run = ''run-1''" "r_commandKey running_run = ''run--req-1''"
  "r_attempts running_run = [done_attempt ''att-1'' ''a'', sample_attempt ''att-2'' ''b'' ARunning]"
  "r_teamStage running_run = None" "r_seq running_run = 2" "r_state settled_run = Succeeded"
  by (simp_all add: running_run_def settled_run_def sample_run_def new_run_def)

lemma attempt_fields [simp]:
  "a_state (sample_attempt aid i st) = st" "a_result (sample_attempt aid i st) = None"
  "a_nodeId (sample_attempt aid i st) = i" "a_attemptId (sample_attempt aid i st) = aid"
  "a_state (done_attempt aid i) = ASucceeded" "a_result (done_attempt aid i) = Some sample_result"
  "a_nodeId (done_attempt aid i) = i" "a_attemptId (done_attempt aid i) = aid"
  by (simp_all add: sample_attempt_def done_attempt_def)

text \<open>A history of one step: the operator cancels the Run.\<close>

definition cancelled :: "run_record \<Rightarrow> domain" where
  "cancelled r = snd (requestCancel (r_runId r) None clock (domain_of r))"

lemma cancelled_history: "store_history (domain_of r) (cancelled r)"
  unfolding cancelled_def by (rule r_into_rtranclp, rule st_requestCancel, rule prod.collapse [symmetric])

end
