(* ===== verification/RunProperties.thy ===== *)
theory RunProperties
  imports Samples
begin

text \<open>
  Properties of the Run store that hold between any two points of a history: terminal Runs,
  settled Attempts and admitted facts never change, the Run phase and the sequence number only
  grow, and every stored Run is well formed.
\<close>

section \<open>Whole histories\<close>

text \<open>C1: A terminal Run is immutable. Whatever operations run afterwards, by any component, with
  failed writes and restarts between them, the stored record is exactly the one that was settled.\<close>

theorem history_keeps_terminal:
  assumes "store_history d d'" and "stored d rid = Some v" and "isTerminal (r_state v)"
  shows "stored d' rid = Some v"
  using assms(1,2)
proof (rule store_history_run)
  fix w
  assume w: "stored d' rid = Some w" and "record_step v w"
  then have "w = v" using assms(3) by (simp add: record_step_def run_evolves_def)
  with w show ?thesis by simp
qed

theorem history_keeps_terminal_witness:
  "stored (cancelled settled_run) ''run-1'' = Some settled_run"
  by (rule history_keeps_terminal [OF cancelled_history stored_settled]) simp

text \<open>C4: Attempts are never removed, reordered or renamed, the recorded dispatch intent of an
  Attempt never changes, and once an Attempt has a result or a terminal state both are final.\<close>

theorem history_attempts_final:
  assumes "store_history d d'" and "stored d rid = Some v" and "i < length (r_attempts v)"
  shows "\<exists>w. stored d' rid = Some w \<and> i < length (r_attempts w)
     \<and> a_attemptId (r_attempts w ! i) = a_attemptId (r_attempts v ! i)
     \<and> a_nodeId (r_attempts w ! i) = a_nodeId (r_attempts v ! i)
     \<and> a_intent (r_attempts w ! i) = a_intent (r_attempts v ! i)
     \<and> (a_result (r_attempts v ! i) \<noteq> None \<or> attempt_terminal (a_state (r_attempts v ! i)) \<longrightarrow>
          a_result (r_attempts w ! i) = a_result (r_attempts v ! i)
          \<and> a_state (r_attempts w ! i) = a_state (r_attempts v ! i))"
  using assms(1,2)
proof (rule store_history_run)
  fix w
  assume w: "stored d' rid = Some w" and "record_step v w"
  then have "list_evolves attempt_evolves (r_attempts v) (r_attempts w)"
    by (simp add: record_step_def run_evolves_def attempts_evolve_def)
  from list_evolves_nth [OF this assms(3)] w show ?thesis
    by (auto simp: attempt_evolves_def attempt_settled_def)
qed

theorem history_attempts_final_witness:
  "\<exists>w. stored (cancelled running_run) ''run-1'' = Some w
     \<and> a_result (r_attempts w ! 0) = Some sample_result"
  using history_attempts_final [OF cancelled_history stored_running, of 0] by auto

text \<open>C28: Every Run that any history from an empty store can produce is well formed: its event log
  is bounded by 200 entries and ordered by sequence number, no node has two Attempts, only a skipped
  node has no intent, a result follows its intent and settles the Attempt, and a success has an
  accepted result.\<close>

theorem history_run_wf:
  assumes "store_history (open_domain [] cs ls) d" and "stored d rid = Some w"
  shows "length (r_log w) \<le> 200 \<and> sorted (map l_seq (r_log w)) \<and> (\<forall>e\<in>set (r_log w). l_seq e \<le> r_seq w)
     \<and> distinct (map a_nodeId (r_attempts w)) \<and> list_all (attempt_wf (r_seq w)) (r_attempts w)"
proof -
  have "stored (open_domain [] cs ls) rid = None"
    by (simp add: stored_def open_domain_def open_table_def runs_get_def table_get_def)
  with assms obtain b where "born b" "record_step b w" by (blast elim: store_history_born)
  then have "run_wf w" by (simp add: record_step_def born_def)
  then show ?thesis by (simp add: run_wf_def attempts_wf_def LOG_CAP_def list_all_iff)
qed

definition created :: domain where
  "created = snd (createRun sample_request ''rev-1'' (Some (JObj [])) (Some (JObj [])) sample_metadata ''1'' clock
     (open_domain [] [] []))"

lemma created_history: "store_history (open_domain [] [] []) created"
proof (rule r_into_rtranclp, rule st_createRun)
  show "createRun sample_request ''rev-1'' (Some (JObj [])) (Some (JObj [])) sample_metadata ''1'' clock (open_domain [] [] [])
      = (fst (createRun sample_request ''rev-1'' (Some (JObj [])) (Some (JObj [])) sample_metadata ''1'' clock
          (open_domain [] [] [])), created)"
    by (simp add: created_def)
qed (simp add: stored_def open_domain_def open_table_def runs_get_def table_get_def)

lemma created_run: "\<exists>w. stored created ''run-1'' = Some w \<and> length (r_log w) = 1"
proof -
  have "map_option (length \<circ> r_log) (stored created ''run-1'') = Some 1" by code_simp
  then show ?thesis by auto
qed

theorem history_run_wf_witness: "\<exists>w. stored created ''run-1'' = Some w \<and> length (r_log w) = 1 \<and> sorted (map l_seq (r_log w))"
  using created_run history_run_wf [OF created_history] by blast

text \<open>The life of a Run goes one way. Between any two points of a history its state moves along
  legal transitions to the same or a later phase (admitted, working, cancelling, recovery, settled)
  and its sequence number never decreases.\<close>

lemma history_phase:
  assumes "store_history d d'" and "stored d rid = Some v"
  shows "\<exists>w. stored d' rid = Some w \<and> run_path (r_state v) (r_state w)
     \<and> run_phase (r_state v) \<le> run_phase (r_state w) \<and> r_seq v \<le> r_seq w"
  using assms
proof (rule store_history_run)
  fix w
  assume "stored d' rid = Some w" and "record_step v w"
  then show ?thesis using run_path_phase by (auto simp: record_step_def run_evolves_def)
qed

text \<open>What is frozen at admission stays frozen: the Run keeps its identity, command, definition,
  input, parent, source and context, and once its bindings are captured the digests and the model
  selections keep their values.\<close>

lemma history_frozen:
  assumes "store_history d d'" and "stored d rid = Some v"
  shows "\<exists>w. stored d' rid = Some w
     \<and> r_runId w = r_runId v \<and> r_commandKey w = r_commandKey v \<and> r_definitionRevision w = r_definitionRevision v
     \<and> r_definitionJson w = r_definitionJson v \<and> r_inputRef w = r_inputRef v \<and> r_parent w = r_parent v
     \<and> r_source w = r_source v \<and> r_context w = r_context v
     \<and> (r_bindingAdmission v = Some AdmissionCaptured \<longrightarrow>
          r_bindingAdmission w = Some AdmissionCaptured \<and> r_bindingDigests w = r_bindingDigests v
          \<and> r_bindingSelections w = r_bindingSelections v)"
  using assms
proof (rule store_history_run)
  fix w
  assume "stored d' rid = Some w" and "record_step v w"
  then show ?thesis by (simp add: record_step_def run_evolves_def frozen_facts_def binding_frozen_def)
qed

end
