(* ===== verification/OperationProperties.thy ===== *)
theory OperationProperties
  imports Samples
begin

text \<open>
  What the operations of the Run store promise to their callers: dispatch intents, results,
  cancellation, decisions, settlement, and what no later history can undo.
\<close>

section \<open>Dispatch intent\<close>

lemma recordIntent_facts:
  assumes "recordIntent rid q uuid clk d = (Inr (aid, n, i), d')"
  obtains v r a where "get_run rid d = Inr v" "get_run rid d' = Inr r" "r_state v \<in> {Queued, Running}"
    "\<forall>x\<in>set (r_attempts v). a_state x \<notin> {AFailed, ATimedOut, ACancelled} \<and> a_nodeId x \<noteq> q_nodeId q"
    "r_state r = Running" "r_seq r = Suc (r_seq v)" "n = r_seq r" "aid = ''att-'' @ uuid"
    "length (r_attempts r) = Suc (length (r_attempts v))" "last (r_attempts r) = a"
    "a_attemptId a = aid" "a_nodeId a = q_nodeId q" "a_state a = ARunning" "a_intent a = Some i" "a_result a = None"
proof -
  define rd where "rd = (case q_resourceDigests q of Some rd \<Rightarrow> rd
      | None \<Rightarrow> (case q_diagnostics q of Some (DAvailable g) \<Rightarrow> dg_resourceDigests g | _ \<Rightarrow> []))"
  define sid where "sid = (case map_option (\<lambda>f. f (''att-'' @ uuid)) (q_sessionIdForAttempt q) of
      Some s \<Rightarrow> Some s | None \<Rightarrow> q_sessionId q)"
  obtain x e where x: "transition rid (clk 1) (recordIntent_reducer q (''att-'' @ uuid) rd sid (clk 0)) d = (x, e)"
    by (cases "transition rid (clk 1) (recordIntent_reducer q (''att-'' @ uuid) rd sid (clk 0)) d")
  obtain r where r: "x = Inr r"
    using assms x by (cases x) (simp_all add: recordIntent_def Let_def rd_def sid_def split: if_splits)
  have t: "applyTransition rid (clk 1) no_replay (recordIntent_reducer q (''att-'' @ uuid) rd sid (clk 0)) d = (Inr r, d')"
    and ret: "aid = ''att-'' @ uuid" "n = r_seq r"
      "i = \<lparr>i_seq = r_seq r, i_at = clk 0, i_kind = q_kind q, i_resourceDigests = rd, i_bindingDigests = q_bindingDigests q\<rparr>"
    using assms x r by (auto simp: recordIntent_def Let_def transition_def rd_def sid_def split: if_splits)
  from t show thesis
  proof (rule intent_red.applyTransition_facts)
    fix v w
    assume f: "get_run rid d = Inr v" "recordIntent_reducer q (''att-'' @ uuid) rd sid (clk 0) v = Inr w"
      "get_run rid d' = Inr r" "r_state r = r_state w" "r_attempts r = map honest_diagnostics (r_attempts w)"
      "r_seq r = Suc (r_seq v)"
    show thesis
      by (rule that [OF f(1,3) _ _ _ f(6) ret(2,1) _ refl])
        (use f ret in \<open>auto simp: recordIntent_reducer_def Let_def list_ex_iff split: if_splits\<close>)
  qed
qed

text \<open>A dispatch is recorded before it happens, and only where it may happen. When
  \<open>recordIntent\<close> acknowledges, the Run was queued or running, had no failed, timed-out or cancelled
  Attempt and no Attempt for that node; afterwards the Run is running and its last Attempt carries
  exactly the returned identity and intent, without a result.\<close>

lemma recordIntent_admits:
  assumes "recordIntent rid q uuid clk d = (Inr (aid, n, i), d')"
  shows "\<exists>v r. stored d rid = Some v \<and> stored d' rid = Some r \<and> r_state v \<in> {Queued, Running}
     \<and> (\<forall>x\<in>set (r_attempts v). a_state x \<notin> {AFailed, ATimedOut, ACancelled} \<and> a_nodeId x \<noteq> q_nodeId q)
     \<and> r_state r = Running \<and> n = r_seq r \<and> r_seq r = Suc (r_seq v)
     \<and> length (r_attempts r) = Suc (length (r_attempts v))
     \<and> a_attemptId (last (r_attempts r)) = aid \<and> a_nodeId (last (r_attempts r)) = q_nodeId q
     \<and> a_state (last (r_attempts r)) = ARunning \<and> a_intent (last (r_attempts r)) = Some i
     \<and> a_result (last (r_attempts r)) = None"
  using assms
proof (rule recordIntent_facts)
  fix v r a
  assume f: "get_run rid d = Inr v" "get_run rid d' = Inr r" "r_state v \<in> {Queued, Running}"
    "\<forall>x\<in>set (r_attempts v). a_state x \<notin> {AFailed, ATimedOut, ACancelled} \<and> a_nodeId x \<noteq> q_nodeId q"
    "r_state r = Running" "r_seq r = Suc (r_seq v)" "n = r_seq r"
    "length (r_attempts r) = Suc (length (r_attempts v))" "last (r_attempts r) = a"
    "a_attemptId a = aid" "a_nodeId a = q_nodeId q" "a_state a = ARunning" "a_intent a = Some i" "a_result a = None"
  then show ?thesis by (auto dest!: get_run_stored)
qed

definition intended :: "(store_error + string \<times> nat \<times> attempt_intent) \<times> domain" where
  "intended = recordIntent ''run-1'' intent_sample ''3'' clock (domain_of running_run)"

lemma intended_value: "\<exists>i. fst intended = Inr (''att-3'', 3, i)"
proof -
  have "(case fst intended of Inl _ \<Rightarrow> False | Inr (a, n, i) \<Rightarrow> a = ''att-3'' \<and> n = 3)" by code_simp
  then show ?thesis by (auto split: sum.splits)
qed

text \<open>C5: No node is dispatched twice. After an acknowledged intent for a node, every later
  \<open>recordIntent\<close> for the same node of that Run is refused, whatever happened in between, including
  restarts, recovery and reviewed resolutions.\<close>

theorem recordIntent_once:
  assumes "recordIntent rid q uuid clk d = (Inr (aid, n, i), d')" and "store_history d' d2"
    and "q_nodeId q2 = q_nodeId q" and "recordIntent rid q2 uuid2 clk2 d2 = (res, d3)"
  shows "\<exists>e. res = Inl e"
proof (rule ccontr)
  assume "\<nexists>e. res = Inl e"
  then obtain aid2 n2 i2 where i2: "res = Inr (aid2, n2, i2)" by (cases res) auto
  from assms(1) obtain v :: run_record and r a where r: "get_run rid d' = Inr r" "length (r_attempts r) = Suc (length (r_attempts v))"
    "last (r_attempts r) = a" "a_nodeId a = q_nodeId q" by (rule recordIntent_facts) blast
  from assms(2) get_run_stored [OF r(1)] obtain w where w: "stored d2 rid = Some w" "record_step r w"
    by (rule store_history_run)
  then have ev: "list_evolves attempt_evolves (r_attempts r) (r_attempts w)"
    by (simp add: record_step_def run_evolves_def attempts_evolve_def)
  have k: "length (r_attempts v) < length (r_attempts r)" "r_attempts r ! length (r_attempts v) = a"
    using r(2,3) by (cases "r_attempts r" rule: rev_cases; simp add: nth_append)+
  from list_evolves_nth [OF ev k(1)] k(2) r(4) have "\<exists>b\<in>set (r_attempts w). a_nodeId b = q_nodeId q2"
    by (auto simp: attempt_evolves_def assms(3) intro!: bexI [of _ "r_attempts w ! length (r_attempts v)"])
  moreover from assms(4) [unfolded i2] have "\<exists>x. get_run rid d2 = Inr x \<and> (\<forall>b\<in>set (r_attempts x). a_nodeId b \<noteq> q_nodeId q2)"
    by (rule recordIntent_facts) blast
  ultimately show False using w(1) by (auto dest: get_run_stored)
qed

theorem recordIntent_once_witness:
  "\<exists>e. fst (recordIntent ''run-1'' intent_sample ''4'' clock (snd intended)) = Inl e"
proof -
  obtain i where "intended = (Inr (''att-3'', 3, i), snd intended)" using intended_value by (metis prod.collapse)
  from recordIntent_once [OF this [unfolded intended_def] rtranclp.rtrancl_refl refl prod.collapse [symmetric]]
  show ?thesis by (simp add: intended_def)
qed

section \<open>Cancellation\<close>

lemma requestCancel_cutoff:
  assumes "requestCancel rid reason clk d = (Inr r, d')"
  shows "get_run rid d' = Inr r \<and> run_phase (r_state r) \<ge> 2"
proof -
  from assms obtain v where v: "get_run rid d = Inr v" by (auto simp: requestCancel_def split: sum.splits)
  show ?thesis
  proof (cases "applyTransition rid (clk 1) no_replay (requestCancel_reducer reason (clk 0)) d = (Inr r, d')")
    case True
    then show ?thesis
      by (rule cancel_red.applyTransition_facts) (auto simp: requestCancel_reducer_def Let_def split: if_splits)
  next
    case False
    with assms v have "r = v \<and> d' = d \<and> (isTerminal (r_state v) \<or> r_state v = RecoveryRequired \<or> r_state v = Cancelling)"
      by (auto simp: requestCancel_def Let_def split: if_splits)
    with v show ?thesis by (auto simp: isTerminal_iff_phase)
  qed
qed

text \<open>C6: An acknowledged cancellation is a cutoff. Whatever happens after it, no later
  \<open>recordIntent\<close> on that Run succeeds: no further effect is dispatched.\<close>

theorem cancel_cutoff:
  assumes "requestCancel rid reason clk d = (Inr r, d')" and "store_history d' d2"
    and "recordIntent rid q uuid clk2 d2 = (res, d3)"
  shows "\<exists>e. res = Inl e"
proof (rule ccontr)
  assume "\<nexists>e. res = Inl e"
  then obtain aid n i where i: "res = Inr (aid, n, i)" by (cases res) auto
  from requestCancel_cutoff [OF assms(1)] have r: "stored d' rid = Some r" "run_phase (r_state r) \<ge> 2"
    by (auto dest: get_run_stored)
  from assms(2) r(1) obtain w where w: "stored d2 rid = Some w" "record_step r w" by (rule store_history_run)
  from w(2) r(2) have "run_phase (r_state w) \<ge> 2"
    using run_path_phase by (fastforce simp: record_step_def run_evolves_def)
  moreover from assms(3) [unfolded i] have "\<exists>v. get_run rid d2 = Inr v \<and> r_state v \<in> {Queued, Running}"
    by (rule recordIntent_facts) blast
  ultimately show False using w(1) by (auto dest: get_run_stored)
qed

lemma cancelled_value: "\<exists>r. fst (requestCancel ''run-1'' None clock (domain_of running_run)) = Inr r"
proof -
  have "\<not> isl (fst (requestCancel ''run-1'' None clock (domain_of running_run)))" by code_simp
  then show ?thesis by (metis sum.collapse(2))
qed

theorem cancel_cutoff_witness:
  "\<exists>e. fst (recordIntent ''run-1'' intent_sample ''3'' clock (cancelled running_run)) = Inl e"
proof -
  obtain r where "requestCancel ''run-1'' None clock (domain_of running_run) = (Inr r, cancelled running_run)"
    using cancelled_value unfolding cancelled_def by (metis prod.collapse running_fields(2))
  from cancel_cutoff [OF this rtranclp.rtrancl_refl prod.collapse [symmetric]] show ?thesis .
qed

text \<open>Cancellation wins over every known outcome. A Run that is cancelling is settled as
  cancelled whatever terminal its driver asks for; only an unknown effect overrides it.\<close>

lemma settleTerminal_cancelling:
  assumes "settleTerminal rid t det clk d = (Inr r, d')" and "stored d rid = Some v" and "r_state v = Cancelling"
  shows "r_state r = (if t = ToRecoveryRequired then RecoveryRequired else Cancelled) \<and> stored d' rid = Some r"
  using assms(1) [unfolded settleTerminal_def transition_def]
proof (rule settle_red.applyTransition_facts)
  fix x w
  assume f: "get_run rid d = Inr x" "settleTerminal_reducer rid t det (clk 0) (clk 1) x = Inr w"
    "get_run rid d' = Inr r" "r_state r = r_state w"
  from f(1) assms(2) have "x = v" by (auto dest: get_run_stored)
  with f assms(3) show ?thesis
    by (auto simp: settleTerminal_reducer_def Let_def get_run_stored split: if_splits)
qed

definition cancelling_run :: run_record where
  "cancelling_run = running_run\<lparr>r_state := Cancelling\<rparr>"

section \<open>Results\<close>

lemma recordResult_facts:
  assumes "recordResult rid aid q clk d = (Inr r, d')"
  obtains v a b where "get_run rid d = Inr v" "get_run rid d' = Inr r"
    "List.find (\<lambda>x. a_attemptId x = aid) (r_attempts v) = Some a" "\<not> attempt_settled a"
    "List.find (\<lambda>x. a_attemptId x = aid) (r_attempts r) = Some b"
    "a_result b = Some \<lparr>o_seq = r_seq r, o_at = clk 0, o_ok = p_ok q, o_outcome = p_outcome q, o_evidence = p_evidence q\<rparr>"
    "a_state b = result_state (r_state v) q"
proof -
  from assms have "applyTransition rid (clk 1) no_replay (recordResult_reducer rid aid q (clk 0)) d = (Inr r, d')"
    by (auto simp: recordResult_def transition_def split: if_splits)
  then show thesis
  proof (rule result_red.applyTransition_facts)
    fix v w
    let ?p = "\<lambda>x. a_attemptId x = aid"
    assume f: "get_run rid d = Inr v" "recordResult_reducer rid aid q (clk 0) v = Inr w" "get_run rid d' = Inr r"
      "r_attempts r = map honest_diagnostics (r_attempts w)" "r_seq r = Suc (r_seq v)"
    from f(2) obtain a where a: "List.find ?p (r_attempts v) = Some a" "\<not> attempt_settled a"
      by (auto simp: recordResult_reducer_def attempt_settled_def split: option.splits if_splits)
    with f(2) have w: "r_attempts w = update_first ?p (settle_attempt q (result_state (r_state v) q) (r_seq r) (clk 0)) (r_attempts v)"
      by (auto simp: recordResult_reducer_def Let_def f(5) split: if_splits)
    have "List.find ?p (map h (update_first ?p g xs)) = map_option (h \<circ> g) (List.find ?p xs)"
      if "\<And>x. a_attemptId (h x) = a_attemptId x" "\<And>x. a_attemptId (g x) = a_attemptId x" for h g xs
      using that by (induction xs) auto
    from this [of honest_diagnostics "settle_attempt q (result_state (r_state v) q) (r_seq r) (clk 0)" "r_attempts v"] a
    have b: "List.find ?p (r_attempts r) = Some (honest_diagnostics (settle_attempt q (result_state (r_state v) q) (r_seq r) (clk 0) a))"
      by (simp add: f(4) w settle_attempt_def)
    show thesis by (rule that [OF f(1,3) a b]) (simp_all add: settle_attempt_def)
  qed
qed

lemma attempt_stays_settled:
  assumes "record_step r w" and "List.find (\<lambda>x. a_attemptId x = aid) (r_attempts r) = Some b" and "attempt_settled b"
  shows "\<exists>c. List.find (\<lambda>x. a_attemptId x = aid) (r_attempts w) = Some c \<and> attempt_settled c
    \<and> a_result c = a_result b \<and> a_state c = a_state b"
proof -
  from assms(1) have "list_evolves attempt_evolves (r_attempts r) (r_attempts w)"
    by (simp add: record_step_def run_evolves_def attempts_evolve_def)
  from list_evolves_find [OF this _ assms(2)] obtain c where
    "List.find (\<lambda>x. a_attemptId x = aid) (r_attempts w) = Some c" "attempt_evolves b c"
    by (auto simp: attempt_evolves_def)
  with assms(3) show ?thesis by (auto simp: attempt_evolves_def attempt_settled_def)
qed

text \<open>An Attempt has at most one result, ever. An acknowledged \<open>recordResult\<close> stores the given
  outcome and evidence on an Attempt that was not settled; whatever happens afterwards the stored
  result is still the same, and every later \<open>recordResult\<close> for that Attempt is refused.\<close>

lemma recordResult_once:
  assumes "recordResult rid aid q clk d = (Inr r, d')" and "store_history d' d2"
    and "recordResult rid aid q2 clk2 d2 = (res, d3)"
  shows "(\<exists>w b. stored d2 rid = Some w \<and> List.find (\<lambda>x. a_attemptId x = aid) (r_attempts w) = Some b
     \<and> a_result b = Some \<lparr>o_seq = r_seq r, o_at = clk 0, o_ok = p_ok q, o_outcome = p_outcome q, o_evidence = p_evidence q\<rparr>)
     \<and> (\<exists>e. res = Inl e)"
  using assms(1)
proof (rule recordResult_facts)
  fix v a b
  assume f: "get_run rid d' = Inr r" "List.find (\<lambda>x. a_attemptId x = aid) (r_attempts r) = Some b"
    "a_result b = Some \<lparr>o_seq = r_seq r, o_at = clk 0, o_ok = p_ok q, o_outcome = p_outcome q, o_evidence = p_evidence q\<rparr>"
  from f(3) have b: "attempt_settled b" by (simp add: attempt_settled_def)
  from assms(2) get_run_stored [OF f(1)] obtain w where w: "stored d2 rid = Some w" "record_step r w"
    by (rule store_history_run)
  from attempt_stays_settled [OF w(2) f(2) b] obtain c where
    c: "List.find (\<lambda>x. a_attemptId x = aid) (r_attempts w) = Some c" "attempt_settled c" "a_result c = a_result b" by blast
  have "\<exists>e. res = Inl e"
  proof (rule ccontr)
    assume "\<nexists>e. res = Inl e"
    then obtain y where y: "res = Inr y" by (cases res) auto
    from assms(3) [unfolded y] show False
    proof (rule recordResult_facts)
      fix v2 a2
      assume "get_run rid d2 = Inr v2" "List.find (\<lambda>x. a_attemptId x = aid) (r_attempts v2) = Some a2" "\<not> attempt_settled a2"
      with w(1) c show False by (auto dest: get_run_stored)
    qed
  qed
  with w(1) c f(3) show ?thesis by auto
qed

definition result_sample :: result_request where
  "result_sample = \<lparr>p_ok = True, p_outcome = JObj [(''kind'', JStr ''succeeded'')], p_evidence = ''agent-succeeded'',
     p_diagnostics = None\<rparr>"

definition resulted :: "(store_error + run_record) \<times> domain" where
  "resulted = recordResult ''run-1'' ''att-2'' result_sample clock (domain_of running_run)"

section \<open>Decisions\<close>

lemma set_somes: "x \<in> set (somes xs) \<longleftrightarrow> Some x \<in> set xs"
  by (force simp: somes_def List.map_filter_def)

lemma decision_outcome_id: "jfield ''decisionId'' (JObj (decision_outcome did action branch i)) = JStr did"
  by (simp add: decision_outcome_def)

lemma find_decision:
  assumes "x \<in> set as" and "map_option o_outcome (a_result x) = Some oc" and "jfield ''decisionId'' oc = JStr did"
  shows "List.find (\<lambda>oc. jfield ''decisionId'' oc = JStr did) (somes (map (\<lambda>a. map_option o_outcome (a_result a)) as)) \<noteq> None"
proof -
  have "Some oc \<in> set (map (\<lambda>a. map_option o_outcome (a_result a)) as)"
    using assms(1) assms(2) [symmetric] by simp
  then have "oc \<in> set (somes (map (\<lambda>a. map_option o_outcome (a_result a)) as))" unfolding set_somes .
  with assms(3) show ?thesis unfolding find_None_iff by blast
qed

lemma prior_decision_evolves:
  assumes "record_step r w" and "prior_decision did r \<noteq> None"
  shows "prior_decision did w \<noteq> None"
proof -
  from assms(2) obtain oc where oc: "oc \<in> set (somes (map (\<lambda>a. map_option o_outcome (a_result a)) (r_attempts r)))"
    "jfield ''decisionId'' oc = JStr did"
    by (auto simp: prior_decision_def find_None_iff)
  then obtain a where a: "a \<in> set (r_attempts r)" "map_option o_outcome (a_result a) = Some oc"
    unfolding set_somes set_map by (metis imageE)
  then obtain i where i: "i < length (r_attempts r)" "r_attempts r ! i = a" by (auto simp: in_set_conv_nth)
  from assms(1) have "list_evolves attempt_evolves (r_attempts r) (r_attempts w)"
    by (simp add: record_step_def run_evolves_def attempts_evolve_def)
  from list_evolves_nth [OF this i(1)] i(2) a(2) have "r_attempts w ! i \<in> set (r_attempts w)"
    "map_option o_outcome (a_result (r_attempts w ! i)) = Some oc"
    by (auto simp: attempt_evolves_def attempt_settled_def)
  from find_decision [OF this oc(2)] show ?thesis by (simp add: prior_decision_def)
qed

lemma prior_decision_decided:
  assumes "List.find decidable_attempt (r_attempts v) = Some a"
    and "r_attempts r = map honest_diagnostics (update_first decidable_attempt (decide_attempt did action branch seq now) (r_attempts v))"
  shows "prior_decision did r \<noteq> None"
  unfolding prior_decision_def
proof (rule find_decision)
  have "decide_attempt did action branch seq now a \<in> set (update_first decidable_attempt (decide_attempt did action branch seq now) as)"
    if "List.find decidable_attempt as = Some a" for as
    using that by (induction as) (auto split: if_splits)
  with assms show "honest_diagnostics (decide_attempt did action branch seq now a) \<in> set (r_attempts r)" by simp
  show "map_option o_outcome (a_result (honest_diagnostics (decide_attempt did action branch seq now a)))
      = Some (JObj (decision_outcome did action branch (a_nodeId a)))"
    by (simp add: decide_attempt_def)
qed (rule decision_outcome_id)

lemma decide_facts:
  assumes "decide rid did action branch clk d = (Inr (r, b), d')"
  shows "get_run rid d' = Inr r \<and> prior_decision did r \<noteq> None"
proof -
  from assms obtain v where v: "get_run rid d = Inr v" by (auto simp: decide_def split: sum.splits)
  show ?thesis
  proof (cases "prior_decision did v")
    case (Some p)
    with assms v show ?thesis by (auto simp: decide_def split: if_splits)
  next
    case None
    with assms v have "applyTransition rid (clk 2) no_replay (decide_reducer did action branch (clk 0) (clk 1)) d = (Inr r, d')"
      by (auto simp: decide_def split: if_splits prod.splits sum.splits)
    then show ?thesis
    proof (rule decide_red.applyTransition_facts)
      fix x w
      assume f: "decide_reducer did action branch (clk 0) (clk 1) x = Inr w" "get_run rid d' = Inr r"
        "r_attempts r = map honest_diagnostics (r_attempts w)"
      from f(1) obtain a where a: "List.find decidable_attempt (r_attempts x) = Some a"
        by (auto simp: decide_reducer_def split: option.splits)
      with f(1) have "r_attempts w = update_first decidable_attempt (decide_attempt did action branch (Suc (r_seq x)) (clk 0)) (r_attempts x)"
        by (auto simp: decide_reducer_def Let_def)
      with prior_decision_decided [OF a] f show ?thesis by simp
    qed
  qed
qed

text \<open>A human decision is applied once. After a decision id was acknowledged, a later decision
  with the same id never changes the store and is never reported as newly applied, whatever
  happened in between.\<close>

lemma decide_once:
  assumes "decide rid did action branch clk d = (Inr (r, b), d')" and "store_history d' d2"
    and "decide rid did action2 branch2 clk2 d2 = (res, d3)"
  shows "d3 = d2 \<and> (res = Inl DecisionConflictError \<or> (\<exists>e. get_run rid d2 = Inl e \<and> res = Inl e)
     \<or> (\<exists>w. stored d2 rid = Some w \<and> res = Inr (w, False)))"
proof -
  from decide_facts [OF assms(1)] have "stored d' rid = Some r" "prior_decision did r \<noteq> None"
    by (auto dest: get_run_stored)
  with assms(2) obtain w where w: "stored d2 rid = Some w" "prior_decision did w \<noteq> None"
    by (elim store_history_run) (auto dest: prior_decision_evolves)
  show ?thesis
  proof (cases "get_run rid d2")
    case (Inl e)
    with assms(3) show ?thesis by (auto simp: decide_def)
  next
    case (Inr x)
    with w(1) have "x = w" by (auto dest: get_run_stored)
    with Inr w assms(3) show ?thesis by (auto simp: decide_def split: if_splits)
  qed
qed

definition waiting_run :: run_record where
  "waiting_run = sample_run\<lparr>r_state := WaitingInput, r_seq := 2,
     r_attempts := [(sample_attempt ''att-1'' ''h'' AWaitingInput)\<lparr>a_intent := Some \<lparr>i_seq = 1, i_at = 1001,
        i_kind = ''humanDecision'', i_resourceDigests = [], i_bindingDigests = None\<rparr>\<rparr>]\<rparr>"

definition decided :: "(store_error + run_record \<times> bool) \<times> domain" where
  "decided = decide ''run-1'' ''dec-1'' Approve ''yes'' clock (domain_of waiting_run)"

end
