(* ===== verification/AdmissionHistory.thy ===== *)
theory AdmissionHistory
  imports RunHistory
begin

text \<open>
  Admission over whole histories: command records are never forgotten or rebound, every Run has the
  command that admitted it, and one command never owns two Runs, also when a write fails after it
  was published and the admission is retried.
\<close>

section \<open>The durable view of the commands\<close>

definition command_view :: "command_record table \<Rightarrow> string \<Rightarrow> command_record option" where
  "command_view t key = (case commands_get (t\<lparr>t_closed := False\<rparr>) key of Inl _ \<Rightarrow> None | Inr c \<Rightarrow> c)"

abbreviation command_of :: "domain \<Rightarrow> string \<Rightarrow> command_record option" where
  "command_of d \<equiv> command_view (d_commands d)"

lemma command_view_rows: "t_rows t' = t_rows t \<Longrightarrow> command_view t' = command_view t"
  by (rule ext) (simp add: command_view_def commands_get_def table_get_def)

lemma commands_get_view: "commands_get t key = Inr c \<Longrightarrow> command_view t key = c"
  by (auto simp: command_view_def commands_get_def table_get_def split: if_splits option.splits)

text \<open>One write of a command: other keys keep their record.\<close>

lemma commands_write:
  assumes "\<not> t_closed t" and "command_record_ok c"
  shows "command_view (t\<lparr>t_rows := AList.update key c (t_rows t)\<rparr>) j = (if j = key then Some c else command_view t j)"
  using assms by (simp add: command_view_def commands_get_def table_get_def commands_schema_def update_conv')

lemma commands_put_view:
  assumes "commands_put t key c = (res, t')"
  shows "command_view t' = command_view t \<or> command_view t' = (command_view t)(key \<mapsto> c)"
proof -
  from table_put_spec [OF schema_norms(2) assms [unfolded commands_put_def]] show ?thesis
    by (auto simp: commands_schema_def commands_write fun_eq_iff split: if_splits)
qed

lemma commands_update_view:
  assumes "commands_update t key f = (res, t')"
  shows "command_view t' = command_view t
     \<or> (\<exists>c. f (command_view t key) = Inr c \<and> command_view t' = (command_view t)(key \<mapsto> c))"
proof -
  from table_update_spec [OF schema_norms(2) assms [unfolded commands_update_def]]
  consider "t' = t" | cur v w where "table_get commands_schema t key = Inr cur" "f cur = Inr v"
      "sch_parse commands_schema key v = Some w" "\<not> t_closed t" "t' = t\<lparr>t_rows := AList.update key w (t_rows t)\<rparr>"
    by blast
  then show ?thesis
  proof cases
    case (2 cur v w)
    then have "command_view t key = cur" by (intro commands_get_view) (simp add: commands_get_def)
    moreover from 2(3) have "w = v" "command_record_ok v" by (auto simp: commands_schema_def split: if_splits)
    ultimately show ?thesis using 2 by (auto simp: commands_write fun_eq_iff)
  qed simp
qed

lemma admit_view:
  assumes "admit q now t = (res, t')"
  shows "command_view t' = command_view t
     \<or> (\<exists>key c. commandKey (ar_scope q) (ar_requestId q) = Inr key \<and> command_view t key = None
          \<and> command_view t' = (command_view t)(key \<mapsto> c) \<and> c_runId c = None
          \<and> c_payloadFingerprint c = ar_payloadFingerprint q)"
proof (cases "\<exists>key. commandKey (ar_scope q) (ar_requestId q) = Inr key \<and> commands_get t key = Inr None")
  case True
  then obtain key where k: "commandKey (ar_scope q) (ar_requestId q) = Inr key" "commands_get t key = Inr None" by blast
  define c where "c = \<lparr>c_commandKey = key, c_scope = ar_scope q, c_requestId = ar_requestId q,
      c_payloadFingerprint = ar_payloadFingerprint q, c_runId = None, c_createdAt = now\<rparr>"
  from assms k obtain x where "commands_put t key c = (x, t')"
    by (auto simp: admit_def Let_def c_def split: prod.splits sum.splits)
  from commands_put_view [OF this] commands_get_view [OF k(2)] k(1) show ?thesis by (auto simp: c_def)
next
  case False
  then have "t' = t" using assms by (auto simp: admit_def split: sum.splits option.splits if_splits)
  then show ?thesis by simp
qed

lemma bindRun_view:
  assumes "bindRun key rid t = (res, t')"
  shows "command_view t' = command_view t
     \<or> (\<exists>c. command_view t key = Some c \<and> c_runId c \<in> {None, Some rid}
          \<and> command_view t' = (command_view t)(key \<mapsto> c\<lparr>c_runId := Some rid\<rparr>))"
proof -
  from assms obtain x where "commands_update t key (bind_fn rid) = (x, t')"
    by (auto simp: bindRun_def split: prod.splits sum.splits if_splits)
  from commands_update_view [OF this] show ?thesis
    by (auto simp: bind_fn_def split: option.splits if_splits)
qed

section \<open>Listing\<close>

lemma table_entries_complete:
  assumes "table_entries_rows S rows = Inr es" and "map_of rows k = Some v" and "sch_key_ok S k" "\<not> sch_hidden S v"
  shows "\<exists>w. sch_parse S k v = Some w \<and> (k, w) \<in> set es"
  using assms
proof (induction rows arbitrary: es)
  case (Cons kv rows)
  obtain k0 v0 where kv: "kv = (k0, v0)" by (cases kv)
  show ?case
  proof (cases "\<not> sch_key_ok S k0 \<or> sch_hidden S v0")
    case True
    with Cons kv show ?thesis by (auto split: if_splits)
  next
    case False
    with Cons.prems(1) kv obtain w0 es0 where w: "sch_parse S k0 v0 = Some w0" "table_entries_rows S rows = Inr es0"
        "es = (k0, w0) # es0"
      by (auto split: option.splits sum.splits)
    with Cons kv show ?thesis by (cases "k0 = k") auto
  qed
qed simp

lemma listRunIds_complete:
  assumes "listRunIds d = Inr ids" and "stored d j = Some v"
  shows "j \<in> set ids"
proof -
  from assms(1) obtain es where es: "table_entries runs_schema (d_runs d) = Inr es"
    and ids: "ids = sort (map fst (filter (\<lambda>(_, r). \<not> isLegacyDefinition r) es))"
    by (auto simp: listRunIds_def split: sum.splits)
  from es have o: "\<not> t_closed (d_runs d)" and rows: "table_entries_rows runs_schema (t_rows (d_runs d)) = Inr es"
    by (auto simp: table_entries_def split: if_splits)
  from assms(2) o have g: "runs_get (d_runs d) j = Inr (Some v)" by (simp add: stored_open)
  then obtain x where x: "map_of (t_rows (d_runs d)) j = Some x" "sch_key_ok runs_schema j" "\<not> sch_hidden runs_schema x"
      "sch_parse runs_schema j x = Some v"
    by (auto simp: runs_get_def table_get_def split: if_splits option.splits)
  from table_entries_complete [OF rows x(1-3)] x(4) have "(j, v) \<in> set es" by auto
  with runs_get_visible [OF g] show ?thesis by (force simp: ids)
qed

lemma find_by_command_None:
  assumes "find_by_command key d ids = Inr None" and "j \<in> set ids" and "stored d j = Some v"
  shows "r_commandKey v \<noteq> key"
  using assms(1,2)
proof (induction ids)
  case (Cons i ids)
  from Cons.prems(1) obtain r where r: "get_run i d = Inr r" "r_commandKey r \<noteq> key" "find_by_command key d ids = Inr None"
    by (auto split: sum.splits if_splits)
  with Cons show ?case using get_run_stored [OF r(1)] assms(3) by auto
qed simp

lemma find_by_command_Some:
  "find_by_command key d ids = Inr (Some (i, r)) \<Longrightarrow> get_run i d = Inr r \<and> r_commandKey r = key"
  by (induction ids) (auto split: sum.splits if_splits)

lemma discover_None: "discover_run key d = Inr None \<Longrightarrow> stored d j = Some v \<Longrightarrow> r_commandKey v \<noteq> key"
  using find_by_command_None listRunIds_complete by (fastforce simp: discover_run_def split: sum.splits)

lemma discover_Some: "discover_run key d = Inr (Some (i, r)) \<Longrightarrow> stored d i = Some r \<and> r_commandKey r = key"
  by (auto simp: discover_run_def dest!: find_by_command_Some get_run_stored split: sum.splits)

section \<open>Commands are never forgotten\<close>

definition command_evolves :: "(string \<Rightarrow> command_record option) \<Rightarrow> (string \<Rightarrow> command_record option) \<Rightarrow> bool" where
  "command_evolves m m' \<longleftrightarrow>
     (\<forall>key c. m key = Some c \<longrightarrow>
        (\<exists>c'. m' key = Some c' \<and> c_payloadFingerprint c' = c_payloadFingerprint c
             \<and> (c_runId c \<noteq> None \<longrightarrow> c_runId c' = c_runId c)))"

lemma command_evolves_refl [simp]: "command_evolves m m"
  by (simp add: command_evolves_def)

lemma command_evolves_trans: "command_evolves a b \<Longrightarrow> command_evolves b c \<Longrightarrow> command_evolves a c"
  unfolding command_evolves_def by (metis option.distinct(1))

lemma admit_evolves: "admit q now t = (res, t') \<Longrightarrow> command_evolves (command_view t) (command_view t')"
  using admit_view by (fastforce simp: command_evolves_def)

lemma bindRun_evolves: "bindRun key rid t = (res, t') \<Longrightarrow> command_evolves (command_view t) (command_view t')"
  using bindRun_view by (fastforce simp: command_evolves_def)

text \<open>The paths through \<open>createRun\<close>, from the write of the Run on.\<close>

lemma createRun_write_cases:
  assumes c: "createRunSerial q dr dj inp m uuid clk d = (res, d')" and a: "admit q (clk 0) (d_commands d) = (Inr ad, t)"
    and b: "\<not> (ad_replayed ad \<and> ad_runId ad \<noteq> None)"
    and disc: "(if ad_replayed ad then discover_run (ad_commandKey ad) (d\<lparr>d_commands := t\<rparr>) else Inr None) = Inr None"
  obtains (failed) e where "d' = d\<lparr>d_commands := t\<rparr>" "res = Inl e"
  | (put) i y z where "i = (case md_reservedRunId m of Some rid \<Rightarrow> rid | None \<Rightarrow> ''run-'' @ uuid)"
      "md_reservedRunId m \<noteq> None \<longrightarrow> runs_get (d_runs d) i = Inr None"
      "runs_put (d_runs d) i (new_run q (ad_commandKey ad) dr dj inp m i (clk 1)) = (y, d_runs d')"
      "d_commands d' = t \<and> (\<exists>e. res = Inl e) \<or> bindRun (ad_commandKey ad) i t = (z, d_commands d')"
      "(\<exists>v. y = Inr v \<and> res = Inr (i, False) \<and> bindRun (ad_commandKey ad) i t = (Inr (), d_commands d')) \<or> (\<exists>e. res = Inl e)"
proof -
  define i where "i = (case md_reservedRunId m of Some rid \<Rightarrow> rid | None \<Rightarrow> ''run-'' @ uuid)"
  define rd where "rd = (if md_reservedRunId m \<noteq> None then runs_get (d_runs d) i else Inr None)"
  obtain y t1 where y: "runs_put (d_runs d) i (new_run q (ad_commandKey ad) dr dj inp m i (clk 1)) = (y, t1)"
    by (cases "runs_put (d_runs d) i (new_run q (ad_commandKey ad) dr dj inp m i (clk 1))")
  obtain z t2 where z: "bindRun (ad_commandKey ad) i t = (z, t2)" by (cases "bindRun (ad_commandKey ad) i t")
  have sel: "d_runs (d\<lparr>d_commands := t\<rparr>) = d_runs d" "d_commands (d\<lparr>d_commands := t\<rparr>) = t" by simp_all
  from c have eq: "(case rd of
        Inl _ \<Rightarrow> (Inl (DurabilityFailureError ''child reservation read''), d\<lparr>d_commands := t\<rparr>)
      | Inr (Some _) \<Rightarrow> (Inl AttemptSettledError, d\<lparr>d_commands := t\<rparr>)
      | Inr None \<Rightarrow> (case y of
           Inl _ \<Rightarrow> (Inl (DurabilityFailureError (''run create '' @ i)), d\<lparr>d_commands := t, d_runs := t1\<rparr>)
         | Inr _ \<Rightarrow> (case z of
              Inl _ \<Rightarrow> (Inl (DurabilityFailureError (''run create '' @ i)), d\<lparr>d_commands := t, d_runs := t1, d_commands := t2\<rparr>)
            | Inr _ \<Rightarrow> (Inr (i, False), d\<lparr>d_commands := t, d_runs := t1, d_commands := t2\<rparr>)))) = (res, d')"
    by (simp only: createRunSerial_def a prod.case sum.case Let_def if_not_P [OF b] disc option.case sel
        i_def [symmetric] rd_def [symmetric] y z)
  show thesis
  proof (cases "rd = Inr None")
    case False
    then have "d' = d\<lparr>d_commands := t\<rparr> \<and> (\<exists>e. res = Inl e)" using eq by (auto split: sum.splits option.splits)
    with failed show thesis by blast
  next
    case True
    then have res: "md_reservedRunId m \<noteq> None \<longrightarrow> runs_get (d_runs d) i = Inr None" by (auto simp: rd_def)
    have runs: "d_runs d' = t1" using eq True by (auto split: sum.splits)
    have cmds: "d_commands d' = t \<and> (\<exists>e. res = Inl e) \<or> bindRun (ad_commandKey ad) i t = (z, d_commands d')"
      using eq True z by (auto split: sum.splits)
    have out: "(\<exists>v. y = Inr v \<and> res = Inr (i, False) \<and> bindRun (ad_commandKey ad) i t = (Inr (), d_commands d')) \<or> (\<exists>e. res = Inl e)"
      using eq True z by (auto split: sum.splits)
    show thesis by (rule put [OF i_def res y [folded runs] cmds out])
  qed
qed

text \<open>All paths.\<close>

lemma createRun_cases:
  assumes "createRun q dr dj inp m uuid clk d = (res, d')"
  obtains (refused) e where "d' = d" "res = Inl e"
  | (replayed) ad where "admit q (clk 0) (d_commands d) = (Inr ad, d_commands d')" "d' = d\<lparr>d_commands := d_commands d'\<rparr>"
      "ad_replayed ad" "ad_runId ad \<noteq> None" "res = Inr (the (ad_runId ad), True)"
  | (failed) x e where "admit q (clk 0) (d_commands d) = (x, d_commands d')" "d' = d\<lparr>d_commands := d_commands d'\<rparr>" "res = Inl e"
  | (found) ad t i r y where "admit q (clk 0) (d_commands d) = (Inr ad, t)" "ad_replayed ad" "ad_runId ad = None"
      "discover_run (ad_commandKey ad) (d\<lparr>d_commands := t\<rparr>) = Inr (Some (i, r))"
      "bindRun (ad_commandKey ad) i t = (y, d_commands d')" "d' = d\<lparr>d_commands := d_commands d'\<rparr>"
      "res = Inr (i, True) \<and> y = Inr () \<or> (\<exists>e. res = Inl e)"
  | (written) ad t i y z where "admit q (clk 0) (d_commands d) = (Inr ad, t)" "ad_runId ad = None"
      "ad_replayed ad \<longrightarrow> discover_run (ad_commandKey ad) (d\<lparr>d_commands := t\<rparr>) = Inr None"
      "i = (case md_reservedRunId m of Some rid \<Rightarrow> rid | None \<Rightarrow> ''run-'' @ uuid)"
      "md_reservedRunId m \<noteq> None \<longrightarrow> runs_get (d_runs d) i = Inr None"
      "runs_put (d_runs d) i (new_run q (ad_commandKey ad) dr dj inp m i (clk 1)) = (y, d_runs d')"
      "d_commands d' = t \<and> (\<exists>e. res = Inl e) \<or> bindRun (ad_commandKey ad) i t = (z, d_commands d')"
      "(\<exists>v. y = Inr v \<and> res = Inr (i, False) \<and> bindRun (ad_commandKey ad) i t = (Inr (), d_commands d')) \<or> (\<exists>e. res = Inl e)"
proof (cases "metadata_ok m")
  case False
  with assms show thesis by (intro refused) (auto simp: createRun_def)
next
  case True
  with assms have c: "createRunSerial q dr dj inp m uuid clk d = (res, d')" by (simp add: createRun_def)
  obtain x t where a: "admit q (clk 0) (d_commands d) = (x, t)" by (cases "admit q (clk 0) (d_commands d)")
  show thesis
  proof (cases x)
    case (Inl e)
    with c a show thesis by (intro failed [of x e]) (auto simp: createRunSerial_def)
  next
    case (Inr ad)
    let ?d = "d\<lparr>d_commands := t\<rparr>" and ?key = "ad_commandKey ad"
    have runId: "ad_runId ad = None" if "\<not> ad_replayed ad" using admit_Inr [OF a [unfolded Inr]] that by simp
    show thesis
    proof (cases "ad_replayed ad \<and> ad_runId ad \<noteq> None")
      case True
      with c a Inr show thesis by (intro replayed [of ad]) (auto simp: createRunSerial_def Let_def)
    next
      case not_bound: False
      with runId have none: "ad_runId ad = None" by blast
      define disc where "disc = (if ad_replayed ad then discover_run ?key ?d else Inr None)"
      show thesis
      proof (cases disc)
        case (Inl e)
        then have "ad_replayed ad" "discover_run ?key ?d = Inl e" by (auto simp: disc_def split: if_splits)
        with c a Inr none show thesis by (intro failed [of x e]) (auto simp: createRunSerial_def Let_def)
      next
        case d: (Inr f)
        show thesis
        proof (cases f)
          case (Some ir)
          obtain i r where ir: "ir = (i, r)" by (cases ir)
          obtain y t' where b: "bindRun ?key i t = (y, t')" by (cases "bindRun ?key i t")
          have rep: "ad_replayed ad" "discover_run ?key ?d = Inr (Some (i, r))"
            using d Some ir by (auto simp: disc_def split: if_splits)
          from c a Inr none rep b have "d' = d\<lparr>d_commands := t'\<rparr>" "res = Inr (i, True) \<and> y = Inr () \<or> (\<exists>e. res = Inl e)"
            by (auto simp: createRunSerial_def Let_def split: sum.splits)
          with found [OF a [unfolded Inr] rep(1) none rep(2)] b show thesis by simp
        next
          case None
          show thesis
          proof (rule createRun_write_cases [OF c a [unfolded Inr] not_bound d [unfolded disc_def None]])
            fix e
            assume "d' = d\<lparr>d_commands := t\<rparr>" "res = Inl e"
            then show thesis using a by (intro failed [of x e]) auto
          next
            fix i y z
            assume "i = (case md_reservedRunId m of Some rid \<Rightarrow> rid | None \<Rightarrow> ''run-'' @ uuid)"
              "md_reservedRunId m \<noteq> None \<longrightarrow> runs_get (d_runs d) i = Inr None"
              "runs_put (d_runs d) i (new_run q (ad_commandKey ad) dr dj inp m i (clk 1)) = (y, d_runs d')"
              "d_commands d' = t \<and> (\<exists>e. res = Inl e) \<or> bindRun (ad_commandKey ad) i t = (z, d_commands d')"
              "(\<exists>v. y = Inr v \<and> res = Inr (i, False) \<and> bindRun (ad_commandKey ad) i t = (Inr (), d_commands d')) \<or> (\<exists>e. res = Inl e)"
            moreover have "ad_replayed ad \<longrightarrow> discover_run ?key ?d = Inr None" using d None by (auto simp: disc_def)
            ultimately show thesis by (intro written [OF a [unfolded Inr] none]) auto
          qed
        qed
      qed
    qed
  qed
qed

section \<open>The admission invariant\<close>

text \<open>
  Every Run has the command that admitted it, which is bound to no other Run, and two Runs never
  share a command.
\<close>

definition admission_wf :: "domain \<Rightarrow> bool" where
  "admission_wf d \<longleftrightarrow>
     (\<forall>j v. stored d j = Some v \<longrightarrow>
        (\<exists>c. command_of d (r_commandKey v) = Some c \<and> (c_runId c = None \<or> c_runId c = Some j)))
     \<and> (\<forall>i j v w. stored d i = Some v \<longrightarrow> stored d j = Some w \<longrightarrow> r_commandKey v = r_commandKey w \<longrightarrow> i = j)"

lemma admission_wf_command:
  assumes "admission_wf d" and "stored d j = Some v"
  obtains c where "command_of d (r_commandKey v) = Some c" "c_runId c = None \<or> c_runId c = Some j"
  using assms unfolding admission_wf_def by blast

lemma admission_wf_unique:
  "admission_wf d \<Longrightarrow> stored d i = Some v \<Longrightarrow> stored d j = Some w \<Longrightarrow> r_commandKey v = r_commandKey w \<Longrightarrow> i = j"
  unfolding admission_wf_def by blast

lemma admission_wfI:
  assumes "\<And>j v. stored d j = Some v \<Longrightarrow> \<exists>c. command_of d (r_commandKey v) = Some c \<and> (c_runId c = None \<or> c_runId c = Some j)"
    and "\<And>i j v w. stored d i = Some v \<Longrightarrow> stored d j = Some w \<Longrightarrow> r_commandKey v = r_commandKey w \<Longrightarrow> i = j"
  shows "admission_wf d"
  using assms unfolding admission_wf_def by blast

lemma quiet_step_key:
  assumes "quiet_step d d'" and "stored d' j = Some w"
  obtains v where "stored d j = Some v" "r_commandKey v = r_commandKey w"
proof -
  from assms obtain v where v: "stored d j = Some v" by (cases "stored d j") (auto simp: quiet_step_def)
  with assms have "record_step v w" by (fastforce simp: quiet_step_def)
  with v that show thesis by (simp add: record_step_def run_evolves_def frozen_facts_def)
qed

lemma admission_wf_quiet:
  assumes wf: "admission_wf d" and q: "quiet_step d d'"
  shows "admission_wf d'"
proof (rule admission_wfI)
  have same: "command_of d' = command_of d" using q by (intro command_view_rows) (simp add: quiet_step_def)
  fix j w
  assume "stored d' j = Some w"
  with q obtain v where v: "stored d j = Some v" "r_commandKey v = r_commandKey w" by (rule quiet_step_key)
  from wf v(1) obtain c where "command_of d (r_commandKey v) = Some c" "c_runId c = None \<or> c_runId c = Some j"
    by (rule admission_wf_command)
  with v(2) same show "\<exists>c. command_of d' (r_commandKey w) = Some c \<and> (c_runId c = None \<or> c_runId c = Some j)" by simp
next
  fix i j v w
  assume v: "stored d' i = Some v" and w: "stored d' j = Some w" and k: "r_commandKey v = r_commandKey w"
  from q v obtain v0 where v0: "stored d i = Some v0" "r_commandKey v0 = r_commandKey v" by (rule quiet_step_key)
  from q w obtain w0 where w0: "stored d j = Some w0" "r_commandKey w0 = r_commandKey w" by (rule quiet_step_key)
  show "i = j" by (rule admission_wf_unique [OF wf v0(1) w0(1)]) (simp add: v0 w0 k)
qed

lemma runs_put_stored:
  assumes put: "runs_put (d_runs d) i v = (y, d_runs d')"
  shows "j \<noteq> i \<Longrightarrow> stored d' j = stored d j"
    and "stored d' i = Some w \<Longrightarrow> stored d i = Some w \<or> w = run_record_transform v"
proof -
  have closed: "t_closed (d_runs d) \<Longrightarrow> stored d' k = stored d k" for k
    using runs_put_closed [OF _ put] stored_runs by blast
  have o: "\<not> t_closed (d_runs d')" if "\<not> t_closed (d_runs d)" using runs_put_open [OF put] that by simp
  show "j \<noteq> i \<Longrightarrow> stored d' j = stored d j"
    using closed o runs_kv.put_other [OF put] by (cases "t_closed (d_runs d)") (simp_all add: stored_get)
  show "stored d' i = Some w \<Longrightarrow> stored d i = Some w \<or> w = run_record_transform v"
    using closed o runs_kv.put_rows [OF put, of i w] by (cases "t_closed (d_runs d)") (auto simp: stored_open)
qed

lemma admission_wf_commands:
  assumes "admission_wf d" and "d' = d\<lparr>d_commands := t\<rparr>"
    and "\<And>key c. command_of d key = Some c \<Longrightarrow> command_view t key = Some c \<or>
           (\<exists>i r. stored d i = Some r \<and> r_commandKey r = key \<and> command_view t key = Some (c\<lparr>c_runId := Some i\<rparr>))"
  shows "admission_wf d'"
proof (rule admission_wfI)
  have st: "stored d' j = stored d j" for j using assms(2) by (intro stored_runs) simp
  have cmd: "\<exists>c. command_view t (r_commandKey v) = Some c \<and> (c_runId c = None \<or> c_runId c = Some j)" if v: "stored d j = Some v" for j v
  proof -
    from assms(1) v obtain c where c: "command_of d (r_commandKey v) = Some c" "c_runId c = None \<or> c_runId c = Some j"
      by (rule admission_wf_command)
    from assms(3) [OF c(1)] show ?thesis
    proof (elim disjE exE conjE)
      fix i r
      assume "stored d i = Some r" "r_commandKey r = r_commandKey v" "command_view t (r_commandKey v) = Some (c\<lparr>c_runId := Some i\<rparr>)"
      moreover from this v have "i = j" using admission_wf_unique [OF assms(1)] by blast
      ultimately show ?thesis by simp
    qed (use c in auto)
  qed
  then show "\<exists>c. command_of d' (r_commandKey v) = Some c \<and> (c_runId c = None \<or> c_runId c = Some j)"
    if "stored d' j = Some v" for j v using that st assms(2) by simp
  show "i = j" if "stored d' i = Some v" "stored d' j = Some w" "r_commandKey v = r_commandKey w" for i j v w
    using that st admission_wf_unique [OF assms(1)] by simp
qed

lemma createRun_admission_wf:
  assumes wf: "admission_wf d" and c: "createRun q dr dj inp m uuid clk d = (res, d')"
    and fresh: "md_reservedRunId m = None \<Longrightarrow> stored d (''run-'' @ uuid) = None"
  shows "admission_wf d'"
  using c
proof (cases rule: createRun_cases)
  case refused
  with wf show ?thesis by simp
next
  case (replayed ad)
  show ?thesis by (rule admission_wf_commands [OF wf replayed(2)]) (use admit_view [OF replayed(1)] in auto)
next
  case (failed x e)
  show ?thesis by (rule admission_wf_commands [OF wf failed(2)]) (use admit_view [OF failed(1)] in auto)
next
  case (found ad t i r y)
  from discover_Some [OF found(4)] have r: "stored d i = Some r" "r_commandKey r = ad_commandKey ad"
    by (simp_all add: stored_def)
  show ?thesis
  proof (rule admission_wf_commands [OF wf found(6)])
    fix key c
    assume "command_of d key = Some c"
    with admit_view [OF found(1)] have "command_view t key = Some c" by auto
    with bindRun_view [OF found(5)] have "command_of d' key = Some c
        \<or> key = ad_commandKey ad \<and> command_of d' key = Some (c\<lparr>c_runId := Some i\<rparr>)"
      by (cases "key = ad_commandKey ad") auto
    with r show "command_of d' key = Some c \<or>
        (\<exists>i r. stored d i = Some r \<and> r_commandKey r = key \<and> command_of d' key = Some (c\<lparr>c_runId := Some i\<rparr>))" by blast
  qed
next
  case (written ad t i y z)
  let ?key = "ad_commandKey ad" and ?new = "run_record_transform (new_run q (ad_commandKey ad) dr dj inp m i (clk 1))"
  from admit_Inr [OF written(1)] written(2) obtain c where c: "command_view t ?key = Some c" "c_runId c = None"
    and unknown: "\<not> ad_replayed ad \<longrightarrow> command_of d ?key = None"
    using commands_get_view by (cases "ad_replayed ad") fastforce+
  have nokey: "r_commandKey v \<noteq> ?key" if v: "stored d j = Some v" for j v
  proof (cases "ad_replayed ad")
    case True
    with written(3) discover_None [of ?key "d\<lparr>d_commands := t\<rparr>" j v] v show ?thesis by (simp add: stored_def)
  next
    case False
    with unknown admission_wf_command [OF wf v] show ?thesis by fastforce
  qed
  have none: "stored d i = None" by (rule createRun_fresh [OF fresh written(4,5)])
  note put = runs_put_stored [OF written(6)]
  have other_t: "command_view t k = command_of d k" if "k \<noteq> ?key" for k
    using admit_view [OF written(1)] admit_Inr [OF written(1)] that by auto
  have view: "command_of d' = command_view t
      \<or> command_of d' = (command_view t)(?key \<mapsto> c\<lparr>c_runId := Some i\<rparr>)"
    using written(7)
  proof
    assume "d_commands d' = t \<and> (\<exists>e. res = Inl e)"
    then show ?thesis by simp
  next
    assume "bindRun ?key i t = (z, d_commands d')"
    from bindRun_view [OF this] c(1) show ?thesis by auto
  qed
  then have key': "\<exists>c. command_of d' ?key = Some c \<and> (c_runId c = None \<or> c_runId c = Some i)"
    using c by (elim disjE) simp_all
  have other: "command_of d' k = command_of d k" if "k \<noteq> ?key" for k
    using view other_t [OF that] that by (elim disjE) simp_all
  have rows: "stored d j = Some v \<or> j = i \<and> v = ?new" if "stored d' j = Some v" for j v
  proof (cases "j = i")
    case True
    with that have "stored d' i = Some v" by simp
    from put(2) [OF this] none True show ?thesis by simp
  next
    case False
    with that put(1) [OF False] show ?thesis by simp
  qed
  have newkey: "r_commandKey ?new = ?key" by (simp add: new_run_def)
  show ?thesis
  proof (rule admission_wfI)
    fix j v
    assume "stored d' j = Some v"
    from rows [OF this] show "\<exists>c. command_of d' (r_commandKey v) = Some c \<and> (c_runId c = None \<or> c_runId c = Some j)"
    proof (elim disjE conjE)
      assume v: "stored d j = Some v"
      from wf v obtain c where "command_of d (r_commandKey v) = Some c" "c_runId c = None \<or> c_runId c = Some j"
        by (rule admission_wf_command)
      with other [OF nokey [OF v]] show ?thesis by simp
    qed (use key' newkey in simp)
  next
    fix j k v w
    assume "stored d' j = Some v" "stored d' k = Some w" "r_commandKey v = r_commandKey w"
    with rows [of j v] rows [of k w] newkey nokey admission_wf_unique [OF wf] show "j = k" by metis
  qed
qed

section \<open>Histories\<close>

lemma createRun_commands:
  "createRun q dr dj inp m uuid clk d = (res, d') \<Longrightarrow> command_evolves (command_of d) (command_of d')"
  by (erule createRun_cases)
    (auto dest!: admit_evolves bindRun_evolves intro: command_evolves_trans)

lemma store_step_commands:
  assumes "store_step d d'"
  shows "command_evolves (command_of d) (command_of d')"
  using assms
proof (cases rule: store_step_cases)
  case create
  then show ?thesis by (intro createRun_commands)
next
  case quiet
  then have "command_of d' = command_of d" by (intro command_view_rows) (simp add: quiet_step_def)
  then show ?thesis by simp
qed

lemma store_history_commands: "store_history d d' \<Longrightarrow> command_evolves (command_of d) (command_of d')"
  by (induction rule: rtranclp_induct) (auto dest: store_step_commands intro: command_evolves_trans)

lemma store_step_admission: "store_step d d' \<Longrightarrow> admission_wf d \<Longrightarrow> admission_wf d'"
  by (erule store_step_cases) (auto intro: createRun_admission_wf admission_wf_quiet)

lemma store_history_admission: "store_history d d' \<Longrightarrow> admission_wf d \<Longrightarrow> admission_wf d'"
  by (induction rule: rtranclp_induct) (auto dest: store_step_admission)

lemma admission_wf_empty: "admission_wf (open_domain [] cs ls)"
  by (simp add: admission_wf_def stored_def open_domain_def open_table_def runs_get_def table_get_def)

section \<open>A bound command\<close>

lemma bindRun_binds:
  assumes b: "bindRun key rid t = (Inr (), t')" and c: "command_view t key = Some c"
  shows "\<exists>c'. command_view t' key = Some c' \<and> c_runId c' = Some rid \<and> c_payloadFingerprint c' = c_payloadFingerprint c"
proof -
  from bindRun_bound [OF b] obtain x where x: "command_view t' key = Some x" "c_runId x = Some rid"
    by (auto dest!: commands_get_view)
  with bindRun_evolves [OF b] c have "c_payloadFingerprint x = c_payloadFingerprint c"
    unfolding command_evolves_def by (metis option.inject)
  with x show ?thesis by blast
qed

text \<open>An acknowledged admission has bound its command to the Run it returns.\<close>

lemma createRun_binds:
  assumes "createRun q dr dj inp m uuid clk d = (Inr (rid, rep), d')"
  obtains key c where "commandKey (ar_scope q) (ar_requestId q) = Inr key" "command_of d' key = Some c"
    "c_runId c = Some rid" "c_payloadFingerprint c = ar_payloadFingerprint q"
  using assms
proof (cases rule: createRun_cases)
  case (replayed ad)
  with admit_Inr [OF replayed(1)] show thesis by (intro that) (auto dest: commands_get_view)
next
  case (found ad t i r y)
  then have b: "bindRun (ad_commandKey ad) rid t = (Inr (), d_commands d')" by simp
  from admit_Inr [OF found(1)] found(2) have t: "command_view t (ad_commandKey ad) = Some (ad_record ad)"
    "commandKey (ar_scope q) (ar_requestId q) = Inr (ad_commandKey ad)"
    "c_payloadFingerprint (ad_record ad) = ar_payloadFingerprint q" by (auto dest: commands_get_view)
  from bindRun_binds [OF b t(1)] t(3) that [OF t(2)] show thesis by auto
next
  case (written ad t i y z)
  then have b: "bindRun (ad_commandKey ad) rid t = (Inr (), d_commands d')" by auto
  from admit_Inr [OF written(1)] have t: "command_view t (ad_commandKey ad) = Some (ad_record ad)"
    "commandKey (ar_scope q) (ar_requestId q) = Inr (ad_commandKey ad)"
    "c_payloadFingerprint (ad_record ad) = ar_payloadFingerprint q"
    by (cases "ad_replayed ad", auto dest: commands_get_view)+
  from bindRun_binds [OF b t(1)] t(3) that [OF t(2)] show thesis by auto
qed auto

text \<open>Admission of a bound command replays it.\<close>

lemma createRun_bound:
  assumes "createRun q dr dj inp m uuid clk d = (res, d')"
    and k: "commandKey (ar_scope q) (ar_requestId q) = Inr key" "command_of d key = Some c" "c_runId c = Some rid"
  shows "d_runs d' = d_runs d
     \<and> (res = Inr (rid, True) \<and> c_payloadFingerprint c = ar_payloadFingerprint q \<or> (\<exists>e. res = Inl e))"
proof -
  have bound: "ad_replayed ad \<and> ad_runId ad = Some rid \<and> c_payloadFingerprint c = ar_payloadFingerprint q"
    if a: "admit q (clk 0) (d_commands d) = (Inr ad, t)" for ad t
  proof -
    from admit_Inr [OF a] k(1) have key: "ad_commandKey ad = key" by simp
    have "ad_replayed ad"
      using admit_Inr [OF a] commands_get_view [of "d_commands d" key None] k(2) key by (cases "ad_replayed ad") auto
    with admit_Inr [OF a] commands_get_view [of "d_commands d" key "Some (ad_record ad)"] k key show ?thesis by auto
  qed
  from assms(1) show ?thesis
  proof (cases rule: createRun_cases)
    case (replayed ad)
    with bound [OF replayed(1)] show ?thesis by (cases d') auto
  next
    case (failed x e)
    then show ?thesis by (cases d') auto
  next
    case (found ad t i r y)
    with bound [OF found(1)] show ?thesis by simp
  next
    case (written ad t i y z)
    with bound [OF written(1)] show ?thesis by simp
  qed simp
qed

end
