(* ===== verification/AdmissionProperties.thy ===== *)
theory AdmissionProperties
  imports AdmissionHistory Samples
begin

text \<open>
  Properties of admission: the identity of a command, one Run per command over whole histories, and
  the durable idempotency of \<open>createRun\<close>.
\<close>

section \<open>Command identity\<close>

text \<open>The runtime's command keys identify their commands. For scopes without a dash, which are
  the ones the runtime uses, two identities with the same key are the same identity.\<close>

lemma commandKey_injective:
  assumes "CHR ''-'' \<notin> set s" and "CHR ''-'' \<notin> set s'"
    and "commandKey s i = Inr k" and "commandKey s' i' = Inr k"
  shows "s = s' \<and> i = i'"
  using dashless_prefix_unique [OF assms(1,2)] assms(3,4) by (auto simp: commandKey_Inr)

text \<open>In general the key is ambiguous: two different identities that both pass the key pattern
  have the same command key, because the pattern admits the separator inside a scope.\<close>

lemma commandKey_ambiguous:
  "commandKey ''a--b'' ''c'' = commandKey ''a'' ''b--c'' \<and> \<not> isl (commandKey ''a'' ''b--c'')"
  by code_simp

section \<open>One command, one Run\<close>

text \<open>C2: Over every history from an empty store, including writes that fail after they were
  published and admissions retried after a crash, no two stored Runs have the same command, and
  the command of a Run is recorded and bound to no other Run.\<close>

theorem history_one_run_per_command:
  assumes "store_history (open_domain [] cs ls) d" and "stored d i = Some v"
  shows "(\<forall>j w. stored d j = Some w \<and> r_commandKey w = r_commandKey v \<longrightarrow> j = i)
     \<and> (\<exists>c. command_of d (r_commandKey v) = Some c \<and> (c_runId c = None \<or> c_runId c = Some i))"
proof -
  from store_history_admission [OF assms(1) admission_wf_empty] have wf: "admission_wf d" .
  from wf assms(2) obtain c where "command_of d (r_commandKey v) = Some c" "c_runId c = None \<or> c_runId c = Some i"
    by (rule admission_wf_command)
  with admission_wf_unique [OF wf _ assms(2)] show ?thesis by blast
qed

definition admitted :: "(store_error + string \<times> bool) \<times> domain" where
  "admitted = createRun sample_request ''rev-1'' (Some (JObj [])) (Some (JObj [])) sample_metadata ''1'' clock
     (open_domain [] [] [])"

lemma admitted_value: "admitted = (Inr (''run-1'', False), snd admitted)"
proof -
  have "(case fst admitted of Inl _ \<Rightarrow> False | Inr (i, b) \<Rightarrow> i = ''run-1'' \<and> \<not> b)" by code_simp
  then have "fst admitted = Inr (''run-1'', False)" by (auto split: sum.splits)
  then show ?thesis by (metis prod.collapse)
qed

lemma admitted_history: "store_history (open_domain [] [] []) (snd admitted)"
proof (rule r_into_rtranclp, rule st_createRun)
  show "createRun sample_request ''rev-1'' (Some (JObj [])) (Some (JObj [])) sample_metadata ''1'' clock (open_domain [] [] [])
      = (fst admitted, snd admitted)" by (simp add: admitted_def)
qed (simp add: stored_def open_domain_def open_table_def runs_get_def table_get_def)

lemma admitted_run: "\<exists>v. stored (snd admitted) ''run-1'' = Some v \<and> r_commandKey v = ''run--req-1''"
proof -
  have "map_option r_commandKey (stored (snd admitted) ''run-1'') = Some ''run--req-1''" by code_simp
  then show ?thesis by auto
qed

theorem history_one_run_per_command_witness: "\<exists>c. command_of (snd admitted) ''run--req-1'' = Some c"
  using history_one_run_per_command [OF admitted_history] admitted_run by fastforce

section \<open>Idempotent admission\<close>

text \<open>C3: Admission is idempotent for ever. Once \<open>createRun\<close> acknowledged a request with a Run id,
  a later \<open>createRun\<close> for the same scope and request id, whatever happened in between and whatever
  else it carries, writes no Run: it returns the same Run id as a replay, provided the payload
  fingerprint is the same, or fails.\<close>

theorem createRun_idempotent:
  assumes "createRun q dr dj inp m uuid clk d = (Inr (rid, rep), d')" and "store_history d' d2"
    and "ar_scope q2 = ar_scope q" and "ar_requestId q2 = ar_requestId q"
    and "createRun q2 dr2 dj2 inp2 m2 uuid2 clk2 d2 = (res, d3)"
  shows "d_runs d3 = d_runs d2
     \<and> (res = Inr (rid, True) \<and> ar_payloadFingerprint q2 = ar_payloadFingerprint q \<or> (\<exists>e. res = Inl e))"
  using assms(1)
proof (rule createRun_binds)
  fix key c
  assume k: "commandKey (ar_scope q) (ar_requestId q) = Inr key" "command_of d' key = Some c" "c_runId c = Some rid"
    "c_payloadFingerprint c = ar_payloadFingerprint q"
  from store_history_commands [OF assms(2)] k(2,3) obtain c' where c': "command_of d2 key = Some c'"
    "c_runId c' = Some rid" "c_payloadFingerprint c' = c_payloadFingerprint c"
    unfolding command_evolves_def by (metis option.distinct(1))
  from createRun_bound [OF assms(5) _ c'(1,2)] k(1,4) assms(3,4) c'(3) show ?thesis by auto
qed

theorem createRun_idempotent_witness:
  "d_runs (snd (createRun sample_request ''rev-2'' None None sample_metadata ''2'' clock (snd admitted))) = d_runs (snd admitted)"
  using createRun_idempotent [OF admitted_value [unfolded admitted_def] rtranclp.rtrancl_refl refl refl prod.collapse [symmetric]]
  by (simp add: admitted_def)

end
