(* ===== verification/GraphProperties.thy ===== *)
theory GraphProperties
  imports GraphFacts
begin

text \<open>
  Properties of definitions and of the scheduler: what decoding and validation guarantee of an
  accepted definition, the cycle search against acyclicity of the data graph, and what the
  scheduler's verdicts mean.
\<close>

section \<open>A sample definition\<close>

text \<open>An input feeding an agent task feeding an output, the output also gated by a control edge.\<close>

definition plain_node :: "string \<Rightarrow> node_kind \<Rightarrow> graph_node" where
  "plain_node i k = \<lparr>n_id = i, n_kind = k, n_blueprintRef = None, n_outputs = None, n_inputs = None, n_agentRef = None,
     n_interaction = False, n_skillRefs = None, n_toolsetRefs = None, n_toolAllowlist = None, n_modelSelection = None,
     n_condition = None, n_outputSchemaRef = None, n_teamStage = None, n_join = False, n_branches = None\<rparr>"

definition sample_nodes :: "graph_node list" where
  "sample_nodes =
     [(plain_node ''in'' KInput)\<lparr>n_outputs := Some [(''text'', ''string'')]\<rparr>,
      (plain_node ''work'' KAgentTask)\<lparr>n_inputs := Some [(''text'', ''string'')], n_outputs := Some [(''note'', ''string'')],
         n_agentRef := Some ''helper''\<rparr>,
      (plain_node ''out'' KOutput)\<lparr>n_inputs := Some [(''note'', ''string'')]\<rparr>]"

definition sample_edges :: "graph_edge list" where
  "sample_edges =
     [\<lparr>ed_kind = DataEdge, ed_from = ''in.text'', ed_to = ''work.text''\<rparr>,
      \<lparr>ed_kind = DataEdge, ed_from = ''work.note'', ed_to = ''out.note''\<rparr>,
      \<lparr>ed_kind = ControlEdge, ed_from = ''work'', ed_to = ''out''\<rparr>]"

definition sample_definition :: blueprint_definition where
  "sample_definition = \<lparr>bd_schemaVersion = 2, bd_id = ''sample'', bd_name = ''Sample'',
     bd_resources = [(''helper'', \<lparr>rr_kind = RAgent, rr_path = Some ''agents/helper.md'', rr_source = None,
        rr_bindingId = None, rr_format = None\<rparr>)],
     bd_nodes = sample_nodes, bd_edges = sample_edges, bd_presentation = None, bd_metadata = None\<rparr>"

lemma sample_accepted: "validateDefinition sample_definition = Inr ()"
  by code_simp

section \<open>Accepted definitions\<close>

text \<open>The data graph of an accepted definition, as the scheduler compiles it, has no cycle.\<close>

lemma accepted_data_acyclic:
  assumes "validateDefinition d = Inr ()"
  shows "acyclic {(dd_fromNode dep, i) | dep i. dep \<in> set (lookup_list (cg_dataDeps (compileGraph d)) i)}"
  using accepted_acyclic [OF assms] by (simp add: data_dependency_def)

text \<open>In an accepted definition every data edge is well typed: the scheduler reads an existing
  output port of an existing node and feeds an existing input port of the same wire type.\<close>

lemma accepted_edges_typed:
  assumes "validateDefinition d = Inr ()" and "e \<in> set (bd_edges d)" and "ed_kind e = DataEdge"
  shows "\<exists>m n t. m \<in> set (bd_nodes d) \<and> n \<in> set (bd_nodes d)
     \<and> n_id m = dd_fromNode (dep_of_edge e) \<and> n_id n = data_target e
     \<and> Option.bind (n_outputs m) (\<lambda>ps. map_of ps (dd_fromPort (dep_of_edge e))) = Some t
     \<and> Option.bind (n_inputs n) (\<lambda>ps. map_of ps (dd_toPort (dep_of_edge e))) = Some t"
proof -
  from accepted_data_edge(5) [OF assms] obtain t where
    "port_type (node_map (bd_nodes d)) n_outputs (dd_fromNode (dep_of_edge e), dd_fromPort (dep_of_edge e)) = Some t"
    "port_type (node_map (bd_nodes d)) n_inputs (data_target e, dd_toPort (dep_of_edge e)) = Some t" by blast
  then obtain m n where
    m: "map_of (node_map (bd_nodes d)) (dd_fromNode (dep_of_edge e)) = Some m"
      "Option.bind (n_outputs m) (\<lambda>ps. map_of ps (dd_fromPort (dep_of_edge e))) = Some t"
    and n: "map_of (node_map (bd_nodes d)) (data_target e) = Some n"
      "Option.bind (n_inputs n) (\<lambda>ps. map_of ps (dd_toPort (dep_of_edge e))) = Some t"
    by (auto simp: port_type_def bind_eq_Some_conv)
  with node_map_Some [OF m(1)] node_map_Some [OF n(1)] show ?thesis by metis
qed

section \<open>Cycle search\<close>

text \<open>C33: The bounded depth-first search always returns, and it is an exact test: where every data
  edge starts at a declared node it reports no cycle exactly when the data graph has none, and what
  it reports are closed walks along data edges.\<close>

theorem collectDataCycles_exact:
  assumes "\<forall>e\<in>set es. before_char CHR ''.'' (ed_from e) \<in> n_id ` set nodes"
  shows "cycle_search nodes es \<noteq> None
     \<and> (collectDataCycles nodes es = [] \<longleftrightarrow>
          acyclic ((\<lambda>e. (before_char CHR ''.'' (ed_from e), before_char CHR ''.'' (ed_to e))) ` set es))
     \<and> (\<forall>c\<in>set (collectDataCycles nodes es). hd c = last c \<and> 2 \<le> length c
          \<and> successively (\<lambda>a b. \<exists>e\<in>set es. before_char CHR ''.'' (ed_from e) = a \<and> before_char CHR ''.'' (ed_to e) = b) c)"
proof (intro conjI)
  show "cycle_search nodes es \<noteq> None" using cycle_search_total by (metis option.distinct(1))
  have cyc: "\<forall>c\<in>set (collectDataCycles nodes es). is_cycle (data_rel es) c"
    using collectDataCycles_cycles by (simp add: list_all_iff)
  show "collectDataCycles nodes es = [] \<longleftrightarrow>
      acyclic ((\<lambda>e. (before_char CHR ''.'' (ed_from e), before_char CHR ''.'' (ed_to e))) ` set es)"
    unfolding data_rel_def [symmetric]
    using collectDataCycles_acyclic [OF _ assms] cyc is_cycle_not_acyclic
    by (cases "collectDataCycles nodes es") auto
  show "\<forall>c\<in>set (collectDataCycles nodes es). hd c = last c \<and> 2 \<le> length c
          \<and> successively (\<lambda>a b. \<exists>e\<in>set es. before_char CHR ''.'' (ed_from e) = a \<and> before_char CHR ''.'' (ed_to e) = b) c"
  proof
    fix c
    assume "c \<in> set (collectDataCycles nodes es)"
    with cyc have "is_cycle (data_rel es) c" by blast
    then show "hd c = last c \<and> 2 \<le> length c
          \<and> successively (\<lambda>a b. \<exists>e\<in>set es. before_char CHR ''.'' (ed_from e) = a \<and> before_char CHR ''.'' (ed_to e) = b) c"
      by (auto simp: is_cycle_def data_rel_def elim!: successively_mono)
  qed
qed

theorem collectDataCycles_exact_witness:
  "collectDataCycles sample_nodes
     [\<lparr>ed_kind = DataEdge, ed_from = ''in.a'', ed_to = ''work.a''\<rparr>, \<lparr>ed_kind = DataEdge, ed_from = ''work.b'', ed_to = ''in.b''\<rparr>]
   = [[''in'', ''work'', ''in'']]
   \<and> \<not> acyclic {(''in'', ''work''), (''work'', ''in'')}"
proof -
  let ?es = "[\<lparr>ed_kind = DataEdge, ed_from = ''in.a'', ed_to = ''work.a''\<rparr>,
    \<lparr>ed_kind = DataEdge, ed_from = ''work.b'', ed_to = ''in.b''\<rparr>] :: graph_edge list"
  have s: "list_all (\<lambda>e. before_char CHR ''.'' (ed_from e) \<in> set (map n_id sample_nodes)) ?es" by code_simp
  have c: "collectDataCycles sample_nodes ?es = [[''in'', ''work'', ''in'']]" by code_simp
  have r: "map (\<lambda>e. (before_char CHR ''.'' (ed_from e), before_char CHR ''.'' (ed_to e))) ?es
      = [(''in'', ''work''), (''work'', ''in'')]" by code_simp
  then have r: "(\<lambda>e. (before_char CHR ''.'' (ed_from e), before_char CHR ''.'' (ed_to e))) ` set ?es
      = {(''in'', ''work''), (''work'', ''in'')}"
    by (metis (no_types, lifting) list.set_map list.simps(15) list.set(1))
  from collectDataCycles_exact [of ?es sample_nodes] s have
    "collectDataCycles sample_nodes ?es = [] \<longleftrightarrow> acyclic {(''in'', ''work''), (''work'', ''in'')}"
    unfolding r list_all_iff set_map by blast
  with c show ?thesis by simp
qed

section \<open>Decoding\<close>

lemma those_Some: "those xs = Some ys \<longleftrightarrow> xs = map Some ys"
proof (induction xs arbitrary: ys)
  case (Cons x xs)
  then show ?case by (cases x; cases ys) auto
qed auto

lemma d_array_Some:
  assumes "d_array f v = Some ys" and "y \<in> set ys"
  shows "\<exists>x. f x = Some y"
proof -
  from assms(1) obtain vs where "map f vs = map Some ys" by (auto simp: d_array_def those_Some split: json.splits)
  then have "f ` set vs = Some ` set ys" by (metis list.set_map)
  with assms(2) show ?thesis by (metis imageE imageI)
qed

lemma d_record_Some:
  assumes "d_record ok f v = Some ys" and "(k, y) \<in> set ys"
  shows "ok k \<and> (\<exists>x. f x = Some y)"
proof -
  from assms(1) obtain kvs where kvs: "list_all (\<lambda>(k, _). ok k) kvs"
    "map (\<lambda>(k, x). map_option (Pair k) (f x)) kvs = map Some ys"
    by (auto simp: d_record_def those_Some split: json.splits if_splits)
  from kvs(2) have "(\<lambda>(k, x). map_option (Pair k) (f x)) ` set kvs = Some ` set ys" by (metis list.set_map)
  with assms(2) have "Some (k, y) \<in> (\<lambda>(k, x). map_option (Pair k) (f x)) ` set kvs" by blast
  then obtain kx where kx: "kx \<in> set kvs" "Some (k, y) = (\<lambda>(k, x). map_option (Pair k) (f x)) kx"
    by (rule imageE)
  with kvs(1) show ?thesis by (cases kx; cases "f (snd kx)") (auto simp: list_all_iff)
qed

lemma d_string_Some: "d_string ok v = Some s \<Longrightarrow> ok s"
  by (auto simp: d_string_def split: json.splits if_splits)

lemma nodeSchema_id: "nodeSchema v = Some n \<Longrightarrow> idPattern (n_id n)"
  by (auto simp: nodeSchema_def strict_object_def req_def bind_eq_Some_conv dest!: d_string_Some
      split: json.splits if_splits)

lemma graphSchema_nodes: "graphSchema v = Some (ns, es) \<Longrightarrow> \<exists>y. d_array nodeSchema y = Some ns"
  by (auto simp: graphSchema_def strict_object_def req_def bind_eq_Some_conv split: json.splits if_splits)

lemma sourceSchema_ok:
  "sourceSchema v = Some s \<Longrightarrow>
     (case s of SharedSource r p \<Rightarrow> rootIdPattern r \<and> p \<noteq> [] | PackageSource _ \<Rightarrow> False | HostSource i \<Rightarrow> nonblank i)"
  by (auto simp: sourceSchema_def strict_object_def req_def bind_eq_Some_conv dest!: d_string_Some
      split: json.splits if_splits)

lemma opt_Some: "opt f k kvs = Some (Some x) \<Longrightarrow> \<exists>v. f v = Some x"
  by (auto simp: opt_def split: option.splits if_splits)

lemma resourceRefSchema_ok:
  assumes "resourceRefSchema v = Some r"
  shows "resource_ref_ok r"
proof -
  from assms obtain kvs s b where
    s: "opt sourceSchema ''source'' kvs = Some s" "rr_source r = s"
    and b: "opt (d_string idPattern) ''bindingId'' kvs = Some b" "rr_bindingId r = b"
    by (auto simp: resourceRefSchema_def strict_object_def bind_eq_Some_conv split: json.splits if_splits)
  have "pred_option idPattern b" using b(1) by (cases b) (auto dest!: opt_Some d_string_Some)
  moreover have "case s of None \<Rightarrow> True
      | Some (SharedSource r p) \<Rightarrow> rootIdPattern r \<and> p \<noteq> [] | Some (PackageSource _) \<Rightarrow> False | Some (HostSource i) \<Rightarrow> nonblank i"
    using s(1) by (auto dest!: opt_Some sourceSchema_ok split: option.splits resource_source.splits)
  ultimately show ?thesis using s(2) b(2) by (simp add: resource_ref_ok_def)
qed

lemma idPattern_separators:
  assumes "idPattern s"
  shows "CHR ''.'' \<notin> set s \<and> CHR ''@'' \<notin> set s"
proof -
  have "\<not> is_lower c \<and> \<not> is_upper c \<and> \<not> is_digit c" if "c \<in> {CHR ''.'', CHR ''@''}" for c
    using that by (auto simp: is_lower_def is_upper_def is_digit_def)
  with assms show ?thesis
    by (auto simp: idPattern_def list_all_iff is_alnum_def split: list.splits)
qed

text \<open>A decoded definition has schema version 2, unambiguous node identities that contain neither
  the port nor the branch separator, and resource references that satisfy the shared schema.\<close>

lemma decodeDefinition_shape:
  assumes "decodeDefinition t = Inr d"
  shows "bd_schemaVersion d = 2
     \<and> (\<forall>n\<in>set (bd_nodes d). idPattern (n_id n) \<and> CHR ''.'' \<notin> set (n_id n) \<and> CHR ''@'' \<notin> set (n_id n))
     \<and> (\<forall>(k, r)\<in>set (bd_resources d). idPattern k \<and> resource_ref_ok r)"
proof -
  from assms obtain raw where raw: "definitionSchema raw = Some d" and v: "bd_schemaVersion d = 2"
    by (auto simp: decodeDefinition_def SCHEMA_VERSION_def split: option.splits if_splits)
  from raw obtain x g es where
    x: "d_record idPattern resourceRefSchema x = Some (bd_resources d)"
    and g: "graphSchema g = Some (bd_nodes d, es)"
    by (auto simp: definitionSchema_def strict_object_def req_def bind_eq_Some_conv split: json.splits if_splits)
  from graphSchema_nodes [OF g] obtain y where y: "d_array nodeSchema y = Some (bd_nodes d)" by blast
  have "idPattern (n_id n)" if "n \<in> set (bd_nodes d)" for n
    using d_array_Some [OF y that] nodeSchema_id by blast
  moreover have "idPattern k \<and> resource_ref_ok r" if "(k, r) \<in> set (bd_resources d)" for k r
    using d_record_Some [OF x that] resourceRefSchema_ok by blast
  ultimately show ?thesis using v idPattern_separators by blast
qed

section \<open>Resource rules\<close>

text \<open>The browser and the host agree. On every resource reference that passes the shared schema,
  the check of the authoring dialog accepts exactly the references for which the validator raises
  no issue.\<close>

lemma isValidResourceRef_agrees:
  assumes "resource_ref_ok ref"
  shows "isValidResourceRef ref \<longleftrightarrow> resource_issues refId ref = []"
  by (rule resource_rules_agree [OF assms])

end
