(* ===== verification/DriverProperties.thy ===== *)
theory DriverProperties
  imports GraphProperties Samples
begin

text \<open>
  Properties of the driver: its snapshot is the durable state of the Attempts, what it launches may
  be launched, how many jobs it runs at once, what it settles as a success, that it always
  finds something to do on an accepted graph without cycles, and that it never gets into a cycle of control edges.
\<close>

section \<open>The snapshot refines the Attempts\<close>

lemma map_append_keys: "distinct (map fst m) \<Longrightarrow> distinct (map fst (map_append k x m))"
  by (simp add: map_append_def distinct_update)

lemma attempt_states_fold:
  "lookup_list (fold (\<lambda>a. map_append (a_nodeId a) (a_state a)) as m) i
     = lookup_list m i @ map a_state (filter (\<lambda>a. a_nodeId a = i) as)"
  "distinct (map fst m) \<Longrightarrow> distinct (map fst (fold (\<lambda>a. map_append (a_nodeId a) (a_state a)) as m))"
  by (induction as arbitrary: m) (simp_all add: lookup_map_append map_append_keys)

lemma attempt_states_lookup: "lookup_list (attempt_states as) i = map a_state (filter (\<lambda>a. a_nodeId a = i) as)"
  using attempt_states_fold(1) [of as "[]" i] by (simp add: attempt_states_def lookup_list_def)

lemma attempt_states_distinct: "distinct (map fst (attempt_states as))"
  unfolding attempt_states_def by (rule attempt_states_fold(2)) simp

lemma find_last_view:
  "distinct (map fst m) \<Longrightarrow>
   find_last (\<lambda>v. nv_nodeId v = i) (map (\<lambda>(i, sts). \<lparr>nv_nodeId = i, nv_states = sts\<rparr>) m)
     = map_option (\<lambda>sts. \<lparr>nv_nodeId = i, nv_states = sts\<rparr>) (map_of m i)"
proof (induction m)
  case (Cons x m)
  then have "map_of m (fst x) = None" by (simp add: map_of_eq_None_iff)
  with Cons show ?case by (cases x) (auto simp: find_last_def find_append split: option.splits)
qed (simp add: find_last_def)

lemma find_last_filter: "find_last p xs = (if filter p xs = [] then None else Some (last (filter p xs)))"
proof (induction xs)
  case (Cons x xs)
  then show ?case by (auto simp: find_last_def find_append split: option.splits)
qed (simp add: find_last_def)

lemma stateOf_snapshot:
  "stateOf (drive_snapshot r) i = map_option a_state (find_last (\<lambda>a. a_nodeId a = i) (r_attempts r))"
proof -
  have v: "stateOf (drive_snapshot r) i
      = latestState (map_option (\<lambda>sts. \<lparr>nv_nodeId = i, nv_states = sts\<rparr>) (map_of (attempt_states (r_attempts r)) i))"
    by (simp add: stateOf_def drive_snapshot_def find_last_view [OF attempt_states_distinct])
  from attempt_states_lookup [of "r_attempts r" i] show ?thesis
    unfolding v find_last_filter [of _ "r_attempts r"]
    by (auto simp: latestState_def lookup_list_def last_map split: option.splits)
qed

lemma filter_distinct_key: "distinct (map f xs) \<Longrightarrow> x \<in> set xs \<Longrightarrow> filter (\<lambda>y. f y = f x) xs = [x]"
  by (induction xs) (auto simp: filter_empty_conv image_iff)

lemma stateOf_attempt:
  assumes "distinct (map a_nodeId (r_attempts r))" and "a \<in> set (r_attempts r)"
  shows "stateOf (drive_snapshot r) (a_nodeId a) = Some (a_state a)"
  using filter_distinct_key [OF assms] by (simp add: stateOf_snapshot find_last_filter)

lemma stateOf_None: "stateOf (drive_snapshot r) i = None \<longleftrightarrow> (\<forall>a\<in>set (r_attempts r). a_nodeId a \<noteq> i)"
  by (auto simp: stateOf_snapshot find_last_filter filter_empty_conv)

lemma stateOf_Some:
  "stateOf (drive_snapshot r) i = Some st \<Longrightarrow> \<exists>a\<in>set (r_attempts r). a_nodeId a = i \<and> a_state a = st"
  unfolding stateOf_snapshot by (auto dest: find_last_Some_set)

section \<open>Launching\<close>

lemma drive_turn_schedules:
  assumes "drive_turn closing capacity d r drv = LaunchNode i \<or> drive_turn closing capacity d r drv = SkipNodes is"
  shows "drive_turn closing capacity d r drv = drive_schedule capacity d r drv \<and> \<not> closing \<and> drive_stop r drv = None
     \<and> \<not> dr_fatal drv \<and> \<not> run_stopped (r_state r) \<and> r_state r \<notin> {Cancelling, WaitingInput}"
  using assms
  by (auto simp: drive_turn_def drive_end_def Let_def split: if_splits option.splits)

lemma drive_schedule_launch:
  assumes "drive_schedule capacity d r drv = LaunchNode i"
  shows "i \<in> set (sr_ready (readyNodes d (drive_snapshot r)))" and "i \<notin> set (dr_active drv)"
    and "may_launch capacity d (dr_active drv) i"
  using assms
  by (auto simp: drive_schedule_def drive_first_def Let_def split: if_splits option.splits list.splits
      dest!: arg_cong [where f = set])

text \<open>A launch is always permitted. When a turn launches a node, the runtime is not closing, the Run
  is neither settled, recovering, cancelling nor waiting, no Attempt failed, timed out or was
  cancelled, the node has no Attempt and is not already active, the capacity is not used up, and a
  node that must own the Run alone neither runs nor would join others.\<close>

lemma drive_turn_launch:
  assumes "drive_turn closing capacity d r drv = LaunchNode i"
  shows "\<not> closing \<and> r_state r \<in> {Queued, Running}
     \<and> (\<forall>a\<in>set (r_attempts r). a_state a \<notin> {AFailed, ATimedOut, ACancelled} \<and> a_nodeId a \<noteq> i)
     \<and> (\<exists>n\<in>set (bd_nodes d). n_id n = i)
     \<and> i \<notin> set (dr_active drv) \<and> length (dr_active drv) < capacity
     \<and> (\<forall>j\<in>set (dr_active drv). \<not> exclusive d j) \<and> (exclusive d i \<longrightarrow> dr_active drv = [])"
proof -
  from drive_turn_schedules [of closing capacity d r drv i] assms have
    s: "drive_schedule capacity d r drv = LaunchNode i" and t: "\<not> closing" "drive_stop r drv = None"
      "\<not> run_stopped (r_state r)" "r_state r \<notin> {Cancelling, WaitingInput}" by auto
  from t(2) have "failed_attempt r = None" by (simp add: drive_stop_def split: option.splits)
  then have f: "\<forall>a\<in>set (r_attempts r). a_state a \<notin> {AFailed, ATimedOut, ACancelled}"
    by (auto simp: failed_attempt_def find_None_iff split: option.splits)
  from drive_schedule_launch(1) [OF s] obtain n where
    n: "n \<in> set (bd_nodes d)" "n_id n = i" "classify (compileGraph d) (drive_snapshot r) n = VReady"
    by (auto simp: readyNodes_def Let_def)
  from classify_ready(1) [OF n(3)] n(2) have "\<forall>a\<in>set (r_attempts r). a_nodeId a \<noteq> i" by (simp add: stateOf_None)
  moreover have "r_state r \<in> {Queued, Running}"
    using t(3,4) by (cases "r_state r") (simp_all add: run_stopped_def)
  moreover note drive_schedule_launch(2,3) [OF s]
  ultimately show ?thesis using t(1) f n(1,2) by (auto simp: may_launch_def list_ex_iff)
qed

definition idle :: driver where
  "idle = \<lparr>dr_active = [], dr_stop = None, dr_fatal = False\<rparr>"

definition fresh_run :: run_record where
  "fresh_run = sample_run\<lparr>r_state := Running, r_attempts := [done_attempt ''att-1'' ''in'']\<rparr>"

text \<open>C9: A launched node has its inputs. Every data parent of a launched node succeeded, except that a
  join accepts skipped parents; and unless it is a join, every control parent succeeded and, where
  the parent decides, decided for the branch of the edge.\<close>

theorem drive_turn_inputs:
  assumes "drive_turn closing capacity d r drv = LaunchNode i"
  shows "\<exists>n\<in>set (bd_nodes d). n_id n = i
     \<and> (\<forall>dep\<in>set (lookup_list (cg_dataDeps (compileGraph d)) i). \<exists>a\<in>set (r_attempts r).
          a_nodeId a = dd_fromNode dep \<and> (a_state a = ASucceeded \<or> n_kind n = KJoin \<and> a_state a = ASkipped))
     \<and> (n_kind n \<noteq> KJoin \<longrightarrow> (\<forall>p\<in>set (lookup_list (cg_controlParents (compileGraph d)) i).
          (\<exists>a\<in>set (r_attempts r). a_nodeId a = cp_fromNode p \<and> a_state a = ASucceeded)
          \<and> (\<forall>b m. cp_branch p = Some b \<and> map_of (cg_nodeById (compileGraph d)) (cp_fromNode p) = Some m
               \<and> n_kind m \<in> {KCondition, KHumanDecision}
               \<longrightarrow> map_of (attempt_decisions (r_attempts r)) (cp_fromNode p) = Some b)))"
proof -
  let ?g = "compileGraph d" and ?sn = "drive_snapshot r"
  from drive_turn_schedules [of closing capacity d r drv i] assms have "drive_schedule capacity d r drv = LaunchNode i" by auto
  from drive_schedule_launch(1) [OF this] obtain n where
    n: "n \<in> set (bd_nodes d)" "n_id n = i" "classify ?g ?sn n = VReady"
    by (auto simp: readyNodes_def Let_def)
  note c = classify_ready [OF n(3), unfolded n(2)]
  have data: "\<exists>a\<in>set (r_attempts r). a_nodeId a = dd_fromNode dep \<and> (a_state a = ASucceeded \<or> n_kind n = KJoin \<and> a_state a = ASkipped)"
    if "dep \<in> set (lookup_list (cg_dataDeps ?g) i)" for dep
    using that c(2,4) by (cases "n_kind n = KJoin") (auto dest!: stateOf_Some)
  have ctrl: "(\<exists>a\<in>set (r_attempts r). a_nodeId a = cp_fromNode p \<and> a_state a = ASucceeded)
      \<and> (\<forall>b m. cp_branch p = Some b \<and> map_of (cg_nodeById ?g) (cp_fromNode p) = Some m \<and> n_kind m \<in> {KCondition, KHumanDecision}
           \<longrightarrow> map_of (attempt_decisions (r_attempts r)) (cp_fromNode p) = Some b)"
    if "n_kind n \<noteq> KJoin" "p \<in> set (lookup_list (cg_controlParents ?g) i)" for p
  proof -
    from c(3) that have "in_favour ?g ?sn p" by blast
    then show ?thesis by (auto simp: in_favour_def Let_def drive_snapshot_def [of r] dest: stateOf_Some [unfolded drive_snapshot_def])
  qed
  from n(1,2) data ctrl show ?thesis by blast
qed

theorem drive_turn_inputs_witness:
  "\<exists>a\<in>set (r_attempts fresh_run). a_nodeId a = ''in'' \<and> (a_state a = ASucceeded \<or> a_state a = ASkipped)"
proof -
  have l: "drive_turn False 4 sample_definition fresh_run idle = LaunchNode ''work''"
    and d: "map dd_fromNode (lookup_list (cg_dataDeps (compileGraph sample_definition)) ''work'') = [''in'']" by code_simp+
  from d obtain dep where "dep \<in> set (lookup_list (cg_dataDeps (compileGraph sample_definition)) ''work'')" "dd_fromNode dep = ''in''"
    by auto
  with drive_turn_inputs [OF l] show ?thesis by fastforce
qed

section \<open>Concurrency of the loop\<close>

definition driver_ok :: "nat \<Rightarrow> blueprint_definition \<Rightarrow> driver \<Rightarrow> bool" where
  "driver_ok capacity d drv \<longleftrightarrow>
     distinct (dr_active drv) \<and> length (dr_active drv) \<le> capacity
     \<and> (list_ex (exclusive d) (dr_active drv) \<longrightarrow> length (dr_active drv) = 1)"

lemma driver_ok_subset:
  assumes "driver_ok capacity d drv" and "dr_active drv' = filter p (dr_active drv)"
  shows "driver_ok capacity d drv'"
proof (cases "list_ex (exclusive d) (dr_active drv')")
  case True
  with assms have "length (dr_active drv) = 1" by (auto simp: driver_ok_def list_ex_iff)
  then obtain i where i: "dr_active drv = [i]" by (metis One_nat_def length_0_conv length_Suc_conv)
  with True assms(2) have "dr_active drv' = [i]" by (auto split: if_splits)
  with assms(1) i show ?thesis by (simp add: driver_ok_def)
next
  case False
  from assms(1) have "distinct (dr_active drv')" "length (dr_active drv') \<le> capacity"
    unfolding assms(2) by (auto simp: driver_ok_def intro: order_trans [OF length_filter_le])
  with False show ?thesis by (simp add: driver_ok_def)
qed

lemma absorb_ok: "driver_ok capacity d drv \<Longrightarrow> driver_ok capacity d (absorb cs drv)"
  unfolding absorb_def
proof (induction cs arbitrary: drv)
  case (Cons c cs)
  have "driver_ok capacity d (absorb_one c drv)"
    using Cons.prems by (rule driver_ok_subset [where p = "\<lambda>i. cm_nodeId c \<noteq> i"]) (simp add: absorb_one_def removeAll_filter_not_eq)
  with Cons.IH show ?case by simp
qed simp

lemma drive_after_ok:
  assumes "driver_ok capacity d drv"
  shows "driver_ok capacity d (drive_after r (drive_turn closing capacity d r drv) drv)"
proof (cases "\<exists>i. drive_turn closing capacity d r drv = LaunchNode i")
  case True
  then obtain i where l: "drive_turn closing capacity d r drv = LaunchNode i" by blast
  with drive_turn_schedules [of closing capacity d r drv i] have "drive_schedule capacity d r drv = LaunchNode i" by auto
  from drive_schedule_launch(2,3) [OF this] assms show ?thesis
    unfolding l by (auto simp: drive_after_def Let_def driver_ok_def may_launch_def list_ex_iff)
next
  case False
  then have "dr_active (drive_after r (drive_turn closing capacity d r drv) drv) = dr_active drv"
    by (auto simp: drive_after_def Let_def split: drive_action.splits)
  with assms show ?thesis by (simp add: driver_ok_def)
qed

text \<open>C31: Concurrency is bounded. In every state the driver loop can reach, whatever other writers
  do to the Run between its turns, at most the configured number of distinct nodes is active, and a
  human decision or a TeamStage is active only alone.\<close>

theorem drive_loop_exclusive:
  assumes "drive_loop capacity d drv"
  shows "distinct (dr_active drv) \<and> length (dr_active drv) \<le> capacity
     \<and> (\<forall>i\<in>set (dr_active drv). exclusive d i \<longrightarrow> dr_active drv = [i])"
proof -
  have "driver_ok capacity d drv"
    using assms
  proof (induction rule: drive_loop.induct)
    case loop_start
    show ?case by (simp add: driver_ok_def)
  next
    case (loop_turn drv drv1 cs r closing)
    then show ?case by (simp add: absorb_ok drive_after_ok)
  qed
  then have "distinct (dr_active drv) \<and> length (dr_active drv) \<le> capacity
      \<and> (list_ex (exclusive d) (dr_active drv) \<longrightarrow> length (dr_active drv) = 1)" by (simp add: driver_ok_def)
  then show ?thesis by (auto simp: list_ex_iff length_Suc_conv)
qed

theorem drive_loop_exclusive_witness:
  "dr_active (drive_after fresh_run (LaunchNode ''work'') idle) = [''work''] \<and> drive_loop 4 sample_definition (drive_after fresh_run (LaunchNode ''work'') idle)
   \<and> distinct (dr_active (drive_after fresh_run (LaunchNode ''work'') idle))"
proof -
  have l: "drive_turn False 4 sample_definition fresh_run idle = LaunchNode ''work''" by code_simp
  have "drive_loop 4 sample_definition idle" unfolding idle_def by (rule loop_start)
  from loop_turn [OF this, of idle "[]" fresh_run False] have
    d: "drive_loop 4 sample_definition (drive_after fresh_run (LaunchNode ''work'') idle)"
    by (simp add: absorb_def l)
  have "dr_active (drive_after fresh_run (LaunchNode ''work'') idle) = [''work'']"
    by (simp add: drive_after_def idle_def Let_def)
  with d drive_loop_exclusive [OF d] show ?thesis by simp
qed

section \<open>Success\<close>

lemma run_complete_evolves:
  assumes "record_step r w" and "run_complete d r"
  shows "run_complete d w"
proof -
  from assms(1) have ev: "list_evolves attempt_evolves (r_attempts r) (r_attempts w)"
    by (simp add: record_step_def run_evolves_def attempts_evolve_def)
  have "\<exists>b\<in>set (r_attempts w). a_nodeId b = i \<and> a_state b \<in> {ASucceeded, ASkipped}"
    if "a \<in> set (r_attempts r)" "a_nodeId a = i" "a_state a \<in> {ASucceeded, ASkipped}" for a i
  proof -
    from that(1) obtain k where k: "k < length (r_attempts r)" "r_attempts r ! k = a" by (auto simp: in_set_conv_nth)
    have "attempt_settled a" using that(3) by (auto simp: attempt_settled_def)
    with list_evolves_nth [OF ev k(1)] k(2) that(2,3) show ?thesis
      by (auto simp: attempt_evolves_def intro!: bexI [of _ "r_attempts w ! k"])
  qed
  with assms(2) show ?thesis by (fastforce simp: run_complete_def list_all_iff list_ex_iff)
qed

text \<open>C7: The driver reports success only for a complete Run, and completeness lasts. If a turn settles
  a Run as succeeded, then no job is active, and from then on every stored version of the Run has
  for every node of the definition an Attempt that succeeded or was skipped.\<close>

theorem drive_success_complete:
  assumes "drive_turn closing capacity d r drv = SettleRun ToSucceeded det"
    and "\<forall>s. dr_stop drv = Some s \<longrightarrow> ns_terminal s \<noteq> ToSucceeded"
    and "stored dm rid = Some r" and "store_history dm dm'"
  shows "dr_active drv = [] \<and> (\<exists>w. stored dm' rid = Some w
     \<and> (\<forall>n\<in>set (bd_nodes d). \<exists>a\<in>set (r_attempts w). a_nodeId a = n_id n \<and> a_state a \<in> {ASucceeded, ASkipped}))"
proof -
  have "\<forall>s. drive_stop r drv = Some s \<longrightarrow> ns_terminal s \<noteq> ToSucceeded"
    using assms(2) by (auto simp: drive_stop_def split: option.splits)
  with assms(1) have "drive_schedule capacity d r drv = SettleRun ToSucceeded det"
    by (auto simp: drive_turn_def drive_end_def Let_def split: if_splits option.splits)
  then have a: "dr_active drv = []" "run_complete d r"
    by (auto simp: drive_schedule_def Let_def split: if_splits option.splits)
  from assms(4,3) obtain w where "stored dm' rid = Some w" "record_step r w" by (rule store_history_run)
  with run_complete_evolves [OF _ a(2)] a(1) show ?thesis
    by (fastforce simp: run_complete_def list_all_iff list_ex_iff)
qed

definition complete_run :: run_record where
  "complete_run = sample_run\<lparr>r_state := Running,
     r_attempts := [done_attempt ''att-1'' ''in'', done_attempt ''att-2'' ''work'', done_attempt ''att-3'' ''out'']\<rparr>"

theorem drive_success_complete_witness:
  "\<exists>w. stored (cancelled complete_run) ''run-1'' = Some w
     \<and> (\<exists>a\<in>set (r_attempts w). a_nodeId a = ''out'' \<and> a_state a \<in> {ASucceeded, ASkipped})"
proof -
  have t: "drive_turn False 4 sample_definition complete_run idle
      = SettleRun ToSucceeded [(''reason'', JStr ''selected-paths-settled'')]" by code_simp
  have s: "stored (domain_of complete_run) ''run-1'' = Some complete_run" by code_simp
  have "\<exists>n\<in>set (bd_nodes sample_definition). n_id n = ''out''"
    by (simp add: sample_definition_def sample_nodes_def plain_node_def)
  with drive_success_complete [OF t _ s cancelled_history] show ?thesis by (fastforce simp: idle_def)
qed

section \<open>Progress\<close>

lemma attempt_decisions_fold:
  "(\<exists>a\<in>set as. a_nodeId a = i \<and> attempt_branch a \<noteq> None) \<or> map_of ds i \<noteq> None \<Longrightarrow>
   map_of (fold (\<lambda>a ds. case attempt_branch a of None \<Rightarrow> ds | Some b \<Rightarrow> AList.update (a_nodeId a) b ds) as ds) i \<noteq> None"
proof (induction as arbitrary: ds)
  case (Cons a as)
  show ?case
    unfolding fold_simps(2)
    by (rule Cons.IH) (use Cons.prems in \<open>auto simp: update_conv' split: option.splits\<close>)
qed simp

lemma attempt_decisions_defined:
  "a \<in> set as \<Longrightarrow> attempt_branch a \<noteq> None \<Longrightarrow> map_of (attempt_decisions as) (a_nodeId a) \<noteq> None"
  unfolding attempt_decisions_def by (rule attempt_decisions_fold) blast

lemma snapshot_settles:
  assumes "\<forall>a\<in>set (r_attempts r). a_state a \<in> {ASucceeded, ASkipped}"
    and "\<forall>a\<in>set (r_attempts r). \<forall>n\<in>set (bd_nodes d). n_id n = a_nodeId a \<and> n_kind n \<in> {KCondition, KHumanDecision}
           \<and> a_state a = ASucceeded \<longrightarrow> attempt_branch a \<noteq> None"
  shows "run_settles d (drive_snapshot r)"
  unfolding run_settles_def
proof (intro conjI ballI impI)
  fix n
  assume n: "n \<in> set (bd_nodes d)"
  show "stateOf (drive_snapshot r) (n_id n) \<in> {None, Some ASucceeded, Some ASkipped}"
    using assms(1) by (cases "stateOf (drive_snapshot r) (n_id n)") (auto dest!: stateOf_Some)
  assume k: "n_kind n \<in> {KCondition, KHumanDecision} \<and> stateOf (drive_snapshot r) (n_id n) = Some ASucceeded"
  then obtain a where a: "a \<in> set (r_attempts r)" "a_nodeId a = n_id n" "a_state a = ASucceeded" by (auto dest!: stateOf_Some)
  with assms(2) n k have "attempt_branch a \<noteq> None" by metis
  from attempt_decisions_defined [OF a(1) this] a(2) show "map_of (sn_decisions (drive_snapshot r)) (n_id n) \<noteq> None"
    by (simp add: drive_snapshot_def)
qed

lemma drive_schedule_progress:
  assumes v: "validateDefinition d = Inr ()" and ac: "acyclic (data_dependency d \<union> control_dependency d)"
    and ok: "run_settles d (drive_snapshot r)" and st: "\<forall>a\<in>set (r_attempts r). a_state a \<in> {ASucceeded, ASkipped}"
    and cap: "0 < capacity" and act: "dr_active drv = []"
  shows "(\<exists>i. drive_schedule capacity d r drv = LaunchNode i) \<or> (\<exists>is. is \<noteq> [] \<and> drive_schedule capacity d r drv = SkipNodes is)
     \<or> (\<exists>det. drive_schedule capacity d r drv = SettleRun ToSucceeded det)"
proof (cases "\<exists>n\<in>set (bd_nodes d). stateOf (drive_snapshot r) (n_id n) = None")
  case True
  with scheduler_not_stuck [OF v ac ok] act cap show ?thesis
    by (auto simp: drive_schedule_def Let_def drive_first_def may_launch_def split: list.splits)
next
  case False
  then have "run_complete d r"
    using st by (fastforce simp: run_complete_def list_all_iff list_ex_iff stateOf_None)
  moreover have "sr_ready (readyNodes d (drive_snapshot r)) = []"
    using False classify_ready(1) by (auto simp: readyNodes_def Let_def filter_empty_conv)
  ultimately show ?thesis using act by (simp add: drive_schedule_def Let_def drive_first_def)
qed

text \<open>C32: The driver never gives up without a reason. On an accepted definition whose data and control
  edges together have no cycle, when every Attempt so far succeeded or was skipped, the deciding
  ones with a branch, and nothing is active, a turn launches a node, skips nodes or settles success;
  it never ends in recovery for lack of safe progress.\<close>

theorem drive_turn_progress:
  assumes "validateDefinition d = Inr ()"
    and "acyclic (data_dependency d \<union> control_dependency d)"
    and "r_state r = Running" and "r_source r \<noteq> None" and "0 < capacity"
    and "\<forall>a\<in>set (r_attempts r). a_state a \<in> {ASucceeded, ASkipped}"
    and "\<forall>a\<in>set (r_attempts r). \<forall>n\<in>set (bd_nodes d). n_id n = a_nodeId a \<and> n_kind n \<in> {KCondition, KHumanDecision}
           \<and> a_state a = ASucceeded \<longrightarrow> attempt_branch a \<noteq> None"
  shows "(\<exists>i. drive_turn False capacity d r \<lparr>dr_active = [], dr_stop = None, dr_fatal = False\<rparr> = LaunchNode i)
     \<or> (\<exists>is. is \<noteq> [] \<and> drive_turn False capacity d r \<lparr>dr_active = [], dr_stop = None, dr_fatal = False\<rparr> = SkipNodes is)
     \<or> (\<exists>det. drive_turn False capacity d r \<lparr>dr_active = [], dr_stop = None, dr_fatal = False\<rparr> = SettleRun ToSucceeded det)"
proof -
  let ?drv = "\<lparr>dr_active = [], dr_stop = None, dr_fatal = False\<rparr> :: driver"
  have "failed_attempt r = None"
    using assms(6) by (fastforce simp: failed_attempt_def find_None_iff split: option.splits)
  then have "drive_turn False capacity d r ?drv = drive_schedule capacity d r ?drv"
    using assms(3,4) by (auto simp: drive_turn_def drive_stop_def run_stopped_def Let_def)
  with drive_schedule_progress [OF assms(1,2) snapshot_settles [OF assms(6,7)] assms(6,5)] show ?thesis by simp
qed

lemma sample_acyclic: "acyclic (data_dependency sample_definition \<union> control_dependency sample_definition)"
proof -
  define f :: "string \<Rightarrow> nat" where "f i = (if i = ''in'' then 0 else if i = ''work'' then 1 else 2)" for i
  have e: "list_all (\<lambda>e. f (if ed_kind e = DataEdge then dd_fromNode (dep_of_edge e) else cp_fromNode (parent_of_edge e))
      < f (if ed_kind e = DataEdge then data_target e else control_target e)) (bd_edges sample_definition)"
    unfolding f_def by code_simp
  have "data_dependency sample_definition \<union> control_dependency sample_definition \<subseteq> measure f"
    using e by (auto simp: data_dependency_edges control_dependency_edges list_all_iff split: if_splits)
  then show ?thesis using wf_acyclic wf_measure by (metis acyclic_subset)
qed

definition sourced_run :: run_record where
  "sourced_run = fresh_run\<lparr>r_source := Some \<lparr>src_sessionId = ''s'', src_kind = SourceUi, src_callId = None, src_turn = None\<rparr>\<rparr>"

theorem drive_turn_progress_witness:
  "\<nexists>det. drive_turn False 1 sample_definition sourced_run \<lparr>dr_active = [], dr_stop = None, dr_fatal = False\<rparr>
     = SettleRun ToRecoveryRequired det"
proof -
  have "list_all (\<lambda>n. n_kind n \<notin> {KCondition, KHumanDecision}) (bd_nodes sample_definition)" by code_simp
  moreover have "r_attempts sourced_run = [done_attempt ''att-1'' ''in'']" "r_state sourced_run = Running" "r_source sourced_run \<noteq> None"
    by (simp_all add: sourced_run_def fresh_run_def)
  ultimately show ?thesis
    using drive_turn_progress [OF sample_accepted sample_acyclic, of sourced_run 1] by (auto simp: list_all_iff)
qed

section \<open>Control cycles\<close>

text \<open>Control edges from every node of a list to the next and from the last back to the first.\<close>

definition control_ring :: "string list \<Rightarrow> graph_edge list" where
  "control_ring cs = map2 (\<lambda>a b. \<lparr>ed_kind = ControlEdge, ed_from = a, ed_to = b\<rparr>) cs (rotate1 cs)"

definition add_ring :: "string list \<Rightarrow> blueprint_definition \<Rightarrow> blueprint_definition" where
  "add_ring cs d = d\<lparr>bd_edges := bd_edges d @ control_ring cs\<rparr>"

lemma control_ring_edge: "e \<in> set (control_ring cs) \<Longrightarrow> ed_kind e = ControlEdge \<and> ed_from e \<in> set cs \<and> ed_to e \<in> set cs"
  by (auto simp: control_ring_def dest: set_zip_leftD set_zip_rightD)

lemma control_ring_into:
  assumes "i \<in> set cs"
  shows "\<exists>j\<in>set cs. \<lparr>ed_kind = ControlEdge, ed_from = j, ed_to = i\<rparr> \<in> set (control_ring cs)"
proof -
  obtain k where k: "k < length cs" "rotate1 cs ! k = i" using assms by (metis in_set_conv_nth length_rotate1 set_rotate1)
  hence "(cs ! k, i) \<in> set (zip cs (rotate1 cs))" by (auto simp: set_zip)
  thus ?thesis using k(1) by (auto simp: control_ring_def intro!: bexI [of _ "cs ! k"])
qed

lemma split_on_id: "idPattern i \<Longrightarrow> split_on CHR ''@'' i = [i]"
proof -
  have "split_on c x = [x]" if "c \<notin> set x" for c and x :: string using that by (induction x) auto
  thus "idPattern i \<Longrightarrow> ?thesis" using idPattern_separators by blast
qed

lemma add_ring_accepted:
  assumes v: "validateDefinition d = Inr ()" and ids: "\<forall>i\<in>set cs. idPattern i" and nodes: "set cs \<subseteq> n_id ` set (bd_nodes d)"
  shows "validateDefinition (add_ring cs d) = Inr ()"
proof -
  let ?nm = "node_map (bd_nodes d)"
  note parts = v [unfolded validateDefinition_def definition_issues_def Let_def]
  have ring: "edge_issues ?nm i e = []" if "e \<in> set (control_ring cs)" for i e
  proof -
    note e = control_ring_edge [OF that]
    have "map_of ?nm (ed_from e) \<noteq> None" "map_of ?nm (ed_to e) \<noteq> None" using e nodes node_map_dom by blast+
    moreover have "split_on CHR ''@'' (ed_from e) = [ed_from e]" "split_on CHR ''@'' (ed_to e) = [ed_to e]" "CHR ''.'' \<notin> set (ed_to e)"
      using e ids split_on_id idPattern_separators by blast+
    ultimately show ?thesis using e by (auto simp: edge_issues_def control_edge_issues_def simp del: hd_split_on)
  qed
  have "e \<in> set (control_ring cs) \<or> (i, e) \<in> set (indexed (bd_edges d))"
    if ie: "(i, e) \<in> set (indexed (bd_edges d @ control_ring cs))" for i e
  proof -
    obtain k where k: "k < length (bd_edges d @ control_ring cs)" "i = k" "e = (bd_edges d @ control_ring cs) ! k"
      using ie by (auto simp: indexed_def set_zip simp del: length_append upt_Suc)
    show ?thesis
    proof (cases "k < length (bd_edges d)")
      case True
      hence "e = bd_edges d ! k" "[0..<length (bd_edges d)] ! k = k" using k(3) by (simp_all add: nth_append)
      thus ?thesis using True k(2) unfolding indexed_def set_zip by force
    next
      case False
      thus ?thesis using k by (simp add: nth_append)
    qed
  qed
  moreover have "edge_issues ?nm i e = []" if "(i, e) \<in> set (indexed (bd_edges d))" for i e
    using parts that by (auto split: if_splits)
  ultimately have edges: "concat (map (\<lambda>(i, e). edge_issues ?nm i e) (indexed (bd_edges d @ control_ring cs))) = []"
    using ring by fastforce
  have "filter (\<lambda>e. ed_kind e = DataEdge) (control_ring cs) = []" using control_ring_edge by (fastforce simp: filter_empty_conv)
  moreover have "presentation_ref_issues d ?nm pr = [] \<Longrightarrow> presentation_ref_issues (add_ring cs d) ?nm pr = []" for pr
    by (fastforce simp: presentation_ref_issues_def add_ring_def Let_def)
  hence "presentation_issues d ?nm = [] \<Longrightarrow> presentation_issues (add_ring cs d) ?nm = []"
    by (auto simp: presentation_issues_def add_ring_def split: option.splits if_splits)
  ultimately show ?thesis using parts edges
    by (simp add: validateDefinition_def definition_issues_def add_ring_def Let_def split: if_splits)
qed

text \<open>A node of the ring has a control parent without an Attempt as long as the ring has none.\<close>

lemma ring_parent:
  assumes "i \<in> set cs" and "\<forall>i\<in>set cs. idPattern i"
  shows "\<exists>j\<in>set cs. \<lparr>cp_fromNode = j, cp_branch = None\<rparr> \<in> set (lookup_list (cg_controlParents (compileGraph (add_ring cs d))) i)"
proof -
  obtain j where j: "j \<in> set cs" "\<lparr>ed_kind = ControlEdge, ed_from = j, ed_to = i\<rparr> \<in> set (control_ring cs)"
    using control_ring_into [OF assms(1)] by blast
  have "split_on CHR ''@'' j = [j]" "split_on CHR ''@'' i = [i]" using assms j(1) split_on_id by blast+
  hence "parent_of_edge \<lparr>ed_kind = ControlEdge, ed_from = j, ed_to = i\<rparr> = \<lparr>cp_fromNode = j, cp_branch = None\<rparr>"
    "control_target \<lparr>ed_kind = ControlEdge, ed_from = j, ed_to = i\<rparr> = i"
    by (simp_all add: parent_of_edge_def control_target_def del: hd_split_on)
  thus ?thesis using j unfolding compileGraph_parents by (force simp: add_ring_def intro!: bexI [of _ j])
qed

lemma scan_parent_open:
  "stateOf sn (cp_fromNode p) = None \<Longrightarrow> cs_blocked (scan_parent g sn p c) \<and> None \<in> set (cs_states (scan_parent g sn p c))
     \<and> cs_skipped (scan_parent g sn p c) = cs_skipped c"
  by (simp add: scan_parent_def isTerminalAttempt_def)

lemma scan_parent_mono:
  "(cs_blocked c \<longrightarrow> cs_blocked (scan_parent g sn p c)) \<and> set (cs_states c) \<subseteq> set (cs_states (scan_parent g sn p c))"
  by (auto simp: scan_parent_def Let_def split: option.splits)

lemma scan_open:
  assumes "p \<in> set ps" and "stateOf sn (cp_fromNode p) = None"
  shows "cs_blocked (scan_control g sn ps) \<and> None \<in> set (cs_states (scan_control g sn ps))"
proof -
  have mono: "(cs_blocked c \<longrightarrow> cs_blocked (fold (scan_parent g sn) qs c)) \<and> set (cs_states c) \<subseteq> set (cs_states (fold (scan_parent g sn) qs c))" for qs c
    using scan_parent_mono [of _ g sn] by (induction qs arbitrary: c) (simp, fastforce)
  have "cs_blocked (fold (scan_parent g sn) ps c) \<and> None \<in> set (cs_states (fold (scan_parent g sn) ps c))" for c
    using assms
  proof (induction ps arbitrary: c)
    case (Cons q ps)
    show ?case
    proof (cases "p = q")
      case True
      thus ?thesis using scan_parent_open [OF Cons.prems(2), of g c] mono [of "scan_parent g sn p c" ps] by auto
    next
      case False
      thus ?thesis using Cons by simp
    qed
  qed simp
  thus ?thesis by (simp add: scan_control_def)
qed

lemma scan_not_skipped:
  assumes "\<forall>p\<in>set ps. stateOf sn (cp_fromNode p) = None"
  shows "\<not> cs_skipped (scan_control g sn ps)"
proof -
  have "cs_skipped (fold (scan_parent g sn) ps c) = cs_skipped c" for c
    using assms by (induction ps arbitrary: c) (simp_all add: scan_parent_open)
  thus ?thesis by (simp add: scan_control_def)
qed

lemma classify_open_parent:
  assumes "p \<in> set (lookup_list (cg_controlParents g) (n_id n))" and "stateOf sn (cp_fromNode p) = None"
  shows "classify g sn n \<noteq> VReady"
    and "lookup_list (cg_dataDeps g) (n_id n) = [] \<Longrightarrow> \<forall>q\<in>set (lookup_list (cg_controlParents g) (n_id n)). stateOf sn (cp_fromNode q) = None
      \<Longrightarrow> classify g sn n \<noteq> VSkipped"
proof -
  note c = scan_open [OF assms, of g]
  have bad: "\<not> list_all isTerminalSuccess (cs_states (scan_control g sn (lookup_list (cg_controlParents g) (n_id n))))"
    "list_ex (\<lambda>s. \<not> isTerminalAttempt s) (cs_states (scan_control g sn (lookup_list (cg_controlParents g) (n_id n))))"
    using c by (auto simp: list_all_iff list_ex_iff isTerminalSuccess_def isTerminalAttempt_def intro!: bexI [of _ None])
  show "classify g sn n \<noteq> VReady" using bad(1) c by (auto simp: classify_def Let_def)
  show "classify g sn n \<noteq> VSkipped"
    if "lookup_list (cg_dataDeps g) (n_id n) = []" "\<forall>q\<in>set (lookup_list (cg_controlParents g) (n_id n)). stateOf sn (cp_fromNode q) = None"
    using bad(2) c that(1) scan_not_skipped [OF that(2), of g] by (auto simp: classify_def Let_def)
qed

lemma ring_classify:
  assumes "\<forall>i\<in>set cs. idPattern i" and "\<forall>a\<in>set (r_attempts r). a_nodeId a \<notin> set cs" and "n_id n \<in> set cs"
  shows "classify (compileGraph (add_ring cs d)) (drive_snapshot r) n \<noteq> VReady"
    and "\<forall>e\<in>set (bd_edges d). (if ed_kind e = DataEdge then data_target e else control_target e) \<noteq> n_id n
      \<Longrightarrow> classify (compileGraph (add_ring cs d)) (drive_snapshot r) n \<noteq> VSkipped"
proof -
  have none: "stateOf (drive_snapshot r) j = None" if "j \<in> set cs" for j using assms(2) that by (auto simp: stateOf_None)
  obtain j where j: "j \<in> set cs"
    "\<lparr>cp_fromNode = j, cp_branch = None\<rparr> \<in> set (lookup_list (cg_controlParents (compileGraph (add_ring cs d))) (n_id n))"
    using ring_parent [OF assms(3,1)] by blast
  note open_ = classify_open_parent [OF j(2), of "drive_snapshot r"]
  show "classify (compileGraph (add_ring cs d)) (drive_snapshot r) n \<noteq> VReady" using open_(1) none j(1) by simp
  assume e: "\<forall>e\<in>set (bd_edges d). (if ed_kind e = DataEdge then data_target e else control_target e) \<noteq> n_id n"
  have "lookup_list (cg_dataDeps (compileGraph (add_ring cs d))) (n_id n) = []"
    using e control_ring_edge by (fastforce simp: compileGraph_deps add_ring_def filter_empty_conv)
  moreover have "stateOf (drive_snapshot r) (cp_fromNode q) = None"
    if q: "q \<in> set (lookup_list (cg_controlParents (compileGraph (add_ring cs d))) (n_id n))" for q
  proof -
    obtain x where "x \<in> set (bd_edges d) \<union> set (control_ring cs)" "ed_kind x \<noteq> DataEdge" "control_target x = n_id n" "q = parent_of_edge x"
      using q by (auto simp: compileGraph_parents add_ring_def)
    hence x: "x \<in> set (control_ring cs)" "q = parent_of_edge x" using e by auto
    have "cp_fromNode q = ed_from x" using control_ring_edge [OF x(1)] assms(1) split_on_id
      by (auto simp: x(2) parent_of_edge_def simp del: hd_split_on)
    thus ?thesis using none control_ring_edge [OF x(1)] by simp
  qed
  ultimately show "classify (compileGraph (add_ring cs d)) (drive_snapshot r) n \<noteq> VSkipped" using open_(2) none j(1) by simp
qed

lemma ring_incomplete:
  assumes "cs \<noteq> []" and "set cs \<subseteq> n_id ` set (bd_nodes d)" and "\<forall>a\<in>set (r_attempts r). a_nodeId a \<notin> set cs"
  shows "\<not> run_complete (add_ring cs d) r"
proof -
  obtain n where "n \<in> set (bd_nodes d)" "n_id n \<in> set cs" using assms(1,2) by (metis hd_in_set imageE subsetD)
  thus ?thesis using assms(3) by (fastforce simp: run_complete_def add_ring_def list_all_iff list_ex_iff)
qed

text \<open>C36: The premise on control edges in C32 is needed. Add to an accepted definition, of well-formed
  node identities, control edges that lead around a cycle through any of its nodes: the validator
  accepts the result. As long as no node of the cycle has an Attempt, no turn of the driver launches
  a node of the cycle or settles success, whatever else the Run did; a node of the cycle is skipped
  only when another edge leads to it; and an idle turn of a Run without failures launches another node,
  skips nodes, or ends in recovery for lack of safe progress.\<close>

theorem control_cycle_accepted:
  assumes "validateDefinition d = Inr ()" and "\<forall>n\<in>set (bd_nodes d). idPattern (n_id n)"
    and "cs \<noteq> []" and "set cs \<subseteq> n_id ` set (bd_nodes d)"
    and "\<forall>a\<in>set (r_attempts r). a_nodeId a \<notin> set cs"
  shows "validateDefinition (add_ring cs d) = Inr ()
    \<and> (\<forall>i\<in>set cs. drive_turn closing capacity (add_ring cs d) r drv \<noteq> LaunchNode i)
    \<and> ((\<forall>s. dr_stop drv = Some s \<longrightarrow> ns_terminal s \<noteq> ToSucceeded) \<longrightarrow>
        (\<forall>det. drive_turn closing capacity (add_ring cs d) r drv \<noteq> SettleRun ToSucceeded det))
    \<and> (\<forall>i\<in>set cs. (\<forall>e\<in>set (bd_edges d). (if ed_kind e = DataEdge then data_target e else control_target e) \<noteq> i) \<longrightarrow>
        (\<forall>is. drive_turn closing capacity (add_ring cs d) r drv = SkipNodes is \<longrightarrow> i \<notin> set is))
    \<and> (r_state r = Running \<and> r_source r \<noteq> None \<and> failed_attempt r = None \<longrightarrow>
        (\<exists>i. i \<notin> set cs \<and> drive_turn False capacity (add_ring cs d) r idle = LaunchNode i)
        \<or> (\<exists>is. drive_turn False capacity (add_ring cs d) r idle = SkipNodes is)
        \<or> drive_turn False capacity (add_ring cs d) r idle = SettleRun ToRecoveryRequired [(''reason'', JStr ''no-safe-progress'')])"
    (is "_ \<and> (\<forall>i\<in>_. ?launch i) \<and> ?success \<and> (\<forall>i\<in>_. ?skip i) \<and> ?turn")
proof (intro conjI ballI)
  let ?d = "add_ring cs d"
  have ids: "\<forall>i\<in>set cs. idPattern i" using assms(2,4) by blast
  note ring = ring_classify [OF ids assms(5)]
  have launch: "drive_turn closing capacity ?d r drv \<noteq> LaunchNode i" if "i \<in> set cs" for i closing drv
  proof
    assume "drive_turn closing capacity ?d r drv = LaunchNode i"
    with drive_turn_schedules [of closing capacity ?d r drv i] have "drive_schedule capacity ?d r drv = LaunchNode i" by auto
    from drive_schedule_launch(1) [OF this] ring(1) that show False by (auto simp: readyNodes_def Let_def)
  qed
  show "validateDefinition ?d = Inr ()" by (rule add_ring_accepted [OF assms(1) ids assms(4)])
  show "?launch i" if "i \<in> set cs" for i by (rule launch [OF that])
  note incomplete = ring_incomplete [OF assms(3-5)]
  show ?success
    using incomplete by (auto simp: drive_turn_def drive_end_def drive_stop_def drive_schedule_def Let_def split: if_splits option.splits)
  show "?skip i" if i: "i \<in> set cs" for i
  proof (intro impI allI notI)
    fix "is"
    assume e: "\<forall>e\<in>set (bd_edges d). (if ed_kind e = DataEdge then data_target e else control_target e) \<noteq> i"
      and t: "drive_turn closing capacity ?d r drv = SkipNodes is" and "i \<in> set is"
    have "drive_schedule capacity ?d r drv = SkipNodes is" using drive_turn_schedules [of closing capacity ?d r drv] t by auto
    hence "i \<in> set (sr_skipped (readyNodes ?d (drive_snapshot r)))"
      using \<open>i \<in> set is\<close> by (auto simp: drive_schedule_def Let_def split: if_splits option.splits)
    thus False using ring(2) e i by (auto simp: readyNodes_def Let_def)
  qed
  show ?turn
  proof
    assume r: "r_state r = Running \<and> r_source r \<noteq> None \<and> failed_attempt r = None"
    hence "drive_turn False capacity ?d r idle = drive_schedule capacity ?d r idle"
      by (auto simp: drive_turn_def drive_stop_def run_stopped_def idle_def Let_def)
    moreover have "drive_schedule capacity ?d r idle \<in> range LaunchNode \<union> range SkipNodes \<union> {SettleRun ToRecoveryRequired [(''reason'', JStr ''no-safe-progress'')]}"
      using incomplete by (auto simp: drive_schedule_def idle_def Let_def split: option.splits)
    ultimately show "(\<exists>i. i \<notin> set cs \<and> drive_turn False capacity ?d r idle = LaunchNode i) \<or> (\<exists>is. drive_turn False capacity ?d r idle = SkipNodes is)
        \<or> drive_turn False capacity ?d r idle = SettleRun ToRecoveryRequired [(''reason'', JStr ''no-safe-progress'')]"
      using launch by auto
  qed
qed

text \<open>The agent task and the output of the sample, each waiting for the other.\<close>

theorem control_cycle_accepted_witness:
  "validateDefinition (add_ring [''work'', ''out''] sample_definition) = Inr ()
   \<and> drive_turn False 4 (add_ring [''work'', ''out''] sample_definition) sourced_run idle
     = SettleRun ToRecoveryRequired [(''reason'', JStr ''no-safe-progress'')]"
proof -
  have a: "\<forall>n\<in>set (bd_nodes sample_definition). idPattern (n_id n)" "set [''work'', ''out''] \<subseteq> n_id ` set (bd_nodes sample_definition)"
  proof -
    have "list_all (\<lambda>n. idPattern (n_id n)) (bd_nodes sample_definition)" by code_simp
    thus "\<forall>n\<in>set (bd_nodes sample_definition). idPattern (n_id n)" by (simp add: list_all_iff)
    show "set [''work'', ''out''] \<subseteq> n_id ` set (bd_nodes sample_definition)"
      by (auto simp: sample_definition_def sample_nodes_def plain_node_def)
  qed
  have r: "\<forall>a\<in>set (r_attempts sourced_run). a_nodeId a \<notin> set [''work'', ''out'']" "r_state sourced_run = Running" "r_source sourced_run \<noteq> None"
    "failed_attempt sourced_run = None"
    by (simp_all add: sourced_run_def fresh_run_def done_attempt_def sample_attempt_def failed_attempt_def)
  have t: "\<not> (case drive_turn False 4 (add_ring [''work'', ''out''] sample_definition) sourced_run idle of
      LaunchNode _ \<Rightarrow> True | SkipNodes _ \<Rightarrow> True | _ \<Rightarrow> False)" by code_simp
  show ?thesis using control_cycle_accepted [OF sample_accepted a(1) _ a(2) r(1), of False 4 idle] r(2-4) t by fastforce
qed

end
