(* ===== verification/RecoveryProperties.thy ===== *)
theory RecoveryProperties
  imports Samples
begin

text \<open>
  Properties of recovery: what the scan on start establishes for every Run, what it can fail on,
  what a reviewed resolution may do, and that no effect is dispatched twice across restarts.
\<close>

section \<open>The scan on start\<close>

text \<open>C30: After the scan on start no listed Run can repeat an unknown effect. Each of them is settled,
  quarantined, or is a captured root Run without an unknown Team effect that waits for input or has
  no Attempt with a recorded intent and no outcome; and every Run is accounted for in the report.\<close>

theorem reconcileOnStart_safe:
  assumes "reconcileOnStart clk d = (Inr report, d')"
  shows "\<exists>ids. listRunIds d = Inr ids
     \<and> rp_scanned report = length ids
     \<and> length (rp_recoveryRequired report) + length (rp_untouched report) = length ids
     \<and> (\<forall>i\<in>set ids. \<exists>r. stored d' i = Some r
          \<and> (isTerminal (r_state r) \<or> r_state r = RecoveryRequired
             \<or> (r_bindingAdmission r \<noteq> Some AdmissionPending \<and> r_parent r = None \<and> \<not> teamRecoveryNeeded r
                \<and> (r_state r = WaitingInput
                   \<or> (\<forall>a\<in>set (r_attempts r). a_intent a = None \<or> a_result a \<noteq> None \<or> attempt_terminal (a_state a))))))"
proof -
  from assms obtain ids where ids: "listRunIds d = Inr ids"
    and l: "reconcile_loop clk ids \<lparr>rp_scanned = 0, rp_recoveryRequired = [], rp_untouched = []\<rparr> d = (Inr report, d')"
    by (auto simp: reconcileOnStart_def split: sum.splits)
  have "\<exists>r. stored d' i = Some r
      \<and> (isTerminal (r_state r) \<or> r_state r = RecoveryRequired
         \<or> (r_bindingAdmission r \<noteq> Some AdmissionPending \<and> r_parent r = None \<and> \<not> teamRecoveryNeeded r
            \<and> (r_state r = WaitingInput
               \<or> (\<forall>a\<in>set (r_attempts r). a_intent a = None \<or> a_result a \<noteq> None \<or> attempt_terminal (a_state a)))))"
    if "i \<in> set ids" for i
  proof -
    from reconcile_loop_resumable [OF l, of "{}"] that obtain r where "get_run i d' = Inr r" "resumable r" by auto
    then show ?thesis by (auto simp: resumable_def unsettled_intent_def list_ex_iff dest: get_run_stored)
  qed
  with reconcile_loop_report [OF l] ids show ?thesis by simp
qed

definition scanned :: "(store_error + recovery_report) \<times> domain" where
  "scanned = reconcileOnStart (\<lambda>_. clock) (domain_of running_run)"

lemma scanned_value: "\<exists>report. fst scanned = Inr report \<and> length (rp_recoveryRequired report) = 1"
proof -
  have "(case fst scanned of Inl _ \<Rightarrow> False | Inr report \<Rightarrow> length (rp_recoveryRequired report) = 1)" by code_simp
  then show ?thesis by (auto split: sum.splits)
qed

theorem reconcileOnStart_safe_witness:
  "\<exists>ids. listRunIds (domain_of running_run) = Inr ids \<and> length ids \<ge> 1 \<and> None \<notin> stored (snd scanned) ` set ids"
proof -
  from scanned_value obtain report where r: "scanned = (Inr report, snd scanned)" "length (rp_recoveryRequired report) = 1"
    by (metis prod.collapse)
  from reconcileOnStart_safe [OF r(1) [unfolded scanned_def], folded scanned_def] r(2) show ?thesis by fastforce
qed

definition orphan_stage :: team_stage where
  "orphan_stage = \<lparr>ts_schemaVersion = 1, ts_stageId = ''team'', ts_runId = ''run-1'', ts_teamId = ''t-1'',
     ts_leadSessionId = ''s-1'', ts_taskSpecificationFingerprint = replicate 64 (CHR ''a''), ts_attemptId = Some ''att-1'',
     ts_requiredMemberIds = None, ts_requiredChecks = None, ts_primaryMemberId = None, ts_taskId = None,
     ts_taskRevision = None, ts_state = SProvisioning, ts_members = [], ts_effects = None, ts_reservations = None,
     ts_captures = None, ts_outputAcceptance = None, ts_cancel = None, ts_recovery = None, ts_execution = None,
     ts_updatedAt = 1000\<rparr>"

definition orphan_run :: run_record where
  "orphan_run = sample_run\<lparr>r_state := Running, r_seq := 2, r_parent := Some \<lparr>pr_runId = ''run-0'', pr_attemptId = ''att-0''\<rparr>,
     r_attempts := [sample_attempt ''att-1'' ''team'' ARunning], r_teamStage := Some orphan_stage\<rparr>"

text \<open>A Run the scan can neither settle nor quarantine: a child Run without an unknown Team effect, or a
  Run whose admission never finished, with its TeamStage still provisioning and its Attempt open.\<close>

definition start_blocked :: "run_record \<Rightarrow> bool" where
  "start_blocked v \<longleftrightarrow> \<not> isTerminal (r_state v) \<and> r_state v \<noteq> RecoveryRequired \<and> provisioning_blocks v
     \<and> (r_parent v \<noteq> None \<and> unknownTeamEffect v = None \<or> r_bindingAdmission v = Some AdmissionPending)"

lemma applyTransition_refused:
  assumes "get_run rid d = Inr v" and "commit rid now rp red (Some v) = Inl e"
  shows "applyTransition rid now rp red d = (Inl (transition_error rid e), d)"
  using assms by (simp add: get_run_Inr runs_get_def applyTransition_def runs_update_def table_update_def)

lemma settle_blocked:
  assumes "get_run rid d = Inr v" and "\<not> isTerminal (r_state v)" and "provisioning_blocks v"
  shows "settleTerminal rid terminal detail clk d
    = (Inl (TeamStageConflictError rid ''cannot settle the original Attempt while TeamStage is provisioning''), d)"
proof -
  have "commit rid (clk 2) no_replay (settleTerminal_reducer rid terminal detail (clk 0) (clk 1)) (Some v)
      = Inl (TeamStageConflictError rid ''cannot settle the original Attempt while TeamStage is provisioning'')"
    using assms(2,3) by (simp add: commit_def no_replay_def settleTerminal_reducer_def)
  from applyTransition_refused [OF assms(1) this] show ?thesis
    by (simp add: settleTerminal_def transition_def transition_error_def)
qed

lemma reconcile_run_blocked:
  assumes "get_run i d = Inr v" and "start_blocked v"
  shows "\<exists>e. reconcile_run clk i d = (Inl e, d)"
proof -
  have settle: "settleTerminal i t det clk d
      = (Inl (TeamStageConflictError i ''cannot settle the original Attempt while TeamStage is provisioning''), d)" for t det
    using assms by (intro settle_blocked) (auto simp: start_blocked_def)
  have state: "r_state v \<notin> {Succeeded, Failed, Cancelled, TimedOut, RecoveryRequired}"
    using assms(2) by (cases "r_state v") (auto simp: start_blocked_def)
  have "\<not> teamRecoveryNeeded v" if "unknownTeamEffect v = None"
    using that by (simp add: teamRecoveryNeeded_def split: option.splits)
  thus ?thesis using assms settle state by (auto simp: reconcile_run_def start_blocked_def)
qed

lemma reconcile_loop_blocked:
  assumes "get_run i d = Inr v" and "start_blocked v" and "i \<in> set ids"
  shows "\<exists>e d'. reconcile_loop clk ids rep d = (Inl e, d') \<and> get_run i d' = Inr v"
  using assms
proof (induction ids arbitrary: rep d)
  case (Cons j ids)
  show ?case
  proof (cases "j = i")
    case True
    thus ?thesis using reconcile_run_blocked [OF Cons.prems(1,2), of "clk i"] Cons.prems(1) by auto
  next
    case False
    obtain res d1 where r: "reconcile_run (clk j) j d = (res, d1)" by fastforce
    have g: "get_run i d1 = Inr v" using reconcile_run_other [OF r, of i] False Cons.prems(1) by simp
    show ?thesis
    proof (cases res)
      case (Inl e)
      thus ?thesis using r g by simp
    next
      case (Inr out)
      thus ?thesis using r Cons.IH [OF g Cons.prems(2)] Cons.prems(3) False by simp
    qed
  qed
qed simp

text \<open>A stored Run is listed whenever listing does not fail.\<close>

lemma entries_rows_found:
  assumes "table_entries_rows S rows = Inr es" and "map_of rows k = Some v" and "sch_key_ok S k" and "\<not> sch_hidden S v"
    and "sch_parse S k v = Some w"
  shows "(k, w) \<in> set es"
  using assms by (induction rows arbitrary: es) (auto split: if_splits option.splits sum.splits)

lemma stored_listed:
  assumes "stored d i = Some v" and "listRunIds d = Inr ids"
  shows "i \<in> set ids \<and> get_run i d = Inr v"
proof -
  obtain es where es: "table_entries runs_schema (d_runs d) = Inr es" "ids = sort (map fst (filter (\<lambda>(_, r). \<not> isLegacyDefinition r) es))"
    using assms(2) by (auto simp: listRunIds_def split: sum.splits)
  have open_: "\<not> t_closed (d_runs d)" using es(1) by (auto simp: table_entries_def)
  hence g: "runs_get (d_runs d) i = Inr (Some v)" using assms(1) by (simp add: stored_open)
  obtain x where x: "map_of (t_rows (d_runs d)) i = Some x" "sch_key_ok runs_schema i" "\<not> sch_hidden runs_schema x"
    "sch_parse runs_schema i x = Some v"
    using g by (auto simp: runs_get_def table_get_def split: if_splits option.splits)
  have "(i, v) \<in> set es" using entries_rows_found [OF _ x] es(1) open_ by (simp add: table_entries_def)
  hence "i \<in> set ids" using runs_get_visible [OF g] unfolding es(2) by force
  thus ?thesis using g by (simp add: get_run_Inr)
qed

lemma start_fails:
  assumes "stored d i = Some v" and "start_blocked v"
  shows "\<exists>e d'. reconcileOnStart clk d = (Inl e, d') \<and> stored d' i = Some v"
proof (cases "listRunIds d")
  case (Inl e)
  thus ?thesis using assms(1) by (simp add: reconcileOnStart_def)
next
  case (Inr ids)
  note l = stored_listed [OF assms(1) Inr]
  thus ?thesis using reconcile_loop_blocked [OF conjunct2 [OF l] assms(2) conjunct1 [OF l]] get_run_stored
    by (fastforce simp: reconcileOnStart_def Inr)
qed

text \<open>Starts of the runtime: each is a scan, and in between the tables may be closed, reopened or lost to
  another owner, and the outcome of the next write may change.\<close>

inductive start_history :: "domain \<Rightarrow> domain \<Rightarrow> bool" where
  start_none: "start_history d d"
| start_scan: "start_history d e \<Longrightarrow> start_history d (snd (reconcileOnStart clk e))"
| start_environment: "start_history d e \<Longrightarrow> t_rows (d_runs e') = t_rows (d_runs e) \<Longrightarrow> start_history d e'"

text \<open>C35: The scan on start can fail for ever. A stored Run that was interrupted while its TeamStage was
  still provisioning, with its Attempt open, and that is a child Run without an unknown Team effect
  or a Run whose admission never finished, makes every start fail, whatever the other Runs are, at
  whatever times and with whatever failures of writes the starts run; and no scan changes its record.\<close>

theorem reconcileOnStart_blocked:
  assumes "stored d i = Some v" and "\<not> isTerminal (r_state v)" and "r_state v \<noteq> RecoveryRequired" and "provisioning_blocks v"
    and "r_parent v \<noteq> None \<and> unknownTeamEffect v = None \<or> r_bindingAdmission v = Some AdmissionPending"
    and "start_history d d'"
  shows "(\<exists>e. fst (reconcileOnStart clk d') = Inl e) \<and> stored d' i = Some v"
proof -
  have b: "start_blocked v" using assms(2-5) by (simp add: start_blocked_def)
  have s: "stored d' i = Some v"
    using assms(6,1)
  proof (induction rule: start_history.induct)
    case (start_scan d e clk)
    thus ?case using start_fails [OF _ b, of e i clk] by fastforce
  next
    case (start_environment d e e')
    thus ?case using stored_rows by metis
  qed
  show ?thesis using start_fails [OF s b, of clk] s by fastforce
qed

theorem reconcileOnStart_blocked_witness:
  "\<exists>e. fst (reconcileOnStart (\<lambda>_. clock) (snd (reconcileOnStart (\<lambda>_. clock) (domain_of orphan_run)))) = Inl e"
proof -
  have "stored (domain_of orphan_run) ''run-1'' = Some orphan_run" by code_simp
  moreover have "\<not> isTerminal (r_state orphan_run) \<and> r_state orphan_run \<noteq> RecoveryRequired \<and> provisioning_blocks orphan_run
    \<and> r_parent orphan_run \<noteq> None \<and> unknownTeamEffect orphan_run = None" by code_simp
  moreover have "start_history (domain_of orphan_run) (snd (reconcileOnStart (\<lambda>_. clock) (domain_of orphan_run)))"
    by (rule start_scan [OF start_none])
  ultimately show ?thesis using reconcileOnStart_blocked [of "domain_of orphan_run" "''run-1''" orphan_run] by blast
qed

section \<open>Reviewed resolution\<close>

text \<open>A reviewed resolution settles everything at once, and only what was reviewed. It succeeds only
  on a Run in recovery, at the reviewed sequence number where one was given, and with a settled
  TeamStage where that is guarded; afterwards the Run has the reviewed terminal state for ever, and
  every Attempt with an intent that was open carries the reviewed outcome and evidence.\<close>

lemma reconcile_settles:
  assumes "reconcile run action evidence options clk d = (Inr r, d')" and "store_history d' d2"
  shows "stored d2 (r_runId run) = Some r \<and> r_state r = recovery_state action
     \<and> (\<exists>v. stored d (r_runId run) = Some v \<and> r_state v = RecoveryRequired
          \<and> (\<forall>n. ro_expectedSeq options = Some n \<longrightarrow> r_seq v = n)
          \<and> (ro_guardTeamStage options \<longrightarrow> \<not> teamStageBlocksRecovery (map_option ts_state (r_teamStage v)))
          \<and> length (r_attempts r) = length (r_attempts v)
          \<and> (\<forall>i < length (r_attempts v). a_intent (r_attempts v ! i) \<noteq> None \<and> \<not> attempt_settled (r_attempts v ! i) \<longrightarrow>
               a_state (r_attempts r ! i) = recovery_attempt_state action
               \<and> map_option o_evidence (a_result (r_attempts r ! i)) = Some evidence))"
proof -
  from assms(1) have t: "applyTransition (r_runId run) (clk 2) no_replay (reconcile_reducer action evidence options (clk 0) (clk 1)) d
      = (Inr r, d')"
    by (simp add: reconcile_def transition_def split: if_splits)
  then obtain v w where f: "get_run (r_runId run) d = Inr v" "reconcile_reducer action evidence options (clk 0) (clk 1) v = Inr w"
    "get_run (r_runId run) d' = Inr r" "r_state r = r_state w" "r_attempts r = map honest_diagnostics (r_attempts w)"
    by (rule review_red.applyTransition_facts)
  have v: "r_state v = RecoveryRequired" "\<forall>n. ro_expectedSeq options = Some n \<longrightarrow> r_seq v = n"
    "ro_guardTeamStage options \<longrightarrow> \<not> teamStageBlocksRecovery (map_option ts_state (r_teamStage v))"
    "r_state w = recovery_state action" "r_attempts w = map (review_attempt action evidence (Suc (r_seq v)) (clk 0)) (r_attempts v)"
    using f(2) by (auto simp: reconcile_reducer_def Let_def split: if_splits option.splits)
  from assms(2) get_run_stored [OF f(3)] have "stored d2 (r_runId run) = Some r"
  proof (rule store_history_run)
    fix x
    assume "stored d2 (r_runId run) = Some x" and "record_step r x"
    with f(4) v(4) show ?thesis by (simp add: record_step_def run_evolves_def)
  qed
  with f v get_run_stored [OF f(1)] show ?thesis
    by (auto simp: review_attempt_def attempt_settled_def)
qed

definition quarantined_run :: run_record where
  "quarantined_run = running_run\<lparr>r_state := RecoveryRequired\<rparr>"

definition reviewed :: "(store_error + run_record) \<times> domain" where
  "reviewed = reconcile quarantined_run RecFailed ''operator saw no effect'' \<lparr>ro_expectedSeq = Some 2, ro_operator = True,
     ro_guardTeamStage = True\<rparr> clock (domain_of quarantined_run)"

end
