(* ===== verification/TeamProperties.thy ===== *)
theory TeamProperties
  imports Samples
begin

text \<open>
  Properties of the TeamStage: how its facts may change over whole histories, that an external
  effect is announced before it happens and never happens twice under one identity, and that the
  stage and its Attempt settle together.
\<close>

section \<open>Stage facts over histories\<close>

text \<open>C29: The facts of a TeamStage only grow. Between any two points of a history the stage keeps its
  identity, binding and Attempt, a bound task stays bound and its revision never decreases, an
  acceptance is final, recorded captures stay, effects are never removed or renamed and a settled
  effect never changes, and a closed stage never reopens.\<close>

theorem history_stage:
  assumes "store_history d d'" and "stored d rid = Some v" and "r_teamStage v = Some s"
  shows "\<exists>w t. stored d' rid = Some w \<and> r_teamStage w = Some t
     \<and> ts_stageId t = ts_stageId s \<and> ts_teamId t = ts_teamId s \<and> ts_leadSessionId t = ts_leadSessionId s
     \<and> ts_attemptId t = ts_attemptId s
     \<and> (ts_taskId s \<noteq> None \<longrightarrow> ts_taskId t = ts_taskId s)
     \<and> (\<forall>n. ts_taskRevision s = Some n \<longrightarrow> (\<exists>m\<ge>n. ts_taskRevision t = Some m))
     \<and> (ts_outputAcceptance s \<noteq> None \<longrightarrow> ts_outputAcceptance t = ts_outputAcceptance s)
     \<and> (stage_closed (ts_state s) \<longrightarrow> stage_closed (ts_state t))
     \<and> length (stage_captures s) \<le> length (stage_captures t) \<and> length (stage_effects s) \<le> length (stage_effects t)
     \<and> (\<forall>i < length (stage_captures s). stage_captures t ! i = stage_captures s ! i)
     \<and> (\<forall>i < length (stage_effects s). e_effectId (stage_effects t ! i) = e_effectId (stage_effects s ! i)
          \<and> (e_state (stage_effects s ! i) \<noteq> EPending \<longrightarrow> stage_effects t ! i = stage_effects s ! i))"
  using assms(1,2)
proof (rule store_history_run)
  fix w
  assume w: "stored d' rid = Some w" and "record_step v w"
  with assms(3) obtain t where t: "r_teamStage w = Some t" "stage_evolves s t"
    by (auto simp: record_step_def stage_step_def split: option.splits)
  then have c: "list_evolves (=) (stage_captures s) (stage_captures t)"
    and e: "list_evolves effect_evolves (stage_effects s) (stage_effects t)" by (simp_all add: stage_evolves_def)
  have "i < length (stage_captures t) \<and> stage_captures t ! i = stage_captures s ! i" if "i < length (stage_captures s)" for i
    using list_evolves_nth [OF c that] by simp
  moreover have "length (stage_captures s) \<le> length (stage_captures t)" "length (stage_effects s) \<le> length (stage_effects t)"
    using c e by (auto simp: list_evolves_def dest: list_all2_lengthD)
  moreover have "e_effectId (stage_effects t ! i) = e_effectId (stage_effects s ! i)
      \<and> (e_state (stage_effects s ! i) \<noteq> EPending \<longrightarrow> stage_effects t ! i = stage_effects s ! i)"
    if "i < length (stage_effects s)" for i
    using list_evolves_nth [OF e that] by (auto simp: effect_evolves_def)
  ultimately show ?thesis using w t unfolding stage_evolves_def by auto
qed

definition team_stage_sample :: team_stage where
  "team_stage_sample = \<lparr>ts_schemaVersion = 1, ts_stageId = ''team'', ts_runId = ''run-1'', ts_teamId = ''t-1'',
     ts_leadSessionId = ''s-1'', ts_taskSpecificationFingerprint = replicate 64 (CHR ''a''), ts_attemptId = Some ''att-1'',
     ts_requiredMemberIds = None, ts_requiredChecks = None, ts_primaryMemberId = None, ts_taskId = Some ''task-1'',
     ts_taskRevision = Some 1, ts_state = SActive, ts_members = [], ts_effects = None, ts_reservations = None,
     ts_captures = None, ts_outputAcceptance = None, ts_cancel = None, ts_recovery = None, ts_execution = None,
     ts_updatedAt = 1000\<rparr>"

definition team_run :: run_record where
  "team_run = sample_run\<lparr>r_state := Running, r_seq := 2, r_attempts := [sample_attempt ''att-1'' ''team'' ARunning],
     r_teamStage := Some team_stage_sample\<rparr>"

lemma stored_team: "stored (domain_of team_run) ''run-1'' = Some team_run"
  by code_simp

theorem history_stage_witness:
  "\<exists>w t. stored (cancelled team_run) ''run-1'' = Some w \<and> r_teamStage w = Some t \<and> ts_taskId t = Some ''task-1''"
  using history_stage [OF cancelled_history stored_team, of team_stage_sample]
  by (auto simp: team_run_def team_stage_sample_def)

section \<open>External effects\<close>

lemma effectFacts_Inr: "effectFacts f = Inr g \<Longrightarrow> g = f"
  by (simp add: effectFacts_def throw_if_def split: if_splits)

lemma recordTeamEffectIntent_facts:
  assumes "recordTeamEffectIntent f clk d = (Inr r, d')"
  obtains s v s0 where "get_run (ef_runId f) d = Inr v" "r_teamStage v = Some s0" "intent_conflict f (stage_effects s0) = None"
    "get_run (ef_runId f) d' = Inr r" "r_teamStage r = Some s"
    "stage_effects s = stage_effects s0 @ [intent_effect f (clk 0)]"
proof -
  from assms have "applyTransition (ef_runId f) (clk 3) no_replay (append_reducer f PIntent no_result clk) d = (Inr r, d')"
    by (auto simp: recordTeamEffectIntent_def record_effect_def append_effect_def transition_def
        dest: effectFacts_Inr split: sum.splits prod.splits)
  then show thesis
  proof (rule append_red.applyTransition_facts)
    fix v w
    assume f: "get_run (ef_runId f) d = Inr v" "append_reducer f PIntent no_result clk v = Inr w"
      "get_run (ef_runId f) d' = Inr r" "r_teamStage r = r_teamStage w"
    from f(2) obtain s0 where s0: "r_teamStage v = Some s0" "intent_conflict f (stage_effects s0) = None"
      "r_teamStage w = Some (s0\<lparr>ts_effects := Some (stage_effects s0 @ [intent_effect f (clk 0)])\<rparr>)"
      by (auto simp: append_reducer_def Let_def ebind_Inr put_stage_Inr throw_if_def split: option.splits if_splits)
    show thesis by (rule that [OF f(1) s0(1,2) f(3)]) (auto simp: f(4) s0(3) stage_effects_def)
  qed
qed

lemma effect_id_stays:
  assumes "record_step r w" and "r_teamStage r = Some s" and "e \<in> set (stage_effects s)" and "r_teamStage w = Some t"
  shows "\<exists>e'\<in>set (stage_effects t). e_effectId e' = e_effectId e"
proof -
  from assms(1,2,4) have ev: "list_evolves effect_evolves (stage_effects s) (stage_effects t)"
    by (simp add: record_step_def stage_step_def stage_evolves_def)
  from assms(3) obtain i where i: "i < length (stage_effects s)" "stage_effects s ! i = e" by (auto simp: in_set_conv_nth)
  from list_evolves_nth [OF ev i(1)] i(2) show ?thesis
    unfolding effect_evolves_def by (metis nth_mem)
qed

lemma intent_conflict_used:
  "e \<in> set es \<Longrightarrow> e_effectId e = ef_effectId f \<Longrightarrow> intent_conflict f es \<noteq> None"
  by (auto simp: intent_conflict_def find_None_iff split: option.splits)

text \<open>C11: An effect identity is used once. After an announced effect, a later dispatch with the same
  Run and effect id fails without calling the effect: its outcome is the same for every effect, so
  the native call is not made, whatever happened to the Run in between.\<close>

theorem dispatch_once:
  assumes "recordTeamEffectIntent f clk d = (Inr r, d')" and "store_history d' d2"
    and "ef_runId g = ef_runId f" and "ef_effectId g = ef_effectId f"
  shows "\<exists>e d3. \<forall>effect result. dispatch g effect result clks d2 = (Inl e, d3)"
proof -
  have "\<exists>e. fst (recordTeamEffectIntent g (clks 0) d2) = Inl e"
  proof (rule ccontr)
    assume "\<nexists>e. fst (recordTeamEffectIntent g (clks 0) d2) = Inl e"
    then obtain x d3 where "recordTeamEffectIntent g (clks 0) d2 = (Inr x, d3)"
      by (cases "recordTeamEffectIntent g (clks 0) d2"; cases "fst (recordTeamEffectIntent g (clks 0) d2)") auto
    then obtain v t where v: "get_run (ef_runId f) d2 = Inr v" "r_teamStage v = Some t" "intent_conflict g (stage_effects t) = None"
      by (rule recordTeamEffectIntent_facts) (simp add: assms(3))
    from assms(1) obtain s where s: "get_run (ef_runId f) d' = Inr r" "r_teamStage r = Some s"
      "intent_effect f (clk 0) \<in> set (stage_effects s)"
      by (rule recordTeamEffectIntent_facts) simp
    from assms(2) get_run_stored [OF s(1)] obtain w where "stored d2 (ef_runId f) = Some w" "record_step r w"
      by (rule store_history_run)
    moreover from this v(1) have "w = v" by (auto dest: get_run_stored)
    ultimately obtain e where "e \<in> set (stage_effects t)" "e_effectId e = ef_effectId f"
      using effect_id_stays [OF _ s(2,3) v(2)] by (auto simp: intent_effect_def)
    with intent_conflict_used [of e "stage_effects t" g] v(3) assms(4) show False by simp
  qed
  then obtain e d3 where e: "recordTeamEffectIntent g (clks 0) d2 = (Inl e, d3)" by (metis prod.collapse)
  show ?thesis
  proof (cases "effectFacts g")
    case (Inl x)
    then show ?thesis by (auto simp: dispatch_def)
  next
    case (Inr x)
    with effectFacts_Inr [OF Inr] e show ?thesis by (auto simp: dispatch_def)
  qed
qed

definition effect_sample :: effect_facts where
  "effect_sample = \<lparr>ef_runId = ''run-1'', ef_stageId = ''team'', ef_teamId = ''t-1'', ef_effectId = ''e-1'', ef_kind = ''message'',
     ef_actorSessionId = ''s-1'', ef_memberName = None, ef_taskId = None, ef_memberId = None\<rparr>"

definition announced :: "(effect_error + run_record) \<times> domain" where
  "announced = recordTeamEffectIntent effect_sample clock (domain_of team_run)"

theorem dispatch_once_witness:
  "\<exists>e d3. \<forall>effect :: domain \<Rightarrow> nat effect_outcome \<times> domain. \<forall>result.
     dispatch effect_sample effect result (\<lambda>_. clock) (snd announced) = (Inl e, d3)"
proof -
  have "\<not> isl (fst announced)" by code_simp
  then obtain r where "announced = (Inr r, snd announced)" by (metis sum.collapse(2) prod.collapse)
  from dispatch_once [OF this [unfolded announced_def] rtranclp.rtrancl_refl refl refl] show ?thesis
    by (simp add: announced_def)
qed

text \<open>An effect is announced before it happens and settled after it. When a dispatch returns a
  value, the effect ran on a store that already held its pending intent, and the durable effect is
  settled as succeeded or failed as the result said.\<close>

lemma dispatch_announced:
  assumes "dispatch f effect result clks d = (Inr x, d')"
  shows "\<exists>d1 d2 s1 v1 s3 v3 res. effect d1 = (Returned x, d2)
     \<and> stored d1 (ef_runId f) = Some v1 \<and> r_teamStage v1 = Some s1
     \<and> (\<exists>e\<in>set (stage_effects s1). e_effectId e = ef_effectId f \<and> e_state e = EPending)
     \<and> result x = Inr res \<and> stored d' (ef_runId f) = Some v3 \<and> r_teamStage v3 = Some s3
     \<and> (\<exists>e\<in>set (stage_effects s3). e_effectId e = ef_effectId f \<and> e_state e = (if rf_ok res then ESucceeded else EFailed))"
proof -
  from assms obtain r1 d1 d2 res checked r3 where
    i: "recordTeamEffectIntent f (clks 0) d = (Inr r1, d1)" and e: "effect d1 = (Returned x, d2)"
    and res: "result x = Inr res" "resultFacts res = Inr checked"
    and p: "recordTeamEffectResult f checked (clks 1) d2 = (Inr r3, d')"
    by (auto simp: dispatch_def ebind_Inr dest!: effectFacts_Inr split: sum.splits prod.splits effect_outcome.splits if_splits)
  from i obtain s1 where s1: "stored d1 (ef_runId f) = Some r1" "r_teamStage r1 = Some s1"
    "\<exists>e\<in>set (stage_effects s1). e_effectId e = ef_effectId f \<and> e_state e = EPending"
    by (rule recordTeamEffectIntent_facts) (auto simp: intent_effect_def dest: get_run_stored)
  from p have "applyTransition (ef_runId f) (clks 1 3) no_replay (append_reducer f PResult checked (clks 1)) d2 = (Inr r3, d')"
    by (auto simp: recordTeamEffectResult_def record_effect_def append_effect_def transition_def
        dest: effectFacts_Inr split: sum.splits prod.splits)
  then obtain v w where f: "append_reducer f PResult checked (clks 1) v = Inr w" "get_run (ef_runId f) d' = Inr r3"
    "r_teamStage r3 = r_teamStage w"
    by (rule append_red.applyTransition_facts)
  from f(1) obtain s0 c2 where s0: "r_teamStage v = Some s0" "resultFacts checked = Inr c2"
    "map_option e_state (List.find (\<lambda>e. e_effectId e = ef_effectId f) (stage_effects s0)) = Some EPending"
    "r_teamStage w = Some (s0\<lparr>ts_effects := Some (update_first (\<lambda>e. e_effectId e = ef_effectId f)
       (settle_effect PResult c2 (clks 1 0)) (stage_effects s0))\<rparr>)"
    by (auto simp: append_reducer_def Let_def ebind_Inr put_stage_Inr throw_if_def split: option.splits if_splits)
  have ok: "rf_ok c2 = rf_ok res" if "resultFacts res = Inr checked"
    using s0(2) that by (auto simp: resultFacts_def throw_if_def split: if_splits)
  have "\<exists>e\<in>set (update_first p g es). p e \<and> (\<exists>a. e = g a)" if "List.find p es = Some a" "\<And>a. p (g a) = p a"
    for p :: "team_effect \<Rightarrow> bool" and g es a
    using that by (induction es) (auto split: if_splits)
  from this [of "\<lambda>e. e_effectId e = ef_effectId f" "stage_effects s0" _ "settle_effect PResult c2 (clks 1 0)"] s0(3)
  have "\<exists>e\<in>set (update_first (\<lambda>e. e_effectId e = ef_effectId f) (settle_effect PResult c2 (clks 1 0)) (stage_effects s0)).
      e_effectId e = ef_effectId f \<and> e_state e = (if rf_ok c2 then ESucceeded else EFailed)"
    by (fastforce simp: settle_effect_def)
  with s0(4) f(3) ok [OF res(2)] obtain s3 where "r_teamStage r3 = Some s3"
    "\<exists>e\<in>set (stage_effects s3). e_effectId e = ef_effectId f \<and> e_state e = (if rf_ok res then ESucceeded else EFailed)"
    by (auto simp: stage_effects_def)
  with s1 e res(1) get_run_stored [OF f(2)] show ?thesis by blast
qed

definition quiet_result :: "nat \<Rightarrow> store_error + result_facts" where
  "quiet_result x = Inr (no_result\<lparr>rf_ok := True\<rparr>)"

section \<open>Settlement\<close>

text \<open>The reducer never raises the internal replay signal itself.\<close>

lemma frozenArtifactNode_error: "frozenArtifactNode v \<noteq> Inl (TeamSettlementReplay x)"
  by (auto simp: frozenArtifactNode_def artifactReject_def throw_if_def Let_def split: option.splits sum.splits if_splits)

lemma fullArtifactPolicy_error: "fullArtifactPolicy v \<noteq> Inl (TeamSettlementReplay x)"
  using frozenArtifactNode_error [of v x]
  by (cases "frozenArtifactNode v")
    (auto simp: fullArtifactPolicy_def artifactReject_def throw_if_def Let_def ebind_def split: option.splits if_splits)

lemma captureBinding_error: "validateCaptureArtifactBinding sha v ref b \<noteq> Inl (TeamSettlementReplay x)"
  using frozenArtifactNode_error [of v x]
  by (cases "frozenArtifactNode v")
    (auto simp: validateCaptureArtifactBinding_def artifactReject_def throw_if_def Let_def ebind_def split: option.splits if_splits)

lemma validate_captures_error: "validate_captures sha v refs \<noteq> Inl (TeamSettlementReplay x)"
proof (induction refs)
  case (Cons ref refs)
  with captureBinding_error [of sha v ref True x] show ?case
    by (cases "validateCaptureArtifactBinding sha v ref True") (auto simp: ebind_def)
qed simp

lemma settle_artifact_error: "settle_artifact_checks sha rid q v s \<noteq> Inl (TeamSettlementReplay x)"
  using fullArtifactPolicy_error [of v x] validate_captures_error [of sha v "stage_captures s" x]
  by (cases "fullArtifactPolicy v"; cases "validate_captures sha v (stage_captures s)")
    (auto simp: settle_artifact_checks_def throw_if_def ebind_def split: prod.splits)

lemma settle_reducer_error: "settleTeamStageAttempt_reducer sha rid q now v \<noteq> Inl (TeamSettlementReplay x)"
proof (cases "r_teamStage v")
  case (Some s)
  have "settle_binding_checks rid q v s \<noteq> Inl (TeamSettlementReplay x)"
    by (simp add: settle_binding_checks_def throw_if_def Let_def)
  with Some settle_artifact_error [of sha rid q v s x] show ?thesis
    by (cases "settle_binding_checks rid q v s"; cases "settle_artifact_checks sha rid q v s")
      (auto simp: settleTeamStageAttempt_reducer_def throw_if_def ebind_def put_stage_def Let_def split: option.splits)
qed (simp add: settleTeamStageAttempt_reducer_def throw_if_def)

lemma sameTeamOutputAcceptance_refl [simp]: "sameTeamOutputAcceptance a a"
  by (auto simp: sameTeamOutputAcceptance_def list_all_iff set_zip)

lemma settled_is_replay:
  assumes "applyTransition rid now (settlement_isReplay rid q) (settleTeamStageAttempt_reducer sha rid q t) d = (Inr r, d')"
  shows "get_run rid d' = Inr r \<and> settlement_isReplay rid q r = Inr True"
  using assms
proof (rule settle_stage_red.applyTransition_facts)
  fix v w
  assume f: "settleTeamStageAttempt_reducer sha rid q t v = Inr w" "get_run rid d' = Inr r" "r_state r = r_state w"
    "r_attempts r = map honest_diagnostics (r_attempts w)" "r_teamStage r = r_teamStage w" "\<not> isTerminal (r_state v)"
  let ?p = "\<lambda>x. a_attemptId x = sq_attemptId q"
  from f(1) show ?thesis
  proof (cases rule: settle_reducer_shape)
    case (1 s a)
    let ?g = "settle_stage_attempt q (Suc (r_seq v)) t"
    have "List.find ?p (map honest_diagnostics (update_first ?p ?g as)) = map_option (honest_diagnostics \<circ> ?g) (List.find ?p as)" for as
      by (induction as) (auto simp: settle_stage_attempt_def)
    with 1(2) have a: "List.find ?p (r_attempts r) = Some (honest_diagnostics (?g a))" by (simp add: f(4) 1(9))
    moreover have "r_state r \<notin> {Cancelling, Cancelled, RecoveryRequired, Failed, TimedOut}"
      using 1(6) f(3,6) by (auto simp: 1(9))
    ultimately show ?thesis
      using f(2,5) 1(7) by (simp add: settlement_isReplay_def 1(9) settle_stage_attempt_def throw_if_def)
  qed
qed

lemma settleTeamStageAttempt_acknowledged:
  assumes "settleTeamStageAttempt sha rid q clk d = (Inr r, d')"
  shows "get_run rid d' = Inr r \<and> settlement_isReplay rid q r = Inr True"
proof -
  from assms obtain v b where v: "get_run rid d = Inr v" and b: "settlement_isReplay rid q v = Inr b"
    by (auto simp: settleTeamStageAttempt_def split: if_splits sum.splits)
  let ?t = "applyTransition rid (clk 1) (settlement_isReplay rid q) (settleTeamStageAttempt_reducer sha rid q (clk 0)) d"
  have n: "?t \<noteq> (Inl (TeamSettlementReplay x), d2)" if "\<not> b" for x d2
  proof
    assume "?t = (Inl (TeamSettlementReplay x), d2)"
    from applyTransition_error [OF this] obtain cur where
      "runs_get (d_runs d) rid = Inr cur" "commit rid (clk 1) (settlement_isReplay rid q) (settleTeamStageAttempt_reducer sha rid q (clk 0)) cur
        = Inl (TeamSettlementReplay x)" by auto
    with v b that settle_reducer_error [of sha rid q "clk 0" v x] show False
      by (auto simp: get_run_Inr commit_def transitionRun_def split: sum.splits if_splits)
  qed
  show ?thesis
  proof (cases b)
    case True
    with assms v b show ?thesis by (auto simp: settleTeamStageAttempt_def split: if_splits)
  next
    case False
    with assms v b n have "?t = (Inr r, d')"
      by (auto simp: settleTeamStageAttempt_def split: if_splits sum.splits prod.splits store_error.splits)
    then show ?thesis by (rule settled_is_replay)
  qed
qed

text \<open>A TeamStage and its Attempt settle together, and settling again changes nothing. When
  \<open>settleTeamStageAttempt\<close> acknowledges, the stored stage is succeeded with the given acceptance, its
  own Attempt succeeded with the given outputs, and repeating the same request returns the same
  record and leaves the store as it is.\<close>

lemma settleTeamStageAttempt_atomic:
  assumes "settleTeamStageAttempt sha rid q clk d = (Inr r, d')"
  shows "stored d' rid = Some r
     \<and> (\<exists>s acc a res. r_teamStage r = Some s \<and> ts_state s = SSucceeded \<and> ts_attemptId s = Some (sq_attemptId q)
          \<and> ts_outputAcceptance s = Some acc \<and> sameTeamOutputAcceptance acc (sq_acceptance q)
          \<and> List.find (\<lambda>x. a_attemptId x = sq_attemptId q) (r_attempts r) = Some a
          \<and> a_state a = ASucceeded \<and> a_result a = Some res \<and> o_ok res
          \<and> json_deep_eq (jfield ''outputs'' (o_outcome res)) (JObj (sq_outputs q)))
     \<and> settleTeamStageAttempt sha rid q clk2 d' = (Inr r, d')"
proof -
  from settleTeamStageAttempt_acknowledged [OF assms] have g: "get_run rid d' = Inr r" "settlement_isReplay rid q r = Inr True"
    by simp_all
  from assms have "output_acceptance_ok (sq_acceptance q)" "oa_code (sq_acceptance q) = Accepted"
    "team_stage_ok (sq_stage q)" "host_verdict_ok (sq_hostVerdict q)"
    by (auto simp: settleTeamStageAttempt_def split: if_splits)
  with g have "settleTeamStageAttempt sha rid q clk2 d' = (Inr r, d')" by (simp add: settleTeamStageAttempt_def)
  moreover from g(2) obtain s acc a res where "r_teamStage r = Some s" "ts_state s = SSucceeded" "ts_attemptId s = Some (sq_attemptId q)"
      "ts_outputAcceptance s = Some acc" "sameTeamOutputAcceptance acc (sq_acceptance q)"
      "List.find (\<lambda>x. a_attemptId x = sq_attemptId q) (r_attempts r) = Some a"
      "a_state a = ASucceeded" "a_result a = Some res" "o_ok res"
      "json_deep_eq (jfield ''outputs'' (o_outcome res)) (JObj (sq_outputs q))"
    by (auto simp: settlement_isReplay_def throw_if_def split: option.splits if_splits)
  ultimately show ?thesis using get_run_stored [OF g(1)] by blast
qed

definition settle_sample :: settle_request where
  "settle_sample =
     (let sha = replicate 64 (CHR ''b'') in
      \<lparr>sq_attemptId = ''att-1'',
       sq_acceptance = \<lparr>oa_code = Accepted, oa_schemaVersion = 1, oa_runId = ''run-1'', oa_stageId = ''team'', oa_taskId = ''task-1'',
         oa_attemptId = Some ''att-1'', oa_sourceSessionId = ''s-2'', oa_artifactId = ''ta-1'', oa_digest = sha, oa_evidenceDigest = sha,
         oa_checks = [''schema''], oa_issueCode = None\<rparr>,
       sq_outputs = [(''note'', JStr ''done'')], sq_evidence = None, sq_definitionRevision = ''rev-1'', sq_stage = team_stage_sample,
       sq_hostVerdict = \<lparr>hv_artifactId = ''ta-1'', hv_digest = sha, hv_byteLength = 4, hv_schemaDigest = sha, hv_evidenceDigest = sha,
         hv_runId = ''run-1'', hv_stageId = ''team'', hv_taskId = ''task-1'', hv_attemptId = ''att-1'', hv_producerSessionId = ''s-2'',
         hv_producerMemberId = ''m-1''\<rparr>\<rparr>)"

definition no_digest :: "json \<Rightarrow> string" where
  "no_digest j = replicate 64 (CHR ''0'')"

definition settled_stage :: "(store_error + run_record) \<times> domain" where
  "settled_stage = settleTeamStageAttempt no_digest ''run-1'' settle_sample clock (domain_of team_run)"

end
