(* ===== verification/MessageProperties.thy ===== *)
theory MessageProperties
  imports Samples
begin

text \<open>
  Properties of the managed inbox: a message leaves the store at most once per request id, and a
  retry only ever acknowledges the message that was sent.
\<close>

section \<open>What a pending record guarantees\<close>

abbreviation addressed :: "message_args \<Rightarrow> attempt \<Rightarrow> bool" where
  "addressed q a \<equiv> a_attemptId a = ma_attemptId q \<and> a_sessionId a = Some (ma_sessionId q)"

definition announced_message :: "message_args \<Rightarrow> string \<Rightarrow> run_record \<Rightarrow> bool" where
  "announced_message q mid r \<longleftrightarrow>
     (\<exists>a m. List.find (addressed q) (r_attempts r) = Some a
        \<and> List.find (\<lambda>m. msg_requestId m = ma_requestId q) (attempt_messages a) = Some m \<and> msg_messageId m = mid)"

lemma announced_message_evolves:
  assumes "record_step r w" and "announced_message q mid r"
  shows "announced_message q mid w"
proof -
  from assms(2) obtain a m where a: "List.find (addressed q) (r_attempts r) = Some a"
    and m: "List.find (\<lambda>m. msg_requestId m = ma_requestId q) (attempt_messages a) = Some m" "msg_messageId m = mid"
    by (auto simp: announced_message_def)
  from assms(1) have ev: "list_evolves attempt_evolves (r_attempts r) (r_attempts w)"
    by (simp add: record_step_def run_evolves_def attempts_evolve_def)
  have "\<exists>b. List.find (addressed q) (r_attempts w) = Some b \<and> attempt_evolves a b"
    by (rule list_evolves_find [OF ev _ a]) (simp add: attempt_evolves_def)
  then obtain b where b: "List.find (addressed q) (r_attempts w) = Some b"
    "list_evolves message_evolves (attempt_messages a) (attempt_messages b)" by (auto simp: attempt_evolves_def)
  have "\<exists>n. List.find (\<lambda>m. msg_requestId m = ma_requestId q) (attempt_messages b) = Some n \<and> message_evolves m n"
    by (rule list_evolves_find [OF b(2) _ m(1)]) (simp add: message_evolves_def)
  with b(1) m(2) show ?thesis by (auto simp: announced_message_def message_evolves_def)
qed

lemma pending_announces:
  assumes "transition rid now (pending_reducer l q dg mid t) d = (Inr r, d')" and "get_run rid d = Inr v"
    and "active_attempt q v = Inr a" and "List.find (\<lambda>m. msg_requestId m = ma_requestId q) (attempt_messages a) = None"
  shows "stored d' rid = Some r \<and> announced_message q mid r"
  using assms(1) [unfolded transition_def]
proof (rule pending_red.applyTransition_facts)
  fix x w
  assume f: "get_run rid d = Inr x" "pending_reducer l q dg mid t x = Inr w" "get_run rid d' = Inr r"
    "r_attempts r = map honest_diagnostics (r_attempts w)"
  define msg where "msg = \<lparr>msg_requestId = ma_requestId q, msg_digest = dg, msg_messageId = mid, msg_state = MsgPending, msg_at = t\<rparr>"
  define g where "g = (\<lambda>a. a\<lparr>a_messages := Some (attempt_messages a @ [msg]), a_state := ARunning\<rparr> :: attempt)"
  from f(1) assms(2) have x: "x = v" by simp
  from assms(3) have a: "List.find (addressed q) (r_attempts v) = Some a"
    by (auto simp: active_attempt_def throw_if_def split: sum.splits option.splits if_splits)
  from f(2) x have w: "r_attempts w = update_first (addressed q) g (r_attempts v)"
    by (auto simp: pending_reducer_def ebind_Inr g_def msg_def)
  have "List.find (addressed q) (map honest_diagnostics (update_first (addressed q) g as))
      = map_option (honest_diagnostics \<circ> g) (List.find (addressed q) as)" for as
    by (induction as) (auto simp: g_def)
  with a have "List.find (addressed q) (r_attempts r) = Some (honest_diagnostics (g a))" by (simp add: f(4) w)
  moreover have "List.find (\<lambda>m. msg_requestId m = ma_requestId q) (attempt_messages (honest_diagnostics (g a))) = Some msg"
  proof -
    have "List.find p (xs @ [y]) = Some y" if "List.find p xs = None" "p y" for p and xs :: "attempt_message list" and y
      using that by (induction xs) (auto split: if_splits)
    from this [OF assms(4)] show ?thesis by (simp add: g_def msg_def message_list_def)
  qed
  ultimately have "announced_message q mid r" by (auto simp: announced_message_def msg_def)
  with get_run_stored [OF f(3)] show ?thesis by simp
qed

lemma delivery_history:
  assumes "deliver_message env q mid clk d = (res, d')" and "\<And>x. store_history x (snd (me_deliver env x))"
  shows "store_history d d'"
proof -
  have t: "store_history x e" if "transition (ma_runId q) (clk 2) (accept_reducer q mid) x = (y, e)" for x y e
    using st_accept [OF that] by (rule r_into_rtranclp)
  have dv: "store_history d x" if "me_deliver env d = (b, x)" for b x
    using assms(2) [of d] that by simp
  from assms(1) dv t show ?thesis
    by (auto simp: deliver_message_def split: sum.splits prod.splits bool.splits intro: rtranclp_trans)
qed

lemma message_delivered:
  assumes "message env q mid clk d = (res, d')" and "mx_delivered res"
    and "\<And>x. store_history x (me_between env x)" and "\<And>x. store_history x (snd (me_deliver env x))"
  shows "\<exists>r. stored d' (ma_runId q) = Some r \<and> announced_message q mid r"
proof -
  from assms(1,2) obtain v a r d1 where v: "get_run (ma_runId q) d = Inr v" and a: "active_attempt q v = Inr a"
    and n: "List.find (\<lambda>m. msg_requestId m = ma_requestId q) (attempt_messages a) = None"
    and p: "transition (ma_runId q) (clk 1)
        (pending_reducer (me_reduce env) q (message_digest (me_sha env) q) mid (clk 0)) d = (Inr r, d1)"
    and dl: "deliver_message env q mid clk (me_between env d1) = (res, d')"
    by (auto simp: message_def refused_def ebind_Inr split: sum.splits option.splits if_splits prod.splits)
  from pending_announces [OF p v a n] have s: "stored d1 (ma_runId q) = Some r" "announced_message q mid r" by simp_all
  from assms(3) [of d1] delivery_history [OF dl assms(4)] have "store_history d1 d'" by (rule rtranclp_trans)
  from this s(1) show ?thesis
    by (rule store_history_run) (use s(2) announced_message_evolves in blast)
qed

text \<open>C14: A managed message is delivered at most once. When a call handed the message to the native
  inbox, whether it was acknowledged or ended unknown, every later call with the same Run, Attempt,
  session and request id leaves the store unchanged, delivers nothing, and can only acknowledge the
  message that was sent, as a replay.\<close>

theorem message_once:
  assumes "message env q mid clk d = (res, d')" and "mx_delivered res"
    and "\<forall>x. store_history x (me_between env x)" and "\<forall>x. store_history x (snd (me_deliver env x))"
    and "store_history d' d2"
    and "ma_runId q2 = ma_runId q" and "ma_attemptId q2 = ma_attemptId q" and "ma_sessionId q2 = ma_sessionId q"
    and "ma_requestId q2 = ma_requestId q"
    and "message env2 q2 mid2 clk2 d2 = (res2, d3)"
  shows "d3 = d2 \<and> \<not> mx_delivered res2
     \<and> (\<forall>receipt. mx_outcome res2 = Inr receipt \<longrightarrow> mr_replayed receipt \<and> mr_messageId receipt = mid)"
proof -
  from message_delivered [OF assms(1,2)] assms(3,4) obtain r where
    "stored d' (ma_runId q) = Some r" "announced_message q mid r" by blast
  from assms(5) this(1) obtain w where w: "stored d2 (ma_runId q) = Some w" "announced_message q mid w"
    by (rule store_history_run) (use \<open>announced_message q mid r\<close> announced_message_evolves in blast)
  have found: "\<exists>m. List.find (\<lambda>m. msg_requestId m = ma_requestId q2) (attempt_messages a) = Some m \<and> msg_messageId m = mid"
    if "get_run (ma_runId q2) d2 = Inr v" "active_attempt q2 v = Inr a" for v a
  proof -
    from that(1) w(1) assms(6) have "v = w" by (auto dest: get_run_stored)
    with that(2) have "List.find (addressed q2) (r_attempts w) = Some a"
      by (auto simp: active_attempt_def throw_if_def split: sum.splits option.splits if_splits)
    with w(2) assms(7-9) show ?thesis by (auto simp: announced_message_def)
  qed
  show ?thesis
  proof (cases "ebind (get_run (ma_runId q2) d2) (active_attempt q2)")
    case (Inl e)
    with assms(10) show ?thesis by (auto simp: message_def refused_def)
  next
    case (Inr a)
    then obtain v where v: "get_run (ma_runId q2) d2 = Inr v" "active_attempt q2 v = Inr a" by (auto simp: ebind_Inr)
    with found obtain m where "List.find (\<lambda>m. msg_requestId m = ma_requestId q2) (attempt_messages a) = Some m" "msg_messageId m = mid"
      by blast
    with assms(10) Inr v show ?thesis
      by (auto simp: message_def refused_def ebind_def split: sum.splits option.splits if_splits)
  qed
qed

definition chat_text :: json_text where
  "chat_text = Some (JObj [(''schemaVersion'', JNum (Finite 2)), (''id'', JStr ''sample''), (''name'', JStr ''Sample''),
     (''resources'', JObj []),
     (''graph'', JObj [(''nodes'', JArr [JObj [(''id'', JStr ''chat''), (''kind'', JStr ''agentTask''), (''interaction'', JStr ''managed'')]]),
       (''edges'', JArr [])])])"

definition chat_run :: run_record where
  "chat_run = sample_run\<lparr>r_state := Running, r_seq := 2, r_definitionJson := chat_text,
     r_attempts := [sample_attempt ''att-1'' ''chat'' ARunning]\<rparr>"

definition chat_args :: message_args where
  "chat_args = \<lparr>ma_runId = ''run-1'', ma_attemptId = ''att-1'', ma_sessionId = ''s-att-1'', ma_requestId = ''m-1'',
     ma_delivery = ''followup'', ma_text = ''hello''\<rparr>"

definition chat_env :: message_env where
  "chat_env =
     (let l = \<lparr>ln_runId = ''run-1'', ln_attemptId = ''att-1'', ln_accepting = True, ln_aborted = False, ln_current = True\<rparr> in
      \<lparr>me_sha = (\<lambda>_. replicate 64 (CHR ''c'')), me_entry = Some l, me_reduce = l, me_before = l,
       me_between = (\<lambda>d. d), me_deliver = (\<lambda>d. (True, d))\<rparr>)"

definition sent :: "message_result \<times> domain" where
  "sent = message chat_env chat_args ''msg-1'' clock (domain_of chat_run)"

theorem message_once_witness:
  "mx_delivered (fst sent) \<and> \<not> mx_delivered (fst (message chat_env chat_args ''msg-2'' clock (snd sent)))"
proof -
  have d: "mx_delivered (fst sent)" by code_simp
  have e: "\<forall>x. store_history x (me_between chat_env x)" "\<forall>x. store_history x (snd (me_deliver chat_env x))"
    by (simp_all add: chat_env_def Let_def)
  from message_once [OF prod.collapse [symmetric] d [unfolded sent_def] e rtranclp.rtrancl_refl refl refl refl refl
      prod.collapse [symmetric]] d
  show ?thesis by (simp add: sent_def)
qed

end
