(* ===== verification/NodeValues.thy ===== *)
theory NodeValues
  imports RunStore Scheduler
begin

text \<open>
  Values on the ports of a node: \<open>host/node-values.ts\<close> and the parts of \<open>executeRunNode\<close>
  (\<open>service/run-execution.ts\<close>) that bind the inputs of a node and map the outcome of an agent to its
  output ports.
\<close>

section \<open>Own properties of values\<close>

text \<open>\<open>Object.hasOwn\<close> with the value: fields of objects, indices and \<open>length\<close> of arrays and strings.\<close>

definition indexed_field :: "'a list \<Rightarrow> ('a \<Rightarrow> json) \<Rightarrow> string \<Rightarrow> json option" where
  "indexed_field xs f k =
     (if k = ''length'' then Some (JNum (Finite (of_nat (length xs))))
      else map_option (\<lambda>i. f (xs ! i)) (List.find (\<lambda>i. digit_string i = k) [0..<length xs]))"

fun own_field :: "json \<Rightarrow> string \<Rightarrow> json option" where
  "own_field (JObj kvs) k = map_of kvs k"
| "own_field (JArr xs) k = indexed_field xs (\<lambda>x. x) k"
| "own_field (JStr s) k = indexed_field s (\<lambda>c. JStr [c]) k"
| "own_field _ k = None"

fun json_truthy :: "json \<Rightarrow> bool" where
  "json_truthy JUndefined = False"
| "json_truthy JNull = False"
| "json_truthy (JBool b) = b"
| "json_truthy (JNum n) = (n \<noteq> Finite 0 \<and> n \<noteq> NaN)"
| "json_truthy (JStr s) = (s \<noteq> [])"
| "json_truthy _ = True"

section \<open>Wire types\<close>

datatype node_value_error =
    ConditionInputInvalid | InputMissing | InputInvalid | BindingMissing | BindingUnavailable | BindingInvalid
  | BindingDrift | OutputMissing | OutputInvalid

definition error_kind :: "node_value_error \<Rightarrow> string" where
  "error_kind e =
     (case e of ConditionInputInvalid \<Rightarrow> ''condition-input-invalid'' | InputMissing \<Rightarrow> ''input-missing''
      | InputInvalid \<Rightarrow> ''input-invalid'' | BindingMissing \<Rightarrow> ''binding-missing''
      | BindingUnavailable \<Rightarrow> ''binding-unavailable'' | BindingInvalid \<Rightarrow> ''binding-invalid''
      | BindingDrift \<Rightarrow> ''binding-drift'' | OutputMissing \<Rightarrow> ''output-missing'' | OutputInvalid \<Rightarrow> ''output-invalid'')"

fun isJsonValue :: "json \<Rightarrow> bool" and fields_json :: "(string \<times> json) list \<Rightarrow> bool" where
  "isJsonValue JUndefined = False"
| "isJsonValue JNull = True"
| "isJsonValue (JBool _) = True"
| "isJsonValue (JStr _) = True"
| "isJsonValue (JNum n) = js_is_finite n"
| "isJsonValue (JArr vs) = list_all isJsonValue vs"
| "isJsonValue (JObj kvs) = fields_json kvs"
| "fields_json [] = True"
| "fields_json ((k, v) # kvs) = (isJsonValue v \<and> fields_json kvs)"

definition matchesWireType :: "json \<Rightarrow> string option \<Rightarrow> bool" where
  "matchesWireType v t =
     (case t of
        None \<Rightarrow> False
      | Some ty \<Rightarrow>
          if ty = ''json'' then isJsonValue v
          else if ty = ''number'' then (case v of JNum n \<Rightarrow> js_is_finite n | _ \<Rightarrow> False)
          else if ty = ''string'' then (case v of JStr _ \<Rightarrow> True | _ \<Rightarrow> False)
          else if ty = ''boolean'' then (case v of JBool _ \<Rightarrow> True | _ \<Rightarrow> False)
          else ty \<noteq> [] \<and> isJsonValue v)"

text \<open>\<open>hasInputPort\<close>: only objects and arrays have input ports.\<close>

definition input_port :: "json \<Rightarrow> string \<Rightarrow> json option" where
  "input_port v k = (case v of JObj _ \<Rightarrow> own_field v k | JArr _ \<Rightarrow> own_field v k | _ \<Rightarrow> None)"

definition ports_of :: "string dict option \<Rightarrow> string dict" where
  "ports_of p = (case p of None \<Rightarrow> [] | Some ps \<Rightarrow> ps)"

section \<open>Inputs and structural outputs of a node\<close>

definition condition_input_ok :: "graph_node \<Rightarrow> json \<Rightarrow> bool" where
  "condition_input_ok node v =
     (case n_condition node of
        None \<Rightarrow> False
      | Some c \<Rightarrow>
          map_of (ports_of (n_inputs node)) (cc_inputPort c) = Some ''boolean''
          \<and> cc_trueBranch c \<noteq> cc_falseBranch c
          \<and> (case n_branches node of None \<Rightarrow> False | Some bs \<Rightarrow> cc_trueBranch c \<in> set bs \<and> cc_falseBranch c \<in> set bs)
          \<and> (case input_port v (cc_inputPort c) of Some (JBool _) \<Rightarrow> True | _ \<Rightarrow> False))"

fun check_inputs :: "graph_node \<Rightarrow> json \<Rightarrow> string set \<Rightarrow> string dict \<Rightarrow> node_value_error + unit" where
  "check_inputs node v omitted [] = Inr ()"
| "check_inputs node v omitted ((port, ty) # ps) =
     (if n_kind node = KJoin \<and> port \<in> omitted then check_inputs node v omitted ps
      else case input_port v port of
             None \<Rightarrow> Inl InputMissing
           | Some x \<Rightarrow> if matchesWireType x (Some ty) then check_inputs node v omitted ps else Inl InputInvalid)"

definition validateNodeInputs :: "graph_node \<Rightarrow> json \<Rightarrow> string set \<Rightarrow> node_value_error + unit" where
  "validateNodeInputs node v omitted =
     throw_if (n_kind node = KCondition \<and> \<not> condition_input_ok node v) ConditionInputInvalid
       (check_inputs node v omitted (ports_of (n_inputs node)))"

definition aggregate :: "graph_node \<Rightarrow> json \<Rightarrow> string set \<Rightarrow> json" where
  "aggregate node v omitted =
     JArr (List.map_filter (\<lambda>(port, _). if port \<in> omitted then None else input_port v port) (ports_of (n_inputs node)))"

definition output_value :: "graph_node \<Rightarrow> json \<Rightarrow> string set \<Rightarrow> string \<Rightarrow> string \<Rightarrow> json" where
  "output_value node v omitted port ty =
     (case input_port v port of
        Some x \<Rightarrow> x
      | None \<Rightarrow> if ty = ''array'' \<and> n_kind node = KJoin then aggregate node v omitted else v)"

fun collect_outputs :: "graph_node \<Rightarrow> json \<Rightarrow> string set \<Rightarrow> string dict \<Rightarrow> json dict \<Rightarrow> node_value_error + json dict" where
  "collect_outputs node v omitted [] outs = Inr outs"
| "collect_outputs node v omitted ((port, ty) # ps) outs =
     (if n_kind node = KJoin \<and> port \<in> omitted then collect_outputs node v omitted ps outs
      else if n_kind node = KJoin \<and> input_port v port = None \<and> ty \<noteq> ''array'' then Inl OutputMissing
      else let x = output_value node v omitted port ty in
           if matchesWireType x (Some ty) then collect_outputs node v omitted ps (AList.update port x outs)
           else Inl OutputInvalid)"

definition structuralOutputs :: "graph_node \<Rightarrow> json \<Rightarrow> string set \<Rightarrow> node_value_error + json dict" where
  "structuralOutputs node v omitted = collect_outputs node v omitted (ports_of (n_outputs node)) []"

section \<open>Binding the inputs\<close>

record binding =
  bi_bound :: "json dict"
  bi_omitted :: "string set"
  bi_error :: "node_value_error option"

definition note_error :: "node_value_error \<Rightarrow> binding \<Rightarrow> binding" where
  "note_error e b = b\<lparr>bi_error := (case bi_error b of None \<Rightarrow> Some e | Some x \<Rightarrow> Some x)\<rparr>"

definition bind_dep :: "compiled \<Rightarrow> graph_node \<Rightarrow> attempt list \<Rightarrow> data_dep \<Rightarrow> binding \<Rightarrow> binding" where
  "bind_dep g node as dep b =
     (let parent = find_last (\<lambda>a. a_nodeId a = dd_fromNode dep) as;
          state = map_option a_state parent;
          outputs = (case Option.bind parent a_result of None \<Rightarrow> JUndefined | Some res \<Rightarrow> jfield ''outputs'' (o_outcome res));
          invalid = (\<lambda>e. if n_kind node = KCondition then ConditionInputInvalid else e)
      in if n_kind node = KJoin \<and> state = Some ASkipped then b\<lparr>bi_omitted := insert (dd_toPort dep) (bi_omitted b)\<rparr>
         else if state \<noteq> Some ASucceeded then note_error BindingUnavailable b
         else if \<not> json_truthy outputs \<or> own_field outputs (dd_fromPort dep) = None then note_error (invalid BindingMissing) b
         else let v = the (own_field outputs (dd_fromPort dep));
                  fromType = Option.bind (map_of (cg_nodeById g) (dd_fromNode dep)) (\<lambda>m. map_of (ports_of (n_outputs m)) (dd_fromPort dep));
                  toType = map_of (ports_of (n_inputs node)) (dd_toPort dep);
                  b' = (if matchesWireType v fromType \<and> matchesWireType v toType then b else note_error (invalid BindingInvalid) b)
              in b'\<lparr>bi_bound := AList.update (dd_toPort dep) v (bi_bound b')\<rparr>)"

definition bind_inputs :: "compiled \<Rightarrow> graph_node \<Rightarrow> attempt list \<Rightarrow> json \<Rightarrow> json \<times> string set \<times> node_value_error option" where
  "bind_inputs g node as initial =
     (let deps = lookup_list (cg_dataDeps g) (n_id node);
          b = fold (bind_dep g node as) deps \<lparr>bi_bound = [], bi_omitted = {}, bi_error = None\<rparr>
      in (if deps \<noteq> [] then JObj (bi_bound b) else initial, bi_omitted b - set (map fst (bi_bound b)), bi_error b))"

section \<open>Outputs of an agent\<close>

text \<open>What an agent reports: its detail text, with the value \<open>JSON.parse\<close> gives for it, and the captured
  structured output with the text \<open>JSON.stringify\<close> gives for it, \<open>None\<close> for \<open>undefined\<close>.\<close>

record agent_output =
  ao_schema :: bool
  ao_detail :: string
  ao_detailJson :: json_text
  ao_structured :: json
  ao_structuredText :: "string option"

fun agent_outputs :: "agent_output \<Rightarrow> string dict \<Rightarrow> json dict \<Rightarrow> node_value_error + json dict" where
  "agent_outputs ev [] outs = Inr outs"
| "agent_outputs ev ((port, ty) # ps) outs =
     ebind (if ty = ''string'' then Inr (if ao_schema ev then (case ao_structuredText ev of None \<Rightarrow> JUndefined | Some s \<Rightarrow> JStr s) else JStr (ao_detail ev))
            else if ty = ''json'' then
              (if ao_schema ev then Inr (ao_structured ev)
               else case ao_detailJson ev of None \<Rightarrow> Inl OutputInvalid | Some v \<Rightarrow> Inr v)
            else Inl OutputInvalid)
       (\<lambda>v. if matchesWireType v (Some ty) then agent_outputs ev ps (AList.update port v outs) else Inl OutputInvalid)"

section \<open>Types of bound inputs and outputs\<close>

lemma check_inputs_Inr:
  "check_inputs node v omitted ps = Inr () \<longleftrightarrow>
     (\<forall>(port, ty)\<in>set ps. n_kind node = KJoin \<and> port \<in> omitted
        \<or> (\<exists>x. input_port v port = Some x \<and> matchesWireType x (Some ty)))"
  by (induction node v omitted ps rule: check_inputs.induct) (auto split: option.splits)

lemma collect_outputs_Inr:
  assumes "collect_outputs node v omitted ps outs = Inr res" and "distinct (map fst ps)"
  shows "map_of res p =
    (if p \<in> fst ` set ps \<and> \<not> (n_kind node = KJoin \<and> p \<in> omitted) then Some (output_value node v omitted p (the (map_of ps p))) else map_of outs p)
    \<and> (p \<in> fst ` set ps \<and> \<not> (n_kind node = KJoin \<and> p \<in> omitted) \<longrightarrow>
        matchesWireType (output_value node v omitted p (the (map_of ps p))) (map_of ps p))"
  using assms
proof (induction node v omitted ps outs rule: collect_outputs.induct)
  case (2 node v omitted port ty ps outs)
  let ?x = "output_value node v omitted port ty"
  have d: "distinct (map fst ps)" "port \<notin> fst ` set ps" using 2(4) by auto
  show ?case
  proof (cases "n_kind node = KJoin \<and> port \<in> omitted")
    case True
    with 2(3) d 2(1) [OF True] show ?thesis by auto
  next
    case False
    with 2(3) have k: "matchesWireType ?x (Some ty)" "\<not> (n_kind node = KJoin \<and> input_port v port = None \<and> ty \<noteq> ''array'')"
      "collect_outputs node v omitted ps (AList.update port ?x outs) = Inr res"
      by (auto simp: Let_def split: if_splits)
    from 2(2) [OF False k(2) refl k(1,3) d(1)] False d(2) k(1) show ?thesis
      by (auto simp: update_conv image_iff)
  qed
qed simp

lemma agent_outputs_Inr:
  assumes "agent_outputs ev ps outs = Inr res" and "distinct (map fst ps)"
  shows "(\<forall>(p, ty)\<in>set ps. \<exists>x. map_of res p = Some x \<and> matchesWireType x (Some ty))
    \<and> (\<forall>p. p \<notin> fst ` set ps \<longrightarrow> map_of res p = map_of outs p)"
  using assms
proof (induction ps arbitrary: outs)
  case (Cons p ps)
  obtain port ty where p: "p = (port, ty)" by (cases p)
  from Cons.prems(1) obtain v where v: "matchesWireType v (Some ty)" "agent_outputs ev ps (AList.update port v outs) = Inr res"
    by (auto simp: p ebind_Inr split: if_splits)
  from Cons.IH [OF v(2)] Cons.prems(2) v(1) show ?case by (auto simp: p update_conv)
qed simp

text \<open>Binding one dependency of a parent that succeeded with outputs of the declared types.\<close>

definition dep_typed :: "compiled \<Rightarrow> graph_node \<Rightarrow> attempt list \<Rightarrow> data_dep \<Rightarrow> bool" where
  "dep_typed g node as dep \<longleftrightarrow>
     (\<exists>a res v t. find_last (\<lambda>a. a_nodeId a = dd_fromNode dep) as = Some a \<and> a_state a = ASucceeded \<and> a_result a = Some res
        \<and> json_truthy (jfield ''outputs'' (o_outcome res))
        \<and> own_field (jfield ''outputs'' (o_outcome res)) (dd_fromPort dep) = Some v
        \<and> Option.bind (map_of (cg_nodeById g) (dd_fromNode dep)) (\<lambda>m. map_of (ports_of (n_outputs m)) (dd_fromPort dep)) = Some t
        \<and> map_of (ports_of (n_inputs node)) (dd_toPort dep) = Some t \<and> matchesWireType v (Some t))"

definition dep_skipped :: "graph_node \<Rightarrow> attempt list \<Rightarrow> data_dep \<Rightarrow> bool" where
  "dep_skipped node as dep \<longleftrightarrow> n_kind node = KJoin
     \<and> map_option a_state (find_last (\<lambda>a. a_nodeId a = dd_fromNode dep) as) = Some ASkipped"

text \<open>What holds of a binding: no error, bound values have the type of their port, and the ports bound
  or omitted are those of the dependencies seen.\<close>

definition binding_ok :: "graph_node \<Rightarrow> string set \<Rightarrow> binding \<Rightarrow> bool" where
  "binding_ok node ports b \<longleftrightarrow> bi_error b = None \<and> bi_omitted b \<union> fst ` set (bi_bound b) = ports
     \<and> (bi_omitted b \<noteq> {} \<longrightarrow> n_kind node = KJoin)
     \<and> (\<forall>p v. map_of (bi_bound b) p = Some v \<longrightarrow> matchesWireType v (map_of (ports_of (n_inputs node)) p))"

lemma bind_dep_ok:
  assumes "binding_ok node ports b" and "dep_typed g node as dep \<or> dep_skipped node as dep"
  shows "binding_ok node (insert (dd_toPort dep) ports) (bind_dep g node as dep b)"
  using assms(2)
proof
  assume "dep_skipped node as dep"
  with assms(1) show ?thesis by (auto simp: binding_ok_def dep_skipped_def bind_dep_def Let_def)
next
  assume "dep_typed g node as dep"
  then obtain v t where "bind_dep g node as dep b = b\<lparr>bi_bound := AList.update (dd_toPort dep) v (bi_bound b)\<rparr>"
    "map_of (ports_of (n_inputs node)) (dd_toPort dep) = Some t" "matchesWireType v (Some t)"
    by (auto simp: dep_typed_def bind_dep_def Let_def)
  with assms(1) show ?thesis by (auto simp: binding_ok_def update_conv dom_update)
qed

lemma bind_deps_ok:
  "binding_ok node ports b \<Longrightarrow> (\<And>dep. dep \<in> set deps \<Longrightarrow> dep_typed g node as dep \<or> dep_skipped node as dep)
    \<Longrightarrow> binding_ok node (ports \<union> dd_toPort ` set deps) (fold (bind_dep g node as) deps b)"
proof (induction deps arbitrary: ports b)
  case (Cons dep deps)
  from bind_dep_ok [OF Cons.prems(1)] Cons.prems(2) have
    "binding_ok node (insert (dd_toPort dep) ports) (bind_dep g node as dep b)" by simp
  from Cons.IH [OF this] Cons.prems(2) show ?case by simp
qed simp

lemma bind_inputs_ok:
  assumes "bind_inputs g node as initial = (v, omitted, err)" and "lookup_list (cg_dataDeps g) (n_id node) \<noteq> []"
    and "\<And>dep. dep \<in> set (lookup_list (cg_dataDeps g) (n_id node)) \<Longrightarrow> dep_typed g node as dep \<or> dep_skipped node as dep"
  shows "err = None \<and> (omitted \<noteq> {} \<longrightarrow> n_kind node = KJoin)
    \<and> (\<forall>dep\<in>set (lookup_list (cg_dataDeps g) (n_id node)). dd_toPort dep \<in> omitted
        \<or> (\<exists>x. input_port v (dd_toPort dep) = Some x \<and> matchesWireType x (map_of (ports_of (n_inputs node)) (dd_toPort dep))))"
proof -
  let ?deps = "lookup_list (cg_dataDeps g) (n_id node)"
  let ?b = "fold (bind_dep g node as) ?deps \<lparr>bi_bound = [], bi_omitted = {}, bi_error = None\<rparr>"
  have "binding_ok node {} \<lparr>bi_bound = [], bi_omitted = {}, bi_error = None\<rparr>" by (simp add: binding_ok_def)
  from bind_deps_ok [OF this assms(3)] have b: "binding_ok node (dd_toPort ` set ?deps) ?b" by simp
  from assms(1,2) have v: "v = JObj (bi_bound ?b)" "omitted = bi_omitted ?b - fst ` set (bi_bound ?b)" "err = bi_error ?b"
    by (simp_all add: bind_inputs_def Let_def)
  have "dd_toPort dep \<in> omitted
        \<or> (\<exists>x. input_port v (dd_toPort dep) = Some x \<and> matchesWireType x (map_of (ports_of (n_inputs node)) (dd_toPort dep)))"
    if "dep \<in> set ?deps" for dep
  proof (cases "map_of (bi_bound ?b) (dd_toPort dep)")
    case None
    then have "dd_toPort dep \<notin> fst ` set (bi_bound ?b)" by (simp add: map_of_eq_None_iff)
    with b that show ?thesis by (auto simp: binding_ok_def v(2))
  next
    case (Some x)
    with b show ?thesis by (simp add: binding_ok_def v(1) input_port_def)
  qed
  with b v show ?thesis by (auto simp: binding_ok_def)
qed

end
