(* ===== verification/NodeExecution.thy ===== *)
theory NodeExecution
  imports NodeValues RunHistory
begin

text \<open>
  One node job of a Run: \<open>executeRunNode\<close> of \<open>service/run-execution.ts\<close> and \<open>childOutputs\<close> of
  \<open>service/child-run-execution.ts\<close>. The job binds the inputs of the node, announces the Attempt, runs
  the node and records its result; an exception is turned into a failed result or into a settlement
  that the driver applies to the Run.

  What the Host does is a parameter: preparing the frozen resources, the native agent, the Team driver
  and the supervised child Run are functions on the store, since other writers may change it while
  they run; \<open>xe_between\<close> is what other writers do between two calls of the job itself.
\<close>

section \<open>Environment of a job\<close>

datatype node_error =
    NodeValueError node_value_error | NodeStoreError store_error | NodeWorkspaceError string
  | NodeTeamError string bool | NodeOtherError

text \<open>\<open>NodeTeamError issue verified\<close>: a rejected artifact or acceptance is verified, a driver error is not.\<close>

datatype preparation = Prepared digests bool | PrepareFailed | FrozenPackageIntegrity

record agent_evidence =
  ae_sessionId :: string
  ae_ok :: bool
  ae_kind :: string
  ae_detail :: string
  ae_detailJson :: json_text
  ae_acceptance :: diag_acceptance
  ae_structured :: "json option"
  ae_structuredText :: "string option"
  ae_denials :: "(string \<times> string) list"

record exec_env =
  xe_prepare :: preparation
  xe_closing :: bool
  xe_aborted :: "nat \<Rightarrow> bool"
  xe_tools :: "string list"
  xe_hostModel :: "model_selection option"
  xe_facts :: digests
  xe_bytes :: "json \<Rightarrow> nat"
  xe_sha :: "json \<Rightarrow> string"
  xe_suffix :: string
  xe_uuid :: string
  xe_between :: "nat \<Rightarrow> domain \<Rightarrow> domain"
  xe_cancelTeam :: "domain \<Rightarrow> domain"
  xe_child :: "domain \<Rightarrow> (node_error + run_record option) \<times> domain"
  xe_team :: "domain \<Rightarrow> (node_error + unit) \<times> domain"
  xe_agent :: "domain \<Rightarrow> (node_error + agent_evidence) \<times> domain"

section \<open>Before the intent\<close>

fun json_type_of :: "json \<Rightarrow> json_type" where
  "json_type_of (JArr _) = TArray"
| "json_type_of (JObj _) = TObject"
| "json_type_of (JStr _) = TString"
| "json_type_of (JNum _) = TNumber"
| "json_type_of (JBool _) = TBoolean"
| "json_type_of _ = TNull"

definition node_kind_name :: "node_kind \<Rightarrow> string" where
  "node_kind_name k =
     (case k of KInput \<Rightarrow> ''input'' | KOutput \<Rightarrow> ''output'' | KAgentTask \<Rightarrow> ''agentTask'' | KCondition \<Rightarrow> ''condition''
      | KJoin \<Rightarrow> ''join'' | KHumanDecision \<Rightarrow> ''humanDecision'' | KBlueprintCall \<Rightarrow> ''blueprintCall'')"

definition model_of :: "exec_env \<Rightarrow> graph_node \<Rightarrow> run_record \<Rightarrow> bool \<Rightarrow> model_selection option" where
  "model_of env node r prepared =
     (if prepared \<and> n_teamStage node = None then
        (case n_modelSelection node of
           Some m \<Rightarrow> Some m
         | None \<Rightarrow>
             (case Option.bind (r_bindingSelections r) (\<lambda>s. map_of s (n_id node)) of
                Some sel \<Rightarrow> sel
              | None \<Rightarrow> xe_hostModel env))
      else None)"

definition binding_key :: "graph_node \<Rightarrow> string" where
  "binding_key node = ''node:'' @ n_id node @ '':binding''"

definition drifted :: "graph_node \<Rightarrow> run_record \<Rightarrow> digests option \<Rightarrow> bool" where
  "drifted node r facts =
     (case (facts, r_bindingDigests r) of
        (Some fs, Some ds) \<Rightarrow> map_of ds (binding_key node) = None \<or> map_of ds (binding_key node) \<noteq> map_of fs (binding_key node)
      | _ \<Rightarrow> False)"

text \<open>The prepared digests, whether an output schema is frozen, and the binding error after preparation;
  \<open>None\<close> where preparation throws.\<close>

definition prepare_node ::
  "exec_env \<Rightarrow> graph_node \<Rightarrow> node_value_error option \<Rightarrow> ((digests \<times> bool) option \<times> node_value_error option) option" where
  "prepare_node env node err =
     (if n_kind node = KAgentTask \<and> err = None then
        (case xe_prepare env of
           Prepared ds schema \<Rightarrow> Some (Some (ds, schema), None)
         | PrepareFailed \<Rightarrow> Some (None, Some BindingDrift)
         | FrozenPackageIntegrity \<Rightarrow> None)
      else Some (None, err))"

definition facts_of :: "exec_env \<Rightarrow> graph_node \<Rightarrow> (digests \<times> bool) option \<Rightarrow> digests option" where
  "facts_of env node prep = (if prep = None \<or> n_kind node \<noteq> KAgentTask then None else Some (xe_facts env))"

definition node_diagnostics ::
  "exec_env \<Rightarrow> graph_node \<Rightarrow> run_record \<Rightarrow> json \<Rightarrow> (digests \<times> bool) option \<Rightarrow> node_value_error option \<Rightarrow> diagnostics option" where
  "node_diagnostics env node r v prep err =
     (if err \<noteq> None then None
      else Some \<lparr>dg_input = \<lparr>di_type = json_type_of v, di_bytes = xe_bytes env v, di_sha256 = xe_sha env v\<rparr>,
             dg_resourceDigests = (case prep of None \<Rightarrow> [] | Some (ds, _) \<Rightarrow> ds),
             dg_modelSelection = model_of env node r (prep \<noteq> None),
             dg_tools = \<lparr>dt_effectiveNames = (if prep = None then [] else xe_tools env), dt_denials = None\<rparr>,
             dg_acceptance = \<lparr>da_code = ''pending'', da_issueCount = None\<rparr>, dg_recovery = None\<rparr>)"

definition node_intent ::
  "exec_env \<Rightarrow> graph_node \<Rightarrow> string \<Rightarrow> (digests \<times> bool) option \<Rightarrow> digests option \<Rightarrow> diagnostics option \<Rightarrow> intent_request" where
  "node_intent env node runId prep facts dg =
     \<lparr>q_nodeId = n_id node, q_kind = node_kind_name (n_kind node),
      q_resourceDigests = Some (case prep of Some (ds, _) \<Rightarrow> ds | None \<Rightarrow> (case dg of Some g \<Rightarrow> dg_resourceDigests g | None \<Rightarrow> [])),
      q_bindingDigests = facts,
      q_diagnostics = Some (case dg of None \<Rightarrow> DUnavailable | Some g \<Rightarrow> DAvailable g),
      q_sessionId = None,
      q_sessionIdForAttempt = (if n_kind node = KAgentTask \<and> n_teamStage node = None
         then Some (\<lambda>aid. ''bp-'' @ runId @ ''-'' @ aid @ ''-'' @ xe_suffix env) else None)\<rparr>"

section \<open>Results\<close>

definition settledDiagnostics :: "diagnostics option \<Rightarrow> string \<Rightarrow> attempt_diagnostics option" where
  "settledDiagnostics dg code = map_option (\<lambda>g. DAvailable (g\<lparr>dg_acceptance := \<lparr>da_code = code, da_issueCount = None\<rparr>\<rparr>)) dg"

definition request :: "bool \<Rightarrow> json dict \<Rightarrow> string \<Rightarrow> attempt_diagnostics option \<Rightarrow> result_request" where
  "request ok outcome evidence dg = \<lparr>p_ok = ok, p_outcome = JObj outcome, p_evidence = evidence, p_diagnostics = dg\<rparr>"

definition settle_with ::
  "string \<Rightarrow> string \<Rightarrow> result_request \<Rightarrow> (nat \<Rightarrow> int) \<Rightarrow> domain \<Rightarrow> (node_error + node_settlement option) \<times> domain" where
  "settle_with runId aid q clk d =
     (case recordResult runId aid q clk d of
        (Inl e, d') \<Rightarrow> (Inl (NodeStoreError e), d')
      | (Inr _, d') \<Rightarrow> (Inr None, d'))"

definition settle_value ::
  "string \<Rightarrow> string \<Rightarrow> node_value_error + result_request \<Rightarrow> (nat \<Rightarrow> int) \<Rightarrow> domain
     \<Rightarrow> (node_error + node_settlement option) \<times> domain" where
  "settle_value runId aid q clk d =
     (case q of Inl e \<Rightarrow> (Inl (NodeValueError e), d) | Inr q' \<Rightarrow> settle_with runId aid q' clk d)"

definition state_name :: "run_state \<Rightarrow> string" where
  "state_name s =
     (case s of Queued \<Rightarrow> ''queued'' | Running \<Rightarrow> ''running'' | WaitingInput \<Rightarrow> ''waiting_input'' | Cancelling \<Rightarrow> ''cancelling''
      | RecoveryRequired \<Rightarrow> ''recovery_required'' | Succeeded \<Rightarrow> ''succeeded'' | Failed \<Rightarrow> ''failed'' | Cancelled \<Rightarrow> ''cancelled''
      | TimedOut \<Rightarrow> ''timed_out'')"

definition needs_recovery :: "json dict \<Rightarrow> node_settlement" where
  "needs_recovery detail = \<lparr>ns_terminal = ToRecoveryRequired, ns_detail = detail\<rparr>"

section \<open>Child Runs\<close>

fun child_ports ::
  "graph_node \<Rightarrow> bool \<Rightarrow> json \<Rightarrow> string dict \<Rightarrow> json dict \<Rightarrow> node_value_error + json dict" where
  "child_ports node succeeded v [] outs = Inr outs"
| "child_ports node succeeded v ((port, ty) # ps) outs =
     (case input_port v port of
        None \<Rightarrow> Inl OutputMissing
      | Some x \<Rightarrow>
          if \<not> succeeded then Inl OutputMissing
          else if map_of outs port \<noteq> None \<or> map_of (ports_of (n_outputs node)) port \<noteq> Some ty \<or> \<not> matchesWireType x (Some ty)
          then Inl OutputInvalid
          else child_ports node succeeded v ps (AList.update port x outs))"

fun child_nodes :: "run_record \<Rightarrow> graph_node \<Rightarrow> graph_node list \<Rightarrow> json dict \<Rightarrow> node_value_error + json dict" where
  "child_nodes r node [] outs = Inr outs"
| "child_nodes r node (n # ns) outs =
     (let a = find_last (\<lambda>a. a_nodeId a = n_id n) (r_attempts r);
          v = (case Option.bind a a_result of None \<Rightarrow> JUndefined | Some res \<Rightarrow> jfield ''value'' (o_outcome res))
      in ebind (child_ports node (map_option a_state a = Some ASucceeded) v (ports_of (n_inputs n)) outs) (child_nodes r node ns))"

definition childOutputs :: "run_record \<Rightarrow> graph_node \<Rightarrow> node_error + json dict" where
  "childOutputs r node =
     (case decodeDefinition (r_definitionJson r) of
        Inl _ \<Rightarrow> Inl NodeOtherError
      | Inr d \<Rightarrow>
          (case child_nodes r node (filter (\<lambda>n. n_kind n = KOutput) (bd_nodes d)) [] of
             Inl e \<Rightarrow> Inl (NodeValueError e)
           | Inr outs \<Rightarrow> throw_if (length outs \<noteq> length (ports_of (n_outputs node))) (NodeValueError OutputMissing) (Inr outs)))"

definition settle_child ::
  "run_record \<Rightarrow> graph_node \<Rightarrow> string \<Rightarrow> string \<Rightarrow> diagnostics option \<Rightarrow> (nat \<Rightarrow> int) \<Rightarrow> domain
     \<Rightarrow> (node_error + node_settlement option) \<times> domain" where
  "settle_child c node runId aid dg clk d =
     (let kind = (if r_state c = TimedOut then ''timeout'' else state_name (r_state c)) in
      case (if r_state c = Succeeded then childOutputs c node else Inr []) of
        Inl e \<Rightarrow> (Inl e, d)
      | Inr outs \<Rightarrow>
          settle_with runId aid
            (request (r_state c = Succeeded)
               [(''kind'', JStr kind), (''outputs'', JObj outs), (''childRunId'', JStr (r_runId c))]
               (''child-'' @ state_name (r_state c)) (settledDiagnostics dg kind)) clk d)"

section \<open>Agents\<close>

text \<open>A node with an output schema is accepted only with a captured structured output.\<close>

definition agent_outcome :: "bool \<Rightarrow> agent_evidence \<Rightarrow> bool \<times> string \<times> string \<times> diag_acceptance" where
  "agent_outcome schema ev =
     (if schema \<and> ae_ok ev \<and> (da_code (ae_acceptance ev) \<noteq> ''accepted'' \<or> ae_structured ev = None)
      then let kind = (if da_code (ae_acceptance ev) = ''output-invalid'' then ''output-invalid'' else ''structured-output-missing'')
           in (False, kind, kind, \<lparr>da_code = kind, da_issueCount = da_issueCount (ae_acceptance ev)\<rparr>)
      else (ae_ok ev, ae_kind ev, ae_detail ev, ae_acceptance ev))"

definition agent_diagnostics :: "exec_env \<Rightarrow> bool \<Rightarrow> agent_evidence \<Rightarrow> diagnostics \<Rightarrow> diagnostics" where
  "agent_diagnostics env schema ev g =
     g\<lparr>dg_acceptance := snd (snd (snd (agent_outcome schema ev))),
       dg_tools := \<lparr>dt_effectiveNames = xe_tools env, dt_denials = Some (ae_denials ev)\<rparr>\<rparr>"

definition agent_result :: "exec_env \<Rightarrow> graph_node \<Rightarrow> bool \<Rightarrow> agent_evidence \<Rightarrow> diagnostics \<Rightarrow> node_value_error + result_request" where
  "agent_result env node schema ev g =
     (case agent_outcome schema ev of
        (ok, kind, detail, _) \<Rightarrow>
          ebind (if ok then agent_outputs \<lparr>ao_schema = schema, ao_detail = detail, ao_detailJson = ae_detailJson ev,
                       ao_structured = (case ae_structured ev of None \<Rightarrow> JUndefined | Some v \<Rightarrow> v),
                       ao_structuredText = ae_structuredText ev\<rparr> (ports_of (n_outputs node)) []
                 else Inr [])
            (\<lambda>outs. Inr (request ok [(''ok'', JBool ok), (''kind'', JStr kind), (''detail'', JStr detail), (''outputs'', JObj outs)]
                     (if ok then ''agent-succeeded'' else ''agent-'' @ kind)
                     (Some (DAvailable (agent_diagnostics env schema ev g))))))"

section \<open>Structural nodes\<close>

definition condition_result :: "graph_node \<Rightarrow> json \<Rightarrow> string set \<Rightarrow> diagnostics option \<Rightarrow> node_value_error + result_request" where
  "condition_result node v omitted dg =
     (case n_condition node of
        None \<Rightarrow> Inl ConditionInputInvalid
      | Some c \<Rightarrow>
          (let predicate = (input_port v (cc_inputPort c) = Some (JBool True));
               branch = (if predicate then cc_trueBranch c else cc_falseBranch c)
           in ebind (structuralOutputs node v omitted) (\<lambda>outs.
                Inr (request True [(''branch'', JStr branch), (''outputs'', JObj outs), (''value'', JBool predicate)]
                       ''condition-boolean'' (settledDiagnostics dg ''not-required'')))))"

definition structural_result :: "graph_node \<Rightarrow> json \<Rightarrow> string set \<Rightarrow> diagnostics option \<Rightarrow> node_value_error + result_request" where
  "structural_result node v omitted dg =
     ebind (structuralOutputs node v omitted) (\<lambda>outs.
       Inr (request True [(''outputs'', JObj outs), (''value'', v)] ''structural-node'' (settledDiagnostics dg ''not-required'')))"

section \<open>Running a node\<close>

definition run_human ::
  "exec_env \<Rightarrow> string \<Rightarrow> string \<Rightarrow> diagnostics option \<Rightarrow> (nat \<Rightarrow> nat \<Rightarrow> int) \<Rightarrow> domain
     \<Rightarrow> (node_error + node_settlement option) \<times> domain" where
  "run_human env runId aid dg clk d =
     (case transition runId (clk 3 0) (wait_reducer aid) d of
        (Inl e, d1) \<Rightarrow> (Inl (NodeStoreError e), d1)
      | (Inr _, d1) \<Rightarrow>
          (let d2 = xe_between env 2 d1 in
           case get_run runId d2 of
             Inl e \<Rightarrow> (Inl (NodeStoreError e), d2)
           | Inr r \<Rightarrow>
               if r_state r = Cancelling
               then settle_with runId aid (request False [(''kind'', JStr ''cancelled'')] ''cancel-before-wait''
                      (settledDiagnostics dg ''cancelled'')) (clk 4) d2
               else (Inr None, d2)))"

definition run_agent ::
  "exec_env \<Rightarrow> graph_node \<Rightarrow> string \<Rightarrow> string \<Rightarrow> bool \<Rightarrow> diagnostics \<Rightarrow> (nat \<Rightarrow> nat \<Rightarrow> int) \<Rightarrow> domain
     \<Rightarrow> ((node_error + node_settlement option) \<times> diagnostics option) \<times> domain" where
  "run_agent env node runId aid schema g clk d =
     (case xe_agent env d of
        (Inl e, d1) \<Rightarrow> ((Inl e, Some g), d1)
      | (Inr ev, d1) \<Rightarrow>
          if ae_kind ev = ''recovery_required''
          then ((Inr (Some (needs_recovery [(''reason'', JStr ''agent-effect-unknown''), (''sessionId'', JStr (ae_sessionId ev))])), Some g), d1)
          else (case settle_value runId aid (agent_result env node schema ev g) (clk 3) d1 of
                  (res, d2) \<Rightarrow> ((res, Some (agent_diagnostics env schema ev g)), d2)))"

definition run_node ::
  "exec_env \<Rightarrow> graph_node \<Rightarrow> string \<Rightarrow> string \<Rightarrow> json \<Rightarrow> string set \<Rightarrow> (digests \<times> bool) option \<Rightarrow> diagnostics option
     \<Rightarrow> (nat \<Rightarrow> nat \<Rightarrow> int) \<Rightarrow> domain \<Rightarrow> ((node_error + node_settlement option) \<times> diagnostics option) \<times> domain" where
  "run_node env node runId aid v omitted prep dg clk d =
     (case n_kind node of
        KBlueprintCall \<Rightarrow>
          (case xe_child env d of
             (Inl e, d1) \<Rightarrow> ((Inl e, dg), d1)
           | (Inr None, d1) \<Rightarrow> ((Inr (Some (needs_recovery [(''reason'', JStr ''child-effect-unknown'')])), dg), d1)
           | (Inr (Some c), d1) \<Rightarrow>
               if r_state c = RecoveryRequired
               then ((Inr (Some (needs_recovery [(''reason'', JStr ''child-effect-unknown'')])), dg), d1)
               else map_prod (\<lambda>res. (res, dg)) id (settle_child c node runId aid dg (clk 3) d1))
      | KCondition \<Rightarrow> map_prod (\<lambda>res. (res, dg)) id (settle_value runId aid (condition_result node v omitted dg) (clk 3) d)
      | KHumanDecision \<Rightarrow> map_prod (\<lambda>res. (res, dg)) id (run_human env runId aid dg clk d)
      | KAgentTask \<Rightarrow>
          (case (prep, dg) of
             (Some (_, schema), Some g) \<Rightarrow>
               if n_teamStage node \<noteq> None
               then (case xe_team env d of
                       (Inl e, d1) \<Rightarrow> ((Inl e, dg), d1)
                     | (Inr _, d1) \<Rightarrow>
                         (case get_run runId d1 of
                            Inl e \<Rightarrow> ((Inl (NodeStoreError e), dg), d1)
                          | Inr _ \<Rightarrow> ((Inr None, dg), d1)))
               else run_agent env node runId aid schema g clk d
           | _ \<Rightarrow> ((Inl NodeOtherError, dg), d))
      | _ \<Rightarrow> map_prod (\<lambda>res. (res, dg)) id (settle_value runId aid (structural_result node v omitted dg) (clk 3) d))"

section \<open>The job\<close>

datatype job_outcome = JobDone "node_settlement option" | JobFailed node_error

definition attempt_broken :: "attempt \<Rightarrow> bool" where
  "attempt_broken a \<longleftrightarrow> a_state a \<in> {AFailed, ATimedOut, ACancelled}"

text \<open>After the intent: cancellation may have been committed in between; then the binding error, the
  input check and the node itself. The last flag says whether the job's signal was aborted here.\<close>

definition after_intent ::
  "exec_env \<Rightarrow> graph_node \<Rightarrow> string \<Rightarrow> string \<Rightarrow> json \<Rightarrow> string set \<Rightarrow> (digests \<times> bool) option \<Rightarrow> diagnostics option
     \<Rightarrow> node_value_error option \<Rightarrow> (nat \<Rightarrow> nat \<Rightarrow> int) \<Rightarrow> domain
     \<Rightarrow> ((node_error + node_settlement option) \<times> diagnostics option) \<times> bool \<times> domain" where
  "after_intent env node runId aid v omitted prep dg err clk d =
     (let d1 = xe_between env 1 d in
      case get_run runId d1 of
        Inl e \<Rightarrow> ((Inl (NodeStoreError e), dg), False, d1)
      | Inr cur \<Rightarrow>
          if xe_aborted env 1 \<or> r_state cur = Cancelling \<or> list_ex attempt_broken (r_attempts cur)
          then (case settle_with runId aid (request False [(''kind'', JStr ''cancelled'')] ''cancel-before-dispatch''
                       (settledDiagnostics dg ''cancelled'')) (clk 2) d1 of
                  (res, d2) \<Rightarrow> ((res, dg), True, d2))
          else case err of
                 Some e \<Rightarrow> ((Inl (NodeValueError e), dg), False, d1)
               | None \<Rightarrow>
                   (case validateNodeInputs node v omitted of
                      Inl e \<Rightarrow> ((Inl (NodeValueError e), dg), False, d1)
                    | Inr _ \<Rightarrow> (case run_node env node runId aid v omitted prep dg clk d1 of (res, d2) \<Rightarrow> (res, False, d2))))"

definition known_issues :: "string list" where
  "known_issues = [''teamstage-tool-not-permitted'', ''teamstage-tool-rejected'', ''teamstage-provider-failed'',
     ''teamstage-output-invalid'', ''teamstage-structured-output-missing'', ''teamstage-task-not-completed'']"

definition job_settled :: "string \<Rightarrow> string \<Rightarrow> result_request \<Rightarrow> (nat \<Rightarrow> int) \<Rightarrow> domain \<Rightarrow> job_outcome \<times> domain" where
  "job_settled runId aid q clk d =
     (case settle_with runId aid q clk d of (Inl e, d') \<Rightarrow> (JobFailed e, d') | (Inr s, d') \<Rightarrow> (JobDone s, d'))"

definition catch_team ::
  "exec_env \<Rightarrow> string \<Rightarrow> string \<Rightarrow> diagnostics option \<Rightarrow> bool \<Rightarrow> node_error \<Rightarrow> run_record \<Rightarrow> (nat \<Rightarrow> nat \<Rightarrow> int) \<Rightarrow> domain
     \<Rightarrow> job_outcome \<times> domain" where
  "catch_team env runId aid dg aborted err cur clk d =
     (if r_state cur = Cancelling \<and> Option.bind (r_teamStage cur) ts_cancel \<noteq> None \<and> aborted
      then (JobDone None, xe_cancelTeam env d)
      else
        let verified = (case err of NodeTeamError _ b \<Rightarrow> b | _ \<Rightarrow> False);
            issue = (case err of NodeTeamError i _ \<Rightarrow> i | _ \<Rightarrow> ''teamstage-effect-unknown'');
            unknown = (\<not> (issue \<in> set known_issues) \<and> \<not> verified)
              \<or> (case Option.bind (r_teamStage cur) ts_effects of None \<Rightarrow> False
                 | Some es \<Rightarrow> list_ex (\<lambda>e. e_state e \<in> {EPending, ERecoveryRequired}) es)
              \<or> r_state cur = Cancelling \<or> aborted;
            upd = (case r_teamStage cur of
                     None \<Rightarrow> (Inr (), d)
                   | Some s \<Rightarrow>
                       if ts_state s = SRecoveryRequired then (Inr (), d)
                       else (case updateTeamStage runId
                                \<lparr>su_state = Some (if unknown then SRecoveryRequired else SFailed), su_members = None, su_cancel = None,
                                 su_recovery = (if unknown then Some \<lparr>tr_code = issue, tr_detail = None\<rparr> else None)\<rparr> (clk 5) d of
                               (Inl e, d') \<Rightarrow> (Inl e, d') | (Inr _, d') \<Rightarrow> (Inr (), d')))
        in case upd of
             (Inl e, d1) \<Rightarrow> (JobFailed (NodeStoreError e), d1)
           | (Inr _, d1) \<Rightarrow>
               if unknown then (JobDone (Some (needs_recovery [(''reason'', JStr issue)])), d1)
               else job_settled runId aid (request False [(''kind'', JStr issue)] issue (settledDiagnostics dg issue)) (clk 6) d1)"

definition failure_kind :: "node_error \<Rightarrow> bool \<Rightarrow> string" where
  "failure_kind err aborted =
     (case err of NodeValueError e \<Rightarrow> error_kind e | NodeWorkspaceError c \<Rightarrow> c
      | _ \<Rightarrow> if aborted then ''cancelled'' else ''failed'')"

definition catch_node ::
  "exec_env \<Rightarrow> graph_node \<Rightarrow> string \<Rightarrow> string option \<Rightarrow> diagnostics option \<Rightarrow> bool \<Rightarrow> node_error \<Rightarrow> (nat \<Rightarrow> nat \<Rightarrow> int) \<Rightarrow> domain
     \<Rightarrow> job_outcome \<times> domain" where
  "catch_node env node runId intent dg aborted err clk d =
     (case get_run runId d of
        Inl e \<Rightarrow> (JobFailed (NodeStoreError e), d)
      | Inr cur \<Rightarrow>
          if isTerminal (r_state cur) then (JobDone None, d)
          else if (case err of NodeStoreError (DurabilityFailureError _) \<Rightarrow> True | _ \<Rightarrow> False) then (JobFailed err, d)
          else case intent of
                 Some aid \<Rightarrow>
                   if n_teamStage node \<noteq> None then catch_team env runId aid dg aborted err cur clk d
                   else if err = NodeWorkspaceError ''workspace-recovery-required''
                   then (JobDone (Some (needs_recovery [(''reason'', JStr ''workspace-recovery-required'')])), d)
                   else let kind = failure_kind err aborted in
                     job_settled runId aid
                       (request False [(''kind'', JStr kind),
                          (''detail'', JStr (case err of NodeValueError _ \<Rightarrow> kind | NodeWorkspaceError _ \<Rightarrow> kind
                                            | _ \<Rightarrow> ''node resources, binding or output rejected''))]
                          ''node-failed'' (settledDiagnostics dg kind)) (clk 6) d
               | None \<Rightarrow>
                   if err = NodeWorkspaceError ''workspace-recovery-required''
                   then (JobDone (Some (needs_recovery [(''reason'', JStr ''workspace-recovery-required'')])), d)
                   else if r_state cur = Cancelling \<or> list_ex attempt_broken (r_attempts cur) then (JobDone None, d)
                   else (JobDone (Some \<lparr>ns_terminal = ToFailed, ns_detail = [(''reason'', JStr ''prepare-failed'')]\<rparr>), d))"

definition announce_node ::
  "exec_env \<Rightarrow> graph_node \<Rightarrow> run_record \<Rightarrow> json \<Rightarrow> string set \<Rightarrow> (digests \<times> bool) option \<Rightarrow> node_value_error option
     \<Rightarrow> (nat \<Rightarrow> nat \<Rightarrow> int) \<Rightarrow> domain \<Rightarrow> job_outcome \<times> domain" where
  "announce_node env node r v omitted prep err0 clk d =
     (let runId = r_runId r; facts = facts_of env node prep;
          err = (if err0 = None \<and> drifted node r facts then Some BindingDrift else err0);
          dg = node_diagnostics env node r v prep err
      in case recordIntent runId (node_intent env node runId prep facts dg) (xe_uuid env) (clk 1) d of
           (Inl e, d1) \<Rightarrow> catch_node env node runId None dg (xe_aborted env 2) (NodeStoreError e) clk d1
         | (Inr (aid, _), d1) \<Rightarrow>
             (case after_intent env node runId aid v omitted prep dg err clk d1 of
                ((Inl e, dg'), aborted, d2) \<Rightarrow> catch_node env node runId (Some aid) dg' (aborted \<or> xe_aborted env 2) e clk d2
              | ((Inr s, _), _, d2) \<Rightarrow> (JobDone s, d2)))"

definition executeRunNode ::
  "exec_env \<Rightarrow> blueprint_definition \<Rightarrow> run_record \<Rightarrow> graph_node \<Rightarrow> (nat \<Rightarrow> nat \<Rightarrow> int) \<Rightarrow> domain \<Rightarrow> job_outcome \<times> domain" where
  "executeRunNode env def r node clk d =
     (case r_inputRef r of
        None \<Rightarrow> catch_node env node (r_runId r) None None (xe_aborted env 2) NodeOtherError clk d
      | Some initial \<Rightarrow>
          (case bind_inputs (compileGraph def) node (r_attempts r) initial of
             (v, omitted, err0) \<Rightarrow>
               (case prepare_node env node err0 of
                  None \<Rightarrow> catch_node env node (r_runId r) None None (xe_aborted env 2) NodeOtherError clk d
                | Some (prep, err) \<Rightarrow>
                    if xe_closing env then
                      (case requestCancel (r_runId r) None (clk 0) d of
                         (Inl e, d1) \<Rightarrow> catch_node env node (r_runId r) None None (xe_aborted env 2) (NodeStoreError e) clk d1
                       | (Inr q, d1) \<Rightarrow> (JobDone None, if r_teamStage q \<noteq> None then xe_cancelTeam env d1 else d1))
                    else if xe_aborted env 0 then (JobDone None, d)
                    else announce_node env node r v omitted prep err clk d)))"

end
