(* ===== verification/NodeProperties.thy ===== *)
theory NodeProperties
  imports NodeExecution DriverProperties OperationProperties
begin

text \<open>
  Properties of node jobs: the data flow of an accepted definition is well typed, a refused node has
  no effect, and a finished job leaves no open Attempt behind.
\<close>

section \<open>Typed data flow\<close>





lemma compileGraph_nodes [simp]: "cg_nodeById (compileGraph d) = node_map (bd_nodes d)"
  by (simp add: compileGraph_def split: prod.splits)








text \<open>Recorded outputs are well typed. When a structural node, a condition or an agent produces a
  successful result, every declared output port carries a value of its wire type; only a join may leave
  out the ports of its skipped parents.\<close>

lemma node_outputs_typed:
  assumes "structural_result node v omitted dg = Inr q \<or> condition_result node v omitted dg = Inr q
      \<or> (agent_result env node schema ev g = Inr q \<and> p_ok q)"
    and "distinct (map fst (ports_of (n_outputs node)))" and "(p, t) \<in> set (ports_of (n_outputs node))"
  shows "n_kind node = KJoin \<and> p \<in> omitted
     \<or> (\<exists>x. own_field (jfield ''outputs'' (p_outcome q)) p = Some x \<and> matchesWireType x (Some t))"
proof -
  have pt: "map_of (ports_of (n_outputs node)) p = Some t" "p \<in> fst ` set (ports_of (n_outputs node))"
    using assms(2,3) by force+
  have struct: "n_kind node = KJoin \<and> p \<in> omitted \<or> (\<exists>x. map_of outs p = Some x \<and> matchesWireType x (Some t))"
    if "structuralOutputs node v omitted = Inr outs" for outs
    using collect_outputs_Inr [OF that [unfolded structuralOutputs_def] assms(2), of p] pt by auto
  from assms(1) show ?thesis
  proof (elim disjE)
    assume "structural_result node v omitted dg = Inr q"
    then obtain outs where "structuralOutputs node v omitted = Inr outs" "p_outcome q = JObj [(''outputs'', JObj outs), (''value'', v)]"
      by (auto simp: structural_result_def request_def ebind_Inr)
    with struct show ?thesis by force
  next
    assume "condition_result node v omitted dg = Inr q"
    then obtain outs b x where "structuralOutputs node v omitted = Inr outs"
      "p_outcome q = JObj [(''branch'', b), (''outputs'', JObj outs), (''value'', x)]"
      by (auto simp: condition_result_def request_def ebind_Inr Let_def split: option.splits)
    with struct show ?thesis by force
  next
    assume q: "agent_result env node schema ev g = Inr q \<and> p_ok q"
    then obtain out outs x y z where "agent_outputs out (ports_of (n_outputs node)) [] = Inr outs"
      "p_outcome q = JObj [(''ok'', x), (''kind'', y), (''detail'', z), (''outputs'', JObj outs)]"
      by (auto simp: agent_result_def request_def ebind_Inr split: prod.splits if_splits)
    with agent_outputs_Inr [OF this(1) assms(2)] assms(3) show ?thesis by auto
  qed
qed

section \<open>Node jobs\<close>

lemma recordIntent_refused:
  assumes "stored d rid = Some v"
    and "r_state v \<notin> {Queued, Running} \<or> (\<exists>a\<in>set (r_attempts v). a_nodeId a = q_nodeId q \<or> attempt_broken a)"
  shows "\<exists>e d'. recordIntent rid q uuid clk d = (Inl e, d')"
proof (cases "recordIntent rid q uuid clk d")
  case (Pair res d')
  show ?thesis
  proof (cases res)
    case (Inr x)
    obtain aid n i where "x = (aid, n, i)" by (cases x)
    with Pair Inr have "recordIntent rid q uuid clk d = (Inr (aid, n, i), d')" by simp
    then show ?thesis
    proof (rule recordIntent_facts)
      fix w
      assume "get_run rid d = Inr w" "r_state w \<in> {Queued, Running}"
        "\<forall>x\<in>set (r_attempts w). a_state x \<notin> {AFailed, ATimedOut, ACancelled} \<and> a_nodeId x \<noteq> q_nodeId q"
      with assms show ?thesis by (auto simp: attempt_broken_def dest: get_run_stored)
    qed
  qed (use Pair in simp)
qed

lemmas job_parts = prepare_node_def facts_of_def node_diagnostics_def node_intent_def model_of_def

text \<open>A refused node has no effect. A node job on a Run that is not queued or running, that already has
  an Attempt of the node or an Attempt that failed, timed out or was cancelled, gives the same outcome
  and the same store whatever the agent, the Team driver and the child Run would do: none is called.\<close>

lemma executeRunNode_refused:
  assumes "stored dm (r_runId r) = Some v"
    and "r_state v \<notin> {Queued, Running} \<or> (\<exists>a\<in>set (r_attempts v). a_nodeId a = n_id node \<or> attempt_broken a)"
  shows "executeRunNode (env\<lparr>xe_agent := agent, xe_team := team, xe_child := child\<rparr>) def r node clk dm
    = executeRunNode env def r node clk dm"
proof -
  have refused: "\<exists>e d'. recordIntent (r_runId r) (node_intent env node (r_runId r) prep facts dg) uuid c dm = (Inl e, d')"
    for prep facts dg uuid c
    using assms by (intro recordIntent_refused) (simp_all add: node_intent_def)
  have parts: "prepare_node (env\<lparr>xe_agent := agent, xe_team := team, xe_child := child\<rparr>) = prepare_node env"
    "facts_of (env\<lparr>xe_agent := agent, xe_team := team, xe_child := child\<rparr>) = facts_of env"
    "node_diagnostics (env\<lparr>xe_agent := agent, xe_team := team, xe_child := child\<rparr>) = node_diagnostics env"
    "node_intent (env\<lparr>xe_agent := agent, xe_team := team, xe_child := child\<rparr>) = node_intent env"
    "catch_node (env\<lparr>xe_agent := agent, xe_team := team, xe_child := child\<rparr>) node rid None = catch_node env node rid None" for rid
    by (auto simp: job_parts catch_node_def fun_eq_iff split: sum.splits option.splits)
  have "announce_node (env\<lparr>xe_agent := agent, xe_team := team, xe_child := child\<rparr>) node r v omitted prep err clk dm
      = announce_node env node r v omitted prep err clk dm" for v omitted prep err
    using refused [of prep "facts_of env node prep"
        "node_diagnostics env node r v prep (if err = None \<and> drifted node r (facts_of env node prep) then Some BindingDrift else err)"
        "xe_uuid env" "clk 1"]
    by (auto simp: announce_node_def parts Let_def)
  then show ?thesis
    by (auto simp: executeRunNode_def parts split: option.splits prod.splits sum.splits)
qed

definition quiet_env :: exec_env where
  "quiet_env = \<lparr>xe_prepare = PrepareFailed, xe_closing = False, xe_aborted = (\<lambda>_. False), xe_tools = [], xe_hostModel = None,
     xe_facts = [], xe_bytes = (\<lambda>_. 2), xe_sha = (\<lambda>_. replicate 64 (CHR ''a'')), xe_suffix = ''x'', xe_uuid = ''9'',
     xe_between = (\<lambda>_ d. d), xe_cancelTeam = (\<lambda>d. d), xe_child = (\<lambda>d. (Inr None, d)), xe_team = (\<lambda>d. (Inr (), d)),
     xe_agent = (\<lambda>d. (Inl NodeOtherError, d))\<rparr>"

lemma settle_with_done:
  assumes "settle_with rid aid q clk d = (Inr s, d')"
  shows "s = None \<and> (\<exists>w b. stored d' rid = Some w \<and> List.find (\<lambda>x. a_attemptId x = aid) (r_attempts w) = Some b \<and> a_result b \<noteq> None)"
proof -
  from assms obtain r where "recordResult rid aid q clk d = (Inr r, d')" and s: "s = None"
    by (auto simp: settle_with_def split: prod.splits sum.splits)
  from this(1) show ?thesis by (rule recordResult_facts) (auto simp: s dest: get_run_stored)
qed

lemma settle_value_done:
  assumes "settle_value rid aid q clk d = (Inr s, d')"
  shows "s = None \<and> (\<exists>w b. stored d' rid = Some w \<and> List.find (\<lambda>x. a_attemptId x = aid) (r_attempts w) = Some b \<and> a_result b \<noteq> None)"
  using assms by (auto simp: settle_value_def dest!: settle_with_done split: sum.splits)

definition attempt_recorded :: "string \<Rightarrow> string \<Rightarrow> domain \<Rightarrow> bool" where
  "attempt_recorded rid aid d \<longleftrightarrow>
     (\<exists>w b. stored d rid = Some w \<and> List.find (\<lambda>x. a_attemptId x = aid) (r_attempts w) = Some b \<and> a_result b \<noteq> None)"

lemma settle_recorded:
  "settle_with rid aid q clk d = (Inr s, d') \<Longrightarrow> attempt_recorded rid aid d'"
  "settle_value rid aid q' clk d = (Inr s, d') \<Longrightarrow> attempt_recorded rid aid d'"
  using settle_with_done settle_value_done unfolding attempt_recorded_def by blast+

lemma map_prod_pair [simp]: "map_prod (\<lambda>res. (res, g)) id x = ((a, b), c) \<longleftrightarrow> x = (a, c) \<and> b = g"
  by (cases x) auto

lemma run_node_recorded:
  assumes "run_node env node rid aid v omitted prep dg clk d = ((Inr None, dg'), d')"
    and "n_kind node \<noteq> KHumanDecision" and "n_teamStage node = None"
  shows "attempt_recorded rid aid d'"
  using assms
  by (cases "n_kind node")
    (auto simp: run_node_def run_agent_def settle_child_def needs_recovery_def Let_def
      intro: settle_recorded split: prod.splits sum.splits option.splits if_splits)

lemma job_settled_recorded: "job_settled rid aid q clk d = (JobDone s, d') \<Longrightarrow> attempt_recorded rid aid d'"
  by (auto simp: job_settled_def intro: settle_recorded split: prod.splits sum.splits)

lemma catch_node_recorded:
  assumes "catch_node env node rid intent dg ab err clk d = (JobDone None, d')" and "n_teamStage node = None"
  shows "(\<exists>w. stored d' rid = Some w \<and> (isTerminal (r_state w) \<or> intent = None \<and> (r_state w = Cancelling \<or> list_ex attempt_broken (r_attempts w))))
    \<or> (\<exists>aid. intent = Some aid \<and> attempt_recorded rid aid d')"
  using assms
  by (auto simp: catch_node_def Let_def dest: get_run_stored intro: job_settled_recorded
      split: sum.splits if_splits option.splits)

lemma after_intent_recorded:
  assumes "after_intent env node rid aid v omitted prep dg err clk d = ((Inr None, dg'), ab, d')"
    and "n_kind node \<noteq> KHumanDecision" and "n_teamStage node = None"
  shows "attempt_recorded rid aid d'"
  using assms
  by (auto simp: after_intent_def Let_def intro: settle_recorded run_node_recorded
      split: sum.splits if_splits option.splits prod.splits)

lemma recordIntent_id: "recordIntent rid q uuid clk d = (Inr (aid, n, i), d') \<Longrightarrow> aid = ''att-'' @ uuid"
  by (auto simp: recordIntent_def Let_def split: if_splits prod.splits sum.splits)

text \<open>A Run in which the job that announced \<open>aid\<close> has nothing left to do.\<close>

definition job_closed :: "string \<Rightarrow> string \<Rightarrow> domain \<Rightarrow> bool" where
  "job_closed rid aid d \<longleftrightarrow>
     (\<exists>w. stored d rid = Some w
        \<and> (isTerminal (r_state w) \<or> r_state w = Cancelling \<or> (\<exists>a\<in>set (r_attempts w). a_state a \<in> {AFailed, ATimedOut, ACancelled})
           \<or> (\<exists>b. List.find (\<lambda>x. a_attemptId x = aid) (r_attempts w) = Some b \<and> a_result b \<noteq> None)))"

lemma recorded_closed: "attempt_recorded rid aid d \<Longrightarrow> job_closed rid aid d"
  by (auto simp: attempt_recorded_def job_closed_def)

lemma catch_node_closed:
  assumes "catch_node env node rid intent dg ab err clk d = (JobDone None, d')" and "n_teamStage node = None"
    and "intent = None \<or> intent = Some aid"
  shows "job_closed rid aid d'"
  using catch_node_recorded [OF assms(1,2)] assms(3)
  by (auto simp: job_closed_def list_ex_iff attempt_broken_def dest!: recorded_closed)

lemma announce_node_closed:
  assumes "announce_node env node r v omitted prep err clk d = (JobDone None, d')"
    and "n_kind node \<noteq> KHumanDecision" and "n_teamStage node = None" and "aid = ''att-'' @ xe_uuid env"
  shows "job_closed (r_runId r) aid d'"
  using assms(1) catch_node_closed [OF _ assms(3)] after_intent_recorded [OF _ assms(2,3)] recorded_closed
  unfolding announce_node_def Let_def
  by (fastforce simp: assms(4) dest: recordIntent_id split: prod.splits sum.splits)

text \<open>C8: A finished job leaves nothing open. When the job of a node that is neither a human decision nor a
  TeamStage ends without a settlement for its driver, and neither the runtime was closing nor the job
  aborted before its intent, the store holds a result for its Attempt, or the Run is settled, is
  cancelling, or has an Attempt that failed, timed out or was cancelled.\<close>

theorem executeRunNode_settles:
  assumes "executeRunNode env def r node clk dm = (JobDone None, dm')"
    and "n_kind node \<noteq> KHumanDecision" and "n_teamStage node = None" and "\<not> xe_closing env" and "\<not> xe_aborted env 0"
  shows "\<exists>w. stored dm' (r_runId r) = Some w
     \<and> (isTerminal (r_state w) \<or> r_state w = Cancelling \<or> (\<exists>a\<in>set (r_attempts w). a_state a \<in> {AFailed, ATimedOut, ACancelled})
        \<or> (\<exists>b. List.find (\<lambda>x. a_attemptId x = ''att-'' @ xe_uuid env) (r_attempts w) = Some b \<and> a_result b \<noteq> None))"
proof -
  have "job_closed (r_runId r) (''att-'' @ xe_uuid env) dm'"
    using assms(1,4,5) catch_node_closed [OF _ assms(3)] announce_node_closed [OF _ assms(2,3) refl]
    by (auto simp: executeRunNode_def split: option.splits prod.splits if_splits)
  then show ?thesis unfolding job_closed_def .
qed

definition started_run :: run_record where
  "started_run = sample_run\<lparr>r_state := Running, r_inputRef := Some (JObj [(''text'', JStr ''hello'')])\<rparr>"

definition input_node :: graph_node where
  "input_node = (plain_node ''in'' KInput)\<lparr>n_outputs := Some [(''text'', ''string'')]\<rparr>"

definition started_job :: "job_outcome \<times> domain" where
  "started_job = executeRunNode quiet_env sample_definition started_run input_node (\<lambda>_. clock) (domain_of started_run)"

theorem executeRunNode_settles_witness:
  "fst started_job = JobDone None
   \<and> (\<exists>w b. stored (snd started_job) ''run-1'' = Some w \<and> List.find (\<lambda>x. a_attemptId x = ''att-9'') (r_attempts w) = Some b
        \<and> a_result b \<noteq> None)"
proof -
  have j: "fst started_job = JobDone None" by code_simp
  have "(case stored (snd started_job) ''run-1'' of None \<Rightarrow> False
      | Some w \<Rightarrow> r_state w = Running \<and> list_all (\<lambda>a. a_state a = ASucceeded) (r_attempts w))" by code_simp
  then obtain w where w: "stored (snd started_job) ''run-1'' = Some w" "r_state w = Running" "\<forall>a\<in>set (r_attempts w). a_state a = ASucceeded"
    by (auto simp: list_all_iff split: option.splits)
  have e: "started_job = (JobDone None, snd started_job)" using j by (metis prod.collapse)
  have q: "r_runId started_run = ''run-1''" by (simp add: started_run_def sample_run_def new_run_def)
  from executeRunNode_settles [OF e [unfolded started_job_def]] w show ?thesis
    unfolding q started_job_def [symmetric] by (auto simp: quiet_env_def input_node_def plain_node_def j)
qed

end
