(* ===== verification/RunQuery.thy ===== *)
theory RunQuery
  imports RunStore
begin

text \<open>
  The Run history query (\<open>persistence/run-query.ts\<close>): filtered, newest first, in pages that a cursor
  continues. A cursor is base64url of a JSON text; as everywhere, a text is the value \<open>JSON.parse\<close> gives
  for it, and \<open>None\<close> where it does not parse.
\<close>

datatype query_error = InvalidCursor | InvalidLimit | ScopeRequired | QueryStoreError store_error

record run_query_args =
  qa_sessionId :: "string option"
  qa_blueprintId :: "string option"
  qa_workspaceId :: "string option"
  qa_state :: "run_state option"
  qa_cursor :: "json_text option"
  qa_limit :: "js_number option"
  qa_includeArchived :: "bool option"

record run_summary =
  sm_runId :: string
  sm_blueprintId :: "string option"
  sm_state :: run_state
  sm_createdAt :: int
  sm_updatedAt :: int
  sm_definitionRevision :: string
  sm_attemptCount :: nat
  sm_archived :: bool

record query_page =
  qp_runs :: "run_summary list"
  qp_nextCursor :: "json_text option"

record run_cursor =
  rc_createdAt :: int
  rc_runId :: string

definition DEFAULT_LIMIT :: int where "DEFAULT_LIMIT = 20"
definition MAX_LIMIT :: int where "MAX_LIMIT = 100"

definition MAX_SAFE_INTEGER :: int where "MAX_SAFE_INTEGER = 2 ^ 53 - 1"

definition safe_integer :: "json \<Rightarrow> int option" where
  "safe_integer v =
     (case v of JNum n \<Rightarrow> Option.bind (js_int n) (\<lambda>i. if \<bar>i\<bar> \<le> MAX_SAFE_INTEGER then Some i else None) | _ \<Rightarrow> None)"

definition encodeCursor :: "run_cursor \<Rightarrow> json_text" where
  "encodeCursor c = Some (JObj [(''createdAt'', JNum (Finite (of_int (rc_createdAt c)))), (''runId'', JStr (rc_runId c))])"

definition decodeCursor :: "json_text option \<Rightarrow> query_error + run_cursor option" where
  "decodeCursor cursor =
     (case cursor of
        None \<Rightarrow> Inr None
      | Some t \<Rightarrow>
          (case t of
             Some (JObj kvs) \<Rightarrow>
               (case (Option.bind (map_of kvs ''createdAt'') safe_integer, map_of kvs ''runId'') of
                  (Some n, Some (JStr s)) \<Rightarrow>
                    if s = [] \<or> list_ex (\<lambda>(k, _). k \<noteq> ''createdAt'' \<and> k \<noteq> ''runId'') kvs then Inl InvalidCursor
                    else Inr (Some \<lparr>rc_createdAt = n, rc_runId = s\<rparr>)
                | _ \<Rightarrow> Inl InvalidCursor)
           | _ \<Rightarrow> Inl InvalidCursor))"

definition validateArgs :: "run_query_args \<Rightarrow> query_error + run_cursor option \<times> nat" where
  "validateArgs args =
     throw_if (qa_sessionId args = None \<and> qa_blueprintId args = None \<and> qa_workspaceId args = None) ScopeRequired
     (case (case qa_limit args of None \<Rightarrow> Some DEFAULT_LIMIT | Some n \<Rightarrow> safe_integer (JNum n)) of
        None \<Rightarrow> Inl InvalidLimit
      | Some limit \<Rightarrow>
          throw_if (limit < 1 \<or> MAX_LIMIT < limit) InvalidLimit
          (ebind (decodeCursor (qa_cursor args)) (\<lambda>c. Inr (c, nat limit))))"

definition runBelongsToSession :: "run_record \<Rightarrow> string \<Rightarrow> bool" where
  "runBelongsToSession r sessionId \<longleftrightarrow>
     map_option src_sessionId (r_source r) = Some sessionId
     \<or> list_ex (\<lambda>a. a_sessionId a = Some sessionId) (r_attempts r)
     \<or> (case r_teamStage r of None \<Rightarrow> False
        | Some s \<Rightarrow> ts_leadSessionId s = sessionId \<or> list_ex (\<lambda>m. m_sessionId m = Some sessionId) (ts_members s))"

definition runHistorySummary :: "run_record \<times> bool \<Rightarrow> run_summary" where
  "runHistorySummary x =
     (case x of (r, archived) \<Rightarrow>
        \<lparr>sm_runId = r_runId r, sm_blueprintId = r_blueprintId r, sm_state = r_state r, sm_createdAt = r_createdAt r,
         sm_updatedAt = r_updatedAt r, sm_definitionRevision = r_definitionRevision r,
         sm_attemptCount = length (r_attempts r), sm_archived = archived\<rparr>)"

definition afterCursor :: "run_record \<Rightarrow> run_cursor option \<Rightarrow> bool" where
  "afterCursor r cursor =
     (case cursor of
        None \<Rightarrow> True
      | Some c \<Rightarrow> r_createdAt r < rc_createdAt c \<or> (r_createdAt r = rc_createdAt c \<and> r_runId r < rc_runId c))"

definition compareNewest :: "run_record \<Rightarrow> run_record \<Rightarrow> int" where
  "compareNewest a b =
     (if r_createdAt b - r_createdAt a \<noteq> 0 then r_createdAt b - r_createdAt a
      else if r_runId a < r_runId b then 1 else if r_runId b < r_runId a then -1 else 0)"

text \<open>\<open>Array.prototype.sort\<close> with a comparison function: stable.\<close>

fun insert_by :: "('a \<Rightarrow> 'a \<Rightarrow> int) \<Rightarrow> 'a \<Rightarrow> 'a list \<Rightarrow> 'a list" where
  "insert_by cmp x [] = [x]"
| "insert_by cmp x (y # ys) = (if cmp x y \<le> 0 then x # y # ys else y # insert_by cmp x ys)"

definition sort_by :: "('a \<Rightarrow> 'a \<Rightarrow> int) \<Rightarrow> 'a list \<Rightarrow> 'a list" where
  "sort_by cmp xs = foldr (insert_by cmp) xs []"

definition matches_args :: "run_query_args \<Rightarrow> run_record \<Rightarrow> bool" where
  "matches_args args r \<longleftrightarrow>
     pred_option (runBelongsToSession r) (qa_sessionId args)
     \<and> pred_option (\<lambda>b. r_blueprintId r = Some b) (qa_blueprintId args)
     \<and> pred_option (\<lambda>s. r_state r = s) (qa_state args)"

primrec collect_runs ::
  "run_query_args \<Rightarrow> run_cursor option \<Rightarrow> domain \<Rightarrow> string list \<Rightarrow> store_error + (run_record \<times> bool) list" where
  "collect_runs args cursor d [] = Inr []"
| "collect_runs args cursor d (i # ids) =
     ebind (get_run i d) (\<lambda>r.
       if \<not> matches_args args r \<or> \<not> afterCursor r cursor then collect_runs args cursor d ids
       else ebind (isArchived i d) (\<lambda>archived.
              if archived \<and> qa_includeArchived args \<noteq> Some True then collect_runs args cursor d ids
              else ebind (collect_runs args cursor d ids) (\<lambda>rs. Inr ((r, archived) # rs))))"

definition pageWithRecords :: "run_query_args \<Rightarrow> domain \<Rightarrow> query_error + query_page \<times> (run_record \<times> bool) list" where
  "pageWithRecords args d =
     ebind (validateArgs args) (\<lambda>(cursor, limit).
       case ebind (listRunIds d) (collect_runs args cursor d) of
         Inl e \<Rightarrow> Inl (QueryStoreError e)
       | Inr found \<Rightarrow>
           (let records = sort_by (\<lambda>a b. compareNewest (fst a) (fst b)) found;
                selected = take limit records
            in Inr (\<lparr>qp_runs = map runHistorySummary selected,
                     qp_nextCursor =
                       (if length selected < length records \<and> selected \<noteq> []
                        then Some (encodeCursor \<lparr>rc_createdAt = r_createdAt (fst (last selected)), rc_runId = r_runId (fst (last selected))\<rparr>)
                        else None)\<rparr>, selected)))"

definition page :: "run_query_args \<Rightarrow> domain \<Rightarrow> query_error + query_page" where
  "page args d = ebind (pageWithRecords args d) (\<lambda>(p, _). Inr p)"

end
