(* ===== verification/QueryProperties.thy ===== *)
theory QueryProperties
  imports RunQuery Samples "HOL-Library.Multiset" "HOL-Library.Product_Lexorder"
begin

text \<open>
  Following the cursors of the Run history query page by page gives the complete history: every
  matching Run exactly once, newest first.
\<close>

section \<open>Order of the pages\<close>

definition newest_key :: "run_record \<times> bool \<Rightarrow> int \<times> string" where
  "newest_key x = (r_createdAt (fst x), r_runId (fst x))"

abbreviation by_newest :: "run_record \<times> bool \<Rightarrow> run_record \<times> bool \<Rightarrow> int" where
  "by_newest \<equiv> (\<lambda>a b. compareNewest (fst a) (fst b))"

lemma by_newest_le: "by_newest a b \<le> 0 \<longleftrightarrow> newest_key b \<le> newest_key a"
  by (auto simp: compareNewest_def newest_key_def less_eq_prod_simp not_less)

lemma insert_by_set [simp]: "set (insert_by cmp x ys) = insert x (set ys)"
  by (induction ys) auto

lemma insert_by_mset [simp]: "mset (insert_by cmp x ys) = add_mset x (mset ys)"
  by (induction ys) auto

lemma sort_by_mset [simp]: "mset (sort_by cmp xs) = mset xs"
  by (induction xs) (simp_all add: sort_by_def)

lemma sort_by_set [simp]: "set (sort_by cmp xs) = set xs"
  by (metis set_mset_mset sort_by_mset)

lemma sort_by_length [simp]: "length (sort_by cmp xs) = length xs"
  by (metis size_mset sort_by_mset)

abbreviation newest_first :: "(run_record \<times> bool) list \<Rightarrow> bool" where
  "newest_first \<equiv> sorted_wrt (\<lambda>a b. newest_key b \<le> newest_key a)"

lemma insert_by_sorted: "newest_first ys \<Longrightarrow> newest_first (insert_by by_newest x ys)"
  by (induction ys) (auto simp: by_newest_le intro: order.trans)

lemma sort_by_sorted: "newest_first (sort_by by_newest xs)"
  by (induction xs) (simp_all add: sort_by_def insert_by_sorted)

lemma insert_by_filter:
  "newest_first ys \<Longrightarrow> filter p (insert_by by_newest x ys) = (if p x then insert_by by_newest x (filter p ys) else filter p ys)"
proof (induction ys)
  case (Cons y ys)
  have "insert_by by_newest x (filter p ys) = x # filter p ys" if "newest_key y \<le> newest_key x"
  proof (cases "filter p ys")
    case (Cons z zs)
    then have "z \<in> set ys" by (metis filter_is_subset list.set_intros(1) subset_iff)
    with \<open>newest_first (y # ys)\<close> that have "newest_key z \<le> newest_key x" by (auto intro: order.trans)
    with Cons show ?thesis by (simp add: by_newest_le)
  qed simp
  with Cons show ?case by (auto simp: by_newest_le)
qed simp

lemma sort_by_filter: "sort_by by_newest (filter p xs) = filter p (sort_by by_newest xs)"
  by (induction xs) (simp_all add: sort_by_def insert_by_filter [OF sort_by_sorted [unfolded sort_by_def]])

text \<open>Behind a page: the Runs after the last one of the page.\<close>

lemma filter_after:
  assumes "sorted_wrt (\<lambda>a b. k b < (k a :: 'k :: linorder)) xs" and "j < length xs"
  shows "filter (\<lambda>x. k x < k (xs ! j)) xs = drop (Suc j) xs"
proof -
  have s: "xs = take (Suc j) xs @ drop (Suc j) xs" by simp
  have "\<not> k x < k (xs ! j)" if "x \<in> set (take (Suc j) xs)" for x
  proof -
    from that assms(2) obtain i where "i \<le> j" "x = xs ! i" by (auto simp: in_set_conv_nth less_Suc_eq_le)
    with sorted_wrt_nth_less [OF assms(1), of i j] assms(2) show ?thesis by (cases "i = j") auto
  qed
  then have "filter (\<lambda>x. k x < k (xs ! j)) (take (Suc j) xs) = []" by (simp add: filter_empty_conv)
  moreover have "filter (\<lambda>x. k x < k (xs ! j)) (drop (Suc j) xs) = drop (Suc j) xs"
  proof (rule filter_True, rule ballI)
    fix x
    assume "x \<in> set (drop (Suc j) xs)"
    then obtain i where "j < i" "i < length xs" "x = xs ! i"
      by (auto simp: in_set_conv_nth) (metis add_Suc_right less_add_Suc1 add.commute less_diff_conv)
    with sorted_wrt_nth_less [OF assms(1)] show "k x < k (xs ! j)" by blast
  qed
  ultimately show ?thesis by (subst s, unfold filter_append) simp
qed

section \<open>Collecting\<close>

lemma afterCursor_None [simp]: "afterCursor r None"
  by (simp add: afterCursor_def)

lemma matches_args_cursor [simp]: "matches_args (args\<lparr>qa_cursor := t\<rparr>) = matches_args args"
  by (simp add: matches_args_def fun_eq_iff)

lemma collect_runs_cursor:
  "collect_runs args None d ids = Inr all \<Longrightarrow>
     collect_runs (args\<lparr>qa_cursor := t\<rparr>) c d ids = Inr (filter (\<lambda>x. afterCursor (fst x) c) all)"
proof (induction ids arbitrary: all)
  case (Cons i ids)
  from Cons.prems obtain r where r: "get_run i d = Inr r" by (auto simp: ebind_Inr)
  show ?case
  proof (cases "matches_args args r")
    case True
    with Cons.prems r obtain b where b: "isArchived i d = Inr b" by (auto simp: ebind_Inr)
    with Cons True r show ?thesis
      by (cases "b \<and> qa_includeArchived args \<noteq> Some True") (auto simp: ebind_Inr)
  qed (use Cons r in auto)
qed simp

lemma collect_runs_ids:
  "collect_runs args c d ids = Inr all \<Longrightarrow> distinct ids \<Longrightarrow>
     distinct (map (\<lambda>x. r_runId (fst x)) all) \<and> (\<forall>x\<in>set all. r_runId (fst x) \<in> set ids \<and> r_runId (fst x) \<noteq> [])"
proof (induction ids arbitrary: all)
  case (Cons i ids)
  from Cons.prems obtain r where r: "get_run i d = Inr r" by (auto simp: ebind_Inr)
  then have i: "r_runId r = i" "i \<noteq> []"
    by (auto simp: get_run_Inr runs_get_def table_get_def runs_schema_def run_id_ok_def split: if_splits option.splits)
  from r Cons.prems(1) obtain rs where
    rs: "collect_runs args c d ids = Inr rs" "all = rs \<or> (\<exists>b. all = (r, b) # rs)"
    by (auto simp: ebind_Inr split: if_splits)
  have "i \<notin> set (map (\<lambda>x. r_runId (fst x)) rs)" using Cons.IH [OF rs(1)] Cons.prems(2) by auto
  with Cons.IH [OF rs(1)] i Cons.prems(2) rs(2) show ?case by (elim disjE exE) auto
qed simp

section \<open>Pages\<close>

lemma decode_encode:
  "\<bar>rc_createdAt c\<bar> \<le> MAX_SAFE_INTEGER \<Longrightarrow> rc_runId c \<noteq> [] \<Longrightarrow> decodeCursor (Some (encodeCursor c)) = Inr (Some c)"
  by (simp add: decodeCursor_def encodeCursor_def safe_integer_def)

definition cursor_at :: "(run_record \<times> bool) list \<Rightarrow> nat \<Rightarrow> run_cursor option" where
  "cursor_at rs j = (if j = 0 then None
     else Some \<lparr>rc_createdAt = r_createdAt (fst (rs ! (j - 1))), rc_runId = r_runId (fst (rs ! (j - 1)))\<rparr>)"

lemma afterCursor_at:
  "0 < j \<Longrightarrow> afterCursor (fst x) (cursor_at rs j) \<longleftrightarrow> newest_key x < newest_key (rs ! (j - 1))"
  by (auto simp: afterCursor_def cursor_at_def newest_key_def less_prod_simp)

lemma strictly_sorted:
  assumes "distinct (map (\<lambda>x. r_runId (fst x)) all)"
  shows "sorted_wrt (\<lambda>a b. newest_key b < newest_key a) (sort_by by_newest all)"
proof -
  let ?s = "sort_by by_newest all"
  have "distinct (map newest_key all)"
    using assms by (auto simp: distinct_map inj_on_def newest_key_def)
  then have "distinct (map newest_key ?s)" by (metis mset_map mset_eq_imp_distinct_iff sort_by_mset)
  with sort_by_sorted [of all] show ?thesis
    by (auto simp: sorted_wrt_iff_nth_less distinct_conv_nth order.strict_iff_order)
qed

lemma page_at:
  assumes v: "validateArgs args = Inr (None, limit)" and ids: "listRunIds d = Inr ids" "distinct ids"
    and all: "collect_runs args None d ids = Inr all" and safe: "\<forall>x\<in>set all. \<bar>r_createdAt (fst x)\<bar> \<le> MAX_SAFE_INTEGER"
    and j: "j \<le> length all"
  defines "s \<equiv> sort_by by_newest all"
  shows "page (args\<lparr>qa_cursor := map_option encodeCursor (cursor_at s j)\<rparr>) d =
    Inr \<lparr>qp_runs = map runHistorySummary (take limit (drop j s)),
         qp_nextCursor = (if j + limit < length s then map_option encodeCursor (cursor_at s (j + limit)) else None)\<rparr>"
proof -
  have pos: "0 < limit" using v by (auto simp: validateArgs_def ebind_Inr split: option.splits)
  have nc: "qa_cursor args = None"
    using v by (auto simp: validateArgs_def ebind_Inr decodeCursor_def split: option.splits json.splits if_splits)
  note rid = collect_runs_ids [OF all ids(2)]
  have strict: "sorted_wrt (\<lambda>a b. newest_key b < newest_key a) s" unfolding s_def using rid by (intro strictly_sorted) simp
  have len: "length s = length all" by (simp add: s_def)
  have dec: "decodeCursor (map_option encodeCursor (cursor_at s j)) = Inr (cursor_at s j)"
  proof (cases "j = 0")
    case False
    with j have "s ! (j - 1) \<in> set all" using nth_mem [of "j - 1" s] by (simp add: s_def)
    with safe rid have "\<bar>r_createdAt (fst (s ! (j - 1)))\<bar> \<le> MAX_SAFE_INTEGER" "r_runId (fst (s ! (j - 1))) \<noteq> []"
      by blast+
    with False show ?thesis by (simp add: cursor_at_def decode_encode)
  qed (simp add: cursor_at_def decodeCursor_def)
  then have va: "validateArgs (args\<lparr>qa_cursor := map_option encodeCursor (cursor_at s j)\<rparr>) = Inr (cursor_at s j, limit)"
    using v nc by (auto simp: validateArgs_def ebind_Inr split: option.splits)
  have sorted: "sort_by by_newest (filter (\<lambda>x. afterCursor (fst x) (cursor_at s j)) all) = drop j s"
  proof (cases "j = 0")
    case False
    with j len have "j - 1 < length s" by simp
    from filter_after [OF strict this] False show ?thesis
      unfolding sort_by_filter s_def [symmetric] by (simp add: afterCursor_at)
  qed (simp add: cursor_at_def s_def)
  let ?args = "args\<lparr>qa_cursor := map_option encodeCursor (cursor_at s j)\<rparr>"
  have found: "ebind (listRunIds d) (collect_runs ?args (cursor_at s j) d)
      = Inr (filter (\<lambda>x. afterCursor (fst x) (cursor_at s j)) all)"
    using collect_runs_cursor [OF all] by (simp add: ids(1))
  have "(if length (take limit (drop j s)) < length (drop j s) \<and> take limit (drop j s) \<noteq> []
       then Some (encodeCursor \<lparr>rc_createdAt = r_createdAt (fst (last (take limit (drop j s)))),
              rc_runId = r_runId (fst (last (take limit (drop j s))))\<rparr>) else None)
     = (if j + limit < length s then map_option encodeCursor (cursor_at s (j + limit)) else None)"
  proof (cases "j + limit < length s")
    case True
    with pos have "last (take limit (drop j s)) = s ! (j + limit - 1)" by (simp add: last_conv_nth)
    with True pos show ?thesis by (simp add: cursor_at_def)
  qed simp
  then show ?thesis by (simp only: page_def pageWithRecords_def va found sorted ebind_simps prod.case sum.case Let_def)
qed

text \<open>A client that follows the cursors, at most \<open>n\<close> pages.\<close>

fun follow_pages :: "nat \<Rightarrow> run_query_args \<Rightarrow> domain \<Rightarrow> query_error + run_summary list" where
  "follow_pages 0 args d = Inr []"
| "follow_pages (Suc n) args d =
     ebind (page args d) (\<lambda>p. case qp_nextCursor p of
       None \<Rightarrow> Inr (qp_runs p)
     | Some c \<Rightarrow> ebind (follow_pages n (args\<lparr>qa_cursor := Some c\<rparr>) d) (\<lambda>rs. Inr (qp_runs p @ rs)))"

lemma follow_from:
  assumes v: "validateArgs args = Inr (None, limit)" and ids: "listRunIds d = Inr ids" "distinct ids"
    and all: "collect_runs args None d ids = Inr all" and safe: "\<forall>x\<in>set all. \<bar>r_createdAt (fst x)\<bar> \<le> MAX_SAFE_INTEGER"
    and "j \<le> length all" and "length all - j < n"
  shows "follow_pages n (args\<lparr>qa_cursor := map_option encodeCursor (cursor_at (sort_by by_newest all) j)\<rparr>) d
    = Inr (map runHistorySummary (drop j (sort_by by_newest all)))"
  using assms(6,7)
proof (induction n arbitrary: j)
  case (Suc n)
  let ?s = "sort_by by_newest all"
  have pos: "0 < limit" using v by (auto simp: validateArgs_def ebind_Inr split: option.splits)
  note p = page_at [OF v ids all safe Suc.prems(1)]
  show ?case
  proof (cases "j + limit < length ?s")
    case True
    obtain c where c: "cursor_at ?s (j + limit) = Some c" using pos by (simp add: cursor_at_def)
    moreover have "follow_pages n (args\<lparr>qa_cursor := map_option encodeCursor (cursor_at ?s (j + limit))\<rparr>) d
        = Inr (map runHistorySummary (drop (j + limit) ?s))"
      using True Suc.prems pos by (intro Suc.IH) simp_all
    moreover have "take limit (drop j ?s) @ drop (j + limit) ?s = drop j ?s"
      using append_take_drop_id [of limit "drop j ?s"] by (simp add: add.commute [of limit])
    ultimately show ?thesis using True by (simp add: p c flip: map_append)
  next
    case False
    then show ?thesis by (simp add: p)
  qed
qed simp

text \<open>The pages of the Run history are complete and without repetition. When the arguments are valid,
  all records can be read and the store does not change in between, following the cursors returns every
  matching Run exactly once, newest first, after at most one page per Run and one more.\<close>

lemma pages_complete:
  assumes "validateArgs args = Inr (None, limit)" and "listRunIds d = Inr ids" and "distinct ids"
    and "collect_runs args None d ids = Inr all" and "\<forall>x\<in>set all. \<bar>r_createdAt (fst x)\<bar> \<le> MAX_SAFE_INTEGER"
    and "length all < n"
  shows "\<exists>rs. follow_pages n args d = Inr (map runHistorySummary rs) \<and> mset rs = mset all
     \<and> sorted_wrt (\<lambda>a b. r_createdAt (fst b) < r_createdAt (fst a)
          \<or> r_createdAt (fst b) = r_createdAt (fst a) \<and> r_runId (fst b) < r_runId (fst a)) rs"
proof -
  let ?s = "sort_by by_newest all"
  have "qa_cursor args = None"
    using assms(1) by (auto simp: validateArgs_def ebind_Inr decodeCursor_def split: option.splits json.splits if_splits)
  then have "args\<lparr>qa_cursor := map_option encodeCursor (cursor_at ?s 0)\<rparr> = args" by (simp add: cursor_at_def)
  with follow_from [OF assms(1-5), of 0 n] assms(6) have "follow_pages n args d = Inr (map runHistorySummary ?s)" by simp
  moreover have "sorted_wrt (\<lambda>a b. newest_key b < newest_key a) ?s"
    using collect_runs_ids [OF assms(4,3)] by (intro strictly_sorted) simp
  ultimately show ?thesis by (auto simp: newest_key_def less_prod_simp elim!: sorted_wrt_mono_rel [rotated])
qed

definition history_domain :: domain where
  "history_domain = open_domain [(''run-1'', running_run), (''run-2'', running_run\<lparr>r_runId := ''run-2'', r_createdAt := 2000\<rparr>)] [] []"

definition first_page :: run_query_args where
  "first_page = \<lparr>qa_sessionId = None, qa_blueprintId = None, qa_workspaceId = Some ''w'', qa_state = None, qa_cursor = None,
     qa_limit = Some (Finite 1), qa_includeArchived = None\<rparr>"

end
