(* ===== verification/Composition.thy ===== *)
theory Composition
  imports GraphFacts NodeValues
begin

text \<open>
  Composition of Blueprints (\<open>definition/composition.ts\<close>): the public ports of a definition and the
  closure of exact child revisions. Loading a package is a parameter. The walk carries fuel for its
  depth; \<open>None\<close> would be a walk that is deeper.
\<close>

section \<open>Interfaces\<close>

datatype composition_error =
    RevisionUnavailable string | InterfaceMismatch string | InterfaceAmbiguous string | ReferenceCycle string
  | ReferenceMissing | ChildUndecodable definition_error | ChildInvalid "issue list"

record definition_package =
  pk_blueprintId :: string
  pk_documentRevision :: string
  pk_definitionJson :: json_text

primrec collect_ports :: "string \<Rightarrow> string dict \<Rightarrow> string dict \<Rightarrow> composition_error + string dict" where
  "collect_ports i [] ports = Inr ports"
| "collect_ports i (p # ps) ports =
     (if map_of ports (fst p) \<noteq> None then Inl (InterfaceAmbiguous i) else collect_ports i ps (AList.update (fst p) (snd p) ports))"

primrec collect_nodes ::
  "(graph_node \<Rightarrow> string dict option) \<Rightarrow> graph_node list \<Rightarrow> string dict \<Rightarrow> composition_error + string dict" where
  "collect_nodes field [] ports = Inr ports"
| "collect_nodes field (n # ns) ports =
     ebind (collect_ports (n_id n) (ports_of (field n)) ports) (collect_nodes field ns)"

definition blueprintInterface :: "blueprint_definition \<Rightarrow> composition_error + string dict \<times> string dict" where
  "blueprintInterface d =
     ebind (collect_nodes n_outputs (filter (\<lambda>n. n_kind n = KInput) (bd_nodes d)) []) (\<lambda>ins.
     ebind (collect_nodes n_inputs (filter (\<lambda>n. n_kind n = KOutput) (bd_nodes d)) []) (\<lambda>outs. Inr (ins, outs)))"

definition samePorts :: "string dict option \<Rightarrow> string dict \<Rightarrow> bool" where
  "samePorts a b \<longleftrightarrow> length (ports_of a) = length b \<and> list_all (\<lambda>(k, v). map_of b k = Some v) (ports_of a)"

section \<open>The closure\<close>

text \<open>\<open>blueprintReferenceKey\<close>: the JSON text of a pair identifies the pair.\<close>

definition blueprintReferenceKey :: "blueprint_reference \<Rightarrow> string \<times> string" where
  "blueprintReferenceKey ref = (br_blueprintId ref, br_documentRevision ref)"

type_synonym closure = "((string \<times> string) \<times> definition_package) list"
type_synonym loader = "blueprint_reference \<Rightarrow> definition_package option"

definition blueprint_calls :: "blueprint_definition \<Rightarrow> graph_node list" where
  "blueprint_calls d = filter (\<lambda>n. n_kind n = KBlueprintCall) (bd_nodes d)"

text \<open>One call of the walk, up to the walk through the child: its package and definition.\<close>

definition resolve_call ::
  "loader \<Rightarrow> string list \<Rightarrow> closure \<Rightarrow> graph_node \<Rightarrow> composition_error + (string \<times> string) \<times> definition_package \<times> blueprint_definition" where
  "resolve_call load ancestors cl n =
     (case n_blueprintRef n of
        None \<Rightarrow> Inl ReferenceMissing
      | Some ref \<Rightarrow>
          throw_if (br_blueprintId ref \<in> set ancestors) (ReferenceCycle (n_id n))
          (case (case map_of cl (blueprintReferenceKey ref) of Some p \<Rightarrow> Some p | None \<Rightarrow> load ref) of
             None \<Rightarrow> Inl (RevisionUnavailable (n_id n))
           | Some p \<Rightarrow>
               throw_if (pk_blueprintId p \<noteq> br_blueprintId ref \<or> pk_documentRevision p \<noteq> br_documentRevision ref)
                 (RevisionUnavailable (n_id n))
               (case decodeDefinition (pk_definitionJson p) of
                  Inl e \<Rightarrow> Inl (ChildUndecodable e)
                | Inr child \<Rightarrow>
                    (case validateDefinition child of
                       Inl issues \<Rightarrow> Inl (ChildInvalid issues)
                     | Inr _ \<Rightarrow>
                         ebind (blueprintInterface child) (\<lambda>(ins, outs).
                           throw_if (\<not> samePorts (n_inputs n) ins \<or> \<not> samePorts (n_outputs n) outs) (InterfaceMismatch (n_id n))
                             (Inr (blueprintReferenceKey ref, p, child)))))))"

function walk ::
  "nat \<Rightarrow> loader \<Rightarrow> graph_node list \<Rightarrow> string list \<Rightarrow> closure \<Rightarrow> (composition_error + closure) option" where
  "walk fuel load [] ancestors cl = Some (Inr cl)"
| "walk 0 load (n # ns) ancestors cl = None"
| "walk (Suc f) load (n # ns) ancestors cl =
     (case resolve_call load ancestors cl n of
        Inl e \<Rightarrow> Some (Inl e)
      | Inr (key, p, child) \<Rightarrow>
          (case walk f load (blueprint_calls child) (bd_id child # ancestors) cl of
             Some (Inr cl') \<Rightarrow> walk (Suc f) load ns ancestors (AList.update key p cl')
           | res \<Rightarrow> res))"
  by pat_completeness auto
termination by (relation "measures [\<lambda>(f, _, _, _, _). f, \<lambda>(_, _, ns, _, _). length ns]") auto

definition resolveBlueprintClosure :: "nat \<Rightarrow> loader \<Rightarrow> blueprint_definition \<Rightarrow> (composition_error + closure) option" where
  "resolveBlueprintClosure fuel load d = walk fuel load (blueprint_calls d) [bd_id d] []"

section \<open>What a closure holds\<close>

text \<open>The call \<open>n\<close> is answered by the closure: the exact revision, decodable, valid and with the ports of the call.\<close>

definition resolved :: "closure \<Rightarrow> graph_node \<Rightarrow> bool" where
  "resolved cl n \<longleftrightarrow>
     (\<exists>ref p child ins outs. n_blueprintRef n = Some ref \<and> map_of cl (blueprintReferenceKey ref) = Some p
        \<and> blueprintReferenceKey ref = (pk_blueprintId p, pk_documentRevision p)
        \<and> decodeDefinition (pk_definitionJson p) = Inr child \<and> validateDefinition child = Inr ()
        \<and> blueprintInterface child = Inr (ins, outs) \<and> samePorts (n_inputs n) ins \<and> samePorts (n_outputs n) outs)"

text \<open>Every package is preceded by the packages it calls.\<close>

definition child_first :: "closure \<Rightarrow> bool" where
  "child_first cl \<longleftrightarrow>
     (\<forall>xs k p ys child. cl = xs @ (k, p) # ys \<longrightarrow> decodeDefinition (pk_definitionJson p) = Inr child
        \<longrightarrow> (\<forall>n \<in> set (blueprint_calls child). resolved xs n))"

text \<open>A package of the closure is the one the loader has for its key.\<close>

definition key_reference :: "string \<times> string \<Rightarrow> blueprint_reference" where
  "key_reference k = \<lparr>br_blueprintId = fst k, br_documentRevision = snd k\<rparr>"

definition closure_loaded :: "loader \<Rightarrow> closure \<Rightarrow> bool" where
  "closure_loaded load cl \<longleftrightarrow> (\<forall>k p. map_of cl k = Some p \<longrightarrow> load (key_reference k) = Some p)"

definition closure_ok :: "loader \<Rightarrow> closure \<Rightarrow> bool" where
  "closure_ok load cl \<longleftrightarrow> closure_loaded load cl \<and> child_first cl \<and> distinct (map fst cl)"

text \<open>Packages carry the definition of their own Blueprint (\<open>loadDefinitionPackage\<close> and
  \<open>readPackagedDefinition\<close> check or take it so), and only known Blueprints have packages.\<close>

definition loader_ok :: "loader \<Rightarrow> string list \<Rightarrow> bool" where
  "loader_ok load known \<longleftrightarrow>
     (\<forall>ref p. load ref = Some p \<longrightarrow> pk_blueprintId p \<in> set known
        \<and> (\<forall>child. decodeDefinition (pk_definitionJson p) = Inr child \<longrightarrow> bd_id child = pk_blueprintId p))"

lemma key_reference_inv [simp]: "key_reference (blueprintReferenceKey ref) = ref"
  by (cases ref) (simp add: key_reference_def blueprintReferenceKey_def)

lemma resolve_call_Inr:
  assumes "resolve_call load ancestors cl n = Inr (key, p, child)" and "closure_loaded load cl"
  shows "\<exists>ref ins outs. n_blueprintRef n = Some ref \<and> key = blueprintReferenceKey ref \<and> br_blueprintId ref \<notin> set ancestors
    \<and> load ref = Some p \<and> load (key_reference key) = Some p \<and> key = (pk_blueprintId p, pk_documentRevision p)
    \<and> decodeDefinition (pk_definitionJson p) = Inr child \<and> validateDefinition child = Inr ()
    \<and> blueprintInterface child = Inr (ins, outs) \<and> samePorts (n_inputs n) ins \<and> samePorts (n_outputs n) outs"
proof -
  have loaded: "map_of cl (blueprintReferenceKey ref) = Some q \<Longrightarrow> load ref = Some q" for ref q
    using assms(2) key_reference_inv[of ref] unfolding closure_loaded_def by metis
  obtain ref where ref: "n_blueprintRef n = Some ref"
    using assms(1) by (auto simp: resolve_call_def split: option.splits)
  have "load ref = Some p"
    using assms(1) loaded[of ref] by (auto simp: resolve_call_def ref ebind_Inr split: option.splits sum.splits)
  moreover from this have "load (key_reference key) = Some p"
    using assms(1) by (auto simp: resolve_call_def ref ebind_Inr split: option.splits sum.splits)
  ultimately show ?thesis
    using assms(1) by (auto simp: resolve_call_def ref ebind_Inr blueprintReferenceKey_def split: option.splits sum.splits)
qed

lemma update_absent: "map_of xs k = None \<Longrightarrow> AList.update k v xs = xs @ [(k, v)]"
  by (induction xs) (auto split: if_splits)

lemma update_same: "map_of xs k = Some v \<Longrightarrow> AList.update k v xs = xs"
  by (induction xs) (auto split: if_splits)

lemma map_of_prefix: "map_of xs k = Some v \<Longrightarrow> map_of (xs @ ys) k = Some v"
  by (simp add: map_add_Some_iff)

lemma resolved_append: "resolved xs n \<Longrightarrow> resolved (xs @ ys) n"
  unfolding resolved_def by (auto dest: map_of_prefix[where ys = ys] simp del: map_of_append)

lemma closure_ok_Nil: "closure_ok load []"
  by (simp add: closure_ok_def closure_loaded_def child_first_def)

lemma child_first_snoc:
  assumes "child_first cl"
    and "\<And>child n. decodeDefinition (pk_definitionJson p) = Inr child \<Longrightarrow> n \<in> set (blueprint_calls child) \<Longrightarrow> resolved cl n"
  shows "child_first (cl @ [(k, p)])"
  unfolding child_first_def
proof (intro allI impI ballI)
  fix xs k' p' ys child n
  assume split: "cl @ [(k, p)] = xs @ (k', p') # ys" and d: "decodeDefinition (pk_definitionJson p') = Inr child"
    and n: "n \<in> set (blueprint_calls child)"
  show "resolved xs n"
  proof (cases ys rule: rev_cases)
    case Nil
    thus ?thesis using split d n assms(2) by simp
  next
    case (snoc zs z)
    hence "cl = xs @ (k', p') # zs" using split by simp
    thus ?thesis using assms(1) d n unfolding child_first_def by blast
  qed
qed

lemma closure_ok_update:
  assumes ok: "closure_ok load cl" and load: "load (key_reference k) = Some p"
    and kids: "\<And>child n. decodeDefinition (pk_definitionJson p) = Inr child \<Longrightarrow> n \<in> set (blueprint_calls child) \<Longrightarrow> resolved cl n"
  shows "closure_ok load (AList.update k p cl) \<and> (\<exists>ys. AList.update k p cl = cl @ ys) \<and> map_of (AList.update k p cl) k = Some p"
proof (cases "map_of cl k")
  case None
  hence fresh: "k \<notin> fst ` set cl" by (simp add: map_of_eq_None_iff)
  have "child_first (cl @ [(k, p)])"
    using ok kids by (auto simp: closure_ok_def intro: child_first_snoc)
  thus ?thesis
    using ok load fresh None
    by (auto simp: update_absent closure_ok_def closure_loaded_def map_add_def split: option.splits)
next
  case (Some q)
  hence "q = p" using ok load unfolding closure_ok_def closure_loaded_def by fastforce
  thus ?thesis using Some ok by (simp add: update_same)
qed

lemma walk_sound:
  assumes "walk fuel load ns ancestors cl = Some (Inr cl')" and "closure_ok load cl"
  shows "closure_ok load cl' \<and> (\<exists>ys. cl' = cl @ ys) \<and> (\<forall>n \<in> set ns. resolved cl' n)"
  using assms
proof (induction fuel load ns ancestors cl arbitrary: cl' rule: walk.induct)
  case (3 f load n ns ancestors cl)
  obtain key p child where call: "resolve_call load ancestors cl n = Inr (key, p, child)"
    using "3.prems"(1) by (auto split: sum.splits)
  obtain mid where mid: "walk f load (blueprint_calls child) (bd_id child # ancestors) cl = Some (Inr mid)"
    and rest: "walk (Suc f) load ns ancestors (AList.update key p mid) = Some (Inr cl')"
    using "3.prems"(1) call by (auto split: option.splits sum.splits)
  have loaded: "closure_loaded load cl" using "3.prems"(2) by (simp add: closure_ok_def)
  note r = resolve_call_Inr[OF call loaded]
  have m: "closure_ok load mid" "\<exists>ys. mid = cl @ ys" "\<forall>n \<in> set (blueprint_calls child). resolved mid n"
    using "3.IH"(1)[OF call refl refl mid "3.prems"(2)] by blast+
  have u: "closure_ok load (AList.update key p mid) \<and> (\<exists>ys. AList.update key p mid = mid @ ys)
      \<and> map_of (AList.update key p mid) key = Some p"
    by (rule closure_ok_update) (use m r in auto)
  have w: "closure_ok load cl' \<and> (\<exists>ys. cl' = AList.update key p mid @ ys) \<and> (\<forall>n \<in> set ns. resolved cl' n)"
    using "3.IH"(2)[OF call refl refl mid refl rest] u by blast
  have "resolved (AList.update key p mid) n"
    using r u unfolding resolved_def by metis
  thus ?case using w u m by (auto intro: resolved_append)
qed auto

lemma known_shrinks:
  assumes "i \<in> set known" "i \<notin> set ancestors"
  shows "card (set known - set (i # ancestors)) < card (set known - set ancestors)"
  by (rule psubset_card_mono) (use assms in auto)

lemma walk_total:
  assumes "loader_ok load known" and "closure_ok load cl" and "card (set known - set ancestors) < fuel"
  shows "\<exists>res. walk fuel load ns ancestors cl = Some res"
  using assms
proof (induction fuel load ns ancestors cl rule: walk.induct)
  case (3 f load n ns ancestors cl)
  show ?case
  proof (cases "resolve_call load ancestors cl n")
    case (Inr t)
    obtain key p child where t: "t = (key, p, child)" by (cases t)
    note call = Inr[unfolded t]
    have r: "\<exists>ref. key = blueprintReferenceKey ref \<and> br_blueprintId ref \<notin> set ancestors \<and> load ref = Some p
        \<and> load (key_reference key) = Some p \<and> key = (pk_blueprintId p, pk_documentRevision p) \<and> decodeDefinition (pk_definitionJson p) = Inr child"
      using resolve_call_Inr[OF call] "3.prems"(2) by (auto simp: closure_ok_def)
    hence child: "bd_id child \<in> set known" "bd_id child \<notin> set ancestors"
      using "3.prems"(1) by (auto simp: loader_ok_def blueprintReferenceKey_def)
    hence "card (set known - set (bd_id child # ancestors)) < f"
      using known_shrinks[of "bd_id child" known ancestors] "3.prems"(3) by linarith
    then obtain res where res: "walk f load (blueprint_calls child) (bd_id child # ancestors) cl = Some res"
      using "3.IH"(1)[OF call refl refl] "3.prems" by blast
    show ?thesis
    proof (cases res)
      case (Inr mid)
      note mid = res[unfolded Inr]
      have m: "closure_ok load mid" "\<forall>n \<in> set (blueprint_calls child). resolved mid n"
        using walk_sound[OF mid "3.prems"(2)] by blast+
      have "closure_ok load (AList.update key p mid)"
        using closure_ok_update[OF m(1), of key p] m(2) r by auto
      thus ?thesis
        using "3.IH"(2)[OF call refl refl mid refl "3.prems"(1) _ "3.prems"(3)] call mid by simp
    qed (simp add: call res)
  qed simp
qed auto

end
