(* ===== verification/CompositionProperties.thy ===== *)
theory CompositionProperties
  imports Composition GraphProperties
begin

text \<open>
  Property of the closure of child revisions (\<open>definition/composition.ts\<close>): the walk ends, and what
  it returns answers every call with the children first, as the portable export relies on.
\<close>

text \<open>The walk through the called Blueprints ends whatever the packages hold, provided each package
  carries the definition of its own Blueprint, because an ancestor is never entered again: one step
  of depth per known Blueprint is enough fuel. When it returns a closure, each key occurs once, every
  call of the root finds the exact revision it names, decoded, validated and with the ports of the
  call, and every package of the closure is preceded by the packages that answer its own calls.\<close>

lemma closure_resolves:
  assumes "loader_ok load known"
  shows "\<exists>res. resolveBlueprintClosure (Suc (length known)) load d = Some res
    \<and> (\<forall>cl. res = Inr cl \<longrightarrow> distinct (map fst cl) \<and> (\<forall>n \<in> set (blueprint_calls d). resolved cl n) \<and> child_first cl)"
proof -
  have "card (set known - set [bd_id d]) \<le> length known"
    by (rule order.trans [OF card_mono card_length]) auto
  hence fuel: "card (set known - set [bd_id d]) < Suc (length known)" by simp
  obtain res where res: "resolveBlueprintClosure (Suc (length known)) load d = Some res"
    using walk_total [OF assms closure_ok_Nil fuel] unfolding resolveBlueprintClosure_def by blast
  moreover have "distinct (map fst cl) \<and> (\<forall>n \<in> set (blueprint_calls d). resolved cl n) \<and> child_first cl" if "res = Inr cl" for cl
    using walk_sound [OF res [unfolded that resolveBlueprintClosure_def] closure_ok_Nil] unfolding closure_ok_def by blast
  ultimately show ?thesis by blast
qed

definition child_text :: json_text where
  "child_text = Some (JObj [(''schemaVersion'', JNum (Finite 2)), (''id'', JStr ''child''), (''name'', JStr ''Child''),
     (''resources'', JObj []),
     (''graph'', JObj
        [(''nodes'', JArr
           [JObj [(''id'', JStr ''in''), (''kind'', JStr ''input''), (''outputs'', JObj [(''text'', JStr ''string'')])],
            JObj [(''id'', JStr ''out''), (''kind'', JStr ''output''), (''inputs'', JObj [(''text'', JStr ''string'')])]]),
         (''edges'', JArr [JObj [(''kind'', JStr ''data''), (''from'', JStr ''in.text''), (''to'', JStr ''out.text'')]])])])"

definition child_loader :: loader where
  "child_loader ref = (if br_blueprintId ref = ''child''
     then Some \<lparr>pk_blueprintId = ''child'', pk_documentRevision = br_documentRevision ref, pk_definitionJson = child_text\<rparr> else None)"

definition calling_definition :: blueprint_definition where
  "calling_definition = sample_definition\<lparr>bd_nodes := [(plain_node ''call'' KBlueprintCall)
     \<lparr>n_blueprintRef := Some \<lparr>br_blueprintId = ''child'', br_documentRevision = ''rev-1''\<rparr>,
      n_inputs := Some [(''text'', ''string'')], n_outputs := Some [(''text'', ''string'')]\<rparr>]\<rparr>"

end
