(* ===== verification/Utf.thy ===== *)
theory Utf
  imports Prelude "HOL-Library.Word"
begin

text \<open>
  Text of archive member names. A JavaScript string is a list of UTF-16 code units;
  \<open>Buffer.from (s, 'utf8')\<close> writes its code points as UTF-8, with a lone surrogate written as
  U+FFFD, and \<open>buffer.toString ('utf8')\<close> reads them back, with each maximal ill-formed part read as
  U+FFFD.
\<close>

type_synonym byte = "8 word"
type_synonym buffer = "byte list"
type_synonym js_text = "16 word list"

section \<open>UTF-16\<close>

definition high_surrogate :: "nat \<Rightarrow> bool" where
  "high_surrogate u \<longleftrightarrow> 0xD800 \<le> u \<and> u < 0xDC00"

definition low_surrogate :: "nat \<Rightarrow> bool" where
  "low_surrogate u \<longleftrightarrow> 0xDC00 \<le> u \<and> u < 0xE000"

fun code_points :: "nat list \<Rightarrow> nat list" where
  "code_points [] = []"
| "code_points [u] = [if high_surrogate u \<or> low_surrogate u then 0xFFFD else u]"
| "code_points (u # v # us) =
     (if high_surrogate u \<and> low_surrogate v
      then (0x10000 + (u - 0xD800) * 1024 + (v - 0xDC00)) # code_points us
      else (if high_surrogate u \<or> low_surrogate u then 0xFFFD else u) # code_points (v # us))"

definition code_units :: "nat \<Rightarrow> nat list" where
  "code_units p =
     (if p < 0x10000 then [p] else [0xD800 + (p - 0x10000) div 1024, 0xDC00 + (p - 0x10000) mod 1024])"

text \<open>\<open>String.prototype.isWellFormed\<close>: no lone surrogate.\<close>

fun well_formed :: "nat list \<Rightarrow> bool" where
  "well_formed [] = True"
| "well_formed [u] = (\<not> high_surrogate u \<and> \<not> low_surrogate u)"
| "well_formed (u # v # us) =
     (if high_surrogate u then low_surrogate v \<and> well_formed us
      else \<not> low_surrogate u \<and> well_formed (v # us))"

section \<open>UTF-8\<close>

definition utf8_point :: "nat \<Rightarrow> nat list" where
  "utf8_point p =
     (if p < 0x80 then [p]
      else if p < 0x800 then [0xC0 + p div 64, 0x80 + p mod 64]
      else if p < 0x10000 then [0xE0 + p div 4096, 0x80 + p div 64 mod 64, 0x80 + p mod 64]
      else [0xF0 + p div 262144, 0x80 + p div 4096 mod 64, 0x80 + p div 64 mod 64, 0x80 + p mod 64])"

text \<open>The continuation bytes of a code point: the first one within \<open>lo..hi\<close>.\<close>

fun utf8_cont :: "nat \<Rightarrow> nat \<Rightarrow> nat \<Rightarrow> nat \<Rightarrow> nat list \<Rightarrow> nat \<times> nat list" where
  "utf8_cont lo hi 0 acc bs = (acc, bs)"
| "utf8_cont lo hi (Suc k) acc [] = (0xFFFD, [])"
| "utf8_cont lo hi (Suc k) acc (b # bs) =
     (if lo \<le> b \<and> b \<le> hi then utf8_cont 0x80 0xBF k (acc * 64 + (b - 0x80)) bs else (0xFFFD, b # bs))"

lemma utf8_cont_length: "length (snd (utf8_cont lo hi k acc bs)) \<le> length bs"
  by (induction lo hi k acc bs rule: utf8_cont.induct) auto

definition utf8_lead :: "nat \<Rightarrow> nat list \<Rightarrow> nat \<times> nat list" where
  "utf8_lead b bs =
     (if b < 0x80 then (b, bs)
      else if 0xC2 \<le> b \<and> b \<le> 0xDF then utf8_cont 0x80 0xBF 1 (b - 0xC0) bs
      else if 0xE0 \<le> b \<and> b \<le> 0xEF
      then utf8_cont (if b = 0xE0 then 0xA0 else 0x80) (if b = 0xED then 0x9F else 0xBF) 2 (b - 0xE0) bs
      else if 0xF0 \<le> b \<and> b \<le> 0xF4
      then utf8_cont (if b = 0xF0 then 0x90 else 0x80) (if b = 0xF4 then 0x8F else 0xBF) 3 (b - 0xF0) bs
      else (0xFFFD, bs))"

lemma utf8_lead_length: "length (snd (utf8_lead b bs)) \<le> length bs"
  using utf8_cont_length by (simp add: utf8_lead_def)

function utf8_points :: "nat list \<Rightarrow> nat list" where
  "utf8_points [] = []"
| "utf8_points (b # bs) = fst (utf8_lead b bs) # utf8_points (snd (utf8_lead b bs))"
  by pat_completeness auto
termination by (relation "measure length") (auto simp: utf8_lead_length le_imp_less_Suc)

section \<open>Buffers and texts\<close>

definition to_utf8 :: "js_text \<Rightarrow> buffer" where
  "to_utf8 s = map of_nat (concat (map utf8_point (code_points (map unat s))))"

definition from_utf8 :: "buffer \<Rightarrow> js_text" where
  "from_utf8 b = map of_nat (concat (map code_units (utf8_points (map unat b))))"

definition wf_text :: "js_text \<Rightarrow> bool" where
  "wf_text s \<longleftrightarrow> well_formed (map unat s)"

section \<open>Round trip\<close>

definition scalar :: "nat \<Rightarrow> bool" where
  "scalar p \<longleftrightarrow> p < 0xD800 \<or> 0xE000 \<le> p \<and> p < 0x110000"

lemma scalar_bound: "scalar p \<Longrightarrow> p < 0x110000"
  by (auto simp: scalar_def)

lemma utf8_point_bytes: "p < 0x110000 \<Longrightarrow> b \<in> set (utf8_point p) \<Longrightarrow> b < 256"
  by (auto simp: utf8_point_def split: if_splits)

lemma utf8_cont_numeral [simp]:
  "utf8_cont lo hi (numeral n) acc (b # bs) =
     (if lo \<le> b \<and> b \<le> hi then utf8_cont 0x80 0xBF (pred_numeral n) (acc * 64 + (b - 0x80)) bs else (0xFFFD, b # bs))"
  "utf8_cont lo hi 1 acc (b # bs) =
     (if lo \<le> b \<and> b \<le> hi then (acc * 64 + (b - 0x80), bs) else (0xFFFD, b # bs))"
  by (simp_all only: numeral_eq_Suc One_nat_def utf8_cont.simps)

lemma div_parts:
  fixes p :: nat
  shows "p div 64 * 64 + p mod 64 = p" "p div 4096 * 64 + p div 64 mod 64 = p div 64"
    "p div 262144 * 64 + p div 4096 mod 64 = p div 4096"
proof -
  show "p div 64 * 64 + p mod 64 = p" by simp
  have "p div 4096 = p div 64 div 64" "p div 262144 = p div 4096 div 64" by (simp_all add: div_mult2_eq)
  then show "p div 4096 * 64 + p div 64 mod 64 = p div 64" "p div 262144 * 64 + p div 4096 mod 64 = p div 4096"
    by (metis div_mod_decomp)+
qed

lemma low_bits_bound: "0x80 + x mod 64 \<le> 0xBF" for x :: nat
  using mod_less_divisor [of 64 x] by linarith

lemma utf8_points_point:
  assumes "scalar p"
  shows "utf8_points (utf8_point p @ bs) = p # utf8_points bs"
proof -
  consider "p < 0x80" | "0x80 \<le> p" "p < 0x800" | "0x800 \<le> p" "p < 0x10000" | "0x10000 \<le> p" "p < 0x110000"
    using assms unfolding scalar_def by linarith
  then show ?thesis
  proof cases
    case 1
    then show ?thesis by (simp add: utf8_point_def utf8_lead_def)
  next
    case 2
    then have "2 \<le> p div 64" "p div 64 < 32" by auto
    then have "utf8_lead (0xC0 + p div 64) ((0x80 + p mod 64) # bs) = (p, bs)"
      using low_bits_bound [of p] div_parts(1) [of p] by (simp add: utf8_lead_def del: div_mod_decomp mod_div_trivial)
    with 2 show ?thesis by (simp add: utf8_point_def)
  next
    case 3
    then have d: "p div 4096 < 16" by auto
    have "32 \<le> p div 64 mod 64" if "p div 4096 = 0" using 3 that div_parts(2) [of p] by linarith
    moreover have "p div 64 mod 64 \<le> 31" if "p div 4096 = 13"
    proof -
      from that 3 assms have "p < 0xD800" by (auto simp: scalar_def)
      then have "p div 64 < 0xD800 div 64" by auto
      with that div_parts(2) [of p] show ?thesis by linarith
    qed
    ultimately have "utf8_lead (0xE0 + p div 4096) ((0x80 + p div 64 mod 64) # (0x80 + p mod 64) # bs) = (p, bs)"
      using d low_bits_bound [of p] low_bits_bound [of "p div 64"] div_parts [of p]
      by (simp add: utf8_lead_def)
    with 3 show ?thesis by (simp add: utf8_point_def)
  next
    case 4
    then have d: "p div 262144 < 5" by auto
    have "16 \<le> p div 4096 mod 64" if "p div 262144 = 0" using 4 that div_parts(3) [of p] by linarith
    moreover have "p div 4096 mod 64 \<le> 15" if "p div 262144 = 4"
    proof -
      from 4 have "p div 4096 < 0x110000 div 4096" by auto
      with that div_parts(3) [of p] show ?thesis by linarith
    qed
    ultimately have "utf8_lead (0xF0 + p div 262144)
        ((0x80 + p div 4096 mod 64) # (0x80 + p div 64 mod 64) # (0x80 + p mod 64) # bs) = (p, bs)"
      using d low_bits_bound [of p] low_bits_bound [of "p div 64"] low_bits_bound [of "p div 4096"] div_parts [of p]
      by (simp add: utf8_lead_def)
    with 4 show ?thesis by (simp add: utf8_point_def)
  qed
qed

lemma utf8_bytes: "list_all scalar ps \<Longrightarrow> list_all (\<lambda>b. b < 256) (concat (map utf8_point ps))"
  by (induction ps) (auto simp: list_all_iff dest: scalar_bound utf8_point_bytes)

lemma utf8_points_all: "list_all scalar ps \<Longrightarrow> utf8_points (concat (map utf8_point ps)) = ps"
  by (induction ps) (simp_all add: utf8_points_point)

lemma code_points_scalar: "well_formed us \<Longrightarrow> list_all (\<lambda>u. u < 0x10000) us \<Longrightarrow> list_all scalar (code_points us)"
  by (induction us rule: well_formed.induct)
    (auto simp: scalar_def high_surrogate_def low_surrogate_def split: if_splits)

lemma code_units_pair:
  assumes "high_surrogate u" and "low_surrogate v"
  shows "code_units (0x10000 + (u - 0xD800) * 1024 + (v - 0xDC00)) = [u, v]"
proof -
  from assms obtain a b where "u = 0xD800 + a" "v = 0xDC00 + b" "b < 1024"
    unfolding high_surrogate_def low_surrogate_def
    by (intro that [of "u - 0xD800" "v - 0xDC00"]) linarith+
  then show ?thesis by (simp add: code_units_def)
qed

lemma code_units_points:
  "well_formed us \<Longrightarrow> list_all (\<lambda>u. u < 0x10000) us \<Longrightarrow> concat (map code_units (code_points us)) = us"
  by (induction us rule: well_formed.induct) (auto simp: code_units_pair, auto simp: code_units_def)

lemma unat_16: "unat (u :: 16 word) < 0x10000"
  using unsigned_less [of u] by simp

lemma map_unat_of_nat:
  "list_all (\<lambda>b. b < 256) bs \<Longrightarrow> map unat (map of_nat bs :: 8 word list) = bs"
  by (induction bs) (simp_all add: unat_of_nat)

text \<open>Text without lone surrogates survives being written as UTF-8 and read back.\<close>

lemma from_to_utf8 [simp]:
  assumes "wf_text s"
  shows "from_utf8 (to_utf8 s) = s"
proof -
  let ?us = "map unat s"
  have u: "list_all (\<lambda>u. u < 0x10000) ?us" using unat_16 by (simp add: list_all_iff)
  with assms have c: "list_all scalar (code_points ?us)" by (simp add: wf_text_def code_points_scalar)
  then have "list_all (\<lambda>b. b < 256) (concat (map utf8_point (code_points ?us)))"
    by (rule utf8_bytes)
  from map_unat_of_nat [OF this] c u assms show ?thesis
    by (simp add: from_utf8_def to_utf8_def utf8_points_all code_units_points wf_text_def map_idI)
qed

end
