(* ===== verification/ZipArchive.thy ===== *)
theory ZipArchive
  imports Utf
begin

text \<open>
  \<open>portability/zip.ts\<close>: the store-only writer and the strict reader of the ZIP container. A buffer is
  a list of bytes. \<open>readUIntLE\<close> and \<open>writeUIntLE\<close> raise \<open>RangeError\<close> outside the buffer or the width of
  the field, as the methods of \<open>Buffer\<close> do. The decompressor (\<open>inflateRawSync\<close>) and the key that
  identifies names (\<open>normalize ('NFC').toLowerCase ()\<close>) are parameters.
\<close>

unbundle bit_operations_syntax

section \<open>Errors\<close>

datatype unsafe_reason =
    EmptyName | NameTooLong | NulInName | BackslashInName | AbsolutePath | DriveLetter | DirectoryEntry
  | UnsafeSegment js_text
  | TruncatedArchive | EocdNotFound | EntryCountExceeds nat nat | DirectoryOutOfBounds | CorruptDirectory
  | SymlinkEntry | UnsupportedMethod nat | BudgetExceeded nat | DuplicateEntry | CollidingEntries
  | CorruptLocalHeader | NameMismatch | TruncatedData | StoreSizeMismatch | DeflateFailed | DeflateSizeMismatch
  | CrcMismatch

datatype zip_error = ArchiveUnsafeError unsafe_reason "js_text option" | RangeError

section \<open>CRC-32\<close>

type_synonym crc = "32 word"

definition crc_shift :: "crc \<Rightarrow> crc" where
  "crc_shift c = (if c AND 1 \<noteq> 0 then 0xedb88320 XOR drop_bit 1 c else drop_bit 1 c)"

definition CRC_TABLE :: "crc list" where
  "CRC_TABLE = map (\<lambda>n. (crc_shift ^^ 8) (of_nat n)) [0..<256]"

definition crc_step :: "byte \<Rightarrow> crc \<Rightarrow> crc" where
  "crc_step b c = (CRC_TABLE ! unat ((c XOR ucast b) AND 0xff)) XOR drop_bit 8 c"

definition crc32 :: "buffer \<Rightarrow> crc" where
  "crc32 buf = fold crc_step buf 0xffffffff XOR 0xffffffff"

section \<open>Little-endian fields\<close>

fun le_bytes :: "nat \<Rightarrow> nat \<Rightarrow> buffer" where
  "le_bytes 0 v = []"
| "le_bytes (Suc w) v = of_nat v # le_bytes w (v div 256)"

fun le_value :: "buffer \<Rightarrow> nat" where
  "le_value [] = 0"
| "le_value (b # bs) = unat b + 256 * le_value bs"

definition readUIntLE :: "nat \<Rightarrow> buffer \<Rightarrow> nat \<Rightarrow> zip_error + nat" where
  "readUIntLE w buf i = (if i + w \<le> length buf then Inr (le_value (take w (drop i buf))) else Inl RangeError)"

text \<open>Consecutive \<open>writeUInt16LE\<close> and \<open>writeUInt32LE\<close> calls that fill a header: width and value.\<close>

fun writeUIntLE :: "(nat \<times> nat) list \<Rightarrow> zip_error + buffer" where
  "writeUIntLE [] = Inr []"
| "writeUIntLE ((w, v) # fs) =
     throw_if (256 ^ w \<le> v) RangeError (ebind (writeUIntLE fs) (\<lambda>bs. Inr (le_bytes w v @ bs)))"

definition subarray :: "buffer \<Rightarrow> nat \<Rightarrow> nat \<Rightarrow> buffer" where
  "subarray buf a b = take (b - a) (drop a buf)"

section \<open>Writer\<close>

record zip_input =
  zi_name :: js_text
  zi_data :: buffer
  zi_mode :: "nat option"

definition LOCAL_SIG :: nat where "LOCAL_SIG = 0x04034b50"
definition CENTRAL_SIG :: nat where "CENTRAL_SIG = 0x02014b50"
definition EOCD_SIG :: nat where "EOCD_SIG = 0x06054b50"

definition local_fields :: "crc \<Rightarrow> nat \<Rightarrow> nat \<Rightarrow> (nat \<times> nat) list" where
  "local_fields crc sz nameLen =
     [(4, LOCAL_SIG), (2, 20), (2, 0x0800), (2, 0), (2, 0), (2, 0), (4, unat crc), (4, sz), (4, sz),
      (2, nameLen), (2, 0)]"

definition central_fields :: "crc \<Rightarrow> nat \<Rightarrow> nat \<Rightarrow> nat option \<Rightarrow> nat \<Rightarrow> (nat \<times> nat) list" where
  "central_fields crc sz nameLen mode offset =
     [(4, CENTRAL_SIG), (2, 0x031e), (2, 20), (2, 0x0800), (2, 0), (2, 0), (2, 0), (4, unat crc), (4, sz), (4, sz),
      (2, nameLen), (2, 0), (2, 0), (2, 0), (2, 0),
      (4, (case mode of None \<Rightarrow> 0x81A4 | Some m \<Rightarrow> m) mod 0x10000 * 0x10000), (4, offset)]"

definition eocd_fields :: "nat \<Rightarrow> nat \<Rightarrow> nat \<Rightarrow> (nat \<times> nat) list" where
  "eocd_fields count cdSize offset =
     [(4, EOCD_SIG), (2, 0), (2, 0), (2, count), (2, count), (4, cdSize), (4, offset), (2, 0)]"

fun write_entries :: "zip_input list \<Rightarrow> nat \<Rightarrow> zip_error + buffer \<times> buffer \<times> nat" where
  "write_entries [] offset = Inr ([], [], offset)"
| "write_entries (e # es) offset =
     (let nameBuf = to_utf8 (zi_name e); sz = length (zi_data e) in
      throw_if (0xffff < length nameBuf) (ArchiveUnsafeError NameTooLong (Some (zi_name e)))
      (ebind (writeUIntLE (local_fields (crc32 (zi_data e)) sz (length nameBuf))) (\<lambda>local.
       ebind (writeUIntLE (central_fields (crc32 (zi_data e)) sz (length nameBuf) (zi_mode e) offset)) (\<lambda>central.
       ebind (write_entries es (offset + (length local + length nameBuf) + sz)) (\<lambda>(localBufs, centrals, offset').
         Inr (local @ nameBuf @ zi_data e @ localBufs, central @ nameBuf @ centrals, offset'))))))"

definition writeZip :: "zip_input list \<Rightarrow> zip_error + buffer" where
  "writeZip entries =
     (let sorted = sort_key zi_name entries in
      ebind (write_entries sorted 0) (\<lambda>(localBuf, centralBuf, offset).
      ebind (writeUIntLE (eocd_fields (length sorted) (length centralBuf) offset)) (\<lambda>eocd.
        Inr (localBuf @ centralBuf @ eocd))))"

section \<open>Reader\<close>

record zip_limits =
  maxEntries :: nat
  maxTotalUncompressed :: nat
  maxNameLength :: nat

definition DEFAULT_ZIP_LIMITS :: zip_limits where
  "DEFAULT_ZIP_LIMITS = \<lparr>maxEntries = 5000, maxTotalUncompressed = 256 * 1024 * 1024, maxNameLength = 1024\<rparr>"

record zip_entry =
  ze_name :: js_text
  ze_data :: buffer
  ze_mode :: nat

definition ascii :: "char \<Rightarrow> 16 word" where
  "ascii c = of_nat (of_char c)"

definition ascii_letter :: "16 word \<Rightarrow> bool" where
  "ascii_letter u \<longleftrightarrow> ascii CHR ''a'' \<le> u \<and> u \<le> ascii CHR ''z'' \<or> ascii CHR ''A'' \<le> u \<and> u \<le> ascii CHR ''Z''"

definition drive_letter :: "js_text \<Rightarrow> bool" where
  "drive_letter name \<longleftrightarrow> (case name of u # v # _ \<Rightarrow> ascii_letter u \<and> v = ascii CHR '':'' | _ \<Rightarrow> False)"

definition assertSafeName :: "js_text \<Rightarrow> zip_error + unit" where
  "assertSafeName name =
     throw_if (name = []) (ArchiveUnsafeError EmptyName None)
     (throw_if (maxNameLength DEFAULT_ZIP_LIMITS < length name) (ArchiveUnsafeError NameTooLong (Some name))
     (throw_if (0 \<in> set name) (ArchiveUnsafeError NulInName (Some name))
     (throw_if (ascii (CHR 0x5C) \<in> set name) (ArchiveUnsafeError BackslashInName (Some name))
     (throw_if (hd name = ascii CHR ''/'') (ArchiveUnsafeError AbsolutePath (Some name))
     (throw_if (drive_letter name) (ArchiveUnsafeError DriveLetter (Some name))
     (throw_if (last name = ascii CHR ''/'') (ArchiveUnsafeError DirectoryEntry (Some name))
     (case List.find (\<lambda>s. s \<in> {[], [ascii CHR ''.''], [ascii CHR ''.'', ascii CHR ''.'']})
             (split_on (ascii CHR ''/'') name) of
        Some s \<Rightarrow> Inl (ArchiveUnsafeError (UnsafeSegment s) (Some name))
      | None \<Rightarrow> Inr ())))))))"

text \<open>The scan for the end record: \<open>k\<close> positions from \<open>i\<close> downwards.\<close>

fun scan_eocd :: "buffer \<Rightarrow> nat \<Rightarrow> nat \<Rightarrow> zip_error + nat option" where
  "scan_eocd buf 0 i = Inr None"
| "scan_eocd buf (Suc k) i =
     ebind (readUIntLE 4 buf i) (\<lambda>s. if s = EOCD_SIG then Inr (Some i) else scan_eocd buf k (i - 1))"

record central_entry =
  ce_method :: nat
  ce_crc :: nat
  ce_compressedSize :: nat
  ce_uncompressedSize :: nat
  ce_unixMode :: nat
  ce_localOffset :: nat
  ce_name :: js_text
  ce_next :: nat

definition read_central :: "buffer \<Rightarrow> nat \<Rightarrow> zip_error + central_entry" where
  "read_central buf cursor =
     throw_if (length buf < cursor + 46) (ArchiveUnsafeError CorruptDirectory None)
     (ebind (readUIntLE 4 buf cursor) (\<lambda>sig.
      throw_if (sig \<noteq> CENTRAL_SIG) (ArchiveUnsafeError CorruptDirectory None)
      (ebind (readUIntLE 2 buf (cursor + 10)) (\<lambda>method.
       ebind (readUIntLE 4 buf (cursor + 16)) (\<lambda>crc.
       ebind (readUIntLE 4 buf (cursor + 20)) (\<lambda>compressedSize.
       ebind (readUIntLE 4 buf (cursor + 24)) (\<lambda>uncompressedSize.
       ebind (readUIntLE 2 buf (cursor + 28)) (\<lambda>nameLen.
       ebind (readUIntLE 2 buf (cursor + 30)) (\<lambda>extraLen.
       ebind (readUIntLE 2 buf (cursor + 32)) (\<lambda>commentLen.
       ebind (readUIntLE 4 buf (cursor + 38)) (\<lambda>externalAttrs.
       ebind (readUIntLE 4 buf (cursor + 42)) (\<lambda>localOffset.
         Inr \<lparr>ce_method = method, ce_crc = crc, ce_compressedSize = compressedSize,
              ce_uncompressedSize = uncompressedSize, ce_unixMode = externalAttrs div 0x10000 mod 0x10000,
              ce_localOffset = localOffset, ce_name = from_utf8 (subarray buf (cursor + 46) (cursor + 46 + nameLen)),
              ce_next = cursor + 46 + nameLen + extraLen + commentLen\<rparr>))))))))))))"

definition check_central ::
  "(js_text \<Rightarrow> js_text) \<Rightarrow> zip_limits \<Rightarrow> (js_text \<times> js_text) list \<Rightarrow> nat \<Rightarrow> central_entry \<Rightarrow> zip_error + unit" where
  "check_central key limits seen ttl c =
     (let name = ce_name c; err = (\<lambda>r. ArchiveUnsafeError r (Some name)) in
      ebind (assertSafeName name) (\<lambda>_.
      throw_if (ce_unixMode c div 0x1000 = 0xa) (err SymlinkEntry)
      (throw_if (ce_method c \<noteq> 0 \<and> ce_method c \<noteq> 8) (err (UnsupportedMethod (ce_method c)))
      (throw_if (maxTotalUncompressed limits < ttl + ce_uncompressedSize c)
         (err (BudgetExceeded (maxTotalUncompressed limits)))
      (case map_of seen (key name) of
         Some prior \<Rightarrow> Inl (err (if prior = name then DuplicateEntry else CollidingEntries))
       | None \<Rightarrow> Inr ())))))"

definition read_data ::
  "(nat \<Rightarrow> buffer \<Rightarrow> buffer option) \<Rightarrow> buffer \<Rightarrow> central_entry \<Rightarrow> zip_error + buffer" where
  "read_data inflate buf c =
     (let err = (\<lambda>r. ArchiveUnsafeError r (Some (ce_name c))); lo = ce_localOffset c in
      throw_if (length buf < lo + 30) (err CorruptLocalHeader)
      (ebind (readUIntLE 4 buf lo) (\<lambda>sig.
       throw_if (sig \<noteq> LOCAL_SIG) (err CorruptLocalHeader)
       (ebind (readUIntLE 2 buf (lo + 26)) (\<lambda>localNameLen.
        ebind (readUIntLE 2 buf (lo + 28)) (\<lambda>localExtraLen.
        throw_if (from_utf8 (subarray buf (lo + 30) (lo + 30 + localNameLen)) \<noteq> ce_name c) (err NameMismatch)
        (let start = lo + 30 + localNameLen + localExtraLen;
             raw = subarray buf start (start + ce_compressedSize c) in
         throw_if (length raw \<noteq> ce_compressedSize c) (err TruncatedData)
         (ebind
            (if ce_method c = 0
             then throw_if (ce_compressedSize c \<noteq> ce_uncompressedSize c) (err StoreSizeMismatch) (Inr raw)
             else case inflate (max 1 (ce_uncompressedSize c)) raw of
                    None \<Rightarrow> Inl (err DeflateFailed)
                  | Some d \<Rightarrow> throw_if (length d \<noteq> ce_uncompressedSize c) (err DeflateSizeMismatch) (Inr d))
            (\<lambda>d. throw_if (unat (crc32 d) \<noteq> ce_crc c) (err CrcMismatch) (Inr d))))))))))"

fun read_entries ::
  "(js_text \<Rightarrow> js_text) \<Rightarrow> (nat \<Rightarrow> buffer \<Rightarrow> buffer option) \<Rightarrow> zip_limits \<Rightarrow> buffer \<Rightarrow> nat
     \<Rightarrow> (js_text \<times> js_text) list \<Rightarrow> nat \<Rightarrow> nat \<Rightarrow> zip_error + zip_entry list" where
  "read_entries key inflate limits buf 0 seen ttl cursor = Inr []"
| "read_entries key inflate limits buf (Suc n) seen ttl cursor =
     ebind (read_central buf cursor) (\<lambda>c.
     ebind (check_central key limits seen ttl c) (\<lambda>_.
     ebind (read_data inflate buf c) (\<lambda>d.
     ebind (read_entries key inflate limits buf n ((key (ce_name c), ce_name c) # seen)
              (ttl + ce_uncompressedSize c) (ce_next c)) (\<lambda>es.
       Inr (\<lparr>ze_name = ce_name c, ze_data = d, ze_mode = (if ce_unixMode c = 0 then 0x81A4 else ce_unixMode c)\<rparr> # es)))))"

definition readZip ::
  "(js_text \<Rightarrow> js_text) \<Rightarrow> (nat \<Rightarrow> buffer \<Rightarrow> buffer option) \<Rightarrow> buffer \<Rightarrow> zip_limits \<Rightarrow> zip_error + zip_entry list" where
  "readZip key inflate buf limits =
     throw_if (length buf < 22) (ArchiveUnsafeError TruncatedArchive None)
     (let scanStart = length buf - 22 - 0xffff in
      ebind (scan_eocd buf (length buf - 22 - scanStart + 1) (length buf - 22)) (\<lambda>found.
      case found of
        None \<Rightarrow> Inl (ArchiveUnsafeError EocdNotFound None)
      | Some eocd \<Rightarrow>
          ebind (readUIntLE 2 buf (eocd + 10)) (\<lambda>entryCount.
          ebind (readUIntLE 4 buf (eocd + 12)) (\<lambda>cdSize.
          ebind (readUIntLE 4 buf (eocd + 16)) (\<lambda>cdOffset.
          throw_if (maxEntries limits < entryCount) (ArchiveUnsafeError (EntryCountExceeds entryCount (maxEntries limits)) None)
          (throw_if (length buf < cdOffset + cdSize) (ArchiveUnsafeError DirectoryOutOfBounds None)
             (read_entries key inflate limits buf entryCount [] 0 cdOffset)))))))"

end
