(* ===== verification/ZipFacts.thy ===== *)
theory ZipFacts
  imports ZipArchive "HOL-Library.Multiset"
begin

text \<open>
  Facts about the container: the table-driven CRC-32 against the bitwise one, the fields of headers,
  and what the reader finds in what the writer wrote.
\<close>

section \<open>CRC-32\<close>

lemma crc_shift_bit: "crc_shift c = (if bit c 0 then 0xedb88320 else 0) XOR drop_bit 1 c"
proof -
  have "c AND 1 \<noteq> 0 \<longleftrightarrow> bit c 0" by (simp add: and_one_eq bit_0 odd_iff_mod_2_eq_one)
  then show ?thesis by (simp add: crc_shift_def)
qed

lemma crc_shift_xor: "crc_shift (x XOR y) = crc_shift x XOR crc_shift y"
  by (simp add: crc_shift_bit bit_xor_iff xor.assoc xor.left_commute xor.commute)

lemma crc_shifts_xor: "(crc_shift ^^ n) (x XOR y) = (crc_shift ^^ n) x XOR (crc_shift ^^ n) y"
  by (induction n) (simp_all add: crc_shift_xor)

lemma crc_shifts_high: "(\<And>i. i < n \<Longrightarrow> \<not> bit x i) \<Longrightarrow> (crc_shift ^^ n) x = drop_bit n x"
proof (induction n arbitrary: x)
  case (Suc n)
  have s: "crc_shift x = drop_bit 1 x" using Suc.prems [of 0] by (simp add: crc_shift_bit)
  have "(crc_shift ^^ n) (drop_bit 1 x) = drop_bit n (drop_bit 1 x)"
    using Suc.prems by (intro Suc.IH) (simp add: bit_drop_bit_eq)
  then show ?case by (simp add: funpow_swap1 s)
qed simp

lemma crc_entry: "CRC_TABLE ! unat (x AND 0xff) = (crc_shift ^^ 8) (x AND 0xff)"
proof -
  have "unat (x AND 0xff) < 256"
  proof -
    have "x AND 0xff \<le> 0xff" by (rule word_and_le1)
    then show ?thesis by (simp add: word_le_nat_alt)
  qed
  then show ?thesis by (simp add: CRC_TABLE_def)
qed

lemma split_low:
  fixes x :: "32 word"
  assumes "\<And>i. bit m i \<longleftrightarrow> i < 8"
  shows "x = (x AND m) XOR (x AND NOT m)" "\<And>i. i < 8 \<Longrightarrow> \<not> bit (x AND NOT m) i"
    "drop_bit 8 (x AND NOT m) = drop_bit 8 x"
proof -
  show "x = (x AND m) XOR (x AND NOT m)" by (rule bit_eqI) (auto simp: bit_xor_iff bit_and_iff bit_not_iff)
  show "\<not> bit (x AND NOT m) i" if "i < 8" for i using that by (simp add: bit_and_iff bit_not_iff assms)
  show "drop_bit 8 (x AND NOT m) = drop_bit 8 x"
    by (rule bit_eqI) (auto simp: bit_drop_bit_eq bit_and_iff bit_not_iff assms dest: bit_imp_le_length)
qed

lemma bit_255: "bit (0xff :: 32 word) i \<longleftrightarrow> i < 8"
proof -
  have "(0xff :: 32 word) = mask 8" by (simp add: mask_eq_exp_minus_1)
  then show ?thesis by (simp only: bit_mask_iff) auto
qed

lemma drop_byte: "drop_bit 8 (c XOR ucast b) = drop_bit 8 c" for c :: "32 word" and b :: "8 word"
  by (rule bit_eqI) (auto simp: bit_drop_bit_eq bit_xor_iff bit_ucast_iff dest: bit_imp_le_length)

text \<open>One lookup in the table does what eight shifts of the whole register do.\<close>

lemma crc_step_bitwise: "crc_step b c = (crc_shift ^^ 8) (c XOR ucast b)"
proof -
  let ?x = "c XOR ucast b"
  have "(crc_shift ^^ 8) ?x = (crc_shift ^^ 8) (?x AND 0xff) XOR (crc_shift ^^ 8) (?x AND NOT 0xff)"
    using split_low(1) [OF bit_255, of ?x] crc_shifts_xor by metis
  also have "(crc_shift ^^ 8) (?x AND NOT 0xff) = drop_bit 8 c"
    using crc_shifts_high [OF split_low(2) [OF bit_255]] split_low(3) [OF bit_255] drop_byte by metis
  finally show ?thesis by (simp only: crc_step_def crc_entry)
qed

text \<open>The reference: a feedback register that takes one message bit at a time, the lowest bit first.\<close>

definition crc_bit :: "bool \<Rightarrow> crc \<Rightarrow> crc" where
  "crc_bit b c = (if bit c 0 \<noteq> b then 0xedb88320 else 0) XOR drop_bit 1 c"

definition crc_register :: "bool list \<Rightarrow> crc" where
  "crc_register bs = fold crc_bit bs 0xffffffff XOR 0xffffffff"

definition message_bits :: "buffer \<Rightarrow> bool list" where
  "message_bits buf = concat (map (\<lambda>b. map (bit b) [0..<8]) buf)"

lemma crc_bit_shift: "crc_bit b c = crc_shift (c XOR of_bool b)"
proof -
  have "drop_bit 1 (of_bool b :: crc) = 0" by (rule bit_eqI) (auto simp: bit_drop_bit_eq bit_1_iff)
  then show ?thesis by (cases b) (simp_all add: crc_bit_def crc_shift_bit bit_xor_iff)
qed

lemma crc_shifts_power:
  assumes "n < 32"
  shows "(crc_shift ^^ n) (push_bit n (of_bool b)) = of_bool b"
proof -
  have "(crc_shift ^^ n) (push_bit n (of_bool b :: crc)) = drop_bit n (push_bit n (of_bool b))"
    by (rule crc_shifts_high) (simp add: bit_push_bit_iff)
  also have "\<dots> = of_bool b"
    using assms by (intro bit_eqI) (auto simp: bit_drop_bit_eq bit_push_bit_iff bit_1_iff)
  finally show ?thesis .
qed

lemma take_bit_Suc_xor: "take_bit (Suc n) x = take_bit n x XOR push_bit n (of_bool (bit x n))" for x :: crc
  by (rule bit_eqI) (auto simp: bit_xor_iff bit_take_bit_iff bit_push_bit_iff bit_1_iff less_Suc_eq)

lemma crc_bits_shifts: "n \<le> 32 \<Longrightarrow> fold crc_bit (map (bit x) [0..<n]) c = (crc_shift ^^ n) (c XOR take_bit n x)"
  for x :: crc
proof (induction n)
  case (Suc n)
  let ?p = "push_bit n (of_bool (bit x n)) :: crc"
  have "fold crc_bit (map (bit x) [0..<Suc n]) c = crc_bit (bit x n) (fold crc_bit (map (bit x) [0..<n]) c)" by simp
  also have "\<dots> = crc_shift ((crc_shift ^^ n) (c XOR take_bit n x) XOR of_bool (bit x n))"
    using Suc.IH Suc.prems unfolding crc_bit_shift [of "bit x n"] by simp
  also have "\<dots> = crc_shift ((crc_shift ^^ n) ((c XOR take_bit n x) XOR ?p))"
    using Suc.prems by (simp add: crc_shifts_xor crc_shifts_power)
  also have "\<dots> = (crc_shift ^^ Suc n) (c XOR take_bit (Suc n) x)"
    by (simp add: take_bit_Suc_xor xor.assoc)
  finally show ?case .
qed simp

lemma crc_step_register: "crc_step b c = fold crc_bit (map (bit b) [0..<8]) c"
proof -
  have "map (bit b) [0..<8] = map (bit (ucast b :: crc)) [0..<8]" by (simp add: bit_ucast_iff)
  moreover have "take_bit 8 (ucast b) = (ucast b :: crc)"
    by (rule bit_eqI) (auto simp: bit_take_bit_iff bit_ucast_iff dest: bit_imp_le_length)
  ultimately show ?thesis by (simp only: crc_step_bitwise crc_bits_shifts)
qed

lemma crc32_register: "crc32 buf = crc_register (message_bits buf)"
proof -
  have "fold crc_step buf c = fold crc_bit (message_bits buf) c" for c
    by (induction buf arbitrary: c) (simp_all add: message_bits_def crc_step_register del: upt_rec_numeral)
  then show ?thesis by (simp add: crc32_def crc_register_def)
qed

lemma crc_shift_top: "bit (crc_shift c) 31 \<longleftrightarrow> bit c 0"
proof -
  have "bit (0xedb88320 :: 32 word) 31" by simp
  moreover have "\<not> bit (drop_bit 1 c) 31" using bit_imp_le_length [of c 32] by (auto simp: bit_drop_bit_eq)
  ultimately show ?thesis by (simp add: crc_shift_bit bit_xor_iff)
qed

lemma xor_left_cancel: "(c XOR a = c XOR b) = (a = b)" for a b c :: "'a::len word"
  by (metis xor.assoc xor.left_neutral xor_self_eq)

lemma crc_shift_inj: "crc_shift x = crc_shift y \<longleftrightarrow> x = y"
proof
  assume e: "crc_shift x = crc_shift y"
  then have z: "bit x 0 = bit y 0" by (metis crc_shift_top)
  with e have d: "drop_bit 1 x = drop_bit 1 y" unfolding crc_shift_bit by (simp only: xor_left_cancel)
  show "x = y"
  proof (rule bit_eqI)
    fix n
    show "bit x n \<longleftrightarrow> bit y n"
    proof (cases n)
      case (Suc m)
      with d show ?thesis by (metis bit_drop_bit_eq comp_apply plus_1_eq_Suc)
    qed (use z in simp)
  qed
qed simp

lemma crc_shifts_inj: "(crc_shift ^^ n) x = (crc_shift ^^ n) y \<longleftrightarrow> x = y"
  by (induction n) (simp_all add: crc_shift_inj)

lemma crc_step_inj: "crc_step b x = crc_step b y \<longleftrightarrow> x = y" "crc_step a c = crc_step b c \<longleftrightarrow> a = b"
proof -
  show "crc_step b x = crc_step b y \<longleftrightarrow> x = y"
    unfolding crc_step_bitwise crc_shifts_inj by (metis xor.commute xor_left_cancel)
  have "ucast a = (ucast b :: 32 word) \<longleftrightarrow> a = b"
  proof
    assume "ucast a = (ucast b :: 32 word)"
    then have "ucast (ucast a :: 32 word) = (ucast (ucast b :: 32 word) :: 8 word)" by simp
    then show "a = b" by (simp add: ucast_up_ucast_id is_up)
  qed simp
  then show "crc_step a c = crc_step b c \<longleftrightarrow> a = b"
    unfolding crc_step_bitwise crc_shifts_inj xor_left_cancel .
qed

lemma crc_fold_inj: "fold crc_step ys x = fold crc_step ys y \<longleftrightarrow> x = y"
  by (induction ys arbitrary: x y) (simp_all add: crc_step_inj)

section \<open>Fields\<close>

definition field_bytes :: "(nat \<times> nat) list \<Rightarrow> buffer" where
  "field_bytes fs = concat (map (\<lambda>(w, v). le_bytes w v) fs)"

definition fields_fit :: "(nat \<times> nat) list \<Rightarrow> bool" where
  "fields_fit fs \<longleftrightarrow> list_all (\<lambda>(w, v). v < 256 ^ w) fs"

lemma length_le_bytes [simp]: "length (le_bytes w v) = w"
  by (induction w arbitrary: v) simp_all

lemma le_value_bytes: "v < 256 ^ w \<Longrightarrow> le_value (le_bytes w v) = v"
proof (induction w arbitrary: v)
  case (Suc w)
  then have "v div 256 < 256 ^ w" by (simp add: less_mult_imp_div_less mult.commute)
  with Suc.IH show ?case by (simp add: unat_of_nat)
qed simp

lemma writeUIntLE_Inr: "writeUIntLE fs = Inr bs \<longleftrightarrow> fields_fit fs \<and> bs = field_bytes fs"
  by (induction fs arbitrary: bs rule: writeUIntLE.induct)
    (auto simp: fields_fit_def field_bytes_def ebind_Inr not_le)

lemma length_field_bytes: "length (field_bytes fs) = sum_list (map fst fs)"
  by (induction fs) (auto simp: field_bytes_def)

lemma read_field:
  assumes "fields_fit fs" and "i < length fs"
  shows "readUIntLE (fst (fs ! i)) (pre @ field_bytes fs @ post) (length pre + sum_list (map fst (take i fs))) = Inr (snd (fs ! i))"
proof -
  obtain w v where wv: "fs ! i = (w, v)" by (cases "fs ! i")
  have f: "fs = take i fs @ (w, v) # drop (Suc i) fs" using assms(2) wv by (metis id_take_nth_drop)
  then have "field_bytes fs = field_bytes (take i fs) @ le_bytes w v @ field_bytes (drop (Suc i) fs)"
    unfolding field_bytes_def by (metis (mono_tags, lifting) concat.simps(2) concat_append list.simps(9) map_append split_conv)
  moreover have "v < 256 ^ w" using assms wv by (force simp: fields_fit_def list_all_length)
  ultimately show ?thesis
    by (simp add: readUIntLE_def wv le_value_bytes flip: length_field_bytes)
qed

lemma subarray_middle [simp]: "subarray (pre @ xs @ post) (length pre) (length pre + length xs) = xs"
  by (simp add: subarray_def)

section \<open>Headers\<close>

lemma unat_crc: "unat (c :: crc) < 256 ^ 4"
  using unsigned_less [of c] by simp

lemma field_lengths [simp]:
  "length (field_bytes (local_fields c n l)) = 30"
  "length (field_bytes (central_fields c n l m off)) = 46"
  "length (field_bytes (eocd_fields k sz off)) = 22"
  by (simp_all add: length_field_bytes local_fields_def central_fields_def eocd_fields_def)

definition mode_of :: "nat option \<Rightarrow> nat" where
  "mode_of m = (case m of None \<Rightarrow> 0x81A4 | Some k \<Rightarrow> k) mod 0x10000"

definition central_of :: "js_text \<Rightarrow> buffer \<Rightarrow> nat option \<Rightarrow> nat \<Rightarrow> nat \<Rightarrow> central_entry" where
  "central_of name dat mode off cursor =
     \<lparr>ce_method = 0, ce_crc = unat (crc32 dat), ce_compressedSize = length dat, ce_uncompressedSize = length dat,
      ce_unixMode = mode_of mode, ce_localOffset = off, ce_name = name, ce_next = cursor + 46 + length (to_utf8 name)\<rparr>"

lemma read_central_written:
  assumes "fields_fit (central_fields (crc32 dat) (length dat) (length (to_utf8 name)) mode off)" and "wf_text name"
  shows "read_central (pre @ field_bytes (central_fields (crc32 dat) (length dat) (length (to_utf8 name)) mode off) @ to_utf8 name @ post) (length pre)
    = Inr (central_of name dat mode off (length pre))"
proof -
  let ?fs = "central_fields (crc32 dat) (length dat) (length (to_utf8 name)) mode off"
  let ?buf = "pre @ field_bytes ?fs @ to_utf8 name @ post"
  note rd = read_field [OF assms(1), of _ pre "to_utf8 name @ post"]
  have "readUIntLE 4 ?buf (length pre) = Inr CENTRAL_SIG" "readUIntLE 2 ?buf (length pre + 10) = Inr 0"
    "readUIntLE 4 ?buf (length pre + 16) = Inr (unat (crc32 dat))" "readUIntLE 4 ?buf (length pre + 20) = Inr (length dat)"
    "readUIntLE 4 ?buf (length pre + 24) = Inr (length dat)" "readUIntLE 2 ?buf (length pre + 28) = Inr (length (to_utf8 name))"
    "readUIntLE 2 ?buf (length pre + 30) = Inr 0" "readUIntLE 2 ?buf (length pre + 32) = Inr 0"
    "readUIntLE 4 ?buf (length pre + 38) = Inr (mode_of mode * 0x10000)" "readUIntLE 4 ?buf (length pre + 42) = Inr off"
    using rd [of 0] rd [of 4] rd [of 7] rd [of 8] rd [of 9] rd [of 10] rd [of 11] rd [of 12] rd [of 15] rd [of 16]
    by (simp_all add: central_fields_def mode_of_def)
  moreover have "subarray ?buf (length pre + 46) (length pre + 46 + length (to_utf8 name)) = to_utf8 name"
    using subarray_middle [of "pre @ field_bytes ?fs" "to_utf8 name" post] by simp
  ultimately show ?thesis using assms(2)
    by (simp add: read_central_def central_of_def mode_of_def)
qed

lemma read_data_written:
  assumes "fields_fit (local_fields (crc32 dat) (length dat) (length (to_utf8 name)))" and "wf_text name"
    and "length pre = off"
  shows "read_data inflate (pre @ field_bytes (local_fields (crc32 dat) (length dat) (length (to_utf8 name))) @ to_utf8 name @ dat @ post)
    (central_of name dat mode off cursor) = Inr dat"
proof -
  let ?fs = "local_fields (crc32 dat) (length dat) (length (to_utf8 name))"
  let ?buf = "pre @ field_bytes ?fs @ to_utf8 name @ dat @ post"
  note rd = read_field [OF assms(1), of _ pre "to_utf8 name @ dat @ post"]
  have "readUIntLE 4 ?buf (length pre) = Inr LOCAL_SIG" "readUIntLE 2 ?buf (length pre + 26) = Inr (length (to_utf8 name))"
    "readUIntLE 2 ?buf (length pre + 28) = Inr 0"
    using rd [of 0] rd [of 9] rd [of 10] by (simp_all add: local_fields_def)
  moreover have "subarray ?buf (length pre + 30) (length pre + 30 + length (to_utf8 name)) = to_utf8 name"
    using subarray_middle [of "pre @ field_bytes ?fs" "to_utf8 name" "dat @ post"] by simp
  moreover have "subarray ?buf (length pre + 30 + length (to_utf8 name)) (length pre + 30 + length (to_utf8 name) + length dat) = dat"
    using subarray_middle [of "pre @ field_bytes ?fs @ to_utf8 name" dat post] by (simp add: add.assoc)
  ultimately show ?thesis using assms(2,3)
    by (simp add: read_data_def central_of_def Let_def)
qed

section \<open>Reading what was written\<close>

definition entry_of :: "zip_input \<Rightarrow> zip_entry" where
  "entry_of e = \<lparr>ze_name = zi_name e, ze_data = zi_data e,
     ze_mode = (if mode_of (zi_mode e) = 0 then 0x81A4 else mode_of (zi_mode e))\<rparr>"

definition input_ok :: "zip_input \<Rightarrow> bool" where
  "input_ok e \<longleftrightarrow> wf_text (zi_name e) \<and> assertSafeName (zi_name e) = Inr () \<and> mode_of (zi_mode e) div 0x1000 \<noteq> 0xa"

lemma write_entries_Cons:
  "write_entries (e # es) off = Inr (l, c, off') \<longleftrightarrow>
     (\<exists>ls cs. length (to_utf8 (zi_name e)) \<le> 0xffff
        \<and> fields_fit (local_fields (crc32 (zi_data e)) (length (zi_data e)) (length (to_utf8 (zi_name e))))
        \<and> fields_fit (central_fields (crc32 (zi_data e)) (length (zi_data e)) (length (to_utf8 (zi_name e))) (zi_mode e) off)
        \<and> write_entries es (off + 30 + length (to_utf8 (zi_name e)) + length (zi_data e)) = Inr (ls, cs, off')
        \<and> l = field_bytes (local_fields (crc32 (zi_data e)) (length (zi_data e)) (length (to_utf8 (zi_name e))))
              @ to_utf8 (zi_name e) @ zi_data e @ ls
        \<and> c = field_bytes (central_fields (crc32 (zi_data e)) (length (zi_data e)) (length (to_utf8 (zi_name e))) (zi_mode e) off)
              @ to_utf8 (zi_name e) @ cs)"
  by (auto simp: Let_def ebind_Inr writeUIntLE_Inr add.assoc not_less)

lemma write_entries_offset: "write_entries es off = Inr (l, c, off') \<Longrightarrow> off' = off + length l"
proof (induction es arbitrary: off l c)
  case (Cons e es)
  from Cons.prems [unfolded write_entries_Cons] show ?case by (auto dest!: Cons.IH)
qed simp

lemma read_written:
  assumes "write_entries es (length pre) = Inr (l, c, off')"
    and "list_all input_ok es" and "distinct (map (key \<circ> zi_name) es)" and "\<forall>e\<in>set es. map_of seen (key (zi_name e)) = None"
    and "ttl + sum_list (map (length \<circ> zi_data) es) \<le> maxTotalUncompressed limits"
  shows "read_entries key inflate limits (pre @ l @ mid @ c @ post) (length es) seen ttl (length pre + length l + length mid)
    = Inr (map entry_of es)"
  using assms
proof (induction es arbitrary: pre l c mid seen ttl)
  case (Cons e es)
  let ?n = "to_utf8 (zi_name e)" and ?d = "zi_data e"
  let ?lf = "field_bytes (local_fields (crc32 ?d) (length ?d) (length ?n))"
  let ?cf = "field_bytes (central_fields (crc32 ?d) (length ?d) (length ?n) (zi_mode e) (length pre))"
  from Cons.prems(1) obtain ls cs where
    w: "fields_fit (local_fields (crc32 ?d) (length ?d) (length ?n))"
      "fields_fit (central_fields (crc32 ?d) (length ?d) (length ?n) (zi_mode e) (length pre))"
      "write_entries es (length (pre @ ?lf @ ?n @ ?d)) = Inr (ls, cs, off')"
    and l: "l = ?lf @ ?n @ ?d @ ls" and c: "c = ?cf @ ?n @ cs"
    unfolding write_entries_Cons by (auto simp: add.assoc)
  let ?cur = "length pre + length l + length mid"
  let ?ce = "central_of (zi_name e) ?d (zi_mode e) (length pre) ?cur"
  have e: "wf_text (zi_name e)" "assertSafeName (zi_name e) = Inr ()" "mode_of (zi_mode e) div 0x1000 \<noteq> 0xa"
    using Cons.prems(2) by (simp_all add: input_ok_def)
  have rc: "read_central (pre @ l @ mid @ c @ post) ?cur = Inr ?ce"
    using read_central_written [OF w(2) e(1), of "pre @ l @ mid" "cs @ post"] by (simp add: c add.assoc)
  have rdata: "read_data inflate (pre @ l @ mid @ c @ post) ?ce = Inr ?d"
    using read_data_written [OF w(1) e(1) refl, of inflate pre "ls @ mid @ c @ post"] by (simp add: l)
  have ck: "check_central key limits seen ttl ?ce = Inr ()"
    using e Cons.prems(4,5) by (simp add: check_central_def central_of_def Let_def)
  have "read_entries key inflate limits ((pre @ ?lf @ ?n @ ?d) @ ls @ (mid @ ?cf @ ?n) @ cs @ post) (length es)
      ((key (zi_name e), zi_name e) # seen) (ttl + length ?d)
      (length (pre @ ?lf @ ?n @ ?d) + length ls + length (mid @ ?cf @ ?n)) = Inr (map entry_of es)"
    using Cons.prems by (intro Cons.IH [OF w(3)]) (auto simp: image_iff)
  then have "read_entries key inflate limits (pre @ l @ mid @ c @ post) (length es)
      ((key (zi_name e), zi_name e) # seen) (ttl + length ?d) (?cur + 46 + length ?n) = Inr (map entry_of es)"
    by (simp add: l c algebra_simps)
  then show ?case
    by (simp add: rc ck rdata) (simp add: central_of_def entry_of_def)
qed simp

lemma scan_eocd_last:
  "fields_fit (eocd_fields k sz off) \<Longrightarrow>
     scan_eocd (xs @ field_bytes (eocd_fields k sz off)) (Suc n) (length xs) = Inr (Some (length xs))"
  using read_field [of "eocd_fields k sz off" 0 xs "[]"] by (simp add: eocd_fields_def)

lemma readZip_written:
  assumes "writeZip entries = Inr buf" and "list_all input_ok entries" and "distinct (map (key \<circ> zi_name) entries)"
    and "sum_list (map (length \<circ> zi_data) entries) \<le> maxTotalUncompressed limits" and "length entries \<le> maxEntries limits"
  shows "readZip key inflate buf limits = Inr (map entry_of (sort_key zi_name entries))"
proof -
  let ?es = "sort_key zi_name entries"
  from assms(1) obtain l c off where w: "write_entries ?es 0 = Inr (l, c, off)"
    and f: "fields_fit (eocd_fields (length entries) (length c) off)"
    and buf: "buf = l @ c @ field_bytes (eocd_fields (length entries) (length c) off)"
    by (auto simp: writeZip_def Let_def ebind_Inr writeUIntLE_Inr)
  let ?fs = "eocd_fields (length entries) (length c) off"
  have off: "off = length l" using write_entries_offset [OF w] by simp
  have m: "mset ?es = mset entries" by simp
  have ok: "list_all input_ok ?es" using assms(2) by (simp add: list_all_iff)
  have d: "distinct (map (key \<circ> zi_name) ?es)" using assms(3) by (metis m mset_map distinct_count_atmost_1 mset_eq_imp_distinct_iff)
  have s: "sum_list (map (length \<circ> zi_data) ?es) = sum_list (map (length \<circ> zi_data) entries)"
    by (metis m mset_map sum_mset_sum_list)
  have "read_entries key inflate limits ([] @ l @ [] @ c @ field_bytes ?fs) (length ?es) [] 0 (length [] + length l + length [])
      = Inr (map entry_of ?es)"
    using read_written [of ?es "[]" l c off key "[]" 0 limits inflate "[]" "field_bytes ?fs"] w ok d s assms(4) by simp
  then have rd: "read_entries key inflate limits buf (length entries) [] 0 off = Inr (map entry_of ?es)"
    by (simp add: buf off)
  note rf = read_field [OF f, of _ "l @ c" "[]"]
  have r: "readUIntLE 2 buf (length l + length c + 10) = Inr (length entries)"
    "readUIntLE 4 buf (length l + length c + 12) = Inr (length c)" "readUIntLE 4 buf (length l + length c + 16) = Inr off"
    using rf [of 4] rf [of 5] rf [of 6] by (simp_all add: buf eocd_fields_def)
  have "scan_eocd buf (length buf - 22 - (length buf - 22 - 0xffff) + 1) (length buf - 22) = Inr (Some (length l + length c))"
    using scan_eocd_last [OF f, of "l @ c"] by (simp add: buf)
  with r rd assms(5) show ?thesis by (simp add: readZip_def buf off)
qed

section \<open>What the reader accepts\<close>

lemma read_no_range: "i + w \<le> length buf \<Longrightarrow> \<exists>v. readUIntLE w buf i = Inr v"
  by (simp add: readUIntLE_def)

lemma scan_eocd_range: "i + 4 \<le> length buf \<Longrightarrow> scan_eocd buf k i \<noteq> Inl e"
  by (induction k arbitrary: i) (auto simp: readUIntLE_def)

lemma scan_eocd_bound: "scan_eocd buf k i = Inr (Some j) \<Longrightarrow> j \<le> i"
  by (induction k arbitrary: i) (fastforce simp: ebind_Inr split: if_splits)+

lemma read_central_error: "read_central buf cursor = Inl e \<Longrightarrow> \<exists>r n. e = ArchiveUnsafeError r n"
  by (auto simp: read_central_def readUIntLE_def throw_if_def split: if_splits)

lemma assertSafeName_error: "assertSafeName name = Inl e \<Longrightarrow> \<exists>r n. e = ArchiveUnsafeError r n"
  by (auto simp: assertSafeName_def throw_if_def split: if_splits option.splits)

lemma ebind_Inl: "ebind x f = Inl e \<longleftrightarrow> x = Inl e \<or> (\<exists>a. x = Inr a \<and> f a = Inl e)"
  by (cases x) auto

lemma check_central_error: "check_central key limits seen ttl c = Inl e \<Longrightarrow> \<exists>r n. e = ArchiveUnsafeError r n"
  by (auto simp: check_central_def throw_if_def Let_def ebind_Inl dest: assertSafeName_error split: if_splits option.splits)

lemma read_data_error: "read_data inflate buf c = Inl e \<Longrightarrow> \<exists>r n. e = ArchiveUnsafeError r n"
  by (auto simp: read_data_def readUIntLE_def throw_if_def Let_def ebind_Inl split: if_splits option.splits)

lemma read_entries_error:
  "read_entries key inflate limits buf n seen ttl cursor = Inl e \<Longrightarrow> \<exists>r n. e = ArchiveUnsafeError r n"
  by (induction n arbitrary: seen ttl cursor)
    (auto simp: ebind_Inl dest: read_central_error check_central_error read_data_error)

lemma readZip_error:
  assumes "readZip key inflate buf limits = Inl e"
  shows "\<exists>r n. e = ArchiveUnsafeError r n"
proof (cases "length buf < 22")
  case True
  with assms show ?thesis by (auto simp: readZip_def)
next
  case False
  let ?s = "scan_eocd buf (length buf - 22 - (length buf - 22 - 0xffff) + 1) (length buf - 22)"
  have "?s \<noteq> Inl x" for x using False by (intro scan_eocd_range) simp
  then obtain found where s: "?s = Inr found" by (metis old.sum.exhaust)
  show ?thesis
  proof (cases found)
    case None
    with s False assms show ?thesis by (auto simp: readZip_def Let_def)
  next
    case (Some j)
    with s have "j + 22 \<le> length buf" using scan_eocd_bound False by fastforce
    then obtain k sz off where "readUIntLE 2 buf (j + 10) = Inr k" "readUIntLE 4 buf (j + 12) = Inr sz"
      "readUIntLE 4 buf (j + 16) = Inr off"
      by (simp add: readUIntLE_def)
    with s False Some assms show ?thesis
      by (auto simp: readZip_def Let_def throw_if_def dest: read_entries_error split: if_splits)
  qed
qed

lemma read_data_length:
  "read_data inflate buf c = Inr d \<Longrightarrow> length d = ce_uncompressedSize c \<and> unat (crc32 d) = ce_crc c"
  by (auto simp: read_data_def Let_def ebind_Inr split: if_splits option.splits)

lemma check_central_Inr:
  "check_central key limits seen ttl c = Inr u \<Longrightarrow>
     assertSafeName (ce_name c) = Inr () \<and> ce_unixMode c div 0x1000 \<noteq> 0xa \<and> map_of seen (key (ce_name c)) = None
     \<and> ttl + ce_uncompressedSize c \<le> maxTotalUncompressed limits"
  by (auto simp: check_central_def Let_def ebind_Inr split: option.splits)

lemma read_entries_safe:
  assumes "read_entries key inflate limits buf n seen ttl cursor = Inr es" and "ttl \<le> maxTotalUncompressed limits"
  shows "length es = n \<and> list_all (\<lambda>e. assertSafeName (ze_name e) = Inr () \<and> ze_mode e div 0x1000 \<noteq> 0xa) es
    \<and> distinct (map (key \<circ> ze_name) es) \<and> (\<forall>e\<in>set es. map_of seen (key (ze_name e)) = None)
    \<and> ttl + sum_list (map (length \<circ> ze_data) es) \<le> maxTotalUncompressed limits"
  using assms
proof (induction n arbitrary: seen ttl cursor es)
  case (Suc n)
  from Suc.prems(1) obtain c d es' where
    c: "check_central key limits seen ttl c = Inr ()" "read_data inflate buf c = Inr d"
    and es': "read_entries key inflate limits buf n ((key (ce_name c), ce_name c) # seen) (ttl + ce_uncompressedSize c) (ce_next c) = Inr es'"
    and es: "es = \<lparr>ze_name = ce_name c, ze_data = d, ze_mode = (if ce_unixMode c = 0 then 0x81A4 else ce_unixMode c)\<rparr> # es'"
    by (auto simp: ebind_Inr)
  from Suc.IH [OF es'] check_central_Inr [OF c(1)] read_data_length [OF c(2)] show ?case
    by (auto simp: es split: if_splits)
qed simp

lemma assertSafeName_Inr:
  assumes "assertSafeName name = Inr ()"
  shows "name \<noteq> [] \<and> length name \<le> 1024 \<and> 0 \<notin> set name \<and> ascii (CHR 0x5C) \<notin> set name
     \<and> hd name \<noteq> ascii CHR ''/'' \<and> \<not> drive_letter name
     \<and> set (split_on (ascii CHR ''/'') name) \<inter> {[], [ascii CHR ''.''], [ascii CHR ''.'', ascii CHR ''.'']} = {}"
  using assms
  by (auto simp: assertSafeName_def DEFAULT_ZIP_LIMITS_def find_None_iff not_less split: option.splits)

end
