(* ===== verification/ZipProperties.thy ===== *)
theory ZipProperties
  imports ZipFacts
begin

text \<open>
  Properties of the ZIP container: reading gives back what was written, what the reader accepts is
  safe to extract, it fails only with its own error, and its checksum detects a changed byte.
\<close>

text \<open>C12: Export and import are inverse. When the writer succeeds on entries with safe, well-formed names
  that do not collide, within the reader's limits, the reader returns exactly these entries, sorted by
  name, whatever the decompressor does.\<close>

theorem zip_roundtrip:
  assumes "writeZip entries = Inr buf"
    and "\<forall>e\<in>set entries. wf_text (zi_name e) \<and> assertSafeName (zi_name e) = Inr () \<and> mode_of (zi_mode e) div 0x1000 \<noteq> 0xa"
    and "distinct (map (key \<circ> zi_name) entries)"
    and "sum_list (map (length \<circ> zi_data) entries) \<le> maxTotalUncompressed limits"
    and "length entries \<le> maxEntries limits"
  shows "readZip key inflate buf limits
    = Inr (map (\<lambda>e. \<lparr>ze_name = zi_name e, ze_data = zi_data e,
        ze_mode = (if mode_of (zi_mode e) = 0 then 0x81A4 else mode_of (zi_mode e))\<rparr>) (sort_key zi_name entries))"
  using readZip_written [OF assms(1) _ assms(3-5)] assms(2)
  by (simp add: list_all_iff input_ok_def entry_of_def [abs_def])

definition sample_entries :: "zip_input list" where
  "sample_entries = [\<lparr>zi_name = [0x62], zi_data = [1], zi_mode = None\<rparr>, \<lparr>zi_name = [0x61], zi_data = [], zi_mode = Some 0x81ED\<rparr>]"

lemma sample_sorted:
  "sort_key zi_name sample_entries =
     [\<lparr>zi_name = [0x61], zi_data = [], zi_mode = Some 0x81ED\<rparr>, \<lparr>zi_name = [0x62], zi_data = [1], zi_mode = None\<rparr>]"
  by (simp add: sample_entries_def)

lemma sample_utf8: "to_utf8 [0x61] = [0x61]" "to_utf8 [0x62] = [0x62]"
  by (simp_all add: to_utf8_def utf8_point_def high_surrogate_def low_surrogate_def)

lemma sample_written: "\<exists>buf. writeZip sample_entries = Inr buf"
  using unat_crc
  by (simp add: writeZip_def sample_sorted sample_utf8 Let_def local_fields_def central_fields_def eocd_fields_def
      LOCAL_SIG_def CENTRAL_SIG_def EOCD_SIG_def leD throw_if_def not_le)

lemma sample_names:
  "assertSafeName [0x61] = Inr ()" "assertSafeName [0x62] = Inr ()" "wf_text [0x61]" "wf_text [0x62]"
  by (simp_all add: assertSafeName_def DEFAULT_ZIP_LIMITS_def drive_letter_def ascii_def wf_text_def high_surrogate_def low_surrogate_def)

lemma sample_read:
  "\<exists>es. readZip id (\<lambda>_ _. None) (projr (writeZip sample_entries)) DEFAULT_ZIP_LIMITS = Inr es \<and> length es = 2"
proof -
  obtain buf where b: "writeZip sample_entries = Inr buf" using sample_written by blast
  show ?thesis
    using readZip_written [OF b, of id DEFAULT_ZIP_LIMITS "\<lambda>_ _. None"] sample_names b unfolding sample_sorted
    by (simp add: sample_entries_def DEFAULT_ZIP_LIMITS_def mode_of_def input_ok_def)
qed

theorem zip_roundtrip_witness:
  "map_sum id (map ze_data) (readZip id (\<lambda>_ _. None) (projr (writeZip sample_entries)) DEFAULT_ZIP_LIMITS) = Inr [[], [1]]"
proof -
  obtain buf where b: "writeZip sample_entries = Inr buf" using sample_written by blast
  show ?thesis
    using zip_roundtrip [OF b, of id DEFAULT_ZIP_LIMITS "\<lambda>_ _. None"] sample_names b unfolding sample_sorted
    by (simp add: sample_entries_def DEFAULT_ZIP_LIMITS_def mode_of_def)
qed

text \<open>C13: What the reader accepts is safe to extract. Accepted entries have relative names without NUL,
  backslash, drive letter, empty, dot or dot-dot segments, none is a symbolic link, no two names
  collide under the given key, and their number and total size stay within the limits.\<close>

theorem readZip_safe:
  assumes "readZip key inflate buf limits = Inr es"
  shows "length es \<le> maxEntries limits \<and> sum_list (map (length \<circ> ze_data) es) \<le> maxTotalUncompressed limits
     \<and> distinct (map (key \<circ> ze_name) es)
     \<and> (\<forall>e\<in>set es. ze_name e \<noteq> [] \<and> length (ze_name e) \<le> 1024 \<and> 0 \<notin> set (ze_name e)
          \<and> ascii (CHR 0x5C) \<notin> set (ze_name e) \<and> hd (ze_name e) \<noteq> ascii CHR ''/'' \<and> \<not> drive_letter (ze_name e)
          \<and> set (split_on (ascii CHR ''/'') (ze_name e)) \<inter> {[], [ascii CHR ''.''], [ascii CHR ''.'', ascii CHR ''.'']} = {}
          \<and> ze_mode e div 0x1000 \<noteq> 0xa)"
proof -
  from assms obtain n off where n: "n \<le> maxEntries limits" "read_entries key inflate limits buf n [] 0 off = Inr es"
    by (auto simp: readZip_def Let_def ebind_Inr not_less simp del: scan_eocd.simps split: option.splits)
  from read_entries_safe [OF n(2)] have s: "length es = n" "distinct (map (key \<circ> ze_name) es)"
    "sum_list (map (length \<circ> ze_data) es) \<le> maxTotalUncompressed limits"
    "\<And>e. e \<in> set es \<Longrightarrow> assertSafeName (ze_name e) = Inr () \<and> ze_mode e div 0x1000 \<noteq> 0xa"
    by (simp_all add: list_all_iff)
  show ?thesis using n(1) s assertSafeName_Inr by blast
qed

theorem readZip_safe_witness:
  "\<exists>es. readZip id (\<lambda>_ _. None) (projr (writeZip sample_entries)) DEFAULT_ZIP_LIMITS = Inr es \<and> length es = 2
     \<and> distinct (map ze_name es)"
proof -
  obtain es where "readZip id (\<lambda>_ _. None) (projr (writeZip sample_entries)) DEFAULT_ZIP_LIMITS = Inr es" "length es = 2"
    using sample_read by blast
  with readZip_safe [OF this(1)] show ?thesis by simp
qed

text \<open>The reader fails only with its own error. Whatever the bytes, no read outside the buffer
  happens: every failure is \<open>ARCHIVE_UNSAFE\<close>, never a range error.\<close>

lemma readZip_total: "readZip key inflate buf limits \<noteq> Inl RangeError"
  using readZip_error by blast

text \<open>C34: The table-driven checksum is the CRC-32 of the message, as the bitwise feedback register
  computes it, and it tells two buffers apart that differ in one byte.\<close>

theorem crc32_correct:
  "crc32 buf = crc_register (message_bits buf)
   \<and> (crc32 (xs @ a # ys) = crc32 (xs @ b # ys) \<longleftrightarrow> a = b)"
proof
  show "crc32 buf = crc_register (message_bits buf)" by (rule crc32_register)
  have "x XOR m = y XOR m \<longleftrightarrow> x = y" for x y m :: crc by (metis xor.commute xor_left_cancel)
  then show "crc32 (xs @ a # ys) = crc32 (xs @ b # ys) \<longleftrightarrow> a = b"
    by (simp add: crc32_def crc_fold_inj crc_step_inj)
qed

end
