(* ===== verification/Editor.thy ===== *)
theory Editor
  imports Validator
begin

text \<open>
  The graph editor of the browser (\<open>client/features/authoring/logic/graph/\<close>): its state and history
  (\<open>graph-types.ts\<close>, \<open>graph-history.ts\<close>), the admission of connections (\<open>graph-commands.ts\<close>,
  \<open>port-visibility.ts\<close>), the check and the export of layouts (\<open>clipboard.ts\<close>,
  \<open>graph-serialization.ts\<close>) and the commands of \<open>GraphEditor\<close> (\<open>graph-editor.ts\<close>).

  The history holds deep copies, so entries are values. Comparing the JSON texts of two states is
  comparing the states. Notifying listeners changes nothing and is left out. The random part of an
  identity is an argument; the process-wide counter behind it is a field of the state.
\<close>

section \<open>State\<close>

record node_attrs =
  na_ports :: "presentation_ports option"
  na_title :: "string option"
  na_collapsed :: "bool option"
  na_pinned :: "bool option"
  na_width :: "js_number option"
  na_height :: "js_number option"
  na_color :: "presentation_color option"

record editor_node =
  en_definition :: "graph_node option"
  en_id :: string
  en_kind :: node_kind
  en_label :: string
  en_x :: js_number
  en_y :: js_number
  en_inputs :: "string dict"
  en_outputs :: "string dict"
  en_presentation :: "node_attrs option"

record editor_edge =
  ee_id :: string
  ee_kind :: edge_kind
  ee_from :: string
  ee_to :: string
  ee_points :: "(js_number \<times> js_number) list option"

record editor_group =
  eg_id :: string
  eg_label :: string
  eg_nodeIds :: "string list"

datatype port_direction = PortIn | PortOut

record canvas_port =
  pt_nodeId :: string
  pt_port :: string
  pt_direction :: port_direction
  pt_type :: string
  pt_kind :: "edge_kind option"

record history_entry =
  he_definition :: "blueprint_definition option"
  he_nodes :: "editor_node list"
  he_edges :: "editor_edge list"
  he_groups :: "editor_group list"
  he_selection :: "string list"

datatype editor_error =
    PresentationInvalid | StaleSelection | MissingMeasurement | PinnedNode | InvalidPosition | NoDefinition
  | TransactionAsync | TransactionHistory | LayoutPending | ClipboardResourceConflict
  | PortVisibilityConnected nat | PortHidden | LayoutCollisionUnresolved

text \<open>\<open>gs_selection\<close> lists a \<open>Set\<close> in insertion order; the last element of a stack is its top.\<close>

record editor =
  gs_nodes :: "editor_node list"
  gs_edges :: "editor_edge list"
  gs_groups :: "editor_group list"
  gs_selection :: "string list"
  gs_definition :: "blueprint_definition option"
  gs_layoutBefore :: "history_entry option"
  gs_undo :: "history_entry list"
  gs_redo :: "history_entry list"
  gs_depth :: nat
  gs_sequence :: nat

type_synonym 'a command = "editor \<Rightarrow> (editor_error + 'a) \<times> editor"

definition find_node :: "editor \<Rightarrow> string \<Rightarrow> editor_node option" where
  "find_node s i = List.find (\<lambda>n. en_id n = i) (gs_nodes s)"

section \<open>History\<close>

definition HISTORY_CAP :: nat where "HISTORY_CAP = 100"

definition snapshotGraph :: "editor \<Rightarrow> history_entry" where
  "snapshotGraph s = \<lparr>he_definition = gs_definition s, he_nodes = gs_nodes s, he_edges = gs_edges s,
     he_groups = gs_groups s, he_selection = gs_selection s\<rparr>"

definition restoreGraph :: "history_entry \<Rightarrow> editor \<Rightarrow> editor" where
  "restoreGraph e s = s\<lparr>gs_definition := he_definition e, gs_nodes := he_nodes e, gs_edges := he_edges e,
     gs_groups := he_groups e, gs_selection := he_selection e\<rparr>"

text \<open>\<open>push\<close>, and \<open>shift\<close> when the stack has grown beyond the cap.\<close>

definition push_capped :: "history_entry \<Rightarrow> history_entry list \<Rightarrow> history_entry list" where
  "push_capped e xs = (let ys = xs @ [e] in if HISTORY_CAP < length ys then tl ys else ys)"

definition history_base :: "editor \<Rightarrow> history_entry" where
  "history_base s = (case gs_layoutBefore s of None \<Rightarrow> snapshotGraph s | Some e \<Rightarrow> e)"

definition pushHistory :: "editor \<Rightarrow> editor" where
  "pushHistory s =
     (if gs_depth s \<noteq> 0 then s
      else s\<lparr>gs_undo := push_capped (history_base s) (gs_undo s), gs_layoutBefore := None, gs_redo := []\<rparr>)"

definition entry_graph :: "history_entry \<Rightarrow> history_entry" where
  "entry_graph e = e\<lparr>he_selection := []\<rparr>"

definition commitTransaction :: "history_entry \<Rightarrow> history_entry option \<Rightarrow> history_entry \<Rightarrow> editor \<Rightarrow> editor" where
  "commitTransaction before pending after s =
     (let base = (case pending of None \<Rightarrow> before | Some p \<Rightarrow> p); s1 = s\<lparr>gs_layoutBefore := None\<rparr> in
      if entry_graph base \<noteq> entry_graph after
      then s1\<lparr>gs_undo := push_capped base (gs_undo s1), gs_redo := []\<rparr> else s1)"

definition undoGraph :: "bool command" where
  "undoGraph s =
     (if gs_depth s \<noteq> 0 then (Inl TransactionHistory, s)
      else if gs_layoutBefore s \<noteq> None then (Inl LayoutPending, s)
      else if gs_undo s = [] then (Inr False, s)
      else let s1 = s\<lparr>gs_undo := butlast (gs_undo s), gs_redo := gs_redo s @ [snapshotGraph s]\<rparr> in
           (Inr True, (restoreGraph (last (gs_undo s)) s1)\<lparr>gs_selection := []\<rparr>))"

definition redoGraph :: "bool command" where
  "redoGraph s =
     (if gs_depth s \<noteq> 0 then (Inl TransactionHistory, s)
      else if gs_layoutBefore s \<noteq> None then (Inl LayoutPending, s)
      else if gs_redo s = [] then (Inr False, s)
      else let s1 = s\<lparr>gs_redo := butlast (gs_redo s), gs_undo := gs_undo s @ [snapshotGraph s]\<rparr> in
           (Inr True, (restoreGraph (last (gs_redo s)) s1)\<lparr>gs_selection := []\<rparr>))"

section \<open>Ports\<close>

datatype port_side = ControlSide | InputSide | OutputSide

definition endpoint_of :: "edge_kind \<Rightarrow> string \<Rightarrow> string" where
  "endpoint_of k v = before_char (if k = DataEdge then CHR ''.'' else CHR ''@'') v"

definition connectedPortEdges :: "string \<Rightarrow> port_side \<Rightarrow> editor_edge list \<Rightarrow> nat" where
  "connectedPortEdges i side es = length (filter (\<lambda>e.
     case side of
       ControlSide \<Rightarrow> ee_kind e = ControlEdge \<and> (endpoint_of (ee_kind e) (ee_from e) = i \<or> endpoint_of (ee_kind e) (ee_to e) = i)
     | InputSide \<Rightarrow> ee_kind e = DataEdge \<and> endpoint_of (ee_kind e) (ee_to e) = i
     | OutputSide \<Rightarrow> ee_kind e = DataEdge \<and> endpoint_of (ee_kind e) (ee_from e) = i) es)"

definition branches_of :: "editor_node \<Rightarrow> string list" where
  "branches_of n = list_of (Option.bind (en_definition n) n_branches)"

definition preferred_side :: "presentation_ports \<Rightarrow> port_side \<Rightarrow> bool option" where
  "preferred_side p side = (case side of ControlSide \<Rightarrow> pp_control p | InputSide \<Rightarrow> pp_inputs p | OutputSide \<Rightarrow> pp_outputs p)"

definition effectivePortVisibility :: "editor_node \<Rightarrow> editor_edge list \<Rightarrow> port_side \<Rightarrow> bool" where
  "effectivePortVisibility n es side =
     (let preferred = Option.bind (Option.bind (en_presentation n) na_ports) (\<lambda>p. preferred_side p side);
          fallback = (case side of
              ControlSide \<Rightarrow> branches_of n \<noteq> [] \<or> en_kind n = KCondition \<or> en_kind n = KHumanDecision
            | InputSide \<Rightarrow> en_inputs n \<noteq> []
            | OutputSide \<Rightarrow> en_outputs n \<noteq> [])
      in 0 < connectedPortEdges (en_id n) side es \<or> (case preferred of None \<Rightarrow> fallback | Some b \<Rightarrow> b))"

definition portSide :: "canvas_port \<Rightarrow> port_side" where
  "portSide p = (if pt_kind p = Some ControlEdge then ControlSide else if pt_direction p = PortIn then InputSide else OutputSide)"

definition port_kind :: "canvas_port \<Rightarrow> edge_kind" where
  "port_kind p = (case pt_kind p of None \<Rightarrow> DataEdge | Some k \<Rightarrow> k)"

section \<open>Identities\<close>

definition edge_id :: "string \<Rightarrow> nat \<Rightarrow> string" where
  "edge_id rnd k = ''e-'' @ rnd @ ''-'' @ digit_string k"

definition nextEdgeId :: "string \<Rightarrow> editor \<Rightarrow> string \<times> editor" where
  "nextEdgeId rnd s = (let k = Suc (gs_sequence s) in (edge_id rnd k, s\<lparr>gs_sequence := k\<rparr>))"

definition nextGroupId :: "string \<Rightarrow> editor \<Rightarrow> string \<times> editor" where
  "nextGroupId rnd s = (let k = Suc (gs_sequence s) in (''g-'' @ rnd @ ''-'' @ digit_string k, s\<lparr>gs_sequence := k\<rparr>))"

definition nextNodeId :: "string \<Rightarrow> editor \<Rightarrow> string \<times> editor" where
  "nextNodeId rnd s = (let k = Suc (gs_sequence s) in (''n-'' @ rnd @ ''-'' @ digit_string k, s\<lparr>gs_sequence := k\<rparr>))"

section \<open>Connections\<close>

datatype connection_verdict =
    ConnectionOk | DirectionMismatch | SelfLoop | EdgeKindMismatch | TypeConflict string string | UnknownNode
  | UndeclaredPort | DataCycle | HiddenPort | DuplicateEdge

definition canConnect :: "canvas_port \<Rightarrow> canvas_port \<Rightarrow> connection_verdict" where
  "canConnect p q =
     (if pt_direction p \<noteq> PortOut \<or> pt_direction q \<noteq> PortIn then DirectionMismatch
      else if pt_nodeId p = pt_nodeId q then SelfLoop
      else if port_kind p \<noteq> port_kind q then EdgeKindMismatch
      else if pt_type p \<noteq> pt_type q then TypeConflict (pt_type p) (pt_type q)
      else ConnectionOk)"

definition edgeEndpoints :: "editor \<Rightarrow> canvas_port \<Rightarrow> canvas_port \<Rightarrow> edge_kind \<times> string \<times> string" where
  "edgeEndpoints s p q =
     (let control = (port_kind p = ControlEdge) in
      (port_kind p,
       if control
       then pt_nodeId p @ (if (case find_node s (pt_nodeId p) of None \<Rightarrow> [] | Some n \<Rightarrow> branches_of n) \<noteq> [] then CHR ''@'' # pt_port p else [])
       else pt_nodeId p @ CHR ''.'' # pt_port p,
       if control then pt_nodeId q else pt_nodeId q @ CHR ''.'' # pt_port q))"

text \<open>The data edges that the search for a cycle follows, and where they lead.\<close>

definition followed_edges :: "string option \<Rightarrow> editor_edge list \<Rightarrow> editor_edge list" where
  "followed_edges ignore es = filter (\<lambda>e. Some (ee_id e) \<noteq> ignore \<and> ee_kind e = DataEdge) es"

definition edge_targets :: "editor_edge list \<Rightarrow> string \<Rightarrow> string list" where
  "edge_targets es i = map (before_char CHR ''.'' \<circ> ee_to) (filter (\<lambda>e. before_char CHR ''.'' (ee_from e) = i) es)"

definition search_space :: "editor_edge list \<Rightarrow> string list \<Rightarrow> string set" where
  "search_space es stack = set stack \<union> (before_char CHR ''.'' \<circ> ee_to) ` set es"

lemma edge_targets_space: "set (edge_targets es i) \<subseteq> (before_char CHR ''.'' \<circ> ee_to) ` set es"
  unfolding edge_targets_def by (simp add: image_mono)

function search_data :: "editor_edge list \<Rightarrow> string \<Rightarrow> string list \<Rightarrow> string list \<Rightarrow> bool" where
  "search_data es goal [] visited = False"
| "search_data es goal (i # stack) visited =
     (if i = goal then True
      else if i \<in> set visited then search_data es goal stack visited
      else search_data es goal (rev (edge_targets es i) @ stack) (i # visited))"
  by pat_completeness auto

termination
proof (relation "measures [\<lambda>(es, _, stack, visited). card (search_space es stack - set visited), \<lambda>(_, _, stack, _). length stack]")
  fix es goal i stack visited
  assume "i \<noteq> (goal :: string)" "i \<in> set visited"
  then have "search_space es stack - set visited = search_space es (i # stack) - set visited"
    by (auto simp: search_space_def)
  then show "((es, goal, stack, visited), es, goal, i # stack, visited)
      \<in> measures [\<lambda>(es, _, stack, visited). card (search_space es stack - set visited), \<lambda>(_, _, stack, _). length stack]"
    by simp
next
  fix es goal i stack visited
  assume "i \<noteq> (goal :: string)" "i \<notin> set visited"
  moreover have "search_space es (rev (edge_targets es i) @ stack) \<subseteq> search_space es (i # stack)"
    using edge_targets_space [of es i] by (auto simp: search_space_def)
  moreover have "i \<in> search_space es (i # stack)" by (simp add: search_space_def)
  ultimately have "search_space es (rev (edge_targets es i) @ stack) - set (i # visited) \<subset> search_space es (i # stack) - set visited"
    by (metis Diff_iff Diff_mono list.set_intros(1) psubsetI set_subset_Cons)
  moreover have "finite (search_space es (i # stack) - set visited)" by (simp add: search_space_def)
  ultimately show "((es, goal, rev (edge_targets es i) @ stack, i # visited), es, goal, i # stack, visited)
      \<in> measures [\<lambda>(es, _, stack, visited). card (search_space es stack - set visited), \<lambda>(_, _, stack, _). length stack]"
    by (simp add: psubset_card_mono)
qed simp

definition data_verdict :: "editor \<Rightarrow> canvas_port \<Rightarrow> canvas_port \<Rightarrow> string option \<Rightarrow> connection_verdict" where
  "data_verdict s p q ignore =
     (if Option.bind (find_node s (pt_nodeId p)) (\<lambda>n. map_of (en_outputs n) (pt_port p)) \<noteq> Some (pt_type p)
        \<or> Option.bind (find_node s (pt_nodeId q)) (\<lambda>n. map_of (en_inputs n) (pt_port q)) \<noteq> Some (pt_type q) then UndeclaredPort
      else if search_data (followed_edges ignore (gs_edges s)) (pt_nodeId p) [pt_nodeId q] [] then DataCycle
      else ConnectionOk)"

definition control_verdict :: "editor \<Rightarrow> canvas_port \<Rightarrow> canvas_port \<Rightarrow> connection_verdict" where
  "control_verdict s p q =
     (let branches = (case find_node s (pt_nodeId p) of None \<Rightarrow> [] | Some n \<Rightarrow> branches_of n) in
      if pt_type p \<noteq> ''control'' \<or> pt_type q \<noteq> ''control'' \<or> pt_port q \<noteq> ''control''
        \<or> (if branches \<noteq> [] then pt_port p \<notin> set branches else pt_port p \<noteq> ''control'') then UndeclaredPort
      else ConnectionOk)"

definition port_visible :: "editor \<Rightarrow> canvas_port \<Rightarrow> bool" where
  "port_visible s p = (case find_node s (pt_nodeId p) of None \<Rightarrow> False
     | Some n \<Rightarrow> effectivePortVisibility n (gs_edges s) (portSide p))"

definition checkConnection ::
  "editor \<Rightarrow> canvas_port \<Rightarrow> canvas_port \<Rightarrow> string option \<Rightarrow> bool \<Rightarrow> connection_verdict" where
  "checkConnection s p q ignore canonicalRestore =
     (if canConnect p q \<noteq> ConnectionOk then canConnect p q
      else if find_node s (pt_nodeId p) = None \<or> find_node s (pt_nodeId q) = None then UnknownNode
      else let v = (if port_kind p = DataEdge then data_verdict s p q ignore else control_verdict s p q) in
      if v \<noteq> ConnectionOk then v
      else if \<not> canonicalRestore \<and> (\<not> port_visible s p \<or> \<not> port_visible s q) then HiddenPort
      else case edgeEndpoints s p q of (kind, source, target) \<Rightarrow>
        if list_ex (\<lambda>e. Some (ee_id e) \<noteq> ignore \<and> ee_kind e = kind \<and> ee_from e = source \<and> ee_to e = target) (gs_edges s)
        then DuplicateEdge else ConnectionOk)"

end
