(* ===== verification/EditorCommands.thy ===== *)
theory EditorCommands
  imports Editor
begin

text \<open>
  The commands of \<open>GraphEditor\<close> (\<open>graph-editor.ts\<close>) with the check of layouts (\<open>validatePresentation\<close>
  and \<open>validateResourceReferences\<close> of \<open>clipboard.ts\<close>) and the export and import of layouts and
  definitions (\<open>graph-serialization.ts\<close>). A command gives an error or a value, and the new state. What
  the types already say of a layout is not checked again.
\<close>

section \<open>Layouts\<close>

definition finite_positive :: "js_number \<Rightarrow> bool" where
  "finite_positive w \<longleftrightarrow> js_is_finite w \<and> js_positive w"

text \<open>\<open>checkEdge\<close>: the endpoints of a data edge are \<open>node.port\<close>, those of a control edge \<open>node\<close> or, at
  its source, \<open>node@branch\<close>.\<close>

definition endpoint_ok :: "edge_kind \<Rightarrow> bool \<Rightarrow> string \<Rightarrow> bool" where
  "endpoint_ok k source v \<longleftrightarrow>
     (if k = DataEdge
      then CHR ''.'' \<in> set v \<and> after_char CHR ''.'' v \<noteq> [] \<and> idPattern (before_char CHR ''.'' v)
      else (case split_on CHR ''@'' v of
              [i] \<Rightarrow> idPattern i
            | [i, b] \<Rightarrow> idPattern i \<and> source \<and> idPattern b
            | _ \<Rightarrow> False))"

definition layout_node_ok :: "presentation_node \<Rightarrow> bool" where
  "layout_node_ok n \<longleftrightarrow> js_is_finite (pn_x n) \<and> js_is_finite (pn_y n)
     \<and> pred_option finite_positive (pn_width n) \<and> pred_option finite_positive (pn_height n)"

definition layout_group_ok :: "string list \<Rightarrow> presentation_group \<Rightarrow> bool" where
  "layout_group_ok ids g \<longleftrightarrow> idPattern (pg_id g) \<and> list_all (\<lambda>i. idPattern i \<and> i \<in> set ids) (pg_nodeIds g) \<and> distinct (pg_nodeIds g)"

definition layout_edge_ok :: "(edge_kind \<times> string \<times> string) list \<Rightarrow> presentation_edge \<Rightarrow> bool" where
  "layout_edge_ok known e \<longleftrightarrow> endpoint_ok (pe_kind e) True (pe_from e) \<and> endpoint_ok (pe_kind e) False (pe_to e)
     \<and> edge_key e \<in> set known \<and> list_all (\<lambda>(x, y). js_is_finite x \<and> js_is_finite y) (pe_points e)"

definition editor_edge_key :: "editor_edge \<Rightarrow> edge_kind \<times> string \<times> string" where
  "editor_edge_key e = (ee_kind e, ee_from e, ee_to e)"

definition validatePresentation :: "presentation \<Rightarrow> string list \<Rightarrow> editor_edge list \<Rightarrow> string list \<Rightarrow> bool" where
  "validatePresentation p ids es resourceIds \<longleftrightarrow>
     list_all (\<lambda>(i, n). i \<in> set ids \<and> layout_node_ok n) (ps_nodes p)
     \<and> list_all (\<lambda>(i, _). idPattern i \<and> i \<in> set resourceIds) (list_of (ps_resources p))
     \<and> list_all (layout_group_ok ids) (list_of (ps_groups p)) \<and> distinct (map pg_id (list_of (ps_groups p)))
     \<and> list_all (layout_edge_ok (map editor_edge_key es)) (list_of (ps_edges p)) \<and> distinct (map edge_key (list_of (ps_edges p)))"

definition resource_ids :: "editor \<Rightarrow> string list" where
  "resource_ids s = (case gs_definition s of None \<Rightarrow> [] | Some d \<Rightarrow> map fst (bd_resources d))"

definition checkLayout :: "editor \<Rightarrow> presentation \<Rightarrow> string list \<Rightarrow> editor_edge list \<Rightarrow> editor_error + unit" where
  "checkLayout s p ids es = throw_if (\<not> validatePresentation p ids es (resource_ids s)) PresentationInvalid (Inr ())"

definition checkOwnLayout :: "editor \<Rightarrow> presentation \<Rightarrow> editor_error + unit" where
  "checkOwnLayout s p = checkLayout s p (map en_id (gs_nodes s)) (gs_edges s)"

definition node_layout :: "node_attrs option \<Rightarrow> js_number \<Rightarrow> js_number \<Rightarrow> presentation_node" where
  "node_layout a x y =
     (case a of
        None \<Rightarrow> \<lparr>pn_x = x, pn_y = y, pn_ports = None, pn_title = None, pn_collapsed = None, pn_pinned = None,
                 pn_width = None, pn_height = None, pn_color = None\<rparr>
      | Some b \<Rightarrow> \<lparr>pn_x = x, pn_y = y, pn_ports = na_ports b, pn_title = na_title b, pn_collapsed = na_collapsed b,
                 pn_pinned = na_pinned b, pn_width = na_width b, pn_height = na_height b, pn_color = na_color b\<rparr>)"

definition layout_attrs :: "presentation_node \<Rightarrow> node_attrs" where
  "layout_attrs n = \<lparr>na_ports = pn_ports n, na_title = pn_title n, na_collapsed = pn_collapsed n, na_pinned = pn_pinned n,
     na_width = pn_width n, na_height = pn_height n, na_color = pn_color n\<rparr>"

text \<open>\<open>Object.fromEntries\<close>\<close>

definition from_entries :: "(string \<times> 'a) list \<Rightarrow> 'a dict" where
  "from_entries kvs = fold (\<lambda>(k, v). AList.update k v) kvs []"

definition exportGraphLayout :: "editor \<Rightarrow> presentation" where
  "exportGraphLayout s =
     (let routed = filter (\<lambda>e. ee_points e \<noteq> None) (gs_edges s) in
      \<lparr>ps_nodes = from_entries (map (\<lambda>n. (en_id n, node_layout (en_presentation n) (en_x n) (en_y n))) (gs_nodes s)),
       ps_resources = Option.bind (Option.bind (gs_definition s) bd_presentation) ps_resources,
       ps_groups = Some (map (\<lambda>g. \<lparr>pg_id = eg_id g, pg_label = Some (eg_label g), pg_nodeIds = eg_nodeIds g\<rparr>) (gs_groups s)),
       ps_edges = (if routed = [] then None
         else Some (map (\<lambda>e. \<lparr>pe_kind = ee_kind e, pe_from = ee_from e, pe_to = ee_to e, pe_points = the (ee_points e)\<rparr>) routed))\<rparr>)"

definition exportLayout :: "editor \<Rightarrow> editor_error + presentation" where
  "exportLayout s = (let layout = exportGraphLayout s in ebind (checkOwnLayout s layout) (\<lambda>_. Inr layout))"

section \<open>Transactions\<close>

definition transaction :: "'a command \<Rightarrow> 'a command" where
  "transaction fn s =
     (let pending = gs_layoutBefore s; before = snapshotGraph s; outer = (gs_depth s = 0);
          (res, s1) = fn (s\<lparr>gs_depth := Suc (gs_depth s)\<rparr>);
          checked = ebind res (\<lambda>v. if outer then ebind (exportLayout s1) (\<lambda>l. ebind (checkOwnLayout s1 l) (\<lambda>_. Inr v)) else Inr v)
      in case checked of
           Inl e \<Rightarrow> (Inl e, (restoreGraph before s1)\<lparr>gs_undo := gs_undo s, gs_redo := gs_redo s, gs_layoutBefore := pending,
                       gs_depth := gs_depth s1 - 1\<rparr>)
         | Inr v \<Rightarrow>
             (let s2 = s1\<lparr>gs_depth := gs_depth s1 - 1\<rparr> in
              (Inr v, if outer then commitTransaction before pending (snapshotGraph s2) s2 else s2)))"

definition cancelLayout :: "unit command" where
  "cancelLayout s =
     (if gs_depth s \<noteq> 0 then (Inl LayoutPending, s)
      else case gs_layoutBefore s of
             None \<Rightarrow> (Inr (), s)
           | Some before \<Rightarrow> (Inr (), restoreGraph before (s\<lparr>gs_layoutBefore := None\<rparr>)))"

definition beginLayout :: "unit command" where
  "beginLayout s =
     (if gs_depth s \<noteq> 0 then (Inl LayoutPending, s) else (Inr (), s\<lparr>gs_layoutBefore := Some (history_base s)\<rparr>))"

definition commitLayout :: "unit command" where
  "commitLayout s =
     (if gs_depth s \<noteq> 0 then (Inl LayoutPending, s)
      else case ebind (exportLayout s) (checkOwnLayout s) of
             Inl e \<Rightarrow> (Inl e, s)
           | Inr _ \<Rightarrow>
               (let s1 = s\<lparr>gs_layoutBefore := None\<rparr> in
                case gs_layoutBefore s of
                  None \<Rightarrow> (Inr (), s1)
                | Some before \<Rightarrow>
                    (Inr (), if he_nodes before \<noteq> gs_nodes s
                             then s1\<lparr>gs_undo := push_capped before (gs_undo s1), gs_redo := []\<rparr> else s1)))"

section \<open>Nodes\<close>

definition bare_node :: "string \<Rightarrow> node_kind \<Rightarrow> graph_node" where
  "bare_node i k = \<lparr>n_id = i, n_kind = k, n_blueprintRef = None, n_outputs = None, n_inputs = None, n_agentRef = None,
     n_interaction = False, n_skillRefs = None, n_toolsetRefs = None, n_toolAllowlist = None, n_modelSelection = None,
     n_condition = None, n_outputSchemaRef = None, n_teamStage = None, n_join = False, n_branches = None\<rparr>"

definition definition_of :: "editor_node \<Rightarrow> graph_node" where
  "definition_of n = (case en_definition n of None \<Rightarrow> bare_node (en_id n) (en_kind n)
     | Some d \<Rightarrow> d\<lparr>n_id := en_id n, n_kind := en_kind n\<rparr>)"

definition graphNodeFromEditorNode :: "editor_node \<Rightarrow> graph_node" where
  "graphNodeFromEditorNode n =
     (let d = definition_of n in
      d\<lparr>n_inputs := (if n_inputs d \<noteq> None \<or> en_inputs n \<noteq> [] then Some (en_inputs n) else None),
        n_outputs := (if n_outputs d \<noteq> None \<or> en_outputs n \<noteq> [] then Some (en_outputs n) else None)\<rparr>)"

text \<open>\<open>validateResourceReferences\<close> for one node.\<close>

definition node_references_ok :: "resource_ref dict \<Rightarrow> graph_node \<Rightarrow> bool" where
  "node_references_ok resources n \<longleftrightarrow>
     list_all (\<lambda>(i, k). map_option rr_kind (map_of resources i) = Some k)
       (map (\<lambda>i. (i, RAgent)) (case n_agentRef n of None \<Rightarrow> [] | Some i \<Rightarrow> [i])
        @ map (\<lambda>i. (i, RSchema)) (case n_outputSchemaRef n of None \<Rightarrow> [] | Some i \<Rightarrow> [i])
        @ map (\<lambda>i. (i, RSkill)) (list_of (n_skillRefs n))
        @ map (\<lambda>i. (i, RMcp)) (list_of (n_toolsetRefs n)))"

definition addNode :: "editor_node \<Rightarrow> string option \<Rightarrow> string \<Rightarrow> editor_node command" where
  "addNode node given rnd s0 =
     (let (i, s) = (case given of Some i \<Rightarrow> (i, s0) | None \<Rightarrow> nextNodeId rnd s0);
          candidate = node\<lparr>en_id := i\<rparr>;
          resources = (case gs_definition s of None \<Rightarrow> [] | Some d \<Rightarrow> bd_resources d) in
      if find_node s i \<noteq> None then (Inl StaleSelection, s)
      else if \<not> node_references_ok resources (graphNodeFromEditorNode candidate) then (Inl ClipboardResourceConflict, s)
      else case checkLayout s
                  \<lparr>ps_nodes = [(i, node_layout (en_presentation candidate) (en_x candidate) (en_y candidate))],
                   ps_resources = None, ps_groups = None, ps_edges = None\<rparr> [i] [] of
             Inl e \<Rightarrow> (Inl e, s)
           | Inr _ \<Rightarrow>
               (let s1 = pushHistory s;
                    created = candidate\<lparr>en_definition := map_option (\<lambda>d. d\<lparr>n_id := i\<rparr>) (en_definition candidate)\<rparr>
                in (Inr created, s1\<lparr>gs_nodes := gs_nodes s1 @ [created]\<rparr>)))"

definition first_part :: "string \<Rightarrow> string" where
  "first_part v = takeWhile (\<lambda>c. c \<noteq> CHR ''.'' \<and> c \<noteq> CHR ''@'') v"

definition drop_nodes :: "string set \<Rightarrow> string set \<Rightarrow> editor \<Rightarrow> editor" where
  "drop_nodes doomed edgeIds s = s\<lparr>
     gs_nodes := filter (\<lambda>n. en_id n \<notin> doomed) (gs_nodes s),
     gs_edges := filter (\<lambda>e. ee_id e \<notin> edgeIds \<and> first_part (ee_from e) \<notin> doomed \<and> first_part (ee_to e) \<notin> doomed) (gs_edges s),
     gs_groups := filter (\<lambda>g. eg_nodeIds g \<noteq> []) (map (\<lambda>g. g\<lparr>eg_nodeIds := filter (\<lambda>i. i \<notin> doomed) (eg_nodeIds g)\<rparr>) (gs_groups s)),
     gs_selection := []\<rparr>"

definition removeSelected :: "nat command" where
  "removeSelected s =
     (if gs_selection s = [] then (Inr 0, s)
      else (Inr (length (gs_selection s)), drop_nodes (set (gs_selection s)) {} (pushHistory s)))"

definition deleteItems :: "string list \<Rightarrow> string list \<Rightarrow> unit command" where
  "deleteItems nodeIds edgeIds s =
     (if nodeIds = [] \<and> edgeIds = [] then (Inr (), s)
      else (Inr (), drop_nodes (set nodeIds) (set edgeIds) (pushHistory s)))"

definition pinned :: "editor_node \<Rightarrow> bool" where
  "pinned n \<longleftrightarrow> Option.bind (en_presentation n) na_pinned = Some True"

definition moveNode :: "string \<Rightarrow> js_number \<Rightarrow> js_number \<Rightarrow> unit command" where
  "moveNode i x y s =
     (case find_node s i of
        None \<Rightarrow> (Inr (), s)
      | Some n \<Rightarrow>
          if pinned n then (Inr (), s)
          else if \<not> js_is_finite x \<or> \<not> js_is_finite y then (Inl InvalidPosition, s)
          else if en_x n = x \<and> en_y n = y then (Inr (), s)
          else let s1 = (if gs_depth s = 0 then s\<lparr>gs_layoutBefore := Some (history_base s)\<rparr> else s) in
               (Inr (), s1\<lparr>gs_nodes := update_first (\<lambda>n. en_id n = i) (\<lambda>n. n\<lparr>en_x := x, en_y := y\<rparr>) (gs_nodes s1)\<rparr>))"

text \<open>A patch of a node's definition is the function that spreads it over the definition.\<close>

definition updateNode :: "string \<Rightarrow> (graph_node \<Rightarrow> graph_node) \<Rightarrow> unit command" where
  "updateNode i patch s =
     (case find_node s i of
        None \<Rightarrow> (Inr (), s)
      | Some n \<Rightarrow>
          (let d = patch (definition_of n) in
           if n_id d \<noteq> en_id n \<or> n_kind d \<noteq> en_kind n then (Inl StaleSelection, s)
           else let s1 = pushHistory s in
             (Inr (), s1\<lparr>gs_nodes := update_first (\<lambda>m. en_id m = i)
                (\<lambda>m. m\<lparr>en_definition := Some d, en_inputs := list_of (n_inputs d), en_outputs := list_of (n_outputs d)\<rparr>) (gs_nodes s1)\<rparr>)))"

section \<open>Edges\<close>

definition connect :: "canvas_port \<Rightarrow> canvas_port \<Rightarrow> string \<Rightarrow> (connection_verdict \<times> editor_edge option) command" where
  "connect p q rnd s =
     (let v = checkConnection s p q None False in
      if v \<noteq> ConnectionOk then (Inr (v, None), s)
      else case edgeEndpoints s p q of (kind, source, target) \<Rightarrow>
        case nextEdgeId rnd (pushHistory s) of (i, s1) \<Rightarrow>
          (let e = \<lparr>ee_id = i, ee_kind = kind, ee_from = source, ee_to = target, ee_points = None\<rparr> in
           (Inr (ConnectionOk, Some e), s1\<lparr>gs_edges := gs_edges s1 @ [e]\<rparr>)))"

definition reconnect :: "string \<Rightarrow> canvas_port \<Rightarrow> canvas_port \<Rightarrow> connection_verdict command" where
  "reconnect i p q s =
     (if List.find (\<lambda>e. ee_id e = i) (gs_edges s) = None then (Inr UnknownNode, s)
      else let v = checkConnection s p q (Some i) False in
      if v \<noteq> ConnectionOk then (Inr v, s)
      else case edgeEndpoints s p q of (kind, source, target) \<Rightarrow>
        transaction (\<lambda>t. (Inr ConnectionOk, t\<lparr>gs_edges := update_first (\<lambda>e. ee_id e = i)
          (\<lambda>e. e\<lparr>ee_kind := kind, ee_from := source, ee_to := target\<rparr>) (gs_edges t)\<rparr>)) s)"

text \<open>\<open>splice(findIndex(p), 1)\<close>\<close>

fun remove_first :: "('a \<Rightarrow> bool) \<Rightarrow> 'a list \<Rightarrow> 'a list" where
  "remove_first p [] = []"
| "remove_first p (x # xs) = (if p x then xs else x # remove_first p xs)"

definition removeEdge :: "string \<Rightarrow> bool command" where
  "removeEdge i s =
     (if list_ex (\<lambda>e. ee_id e = i) (gs_edges s)
      then let s1 = pushHistory s in (Inr True, s1\<lparr>gs_edges := remove_first (\<lambda>e. ee_id e = i) (gs_edges s1)\<rparr>)
      else (Inr False, s))"

section \<open>Selection and groups\<close>

text \<open>\<open>new Set(xs)\<close> keeps first occurrences.\<close>

definition js_set :: "'a list \<Rightarrow> 'a list" where
  "js_set xs = rev (remdups (rev xs))"

definition setSelection :: "string list \<Rightarrow> unit command" where
  "setSelection ids s =
     (let next = js_set ids in
      (Inr (), if length next = length (gs_selection s) \<and> set next \<subseteq> set (gs_selection s) then s else s\<lparr>gs_selection := next\<rparr>))"

definition toggleSelect :: "string \<Rightarrow> bool \<Rightarrow> unit command" where
  "toggleSelect i adding s =
     (let sel = (if adding then gs_selection s else []) in
      (Inr (), s\<lparr>gs_selection :=
         (if adding \<and> i \<in> set sel then filter (\<lambda>x. x \<noteq> i) sel else if i \<in> set sel then sel else sel @ [i])\<rparr>))"

definition requireNodes :: "editor \<Rightarrow> string list \<Rightarrow> editor_error + editor_node list" where
  "requireNodes s ids =
     (let found = map (find_node s) (js_set ids) in
      if None \<in> set found then Inl StaleSelection else Inr (map the found))"

definition groupSelection :: "string \<Rightarrow> string \<Rightarrow> editor_group option command" where
  "groupSelection label rnd s =
     (if gs_selection s = [] then (Inr None, s)
      else case requireNodes s (gs_selection s) of
             Inl e \<Rightarrow> (Inl e, s)
           | Inr _ \<Rightarrow>
               (case nextGroupId rnd (pushHistory s) of (i, s1) \<Rightarrow>
                  let g = \<lparr>eg_id = i, eg_label = label, eg_nodeIds = gs_selection s\<rparr> in
                  (Inr (Some g), s1\<lparr>gs_groups := gs_groups s1 @ [g]\<rparr>)))"

definition ungroup :: "string \<Rightarrow> bool command" where
  "ungroup i s =
     (if list_ex (\<lambda>g. eg_id g = i) (gs_groups s)
      then let s1 = pushHistory s in (Inr True, s1\<lparr>gs_groups := remove_first (\<lambda>g. eg_id g = i) (gs_groups s1)\<rparr>)
      else (Inr False, s))"

definition renameGroup :: "string \<Rightarrow> string \<Rightarrow> unit command" where
  "renameGroup i label s =
     (if list_ex (\<lambda>g. eg_id g = i) (gs_groups s)
      then transaction (\<lambda>t. (Inr (), t\<lparr>gs_groups := update_first (\<lambda>g. eg_id g = i) (\<lambda>g. g\<lparr>eg_label := label\<rparr>) (gs_groups t)\<rparr>)) s
      else (Inl StaleSelection, s))"

section \<open>The definition behind the graph\<close>

definition renameDefinition :: "string \<Rightarrow> unit command" where
  "renameDefinition name s =
     (case gs_definition s of
        None \<Rightarrow> (Inl NoDefinition, s)
      | Some d \<Rightarrow>
          if bd_name d = name then (Inr (), s)
          else transaction (\<lambda>t. (Inr (), t\<lparr>gs_definition := map_option (\<lambda>d. d\<lparr>bd_name := name\<rparr>) (gs_definition t)\<rparr>)) s)"

definition empty_presentation :: presentation where
  "empty_presentation = \<lparr>ps_nodes = [], ps_resources = None, ps_groups = None, ps_edges = None\<rparr>"

text \<open>The metadata of a resource beside its reference; metadata without fields removes the entry.\<close>

definition with_metadata :: "string \<Rightarrow> string option \<times> string option \<Rightarrow> blueprint_definition \<Rightarrow> blueprint_definition" where
  "with_metadata i metadata d =
     (let old = list_of (Option.bind (bd_presentation d) ps_resources);
          new = (if metadata = (None, None) then filter (\<lambda>kv. fst kv \<noteq> i) old else AList.update i metadata old) in
      if new \<noteq> []
      then d\<lparr>bd_presentation := Some ((case bd_presentation d of None \<Rightarrow> empty_presentation | Some p \<Rightarrow> p)\<lparr>ps_resources := Some new\<rparr>)\<rparr>
      else d\<lparr>bd_presentation := map_option (\<lambda>p. p\<lparr>ps_resources := None\<rparr>) (bd_presentation d)\<rparr>)"

definition updateResource :: "string \<Rightarrow> resource_ref \<Rightarrow> (string option \<times> string option) option \<Rightarrow> unit command" where
  "updateResource i ref metadata s =
     (if gs_definition s = None then (Inr (), s)
      else transaction (\<lambda>t. (Inr (), t\<lparr>gs_definition := map_option (\<lambda>d.
             let d1 = d\<lparr>bd_resources := AList.update i ref (bd_resources d)\<rparr> in
             case metadata of None \<Rightarrow> d1 | Some m \<Rightarrow> with_metadata i m d1) (gs_definition t)\<rparr>)) s)"

definition exportDefinition :: "editor \<Rightarrow> editor_error + blueprint_definition" where
  "exportDefinition s =
     (case gs_definition s of
        None \<Rightarrow> Inl NoDefinition
      | Some d \<Rightarrow>
          ebind (exportLayout s) (\<lambda>layout.
            Inr (d\<lparr>bd_nodes := map graphNodeFromEditorNode (gs_nodes s),
                   bd_edges := map (\<lambda>e. \<lparr>ed_kind = ee_kind e, ed_from = ee_from e, ed_to = ee_to e\<rparr>) (gs_edges s),
                   bd_presentation := Some layout\<rparr>)))"

section \<open>Presentation of nodes\<close>

definition merge_ports :: "presentation_ports option \<Rightarrow> presentation_ports \<Rightarrow> presentation_ports" where
  "merge_ports old new =
     (let pick = (\<lambda>f. case f new of Some b \<Rightarrow> Some b | None \<Rightarrow> Option.bind old f) in
      \<lparr>pp_control = pick pp_control, pp_inputs = pick pp_inputs, pp_outputs = pick pp_outputs\<rparr>)"

definition no_ports :: "presentation_ports \<Rightarrow> bool" where
  "no_ports p \<longleftrightarrow> pp_control p = None \<and> pp_inputs p = None \<and> pp_outputs p = None"

definition no_attrs :: node_attrs where
  "no_attrs = \<lparr>na_ports = None, na_title = None, na_collapsed = None, na_pinned = None, na_width = None, na_height = None,
     na_color = None\<rparr>"

definition patched_attrs :: "node_attrs \<Rightarrow> node_attrs option \<Rightarrow> node_attrs" where
  "patched_attrs patch old =
     (let o' = (case old of None \<Rightarrow> no_attrs | Some a \<Rightarrow> a) in
      \<lparr>na_ports = (case na_ports patch of Some p \<Rightarrow> if no_ports p then na_ports o' else Some (merge_ports (na_ports o') p)
                    | None \<Rightarrow> na_ports o'),
       na_title = (case na_title patch of Some x \<Rightarrow> Some x | None \<Rightarrow> na_title o'),
       na_collapsed = (case na_collapsed patch of Some x \<Rightarrow> Some x | None \<Rightarrow> na_collapsed o'),
       na_pinned = (case na_pinned patch of Some x \<Rightarrow> Some x | None \<Rightarrow> na_pinned o'),
       na_width = (case na_width patch of Some x \<Rightarrow> Some x | None \<Rightarrow> na_width o'),
       na_height = (case na_height patch of Some x \<Rightarrow> Some x | None \<Rightarrow> na_height o'),
       na_color = (case na_color patch of Some x \<Rightarrow> Some x | None \<Rightarrow> na_color o')\<rparr>)"

definition hidden_edges :: "node_attrs \<Rightarrow> editor_node list \<Rightarrow> editor_edge list \<Rightarrow> editor_edge list" where
  "hidden_edges patch targets es =
     filter (\<lambda>e. list_ex (\<lambda>n. list_ex (\<lambda>side. Option.bind (na_ports patch) (\<lambda>p. preferred_side p side) = Some False
        \<and> 0 < connectedPortEdges (en_id n) side [e]) [ControlSide, InputSide, OutputSide]) targets) es"

definition nodes_layout :: "(string \<times> presentation_node) list \<Rightarrow> presentation" where
  "nodes_layout ns = empty_presentation\<lparr>ps_nodes := ns\<rparr>"

definition patchPresentation :: "string list \<Rightarrow> node_attrs \<Rightarrow> unit command" where
  "patchPresentation ids patch s =
     (let checked =
        ebind (requireNodes s ids) (\<lambda>targets.
        ebind (if na_ports patch = None then Inr () else
          checkOwnLayout s (nodes_layout (map (\<lambda>n. (en_id n, node_layout (Some (no_attrs\<lparr>na_ports := na_ports patch\<rparr>)) (en_x n) (en_y n))) targets))) (\<lambda>_.
        ebind (checkOwnLayout s (nodes_layout (map (\<lambda>n. (en_id n, node_layout (Some (patched_attrs patch (en_presentation n))) (en_x n) (en_y n))) targets))) (\<lambda>_.
        let affected = hidden_edges patch targets (gs_edges s) in
        throw_if (affected \<noteq> []) (PortVisibilityConnected (length affected)) (Inr targets))))
      in case checked of
           Inl e \<Rightarrow> (Inl e, s)
         | Inr targets \<Rightarrow>
             transaction (\<lambda>t. (Inr (), t\<lparr>gs_nodes := fold (\<lambda>n. update_first (\<lambda>m. en_id m = en_id n)
               (\<lambda>m. m\<lparr>en_presentation := Some (patched_attrs patch (en_presentation m))\<rparr>)) targets (gs_nodes t)\<rparr>)) s)"

section \<open>Opening a definition\<close>

definition kind_text :: "node_kind \<Rightarrow> string" where
  "kind_text k = (case List.find (\<lambda>p. snd p = k) node_kinds of None \<Rightarrow> [] | Some p \<Rightarrow> fst p)"

definition import_node :: "presentation_node dict \<Rightarrow> nat \<times> graph_node \<Rightarrow> editor_node" where
  "import_node saved p =
     (case p of (i, n) \<Rightarrow>
        \<lparr>en_definition = Some n, en_id = n_id n, en_kind = n_kind n,
         en_label = kind_text (n_kind n) @ '' '' @ digit_string (Suc i),
         en_x = (case map_of saved (n_id n) of None \<Rightarrow> Finite (of_nat (60 + (i mod 4) * 220)) | Some q \<Rightarrow> pn_x q),
         en_y = (case map_of saved (n_id n) of None \<Rightarrow> Finite (of_nat (60 + (i div 4) * 140)) | Some q \<Rightarrow> pn_y q),
         en_inputs = list_of (n_inputs n), en_outputs = list_of (n_outputs n),
         en_presentation = map_option layout_attrs (map_of saved (n_id n))\<rparr>)"

primrec import_edges :: "(nat \<Rightarrow> string) \<Rightarrow> nat \<Rightarrow> graph_edge list \<Rightarrow> editor_edge list" where
  "import_edges rnd k [] = []"
| "import_edges rnd k (e # es) =
     \<lparr>ee_id = edge_id (rnd (Suc k)) (Suc k), ee_kind = ed_kind e, ee_from = ed_from e, ee_to = ed_to e, ee_points = None\<rparr>
       # import_edges rnd (Suc k) es"

definition import_group :: "presentation_group \<Rightarrow> editor_group" where
  "import_group g = \<lparr>eg_id = pg_id g, eg_label = (case pg_label g of None \<Rightarrow> pg_id g | Some l \<Rightarrow> l), eg_nodeIds = pg_nodeIds g\<rparr>"

definition importGraphDefinition :: "(nat \<Rightarrow> string) \<Rightarrow> nat \<Rightarrow> blueprint_definition \<Rightarrow> editor" where
  "importGraphDefinition rnd k d =
     (let saved = (case bd_presentation d of None \<Rightarrow> [] | Some p \<Rightarrow> ps_nodes p) in
      \<lparr>gs_nodes = map (import_node saved) (indexed (bd_nodes d)), gs_edges = import_edges rnd k (bd_edges d),
       gs_groups = map import_group (list_of (Option.bind (bd_presentation d) ps_groups)), gs_selection = [],
       gs_definition = Some d, gs_layoutBefore = None, gs_undo = [], gs_redo = [], gs_depth = 0,
       gs_sequence = k + length (bd_edges d)\<rparr>)"

definition lay_node :: "presentation_node dict \<Rightarrow> editor_node \<Rightarrow> editor_node" where
  "lay_node positions n =
     (case map_of positions (en_id n) of None \<Rightarrow> n
      | Some p \<Rightarrow> n\<lparr>en_x := pn_x p, en_y := pn_y p, en_presentation := Some (layout_attrs p)\<rparr>)"

definition importLayout :: "presentation \<Rightarrow> unit command" where
  "importLayout layout s =
     (if gs_layoutBefore s \<noteq> None then (Inl LayoutPending, s)
      else case checkOwnLayout s layout of
             Inl e \<Rightarrow> (Inl e, s)
           | Inr _ \<Rightarrow>
               (Inr (), s\<lparr>
                  gs_nodes := map (lay_node (ps_nodes layout)) (gs_nodes s),
                  gs_groups := (case ps_groups layout of None \<Rightarrow> gs_groups s | Some gs \<Rightarrow> map import_group gs),
                  gs_definition := (case ps_resources layout of None \<Rightarrow> gs_definition s
                    | Some rs \<Rightarrow> map_option (\<lambda>d. d\<lparr>bd_presentation :=
                        Some ((case bd_presentation d of None \<Rightarrow> empty_presentation | Some p \<Rightarrow> p)\<lparr>ps_resources := Some rs\<rparr>)\<rparr>) (gs_definition s)),
                  gs_edges := map (\<lambda>e. e\<lparr>ee_points := map_of (map (\<lambda>r. (edge_key r, pe_points r)) (rev (list_of (ps_edges layout)))) (editor_edge_key e)\<rparr>)
                    (gs_edges s)\<rparr>))"

text \<open>\<open>fromDefinition\<close>. The projection of default positions (\<open>graph-layout.ts\<close>) is an argument: it gives
  positions for the nodes of an editor, or fails.\<close>

definition fromDefinition ::
  "(editor \<Rightarrow> (string \<Rightarrow> js_number \<times> js_number) option) \<Rightarrow> (nat \<Rightarrow> string) \<Rightarrow> nat \<Rightarrow> blueprint_definition \<Rightarrow> editor_error + editor" where
  "fromDefinition defaults rnd k d =
     (let s0 = importGraphDefinition rnd k d;
          saved = (case bd_presentation d of None \<Rightarrow> [] | Some p \<Rightarrow> ps_nodes p);
          (res, s1) = (case bd_presentation d of None \<Rightarrow> (Inr (), s0) | Some p \<Rightarrow> importLayout p s0)
      in ebind res (\<lambda>_. Inr (
           case defaults s1 of None \<Rightarrow> s1
           | Some pos \<Rightarrow> s1\<lparr>gs_nodes := map (\<lambda>n. if map_of saved (en_id n) = None
               then n\<lparr>en_x := fst (pos (en_id n)), en_y := snd (pos (en_id n))\<rparr> else n) (gs_nodes s1)\<rparr>)))"

end
