(* ===== verification/EditorFacts.thy ===== *)
theory EditorFacts
  imports EditorCommands GraphProperties
begin

text \<open>
  What every editor command keeps: an editor graph that can be saved. The search of the connection
  check is exact, so an admitted connection closes no cycle; the laws of a command are the locale
  \<open>editor_command\<close>, interpreted on every command.
\<close>

section \<open>The search for a cycle\<close>

definition step_rel :: "editor_edge list \<Rightarrow> (string \<times> string) set" where
  "step_rel es = (\<lambda>e. (before_char CHR ''.'' (ee_from e), before_char CHR ''.'' (ee_to e))) ` set es"

definition edge_rel :: "editor_edge list \<Rightarrow> (string \<times> string) set" where
  "edge_rel es = step_rel (filter (\<lambda>e. ee_kind e = DataEdge) es)"

lemma set_edge_targets: "set (edge_targets es i) = {j. (i, j) \<in> step_rel es}"
  unfolding edge_targets_def step_rel_def by (simp only: set_map set_filter o_def) blast

lemma search_sound: "search_data es goal stack visited \<Longrightarrow> \<exists>i\<in>set stack. (i, goal) \<in> (step_rel es)\<^sup>*"
proof (induction es goal stack visited rule: search_data.induct)
  case (2 es goal i stack visited)
  show ?case
  proof (cases "i = goal \<or> i \<in> set visited")
    case True
    thus ?thesis using 2 by (auto split: if_splits)
  next
    case False
    hence "\<exists>j\<in>set (rev (edge_targets es i) @ stack). (j, goal) \<in> (step_rel es)\<^sup>*" using 2 by simp
    thus ?thesis by (auto simp: set_edge_targets intro: converse_rtrancl_into_rtrancl)
  qed
qed simp

lemma search_complete:
  assumes "\<not> search_data es goal stack visited" and "goal \<notin> set visited"
    and "\<And>v w. v \<in> set visited \<Longrightarrow> (v, w) \<in> step_rel es \<Longrightarrow> w \<in> set visited \<union> set stack"
  shows "\<forall>i\<in>set stack \<union> set visited. (i, goal) \<notin> (step_rel es)\<^sup>*"
  using assms
proof (induction es goal stack visited rule: search_data.induct)
  case (1 es goal visited)
  have "(i, j) \<in> (step_rel es)\<^sup>* \<Longrightarrow> i \<in> set visited \<Longrightarrow> j \<in> set visited" for i j
    by (induction rule: rtrancl_induct) (use 1(3) in auto)
  thus ?case using 1(2) by auto
next
  case (2 es goal i stack visited)
  have i: "i \<noteq> goal" using 2(3) by auto
  show ?case
  proof (cases "i \<in> set visited")
    case True
    have "\<forall>j\<in>set stack \<union> set visited. (j, goal) \<notin> (step_rel es)\<^sup>*"
      using 2(1) [OF i True] 2(3-5) i True by auto
    thus ?thesis using True by auto
  next
    case False
    have "\<forall>j\<in>set (rev (edge_targets es i) @ stack) \<union> set (i # visited). (j, goal) \<notin> (step_rel es)\<^sup>*"
    proof (rule 2(2) [OF i False])
      show "\<not> search_data es goal (rev (edge_targets es i) @ stack) (i # visited)" using 2(3) i False by simp
      show "goal \<notin> set (i # visited)" using 2(4) i by simp
      show "w \<in> set (i # visited) \<union> set (rev (edge_targets es i) @ stack)"
        if "v \<in> set (i # visited)" "(v, w) \<in> step_rel es" for v w
        using that 2(5) [of v w] by (auto simp: set_edge_targets)
    qed
    thus ?thesis by auto
  qed
qed

lemma search_data_exact: "search_data es goal [i] [] \<longleftrightarrow> (i, goal) \<in> (step_rel es)\<^sup>*"
proof
  show "search_data es goal [i] [] \<Longrightarrow> (i, goal) \<in> (step_rel es)\<^sup>*"
    using search_sound [of es goal "[i]" "[]"] by (simp del: search_data.simps)
  show "(i, goal) \<in> (step_rel es)\<^sup>* \<Longrightarrow> search_data es goal [i] []"
    using search_complete [of es goal "[i]" "[]"] by (auto simp del: search_data.simps)
qed

section \<open>Graphs that can be saved\<close>

text \<open>Node ids are distinct and of the id pattern, edge ids come from the counter and are distinct, edges and
  groups name existing nodes, and the data edges have no cycle.\<close>

definition graph_ok :: "nat \<Rightarrow> string list \<Rightarrow> editor_edge list \<Rightarrow> string list list \<Rightarrow> bool" where
  "graph_ok k ids es gs \<longleftrightarrow> distinct ids \<and> (\<forall>i\<in>set ids. idPattern i)
     \<and> distinct (map ee_id es) \<and> (\<forall>x\<in>set es. \<exists>rnd j. ee_id x = edge_id rnd j \<and> j \<le> k)
     \<and> (\<forall>x\<in>set es. endpoint_of (ee_kind x) (ee_from x) \<in> set ids \<and> endpoint_of (ee_kind x) (ee_to x) \<in> set ids)
     \<and> acyclic (edge_rel es) \<and> (\<forall>g\<in>set gs. set g \<subseteq> set ids)"

definition entry_ok :: "nat \<Rightarrow> history_entry \<Rightarrow> bool" where
  "entry_ok k e \<longleftrightarrow> graph_ok k (map en_id (he_nodes e)) (he_edges e) (map eg_nodeIds (he_groups e))"

definition editor_ok :: "editor \<Rightarrow> bool" where
  "editor_ok s \<longleftrightarrow> entry_ok (gs_sequence s) (snapshotGraph s) \<and> pred_option (entry_ok (gs_sequence s)) (gs_layoutBefore s)
     \<and> (\<forall>e\<in>set (gs_undo s) \<union> set (gs_redo s). entry_ok (gs_sequence s) e)
     \<and> length (gs_undo s) + length (gs_redo s) \<le> HISTORY_CAP"

lemma entry_ok_mono: "entry_ok k e \<Longrightarrow> k \<le> l \<Longrightarrow> entry_ok l e"
  unfolding entry_ok_def graph_ok_def by (meson le_trans)

lemma edge_id_inj: "edge_id r j = edge_id r' j' \<Longrightarrow> j = j'"
proof -
  assume eq: "edge_id r j = edge_id r' j'"
  have suffix: "takeWhile (\<lambda>c. c \<noteq> CHR ''-'') (rev (edge_id a n)) = rev (digit_string n)" for a n
  proof -
    have split: "rev (edge_id a n) = rev (digit_string n) @ CHR ''-'' # rev (''e-'' @ a)" by (simp add: edge_id_def)
    have "\<forall>c\<in>set (rev (digit_string n)). c \<noteq> CHR ''-''" using digit_string_dashless [of n] by (metis set_rev)
    thus ?thesis unfolding split by (subst takeWhile_append2) simp_all
  qed
  have "rev (digit_string j) = rev (digit_string j')" using suffix eq by metis
  thus ?thesis using digit_string_inj by simp
qed

lemma endpoint_parts_ok:
  assumes "idPattern i"
  shows "endpoint_of DataEdge (i @ CHR ''.'' # v) = i" "endpoint_of ControlEdge (i @ CHR ''@'' # v) = i" "endpoint_of ControlEdge i = i"
    "before_char CHR ''.'' (i @ CHR ''.'' # v) = i"
proof -
  note sep = idPattern_separators [OF assms]
  show "endpoint_of DataEdge (i @ CHR ''.'' # v) = i" "endpoint_of ControlEdge (i @ CHR ''@'' # v) = i"
    "before_char CHR ''.'' (i @ CHR ''.'' # v) = i"
    using sep by (simp_all add: endpoint_of_def before_char_append)
  show "endpoint_of ControlEdge i = i"
    using sep by (auto simp: endpoint_of_def before_char_def takeWhile_eq_all_conv)
qed

text \<open>Where an endpoint names a node by its id, the first part of the text is that id.\<close>

lemma takeWhile_two:
  "a \<notin> set (takeWhile (\<lambda>x. x \<noteq> c) v) \<Longrightarrow> b \<notin> set (takeWhile (\<lambda>x. x \<noteq> c) v) \<Longrightarrow> c = a \<or> c = b
    \<Longrightarrow> takeWhile (\<lambda>x. x \<noteq> a \<and> x \<noteq> b) v = takeWhile (\<lambda>x. x \<noteq> c) v"
  by (induction v) (auto split: if_splits)

lemma first_part_endpoint:
  assumes "idPattern (endpoint_of k v)"
  shows "first_part v = endpoint_of k v"
  using idPattern_separators [OF assms]
  by (cases k; simp only: first_part_def endpoint_of_def before_char_def edge_kind.distinct if_True if_False simp_thms)
    (rule takeWhile_two; simp)+

section \<open>The laws of a command\<close>

definition stacks :: "editor \<Rightarrow> history_entry list \<times> history_entry list \<times> history_entry option" where
  "stacks s = (gs_undo s, gs_redo s, gs_layoutBefore s)"

definition editor_keeps :: "editor \<Rightarrow> editor \<Rightarrow> bool" where
  "editor_keeps s s' \<longleftrightarrow> (editor_ok s \<longrightarrow> editor_ok s') \<and> gs_sequence s \<le> gs_sequence s' \<and> gs_depth s' = gs_depth s
     \<and> (gs_depth s \<noteq> 0 \<longrightarrow> stacks s' = stacks s)"

locale editor_command =
  fixes cmd :: "'a command"
  assumes keeps_ok: "editor_ok s \<Longrightarrow> editor_ok (snd (cmd s))"
    and counts_up: "gs_sequence s \<le> gs_sequence (snd (cmd s))"
    and balanced: "gs_depth (snd (cmd s)) = gs_depth s"
    and inside: "gs_depth s \<noteq> 0 \<Longrightarrow> stacks (snd (cmd s)) = stacks s"
begin

lemma keeps: "editor_keeps s (snd (cmd s))"
  using keeps_ok counts_up balanced inside by (simp add: editor_keeps_def)

end

lemma editor_keeps_refl: "editor_keeps s s"
  by (simp add: editor_keeps_def)

lemma editor_keeps_trans: "editor_keeps s t \<Longrightarrow> editor_keeps t u \<Longrightarrow> editor_keeps s u"
  by (auto simp: editor_keeps_def)

lemma push_capped_set: "set (push_capped e xs) \<subseteq> insert e (set xs)"
  using list.set_sel(2)[of "xs @ [e]"] by (auto simp: push_capped_def Let_def dest: list.set_sel(2)[rotated])

lemma push_capped_length: "length (push_capped e xs) \<le> max HISTORY_CAP (length xs)"
  by (simp add: push_capped_def Let_def)

lemma push_capped_last [simp]: "last (push_capped e xs) = e" "push_capped e xs \<noteq> []"
  by (cases xs; simp add: push_capped_def Let_def HISTORY_CAP_def)+

lemma edit_ok:
  assumes "editor_ok s" and "stacks s' = stacks s" and "gs_sequence s \<le> gs_sequence s'"
    and "entry_ok (gs_sequence s') (snapshotGraph s')"
  shows "editor_ok s'"
  using assms entry_ok_mono [OF _ assms(3)] unfolding editor_ok_def stacks_def
  by (auto simp: pred_option_def)

lemma base_ok: "editor_ok s \<Longrightarrow> entry_ok (gs_sequence s) (history_base s)"
  by (auto simp: editor_ok_def history_base_def split: option.splits)

lemma push_ok: "editor_ok s \<Longrightarrow> editor_ok (pushHistory s)"
  using base_ok [of s] push_capped_set [of "history_base s" "gs_undo s"] push_capped_length [of "history_base s" "gs_undo s"]
  by (auto simp: editor_ok_def pushHistory_def snapshotGraph_def)

lemma push_fields [simp]:
  "gs_nodes (pushHistory s) = gs_nodes s" "gs_edges (pushHistory s) = gs_edges s" "gs_groups (pushHistory s) = gs_groups s"
  "gs_selection (pushHistory s) = gs_selection s" "gs_definition (pushHistory s) = gs_definition s"
  "gs_depth (pushHistory s) = gs_depth s" "gs_sequence (pushHistory s) = gs_sequence s"
  by (simp_all add: pushHistory_def)

lemma push_inside: "gs_depth s \<noteq> 0 \<Longrightarrow> pushHistory s = s"
  by (simp add: pushHistory_def)

definition entry_now :: "editor \<Rightarrow> bool" where
  "entry_now s \<longleftrightarrow> graph_ok (gs_sequence s) (map en_id (gs_nodes s)) (gs_edges s) (map eg_nodeIds (gs_groups s))"

lemma entry_now: "entry_ok (gs_sequence s) (snapshotGraph s) = entry_now s"
  by (simp add: entry_now_def entry_ok_def snapshotGraph_def)

lemma editor_now: "editor_ok s \<Longrightarrow> entry_now s"
  by (simp add: editor_ok_def entry_now)

lemma pushed_edit_ok:
  assumes "editor_ok s" and "stacks s' = stacks (pushHistory s)" and "gs_sequence s \<le> gs_sequence s'" and "entry_now s'"
  shows "editor_ok s'"
  using edit_ok [OF push_ok [OF assms(1)] assms(2)] assms(3,4) by (simp add: entry_now)

lemma plain_edit_ok:
  assumes "editor_ok s" and "stacks s' = stacks s" and "gs_sequence s \<le> gs_sequence s'" and "entry_now s'"
  shows "editor_ok s'"
  using edit_ok [OF assms(1-3)] assms(4) by (simp add: entry_now)

section \<open>Edges\<close>

lemma edge_rel_data: "edge_rel es = (\<lambda>e. (endpoint_of DataEdge (ee_from e), endpoint_of DataEdge (ee_to e))) ` {e \<in> set es. ee_kind e = DataEdge}"
  by (simp add: edge_rel_def step_rel_def endpoint_of_def)

lemma followed_all: "step_rel (followed_edges None es) = edge_rel es"
  by (simp add: followed_edges_def edge_rel_def)

lemma followed_rel: "step_rel (followed_edges ignore es) = edge_rel (filter (\<lambda>e. Some (ee_id e) \<noteq> ignore) es)"
  by (simp add: followed_edges_def edge_rel_def filter_filter conj_commute)

lemma find_node_id: "find_node s i = Some n \<Longrightarrow> n \<in> set (gs_nodes s) \<and> en_id n = i"
  unfolding find_node_def by (rule find_Some_set)

lemma admitted:
  assumes "checkConnection s p q ignore False = ConnectionOk" and "entry_now s"
    and "edgeEndpoints s p q = (kind, source, target)"
  shows "endpoint_of kind source = pt_nodeId p" "endpoint_of kind target = pt_nodeId q"
    "pt_nodeId p \<in> en_id ` set (gs_nodes s)" "pt_nodeId q \<in> en_id ` set (gs_nodes s)"
    "kind = DataEdge \<Longrightarrow> (pt_nodeId q, pt_nodeId p) \<notin> (step_rel (followed_edges ignore (gs_edges s)))\<^sup>*"
proof -
  have found: "find_node s (pt_nodeId p) \<noteq> None" "find_node s (pt_nodeId q) \<noteq> None"
    using assms(1) by (auto simp: checkConnection_def split: if_splits)
  thus ids: "pt_nodeId p \<in> en_id ` set (gs_nodes s)" "pt_nodeId q \<in> en_id ` set (gs_nodes s)"
    using find_node_id [of s "pt_nodeId p"] find_node_id [of s "pt_nodeId q"] by (force, force)
  hence pat: "idPattern (pt_nodeId p)" "idPattern (pt_nodeId q)"
    using assms(2) by (auto simp: entry_now_def graph_ok_def)
  have k: "kind = port_kind p" using assms(3) by (simp add: edgeEndpoints_def Let_def)
  show "endpoint_of kind source = pt_nodeId p" "endpoint_of kind target = pt_nodeId q"
    using assms(3) endpoint_parts_ok [OF pat(1)] endpoint_parts_ok [OF pat(2)]
    by (cases "port_kind p"; auto simp: edgeEndpoints_def Let_def)+
  show "(pt_nodeId q, pt_nodeId p) \<notin> (step_rel (followed_edges ignore (gs_edges s)))\<^sup>*" if "kind = DataEdge"
    unfolding search_data_exact [symmetric]
    using assms(1) that k by (auto simp: checkConnection_def data_verdict_def Let_def simp del: search_data.simps split: if_splits)
qed

lemma graph_ok_add:
  assumes g: "graph_ok k ids es gs" and i: "ee_id e = edge_id rnd (Suc k)"
    and ends: "endpoint_of (ee_kind e) (ee_from e) \<in> set ids" "endpoint_of (ee_kind e) (ee_to e) \<in> set ids"
    and new: "ee_kind e = DataEdge \<Longrightarrow> (endpoint_of DataEdge (ee_to e), endpoint_of DataEdge (ee_from e)) \<notin> (edge_rel es)\<^sup>*"
  shows "graph_ok (Suc k) ids (es @ [e]) gs"
proof -
  have "ee_id x \<noteq> ee_id e" if "x \<in> set es" for x
    using g that i edge_id_inj unfolding graph_ok_def by (metis Suc_n_not_le_n)
  hence "distinct (map ee_id (es @ [e]))" using g by (auto simp: graph_ok_def)
  moreover have "acyclic (edge_rel (es @ [e]))"
  proof (cases "ee_kind e = DataEdge")
    case True
    hence "edge_rel (es @ [e]) = insert (endpoint_of DataEdge (ee_from e), endpoint_of DataEdge (ee_to e)) (edge_rel es)"
      by (auto simp: edge_rel_data)
    thus ?thesis using g new [OF True] by (simp add: graph_ok_def Transitive_Closure.acyclic_insert)
  next
    case False
    hence "edge_rel (es @ [e]) = edge_rel es" by (auto simp: edge_rel_data)
    thus ?thesis using g by (simp add: graph_ok_def)
  qed
  moreover have "\<exists>rnd j. ee_id x = edge_id rnd j \<and> j \<le> Suc k" if "x \<in> set (es @ [e])" for x
    using that g i unfolding graph_ok_def by (auto; meson le_SucI)
  ultimately show ?thesis using g ends unfolding graph_ok_def by auto
qed

lemma distinct_update_first_split:
  assumes "distinct (map f xs)" and "List.find (\<lambda>x. f x = i) xs = Some x"
  shows "set (update_first (\<lambda>x. f x = i) h xs) = insert (h x) {y \<in> set xs. f y \<noteq> i}"
  using assms
proof (induction xs)
  case (Cons y ys)
  show ?case
  proof (cases "f y = i")
    case True
    hence "\<forall>z\<in>set ys. f z \<noteq> i" using Cons.prems(1) by (auto simp: image_iff)
    thus ?thesis using Cons.prems(2) True by auto
  next
    case False
    thus ?thesis using Cons by auto
  qed
qed simp

lemma graph_ok_replace:
  assumes g: "graph_ok k ids es gs" and found: "List.find (\<lambda>e. ee_id e = i) es = Some e"
    and h: "ee_id (h e) = ee_id e" "map ee_id (update_first (\<lambda>e. ee_id e = i) h es) = map ee_id es"
    and ends: "endpoint_of (ee_kind (h e)) (ee_from (h e)) \<in> set ids" "endpoint_of (ee_kind (h e)) (ee_to (h e)) \<in> set ids"
    and new: "ee_kind (h e) = DataEdge \<Longrightarrow> (endpoint_of DataEdge (ee_to (h e)), endpoint_of DataEdge (ee_from (h e)))
        \<notin> (edge_rel (filter (\<lambda>x. ee_id x \<noteq> i) es))\<^sup>*"
  shows "graph_ok k ids (update_first (\<lambda>e. ee_id e = i) h es) gs"
proof -
  let ?es = "update_first (\<lambda>e. ee_id e = i) h es" and ?rest = "filter (\<lambda>x. ee_id x \<noteq> i) es"
  have "distinct (map ee_id es)" using g by (simp add: graph_ok_def)
  note set = distinct_update_first_split [OF this found, of h]
  have "edge_rel ?rest \<subseteq> edge_rel es" by (auto simp: edge_rel_data)
  hence rest: "acyclic (edge_rel ?rest)" using g acyclic_subset unfolding graph_ok_def by blast
  have "acyclic (edge_rel ?es)"
  proof (cases "ee_kind (h e) = DataEdge")
    case True
    hence "edge_rel ?es = insert (endpoint_of DataEdge (ee_from (h e)), endpoint_of DataEdge (ee_to (h e))) (edge_rel ?rest)"
      unfolding edge_rel_data set by auto
    thus ?thesis using rest new [OF True] by (simp add: Transitive_Closure.acyclic_insert)
  next
    case False
    hence "edge_rel ?es = edge_rel ?rest" unfolding edge_rel_data set by auto
    thus ?thesis using rest by simp
  qed
  moreover have "e \<in> set es" using find_Some_set [OF found] by simp
  ultimately show ?thesis
    using g h ends unfolding graph_ok_def set by (auto)
qed

lemma graph_ok_drop:
  assumes g: "graph_ok k ids es gs" and "\<And>x. x \<in> set ids' \<longleftrightarrow> x \<in> set ids \<and> x \<notin> doomed" and "distinct ids'"
    and "\<And>x. x \<in> set es' \<Longrightarrow> x \<in> set es \<and> first_part (ee_from x) \<notin> doomed \<and> first_part (ee_to x) \<notin> doomed"
    and "distinct (map ee_id es')" and "\<And>g'. g' \<in> set gs' \<Longrightarrow> \<exists>g0\<in>set gs. set g' \<subseteq> set g0 - doomed"
  shows "graph_ok k ids' es' gs'"
proof -
  have "edge_rel es' \<subseteq> edge_rel es" using assms(4) by (auto simp: edge_rel_data)
  hence "acyclic (edge_rel es')" using g acyclic_subset unfolding graph_ok_def by blast
  moreover have "endpoint_of (ee_kind x) (ee_from x) \<in> set ids' \<and> endpoint_of (ee_kind x) (ee_to x) \<in> set ids'" if "x \<in> set es'" for x
  proof -
    have "endpoint_of (ee_kind x) (ee_from x) \<in> set ids" "endpoint_of (ee_kind x) (ee_to x) \<in> set ids"
      using g assms(4) [OF that] by (auto simp: graph_ok_def)
    moreover from this have "idPattern (endpoint_of (ee_kind x) (ee_from x))" "idPattern (endpoint_of (ee_kind x) (ee_to x))"
      using g by (auto simp: graph_ok_def)
    ultimately show ?thesis using assms(2) assms(4) [OF that] first_part_endpoint by metis
  qed
  moreover have "\<exists>rnd j. ee_id x = edge_id rnd j \<and> j \<le> k" if "x \<in> set es'" for x
    using g assms(4) [OF that] by (auto simp: graph_ok_def)
  moreover have "set g' \<subseteq> set ids'" if "g' \<in> set gs'" for g'
    using assms(6) [OF that] g assms(2) by (fastforce simp: graph_ok_def)
  ultimately show ?thesis using g assms(2,3,5) by (simp add: graph_ok_def)
qed

end
