(* ===== verification/EditorLaws.thy ===== *)
theory EditorLaws
  imports EditorFacts
begin

text \<open>
  The history of the editor as a timeline: past graphs, the present one, and undone future ones, with a
  bounded past. The stacks and the pending gesture of the editor implement it. The laws of commands are
  locales: \<open>timeline_command\<close> for every command, \<open>edit_command\<close> for those that record themselves.
\<close>

section \<open>Timelines\<close>

record timeline =
  tl_past :: "history_entry list"
  tl_present :: history_entry
  tl_future :: "history_entry list"

definition record_edit :: "history_entry \<Rightarrow> timeline \<Rightarrow> timeline" where
  "record_edit g t = \<lparr>tl_past = push_capped (tl_present t) (tl_past t), tl_present = g, tl_future = []\<rparr>"

definition step_back :: "timeline \<Rightarrow> timeline" where
  "step_back t = \<lparr>tl_past = butlast (tl_past t), tl_present = last (tl_past t), tl_future = tl_future t @ [tl_present t]\<rparr>"

definition step_forward :: "timeline \<Rightarrow> timeline" where
  "step_forward t = \<lparr>tl_past = tl_past t @ [tl_present t], tl_present = last (tl_future t), tl_future = butlast (tl_future t)\<rparr>"

inductive timeline_step :: "timeline \<Rightarrow> timeline \<Rightarrow> bool" where
  ts_stutter: "timeline_step t t"
| ts_record: "timeline_step t (record_edit g t)"
| ts_back: "tl_past t \<noteq> [] \<Longrightarrow> timeline_step t (step_back t)"
| ts_forward: "tl_future t \<noteq> [] \<Longrightarrow> timeline_step t (step_forward t)"

text \<open>The timeline an editor stands for. While a gesture is pending the present is what it started from.\<close>

definition timeline_of :: "editor \<Rightarrow> timeline" where
  "timeline_of s = \<lparr>tl_past = map entry_graph (gs_undo s), tl_present = entry_graph (history_base s),
     tl_future = map entry_graph (gs_redo s)\<rparr>"

text \<open>A pending gesture has only moved nodes.\<close>

definition gesture_ok :: "editor \<Rightarrow> bool" where
  "gesture_ok s \<longleftrightarrow> pred_option (\<lambda>e. he_definition e = gs_definition s \<and> he_edges e = gs_edges s \<and> he_groups e = gs_groups s) (gs_layoutBefore s)"

definition editor_refines :: "editor \<Rightarrow> editor \<Rightarrow> bool" where
  "editor_refines s s' \<longleftrightarrow> (gs_depth s = 0 \<longrightarrow> gesture_ok s \<longrightarrow> gesture_ok s' \<and> timeline_step (timeline_of s) (timeline_of s'))"

definition editor_law :: "editor \<Rightarrow> editor \<Rightarrow> bool" where
  "editor_law s s' \<longleftrightarrow> editor_keeps s s' \<and> editor_refines s s'"

locale timeline_command = editor_command +
  assumes refines: "editor_refines s (snd (cmd s))"
begin

lemma law: "editor_law s (snd (cmd s))"
  using keeps refines by (simp add: editor_law_def)

end

lemma entry_graph_eq:
  "entry_graph e = entry_graph f \<longleftrightarrow> he_definition e = he_definition f \<and> he_nodes e = he_nodes f \<and> he_edges e = he_edges f \<and> he_groups e = he_groups f"
  by (cases e; cases f) (simp add: entry_graph_def)

lemma entry_graph_idem [simp]: "entry_graph (entry_graph e) = entry_graph e" "entry_graph (e\<lparr>he_selection := xs\<rparr>) = entry_graph e"
  by (simp_all add: entry_graph_def)

lemma map_entry_push: "map entry_graph (push_capped e xs) = push_capped (entry_graph e) (map entry_graph xs)"
  unfolding push_capped_def Let_def by (cases xs) simp_all

lemma quiet_refines:
  assumes "stacks s' = stacks s" and "entry_graph (snapshotGraph s') = entry_graph (snapshotGraph s)"
  shows "editor_refines s s'"
proof -
  have "timeline_of s' = timeline_of s"
    using assms by (auto simp: timeline_of_def stacks_def history_base_def split: option.splits)
  moreover have "gesture_ok s \<Longrightarrow> gesture_ok s'"
    using assms by (auto simp: gesture_ok_def stacks_def entry_graph_eq snapshotGraph_def)
  ultimately show ?thesis by (simp add: editor_refines_def ts_stutter)
qed

lemma recorded_refines:
  assumes "gs_undo s' = push_capped (history_base s) (gs_undo s)" "gs_redo s' = []" "gs_layoutBefore s' = None"
  shows "editor_refines s s'"
proof -
  have "timeline_of s' = record_edit (entry_graph (snapshotGraph s')) (timeline_of s)"
    using assms by (simp add: timeline_of_def record_edit_def history_base_def map_entry_push)
  moreover have "gesture_ok s'" using assms(3) by (simp add: gesture_ok_def)
  ultimately show ?thesis by (simp add: editor_refines_def ts_record)
qed

section \<open>Commands that record themselves\<close>

definition edit_shape :: "editor \<Rightarrow> editor \<Rightarrow> bool" where
  "edit_shape s s' \<longleftrightarrow> (stacks s' = stacks s \<and> entry_graph (snapshotGraph s') = entry_graph (snapshotGraph s))
     \<or> stacks s' = stacks (pushHistory s)"

locale edit_command =
  fixes cmd :: "'a command"
  assumes shape: "edit_shape s (snd (cmd s))"
    and graph: "entry_now s \<Longrightarrow> entry_now (snd (cmd s))"
    and counts: "gs_sequence s \<le> gs_sequence (snd (cmd s))"
    and depth: "gs_depth (snd (cmd s)) = gs_depth s"

sublocale edit_command \<subseteq> timeline_command
proof
  fix s
  show "gs_sequence s \<le> gs_sequence (snd (cmd s))" by (rule counts)
  show "gs_depth (snd (cmd s)) = gs_depth s" by (rule depth)
  show "editor_ok (snd (cmd s))" if "editor_ok s"
    using shape [of s] plain_edit_ok [OF that _ counts graph] pushed_edit_ok [OF that _ counts graph] editor_now [OF that]
    unfolding edit_shape_def by blast
  show "stacks (snd (cmd s)) = stacks s" if "gs_depth s \<noteq> 0"
    using shape [of s] push_inside [OF that] unfolding edit_shape_def by auto
  show "editor_refines s (snd (cmd s))"
  proof (cases "stacks (snd (cmd s)) = stacks s \<and> entry_graph (snapshotGraph (snd (cmd s))) = entry_graph (snapshotGraph s)")
    case True
    thus ?thesis by (simp add: quiet_refines)
  next
    case False
    hence p: "stacks (snd (cmd s)) = stacks (pushHistory s)" using shape [of s] unfolding edit_shape_def by blast
    show ?thesis
    proof (cases "gs_depth s = 0")
      case True
      thus ?thesis using p by (intro recorded_refines) (auto simp: stacks_def pushHistory_def)
    qed (simp add: editor_refines_def)
  qed
qed

context edit_command begin

lemma edit_law: "editor_law s (snd (cmd s))"
  by (rule law)

end

lemma edit_shape_quiet:
  "stacks s' = stacks s \<Longrightarrow> entry_graph (snapshotGraph s') = entry_graph (snapshotGraph s) \<Longrightarrow> edit_shape s s'"
  by (simp add: edit_shape_def)

lemma edit_shape_refl [simp]: "edit_shape s s"
  by (simp add: edit_shape_def)

lemma edit_shape_push: "stacks s' = stacks (pushHistory s) \<Longrightarrow> edit_shape s s'"
  by (simp add: edit_shape_def)

section \<open>Transactions\<close>

lemma editor_ok_depth [simp]: "editor_ok (s\<lparr>gs_depth := n\<rparr>) = editor_ok s"
  by (simp add: editor_ok_def snapshotGraph_def)

lemma commit_ok:
  assumes ok: "editor_ok s" and base: "entry_ok (gs_sequence s) (case pending of None \<Rightarrow> before | Some p \<Rightarrow> p)"
  shows "editor_ok (commitTransaction before pending after s)"
  using ok base push_capped_set [of "case pending of None \<Rightarrow> before | Some p \<Rightarrow> p" "gs_undo s"]
    push_capped_length [of "case pending of None \<Rightarrow> before | Some p \<Rightarrow> p" "gs_undo s"]
  by (auto simp: editor_ok_def commitTransaction_def Let_def snapshotGraph_def)

lemma transaction_cases:
  assumes "editor_keeps (s\<lparr>gs_depth := Suc (gs_depth s)\<rparr>) (snd (fn (s\<lparr>gs_depth := Suc (gs_depth s)\<rparr>)))"
  obtains
    (rolled_back) t e where "transaction fn s = (Inl e, (restoreGraph (snapshotGraph s) t)\<lparr>gs_undo := gs_undo s, gs_redo := gs_redo s,
        gs_layoutBefore := gs_layoutBefore s, gs_depth := gs_depth s\<rparr>)" "gs_sequence s \<le> gs_sequence t"
  | (nested) t v where "transaction fn s = (Inr v, t)" "gs_depth s \<noteq> 0" "gs_depth t = gs_depth s" "stacks t = stacks s"
      "gs_sequence s \<le> gs_sequence t" "editor_ok s \<Longrightarrow> editor_ok t"
  | (committed) t v where "transaction fn s = (Inr v, commitTransaction (snapshotGraph s) (gs_layoutBefore s) (snapshotGraph t) t)"
      "gs_depth s = 0" "gs_depth t = 0" "stacks t = stacks s" "gs_sequence s \<le> gs_sequence t" "editor_ok s \<Longrightarrow> editor_ok t"
proof -
  let ?s1 = "s\<lparr>gs_depth := Suc (gs_depth s)\<rparr>"
  obtain res u where fn: "fn ?s1 = (res, u)" by (cases "fn ?s1")
  have u: "gs_sequence s \<le> gs_sequence u" "gs_depth u = Suc (gs_depth s)" "stacks u = stacks s" "editor_ok s \<Longrightarrow> editor_ok u"
    using assms fn by (auto simp: editor_keeps_def stacks_def)
  let ?t = "u\<lparr>gs_depth := gs_depth u - 1\<rparr>"
  have t: "gs_depth ?t = gs_depth s" "stacks ?t = stacks s" "gs_sequence s \<le> gs_sequence ?t" "editor_ok s \<Longrightarrow> editor_ok ?t"
    using u by (auto simp: stacks_def)
  let ?checked = "ebind res (\<lambda>v. if gs_depth s = 0 then ebind (exportLayout u) (\<lambda>l. ebind (checkOwnLayout u l) (\<lambda>_. Inr v)) else Inr v)"
  show thesis
  proof (cases ?checked)
    case (Inl e)
    thus thesis using u fn by (intro rolled_back) (auto simp: transaction_def Let_def)
  next
    case (Inr v)
    show thesis
    proof (cases "gs_depth s = 0")
      case True
      thus thesis using Inr fn t committed [of v ?t] by (simp add: transaction_def Let_def)
    next
      case False
      thus thesis using Inr fn t nested [of v ?t] by (simp add: transaction_def Let_def)
    qed
  qed
qed

lemma transaction_law:
  assumes "editor_keeps (s\<lparr>gs_depth := Suc (gs_depth s)\<rparr>) (snd (fn (s\<lparr>gs_depth := Suc (gs_depth s)\<rparr>)))"
  shows "editor_law s (snd (transaction fn s))"
  using assms
proof (cases rule: transaction_cases)
  case (rolled_back t e)
  let ?r = "(restoreGraph (snapshotGraph s) t)\<lparr>gs_undo := gs_undo s, gs_redo := gs_redo s, gs_layoutBefore := gs_layoutBefore s, gs_depth := gs_depth s\<rparr>"
  have same: "snapshotGraph ?r = snapshotGraph s" "stacks ?r = stacks s" "gs_depth ?r = gs_depth s" "gs_sequence s \<le> gs_sequence ?r"
    using rolled_back(2) by (simp_all add: snapshotGraph_def restoreGraph_def stacks_def)
  have "editor_ok s \<Longrightarrow> editor_ok ?r"
  proof -
    assume "editor_ok s"
    hence "entry_ok (gs_sequence ?r) (snapshotGraph ?r)"
      using entry_ok_mono [OF _ same(4)] unfolding same(1) by (simp add: editor_ok_def)
    thus "editor_ok ?r" using edit_ok [OF \<open>editor_ok s\<close> same(2,4)] by blast
  qed
  thus ?thesis using rolled_back(1) same quiet_refines [OF same(2)] by (simp add: editor_law_def editor_keeps_def)
next
  case (nested t v)
  thus ?thesis by (simp add: editor_law_def editor_keeps_def editor_refines_def)
next
  case (committed t v)
  let ?c = "commitTransaction (snapshotGraph s) (gs_layoutBefore s) (snapshotGraph t) t"
  have base: "(case gs_layoutBefore s of None \<Rightarrow> snapshotGraph s | Some p \<Rightarrow> p) = history_base s" by (simp add: history_base_def)
  have fields: "gs_depth ?c = 0" "gs_sequence ?c = gs_sequence t" "gs_layoutBefore ?c = None" "snapshotGraph ?c = snapshotGraph t"
    using committed(3) by (simp_all add: commitTransaction_def Let_def snapshotGraph_def)
  have commit: "?c = (if entry_graph (history_base s) \<noteq> entry_graph (snapshotGraph t)
      then t\<lparr>gs_layoutBefore := None, gs_undo := push_capped (history_base s) (gs_undo t), gs_redo := []\<rparr>
      else t\<lparr>gs_layoutBefore := None\<rparr>)"
    by (simp add: commitTransaction_def base Let_def)
  have "editor_ok ?c" if "editor_ok s"
    by (rule commit_ok [OF committed(6) [OF that]]) (simp only: base entry_ok_mono [OF base_ok [OF that] committed(5)])
  moreover have "editor_refines s ?c"
  proof (cases "entry_graph (history_base s) = entry_graph (snapshotGraph t)")
    case True
    hence "timeline_of ?c = timeline_of s" "gesture_ok ?c"
      using committed(4) True unfolding timeline_of_def gesture_ok_def commit
      by (simp_all add: stacks_def history_base_def [of "t\<lparr>gs_layoutBefore := None\<rparr>"] snapshotGraph_def [of "t\<lparr>gs_layoutBefore := None\<rparr>"] snapshotGraph_def [of t])
    thus ?thesis by (simp add: editor_refines_def ts_stutter)
  next
    case False
    thus ?thesis using committed(4) unfolding commit by (intro recorded_refines) (simp_all add: stacks_def)
  qed
  ultimately show ?thesis using committed fields by (simp add: editor_law_def editor_keeps_def)
qed

section \<open>The commands obey the laws\<close>

lemma map_id_update_first: "(\<And>x. f (h x) = f x) \<Longrightarrow> map f (update_first p h xs) = map f xs"
  by (induction xs) auto

lemmas edit_defs = stacks_def snapshotGraph_def entry_now_def

interpretation connect: edit_command "connect p q rnd" for p q rnd
proof
  fix s
  obtain kind source target where ends: "edgeEndpoints s p q = (kind, source, target)" by (metis prod_cases3)
  show "edit_shape s (snd (connect p q rnd s))"
    by (auto simp: connect_def Let_def ends nextEdgeId_def edit_defs intro!: edit_shape_push split: prod.splits)
  show "gs_sequence s \<le> gs_sequence (snd (connect p q rnd s))" "gs_depth (snd (connect p q rnd s)) = gs_depth s"
    by (simp_all add: connect_def Let_def ends nextEdgeId_def)
  assume now: "entry_now s"
  show "entry_now (snd (connect p q rnd s))"
  proof (cases "checkConnection s p q None False = ConnectionOk")
    case True
    note a = admitted [OF True now ends]
    have "graph_ok (Suc (gs_sequence s)) (map en_id (gs_nodes s))
        (gs_edges s @ [\<lparr>ee_id = edge_id rnd (Suc (gs_sequence s)), ee_kind = kind, ee_from = source, ee_to = target, ee_points = None\<rparr>])
        (map eg_nodeIds (gs_groups s))"
      by (rule graph_ok_add [where rnd = rnd]) (use now a in \<open>auto simp: entry_now_def followed_all\<close>)
    thus ?thesis using True by (simp add: connect_def Let_def ends nextEdgeId_def entry_now_def)
  qed (use now in \<open>simp add: connect_def\<close>)
qed

interpretation removeEdge: edit_command "removeEdge i" for i
proof
  fix s
  show "edit_shape s (snd (removeEdge i s))" "gs_sequence s \<le> gs_sequence (snd (removeEdge i s))"
    "gs_depth (snd (removeEdge i s)) = gs_depth s"
    by (auto simp: removeEdge_def Let_def edit_defs intro: edit_shape_push)
  have sub: "set (remove_first f xs) \<subseteq> set xs" "distinct (map g xs) \<Longrightarrow> distinct (map g (remove_first f xs))"
    for f :: "editor_edge \<Rightarrow> bool" and g :: "editor_edge \<Rightarrow> string" and xs
  proof -
    show sub: "set (remove_first f xs) \<subseteq> set xs" for xs by (induction xs) auto
    show "distinct (map g xs) \<Longrightarrow> distinct (map g (remove_first f xs))"
      by (induction xs) (use sub in \<open>auto simp: image_iff\<close>)
  qed
  assume now: "entry_now s"
  have "graph_ok (gs_sequence s) (map en_id (gs_nodes s)) (remove_first (\<lambda>e. ee_id e = i) (gs_edges s)) (map eg_nodeIds (gs_groups s))"
    by (rule graph_ok_drop [where doomed = "{}", OF now [unfolded entry_now_def]])
      (use now sub in \<open>auto simp: entry_now_def graph_ok_def\<close>)
  thus "entry_now (snd (removeEdge i s))" using now by (simp add: removeEdge_def Let_def entry_now_def)
qed

lemma drop_nodes_now:
  assumes "entry_now s"
  shows "entry_now (drop_nodes doomed edgeIds s)"
proof -
  have d: "distinct (map en_id (filter P (gs_nodes s)))" "distinct (map ee_id (filter Q (gs_edges s)))" for P Q
    using assms by (simp_all add: entry_now_def graph_ok_def distinct_map_filter)
  show ?thesis
    unfolding entry_now_def drop_nodes_def
    by (simp, rule graph_ok_drop [where doomed = doomed, OF assms [unfolded entry_now_def]]) (auto simp: d)
qed

lemma drop_nodes_fields [simp]:
  "gs_sequence (drop_nodes a b s) = gs_sequence s" "gs_depth (drop_nodes a b s) = gs_depth s" "stacks (drop_nodes a b s) = stacks s"
  by (simp_all add: drop_nodes_def stacks_def)

lemma push_now [simp]: "entry_now (pushHistory s) = entry_now s"
  by (simp add: entry_now_def)

interpretation removeSelected: edit_command removeSelected
  by unfold_locales (auto simp: removeSelected_def intro: edit_shape_push drop_nodes_now)

interpretation deleteItems: edit_command "deleteItems nodeIds edgeIds" for nodeIds edgeIds
  by unfold_locales (auto simp: deleteItems_def intro: edit_shape_push drop_nodes_now)

interpretation updateNode: edit_command "updateNode i patch" for i patch
  by unfold_locales
    (auto simp: updateNode_def Let_def edit_defs map_id_update_first intro: edit_shape_push split: option.splits)

interpretation setSelection: edit_command "setSelection ids" for ids
  by unfold_locales (auto simp: setSelection_def Let_def edit_defs entry_graph_def intro: edit_shape_quiet)

interpretation toggleSelect: edit_command "toggleSelect i adding" for i adding
  by unfold_locales (auto simp: toggleSelect_def Let_def edit_defs entry_graph_def intro: edit_shape_quiet)

lemma requireNodes_known:
  assumes "requireNodes s ids = Inr ns"
  shows "set ids \<subseteq> en_id ` set (gs_nodes s)" "set (map en_id ns) = set ids"
proof -
  have "find_node s i \<noteq> None" if "i \<in> set ids" for i
  proof -
    have "None \<notin> find_node s ` set ids"
      using assms by (auto simp: requireNodes_def js_set_def Let_def simp del: image_iff split: if_splits)
    thus ?thesis using that by (metis image_eqI)
  qed
  thus "set ids \<subseteq> en_id ` set (gs_nodes s)" using find_node_id by (blast dest: find_node_id)
  have "en_id (the (find_node s i)) = i" if "i \<in> set ids" for i
    using \<open>\<And>i. i \<in> set ids \<Longrightarrow> find_node s i \<noteq> None\<close> [OF that] find_node_id by auto
  thus "set (map en_id ns) = set ids"
    using assms by (force simp: requireNodes_def js_set_def Let_def split: if_splits)
qed

interpretation groupSelection: edit_command "groupSelection label rnd" for label rnd
proof
  fix s
  show "edit_shape s (snd (groupSelection label rnd s))" "gs_sequence s \<le> gs_sequence (snd (groupSelection label rnd s))"
    "gs_depth (snd (groupSelection label rnd s)) = gs_depth s"
    by (auto simp: groupSelection_def Let_def nextGroupId_def edit_defs intro: edit_shape_push split: sum.splits)
  assume now: "entry_now s"
  show "entry_now (snd (groupSelection label rnd s))"
  proof (cases "requireNodes s (gs_selection s)")
    case (Inr ns)
    thus ?thesis
      using now requireNodes_known [OF Inr] entry_ok_mono
      by (auto simp: groupSelection_def Let_def nextGroupId_def entry_now_def graph_ok_def) (meson le_SucI)+
  qed (use now in \<open>auto simp: groupSelection_def\<close>)
qed

lemma remove_first_subset: "set (remove_first p xs) \<subseteq> set xs"
  by (induction xs) auto

interpretation ungroup: edit_command "ungroup i" for i
proof
  fix s
  show "edit_shape s (snd (ungroup i s))" "gs_sequence s \<le> gs_sequence (snd (ungroup i s))" "gs_depth (snd (ungroup i s)) = gs_depth s"
    by (auto simp: ungroup_def Let_def edit_defs intro: edit_shape_push)
  show "entry_now (snd (ungroup i s))" if "entry_now s"
    using that remove_first_subset [of "\<lambda>g. eg_id g = i" "gs_groups s"]
    by (auto simp: ungroup_def Let_def entry_now_def graph_ok_def)
qed

lemma digit_chars: "list_all (\<lambda>k. is_digit (char_of (48 + k))) [0..<10]"
  by code_simp

lemma digit_string_digits: "c \<in> set (digit_string n) \<Longrightarrow> is_digit c"
proof (induction n rule: digit_string.induct)
  case (1 n)
  have "is_digit (char_of (48 + k))" if "k < 10" for k :: nat
    using digit_chars that by (simp add: list_all_iff)
  thus ?case using 1 by (subst (asm) digit_string.simps) (auto split: if_splits)
qed

text \<open>Identities of nodes: those given to \<open>addNode\<close> have the id pattern, and the random part is base 36.\<close>

definition node_identity :: "string option \<Rightarrow> string \<Rightarrow> bool" where
  "node_identity given rnd \<longleftrightarrow> (case given of Some i \<Rightarrow> idPattern i | None \<Rightarrow> list_all (\<lambda>c. is_lower c \<or> is_digit c) rnd)"

lemma node_identity_pattern:
  assumes "node_identity None rnd"
  shows "idPattern (''n-'' @ rnd @ ''-'' @ digit_string k)"
proof -
  have "list_all (\<lambda>c. is_alnum c \<or> c = CHR ''_'' \<or> c = CHR ''-'') (rnd @ ''-'' @ digit_string k)"
    using assms digit_string_digits [of _ k] by (auto simp: node_identity_def list_all_iff is_alnum_def)
  moreover have "is_lower (CHR ''n'')" by (simp add: is_lower_def)
  ultimately show ?thesis by (simp add: idPattern_def)
qed

lemma addNode_cases:
  assumes "node_identity given rnd"
  obtains t where "t = s \<or> t = s\<lparr>gs_sequence := Suc (gs_sequence s)\<rparr>"
    and "snd (addNode node given rnd s) = t
      \<or> (\<exists>c. find_node s (en_id c) = None \<and> idPattern (en_id c) \<and> snd (addNode node given rnd s) = (pushHistory t)\<lparr>gs_nodes := gs_nodes s @ [c]\<rparr>)"
proof -
  obtain i t where it: "(case given of Some i \<Rightarrow> (i, s) | None \<Rightarrow> nextNodeId rnd s) = (i, t)" by (metis prod.collapse)
  hence t: "t = s \<or> t = s\<lparr>gs_sequence := Suc (gs_sequence s)\<rparr>" and i: "idPattern i"
    using assms node_identity_pattern [of rnd]
    by (auto simp: nextNodeId_def Let_def node_identity_def simp del: append_Cons append.simps split: option.splits)
  from t have same: "find_node t = find_node s" "gs_nodes t = gs_nodes s" by (auto simp: find_node_def fun_eq_iff)
  let ?c = "node\<lparr>en_id := i, en_definition := map_option (\<lambda>d. d\<lparr>n_id := i\<rparr>) (en_definition node)\<rparr>"
  have "snd (addNode node given rnd s) = t
      \<or> (find_node s i = None \<and> snd (addNode node given rnd s) = (pushHistory t)\<lparr>gs_nodes := gs_nodes s @ [?c]\<rparr>)"
    using same by (simp add: addNode_def it Let_def split: sum.splits)
  moreover have "en_id ?c = i" by simp
  ultimately show thesis using that [OF t] i by metis
qed

lemma graph_ok_later: "graph_ok k ids es gs \<Longrightarrow> graph_ok (Suc k) ids es gs"
  unfolding graph_ok_def by (meson le_SucI)

lemma graph_ok_new_node: "graph_ok k ids es gs \<Longrightarrow> i \<notin> set ids \<Longrightarrow> idPattern i \<Longrightarrow> graph_ok k (ids @ [i]) es gs"
  unfolding graph_ok_def by auto

lemma addNode_edit:
  assumes "node_identity given rnd"
  shows "edit_command (addNode node given rnd)"
proof
  fix s
  obtain t where t: "t = s \<or> t = s\<lparr>gs_sequence := Suc (gs_sequence s)\<rparr>"
    and r: "snd (addNode node given rnd s) = t
      \<or> (\<exists>c. find_node s (en_id c) = None \<and> idPattern (en_id c) \<and> snd (addNode node given rnd s) = (pushHistory t)\<lparr>gs_nodes := gs_nodes s @ [c]\<rparr>)"
    by (rule addNode_cases [OF assms, of s node])
  have same: "stacks (pushHistory t) = stacks (pushHistory s)" "stacks t = stacks s" "snapshotGraph t = snapshotGraph s"
    using t by (auto simp: stacks_def pushHistory_def history_base_def snapshotGraph_def cong: option.case_cong)
  show "gs_sequence s \<le> gs_sequence (snd (addNode node given rnd s))" "gs_depth (snd (addNode node given rnd s)) = gs_depth s"
    using t r by auto
  show "edit_shape s (snd (addNode node given rnd s))"
    using r
  proof
    assume "snd (addNode node given rnd s) = t"
    thus ?thesis using same by (simp add: edit_shape_quiet)
  next
    assume "\<exists>c. find_node s (en_id c) = None \<and> idPattern (en_id c) \<and> snd (addNode node given rnd s) = (pushHistory t)\<lparr>gs_nodes := gs_nodes s @ [c]\<rparr>"
    then obtain c where c: "snd (addNode node given rnd s) = (pushHistory t)\<lparr>gs_nodes := gs_nodes s @ [c]\<rparr>" by blast
    have "stacks ((pushHistory t)\<lparr>gs_nodes := gs_nodes s @ [c]\<rparr>) = stacks (pushHistory t)" by (simp add: stacks_def)
    thus ?thesis unfolding c using same by (simp add: edit_shape_push)
  qed
  assume now: "entry_now s"
  have t_now: "entry_now t" using now t graph_ok_later by (auto simp: entry_now_def)
  have nodes: "gs_nodes t = gs_nodes s" using t by auto
  have "entry_now ((pushHistory t)\<lparr>gs_nodes := gs_nodes s @ [c]\<rparr>)" if "find_node s (en_id c) = None" "idPattern (en_id c)" for c
  proof -
    have "en_id c \<notin> set (map en_id (gs_nodes s))" using that(1) by (auto simp: find_node_def find_None_all)
    thus ?thesis
      using graph_ok_new_node [OF t_now [unfolded entry_now_def nodes] _ that(2)] by (simp add: entry_now_def)
  qed
  thus "entry_now (snd (addNode node given rnd s))" using r t_now by metis
qed

section \<open>Gestures\<close>

lemma history_base_pending [simp]: "history_base (s\<lparr>gs_layoutBefore := Some e\<rparr>) = e"
  by (simp add: history_base_def)

lemma snapshot_restore [simp]: "snapshotGraph (restoreGraph e s) = e"
  by (cases e) (simp add: snapshotGraph_def restoreGraph_def)

lemma moved_timeline:
  "gs_layoutBefore t = Some b \<Longrightarrow> timeline_of (t\<lparr>gs_nodes := ns\<rparr>) = timeline_of t \<and> gesture_ok (t\<lparr>gs_nodes := ns\<rparr>) = gesture_ok t"
  by (simp add: timeline_of_def gesture_ok_def history_base_def)

lemma begin_refines: "gs_depth s = 0 \<Longrightarrow> editor_refines s (s\<lparr>gs_layoutBefore := Some (history_base s)\<rparr>)"
  by (auto simp: editor_refines_def gesture_ok_def timeline_of_def history_base_def snapshotGraph_def ts_stutter split: option.splits)

interpretation beginLayout: timeline_command beginLayout
proof
  fix s
  show "editor_ok (snd (beginLayout s))" if "editor_ok s"
    using that base_ok [OF that] by (auto simp: beginLayout_def editor_ok_def snapshotGraph_def)
  show "editor_refines s (snd (beginLayout s))" by (auto simp: beginLayout_def begin_refines quiet_refines)
qed (auto simp: beginLayout_def stacks_def)

interpretation moveNode: timeline_command "moveNode i x y" for i x y
proof
  fix s
  let ?move = "update_first (\<lambda>n. en_id n = i) (\<lambda>n. n\<lparr>en_x := x, en_y := y\<rparr>)"
  have ids: "map en_id (?move ns) = map en_id ns" for ns by (rule map_id_update_first) simp
  have base: "editor_ok (s\<lparr>gs_layoutBefore := Some (history_base s)\<rparr>)" if "editor_ok s"
    using that base_ok [OF that] by (simp add: editor_ok_def snapshotGraph_def)
  show "editor_ok (snd (moveNode i x y s))" if ok: "editor_ok s"
  proof -
    have "editor_ok (t\<lparr>gs_nodes := ?move (gs_nodes t)\<rparr>)" if "editor_ok t" for t
      by (rule plain_edit_ok [OF that]) (use editor_now [OF that] in \<open>simp_all add: stacks_def entry_now_def ids\<close>)
    from this [OF ok] this [OF base [OF ok]] show ?thesis
      using ok by (auto simp: moveNode_def Let_def split: option.splits)
  qed
  show "editor_refines s (snd (moveNode i x y s))"
  proof -
    let ?b = "s\<lparr>gs_layoutBefore := Some (history_base s)\<rparr>"
    have "editor_refines s (?b\<lparr>gs_nodes := ?move (gs_nodes s)\<rparr>)" if "gs_depth s = 0"
      using begin_refines [OF that] moved_timeline [of ?b] by (simp add: editor_refines_def)
    moreover have "editor_refines s s" by (rule quiet_refines) simp_all
    ultimately show ?thesis by (cases "gs_depth s = 0") (auto simp: moveNode_def Let_def editor_refines_def split: option.splits)
  qed
qed (auto simp: moveNode_def stacks_def Let_def split: option.splits)

lemma pending_ok: "editor_ok s \<Longrightarrow> gs_layoutBefore s = Some e \<Longrightarrow> entry_ok (gs_sequence s) e"
  by (simp add: editor_ok_def)

lemma restore_fields [simp]:
  "gs_undo (restoreGraph e s) = gs_undo s" "gs_redo (restoreGraph e s) = gs_redo s" "gs_depth (restoreGraph e s) = gs_depth s"
  "gs_layoutBefore (restoreGraph e s) = gs_layoutBefore s" "gs_sequence (restoreGraph e s) = gs_sequence s"
  by (simp_all add: restoreGraph_def)

interpretation cancelLayout: timeline_command cancelLayout
proof
  fix s
  show "editor_ok (snd (cancelLayout s))" if "editor_ok s"
    using that pending_ok [OF that] by (auto simp: cancelLayout_def editor_ok_def split: option.splits)
  show "editor_refines s (snd (cancelLayout s))"
  proof (cases "gs_layoutBefore s")
    case (Some e)
    have "timeline_of (restoreGraph e (s\<lparr>gs_layoutBefore := None\<rparr>)) = timeline_of s"
      using Some by (simp add: timeline_of_def history_base_def)
    thus ?thesis using Some by (simp add: cancelLayout_def editor_refines_def gesture_ok_def ts_stutter)
  qed (simp add: cancelLayout_def quiet_refines)
qed (auto simp: cancelLayout_def stacks_def split: option.splits)

interpretation commitLayout: timeline_command commitLayout
proof
  fix s
  show "editor_ok (snd (commitLayout s))" if "editor_ok s"
  proof (cases "gs_layoutBefore s")
    case None
    thus ?thesis using that by (auto simp: commitLayout_def editor_ok_def snapshotGraph_def Let_def split: sum.splits)
  next
    case (Some e)
    thus ?thesis
      using that push_capped_set [of e "gs_undo s"] push_capped_length [of e "gs_undo s"]
      by (auto simp: commitLayout_def editor_ok_def snapshotGraph_def Let_def split: sum.splits)
  qed
  show "editor_refines s (snd (commitLayout s))"
  proof (cases "gs_layoutBefore s")
    case None
    thus ?thesis by (auto simp: commitLayout_def Let_def snapshotGraph_def stacks_def intro!: quiet_refines split: sum.splits)
  next
    case (Some e)
    let ?r = "s\<lparr>gs_layoutBefore := None, gs_undo := push_capped e (gs_undo s), gs_redo := []\<rparr>"
    have "editor_refines s ?r" using Some by (intro recorded_refines) (simp_all add: history_base_def)
    moreover have "editor_refines s (s\<lparr>gs_layoutBefore := None\<rparr>)" if "he_nodes e = gs_nodes s"
    proof -
      have "timeline_of (s\<lparr>gs_layoutBefore := None\<rparr>) = timeline_of s" if "gesture_ok s"
        using that Some \<open>he_nodes e = gs_nodes s\<close>
        by (simp add: timeline_of_def history_base_def entry_graph_eq gesture_ok_def snapshotGraph_def)
      thus ?thesis by (simp add: editor_refines_def gesture_ok_def [of "s\<lparr>gs_layoutBefore := None\<rparr>"] ts_stutter)
    qed
    moreover have "editor_refines s s" by (rule quiet_refines) simp_all
    ultimately show ?thesis using Some by (auto simp: commitLayout_def Let_def split: sum.splits)
  qed
qed (auto simp: commitLayout_def Let_def stacks_def split: sum.splits option.splits)

section \<open>Undo and redo\<close>

lemma undo_cases:
  obtains (refused) r where "undoGraph s = (r, s)" "r \<noteq> Inr True"
  | (undone) xs e where "undoGraph s = (Inr True, (restoreGraph e (s\<lparr>gs_undo := xs, gs_redo := gs_redo s @ [snapshotGraph s]\<rparr>))\<lparr>gs_selection := []\<rparr>)"
      "gs_undo s = xs @ [e]" "gs_depth s = 0" "gs_layoutBefore s = None"
proof (cases "gs_depth s = 0 \<and> gs_layoutBefore s = None \<and> gs_undo s \<noteq> []")
  case True
  thus thesis using undone [of "last (gs_undo s)" "butlast (gs_undo s)"] by (simp add: undoGraph_def Let_def)
next
  case False
  hence "\<exists>r. undoGraph s = (r, s) \<and> r \<noteq> Inr True" by (auto simp: undoGraph_def)
  thus thesis using refused by blast
qed

lemma redo_cases:
  obtains (refused) r where "redoGraph s = (r, s)" "r \<noteq> Inr True"
  | (redone) xs e where "redoGraph s = (Inr True, (restoreGraph e (s\<lparr>gs_redo := xs, gs_undo := gs_undo s @ [snapshotGraph s]\<rparr>))\<lparr>gs_selection := []\<rparr>)"
      "gs_redo s = xs @ [e]" "gs_depth s = 0" "gs_layoutBefore s = None"
proof (cases "gs_depth s = 0 \<and> gs_layoutBefore s = None \<and> gs_redo s \<noteq> []")
  case True
  thus thesis using redone [of "last (gs_redo s)" "butlast (gs_redo s)"] by (simp add: redoGraph_def Let_def)
next
  case False
  hence "\<exists>r. redoGraph s = (r, s) \<and> r \<noteq> Inr True" by (auto simp: redoGraph_def)
  thus thesis using refused by blast
qed

lemma snapshot_deselect: "snapshotGraph (s\<lparr>gs_selection := []\<rparr>) = entry_graph (snapshotGraph s)"
  by (simp add: snapshotGraph_def entry_graph_def)

lemma entry_ok_graph [simp]: "entry_ok k (entry_graph e) = entry_ok k e"
  by (simp add: entry_ok_def entry_graph_def)

lemma editor_keeps_same: "editor_refines s s"
  by (rule quiet_refines) simp_all

interpretation undo: timeline_command undoGraph
proof
  fix s
  show "editor_ok (snd (undoGraph s))" if "editor_ok s"
    by (cases s rule: undo_cases) (use that in \<open>auto simp: editor_ok_def snapshot_deselect\<close>)
  show "editor_refines s (snd (undoGraph s))"
  proof (cases s rule: undo_cases)
    case (undone xs e)
    let ?u = "(restoreGraph e (s\<lparr>gs_undo := xs, gs_redo := gs_redo s @ [snapshotGraph s]\<rparr>))\<lparr>gs_selection := []\<rparr>"
    have "timeline_of ?u = step_back (timeline_of s)"
      using undone by (simp add: timeline_of_def step_back_def history_base_def snapshot_deselect)
    moreover have "tl_past (timeline_of s) \<noteq> []" using undone by (simp add: timeline_of_def)
    ultimately show ?thesis using undone ts_back by (simp add: editor_refines_def gesture_ok_def)
  qed (simp add: editor_keeps_same)
  show "gs_sequence s \<le> gs_sequence (snd (undoGraph s))" "gs_depth (snd (undoGraph s)) = gs_depth s"
    by (cases s rule: undo_cases; simp)+
  show "stacks (snd (undoGraph s)) = stacks s" if "gs_depth s \<noteq> 0"
    using that by (simp add: undoGraph_def)
qed

interpretation redo: timeline_command redoGraph
proof
  fix s
  show "editor_ok (snd (redoGraph s))" if "editor_ok s"
    by (cases s rule: redo_cases) (use that in \<open>auto simp: editor_ok_def snapshot_deselect\<close>)
  show "editor_refines s (snd (redoGraph s))"
  proof (cases s rule: redo_cases)
    case (redone xs e)
    let ?u = "(restoreGraph e (s\<lparr>gs_redo := xs, gs_undo := gs_undo s @ [snapshotGraph s]\<rparr>))\<lparr>gs_selection := []\<rparr>"
    have "timeline_of ?u = step_forward (timeline_of s)"
      using redone by (simp add: timeline_of_def step_forward_def history_base_def snapshot_deselect)
    moreover have "tl_future (timeline_of s) \<noteq> []" using redone by (simp add: timeline_of_def)
    ultimately show ?thesis using redone ts_forward by (simp add: editor_refines_def gesture_ok_def)
  qed (simp add: editor_keeps_same)
  show "gs_sequence s \<le> gs_sequence (snd (redoGraph s))" "gs_depth (snd (redoGraph s)) = gs_depth s"
    by (cases s rule: redo_cases; simp)+
  show "stacks (snd (redoGraph s)) = stacks s" if "gs_depth s \<noteq> 0"
    using that by (simp add: redoGraph_def)
qed

section \<open>Commands that are transactions\<close>

lemma timeline_commandI:
  assumes "\<And>s. editor_law s (snd (cmd s))"
  shows "timeline_command cmd"
  by unfold_locales (use assms in \<open>auto simp: editor_law_def editor_keeps_def\<close>)

lemma same_law: "editor_law s s"
  by (simp add: editor_law_def editor_keeps_refl editor_keeps_same)

text \<open>A transaction whose body edits the graph.\<close>

lemma graph_edit_law:
  assumes "stacks (snd (fn (s\<lparr>gs_depth := Suc (gs_depth s)\<rparr>))) = stacks s"
    and "gs_sequence (snd (fn (s\<lparr>gs_depth := Suc (gs_depth s)\<rparr>))) = gs_sequence s"
    and "gs_depth (snd (fn (s\<lparr>gs_depth := Suc (gs_depth s)\<rparr>))) = Suc (gs_depth s)"
    and "entry_now s \<Longrightarrow> entry_now (snd (fn (s\<lparr>gs_depth := Suc (gs_depth s)\<rparr>)))"
  shows "editor_law s (snd (transaction fn s))"
proof (rule transaction_law)
  let ?s = "s\<lparr>gs_depth := Suc (gs_depth s)\<rparr>"
  have "editor_ok (snd (fn ?s))" if "editor_ok ?s"
    using plain_edit_ok [of s "snd (fn ?s)"] assms that editor_now by simp
  thus "editor_keeps ?s (snd (fn ?s))" using assms by (simp add: editor_keeps_def stacks_def)
qed

interpretation reconnect: timeline_command "reconnect i p q" for i p q
proof (rule timeline_commandI)
  fix s
  obtain kind source target where ends: "edgeEndpoints s p q = (kind, source, target)" by (metis prod_cases3)
  show "editor_law s (snd (reconnect i p q s))"
  proof (cases "List.find (\<lambda>e. ee_id e = i) (gs_edges s)")
    case (Some e)
    let ?h = "\<lambda>e. e\<lparr>ee_kind := kind, ee_from := source, ee_to := target\<rparr>"
    let ?f = "\<lambda>t. (Inr ConnectionOk :: editor_error + connection_verdict, t\<lparr>gs_edges := update_first (\<lambda>e. ee_id e = i) ?h (gs_edges t)\<rparr>)"
    show ?thesis
    proof (cases "checkConnection s p q (Some i) False = ConnectionOk")
      case True
      have "editor_law s (snd (transaction ?f s))"
      proof (rule graph_edit_law)
        assume now: "entry_now s"
        note a = admitted [OF True now ends]
        have "graph_ok (gs_sequence s) (map en_id (gs_nodes s)) (update_first (\<lambda>e. ee_id e = i) ?h (gs_edges s)) (map eg_nodeIds (gs_groups s))"
          by (rule graph_ok_replace [OF now [unfolded entry_now_def] Some])
            (use a in \<open>auto simp: map_id_update_first followed_rel\<close>)
        thus "entry_now (snd (?f (s\<lparr>gs_depth := Suc (gs_depth s)\<rparr>)))" by (simp add: entry_now_def)
      qed (simp_all add: stacks_def)
      thus ?thesis using True Some by (simp add: reconnect_def Let_def ends)
    qed (use Some in \<open>simp add: reconnect_def Let_def same_law\<close>)
  qed (simp add: reconnect_def same_law)
qed

interpretation renameGroup: timeline_command "renameGroup i label" for i label
  by (rule timeline_commandI)
    (auto simp: renameGroup_def same_law stacks_def entry_now_def map_id_update_first intro!: graph_edit_law split: if_splits)

interpretation renameDefinition: timeline_command "renameDefinition name" for name
  by (rule timeline_commandI)
    (auto simp: renameDefinition_def same_law stacks_def entry_now_def intro!: graph_edit_law split: option.splits if_splits)

interpretation updateResource: timeline_command "updateResource i ref metadata" for i ref metadata
  by (rule timeline_commandI)
    (auto simp: updateResource_def same_law stacks_def entry_now_def intro!: graph_edit_law split: if_splits)

lemma map_id_fold_update: "(\<And>n x. f (h n x) = f x) \<Longrightarrow> map f (fold (\<lambda>n. update_first (P n) (h n)) ns xs) = map f xs"
  by (induction ns arbitrary: xs) (simp_all add: map_id_update_first)

interpretation patchPresentation: timeline_command "patchPresentation ids patch" for ids patch
  by (rule timeline_commandI)
    (auto simp: patchPresentation_def Let_def same_law stacks_def entry_now_def map_id_fold_update intro!: graph_edit_law
      split: sum.splits if_splits)

end
