(* ===== verification/EditorHistory.thy ===== *)
theory EditorHistory
  imports EditorLaws
begin

text \<open>
  Histories of an editor: a definition is opened, then commands run in any order, alone or as the body
  of a transaction. The laws of commands hold along every history that starts with an accepted
  definition. The clipboard, alignment and collision layout are not steps.
\<close>

section \<open>Commands in sequence\<close>

inductive editor_step :: "editor \<Rightarrow> editor \<Rightarrow> bool" and editor_steps :: "editor \<Rightarrow> editor \<Rightarrow> bool" where
  es_connect: "editor_step s (snd (connect p q rnd s))"
| es_reconnect: "editor_step s (snd (reconnect i p q s))"
| es_removeEdge: "editor_step s (snd (removeEdge i s))"
| es_addNode: "node_identity given rnd \<Longrightarrow> editor_step s (snd (addNode node given rnd s))"
| es_updateNode: "editor_step s (snd (updateNode i patch s))"
| es_removeSelected: "editor_step s (snd (removeSelected s))"
| es_deleteItems: "editor_step s (snd (deleteItems nodeIds edgeIds s))"
| es_setSelection: "editor_step s (snd (setSelection ids s))"
| es_toggleSelect: "editor_step s (snd (toggleSelect i adding s))"
| es_groupSelection: "editor_step s (snd (groupSelection label rnd s))"
| es_ungroup: "editor_step s (snd (ungroup i s))"
| es_renameGroup: "editor_step s (snd (renameGroup i label s))"
| es_renameDefinition: "editor_step s (snd (renameDefinition name s))"
| es_updateResource: "editor_step s (snd (updateResource i ref metadata s))"
| es_patchPresentation: "editor_step s (snd (patchPresentation ids patch s))"
| es_moveNode: "editor_step s (snd (moveNode i x y s))"
| es_beginLayout: "editor_step s (snd (beginLayout s))"
| es_commitLayout: "editor_step s (snd (commitLayout s))"
| es_cancelLayout: "editor_step s (snd (cancelLayout s))"
| es_undo: "editor_step s (snd (undoGraph s))"
| es_redo: "editor_step s (snd (redoGraph s))"
| es_transaction: "(\<And>x. editor_steps x (snd (fn x))) \<Longrightarrow> editor_step s (snd (transaction (fn :: unit command) s))"
| es_none: "editor_steps s s"
| es_more: "editor_steps s t \<Longrightarrow> editor_step t u \<Longrightarrow> editor_steps s u"

lemma addNode_law:
  assumes "node_identity given rnd"
  shows "editor_law s (snd (addNode node given rnd s))"
  by (rule edit_command.edit_law [OF addNode_edit [OF assms]])

lemmas command_laws = connect.law reconnect.law removeEdge.law updateNode.law removeSelected.law deleteItems.law
  setSelection.law toggleSelect.law groupSelection.law ungroup.law renameGroup.law renameDefinition.law updateResource.law
  patchPresentation.law moveNode.law beginLayout.law commitLayout.law cancelLayout.law undo.law redo.law addNode_law

lemma editor_step_law:
  "editor_step s t \<Longrightarrow> editor_law s t" "editor_steps s u \<Longrightarrow> editor_keeps s u"
proof (induction rule: editor_step_editor_steps.inducts)
  case (es_transaction fn s)
  thus ?case by (intro transaction_law) simp
next
  case (es_more s t u)
  thus ?case using editor_keeps_trans by (auto simp: editor_law_def)
qed (simp_all add: command_laws editor_keeps_refl)

text \<open>Along a history outside a transaction the laws compose.\<close>

lemma editor_steps_sound:
  "editor_steps s u \<Longrightarrow> gs_depth s = 0 \<Longrightarrow> gesture_ok s \<Longrightarrow> editor_ok s \<Longrightarrow> gs_depth u = 0 \<and> gesture_ok u \<and> editor_ok u"
proof (induction rule: editor_step_editor_steps.inducts(2) [where ?P1.0 = "\<lambda>_ _. True"])
  case (es_more s t u)
  thus ?case using editor_step_law(1) [OF es_more(2)] by (simp add: editor_law_def editor_keeps_def editor_refines_def)
qed simp_all

section \<open>Opening an accepted definition\<close>

lemma distinct_by_prefix: "(\<And>i. i < length xs \<Longrightarrow> xs ! i \<notin> set (take i xs)) \<Longrightarrow> distinct xs"
proof (induction xs rule: rev_induct)
  case (snoc x xs)
  have "distinct xs"
  proof (rule snoc.IH)
    fix i assume "i < length xs"
    thus "xs ! i \<notin> set (take i xs)" using snoc.prems [of i] by (simp add: nth_append)
  qed
  moreover have "x \<notin> set xs" using snoc.prems [of "length xs"] by simp
  ultimately show ?case by simp
qed simp

lemma accepted_ids_distinct:
  assumes "validateDefinition d = Inr ()"
  shows "distinct (map n_id (bd_nodes d))"
proof (rule distinct_by_prefix)
  fix i assume i: "i < length (map n_id (bd_nodes d))"
  hence "(i, bd_nodes d ! i) \<in> set (indexed (bd_nodes d))"
    by (auto simp: indexed_def set_zip intro!: exI [of _ i])
  hence "node_issues (bd_resources d) (bd_nodes d) i (bd_nodes d ! i) = []"
    using assms by (auto simp: validateDefinition_def definition_issues_def Let_def split: if_splits)
  hence "n_id (bd_nodes d ! i) \<notin> n_id ` set (take i (bd_nodes d))" by (simp add: node_issues_def Let_def)
  thus "map n_id (bd_nodes d) ! i \<notin> set (take i (map n_id (bd_nodes d)))" using i by (simp add: take_map)
qed

lemma import_edges_ids: "x \<in> set (import_edges rnd k es) \<Longrightarrow> \<exists>j. ee_id x = edge_id (rnd j) j \<and> k < j \<and> j \<le> k + length es"
  by (induction es arbitrary: k) (fastforce intro: less_imp_le_nat)+

lemma import_edges_distinct: "distinct (map ee_id (import_edges rnd k es))"
proof (induction es arbitrary: k)
  case (Cons e es)
  have "ee_id x \<noteq> edge_id (rnd (Suc k)) (Suc k)" if "x \<in> set (import_edges rnd (Suc k) es)" for x
    using import_edges_ids [OF that] edge_id_inj by (metis less_irrefl)
  hence "edge_id (rnd (Suc k)) (Suc k) \<notin> ee_id ` set (import_edges rnd (Suc k) es)" by (metis imageE)
  thus ?case using Cons.IH by simp
qed simp

lemma import_edges_map:
  "map (\<lambda>x. \<lparr>ed_kind = ee_kind x, ed_from = ee_from x, ed_to = ee_to x\<rparr>) (import_edges rnd k es) = es"
  by (induction es arbitrary: k) simp_all

lemma import_edges_source: "x \<in> set (import_edges rnd k es) \<Longrightarrow> \<lparr>ed_kind = ee_kind x, ed_from = ee_from x, ed_to = ee_to x\<rparr> \<in> set es"
  using import_edges_map [of rnd k es] by (metis (no_types, lifting) imageI set_map)

text \<open>The graph checks look at the identity, the kind and the endpoints of an edge only.\<close>

lemma graph_ok_points:
  "graph_ok k ids (map (\<lambda>e. e\<lparr>ee_points := f e\<rparr>) es) gs = graph_ok k ids es gs"
proof -
  have "edge_rel (map (\<lambda>e. e\<lparr>ee_points := f e\<rparr>) es) = edge_rel es"
    unfolding edge_rel_data by (force simp: image_iff)
  thus ?thesis by (simp add: graph_ok_def comp_def)
qed

lemma import_edges_ok:
  assumes v: "validateDefinition d = Inr ()" and p: "\<forall>n\<in>set (bd_nodes d). idPattern (n_id n)"
    and gs: "\<And>g. g \<in> set gs \<Longrightarrow> set g \<subseteq> n_id ` set (bd_nodes d)"
  shows "graph_ok (k + length (bd_edges d)) (map n_id (bd_nodes d)) (import_edges rnd k (bd_edges d)) gs"
proof -
  let ?es = "import_edges rnd k (bd_edges d)"
  have ends: "endpoint_of (ee_kind x) (ee_from x) \<in> n_id ` set (bd_nodes d) \<and> endpoint_of (ee_kind x) (ee_to x) \<in> n_id ` set (bd_nodes d)"
    if "x \<in> set ?es" for x
  proof (cases "ee_kind x")
    case DataEdge
    thus ?thesis using accepted_data_edge(1-4) [OF v import_edges_source [OF that]] by (simp add: endpoint_of_def)
  next
    case ControlEdge
    thus ?thesis using accepted_control_edge [OF v import_edges_source [OF that]]
      by (simp add: endpoint_of_def parent_of_edge_def control_target_def)
  qed
  have "edge_rel ?es \<subseteq> data_rel (filter (\<lambda>e. ed_kind e = DataEdge) (bd_edges d))"
    unfolding edge_rel_data data_rel_def using import_edges_source [of _ rnd k "bd_edges d"]
    by (fastforce simp: endpoint_of_def image_iff)
  hence "acyclic (edge_rel ?es)"
    using accepted_acyclic [OF v] accepted_data_rel [OF v] acyclic_subset by metis
  thus ?thesis
    using accepted_ids_distinct [OF v] p gs ends import_edges_distinct [of rnd k "bd_edges d"] import_edges_ids [of _ rnd k "bd_edges d"]
    unfolding graph_ok_def by (auto; metis)
qed

lemma import_node_id [simp]: "en_id (import_node saved p) = n_id (snd p)"
  by (simp add: import_node_def split: prod.splits)

lemma map_snd_indexed [simp]: "map snd (indexed xs) = xs"
  by (simp add: indexed_def)

lemma import_node_ids: "map en_id (map (import_node saved) (indexed ns)) = map n_id ns"
  using arg_cong [OF map_snd_indexed [of ns], of "map n_id"] unfolding map_map by (simp add: comp_def)

lemma lay_node_id [simp]: "en_id (lay_node positions n) = en_id n"
  by (simp add: lay_node_def split: option.splits)

definition shape :: "editor \<Rightarrow> editor \<Rightarrow> bool" where
  "shape s t \<longleftrightarrow> map en_id (gs_nodes s) = map en_id (gs_nodes t) \<and> gs_groups s = gs_groups t \<and> stacks s = stacks t
     \<and> gs_depth s = gs_depth t \<and> gs_sequence s = gs_sequence t \<and> gs_selection s = gs_selection t"

lemma shape_nodes:
  assumes "\<And>n. en_id (g n) = en_id n"
  shows "shape (s\<lparr>gs_nodes := map g (gs_nodes s)\<rparr>) s"
  using assms by (simp add: shape_def stacks_def comp_def)

text \<open>What \<open>fromDefinition\<close> builds, up to coordinates, attributes of nodes and routes of edges.\<close>

lemma fromDefinition_opened:
  assumes "fromDefinition defaults rnd k d = Inr s"
  obtains s1 where "shape s s1" "gs_edges s = gs_edges s1"
    "(case bd_presentation d of None \<Rightarrow> (Inr (), importGraphDefinition rnd k d) | Some p \<Rightarrow> importLayout p (importGraphDefinition rnd k d)) = (Inr (), s1)"
proof -
  let ?saved = "case bd_presentation d of None \<Rightarrow> [] | Some p \<Rightarrow> ps_nodes p"
  let ?place = "\<lambda>pos n. if map_of ?saved (en_id n) = None then n\<lparr>en_x := fst (pos (en_id n)), en_y := snd (pos (en_id n))\<rparr> else n"
  obtain res s1 where r: "(case bd_presentation d of None \<Rightarrow> (Inr (), importGraphDefinition rnd k d)
      | Some p \<Rightarrow> importLayout p (importGraphDefinition rnd k d)) = (res, s1)" by fastforce
  have "ebind res (\<lambda>_. Inr (case defaults s1 of None \<Rightarrow> s1 | Some pos \<Rightarrow> s1\<lparr>gs_nodes := map (?place pos) (gs_nodes s1)\<rparr>)) = Inr s"
    using assms r unfolding fromDefinition_def Let_def by (simp only: prod.case)
  hence s: "s = (case defaults s1 of None \<Rightarrow> s1 | Some pos \<Rightarrow> s1\<lparr>gs_nodes := map (?place pos) (gs_nodes s1)\<rparr>)" and res: "res = Inr ()"
    by (cases res; simp)+
  have "shape s s1 \<and> gs_edges s = gs_edges s1"
  proof (cases "defaults s1")
    case None
    thus ?thesis using s by (simp add: shape_def)
  next
    case (Some pos)
    thus ?thesis using s shape_nodes [of "?place pos" s1] by simp
  qed
  thus thesis using r res that by blast
qed

lemma importGraph_shape:
  fixes rnd k d
  defines "s0 \<equiv> importGraphDefinition rnd k d"
  shows "map en_id (gs_nodes s0) = map n_id (bd_nodes d)" "gs_edges s0 = import_edges rnd k (bd_edges d)" "stacks s0 = ([], [], None)"
    "gs_depth s0 = 0" "gs_sequence s0 = k + length (bd_edges d)" "gs_selection s0 = []" "gs_definition s0 = Some d"
proof -
  show "map en_id (gs_nodes s0) = map n_id (bd_nodes d)"
    unfolding s0_def importGraphDefinition_def Let_def by (simp only: editor.simps import_node_ids)
qed (simp_all add: s0_def importGraphDefinition_def Let_def stacks_def)

definition saved_route :: "presentation \<Rightarrow> editor_edge \<Rightarrow> (js_number \<times> js_number) list option" where
  "saved_route p e = map_of (map (\<lambda>r. (edge_key r, pe_points r)) (rev (list_of (ps_edges p)))) (editor_edge_key e)"

lemma importLayout_shape:
  assumes "importLayout p s = (Inr (), t)"
  shows "validatePresentation p (map en_id (gs_nodes s)) (gs_edges s) (resource_ids s)"
    "map en_id (gs_nodes t) = map en_id (gs_nodes s)" "gs_edges t = map (\<lambda>e. e\<lparr>ee_points := saved_route p e\<rparr>) (gs_edges s)"
    "stacks t = stacks s" "gs_depth t = gs_depth s" "gs_sequence t = gs_sequence s" "gs_selection t = gs_selection s"
    "gs_groups t = (case ps_groups p of None \<Rightarrow> gs_groups s | Some gs \<Rightarrow> map import_group gs)"
proof -
  have ok: "gs_layoutBefore s = None" "checkOwnLayout s p = Inr ()"
    using assms by (auto simp: importLayout_def split: if_splits sum.splits)
  show "validatePresentation p (map en_id (gs_nodes s)) (gs_edges s) (resource_ids s)"
    using ok(2) by (simp add: checkOwnLayout_def checkLayout_def throw_if_def split: if_splits)
  note t = assms [unfolded importLayout_def ok(2) sum.case, simplified ok(1), simplified, symmetric]
  show "map en_id (gs_nodes t) = map en_id (gs_nodes s)" "gs_edges t = map (\<lambda>e. e\<lparr>ee_points := saved_route p e\<rparr>) (gs_edges s)"
    "stacks t = stacks s" "gs_depth t = gs_depth s" "gs_sequence t = gs_sequence s" "gs_selection t = gs_selection s"
    "gs_groups t = (case ps_groups p of None \<Rightarrow> gs_groups s | Some gs \<Rightarrow> map import_group gs)"
    by (simp_all add: t stacks_def saved_route_def comp_def)
qed

lemma fromDefinition_shape:
  assumes "fromDefinition defaults rnd k d = Inr s"
  obtains f where "map en_id (gs_nodes s) = map n_id (bd_nodes d)"
    and "gs_edges s = map (\<lambda>e. e\<lparr>ee_points := f e\<rparr>) (import_edges rnd k (bd_edges d))"
    and "\<And>g. g \<in> set (gs_groups s) \<Longrightarrow> set (eg_nodeIds g) \<subseteq> n_id ` set (bd_nodes d)"
    and "stacks s = ([], [], None)" "gs_depth s = 0" "gs_sequence s = k + length (bd_edges d)" "gs_selection s = []"
proof -
  let ?s0 = "importGraphDefinition rnd k d"
  note s0 = importGraph_shape [of rnd k d]
  obtain s1 where s: "shape s s1" "gs_edges s = gs_edges s1"
    and s1: "(case bd_presentation d of None \<Rightarrow> (Inr (), ?s0) | Some p \<Rightarrow> importLayout p ?s0) = (Inr (), s1)"
    by (rule fromDefinition_opened [OF assms]) blast
  show thesis
  proof (cases "bd_presentation d")
    case None
    hence "s1 = ?s0" using s1 by simp
    moreover have "gs_groups ?s0 = []" by (simp add: importGraphDefinition_def list_of_def None)
    moreover have "map (\<lambda>e. e\<lparr>ee_points := ee_points e\<rparr>) es = es" for es :: "editor_edge list" by simp
    ultimately show thesis using s s0 by (intro that [of ee_points]) (simp_all add: shape_def)
  next
    case (Some p)
    hence l: "importLayout p ?s0 = (Inr (), s1)" using s1 by simp
    note p = importLayout_shape [OF l]
    have "set (pg_nodeIds g) \<subseteq> n_id ` set (bd_nodes d)" if "g \<in> set (list_of (ps_groups p))" for g
    proof -
      have "layout_group_ok (map n_id (bd_nodes d)) g"
        using p(1) that unfolding validatePresentation_def s0(1) by (simp add: list_all_iff)
      thus ?thesis by (auto simp: layout_group_ok_def list_all_iff)
    qed
    moreover have "gs_groups s1 = map import_group (list_of (ps_groups p))"
      unfolding p(8) by (simp add: importGraphDefinition_def Let_def Some list_of_def split: option.splits)
    ultimately have "set (eg_nodeIds g) \<subseteq> n_id ` set (bd_nodes d)" if "g \<in> set (gs_groups s1)" for g
      using that by (force simp: import_group_def)
    thus thesis using s p(2-7) s0 by (intro that [of "saved_route p"]) (simp_all add: shape_def)
  qed
qed

lemma opened_ok:
  assumes "decodeDefinition t = Inr d" and "validateDefinition d = Inr ()" and "fromDefinition defaults rnd k d = Inr s"
  shows "editor_ok s \<and> gesture_ok s \<and> gs_depth s = 0"
proof -
  obtain f where s: "map en_id (gs_nodes s) = map n_id (bd_nodes d)"
    "gs_edges s = map (\<lambda>e. e\<lparr>ee_points := f e\<rparr>) (import_edges rnd k (bd_edges d))"
    "\<And>g. g \<in> set (gs_groups s) \<Longrightarrow> set (eg_nodeIds g) \<subseteq> n_id ` set (bd_nodes d)"
    "stacks s = ([], [], None)" "gs_depth s = 0" "gs_sequence s = k + length (bd_edges d)"
    by (rule fromDefinition_shape [OF assms(3)]) blast
  have "graph_ok (gs_sequence s) (map en_id (gs_nodes s)) (gs_edges s) (map eg_nodeIds (gs_groups s))"
    unfolding s(1,2,6) graph_ok_points
  proof (rule import_edges_ok [OF assms(2)])
    show "\<forall>n\<in>set (bd_nodes d). idPattern (n_id n)" by (rule ballI, rule conjunct1) (use decodeDefinition_shape [OF assms(1)] in simp)
    show "g \<in> set (map eg_nodeIds (gs_groups s)) \<Longrightarrow> set g \<subseteq> n_id ` set (bd_nodes d)" for g using s(3) by fastforce
  qed
  hence "entry_now s" by (simp add: entry_now_def)
  thus ?thesis using s(4,5) entry_now [of s] by (simp add: editor_ok_def stacks_def gesture_ok_def)
qed

end
