(* ===== verification/EditorSaving.thy ===== *)
theory EditorSaving
  imports EditorHistory
begin

text \<open>
  What opening a definition and saving it again keeps: \<open>fromDefinition\<close> followed by
  \<open>exportDefinition\<close>; and when an accepted definition opens at all.
\<close>

section \<open>Dictionaries from entries\<close>

lemma set_alist_update: "set (AList.update k v al) \<subseteq> insert (k, v) (set al)"
  by (induction al) auto

lemma from_entries_set: "set (from_entries kvs) \<subseteq> set kvs"
proof -
  have "set (fold (\<lambda>(k, v). AList.update k v) kvs al) \<subseteq> set al \<union> set kvs" for al
  proof (induction kvs arbitrary: al)
    case (Cons kv kvs)
    obtain k v where kv: "kv = (k, v)" by fastforce
    show ?case using Cons [of "AList.update k v al"] set_alist_update [of k v al] unfolding kv by auto
  qed simp
  thus ?thesis unfolding from_entries_def by (metis Un_empty_left empty_set)
qed

lemma from_entries_map: "map_of (from_entries kvs) = map_of (rev kvs)"
proof -
  have "map_of (fold (\<lambda>(k, v). AList.update k v) kvs al) = map_of (rev kvs @ al)" for al
    by (induction kvs arbitrary: al) (auto simp: AList.update_conv' map_add_def fun_eq_iff split: option.splits)
  thus ?thesis by (simp add: from_entries_def)
qed

lemma from_entries_found:
  assumes "distinct (map fst kvs)" and "(k, v) \<in> set kvs"
  shows "map_of (from_entries kvs) k = Some v"
  unfolding from_entries_map using assms by (intro map_of_is_SomeI) (simp_all add: rev_map [symmetric])

section \<open>The opened graph\<close>

definition layout_of :: "blueprint_definition \<Rightarrow> presentation" where
  "layout_of d = (case bd_presentation d of None \<Rightarrow> empty_presentation | Some p \<Rightarrow> p)"

lemma lay_imported [simp]: "lay_node saved (import_node saved p) = import_node saved p"
  by (simp add: lay_node_def import_node_def split: prod.splits option.splits)

lemma import_edges_unrouted: "map (\<lambda>e. e\<lparr>ee_points := None\<rparr>) (import_edges rnd k es) = import_edges rnd k es"
  by (induction es arbitrary: k) simp_all

lemma import_empty:
  assumes "bd_presentation d = None"
  shows "importLayout empty_presentation (importGraphDefinition rnd k d) = (Inr (), importGraphDefinition rnd k d)"
proof -
  have "lay_node [] n = n" for n by (simp add: lay_node_def)
  thus ?thesis
    by (simp add: importLayout_def importGraphDefinition_def Let_def assms checkOwnLayout_def checkLayout_def throw_if_def
        validatePresentation_def empty_presentation_def list_of_def import_edges_unrouted)
qed

definition finite_point :: "js_number \<times> js_number \<Rightarrow> bool" where
  "finite_point p \<longleftrightarrow> js_is_finite (fst p) \<and> js_is_finite (snd p)"

definition placed :: "presentation_node dict \<Rightarrow> editor_node \<Rightarrow> editor_node \<Rightarrow> bool" where
  "placed saved n m \<longleftrightarrow> (\<exists>a b. m = n\<lparr>en_x := a, en_y := b\<rparr> \<and> (map_of saved (en_id n) \<noteq> None \<longrightarrow> m = n)
     \<and> (map_of saved (en_id n) = None \<longrightarrow> finite_point (a, b)))"

lemma placed_same: "(map_of saved (en_id n) = None \<Longrightarrow> finite_point (en_x n, en_y n)) \<Longrightarrow> placed saved n n"
  unfolding placed_def by (intro exI [of _ "en_x n"] exI [of _ "en_y n"]) simp

lemma placed_moved: "map_of saved (en_id n) = None \<Longrightarrow> finite_point (a, b) \<Longrightarrow> placed saved n (n\<lparr>en_x := a, en_y := b\<rparr>)"
  unfolding placed_def by (intro exI [of _ a] exI [of _ b]) simp

definition finite_defaults :: "(editor \<Rightarrow> (string \<Rightarrow> js_number \<times> js_number) option) \<Rightarrow> bool" where
  "finite_defaults defaults \<longleftrightarrow> (\<forall>u pos i. defaults u = Some pos \<longrightarrow> finite_point (pos i))"

lemma import_node_finite: "map_of saved (n_id (snd p)) = None \<Longrightarrow> finite_point (en_x (import_node saved p), en_y (import_node saved p))"
  by (cases p) (simp add: import_node_def finite_point_def)

lemma opened_graph:
  assumes "fromDefinition defaults rnd k d = Inr s" and "finite_defaults defaults"
  defines "p \<equiv> layout_of d" and "s0 \<equiv> importGraphDefinition rnd k d"
  shows "validatePresentation p (map n_id (bd_nodes d)) (import_edges rnd k (bd_edges d)) (map fst (bd_resources d))"
    "list_all2 (placed (ps_nodes p)) (map (import_node (ps_nodes p)) (indexed (bd_nodes d))) (gs_nodes s)"
    "gs_edges s = map (\<lambda>e. e\<lparr>ee_points := saved_route p e\<rparr>) (import_edges rnd k (bd_edges d))"
    "gs_groups s = map import_group (list_of (ps_groups p))"
    "\<exists>pr. gs_definition s = Some (d\<lparr>bd_presentation := pr\<rparr>) \<and> Option.bind pr ps_resources = ps_resources p"
proof -
  let ?ns = "map (import_node (ps_nodes p)) (indexed (bd_nodes d))"
  note s0 = importGraph_shape [of rnd k d, folded s0_def]
  have saved: "(case bd_presentation d of None \<Rightarrow> [] | Some q \<Rightarrow> ps_nodes q) = ps_nodes p"
    by (simp add: p_def layout_of_def empty_presentation_def split: option.splits)
  have nodes0: "gs_nodes s0 = ?ns" unfolding s0_def importGraphDefinition_def saved by (simp add: Let_def)
  have groups0: "gs_groups s0 = map import_group (list_of (ps_groups p))"
    by (simp add: s0_def importGraphDefinition_def Let_def p_def layout_of_def empty_presentation_def list_of_def split: option.splits)
  have imported: "(case bd_presentation d of None \<Rightarrow> (Inr (), s0) | Some q \<Rightarrow> importLayout q s0) = importLayout p s0"
    using import_empty [of d rnd k] by (simp add: p_def s0_def layout_of_def split: option.splits)
  obtain s1 where l: "importLayout p s0 = (Inr (), s1)"
    and s: "s = (case defaults s1 of None \<Rightarrow> s1 | Some pos \<Rightarrow> s1\<lparr>gs_nodes := map (\<lambda>n. if map_of (ps_nodes p) (en_id n) = None
               then n\<lparr>en_x := fst (pos (en_id n)), en_y := snd (pos (en_id n))\<rparr> else n) (gs_nodes s1)\<rparr>)"
    using assms(1) unfolding fromDefinition_def Let_def s0_def [symmetric] imported saved
    by (cases "importLayout p s0") (auto simp: ebind_Inr)
  note l1 = importLayout_shape [OF l]
  show "validatePresentation p (map n_id (bd_nodes d)) (import_edges rnd k (bd_edges d)) (map fst (bd_resources d))"
    using l1(1) unfolding s0(1,2) by (simp add: resource_ids_def s0(7))
  have fields: "gs_edges s = gs_edges s1" "gs_groups s = gs_groups s1" "gs_definition s = gs_definition s1"
    by (simp_all add: s split: option.splits)
  show "gs_edges s = map (\<lambda>e. e\<lparr>ee_points := saved_route p e\<rparr>) (import_edges rnd k (bd_edges d))"
    unfolding fields l1(3) s0(2) ..
  show "gs_groups s = map import_group (list_of (ps_groups p))"
    unfolding fields l1(8) groups0 by (simp add: list_of_def split: option.splits)
  note body = l [unfolded importLayout_def]
  have t: "gs_nodes s1 = map (lay_node (ps_nodes p)) (gs_nodes s0)" "gs_definition s1 = (case ps_resources p of None \<Rightarrow> gs_definition s0
      | Some rs \<Rightarrow> map_option (\<lambda>d. d\<lparr>bd_presentation := Some ((case bd_presentation d of None \<Rightarrow> empty_presentation | Some p \<Rightarrow> p)\<lparr>ps_resources := Some rs\<rparr>)\<rparr>) (gs_definition s0))"
    using body by (auto split: if_splits sum.splits)
  show "\<exists>pr. gs_definition s = Some (d\<lparr>bd_presentation := pr\<rparr>) \<and> Option.bind pr ps_resources = ps_resources p"
  proof (cases "ps_resources p")
    case None
    have "Option.bind (bd_presentation d) ps_resources = None" using None by (simp add: p_def layout_of_def split: option.splits)
    hence "gs_definition s = Some (d\<lparr>bd_presentation := bd_presentation d\<rparr>)" by (simp add: fields t(2) None s0(7))
    thus ?thesis using None \<open>Option.bind _ _ = None\<close> by metis
  next
    case (Some rs)
    let ?pr = "Some ((case bd_presentation d of None \<Rightarrow> empty_presentation | Some p \<Rightarrow> p)\<lparr>ps_resources := Some rs\<rparr>)"
    have "gs_definition s = Some (d\<lparr>bd_presentation := ?pr\<rparr>)" by (simp add: fields t(2) Some s0(7))
    thus ?thesis unfolding Some by (intro exI [of _ ?pr]) simp
  qed
  have nodes1: "gs_nodes s1 = ?ns" unfolding t(1) nodes0 by simp
  show "list_all2 (placed (ps_nodes p)) ?ns (gs_nodes s)"
  proof (cases "defaults s1")
    case None
    have "placed (ps_nodes p) n n" if "n \<in> set ?ns" for n
      using that import_node_finite [of "ps_nodes p"] by (intro placed_same) auto
    thus ?thesis by (simp add: s None nodes1 list.rel_refl_strong del: set_map)
  next
    case (Some pos)
    have "placed (ps_nodes p) n (if map_of (ps_nodes p) (en_id n) = None then n\<lparr>en_x := fst (pos (en_id n)), en_y := snd (pos (en_id n))\<rparr> else n)" for n
    proof (cases "map_of (ps_nodes p) (en_id n) = None")
      case True
      thus ?thesis using placed_moved [OF True] assms(2) Some by (simp add: finite_defaults_def)
    qed (auto intro: placed_same)
    moreover have "gs_nodes s = map (\<lambda>n. if map_of (ps_nodes p) (en_id n) = None
        then n\<lparr>en_x := fst (pos (en_id n)), en_y := snd (pos (en_id n))\<rparr> else n) (gs_nodes s1)"
      by (simp add: s Some)
    ultimately show ?thesis unfolding nodes1 by (metis (no_types, lifting) list_all2_map_right)
  qed
qed

section \<open>Saving the opened graph\<close>

text \<open>A node comes back as it was.\<close>

lemma exported_node:
  assumes "placed saved (import_node saved' p) m"
  shows "graphNodeFromEditorNode m = snd p"
proof -
  obtain a b where m: "m = (import_node saved' p)\<lparr>en_x := a, en_y := b\<rparr>" using assms unfolding placed_def by blast
  show ?thesis
    unfolding m by (cases p; cases "n_inputs (snd p)"; cases "n_outputs (snd p)")
      (simp_all add: graphNodeFromEditorNode_def definition_of_def import_node_def list_of_def Let_def)
qed

text \<open>A node with a saved position exports that position and its attributes.\<close>

lemma exported_layout:
  assumes "placed saved (import_node saved p) m"
  shows "map_of saved (n_id (snd p)) = Some q \<Longrightarrow> node_layout (en_presentation m) (en_x m) (en_y m) = q"
    "map_of saved (n_id (snd p)) = None \<Longrightarrow> layout_node_ok (node_layout (en_presentation m) (en_x m) (en_y m))"
  using assms
  by (cases p; auto simp: placed_def import_node_def node_layout_def layout_attrs_def layout_node_ok_def finite_point_def)+

definition routes_of :: "presentation \<Rightarrow> presentation_edge set" where
  "routes_of p = set (list_of (ps_edges p))"

lemma saved_route_found:
  assumes "distinct (map edge_key (list_of (ps_edges p)))" and "r \<in> routes_of p" and "editor_edge_key e = edge_key r"
  shows "saved_route p e = Some (pe_points r)"
  unfolding saved_route_def using assms
  by (intro map_of_is_SomeI) (auto simp: routes_of_def rev_map [symmetric] comp_def image_iff)

lemma saved_route_source:
  assumes "saved_route p e = Some ps"
  shows "\<lparr>pe_kind = ee_kind e, pe_from = ee_from e, pe_to = ee_to e, pe_points = ps\<rparr> \<in> routes_of p"
proof -
  have "(editor_edge_key e, ps) \<in> set (map (\<lambda>r. (edge_key r, pe_points r)) (rev (list_of (ps_edges p))))"
    using assms unfolding saved_route_def by (rule map_of_SomeD)
  then obtain r where r: "r \<in> routes_of p" "edge_key r = editor_edge_key e" "pe_points r = ps" by (auto simp: routes_of_def)
  hence "\<lparr>pe_kind = ee_kind e, pe_from = ee_from e, pe_to = ee_to e, pe_points = ps\<rparr> = r"
    by (cases r) (simp add: edge_key_def editor_edge_key_def)
  thus ?thesis using r(1) by simp
qed

definition route_of :: "editor_edge \<Rightarrow> presentation_edge" where
  "route_of e = \<lparr>pe_kind = ee_kind e, pe_from = ee_from e, pe_to = ee_to e, pe_points = the (ee_points e)\<rparr>"

lemma exported_routes:
  "list_of (ps_edges (exportGraphLayout s)) = map route_of (filter (\<lambda>e. ee_points e \<noteq> None) (gs_edges s))"
  by (simp add: exportGraphLayout_def Let_def list_of_def route_of_def)

lemma opened_routes:
  assumes s: "gs_edges s = map (\<lambda>e. e\<lparr>ee_points := saved_route p e\<rparr>) es"
    and v: "distinct (map edge_key (list_of (ps_edges p)))" "list_all (layout_edge_ok (map editor_edge_key es)) (list_of (ps_edges p))"
  shows "routes_of (exportGraphLayout s) = routes_of p"
proof (rule set_eqI)
  fix r
  show "r \<in> routes_of (exportGraphLayout s) \<longleftrightarrow> r \<in> routes_of p"
  proof
    assume "r \<in> routes_of (exportGraphLayout s)"
    then obtain e where "e \<in> set es" "saved_route p e \<noteq> None" "r = route_of (e\<lparr>ee_points := saved_route p e\<rparr>)"
      unfolding routes_of_def exported_routes s by auto
    thus "r \<in> routes_of p" using saved_route_source [of p e] by (auto simp: route_of_def)
  next
    assume r: "r \<in> routes_of p"
    hence "edge_key r \<in> editor_edge_key ` set es" using v(2) by (auto simp: routes_of_def list_all_iff layout_edge_ok_def)
    then obtain e where e: "e \<in> set es" "editor_edge_key e = edge_key r" by auto
    note route = saved_route_found [OF v(1) r e(2)]
    have "route_of (e\<lparr>ee_points := saved_route p e\<rparr>) = r"
      using e(2) route by (cases r) (simp add: route_of_def edge_key_def editor_edge_key_def)
    moreover have "e\<lparr>ee_points := saved_route p e\<rparr> \<in> set (filter (\<lambda>e. ee_points e \<noteq> None) (gs_edges s))"
      unfolding s set_filter set_map using e(1) route by (simp add: rev_image_eqI)
    ultimately show "r \<in> routes_of (exportGraphLayout s)" unfolding routes_of_def exported_routes by (metis imageI set_map)
  qed
qed

lemma import_edges_keys: "map editor_edge_key (import_edges rnd k es) = map (\<lambda>e. (ed_kind e, ed_from e, ed_to e)) es"
  by (induction es arbitrary: k) (simp_all add: editor_edge_key_def)

lemma distinct_edge_keys: "distinct es \<Longrightarrow> distinct (map (\<lambda>e. (ed_kind e, ed_from e, ed_to e)) (es :: graph_edge list))"
  by (simp add: distinct_map inj_on_def)

lemma editor_edge_key_points [simp]: "editor_edge_key (e\<lparr>ee_points := x\<rparr>) = editor_edge_key e"
  by (simp add: editor_edge_key_def)

lemma edge_key_route [simp]: "edge_key (route_of e) = editor_edge_key e"
  by (simp add: edge_key_def route_of_def editor_edge_key_def)

lemma import_group_id [simp]: "eg_id (import_group g) = pg_id g"
  by (simp add: import_group_def)

lemma import_group_back [simp]:
  "layout_group_ok ids \<lparr>pg_id = pg_id g, pg_label = l, pg_nodeIds = eg_nodeIds (import_group g)\<rparr> = layout_group_ok ids g"
  by (simp_all add: import_group_def layout_group_ok_def)

lemma opened_node:
  assumes "list_all2 (placed saved) (map (import_node saved) (indexed ns)) ms" and "m \<in> set ms"
  obtains p where "p \<in> set (indexed ns)" "placed saved (import_node saved p) m"
proof -
  obtain i where i: "i < length ms" "m = ms ! i" using assms(2) by (auto simp: in_set_conv_nth)
  hence "placed saved (import_node saved (indexed ns ! i)) m" "i < length (indexed ns)"
    using assms(1) by (auto simp: list_all2_conv_all_nth)
  thus thesis using that nth_mem by metis
qed

text \<open>Positions of the exported layout.\<close>

lemma exported_positions:
  "ps_nodes (exportGraphLayout s) = from_entries (map (\<lambda>n. (en_id n, node_layout (en_presentation n) (en_x n) (en_y n))) (gs_nodes s))"
  by (simp add: exportGraphLayout_def Let_def)

lemma opened_valid:
  assumes o: "fromDefinition defaults rnd k d = Inr s" and f: "finite_defaults defaults"
    and distinct: "distinct (bd_edges d)"
  shows "checkOwnLayout s (exportGraphLayout s) = Inr ()"
proof -
  let ?p = "layout_of d" and ?x = "exportGraphLayout s" and ?ids = "map en_id (gs_nodes s)"
  note s = opened_graph [OF o f]
  have ids: "?ids = map n_id (bd_nodes d)" using fromDefinition_shape [OF o] by blast
  have res: "ps_resources ?x = ps_resources ?p" "resource_ids s = map fst (bd_resources d)"
    using s(5) by (auto simp: exportGraphLayout_def Let_def resource_ids_def)
  note v = s(1) [unfolded validatePresentation_def]
  have nodes: "i \<in> set ?ids \<and> layout_node_ok n" if "(i, n) \<in> set (ps_nodes ?x)" for i n
  proof -
    have "(i, n) \<in> set (map (\<lambda>n. (en_id n, node_layout (en_presentation n) (en_x n) (en_y n))) (gs_nodes s))"
      using that from_entries_set unfolding exported_positions by blast
    then obtain m where m: "m \<in> set (gs_nodes s)" "i = en_id m" "n = node_layout (en_presentation m) (en_x m) (en_y m)" by auto
    obtain p where p: "placed (ps_nodes ?p) (import_node (ps_nodes ?p) p) m" by (rule opened_node [OF s(2) m(1)])
    show ?thesis
    proof (cases "map_of (ps_nodes ?p) (n_id (snd p))")
      case None
      thus ?thesis using exported_layout(2) [OF p] m by simp
    next
      case (Some q)
      have "(n_id (snd p), q) \<in> set (ps_nodes ?p)" using Some by (rule map_of_SomeD)
      hence "layout_node_ok q" using v by (auto simp: list_all_iff)
      thus ?thesis using exported_layout(1) [OF p Some] m by simp
    qed
  qed
  have groups: "list_of (ps_groups ?x) = map (\<lambda>g. \<lparr>pg_id = eg_id (import_group g), pg_label = Some (eg_label (import_group g)),
      pg_nodeIds = eg_nodeIds (import_group g)\<rparr>) (list_of (ps_groups ?p))"
    by (simp add: exportGraphLayout_def Let_def s(4) list_of_def)
  have keys: "map editor_edge_key (gs_edges s) = map editor_edge_key (import_edges rnd k (bd_edges d))" by (simp add: s(3) comp_def)
  have route_ok: "layout_edge_ok (map editor_edge_key (gs_edges s)) r" if "r \<in> set (list_of (ps_edges ?x))" for r
  proof -
    have "r \<in> routes_of ?p" using opened_routes [OF s(3)] v that by (simp add: routes_of_def)
    thus ?thesis unfolding keys using v by (simp add: routes_of_def list_all_iff)
  qed
  have "distinct (map editor_edge_key (gs_edges s))" unfolding keys import_edges_keys by (rule distinct_edge_keys [OF distinct])
  hence routes: "distinct (map edge_key (list_of (ps_edges ?x)))" unfolding exported_routes by (simp add: comp_def distinct_map_filter)
  have "validatePresentation ?x ?ids (gs_edges s) (resource_ids s)"
    unfolding validatePresentation_def
  proof (intro conjI)
    show "list_all (\<lambda>(i, n). i \<in> set ?ids \<and> layout_node_ok n) (ps_nodes ?x)" using nodes by (auto simp: list_all_iff)
    show "list_all (\<lambda>(i, _). idPattern i \<and> i \<in> set (resource_ids s)) (list_of (ps_resources ?x))" unfolding res using v by blast
    show "list_all (layout_group_ok ?ids) (list_of (ps_groups ?x))" unfolding ids groups using v by (simp add: list_all_iff)
    show "distinct (map pg_id (list_of (ps_groups ?x)))" unfolding groups using v by (simp add: comp_def)
    show "list_all (layout_edge_ok (map editor_edge_key (gs_edges s))) (list_of (ps_edges ?x))" using route_ok by (simp add: list_all_iff)
    show "distinct (map edge_key (list_of (ps_edges ?x)))" by (rule routes)
  qed
  thus ?thesis by (simp add: checkOwnLayout_def checkLayout_def throw_if_def)
qed

lemma opened_nodes:
  assumes "list_all2 (placed saved) (map (import_node saved) (indexed ns)) ms"
  shows "map graphNodeFromEditorNode ms = ns"
proof -
  have "list_all2 (\<lambda>p m. snd p = graphNodeFromEditorNode m) (indexed ns) ms"
    using assms unfolding list.rel_map by (rule list.rel_mono_strong) (simp add: exported_node)
  hence "map graphNodeFromEditorNode ms = map snd (indexed ns)"
    by (intro nth_equalityI) (auto simp: list_all2_conv_all_nth simp del: map_snd_indexed)
  thus ?thesis by simp
qed

lemma opened_position:
  assumes o: "fromDefinition defaults rnd k d = Inr s" and f: "finite_defaults defaults"
    and distinct: "distinct (map n_id (bd_nodes d))" and q: "map_of (ps_nodes (layout_of d)) i = Some q"
  shows "map_of (ps_nodes (exportGraphLayout s)) i = Some q"
proof -
  note s = opened_graph [OF o f]
  have ids: "map en_id (gs_nodes s) = map n_id (bd_nodes d)" using fromDefinition_shape [OF o] by blast
  have "i \<in> set (map n_id (bd_nodes d))"
    using map_of_SomeD [OF q] s(1) by (auto simp: validatePresentation_def list_all_iff)
  then obtain m where m: "m \<in> set (gs_nodes s)" "en_id m = i" unfolding ids [symmetric] by auto
  obtain p where p: "placed (ps_nodes (layout_of d)) (import_node (ps_nodes (layout_of d)) p) m" by (rule opened_node [OF s(2) m(1)])
  have "n_id (snd p) = i" using p m(2) by (auto simp: placed_def)
  hence "node_layout (en_presentation m) (en_x m) (en_y m) = q" using exported_layout(1) [OF p] q by simp
  moreover have "distinct (map en_id (gs_nodes s))" unfolding ids by (rule distinct)
  ultimately show ?thesis
    unfolding exported_positions using m by (intro from_entries_found) (auto simp: comp_def)
qed

section \<open>When an accepted definition opens\<close>

text \<open>The check of a saved layout asks more of the route of a control edge than the validator does of the
  edge: no branch at its target, and at its source at most one, of the pattern of identities.\<close>

definition route_opens :: "presentation_edge \<Rightarrow> bool" where
  "route_opens r \<longleftrightarrow> pe_kind r = DataEdge
     \<or> tl (split_on CHR ''@'' (pe_to r)) = []
       \<and> (case tl (split_on CHR ''@'' (pe_from r)) of [] \<Rightarrow> True | [b] \<Rightarrow> idPattern b | _ \<Rightarrow> False)"

definition routes_open :: "blueprint_definition \<Rightarrow> bool" where
  "routes_open d \<longleftrightarrow> list_all route_opens (list_of (ps_edges (layout_of d)))"

lemma accepted_presentation:
  assumes "validateDefinition d = Inr ()"
  shows "presentation_shape_issues (layout_of d) = [] \<and> presentation_ref_issues d (node_map (bd_nodes d)) (layout_of d) = []"
proof (cases "bd_presentation d")
  case None
  thus ?thesis
    by (simp add: layout_of_def empty_presentation_def presentation_shape_issues_def presentation_ref_issues_def list_of_def indexed_def)
next
  case (Some pr)
  thus ?thesis using assms
    by (auto simp: validateDefinition_def definition_issues_def presentation_issues_def layout_of_def Let_def split: if_splits)
qed

lemma indexed_nth: "i < length xs \<Longrightarrow> (i, xs ! i) \<in> set (indexed xs)"
  by (auto simp: indexed_def set_zip intro!: exI [of _ i])

lemma indexed_member: "x \<in> set xs \<Longrightarrow> \<exists>i. (i, x) \<in> set (indexed xs)"
  using indexed_nth by (metis in_set_conv_nth)

lemma distinct_by_issues:
  assumes "\<And>i x. (i, x) \<in> set (indexed xs) \<Longrightarrow> f x \<notin> set (map f (take i xs))"
  shows "distinct (map f xs)"
  by (rule distinct_by_prefix) (use assms [OF indexed_nth] in \<open>simp add: take_map\<close>)

text \<open>Endpoints of an accepted edge.\<close>

lemma accepted_data_endpoint:
  assumes "validateDefinition d = Inr ()" and "\<forall>n\<in>set (bd_nodes d). idPattern (n_id n)"
    and "e \<in> set (bd_edges d)" and "ed_kind e = DataEdge"
  shows "endpoint_ok DataEdge True (ed_from e)" "endpoint_ok DataEdge False (ed_to e)"
proof -
  obtain p where ok: "data_edge_issues (node_map (bd_nodes d)) p e = []"
    using accepted_edge [OF assms(1,3)] assms(4) by (auto simp: edge_issues_def Let_def)
  hence "parseDataEndpoint (ed_from e) \<noteq> None" "parseDataEndpoint (ed_to e) \<noteq> None"
    by (auto simp: data_edge_issues_def Let_def)
  moreover have "idPattern (before_char CHR ''.'' (ed_from e))" "idPattern (before_char CHR ''.'' (ed_to e))"
    using accepted_data_edge(1-4) [OF assms(1,3,4)] assms(2) by force+
  ultimately show "endpoint_ok DataEdge True (ed_from e)" "endpoint_ok DataEdge False (ed_to e)"
    by (auto simp: endpoint_ok_def parseDataEndpoint_def split: if_splits)
qed

lemma accepted_control_endpoint:
  assumes "validateDefinition d = Inr ()" and "\<forall>n\<in>set (bd_nodes d). idPattern (n_id n)"
    and "e \<in> set (bd_edges d)" and "ed_kind e = ControlEdge"
  shows "idPattern (hd (split_on CHR ''@'' (ed_from e)))" "idPattern (hd (split_on CHR ''@'' (ed_to e)))"
  using accepted_control_edge [OF assms(1,3)] assms(2,4)
  by (force simp: parent_of_edge_def control_target_def)+

lemma control_endpoint_ok:
  assumes "idPattern (hd (split_on CHR ''@'' v))"
  shows "endpoint_ok ControlEdge source v
    \<longleftrightarrow> (case tl (split_on CHR ''@'' v) of [] \<Rightarrow> True | [b] \<Rightarrow> source \<and> idPattern b | _ \<Rightarrow> False)"
  using assms by (cases "split_on CHR ''@'' v" rule: list.exhaust) (auto simp: endpoint_ok_def simp del: hd_split_on split: list.splits)

text \<open>An accepted definition passes the layout check of the editor exactly when its control routes do.\<close>

lemma accepted_layout:
  assumes v: "validateDefinition d = Inr ()" and ids: "\<forall>n\<in>set (bd_nodes d). idPattern (n_id n)"
  shows "validatePresentation (layout_of d) (map n_id (bd_nodes d)) (import_edges rnd k (bd_edges d)) (map fst (bd_resources d))
    \<longleftrightarrow> routes_open d"
proof -
  let ?p = "layout_of d"
  have shape: "presentation_shape_issues ?p = []" and refs: "presentation_ref_issues d (node_map (bd_nodes d)) ?p = []"
    using accepted_presentation [OF v] by auto
  have nodes: "list_all (\<lambda>(i, n). i \<in> set (map n_id (bd_nodes d)) \<and> layout_node_ok n) (ps_nodes ?p)"
    using shape refs node_map_dom [of "bd_nodes d"]
    by (fastforce simp: presentation_shape_issues_def presentation_ref_issues_def Let_def list_all_iff layout_node_ok_def
        finite_positive_def option.pred_set)
  have resources: "list_all (\<lambda>(i, _). idPattern i \<and> i \<in> set (map fst (bd_resources d))) (list_of (ps_resources ?p))"
    using shape refs
    by (fastforce simp: presentation_shape_issues_def presentation_ref_issues_def Let_def list_all_iff map_of_eq_None_iff)
  have group: "idPattern (pg_id g)" "list_all (\<lambda>i. idPattern i \<and> i \<in> set (map n_id (bd_nodes d))) (pg_nodeIds g)" "distinct (pg_nodeIds g)"
    if g: "g \<in> set (list_of (ps_groups ?p))" for g
  proof -
    obtain i where i: "(i, g) \<in> set (indexed (list_of (ps_groups ?p)))" using indexed_member [OF g] by blast
    have s: "idPattern (pg_id g)" "\<forall>(j, x)\<in>set (indexed (pg_nodeIds g)). idPattern x"
      using shape i by (fastforce simp: presentation_shape_issues_def Let_def)+
    have r: "\<forall>(j, x)\<in>set (indexed (pg_nodeIds g)). map_of (node_map (bd_nodes d)) x \<noteq> None \<and> x \<notin> set (take j (pg_nodeIds g))"
      using refs i by (fastforce simp: presentation_ref_issues_def Let_def)
    show "idPattern (pg_id g)" by (rule s)
    show "list_all (\<lambda>i. idPattern i \<and> i \<in> set (map n_id (bd_nodes d))) (pg_nodeIds g)"
      using s(2) r indexed_member [of _ "pg_nodeIds g"] node_map_dom [of "bd_nodes d"] by (fastforce simp: list_all_iff)
    show "distinct (pg_nodeIds g)" using distinct_by_issues [of "pg_nodeIds g" id] r by fastforce
  qed
  have groups: "distinct (map pg_id (list_of (ps_groups ?p)))"
    by (rule distinct_by_issues) (use refs in \<open>fastforce simp: presentation_ref_issues_def Let_def\<close>)
  have routes: "distinct (map edge_key (list_of (ps_edges ?p)))"
    by (rule distinct_by_issues) (use refs in \<open>fastforce simp: presentation_ref_issues_def Let_def\<close>)
  have route: "layout_edge_ok (map editor_edge_key (import_edges rnd k (bd_edges d))) r \<longleftrightarrow> route_opens r"
    if r: "r \<in> set (list_of (ps_edges ?p))" for r
  proof -
    obtain i where i: "(i, r) \<in> set (indexed (list_of (ps_edges ?p)))" using indexed_member [OF r] by blast
    have key: "edge_key r \<in> set (map (\<lambda>e. (ed_kind e, ed_from e, ed_to e)) (bd_edges d))"
      using refs i by (fastforce simp: presentation_ref_issues_def Let_def)
    then obtain e where e: "e \<in> set (bd_edges d)" "ed_kind e = pe_kind r" "ed_from e = pe_from r" "ed_to e = pe_to r"
      by (auto simp: edge_key_def)
    have points: "\<forall>(j, x, y)\<in>set (indexed (pe_points r)). js_is_finite x \<and> js_is_finite y"
      using shape i by (fastforce simp: presentation_shape_issues_def Let_def)
    have points: "list_all (\<lambda>(x, y). js_is_finite x \<and> js_is_finite y) (pe_points r)"
      using points indexed_member [of _ "pe_points r"] by (fastforce simp: list_all_iff)
    show ?thesis
    proof (cases "pe_kind r")
      case DataEdge
      thus ?thesis using accepted_data_endpoint [OF v ids e(1)] e key points
        by (simp add: layout_edge_ok_def route_opens_def import_edges_keys)
    next
      case ControlEdge
      note c = accepted_control_endpoint [OF v ids e(1) e(2) [unfolded ControlEdge]]
      show ?thesis using control_endpoint_ok [OF c(1)] control_endpoint_ok [OF c(2)] ControlEdge e key points
        by (auto simp: layout_edge_ok_def route_opens_def import_edges_keys split: list.splits)
    qed
  qed
  show ?thesis
    unfolding validatePresentation_def routes_open_def
    using nodes resources group groups routes route by (simp add: list_all_iff layout_group_ok_def)
qed

lemma fromDefinition_result:
  assumes v: "validateDefinition d = Inr ()" and ids: "\<forall>n\<in>set (bd_nodes d). idPattern (n_id n)"
  shows "if routes_open d then \<exists>s. fromDefinition defaults rnd k d = Inr s
    else fromDefinition defaults rnd k d = Inl PresentationInvalid"
proof -
  let ?s0 = "importGraphDefinition rnd k d"
  note s0 = importGraph_shape [of rnd k d]
  have check: "checkOwnLayout ?s0 (layout_of d) = (if routes_open d then Inr () else Inl PresentationInvalid)"
    using accepted_layout [OF v ids, of rnd k] s0(1,2,7)
    by (simp add: checkOwnLayout_def checkLayout_def throw_if_def resource_ids_def)
  have before: "gs_layoutBefore ?s0 = None" using s0(3) by (simp add: stacks_def)
  show ?thesis
  proof (cases "bd_presentation d")
    case None
    hence "routes_open d" by (simp add: routes_open_def layout_of_def empty_presentation_def list_of_def)
    thus ?thesis using None by (simp add: fromDefinition_def Let_def)
  next
    case (Some p)
    hence "layout_of d = p" by (simp add: layout_of_def)
    thus ?thesis using check before Some by (auto simp: fromDefinition_def importLayout_def Let_def)
  qed
qed

end
