(* ===== verification/EditorProperties.thy ===== *)
theory EditorProperties
  imports EditorSaving
begin

text \<open>
  The properties of the graph editor, on editors opened from accepted definitions and on every history
  of commands that follows.
\<close>

definition edit_text :: json_text where
  "edit_text = Some (JObj [(''schemaVersion'', JNum (Finite 2)), (''id'', JStr ''draft''), (''name'', JStr ''Draft''),
     (''resources'', JObj []),
     (''graph'', JObj
        [(''nodes'', JArr
           [JObj [(''id'', JStr ''in''), (''kind'', JStr ''input''), (''outputs'', JObj [(''text'', JStr ''string'')])],
            JObj [(''id'', JStr ''out''), (''kind'', JStr ''output''), (''inputs'', JObj [(''text'', JStr ''string'')])]]),
         (''edges'', JArr [JObj [(''kind'', JStr ''data''), (''from'', JStr ''in.text''), (''to'', JStr ''out.text'')]])])])"

definition open_text :: "json_text \<Rightarrow> editor option" where
  "open_text t = (case decodeDefinition t of Inl _ \<Rightarrow> None
     | Inr d \<Rightarrow> if validateDefinition d \<noteq> Inr () then None
         else case fromDefinition (\<lambda>_. None) (\<lambda>_. ''r'') 0 d of Inl _ \<Rightarrow> None | Inr s \<Rightarrow> Some s)"

lemma open_textE:
  assumes "open_text t = Some s"
  obtains d where "decodeDefinition t = Inr d" "validateDefinition d = Inr ()" "fromDefinition (\<lambda>_. None) (\<lambda>_. ''r'') 0 d = Inr s"
  using assms by (auto simp: open_text_def split: sum.splits if_splits)

lemma edit_run:
  obtains s where "open_text edit_text = Some s" "gs_depth s = 0" "length (gs_nodes s) = 2"
    "removeEdge ''e-r-1'' s = (Inr True, snd (removeEdge ''e-r-1'' s))" "gs_edges (snd (removeEdge ''e-r-1'' s)) = []"
    "length (gs_undo (snd (removeEdge ''e-r-1'' s))) = 1"
    "fst (undoGraph (snd (removeEdge ''e-r-1'' s))) = Inr True"
    "length (gs_edges s) = 1"
proof -
  have "(case open_text edit_text of None \<Rightarrow> False | Some s \<Rightarrow>
      let t = snd (removeEdge ''e-r-1'' s) in
      gs_depth s = 0 \<and> length (gs_nodes s) = 2 \<and> fst (removeEdge ''e-r-1'' s) = Inr True \<and> gs_edges t = [] \<and> length (gs_undo t) = 1
      \<and> fst (undoGraph t) = Inr True \<and> length (gs_edges s) = 1)"
    by code_simp
  thus thesis using that by (auto simp: Let_def prod_eq_iff split: option.splits)
qed

lemma one_step: "editor_step s t \<Longrightarrow> editor_steps s t"
  by (rule es_more [OF es_none])

section \<open>Connections\<close>

text \<open>\<open>checkConnection\<close> reports a data cycle exactly for declared, typed data ports of two nodes
  where the source is already reachable from the target along the data edges that are not being
  replaced: the depth first search with its stack and visited set ends, misses no path and invents none.\<close>

lemma checkConnection_cycle:
  "checkConnection s p q ignore restore = DataCycle \<longleftrightarrow>
     canConnect p q = ConnectionOk \<and> port_kind p = DataEdge
     \<and> (\<exists>n m. find_node s (pt_nodeId p) = Some n \<and> find_node s (pt_nodeId q) = Some m
          \<and> map_of (en_outputs n) (pt_port p) = Some (pt_type p) \<and> map_of (en_inputs m) (pt_port q) = Some (pt_type q))
     \<and> (pt_nodeId q, pt_nodeId p) \<in> (step_rel (followed_edges ignore (gs_edges s)))\<^sup>*"
proof -
  have data: "data_verdict s p q ignore = DataCycle \<longleftrightarrow>
      Option.bind (find_node s (pt_nodeId p)) (\<lambda>n. map_of (en_outputs n) (pt_port p)) = Some (pt_type p)
      \<and> Option.bind (find_node s (pt_nodeId q)) (\<lambda>n. map_of (en_inputs n) (pt_port q)) = Some (pt_type q)
      \<and> (pt_nodeId q, pt_nodeId p) \<in> (step_rel (followed_edges ignore (gs_edges s)))\<^sup>*"
    unfolding data_verdict_def search_data_exact by auto
  have control: "control_verdict s p q \<noteq> DataCycle" by (simp add: control_verdict_def Let_def)
  have plain: "canConnect p q \<noteq> DataCycle" by (simp add: canConnect_def)
  have "checkConnection s p q ignore restore = DataCycle \<longleftrightarrow>
      canConnect p q = ConnectionOk \<and> find_node s (pt_nodeId p) \<noteq> None \<and> find_node s (pt_nodeId q) \<noteq> None
      \<and> port_kind p = DataEdge \<and> data_verdict s p q ignore = DataCycle"
    using control plain unfolding checkConnection_def Let_def by (auto split: prod.splits if_splits)
  thus ?thesis unfolding data by (auto simp: bind_eq_Some_conv)
qed

section \<open>Histories\<close>

text \<open>C15: An editor opened from an accepted definition, after any sequence of commands, transactions,
  undo and redo: node and edge identities are distinct, data edges form no cycle, every edge and every
  group names existing nodes, the history holds at most 100 graphs, and each of them has these
  properties too.\<close>

theorem editor_invariant:
  assumes "decodeDefinition t = Inr d" and "validateDefinition d = Inr ()" and "fromDefinition defaults rnd k d = Inr s0"
    and "editor_steps s0 s"
  shows "distinct (map en_id (gs_nodes s)) \<and> distinct (map ee_id (gs_edges s)) \<and> acyclic (edge_rel (gs_edges s))
    \<and> (\<forall>e\<in>set (gs_edges s). endpoint_of (ee_kind e) (ee_from e) \<in> en_id ` set (gs_nodes s)
          \<and> endpoint_of (ee_kind e) (ee_to e) \<in> en_id ` set (gs_nodes s))
    \<and> (\<forall>g\<in>set (gs_groups s). set (eg_nodeIds g) \<subseteq> en_id ` set (gs_nodes s))
    \<and> length (gs_undo s) + length (gs_redo s) \<le> 100
    \<and> (\<forall>e\<in>set (gs_undo s) \<union> set (gs_redo s). entry_ok (gs_sequence s) e)"
proof -
  have ok: "editor_ok s" using opened_ok [OF assms(1-3)] editor_steps_sound [OF assms(4)] by simp
  show ?thesis using ok editor_now [OF ok] by (simp add: editor_ok_def entry_now_def graph_ok_def HISTORY_CAP_def)
qed

theorem editor_invariant_witness:
  "\<exists>s0 s. open_text edit_text = Some s0 \<and> editor_steps s0 s \<and> gs_edges s = [] \<and> length (gs_undo s) = 1
     \<and> distinct (map en_id (gs_nodes s)) \<and> length (gs_undo s) + length (gs_redo s) \<le> 100"
proof -
  obtain s0 where s0: "open_text edit_text = Some s0" "gs_edges (snd (removeEdge ''e-r-1'' s0)) = []"
    "length (gs_undo (snd (removeEdge ''e-r-1'' s0))) = 1" by (rule edit_run)
  obtain d where d: "decodeDefinition edit_text = Inr d" "validateDefinition d = Inr ()"
    "fromDefinition (\<lambda>_. None) (\<lambda>_. ''r'') 0 d = Inr s0" by (rule open_textE [OF s0(1)])
  have step: "editor_steps s0 (snd (removeEdge ''e-r-1'' s0))" by (rule one_step [OF es_removeEdge])
  show ?thesis using editor_invariant [OF d step] s0 step by blast
qed

text \<open>C16: The editor implements a timeline. After any history from an accepted definition, every command,
  also a transaction as a whole, maps to at most one step of the timeline of saved graphs: it leaves it,
  records one edit on a past of at most 100 graphs and forgets the future, or moves one graph back or
  forward. The moves of a pending gesture are invisible until they are committed.\<close>

theorem editor_refines_timeline:
  assumes "decodeDefinition t = Inr d" and "validateDefinition d = Inr ()" and "fromDefinition defaults rnd k d = Inr s0"
    and "editor_steps s0 s" and "editor_step s s'"
  shows "timeline_step (timeline_of s) (timeline_of s')"
proof -
  have "gs_depth s = 0" "gesture_ok s" using opened_ok [OF assms(1-3)] editor_steps_sound [OF assms(4)] by simp_all
  thus ?thesis using editor_step_law(1) [OF assms(5)] by (simp add: editor_law_def editor_refines_def)
qed

theorem editor_refines_timeline_witness:
  "\<exists>s0. open_text edit_text = Some s0 \<and> timeline_step (timeline_of s0) (timeline_of (snd (removeEdge ''e-r-1'' s0)))
     \<and> tl_past (timeline_of s0) \<noteq> tl_past (timeline_of (snd (removeEdge ''e-r-1'' s0)))"
proof -
  obtain s0 where s0: "open_text edit_text = Some s0" "length (gs_undo (snd (removeEdge ''e-r-1'' s0))) = 1" by (rule edit_run)
  obtain d where d: "decodeDefinition edit_text = Inr d" "validateDefinition d = Inr ()"
    "fromDefinition (\<lambda>_. None) (\<lambda>_. ''r'') 0 d = Inr s0" by (rule open_textE [OF s0(1)])
  have "gs_undo s0 = []" using fromDefinition_shape [OF d(3)] by (metis fst_conv stacks_def)
  hence "tl_past (timeline_of s0) \<noteq> tl_past (timeline_of (snd (removeEdge ''e-r-1'' s0)))"
    using s0(2) by (auto simp: timeline_of_def)
  thus ?thesis using s0(1) editor_refines_timeline [OF d es_none es_removeEdge] by blast
qed

text \<open>A redo after an undo gives back the graph, the redo stack and the undo stack of before; only the
  selection is cleared, that of the graph and that of the entry that was undone and redone.\<close>

lemma undo_redo:
  assumes "undoGraph s = (Inr True, s1)"
  shows "redoGraph s1 = (Inr True, s\<lparr>gs_selection := [], gs_undo := butlast (gs_undo s) @ [(last (gs_undo s))\<lparr>he_selection := []\<rparr>]\<rparr>)"
proof -
  have u: "gs_depth s = 0" "gs_layoutBefore s = None" "gs_undo s \<noteq> []"
    and s1: "s1 = (restoreGraph (last (gs_undo s)) (s\<lparr>gs_undo := butlast (gs_undo s), gs_redo := gs_redo s @ [snapshotGraph s]\<rparr>))\<lparr>gs_selection := []\<rparr>"
    using assms by (auto simp: undoGraph_def Let_def split: if_splits)
  show ?thesis unfolding redoGraph_def Let_def s1 using u(1,2)
    by (simp add: restoreGraph_def snapshotGraph_def)
qed

section \<open>Transactions\<close>

lemma exportLayout_cong:
  assumes "gs_nodes s = gs_nodes t" "gs_edges s = gs_edges t" "gs_groups s = gs_groups t" "gs_definition s = gs_definition t"
  shows "exportLayout s = exportLayout t"
  using assms by (simp add: exportLayout_def exportGraphLayout_def checkOwnLayout_def checkLayout_def resource_ids_def)

lemma transaction_exports:
  assumes "transaction fn s = (Inr v, s')" and "gs_depth s = 0"
  shows "\<exists>layout. exportLayout s' = Inr layout"
proof -
  obtain res u where fn: "fn (s\<lparr>gs_depth := Suc (gs_depth s)\<rparr>) = (res, u)" by fastforce
  have "exportLayout s' = exportLayout u \<and> (\<exists>layout. exportLayout u = Inr layout)"
  proof (cases "exportLayout u")
    case (Inl e)
    thus ?thesis using assms fn by (cases res) (auto simp: transaction_def Let_def)
  next
    case (Inr l)
    have c: "s' = commitTransaction (snapshotGraph s) (gs_layoutBefore s) (snapshotGraph (u\<lparr>gs_depth := gs_depth u - 1\<rparr>)) (u\<lparr>gs_depth := gs_depth u - 1\<rparr>)"
      using assms fn unfolding transaction_def Let_def by (auto split: sum.splits)
    have "exportLayout s' = exportLayout u" by (rule exportLayout_cong) (simp_all add: c commitTransaction_def Let_def)
    thus ?thesis using Inr by simp
  qed
  thus ?thesis by simp
qed

lemma undo_commit:
  assumes base: "base = (case pending of None \<Rightarrow> before | Some p \<Rightarrow> p)" and "gs_depth t = 0"
  shows "(entry_graph base = entry_graph after \<and> gs_undo (commitTransaction before pending after t) = gs_undo t
        \<and> gs_redo (commitTransaction before pending after t) = gs_redo t)
    \<or> (\<exists>u. undoGraph (commitTransaction before pending after t) = (Inr True, u) \<and> entry_graph (snapshotGraph u) = entry_graph base)"
  using assms(2) unfolding base by (auto simp: commitTransaction_def undoGraph_def restoreGraph_def snapshotGraph_def entry_graph_def Let_def)

text \<open>A transaction is atomic. It fails and gives back the editor it started with, history and pending
  gesture included, up to the counter of identities; or it ends with a graph whose layout can be
  exported, no pending gesture, and a history that is either untouched, when the graph is the one
  before, or one undo away from the graph before.\<close>

lemma transaction_atomic:
  assumes "\<And>x. editor_steps x (snd (fn x))" and "gs_depth s = 0"
  shows "(\<exists>e k. transaction fn s = (Inl e, s\<lparr>gs_sequence := k\<rparr>))
    \<or> (\<exists>v s'. transaction fn s = (Inr v, s') \<and> gs_layoutBefore s' = None \<and> (\<exists>layout. exportLayout s' = Inr layout)
        \<and> (entry_graph (history_base s) = entry_graph (snapshotGraph s') \<and> gs_undo s' = gs_undo s \<and> gs_redo s' = gs_redo s
           \<or> (\<exists>u. undoGraph s' = (Inr True, u) \<and> entry_graph (snapshotGraph u) = entry_graph (history_base s))))"
  using editor_step_law(2) [OF assms(1) [of "s\<lparr>gs_depth := Suc (gs_depth s)\<rparr>"]]
proof (cases rule: transaction_cases)
  case (rolled_back t e)
  have "(restoreGraph (snapshotGraph s) t)\<lparr>gs_undo := gs_undo s, gs_redo := gs_redo s, gs_layoutBefore := gs_layoutBefore s,
      gs_depth := gs_depth s\<rparr> = s\<lparr>gs_sequence := gs_sequence t\<rparr>"
    by (simp add: restoreGraph_def snapshotGraph_def)
  thus ?thesis using rolled_back(1) by metis
next
  case (nested t v)
  thus ?thesis using assms(2) by simp
next
  case (committed t v)
  let ?s' = "commitTransaction (snapshotGraph s) (gs_layoutBefore s) (snapshotGraph t) t"
  have "gs_undo t = gs_undo s" "gs_redo t = gs_redo s" using committed(4) by (simp_all add: stacks_def)
  moreover have "snapshotGraph ?s' = snapshotGraph t" "gs_layoutBefore ?s' = None"
    by (simp_all add: commitTransaction_def snapshotGraph_def Let_def)
  moreover note undo_commit [OF history_base_def [of s] committed(3), where after = "snapshotGraph t"]
  ultimately show ?thesis using committed(1) transaction_exports [OF committed(1,2)] by auto
qed

section \<open>Opening and saving\<close>






section \<open>Where the validator and the editor differ\<close>

definition routed_text :: "json list \<Rightarrow> json \<Rightarrow> json_text" where
  "routed_text edges route = Some (JObj [(''schemaVersion'', JNum (Finite 2)), (''id'', JStr ''draft''), (''name'', JStr ''Draft''),
     (''resources'', JObj []),
     (''graph'', JObj
        [(''nodes'', JArr
           [JObj [(''id'', JStr ''in''), (''kind'', JStr ''input''), (''outputs'', JObj [(''text'', JStr ''string'')])],
            JObj [(''id'', JStr ''out''), (''kind'', JStr ''output''), (''inputs'', JObj [(''text'', JStr ''string'')])]]),
         (''edges'', JArr edges)]),
     (''presentation'', JObj [(''nodes'', JObj []), (''edges'', JArr [route])])])"

text \<open>The validator accepts a control edge to \<open>out@z\<close> and a route for it; the editor refuses to open
  such a definition.\<close>

lemma branch_target_not_opened:
  "case decodeDefinition (routed_text [JObj [(''kind'', JStr ''control''), (''from'', JStr ''in''), (''to'', JStr ''out@z'')]]
       (JObj [(''kind'', JStr ''control''), (''from'', JStr ''in''), (''to'', JStr ''out@z''), (''points'', JArr [])])) of
     Inl _ \<Rightarrow> False
   | Inr d \<Rightarrow> validateDefinition d = Inr () \<and> \<not> routes_open d \<and> (case fromDefinition (\<lambda>_. None) (\<lambda>_. ''r'') 0 d of
       Inl e \<Rightarrow> e = PresentationInvalid | Inr _ \<Rightarrow> False)"
  by code_simp

text \<open>The validator accepts a data edge that is there twice, with one route for both. The editor opens the
  definition, gives both edges that route, and can no longer save it.\<close>

lemma doubled_edge_not_saved:
  "case decodeDefinition (routed_text
       [JObj [(''kind'', JStr ''data''), (''from'', JStr ''in.text''), (''to'', JStr ''out.text'')],
        JObj [(''kind'', JStr ''data''), (''from'', JStr ''in.text''), (''to'', JStr ''out.text'')]]
       (JObj [(''kind'', JStr ''data''), (''from'', JStr ''in.text''), (''to'', JStr ''out.text''), (''points'', JArr [])])) of
     Inl _ \<Rightarrow> False
   | Inr d \<Rightarrow> validateDefinition d = Inr () \<and> (case fromDefinition (\<lambda>_. None) (\<lambda>_. ''r'') 0 d of
       Inl _ \<Rightarrow> False
     | Inr s \<Rightarrow> exportDefinition s = Inl PresentationInvalid \<and> fst (renameDefinition ''New'' s) = Inl PresentationInvalid)"
  by code_simp

end
