(* ===== verification/Revisions.thy ===== *)
theory Revisions
  imports Domain Validator
begin

text \<open>
  The revision history of a Blueprint package: \<open>definition/document.ts\<close> and the history part of
  \<open>definition/persist.ts\<close>. The directory \<open>.revisions\<close> holds an index of metadata and one entry per
  revision. A layout-only revision stores no package files: it inherits them from its ancestors. Old
  revisions are pruned in batches.

  A file is absent, not JSON, JSON of another shape, or a typed value. Every write and removal consumes
  one fault of the state. The SHA-256 digests, base64 and the folding of names by the Unicode tables are
  the argument \<open>codec\<close>; the text under a digest is determined by the canonical JSON value. The storage
  directory has no symbolic links, and no key is a decimal integer, which JavaScript would enumerate before
  the others.
\<close>

section \<open>Documents and records\<close>

record document =
  do_blueprintId :: string
  do_definitionJson :: json_text
  do_documentRevision :: string
  do_semanticRevision :: string
  do_layoutRevision :: string

datatype revision_origin = OriginCanvas | OriginConversation | OriginImport | OriginRevert

record package_file =
  pf_digest :: string
  pf_base64 :: string

record revision_record =
  rv_revision :: string
  rv_parentRevision :: "string option"
  rv_createdAt :: js_number
  rv_origin :: revision_origin
  rv_message :: "string option"
  rv_document :: document
  rv_packageFiles :: "package_file dict option"

datatype 'a stored_file = Absent | NotJson | WrongShape | Stored 'a

record revision_store =
  rs_index :: "revision_record list stored_file"
  rs_entries :: "string \<Rightarrow> revision_record stored_file"
  rs_faults :: "write_fault list"

text \<open>Package contents are values of any type \<open>'b\<close>.\<close>

record 'b codec =
  co_encode :: "'b \<Rightarrow> string"
  co_decode :: "string \<Rightarrow> 'b"
  co_digest :: "'b \<Rightarrow> string"
  co_hash :: "string \<Rightarrow> json \<Rightarrow> string"
  co_fold :: "string \<Rightarrow> string"

datatype revision_error =
    IndexNotJson | IndexShape | EntryNotJson string | EntryShape string | DuplicateRevision string
  | RevisionMismatch string | UnsupportedDefinition string | InvalidPackageBytes string | ConflictingPaths
  | PackageBoundaryError | RevisionWriteFailed | CallStackExceeded

section \<open>Revisions of a document\<close>

definition canonicalJson_doc :: "json \<Rightarrow> json" where
  "canonicalJson_doc v = json_norm v"

definition semanticProjection :: "json \<Rightarrow> json" where
  "semanticProjection v = canonicalJson_doc (case v of JObj kvs \<Rightarrow> JObj (filter (\<lambda>kv. fst kv \<noteq> ''presentation'') kvs) | w \<Rightarrow> w)"

definition documentRevisions :: "'b codec \<Rightarrow> json \<Rightarrow> string dict \<Rightarrow> string \<times> string \<times> string" where
  "documentRevisions c v files =
     (let semantic = co_hash c ''xuanling-blueprint-document-semantic-v2'' (canonicalJson_doc
            (JObj [(''definition'', semanticProjection v), (''files'', JObj (map (\<lambda>(p, h). (p, JStr h)) files))]));
          layout = co_hash c ''xuanling-blueprint-document-layout-v2'' (canonicalJson_doc
            (if jfield ''presentation'' v = JUndefined then JNull else jfield ''presentation'' v));
          doc = co_hash c ''xuanling-blueprint-document-v2'' (canonicalJson_doc
            (JObj [(''definition'', v), (''semanticRevision'', JStr semantic)]))
      in (doc, semantic, layout))"

text \<open>The document of a definition, given as its JSON value, and package files.\<close>

definition documentValue :: "'b codec \<Rightarrow> json \<Rightarrow> 'b dict \<Rightarrow> document" where
  "documentValue c v bytes =
     (case documentRevisions c v (map (\<lambda>(p, b). (p, co_digest c b)) bytes) of (doc, semantic, layout) \<Rightarrow>
        \<lparr>do_blueprintId = (case jfield ''id'' v of JStr s \<Rightarrow> s | _ \<Rightarrow> []), do_definitionJson = Some (canonicalJson_doc v),
         do_documentRevision = doc, do_semanticRevision = semantic, do_layoutRevision = layout\<rparr>)"

definition hex64 :: "string \<Rightarrow> bool" where
  "hex64 s \<longleftrightarrow> length s = 64 \<and> list_all (\<lambda>ch. ch \<in> set ''0123456789abcdef'') s"

definition package_shape_ok :: "package_file dict \<Rightarrow> bool" where
  "package_shape_ok fs \<longleftrightarrow> list_all (\<lambda>(p, f). p \<noteq> [] \<and> hex64 (pf_digest f)) fs"

definition document_shape_ok :: "document \<Rightarrow> bool" where
  "document_shape_ok d \<longleftrightarrow> do_blueprintId d \<noteq> [] \<and> do_documentRevision d \<noteq> [] \<and> do_semanticRevision d \<noteq> [] \<and> do_layoutRevision d \<noteq> []"

definition revision_shape_ok :: "revision_record \<Rightarrow> bool" where
  "revision_shape_ok e \<longleftrightarrow> rv_revision e \<noteq> [] \<and> rv_parentRevision e \<noteq> Some [] \<and> js_is_finite (rv_createdAt e)
     \<and> document_shape_ok (rv_document e) \<and> pred_option package_shape_ok (rv_packageFiles e)"

section \<open>Package paths\<close>

definition isPackageReservedPath :: "'b codec \<Rightarrow> string \<Rightarrow> bool" where
  "isPackageReservedPath c path =
     (let first = rev (dropWhile (\<lambda>ch. ch = CHR ''.'' \<or> ch = CHR '' '') (rev (co_fold c (before_char CHR ''/'' path)))) in
      first \<in> set [''blueprint.json'', ''.revisions'', ''.candidates'', ''.library-state''] \<or> take 10 first = ''.blueprint'')"

definition validateClosurePath :: "'b codec \<Rightarrow> string \<Rightarrow> revision_error + unit" where
  "validateClosurePath c path =
     throw_if (path = [] \<or> CHR 0x5C \<in> set path \<or> take 1 path = ''/''
       \<or> list_ex (\<lambda>part. part \<in> set [[], ''.'', ''..'']) (split_on CHR ''/'' path) \<or> isPackageReservedPath c path)
       PackageBoundaryError (Inr ())"

text \<open>The directories a path lies in.\<close>

fun parent_paths :: "string list \<Rightarrow> string list" where
  "parent_paths [] = []"
| "parent_paths [p] = []"
| "parent_paths (p # q # ps) = p # map (\<lambda>s. p @ CHR ''/'' # s) (parent_paths (q # ps))"

fun validate_closure :: "'b codec \<Rightarrow> string list \<Rightarrow> string list \<Rightarrow> revision_error + unit" where
  "validate_closure c names [] = Inr ()"
| "validate_closure c names (path # paths) =
     ebind (validateClosurePath c path) (\<lambda>_.
     throw_if (list_ex (\<lambda>d. d \<in> set names) (parent_paths (split_on CHR ''/'' path))) ConflictingPaths
     (validate_closure c names paths))"

definition validateFileClosure :: "'b codec \<Rightarrow> string list \<Rightarrow> revision_error + unit" where
  "validateFileClosure c paths = validate_closure c paths paths"

section \<open>Entries\<close>

definition packageFilesValue :: "'b codec \<Rightarrow> 'b dict \<Rightarrow> package_file dict" where
  "packageFilesValue c files = map (\<lambda>(p, b). (p, \<lparr>pf_digest = co_digest c b, pf_base64 = co_encode c b\<rparr>)) (sort_key fst files)"

definition bytes_ok :: "'b codec \<Rightarrow> string \<times> package_file \<Rightarrow> bool" where
  "bytes_ok c pf \<longleftrightarrow> (case pf of (path, f) \<Rightarrow>
     let b = co_decode c (pf_base64 f) in
     validateClosurePath c path = Inr () \<and> co_encode c b = pf_base64 f \<and> co_digest c b = pf_digest f)"

definition validatePackageFiles :: "'b codec \<Rightarrow> revision_record \<Rightarrow> revision_error + unit" where
  "validatePackageFiles c e =
     (case rv_packageFiles e of
        None \<Rightarrow> Inr ()
      | Some fs \<Rightarrow>
          ebind (validateFileClosure c (map fst fs)) (\<lambda>_.
          throw_if (\<not> list_all (bytes_ok c) fs) (InvalidPackageBytes (rv_revision e)) (Inr ())))"

definition stripPackageFiles :: "revision_record \<Rightarrow> revision_record" where
  "stripPackageFiles e = e\<lparr>rv_packageFiles := None\<rparr>"

definition file_digests :: "package_file dict \<Rightarrow> string dict" where
  "file_digests fs = map (\<lambda>(p, f). (p, pf_digest f)) fs"

definition document_revisions_of :: "document \<Rightarrow> string \<times> string \<times> string" where
  "document_revisions_of d = (do_documentRevision d, do_semanticRevision d, do_layoutRevision d)"

definition validateRevisionEntry :: "'b codec \<Rightarrow> revision_record \<Rightarrow> bool \<Rightarrow> revision_error + unit" where
  "validateRevisionEntry c e packageBytes =
     throw_if (rv_revision e \<noteq> do_documentRevision (rv_document e)) (RevisionMismatch (rv_revision e))
     (throw_if (case decodeDefinition (do_definitionJson (rv_document e)) of
          Inl _ \<Rightarrow> True
        | Inr d \<Rightarrow> bd_id d \<noteq> do_blueprintId (rv_document e)
            \<or> (case rv_packageFiles e of None \<Rightarrow> False
               | Some fs \<Rightarrow> documentRevisions c (the (do_definitionJson (rv_document e))) (file_digests fs) \<noteq> document_revisions_of (rv_document e)))
        (UnsupportedDefinition (rv_revision e))
     (if packageBytes then validatePackageFiles c e else Inr ()))"

section \<open>Reading\<close>

definition readRevisionIndex :: "revision_store \<Rightarrow> revision_error + revision_record list" where
  "readRevisionIndex h =
     (case rs_index h of
        Absent \<Rightarrow> Inr []
      | NotJson \<Rightarrow> Inl IndexNotJson
      | WrongShape \<Rightarrow> Inl IndexShape
      | Stored es \<Rightarrow> throw_if (\<not> list_all revision_shape_ok es) IndexShape (Inr es))"

fun validate_entries :: "'b codec \<Rightarrow> string list \<Rightarrow> revision_record list \<Rightarrow> revision_error + unit" where
  "validate_entries c seen [] = Inr ()"
| "validate_entries c seen (e # es) =
     throw_if (rv_revision e \<in> set seen) (DuplicateRevision (rv_revision e))
     (ebind (validateRevisionEntry c e False) (\<lambda>_. validate_entries c (rv_revision e # seen) es))"

definition readRevisionHistory :: "'b codec \<Rightarrow> revision_store \<Rightarrow> revision_error + revision_record list" where
  "readRevisionHistory c h =
     ebind (readRevisionIndex h) (\<lambda>es. ebind (validate_entries c [] es) (\<lambda>_. Inr (map stripPackageFiles es)))"

definition loadRevisionEntry :: "revision_store \<Rightarrow> revision_record \<Rightarrow> revision_error + revision_record" where
  "loadRevisionEntry h listed =
     (case rs_entries h (rv_revision listed) of
        Absent \<Rightarrow> Inr listed
      | NotJson \<Rightarrow> Inl (EntryNotJson (rv_revision listed))
      | WrongShape \<Rightarrow> Inl (EntryShape (rv_revision listed))
      | Stored e \<Rightarrow> throw_if (\<not> revision_shape_ok e) (EntryShape (rv_revision listed)) (Inr e))"

text \<open>\<open>readRevision\<close> and \<open>inheritedPackageFiles\<close> call each other; each call takes one unit of fuel, and
  \<open>None\<close> is a call that has not returned. An inner \<open>None\<close> is \<open>undefined\<close>.\<close>

definition rbind :: "(revision_error + 'a) option \<Rightarrow> ('a \<Rightarrow> (revision_error + 'b) option) \<Rightarrow> (revision_error + 'b) option" where
  "rbind m f = (case m of None \<Rightarrow> None | Some (Inl e) \<Rightarrow> Some (Inl e) | Some (Inr a) \<Rightarrow> f a)"

definition with_files :: "revision_record \<Rightarrow> package_file dict option \<Rightarrow> revision_record" where
  "with_files e fs = (case fs of None \<Rightarrow> e | Some x \<Rightarrow> e\<lparr>rv_packageFiles := Some x\<rparr>)"

definition check_read :: "'b codec \<Rightarrow> revision_record \<Rightarrow> revision_error + revision_record option" where
  "check_read c e = (if rv_packageFiles e = None then Inr (Some e)
     else ebind (validateRevisionEntry c e True) (\<lambda>_. Inr (Some e)))"

fun readRevision :: "nat \<Rightarrow> 'b codec \<Rightarrow> revision_store \<Rightarrow> string \<Rightarrow> (revision_error + revision_record option) option"
and inheritedPackageFiles :: "nat \<Rightarrow> 'b codec \<Rightarrow> revision_store \<Rightarrow> revision_record \<Rightarrow> string list
      \<Rightarrow> (revision_error + package_file dict option) option" where
  "readRevision 0 c h r = None"
| "readRevision (Suc n) c h r =
     rbind (Some (readRevisionIndex h)) (\<lambda>es.
     case List.find (\<lambda>e. rv_revision e = r) es of
       None \<Rightarrow> Some (Inr None)
     | Some listed \<Rightarrow>
         rbind (Some (loadRevisionEntry h listed)) (\<lambda>e.
         rbind (Some (validateRevisionEntry c e False)) (\<lambda>_.
         if rv_packageFiles e = None
         then rbind (inheritedPackageFiles n c h e [r]) (\<lambda>fs. Some (check_read c (with_files e fs)))
         else Some (check_read c e))))"
| "inheritedPackageFiles 0 c h e seen = None"
| "inheritedPackageFiles (Suc n) c h e seen =
     (case rv_packageFiles e of Some fs \<Rightarrow> Some (Inr (Some fs))
      | None \<Rightarrow>
          (case rv_parentRevision e of None \<Rightarrow> Some (Inr None)
           | Some p \<Rightarrow>
               if p \<in> set seen then Some (Inr None)
               else rbind (readRevision n c h p) (\<lambda>found.
                 case found of None \<Rightarrow> Some (Inr None)
                 | Some parent \<Rightarrow>
                     if rv_packageFiles parent \<noteq> None
                       \<and> do_semanticRevision (rv_document parent) = do_semanticRevision (rv_document e)
                     then Some (Inr (rv_packageFiles parent))
                     else inheritedPackageFiles n c h parent (p # seen))))"

definition index_of :: "revision_store \<Rightarrow> revision_record list" where
  "index_of h = (case rs_index h of Stored es \<Rightarrow> es | _ \<Rightarrow> [])"

definition read_revision :: "'b codec \<Rightarrow> revision_store \<Rightarrow> string \<Rightarrow> revision_error + revision_record option" where
  "read_revision c h r = (case readRevision (2 * length (index_of h) + 1) c h r of None \<Rightarrow> Inl CallStackExceeded | Some x \<Rightarrow> x)"

section \<open>Writing\<close>

definition next_fault :: "revision_store \<Rightarrow> write_fault \<times> revision_store" where
  "next_fault h = (case rs_faults h of [] \<Rightarrow> (NoFault, h) | f # fs \<Rightarrow> (f, h\<lparr>rs_faults := fs\<rparr>))"

definition writeAtomicText :: "(revision_store \<Rightarrow> revision_store) \<Rightarrow> revision_store \<Rightarrow> (revision_error + unit) \<times> revision_store" where
  "writeAtomicText publish h =
     (case next_fault h of (f, h1) \<Rightarrow>
        case f of
          NoFault \<Rightarrow> (Inr (), publish h1)
        | FaultBefore \<Rightarrow> (Inl RevisionWriteFailed, h1)
        | FaultAfter \<Rightarrow> (Inl RevisionWriteFailed, publish h1))"

definition put_entry :: "string \<Rightarrow> revision_record \<Rightarrow> revision_store \<Rightarrow> revision_store" where
  "put_entry r e h = h\<lparr>rs_entries := (rs_entries h)(r := Stored e)\<rparr>"

definition put_index :: "revision_record list \<Rightarrow> revision_store \<Rightarrow> revision_store" where
  "put_index es h = h\<lparr>rs_index := Stored es\<rparr>"

text \<open>\<open>rmSync\<close> inside \<open>try\<close>.\<close>

definition remove_entry :: "string \<Rightarrow> revision_store \<Rightarrow> revision_store" where
  "remove_entry r h =
     (case next_fault h of (f, h1) \<Rightarrow> if f = FaultBefore then h1 else h1\<lparr>rs_entries := (rs_entries h1)(r := Absent)\<rparr>)"

definition RETAINED_REVISIONS :: nat where "RETAINED_REVISIONS = 100"

definition REVISION_PRUNE_SLACK :: nat where "REVISION_PRUNE_SLACK = 20"

text \<open>The walk from a retained entry to the files it inherits, and whether it meets a dropped entry. The
  source caches loaded entries; only \<open>materializeForPrune\<close> writes in between, and it updates the cache
  with what it writes.\<close>

function inherited_walk ::
  "(string \<Rightarrow> revision_error + revision_record) \<Rightarrow> string list \<Rightarrow> string list \<Rightarrow> string list \<Rightarrow> bool \<Rightarrow> string option
     \<Rightarrow> revision_error + (bool \<times> package_file dict option)" where
  "inherited_walk load listed dropped seen crosses None = Inr (crosses, None)"
| "inherited_walk load listed dropped seen crosses (Some r) =
     (if r \<notin> set listed \<or> r \<in> set seen then Inr (crosses, None)
      else case load r of
             Inl e \<Rightarrow> Inl e
           | Inr parent \<Rightarrow>
               let crosses' = (crosses \<or> r \<in> set dropped) in
               (case rv_packageFiles parent of
                  Some fs \<Rightarrow> Inr (crosses', Some fs)
                | None \<Rightarrow> inherited_walk load listed dropped (r # seen) crosses' (rv_parentRevision parent)))"
  by pat_completeness auto

termination
proof (relation "measure (\<lambda>(_, listed, _, seen, _, _). card (set listed - set seen))")
  fix listed seen :: "string list" and r load dropped crosses e parent x
  assume "\<not> (r \<notin> set listed \<or> r \<in> set seen)"
  hence "set listed - set (r # seen) \<subset> set listed - set seen" by auto
  thus "((load, listed, dropped, r # seen, x, rv_parentRevision parent), load, listed, dropped, seen, crosses, Some r)
      \<in> measure (\<lambda>(_, listed, _, seen, _, _). card (set listed - set seen))"
    by (simp add: psubset_card_mono)
qed simp

text \<open>\<open>listed.get(r)\<close> of the map built from the index; the last of equal keys counts.\<close>

definition load_listed :: "revision_store \<Rightarrow> revision_record list \<Rightarrow> string \<Rightarrow> revision_error + revision_record" where
  "load_listed h es r = loadRevisionEntry h (the (List.find (\<lambda>e. rv_revision e = r) (rev es)))"

fun materialize :: "'b codec \<Rightarrow> revision_record list \<Rightarrow> string list \<Rightarrow> revision_record list \<Rightarrow> revision_store
      \<Rightarrow> (revision_error + unit) \<times> revision_store" where
  "materialize c es dropped [] h = (Inr (), h)"
| "materialize c es dropped (item # items) h =
     (case load_listed h es (rv_revision item) of
        Inl e \<Rightarrow> (Inl e, h)
      | Inr own \<Rightarrow>
          if rv_packageFiles own \<noteq> None then materialize c es dropped items h
          else case inherited_walk (load_listed h es) (map rv_revision es) dropped [rv_revision item] False (rv_parentRevision own) of
                 Inl e \<Rightarrow> (Inl e, h)
               | Inr (crosses, inherited) \<Rightarrow>
                   if \<not> crosses \<or> inherited = None then materialize c es dropped items h
                   else let materialized = own\<lparr>rv_packageFiles := inherited\<rparr> in
                     case validateRevisionEntry c materialized True of
                       Inl e \<Rightarrow> (Inl e, h)
                     | Inr _ \<Rightarrow>
                         (case writeAtomicText (put_entry (rv_revision item) materialized) h of
                            (Inl e, h1) \<Rightarrow> (Inl e, h1)
                          | (Inr _, h1) \<Rightarrow> materialize c es dropped items h1))"

definition materializeForPrune ::
  "'b codec \<Rightarrow> revision_record list \<Rightarrow> nat \<Rightarrow> revision_store \<Rightarrow> (revision_error + revision_record list) \<times> revision_store" where
  "materializeForPrune c es drops h =
     (case materialize c es (map rv_revision (take drops es)) (drop drops es) h of
        (Inl e, h1) \<Rightarrow> (Inl e, h1)
      | (Inr _, h1) \<Rightarrow> (Inr (drop drops es), h1))"

definition remove_unlisted :: "string list \<Rightarrow> revision_record list \<Rightarrow> revision_store \<Rightarrow> revision_store" where
  "remove_unlisted keptIds items h =
     fold (\<lambda>item h. if rv_revision item \<in> set keptIds then h else remove_entry (rv_revision item) h) items h"

record 'b append_options =
  ao_parentRevision :: "string option"
  ao_origin :: revision_origin
  ao_message :: "string option"
  ao_packageFiles :: "'b dict option"

definition new_entry :: "'b codec \<Rightarrow> js_number \<Rightarrow> document \<Rightarrow> 'b append_options \<Rightarrow> revision_record" where
  "new_entry c now doc opts =
     \<lparr>rv_revision = do_documentRevision doc, rv_parentRevision = ao_parentRevision opts, rv_createdAt = now,
      rv_origin = ao_origin opts, rv_message = ao_message opts, rv_document = doc,
      rv_packageFiles = map_option (packageFilesValue c) (ao_packageFiles opts)\<rparr>"

definition prune :: "'b codec \<Rightarrow> revision_record list \<Rightarrow> revision_store \<Rightarrow> revision_record list option \<times> revision_store" where
  "prune c next h =
     (if RETAINED_REVISIONS + REVISION_PRUNE_SLACK < length next
      then case materializeForPrune c next (length next - RETAINED_REVISIONS) h of
             (Inl _, h1) \<Rightarrow> (None, h1)
           | (Inr kept, h1) \<Rightarrow> (Some kept, h1)
      else (None, h))"

definition appendRevisionHistory ::
  "'b codec \<Rightarrow> js_number \<Rightarrow> document \<Rightarrow> 'b append_options \<Rightarrow> revision_store \<Rightarrow> (revision_error + revision_record) \<times> revision_store" where
  "appendRevisionHistory c now doc opts h =
     (case readRevisionIndex h of
        Inl e \<Rightarrow> (Inl e, h)
      | Inr entries \<Rightarrow>
          (case List.find (\<lambda>e. rv_revision e = do_documentRevision doc) entries of
             Some existing \<Rightarrow>
               (ebind (read_revision c h (rv_revision existing)) (\<lambda>found.
                  Inr (case found of None \<Rightarrow> existing | Some e \<Rightarrow> e)), h)
           | None \<Rightarrow>
               let entry = new_entry c now doc opts; next = entries @ [entry] in
               (case writeAtomicText (put_entry (do_documentRevision doc) entry) h of
                  (Inl e, h1) \<Rightarrow> (Inl e, h1)
                | (Inr _, h1) \<Rightarrow>
                    (case prune c next h1 of (pruned, h2) \<Rightarrow>
                       let kept = (case pruned of None \<Rightarrow> next | Some es \<Rightarrow> es) in
                       (case writeAtomicText (put_index (map stripPackageFiles kept)) h2 of
                          (Inl e, h3) \<Rightarrow> (Inl e, h3)
                        | (Inr _, h3) \<Rightarrow>
                            (Inr entry, remove_unlisted (map rv_revision kept) next h3))))))"

end
