(* ===== verification/RevisionFacts.thy ===== *)
theory RevisionFacts
  imports Revisions
begin

text \<open>
  A revision without package files of its own inherits them along a chain of parents. Chains are paths
  through the stored entries; they are unique and do not repeat, so reading ends. Appending, pruning and
  the failures of single writes keep what every listed revision reads as.
\<close>

section \<open>Chains of parents\<close>

primrec chain :: "(string \<Rightarrow> revision_record stored_file) \<Rightarrow> string set \<Rightarrow> string \<Rightarrow> string list \<Rightarrow> package_file dict \<Rightarrow> bool" where
  "chain ents ids r [] fs \<longleftrightarrow> r \<in> ids \<and> (\<exists>e. ents r = Stored e \<and> rv_packageFiles e = Some fs)"
| "chain ents ids r (p # ps) fs \<longleftrightarrow> r \<in> ids
     \<and> (\<exists>e. ents r = Stored e \<and> rv_packageFiles e = None \<and> rv_parentRevision e = Some p) \<and> chain ents ids p ps fs"

lemma chain_unique: "chain ents ids r ps fs \<Longrightarrow> chain ents ids' r qs gs \<Longrightarrow> ps = qs \<and> fs = gs"
proof (induction ps arbitrary: r qs)
  case Nil
  thus ?case by (cases qs) auto
next
  case (Cons p ps)
  then obtain q qs' where "qs = q # qs'" "q = p" by (cases qs) auto
  thus ?case using Cons by auto
qed

lemma chain_ids: "chain ents ids r ps fs \<Longrightarrow> set (r # ps) \<subseteq> ids"
  by (induction ps arbitrary: r) auto

lemma chain_suffix: "chain ents ids r ps fs \<Longrightarrow> x \<in> set ps \<Longrightarrow> \<exists>qs. chain ents ids x qs fs \<and> length qs < length ps"
proof (induction ps arbitrary: r)
  case (Cons p ps)
  show ?case
  proof (cases "x = p")
    case True
    thus ?thesis using Cons.prems(1) by auto
  next
    case False
    hence "x \<in> set ps" "chain ents ids p ps fs" using Cons.prems by auto
    hence "\<exists>qs. chain ents ids x qs fs \<and> length qs < length ps" by (intro Cons.IH)
    thus ?thesis by auto
  qed
qed simp

lemma chain_distinct: "chain ents ids r ps fs \<Longrightarrow> distinct (r # ps)"
proof (induction ps arbitrary: r)
  case (Cons p ps)
  have "r \<notin> set (p # ps)"
  proof
    assume "r \<in> set (p # ps)"
    then obtain qs where "chain ents ids r qs fs" "length qs < length (p # ps)" using chain_suffix [OF Cons.prems] by blast
    thus False using chain_unique [OF Cons.prems] by blast
  qed
  moreover have "distinct (p # ps)" using Cons.IH [of p] Cons.prems by simp
  ultimately show ?case by simp
qed simp

lemma chain_length: "chain ents (set ids) r ps fs \<Longrightarrow> length ps < length ids"
proof -
  assume ch: "chain ents (set ids) r ps fs"
  have "length (r # ps) = card (set (r # ps))" using chain_distinct [OF ch] by (simp add: distinct_card)
  also have "\<dots> \<le> card (set ids)" using chain_ids [OF ch] by (intro card_mono) simp_all
  finally show ?thesis using card_length [of ids] by simp
qed

lemma chain_cong:
  "chain ents ids r ps fs \<Longrightarrow> (\<And>x. x \<in> set (r # ps) \<Longrightarrow> ents' x = ents x \<and> x \<in> ids') \<Longrightarrow> chain ents' ids' r ps fs"
  by (induction ps arbitrary: r) auto

text \<open>An entry that gets the files it inherits changes nothing for the others.\<close>

lemma chain_materialize:
  assumes "chain ents ids s ps fs" and "rv_packageFiles f = Some fs"
  shows "chain ents ids' r qs gs \<Longrightarrow> \<exists>qs'. chain (ents(s := Stored f)) ids' r qs' gs"
proof (induction qs arbitrary: r)
  case Nil
  thus ?case using assms chain_unique [OF assms(1), of ids' "[]" gs] by (cases "r = s") (auto intro!: exI [of _ "[]"])
next
  case (Cons p qs)
  show ?case
  proof (cases "r = s")
    case True
    have "fs = gs" using chain_unique [OF assms(1) Cons.prems [unfolded True]] by simp
    moreover have "r \<in> ids'" using Cons.prems by simp
    ultimately have "fs = gs" "r \<in> ids'" .
    thus ?thesis using True assms(2) by (intro exI [of _ "[]"]) simp
  next
    case False
    have "chain ents ids' p qs gs" using Cons.prems by simp
    then obtain qs' where "chain (ents(s := Stored f)) ids' p qs' gs" using Cons.IH by blast
    moreover have "(ents(s := Stored f)) r = ents r" using False by simp
    ultimately have "chain (ents(s := Stored f)) ids' r (p # qs') gs" using Cons.prems unfolding chain.simps by metis
    thus ?thesis by blast
  qed
qed

section \<open>Sound histories\<close>

text \<open>What a revision reads as: its entry with the files at the end of its chain.\<close>

definition reads :: "(string \<Rightarrow> revision_record stored_file) \<Rightarrow> string set \<Rightarrow> string \<Rightarrow> revision_record \<Rightarrow> bool" where
  "reads ents ids r g \<longleftrightarrow> (\<exists>f ps fs. ents r = Stored f \<and> chain ents ids r ps fs \<and> g = f\<lparr>rv_packageFiles := Some fs\<rparr>)"

definition readable :: "'b codec \<Rightarrow> string \<Rightarrow> revision_record \<Rightarrow> bool" where
  "readable c r g \<longleftrightarrow> rv_revision g = r \<and> revision_shape_ok g \<and> validateRevisionEntry c g True = Inr ()"

definition entries_ok :: "'b codec \<Rightarrow> (string \<Rightarrow> revision_record stored_file) \<Rightarrow> string set \<Rightarrow> bool" where
  "entries_ok c ents ids \<longleftrightarrow> (\<forall>r\<in>ids. \<exists>g. reads ents ids r g \<and> readable c r g)"

definition history_ok :: "'b codec \<Rightarrow> revision_store \<Rightarrow> bool" where
  "history_ok c h \<longleftrightarrow> rs_index h \<in> {Absent, Stored (index_of h)} \<and> distinct (map rv_revision (index_of h))
     \<and> entries_ok c (rs_entries h) (rv_revision ` set (index_of h))
     \<and> (\<forall>e\<in>set (index_of h). \<exists>f. rs_entries h (rv_revision e) = Stored f \<and> e = stripPackageFiles f)"

lemma reads_unique: "reads ents ids r g \<Longrightarrow> reads ents ids' r g' \<Longrightarrow> g = g'"
  unfolding reads_def using chain_unique by fastforce

lemma strip_fields [simp]:
  "rv_revision (stripPackageFiles e) = rv_revision e" "rv_packageFiles (stripPackageFiles e) = None"
  "stripPackageFiles (e\<lparr>rv_packageFiles := x\<rparr>) = stripPackageFiles e" "stripPackageFiles (stripPackageFiles e) = stripPackageFiles e"
  by (simp_all add: stripPackageFiles_def)

lemma readable_parts:
  assumes "readable c r (f\<lparr>rv_packageFiles := Some fs\<rparr>)" and "rv_packageFiles f \<in> {None, Some fs}"
  shows "rv_revision f = r" "revision_shape_ok f" "validateRevisionEntry c f False = Inr ()" "revision_shape_ok (stripPackageFiles f)"
  using assms by (auto simp: readable_def revision_shape_ok_def validateRevisionEntry_def stripPackageFiles_def split: sum.splits)

lemma chain_own: "chain ents ids r ps fs \<Longrightarrow> ents r = Stored f \<Longrightarrow> rv_packageFiles f \<in> {None, Some fs}"
  by (cases ps) auto

section \<open>Reading ends\<close>

lemma index_shape:
  assumes "history_ok c h"
  shows "readRevisionIndex h = Inr (index_of h)"
proof -
  have "revision_shape_ok e" if e: "e \<in> set (index_of h)" for e
  proof -
    obtain f where f: "rs_entries h (rv_revision e) = Stored f" "e = stripPackageFiles f" using assms e by (auto simp: history_ok_def)
    obtain g where "reads (rs_entries h) (rv_revision ` set (index_of h)) (rv_revision e) g" "readable c (rv_revision e) g"
      using assms e by (auto simp: history_ok_def entries_ok_def)
    then obtain ps fs where ch: "chain (rs_entries h) (rv_revision ` set (index_of h)) (rv_revision e) ps fs"
      and g: "readable c (rv_revision e) (f\<lparr>rv_packageFiles := Some fs\<rparr>)" using f(1) by (auto simp: reads_def)
    have "rv_packageFiles f \<in> {None, Some fs}" using ch f(1) by (rule chain_own)
    with g have "revision_shape_ok (stripPackageFiles f)" by (rule readable_parts(4))
    thus ?thesis using f(2) by simp
  qed
  thus ?thesis using assms by (auto simp: history_ok_def readRevisionIndex_def index_of_def throw_if_def list_all_iff split: stored_file.splits)
qed

lemma find_listed:
  assumes "distinct (map rv_revision es)" and "e \<in> set es"
  shows "List.find (\<lambda>x. rv_revision x = rv_revision e) es = Some e"
  using assms by (induction es) (auto simp: image_iff)

lemma find_unlisted: "r \<notin> rv_revision ` set es \<Longrightarrow> List.find (\<lambda>x. rv_revision x = r) es = None"
  by (induction es) auto

lemma load_entry:
  assumes "rs_entries h (rv_revision e) = Stored f" and "revision_shape_ok f"
  shows "loadRevisionEntry h e = Inr f"
  using assms by (simp add: loadRevisionEntry_def throw_if_def)

lemma listed_entry:
  assumes ok: "history_ok c h" and ch: "chain (rs_entries h) (rv_revision ` set (index_of h)) r ps fs" and f: "rs_entries h r = Stored f"
  shows "readable c r (f\<lparr>rv_packageFiles := Some fs\<rparr>)"
    "readRevision (Suc m) c h r = (if rv_packageFiles f = None
       then rbind (inheritedPackageFiles m c h f [r]) (\<lambda>fs. Some (check_read c (with_files f fs))) else Some (check_read c f))"
proof -
  have "r \<in> rv_revision ` set (index_of h)" using chain_ids [OF ch] by simp
  then obtain e where e: "e \<in> set (index_of h)" "r = rv_revision e" by auto
  then obtain g where "reads (rs_entries h) (rv_revision ` set (index_of h)) r g" "readable c r g"
    using ok by (auto simp: history_ok_def entries_ok_def)
  thus g: "readable c r (f\<lparr>rv_packageFiles := Some fs\<rparr>)"
    using f chain_unique [OF ch] by (auto simp: reads_def)
  note parts = readable_parts [OF g chain_own [OF ch f]]
  have find: "List.find (\<lambda>x. rv_revision x = r) (index_of h) = Some e"
    using ok e by (simp add: find_listed history_ok_def)
  have load: "loadRevisionEntry h e = Inr f" using f e(2) parts(2) by (simp add: load_entry)
  show "readRevision (Suc m) c h r = (if rv_packageFiles f = None
       then rbind (inheritedPackageFiles m c h f [r]) (\<lambda>fs. Some (check_read c (with_files f fs))) else Some (check_read c f))"
    by (simp add: rbind_def index_shape [OF ok] find load parts(3))
qed

lemma check_readable: "readable c r g \<Longrightarrow> check_read c g = Inr (Some g)"
  by (simp add: check_read_def readable_def)

lemma same_files: "rv_packageFiles f = Some fs \<Longrightarrow> f\<lparr>rv_packageFiles := Some fs\<rparr> = f"
  by (cases f) simp

lemma readRevision_chain:
  assumes ok: "history_ok c h" and "chain (rs_entries h) (rv_revision ` set (index_of h)) r ps fs"
    and "rs_entries h r = Stored f" and "2 * length ps < n"
  shows "readRevision n c h r = Some (Inr (Some (f\<lparr>rv_packageFiles := Some fs\<rparr>)))"
  using assms(2-)
proof (induction ps arbitrary: r f n)
  case Nil
  then obtain m where m: "n = Suc m" by (cases n) auto
  have own: "rv_packageFiles f = Some fs" using Nil by auto
  show ?case unfolding m listed_entry(2) [OF ok Nil(1,2)]
    using own check_readable [OF listed_entry(1) [OF ok Nil(1,2)]] by (simp add: same_files)
next
  case (Cons p ps)
  then obtain m where m: "n = Suc (Suc m)" "2 * length ps < m" "0 < m" by (cases n; cases "n - 1") auto
  have f: "rv_packageFiles f = None" "rv_parentRevision f = Some p" and ch: "chain (rs_entries h) (rv_revision ` set (index_of h)) p ps fs"
    using Cons.prems by auto
  obtain g where g: "rs_entries h p = Stored g" using ch by (cases ps) auto
  have parent: "readRevision m c h p = Some (Inr (Some (g\<lparr>rv_packageFiles := Some fs\<rparr>)))" by (rule Cons.IH [OF ch g m(2)])
  have "inheritedPackageFiles m c h (g\<lparr>rv_packageFiles := Some fs\<rparr>) seen = Some (Inr (Some fs))" for seen
    using m(3) by (cases m) simp_all
  moreover have "p \<noteq> r" using chain_distinct [OF Cons.prems(1)] by auto
  ultimately have "inheritedPackageFiles (Suc m) c h f [r] = Some (Inr (Some fs))" using f parent by (simp add: rbind_def)
  thus ?case unfolding m(1) listed_entry(2) [OF ok Cons.prems(1,2)]
    using f(1) check_readable [OF listed_entry(1) [OF ok Cons.prems(1,2)]] by (simp add: rbind_def with_files_def)
qed

text \<open>Every listed revision of a sound history is read, with the files at the end of its chain.\<close>

lemma read_revision_reads:
  assumes ok: "history_ok c h" and "reads (rs_entries h) (rv_revision ` set (index_of h)) r g"
  shows "read_revision c h r = Inr (Some g)"
proof -
  obtain f ps fs where f: "rs_entries h r = Stored f" "chain (rs_entries h) (rv_revision ` set (index_of h)) r ps fs"
    "g = f\<lparr>rv_packageFiles := Some fs\<rparr>" using assms(2) by (auto simp: reads_def)
  have "length ps < length (index_of h)" using chain_length [of "rs_entries h" "map rv_revision (index_of h)"] f(2) by simp
  hence "readRevision (2 * length (index_of h) + 1) c h r = Some (Inr (Some g))"
    unfolding f(3) by (intro readRevision_chain [OF ok f(2,1)]) simp
  thus ?thesis by (simp only: read_revision_def option.case)
qed

lemma read_revision_unlisted:
  assumes ok: "history_ok c h" and "r \<notin> rv_revision ` set (index_of h)"
  shows "read_revision c h r = Inr None"
  using index_shape [OF ok] find_unlisted [OF assms(2)] by (simp add: read_revision_def rbind_def)

lemma history_reads:
  assumes "history_ok c h" and "r \<in> rv_revision ` set (index_of h)"
  obtains g where "reads (rs_entries h) (rv_revision ` set (index_of h)) r g" "readable c r g" "read_revision c h r = Inr (Some g)"
  using assms read_revision_reads [OF assms(1)] unfolding history_ok_def entries_ok_def by blast

section \<open>Writes\<close>

lemma next_fault_same: "next_fault h = (f, h1) \<Longrightarrow> rs_entries h1 = rs_entries h \<and> rs_index h1 = rs_index h"
  by (auto simp: next_fault_def split: list.splits)

lemma writeAtomicText_cases:
  obtains h1 where "rs_entries h1 = rs_entries h" "rs_index h1 = rs_index h"
    "writeAtomicText w h \<in> {(Inr (), w h1), (Inl RevisionWriteFailed, h1), (Inl RevisionWriteFailed, w h1)}"
proof -
  obtain f h1 where nf: "next_fault h = (f, h1)" by fastforce
  show thesis
    using that [of h1] next_fault_same [OF nf] by (cases f) (auto simp: writeAtomicText_def nf)
qed

text \<open>The same revisions with what they read as.\<close>

definition keeps_reads :: "(string \<Rightarrow> revision_record stored_file) \<Rightarrow> (string \<Rightarrow> revision_record stored_file) \<Rightarrow> bool" where
  "keeps_reads ents ents' \<longleftrightarrow> (\<forall>K r g. reads ents K r g \<longrightarrow> reads ents' K r g)"

lemma keeps_readsD: "keeps_reads ents ents' \<Longrightarrow> reads ents K r g \<Longrightarrow> reads ents' K r g"
  by (simp add: keeps_reads_def)

lemma keeps_reads_trans: "keeps_reads ents ents' \<Longrightarrow> keeps_reads ents' ents'' \<Longrightarrow> keeps_reads ents ents''"
  by (simp add: keeps_reads_def)

lemma keeps_reads_ok: "keeps_reads ents ents' \<Longrightarrow> entries_ok c ents ids \<Longrightarrow> entries_ok c ents' ids"
  unfolding keeps_reads_def entries_ok_def by meson

lemma reads_cong:
  assumes "reads ents ids r g" and "\<And>x. x \<in> ids \<Longrightarrow> ents' x = ents x" and "ids \<subseteq> ids'"
  shows "reads ents' ids' r g"
proof -
  obtain f ps fs where f: "ents r = Stored f" "chain ents ids r ps fs" "g = f\<lparr>rv_packageFiles := Some fs\<rparr>"
    using assms(1) by (auto simp: reads_def)
  have sub: "set (r # ps) \<subseteq> ids" by (rule chain_ids [OF f(2)])
  have "chain ents' ids' r ps fs" by (rule chain_cong [OF f(2)]) (use sub assms(2,3) in auto)
  moreover have "ents' r = Stored f" using sub assms(2) f(1) by simp
  ultimately show ?thesis using f(3) unfolding reads_def by blast
qed

lemma reads_materialize:
  assumes "chain ents ids s ps fs" and "ents s = Stored f" and "reads ents ids' r g"
  shows "reads (ents(s := Stored (f\<lparr>rv_packageFiles := Some fs\<rparr>))) ids' r g"
proof -
  let ?f = "f\<lparr>rv_packageFiles := Some fs\<rparr>"
  obtain e qs gs where e: "ents r = Stored e" "chain ents ids' r qs gs" "g = e\<lparr>rv_packageFiles := Some gs\<rparr>"
    using assms(3) by (auto simp: reads_def)
  obtain qs' where "chain (ents(s := Stored ?f)) ids' r qs' gs" using chain_materialize [OF assms(1) _ e(2), of ?f] by auto
  moreover have "\<exists>e'. (ents(s := Stored ?f)) r = Stored e' \<and> g = e'\<lparr>rv_packageFiles := Some gs\<rparr>"
    using e assms(2) chain_unique [OF assms(1)] by (cases "r = s") auto
  ultimately show ?thesis unfolding reads_def by blast
qed

section \<open>Pruning\<close>

lemma walk_chain:
  assumes "\<And>x f. x \<in> set listed \<Longrightarrow> ents x = Stored f \<Longrightarrow> load x = Inr f"
  shows "chain ents (set listed) p ps fs \<Longrightarrow> set (p # ps) \<inter> set seen = {}
    \<Longrightarrow> inherited_walk load listed dropped seen b (Some p) = Inr (b \<or> (\<exists>x\<in>set (p # ps). x \<in> set dropped), Some fs)"
proof (induction ps arbitrary: p seen b)
  case Nil
  then obtain f where "ents p = Stored f" "p \<in> set listed" "rv_packageFiles f = Some fs" by auto
  thus ?case using Nil.prems(2) assms by simp
next
  case (Cons q ps)
  then obtain f where f: "ents p = Stored f" "p \<in> set listed" "rv_packageFiles f = None" "rv_parentRevision f = Some q"
    and ch: "chain ents (set listed) q ps fs" by auto
  have "p \<notin> set (q # ps)" using chain_distinct [OF Cons.prems(1)] by simp
  hence "set (q # ps) \<inter> set (p # seen) = {}" using Cons.prems(2) by auto
  from Cons.IH [OF ch this, of "b \<or> p \<in> set dropped"] show ?case
    using f Cons.prems(2) assms by auto
qed

lemma find_last_listed:
  assumes "distinct (map rv_revision es)" and "e \<in> set es"
  shows "List.find (\<lambda>x. rv_revision x = rv_revision e) (rev es) = Some e"
  using assms by (intro find_listed) (simp_all add: rev_map [symmetric])

lemma load_listed_entry:
  assumes "distinct (map rv_revision es)" and "r \<in> rv_revision ` set es" and "rs_entries h r = Stored f" and "revision_shape_ok f"
  shows "load_listed h es r = Inr f"
proof -
  obtain e where e: "e \<in> set es" "r = rv_revision e" using assms(2) by auto
  thus ?thesis using assms(3,4) find_last_listed [OF assms(1) e(1)] by (simp add: load_listed_def load_entry)
qed

lemma entry_shape:
  assumes "entries_ok c ents ids" and "r \<in> ids" and "ents r = Stored f"
  shows "revision_shape_ok f"
proof -
  obtain g where "reads ents ids r g" "readable c r g" using assms by (auto simp: entries_ok_def)
  then obtain ps fs where ch: "chain ents ids r ps fs" and g: "readable c r (f\<lparr>rv_packageFiles := Some fs\<rparr>)"
    using assms(3) by (auto simp: reads_def)
  have "rv_packageFiles f \<in> {None, Some fs}" using ch assms(3) by (rule chain_own)
  with g show ?thesis by (rule readable_parts(2))
qed

text \<open>What materializing sees of an entry.\<close>

lemma materialize_view:
  assumes "distinct (map rv_revision es)" and "entries_ok c (rs_entries h) (rv_revision ` set es)" and r: "r \<in> rv_revision ` set es"
  obtains f ps fs where "rs_entries h r = Stored f" "chain (rs_entries h) (rv_revision ` set es) r ps fs" "load_listed h es r = Inr f"
    "validateRevisionEntry c (f\<lparr>rv_packageFiles := Some fs\<rparr>) True = Inr ()"
    "rv_packageFiles f = None \<longrightarrow> inherited_walk (load_listed h es) (map rv_revision es) dropped [r] False (rv_parentRevision f)
       = Inr (\<exists>x\<in>set ps. x \<in> set dropped, Some fs)"
proof -
  let ?ids = "rv_revision ` set es"
  obtain g where g: "reads (rs_entries h) ?ids r g" "readable c r g" using assms(2) r by (auto simp: entries_ok_def)
  then obtain f ps fs where f: "rs_entries h r = Stored f" and ch: "chain (rs_entries h) ?ids r ps fs"
    and gf: "g = f\<lparr>rv_packageFiles := Some fs\<rparr>" by (auto simp: reads_def)
  have load: "load_listed h es x = Inr e" if "x \<in> ?ids" "rs_entries h x = Stored e" for x e
    using load_listed_entry [OF assms(1) that] entry_shape [OF assms(2) that] by simp
  have "inherited_walk (load_listed h es) (map rv_revision es) dropped [r] False (rv_parentRevision f)
       = Inr (\<exists>x\<in>set ps. x \<in> set dropped, Some fs)" if none: "rv_packageFiles f = None"
  proof -
    obtain p qs where Cons: "ps = p # qs" using ch f none by (cases ps) auto
    have parent: "rv_parentRevision f = Some p" and chp: "chain (rs_entries h) ?ids p qs fs" using ch f by (auto simp: Cons)
    have "r \<notin> set (p # qs)" using chain_distinct [OF ch] by (simp add: Cons)
    thus ?thesis
      using walk_chain [of "map rv_revision es" "rs_entries h" "load_listed h es" p qs fs "[r]"] load chp parent Cons by auto
  qed
  thus thesis using that f ch load [OF r f] g(2) gf by (simp add: readable_def)
qed

lemma write_no_fault: "rs_faults h = [] \<Longrightarrow> writeAtomicText w h = (Inr (), w h)"
  by (simp add: writeAtomicText_def next_fault_def)

lemma materialize_no_fault:
  assumes "distinct (map rv_revision es)"
  shows "entries_ok c (rs_entries h) (rv_revision ` set es) \<Longrightarrow> rv_revision ` set items \<subseteq> rv_revision ` set es \<Longrightarrow> rs_faults h = []
    \<Longrightarrow> \<exists>h'. materialize c es dropped items h = (Inr (), h') \<and> rs_faults h' = []"
proof (induction items arbitrary: h)
  case (Cons item items)
  let ?r = "rv_revision item"
  have r: "?r \<in> rv_revision ` set es" using Cons.prems(2) by simp
  obtain f ps fs where v: "rs_entries h ?r = Stored f" "chain (rs_entries h) (rv_revision ` set es) ?r ps fs" "load_listed h es ?r = Inr f"
    "validateRevisionEntry c (f\<lparr>rv_packageFiles := Some fs\<rparr>) True = Inr ()"
    "rv_packageFiles f = None \<longrightarrow> inherited_walk (load_listed h es) (map rv_revision es) dropped [?r] False (rv_parentRevision f)
       = Inr (\<exists>x\<in>set ps. x \<in> set dropped, Some fs)" by (rule materialize_view [OF assms Cons.prems(1) r, where dropped = dropped]) (rule that; assumption)
  let ?h = "put_entry ?r (f\<lparr>rv_packageFiles := Some fs\<rparr>) h"
  have "keeps_reads (rs_entries h) (rs_entries ?h)"
    using reads_materialize [OF v(2,1)] by (simp add: keeps_reads_def put_entry_def)
  hence "entries_ok c (rs_entries ?h) (rv_revision ` set es)" "rs_faults ?h = []"
    using keeps_reads_ok Cons.prems by (auto simp: put_entry_def)
  hence "\<exists>h'. materialize c es dropped items ?h = (Inr (), h') \<and> rs_faults h' = []" using Cons.IH Cons.prems(2) by simp
  moreover have "\<exists>h'. materialize c es dropped items h = (Inr (), h') \<and> rs_faults h' = []" using Cons by simp
  ultimately show ?case
    using v(3-5) Cons.prems(3) by (cases "rv_packageFiles f") (auto simp: Let_def write_no_fault)
qed simp

text \<open>Whether it ends or fails, materializing keeps what every revision reads as; when it ends, the
  retained revisions no longer need the dropped ones.\<close>

lemma materialize_keeps:
  assumes "distinct (map rv_revision es)" and "entries_ok c (rs_entries h) (rv_revision ` set es)"
    and "rv_revision ` set items \<subseteq> kept" and "kept = rv_revision ` set es - set dropped"
    and "materialize c es dropped items h = (res, h')"
  shows "keeps_reads (rs_entries h) (rs_entries h') \<and> rs_index h' = rs_index h
    \<and> (\<forall>r. rs_entries h' r = rs_entries h r \<or> (\<exists>f x. rs_entries h r = Stored f \<and> rs_entries h' r = Stored (f\<lparr>rv_packageFiles := x\<rparr>)))
    \<and> (res = Inr () \<longrightarrow> (\<forall>r\<in>rv_revision ` set items. \<exists>g. reads (rs_entries h') kept r g))"
  using assms(2,3,5)
proof (induction items arbitrary: h)
  case Nil
  thus ?case by (simp add: keeps_reads_def)
next
  case (Cons item items)
  let ?ids = "rv_revision ` set es" and ?r = "rv_revision item"
  have r: "?r \<in> ?ids" "?r \<notin> set dropped" "?r \<in> kept" using Cons.prems(2) assms(4) by auto
  obtain f ps fs where f: "rs_entries h ?r = Stored f" and ch: "chain (rs_entries h) ?ids ?r ps fs"
    and own: "load_listed h es ?r = Inr f" and valid: "validateRevisionEntry c (f\<lparr>rv_packageFiles := Some fs\<rparr>) True = Inr ()"
    and walk: "rv_packageFiles f = None \<longrightarrow> inherited_walk (load_listed h es) (map rv_revision es) dropped [?r] False (rv_parentRevision f)
       = Inr (\<exists>x\<in>set ps. x \<in> set dropped, Some fs)" by (rule materialize_view [OF assms(1) Cons.prems(1) r(1), where dropped = dropped]) (rule that; assumption)
  have rest: ?case if rest: "materialize c es dropped items h = (res, h')" and here: "\<exists>g. reads (rs_entries h) kept ?r g"
  proof -
    have "rv_revision ` set items \<subseteq> kept" using Cons.prems(2) by simp
    note ih = Cons.IH [OF Cons.prems(1) this rest]
    have "\<exists>g. reads (rs_entries h') kept ?r g" using here keeps_readsD [OF conjunct1 [OF ih]] by blast
    thus ?case using ih by simp
  qed
  show ?case
  proof (cases ps)
    case Nil
    hence "rv_packageFiles f = Some fs" using ch f by auto
    moreover from this have "reads (rs_entries h) kept ?r f"
      using f r(3) unfolding reads_def by (intro exI [of _ f] exI [of _ "[]"] exI [of _ fs]) (simp add: same_files)
    ultimately show ?thesis using Cons.prems(3) own rest by auto
  next
    case (Cons p qs)
    have none: "rv_packageFiles f = None" using ch f by (auto simp: Cons)
    note walk = walk [rule_format, OF none]
    show ?thesis
    proof (cases "\<exists>x\<in>set ps. x \<in> set dropped")
      case False
      have "chain (rs_entries h) kept ?r ps fs"
        by (rule chain_cong [OF ch]) (use chain_ids [OF ch] False r(2) assms(4) in auto)
      hence "\<exists>g. reads (rs_entries h) kept ?r g" using f by (auto simp: reads_def)
      thus ?thesis using Cons.prems(3) own none walk False rest by (auto simp: Let_def)
    next
      case True
      let ?m = "f\<lparr>rv_packageFiles := Some fs\<rparr>"
      obtain h1 where h1: "rs_entries h1 = rs_entries h" "rs_index h1 = rs_index h"
        and w: "writeAtomicText (put_entry ?r ?m) h \<in> {(Inr (), put_entry ?r ?m h1), (Inl RevisionWriteFailed, h1), (Inl RevisionWriteFailed, put_entry ?r ?m h1)}"
        by (rule writeAtomicText_cases)
      have put: "rs_entries (put_entry ?r ?m h1) = (rs_entries h)(?r := Stored ?m)" "rs_index (put_entry ?r ?m h1) = rs_index h"
        using h1 by (simp_all add: put_entry_def)
      have step: "reads (rs_entries h) K x y \<Longrightarrow> reads ((rs_entries h)(?r := Stored ?m)) K x y" for K x y
        by (rule reads_materialize [OF ch f])
      hence keep: "keeps_reads (rs_entries h) ((rs_entries h)(?r := Stored ?m))" by (simp add: keeps_reads_def)
      have run: "materialize c es dropped (item # items) h = (case writeAtomicText (put_entry ?r ?m) h of
          (Inl e, h1) \<Rightarrow> (Inl e, h1) | (Inr _, h1) \<Rightarrow> materialize c es dropped items h1)"
        using own none walk True valid by (simp add: Let_def)
      have ok: "entries_ok c (rs_entries (put_entry ?r ?m h1)) ?ids" unfolding put(1) by (rule keeps_reads_ok [OF keep Cons.prems(1)])
      have here: "\<exists>y. reads (rs_entries (put_entry ?r ?m h1)) kept ?r y"
        unfolding put(1) reads_def using r(3) by (intro exI [of _ ?m] exI [of _ "[]"] exI) auto
      from w consider (written) "materialize c es dropped items (put_entry ?r ?m h1) = (res, h')"
        | (before) "res \<noteq> Inr ()" "h' = h1" | (after) "res \<noteq> Inr ()" "h' = put_entry ?r ?m h1"
        using Cons.prems(3) run by auto
      thus ?thesis
      proof cases
        case written
        have sub: "rv_revision ` set items \<subseteq> kept" using Cons.prems(2) by auto
        note ih = Cons.IH [OF ok sub written]
        note ihk = conjunct1 [OF ih]
        have a: "keeps_reads (rs_entries h) (rs_entries h')" by (rule keeps_reads_trans [OF keep [folded put(1)] ihk])
        obtain y where "reads (rs_entries (put_entry ?r ?m h1)) kept ?r y" using here ..
        from keeps_readsD [OF ihk this] have b: "\<exists>y. reads (rs_entries h') kept ?r y" by blast
        have d: "\<forall>x. rs_entries h' x = rs_entries h x \<or> (\<exists>f y. rs_entries h x = Stored f \<and> rs_entries h' x = Stored (f\<lparr>rv_packageFiles := y\<rparr>))"
        proof
          fix x
          have "rs_entries h' x = rs_entries (put_entry ?r ?m h1) x
            \<or> (\<exists>f y. rs_entries (put_entry ?r ?m h1) x = Stored f \<and> rs_entries h' x = Stored (f\<lparr>rv_packageFiles := y\<rparr>))" using ih by blast
          thus "rs_entries h' x = rs_entries h x \<or> (\<exists>f y. rs_entries h x = Stored f \<and> rs_entries h' x = Stored (f\<lparr>rv_packageFiles := y\<rparr>))"
            using f unfolding put(1) by (cases "x = ?r") auto
        qed
        have e: "res = Inr () \<longrightarrow> (\<forall>x\<in>rv_revision ` set (item # items). \<exists>g. reads (rs_entries h') kept x g)" using ih b by fastforce
        have "rs_index h' = rs_index h" using ih put(2) by simp
        thus ?thesis using a d e by blast
      next
        case before
        thus ?thesis using h1 by (simp add: keeps_reads_def)
      next
        case after
        have "keeps_reads (rs_entries h) (rs_entries h')" unfolding after(2) put(1) by (rule keep)
        moreover have "rs_entries h' x = rs_entries h x \<or> (\<exists>f y. rs_entries h x = Stored f \<and> rs_entries h' x = Stored (f\<lparr>rv_packageFiles := y\<rparr>))" for x
          using f unfolding after(2) put(1) by (cases "x = ?r") auto
        ultimately show ?thesis using after put(2) by blast
      qed
    qed
  qed
qed

section \<open>Appending\<close>

lemma remove_unlisted_same:
  "rs_index (remove_unlisted K items h) = rs_index h" "r \<in> set K \<Longrightarrow> rs_entries (remove_unlisted K items h) r = rs_entries h r"
proof -
  have one: "rs_index (remove_entry x h) = rs_index h" "x \<noteq> r \<Longrightarrow> rs_entries (remove_entry x h) r = rs_entries h r" for x r h
    by (auto simp: remove_entry_def next_fault_def split: list.splits)
  show "rs_index (remove_unlisted K items h) = rs_index h"
    unfolding remove_unlisted_def by (induction items arbitrary: h) (simp_all add: one)
  show "r \<in> set K \<Longrightarrow> rs_entries (remove_unlisted K items h) r = rs_entries h r"
    unfolding remove_unlisted_def
  proof (induction items arbitrary: h)
    case (Cons a items)
    have "rs_entries (remove_entry (rv_revision a) h) r = rs_entries h r" if "rv_revision a \<notin> set K"
      using that Cons.prems by (intro one(2)) blast
    thus ?case using Cons by simp
  qed simp
qed

text \<open>The files an appended revision will have: its own, or those its listed parent reads as.\<close>

definition append_files :: "'b codec \<Rightarrow> revision_store \<Rightarrow> 'b append_options \<Rightarrow> package_file dict option" where
  "append_files c h opts =
     (case ao_packageFiles opts of
        Some fs \<Rightarrow> Some (packageFilesValue c fs)
      | None \<Rightarrow> (case ao_parentRevision opts of
            None \<Rightarrow> None
          | Some p \<Rightarrow> (case read_revision c h p of Inr (Some parent) \<Rightarrow> rv_packageFiles parent | _ \<Rightarrow> None)))"

text \<open>A document may be appended when it agrees with those files.\<close>

definition append_ok :: "'b codec \<Rightarrow> js_number \<Rightarrow> document \<Rightarrow> 'b append_options \<Rightarrow> revision_store \<Rightarrow> bool" where
  "append_ok c now doc opts h \<longleftrightarrow>
     (case append_files c h opts of
        None \<Rightarrow> False
      | Some fs \<Rightarrow> readable c (do_documentRevision doc) ((new_entry c now doc opts)\<lparr>rv_packageFiles := Some fs\<rparr>))"

lemma new_entry_reads:
  assumes ok: "history_ok c h" and "append_ok c now doc opts h"
    and new: "do_documentRevision doc \<notin> rv_revision ` set (index_of h)"
  defines "rn \<equiv> do_documentRevision doc" and "ids \<equiv> rv_revision ` set (index_of h)" and "e \<equiv> new_entry c now doc opts"
  obtains fs where "append_files c h opts = Some fs" "readable c rn (e\<lparr>rv_packageFiles := Some fs\<rparr>)"
    "reads ((rs_entries h)(rn := Stored e)) (insert rn ids) rn (e\<lparr>rv_packageFiles := Some fs\<rparr>)"
    "\<And>r g. reads (rs_entries h) ids r g \<Longrightarrow> reads ((rs_entries h)(rn := Stored e)) (insert rn ids) r g"
proof -
  obtain fs where fs: "append_files c h opts = Some fs" "readable c rn (e\<lparr>rv_packageFiles := Some fs\<rparr>)"
    using assms(2) by (auto simp: append_ok_def rn_def e_def split: option.splits)
  have others: "reads ((rs_entries h)(rn := Stored e)) (insert rn ids) r g" if "reads (rs_entries h) ids r g" for r g
  proof (rule reads_cong [OF that])
    show "((rs_entries h)(rn := Stored e)) x = rs_entries h x" if "x \<in> ids" for x
      using that new unfolding ids_def rn_def by (intro fun_upd_other) blast
  qed blast
  have "\<exists>ps. chain ((rs_entries h)(rn := Stored e)) (insert rn ids) rn ps fs"
  proof (cases "ao_packageFiles opts")
    case (Some bs)
    hence "rv_packageFiles e = Some fs" using fs(1) by (simp add: append_files_def e_def new_entry_def)
    thus ?thesis by (intro exI [of _ "[]"]) simp
  next
    case None
    then obtain p g where p: "ao_parentRevision opts = Some p" "read_revision c h p = Inr (Some g)" "rv_packageFiles g = Some fs"
      using fs(1) by (auto simp: append_files_def split: option.splits sum.splits)
    have "p \<in> ids" using read_revision_unlisted [OF ok] p(2) unfolding ids_def by force
    then obtain g' where "reads (rs_entries h) ids p g'" "read_revision c h p = Inr (Some g')"
      using history_reads [OF ok] unfolding ids_def by blast
    hence "reads ((rs_entries h)(rn := Stored e)) (insert rn ids) p g" using p(2) others by simp
    then obtain ps where "chain ((rs_entries h)(rn := Stored e)) (insert rn ids) p ps fs" using p(3) by (auto simp: reads_def)
    thus ?thesis using None p(1) by (intro exI [of _ "p # ps"]) (simp add: e_def new_entry_def)
  qed
  hence "reads ((rs_entries h)(rn := Stored e)) (insert rn ids) rn (e\<lparr>rv_packageFiles := Some fs\<rparr>)"
    by (auto simp: reads_def)
  thus thesis using that fs others by blast
qed

lemma history_okI:
  assumes "rs_index h = Stored (map stripPackageFiles es)" and "distinct (map rv_revision es)"
    and "\<And>e. e \<in> set es \<Longrightarrow> \<exists>g. reads (rs_entries h) (rv_revision ` set es) (rv_revision e) g \<and> readable c (rv_revision e) g"
    and "\<And>e. e \<in> set es \<Longrightarrow> \<exists>f. rs_entries h (rv_revision e) = Stored f \<and> stripPackageFiles e = stripPackageFiles f"
  shows "history_ok c h" "rv_revision ` set (index_of h) = rv_revision ` set es"
proof -
  show ids: "rv_revision ` set (index_of h) = rv_revision ` set es" using assms(1) by (simp add: index_of_def image_image)
  show "history_ok c h"
    unfolding history_ok_def ids using assms by (auto simp: index_of_def comp_def entries_ok_def)
qed

text \<open>A store whose index lists entries that read without the others.\<close>

lemma listed_ok:
  assumes idx: "rs_index x = Stored (map stripPackageFiles es)" and dist: "distinct (map rv_revision es)"
    and within: "\<forall>e\<in>set es. \<exists>g. reads ents (rv_revision ` set es) (rv_revision e) g"
    and ok: "entries_ok c ents N" and sub: "rv_revision ` set es \<subseteq> N"
    and stored: "\<And>e. e \<in> set es \<Longrightarrow> \<exists>f. ents (rv_revision e) = Stored f \<and> stripPackageFiles e = stripPackageFiles f"
    and ent: "\<And>r. r \<in> rv_revision ` set es \<Longrightarrow> rs_entries x r = ents r"
  shows "history_ok c x" "rv_revision ` set (index_of x) = rv_revision ` set es"
    "r \<in> rv_revision ` set es \<Longrightarrow> reads ents N r g \<Longrightarrow> read_revision c x r = Inr (Some g)"
proof -
  let ?K = "rv_revision ` set es"
  have good: "\<exists>g. reads (rs_entries x) ?K r g \<and> readable c r g \<and> reads ents N r g" if "r \<in> ?K" for r
  proof -
    obtain e where "e \<in> set es" "r = rv_revision e" using \<open>r \<in> ?K\<close> by auto
    then obtain g where g: "reads ents ?K r g" using within by auto
    have "r \<in> N" using sub that ..
    then obtain g' where g': "reads ents N r g'" "readable c r g'" using ok unfolding entries_ok_def by blast
    have "g' = g" by (rule reads_unique [OF g'(1) g])
    moreover have "reads (rs_entries x) ?K r g" by (rule reads_cong [OF g ent]) simp_all
    ultimately show ?thesis using g' by blast
  qed
  have e1: "\<exists>g. reads (rs_entries x) ?K (rv_revision e) g \<and> readable c (rv_revision e) g" if "e \<in> set es" for e
    using good that by (metis imageI)
  have e2: "\<exists>f. rs_entries x (rv_revision e) = Stored f \<and> stripPackageFiles e = stripPackageFiles f" if "e \<in> set es" for e
    using stored [OF that] ent that by simp
  show ok': "history_ok c x" and ids: "rv_revision ` set (index_of x) = ?K" using history_okI [OF idx dist e1 e2] by blast+
  show "read_revision c x r = Inr (Some g)" if "r \<in> ?K" "reads ents N r g"
  proof -
    obtain g' where g': "reads (rs_entries x) ?K r g'" "reads ents N r g'" using good \<open>r \<in> ?K\<close> by blast
    have "g' = g" by (rule reads_unique [OF g'(2) that(2)])
    thus ?thesis using read_revision_reads [OF ok'] g'(1) unfolding ids by simp
  qed
qed

text \<open>A store with the same index in which the listed revisions still read as before.\<close>

abbreviation listed :: "revision_store \<Rightarrow> string set" where
  "listed h \<equiv> rv_revision ` set (index_of h)"

definition same_entry :: "revision_record stored_file \<Rightarrow> revision_record stored_file \<Rightarrow> bool" where
  "same_entry a b \<longleftrightarrow> a = b \<or> (\<exists>f x. a = Stored f \<and> b = Stored (f\<lparr>rv_packageFiles := x\<rparr>))"

lemma same_entry_strip: "same_entry (Stored f) b \<Longrightarrow> \<exists>g. b = Stored g \<and> stripPackageFiles g = stripPackageFiles f"
  by (auto simp: same_entry_def)

lemma history_later:
  assumes ok: "history_ok c h" and "rs_index h' = rs_index h"
    and keep: "\<And>r g. reads (rs_entries h) (listed h) r g \<Longrightarrow> reads (rs_entries h') (listed h) r g"
    and same: "\<And>r. r \<in> listed h \<Longrightarrow> same_entry (rs_entries h r) (rs_entries h' r)"
  shows "history_ok c h'" "index_of h' = index_of h" "read_revision c h' r = read_revision c h r"
proof -
  show idx: "index_of h' = index_of h" using assms(2) by (simp add: index_of_def)
  have "\<exists>f. rs_entries h' (rv_revision e) = Stored f \<and> e = stripPackageFiles f" if e: "e \<in> set (index_of h)" for e
  proof -
    obtain f where "rs_entries h (rv_revision e) = Stored f" "e = stripPackageFiles f" using ok e by (auto simp: history_ok_def)
    thus ?thesis using same [of "rv_revision e"] e same_entry_strip [of f] by fastforce
  qed
  thus ok': "history_ok c h'" using ok keep unfolding history_ok_def idx assms(2) entries_ok_def by meson
  show "read_revision c h' r = read_revision c h r"
  proof (cases "r \<in> listed h")
    case True
    obtain g where g: "reads (rs_entries h) (listed h) r g" "read_revision c h r = Inr (Some g)" using history_reads [OF ok True] by blast
    have "reads (rs_entries h') (listed h') r g" unfolding idx by (rule keep [OF g(1)])
    thus ?thesis using read_revision_reads [OF ok'] g(2) by simp
  next
    case False
    thus ?thesis using read_revision_unlisted [OF ok] read_revision_unlisted [OF ok'] idx by simp
  qed
qed

definition pruned_index :: "revision_record list \<Rightarrow> revision_record list \<Rightarrow> bool" where
  "pruned_index next es \<longleftrightarrow> es = next \<or> (120 < length next \<and> es = drop (length next - 100) next)"

text \<open>Pruning leaves the index alone and keeps what is read; the entries it wants to keep read without the
  others.\<close>

lemma prune_keeps:
  assumes d: "distinct (map rv_revision next)" and ok: "entries_ok c (rs_entries h) (rv_revision ` set next)"
    and p: "prune c next h = (pruned, h')"
  defines "kept \<equiv> (case pruned of None \<Rightarrow> next | Some es \<Rightarrow> es)"
  shows "keeps_reads (rs_entries h) (rs_entries h')" "rs_index h' = rs_index h" "same_entry (rs_entries h r) (rs_entries h' r)"
    "pruned_index next kept" "\<forall>e\<in>set kept. \<exists>g. reads (rs_entries h') (rv_revision ` set kept) (rv_revision e) g"
proof -
  have all: "\<forall>e\<in>set next. \<exists>g. reads (rs_entries h') (rv_revision ` set next) (rv_revision e) g" if "keeps_reads (rs_entries h) (rs_entries h')"
    using ok keeps_readsD [OF that] unfolding entries_ok_def by blast
  have "keeps_reads (rs_entries h) (rs_entries h') \<and> rs_index h' = rs_index h \<and> (\<forall>r. same_entry (rs_entries h r) (rs_entries h' r))
    \<and> pruned_index next kept \<and> (\<forall>e\<in>set kept. \<exists>g. reads (rs_entries h') (rv_revision ` set kept) (rv_revision e) g)"
  proof (cases "120 < length next")
    case False
    hence "pruned = None" "h' = h" using p by (auto simp: prune_def RETAINED_REVISIONS_def REVISION_PRUNE_SLACK_def)
    moreover have "keeps_reads (rs_entries h) (rs_entries h)" by (simp add: keeps_reads_def)
    ultimately show ?thesis using all by (simp add: kept_def same_entry_def pruned_index_def)
  next
    case True
    let ?n = "length next - 100"
    let ?dropped = "map rv_revision (take ?n next)"
    let ?K = "rv_revision ` set next - set ?dropped"
    have "distinct (map rv_revision (take ?n next) @ map rv_revision (drop ?n next))" using d by (simp flip: map_append)
    hence "set ?dropped \<inter> rv_revision ` set (drop ?n next) = {}" by auto
    moreover have "set next = set (take ?n next) \<union> set (drop ?n next)" by (metis append_take_drop_id set_append)
    ultimately have K: "rv_revision ` set (drop ?n next) = ?K" by auto
    obtain res h1 where m: "materialize c next ?dropped (drop ?n next) h = (res, h1)" by fastforce
    note mk = materialize_keeps [OF d ok _ refl m, unfolded K, OF subset_refl]
    have h1: "h' = h1" "pruned = (case res of Inl _ \<Rightarrow> None | Inr _ \<Rightarrow> Some (drop ?n next))"
      using p True m by (auto simp: prune_def materializeForPrune_def RETAINED_REVISIONS_def REVISION_PRUNE_SLACK_def split: sum.splits prod.splits)
    have same: "\<forall>r. same_entry (rs_entries h r) (rs_entries h' r)" using mk unfolding h1(1) same_entry_def by metis
    show ?thesis
    proof (cases res)
      case (Inl e)
      thus ?thesis using mk same all h1 by (simp add: kept_def pruned_index_def)
    next
      case (Inr u)
      hence "res = Inr ()" by simp
      hence "\<forall>x\<in>?K. \<exists>g. reads (rs_entries h1) ?K x g" using mk by blast
      hence "\<forall>e\<in>set (drop ?n next). \<exists>g. reads (rs_entries h1) (rv_revision ` set (drop ?n next)) (rv_revision e) g" unfolding K [symmetric] by blast
      thus ?thesis using mk same h1 Inr True by (simp add: kept_def pruned_index_def)
    qed
  qed
  thus "keeps_reads (rs_entries h) (rs_entries h')" "rs_index h' = rs_index h" "same_entry (rs_entries h r) (rs_entries h' r)"
    "pruned_index next kept" "\<forall>e\<in>set kept. \<exists>g. reads (rs_entries h') (rv_revision ` set kept) (rv_revision e) g" by blast+
qed

definition new_listed :: "'b codec \<Rightarrow> js_number \<Rightarrow> document \<Rightarrow> 'b append_options \<Rightarrow> revision_store \<Rightarrow> revision_store \<Rightarrow> bool" where
  "new_listed c now doc opts h h' \<longleftrightarrow>
     (\<exists>kept. pruned_index (index_of h @ [new_entry c now doc opts]) kept \<and> index_of h' = map stripPackageFiles kept)
     \<and> (\<forall>r\<in>listed h \<inter> listed h'. read_revision c h' r = read_revision c h r)
     \<and> (\<exists>fs. append_files c h opts = Some fs
          \<and> read_revision c h' (do_documentRevision doc) = Inr (Some ((new_entry c now doc opts)\<lparr>rv_packageFiles := Some fs\<rparr>)))"

lemma pruned_last: "pruned_index (es @ [e]) kept \<Longrightarrow> e \<in> set kept \<and> set kept \<subseteq> set (es @ [e])"
  unfolding pruned_index_def by (auto dest: in_set_dropD)

lemma pruned_distinct: "pruned_index es kept \<Longrightarrow> distinct (map f es) \<Longrightarrow> distinct (map f kept)"
  by (auto simp: pruned_index_def drop_map [symmetric])

text \<open>The states an append can end in.\<close>

lemma append_outcomes:
  assumes run: "appendRevisionHistory c now doc opts h = (res, h')" and idx: "readRevisionIndex h = Inr (index_of h)"
    and new: "do_documentRevision doc \<notin> listed h"
  defines "rn \<equiv> do_documentRevision doc" and "e \<equiv> new_entry c now doc opts"
  obtains (entry_failed) h1 where "rs_entries h1 = rs_entries h" "rs_index h1 = rs_index h" "res = Inl RevisionWriteFailed"
      "h' = h1 \<or> h' = put_entry rn e h1"
  | (index_failed) h1 pruned h3 h4 where "rs_entries h1 = rs_entries h" "rs_index h1 = rs_index h"
      "prune c (index_of h @ [e]) (put_entry rn e h1) = (pruned, h3)" "rs_entries h4 = rs_entries h3" "rs_index h4 = rs_index h3"
      "res = Inl RevisionWriteFailed" "h' = h4"
  | (index_written) h1 pruned h3 kept where "rs_entries h1 = rs_entries h" "rs_index h1 = rs_index h"
      "prune c (index_of h @ [e]) (put_entry rn e h1) = (pruned, h3)"
      "kept = (case pruned of None \<Rightarrow> index_of h @ [e] | Some es \<Rightarrow> es)" "res = Inl RevisionWriteFailed \<or> res = Inr e"
      "rs_index h' = Stored (map stripPackageFiles kept)" "\<And>r. r \<in> rv_revision ` set kept \<Longrightarrow> rs_entries h' r = rs_entries h3 r"
proof -
  have run': "(res, h') = (case writeAtomicText (put_entry rn e) h of
      (Inl e, h1) \<Rightarrow> (Inl e, h1)
    | (Inr _, x) \<Rightarrow> (case prune c (index_of h @ [e]) x of (pruned, h2) \<Rightarrow>
        let kept = (case pruned of None \<Rightarrow> index_of h @ [e] | Some es \<Rightarrow> es) in
        (case writeAtomicText (put_index (map stripPackageFiles kept)) h2 of
           (Inl e, h3) \<Rightarrow> (Inl e, h3) | (Inr _, h3) \<Rightarrow> (Inr e, remove_unlisted (map rv_revision kept) (index_of h @ [e]) h3))))"
    using run find_unlisted [OF new] unfolding appendRevisionHistory_def idx rn_def e_def by (simp add: Let_def)
  obtain h1 where h1: "rs_entries h1 = rs_entries h" "rs_index h1 = rs_index h"
    and w: "writeAtomicText (put_entry rn e) h \<in> {(Inr (), put_entry rn e h1), (Inl RevisionWriteFailed, h1), (Inl RevisionWriteFailed, put_entry rn e h1)}"
    by (rule writeAtomicText_cases)
  obtain pruned h3 where p: "prune c (index_of h @ [e]) (put_entry rn e h1) = (pruned, h3)" by fastforce
  define kept where "kept = (case pruned of None \<Rightarrow> index_of h @ [e] | Some es \<Rightarrow> es)"
  obtain h4 where h4: "rs_entries h4 = rs_entries h3" "rs_index h4 = rs_index h3"
    and w4: "writeAtomicText (put_index (map stripPackageFiles kept)) h3 \<in>
      {(Inr (), put_index (map stripPackageFiles kept) h4), (Inl RevisionWriteFailed, h4), (Inl RevisionWriteFailed, put_index (map stripPackageFiles kept) h4)}"
    by (rule writeAtomicText_cases)
  let ?h5 = "put_index (map stripPackageFiles kept) h4"
  have h5: "rs_index ?h5 = Stored (map stripPackageFiles kept)" "rs_entries ?h5 = rs_entries h3" using h4 by (simp_all add: put_index_def)
  have go: "(res, h') = (case writeAtomicText (put_index (map stripPackageFiles kept)) h3 of
        (Inl e, h3) \<Rightarrow> (Inl e, h3) | (Inr _, h3) \<Rightarrow> (Inr e, remove_unlisted (map rv_revision kept) (index_of h @ [e]) h3))"
    if "writeAtomicText (put_entry rn e) h = (Inr (), put_entry rn e h1)"
    using run' unfolding that by (simp only: prod.case sum.case Let_def p kept_def [symmetric])
  from w consider "res = Inl RevisionWriteFailed" "h' = h1 \<or> h' = put_entry rn e h1"
    | "(res, h') = (case writeAtomicText (put_index (map stripPackageFiles kept)) h3 of
        (Inl e, h3) \<Rightarrow> (Inl e, h3) | (Inr _, h3) \<Rightarrow> (Inr e, remove_unlisted (map rv_revision kept) (index_of h @ [e]) h3))"
    using go run' by auto
  thus thesis
  proof cases
    case 1
    thus thesis by (rule entry_failed [OF h1])
  next
    case 2
    from w4 consider "res = Inl RevisionWriteFailed" "h' = h4" | "res = Inl RevisionWriteFailed" "h' = ?h5"
      | "res = Inr e" "h' = remove_unlisted (map rv_revision kept) (index_of h @ [e]) ?h5" using 2 by auto
    thus thesis
    proof cases
      case 1
      thus thesis by (rule index_failed [OF h1 p h4])
    next
      case 2
      thus thesis using h5 by (intro index_written [OF h1 p kept_def]) simp_all
    next
      case 3
      thus thesis using h5 by (intro index_written [OF h1 p kept_def]) (simp_all add: remove_unlisted_same)
    qed
  qed
qed

lemma append_next:
  assumes ok: "history_ok c h" and a: "append_ok c now doc opts h" and new: "do_documentRevision doc \<notin> listed h"
  defines "e \<equiv> new_entry c now doc opts"
  shows "distinct (map rv_revision (index_of h @ [e]))" "rv_revision ` set (index_of h @ [e]) = insert (do_documentRevision doc) (listed h)"
    "entries_ok c ((rs_entries h)(do_documentRevision doc := Stored e)) (insert (do_documentRevision doc) (listed h))"
proof -
  have rn: "rv_revision e = do_documentRevision doc" by (simp add: e_def new_entry_def)
  show "distinct (map rv_revision (index_of h @ [e]))" using ok new rn by (auto simp: history_ok_def)
  show "rv_revision ` set (index_of h @ [e]) = insert (do_documentRevision doc) (listed h)" by (simp add: rn)
  obtain fs where "readable c (do_documentRevision doc) (e\<lparr>rv_packageFiles := Some fs\<rparr>)"
    "reads ((rs_entries h)(do_documentRevision doc := Stored e)) (insert (do_documentRevision doc) (listed h)) (do_documentRevision doc)
       (e\<lparr>rv_packageFiles := Some fs\<rparr>)"
    "\<And>r g. reads (rs_entries h) (listed h) r g
       \<Longrightarrow> reads ((rs_entries h)(do_documentRevision doc := Stored e)) (insert (do_documentRevision doc) (listed h)) r g"
    unfolding e_def by (rule new_entry_reads [OF ok a new]) blast
  thus "entries_ok c ((rs_entries h)(do_documentRevision doc := Stored e)) (insert (do_documentRevision doc) (listed h))"
    using ok unfolding history_ok_def entries_ok_def by blast
qed

lemma stored_next:
  assumes ok: "history_ok c h" and new: "do_documentRevision doc \<notin> listed h" and e: "e \<in> set (index_of h @ [new_entry c now doc opts])"
  shows "\<exists>f. ((rs_entries h)(do_documentRevision doc := Stored (new_entry c now doc opts))) (rv_revision e) = Stored f
    \<and> stripPackageFiles e = stripPackageFiles f"
proof (cases "e = new_entry c now doc opts")
  case True
  thus ?thesis by (simp add: new_entry_def)
next
  case False
  hence e: "e \<in> set (index_of h)" using e by simp
  hence "rv_revision e \<noteq> do_documentRevision doc" using new by (metis imageI)
  moreover obtain f where "rs_entries h (rv_revision e) = Stored f" "e = stripPackageFiles f" using ok e by (auto simp: history_ok_def)
  ultimately show ?thesis by simp
qed

text \<open>Before the index is written, the listed revisions read as before.\<close>

lemma append_unlisted:
  assumes ok: "history_ok c h" and new: "rn \<notin> listed h" and x: "rs_index x = rs_index h"
    "keeps_reads ((rs_entries h)(rn := Stored e)) (rs_entries x)" "\<And>r. same_entry (((rs_entries h)(rn := Stored e)) r) (rs_entries x r)"
  shows "history_ok c x \<and> index_of x = index_of h \<and> (\<forall>r. read_revision c x r = read_revision c h r)"
proof -
  have other: "((rs_entries h)(rn := Stored e)) r = rs_entries h r" if "r \<in> listed h" for r
    using that new by (intro fun_upd_other) blast
  have r: "reads (rs_entries x) (listed h) r g" if "reads (rs_entries h) (listed h) r g" for r g
    by (rule keeps_readsD [OF x(2)], rule reads_cong [OF that other]) simp_all
  have s: "same_entry (rs_entries h r) (rs_entries x r)" if "r \<in> listed h" for r
    using x(3) [of r] unfolding other [OF that] .
  show ?thesis using history_later [OF ok x(1) r s] by blast
qed

text \<open>After it, the kept ones do, and the new one reads with its files.\<close>

lemma append_listed:
  assumes ok: "history_ok c h" and a: "append_ok c now doc opts h" and new: "do_documentRevision doc \<notin> listed h"
  defines "rn \<equiv> do_documentRevision doc" and "e \<equiv> new_entry c now doc opts"
  assumes h1: "rs_entries h1 = rs_entries h" "rs_index h1 = rs_index h" and p: "prune c (index_of h @ [e]) (put_entry rn e h1) = (pruned, h3)"
    and kept: "kept = (case pruned of None \<Rightarrow> index_of h @ [e] | Some es \<Rightarrow> es)" and idx: "rs_index x = Stored (map stripPackageFiles kept)"
    and ent: "\<And>r. r \<in> rv_revision ` set kept \<Longrightarrow> rs_entries x r = rs_entries h3 r"
  shows "history_ok c x \<and> new_listed c now doc opts h x"
proof -
  let ?next = "index_of h @ [e]" and ?K = "rv_revision ` set kept" and ?ents = "(rs_entries h)(rn := Stored e)"
  obtain fs where fs: "append_files c h opts = Some fs" "readable c rn (e\<lparr>rv_packageFiles := Some fs\<rparr>)"
    and new_reads: "reads ?ents (insert rn (listed h)) rn (e\<lparr>rv_packageFiles := Some fs\<rparr>)"
    and old_reads: "\<And>r g. reads (rs_entries h) (listed h) r g \<Longrightarrow> reads ?ents (insert rn (listed h)) r g"
    unfolding rn_def e_def by (rule new_entry_reads [OF ok a new]) blast
  note nextt = append_next [OF ok a new, folded rn_def e_def]
  have rn: "rv_revision e = rn" by (simp add: e_def rn_def new_entry_def)
  have h2: "rs_entries (put_entry rn e h1) = ?ents" using h1 by (simp add: put_entry_def)
  have nok: "entries_ok c (rs_entries (put_entry rn e h1)) (rv_revision ` set ?next)" unfolding h2 nextt(2) by (rule nextt(3))
  note pk = prune_keeps [OF nextt(1) nok p, folded kept]
  note last = pruned_last [OF pk(4)]
  have dist: "distinct (map rv_revision kept)" by (rule pruned_distinct [OF pk(4) nextt(1)])
  have sub: "?K \<subseteq> rv_revision ` set ?next" using last by blast
  have old': "\<exists>f. rs_entries h3 (rv_revision y) = Stored f \<and> stripPackageFiles y = stripPackageFiles f" if "y \<in> set kept" for y
  proof -
    have "y \<in> set ?next" using last that by blast
    then obtain f where f: "?ents (rv_revision y) = Stored f" "stripPackageFiles y = stripPackageFiles f"
      using stored_next [OF ok new, where e = y] unfolding rn_def e_def by blast
    have "same_entry (Stored f) (rs_entries h3 (rv_revision y))" using pk(3) [of "rv_revision y"] unfolding h2 f(1) .
    thus ?thesis using same_entry_strip f(2) by force
  qed
  note lo = listed_ok [OF idx dist pk(5) keeps_reads_ok [OF pk(1) nok] sub old' ent]
  have ix: "history_ok c x" "listed x = ?K" using lo(1,2) by blast+
  have same: "read_revision c x r = Inr (Some g)" if "r \<in> ?K" "reads ?ents (rv_revision ` set ?next) r g" for r g
    using lo(3) [OF _ _ that(1) keeps_readsD [OF pk(1) that(2) [folded h2]]] by blast
  have "read_revision c x r = read_revision c h r" if "r \<in> listed h" "r \<in> listed x" for r
  proof -
    obtain g where g: "reads (rs_entries h) (listed h) r g" "read_revision c h r = Inr (Some g)" using history_reads [OF ok \<open>r \<in> listed h\<close>] by blast
    have "reads ?ents (rv_revision ` set ?next) r g" unfolding nextt(2) by (rule old_reads [OF g(1)])
    thus ?thesis using same that(2) g(2) unfolding ix(2) by simp
  qed
  moreover have "read_revision c x rn = Inr (Some (e\<lparr>rv_packageFiles := Some fs\<rparr>))"
  proof (rule same)
    show "rn \<in> ?K" using last rn by (metis imageI)
    show "reads ?ents (rv_revision ` set ?next) rn (e\<lparr>rv_packageFiles := Some fs\<rparr>)" unfolding nextt(2) by (rule new_reads)
  qed
  moreover have "index_of x = map stripPackageFiles kept" using idx by (simp add: index_of_def)
  ultimately show ?thesis using ix(1) pk(4) fs(1) unfolding new_listed_def rn_def e_def by blast
qed

text \<open>The outcomes of an append: a known revision is read; a failure leaves every revision as it was, or has
  listed the new one; success has listed it.\<close>

lemma append_cases:
  assumes ok: "history_ok c h" and a: "append_ok c now doc opts h"
    and run: "appendRevisionHistory c now doc opts h = (res, h')"
  shows "history_ok c h' \<and>
    (if do_documentRevision doc \<in> listed h then h' = h \<and> (\<exists>e. res = Inr e \<and> read_revision c h (do_documentRevision doc) = Inr (Some e))
     else res = Inl RevisionWriteFailed \<and> index_of h' = index_of h \<and> (\<forall>r. read_revision c h' r = read_revision c h r)
        \<or> (res = Inl RevisionWriteFailed \<or> res = Inr (new_entry c now doc opts)) \<and> new_listed c now doc opts h h')"
proof (cases "do_documentRevision doc \<in> listed h")
  case True
  then obtain e where e: "e \<in> set (index_of h)" "rv_revision e = do_documentRevision doc" by auto
  have "List.find (\<lambda>x. rv_revision x = do_documentRevision doc) (index_of h) = Some e"
    using find_listed [of "index_of h" e] ok e by (simp add: history_ok_def)
  moreover obtain g where "read_revision c h (do_documentRevision doc) = Inr (Some g)" using history_reads [OF ok True] by blast
  ultimately have "h' = h" "res = Inr g" using run e(2) by (auto simp: appendRevisionHistory_def index_shape [OF ok])
  thus ?thesis using ok True \<open>read_revision _ _ _ = _\<close> by simp
next
  case new: False
  let ?rn = "do_documentRevision doc" and ?e = "new_entry c now doc opts"
  from run index_shape [OF ok] new show ?thesis
  proof (cases rule: append_outcomes)
    case (entry_failed h1)
    have "history_ok c h1 \<and> index_of h1 = index_of h \<and> (\<forall>r. read_revision c h1 r = read_revision c h r)"
      using history_later [OF ok entry_failed(2)] entry_failed(1) by (simp add: same_entry_def)
    moreover have "history_ok c (put_entry ?rn ?e h1) \<and> index_of (put_entry ?rn ?e h1) = index_of h
        \<and> (\<forall>r. read_revision c (put_entry ?rn ?e h1) r = read_revision c h r)"
      by (rule append_unlisted [OF ok new, where e = ?e]) (simp_all add: put_entry_def entry_failed(1,2) keeps_reads_def same_entry_def)
    ultimately show ?thesis using entry_failed(3,4) new by auto
  next
    case (index_failed h1 pruned h3 h4)
    note nextt = append_next [OF ok a new]
    have h2: "rs_entries (put_entry ?rn ?e h1) = (rs_entries h)(?rn := Stored ?e)" "rs_index (put_entry ?rn ?e h1) = rs_index h"
      using index_failed(1,2) by (simp_all add: put_entry_def)
    have nok: "entries_ok c (rs_entries (put_entry ?rn ?e h1)) (rv_revision ` set (index_of h @ [?e]))" unfolding h2 nextt(2) by (rule nextt(3))
    note pk = prune_keeps [OF nextt(1) nok index_failed(3)]
    have "history_ok c h4 \<and> index_of h4 = index_of h \<and> (\<forall>r. read_revision c h4 r = read_revision c h r)"
    proof (rule append_unlisted [OF ok new, where e = ?e])
      show "rs_index h4 = rs_index h" using index_failed(5) pk(2) h2(2) by simp
      show "keeps_reads ((rs_entries h)(?rn := Stored ?e)) (rs_entries h4)" using pk(1) unfolding h2(1) index_failed(4) .
      show "same_entry (((rs_entries h)(?rn := Stored ?e)) r) (rs_entries h4 r)" for r using pk(3) [of r] unfolding h2(1) index_failed(4) .
    qed
    thus ?thesis using index_failed(6,7) new by simp
  next
    case (index_written h1 pruned h3 kept)
    thus ?thesis using append_listed [OF ok a new index_written(1-4,6,7)] new by auto
  qed
qed

text \<open>Without failures a new revision is listed and the history stays bounded.\<close>

lemma append_bound:
  assumes ok: "history_ok c h" and a: "append_ok c now doc opts h" and new: "do_documentRevision doc \<notin> listed h" and nf: "rs_faults h = []"
  shows "length (index_of (snd (appendRevisionHistory c now doc opts h))) \<le> 120"
    "fst (appendRevisionHistory c now doc opts h) = Inr (new_entry c now doc opts)"
proof -
  let ?rn = "do_documentRevision doc" and ?e = "new_entry c now doc opts"
  let ?next = "index_of h @ [?e]" and ?h2 = "put_entry ?rn ?e h"
  note nextt = append_next [OF ok a new]
  have h2: "rs_entries ?h2 = (rs_entries h)(?rn := Stored ?e)" "rs_faults ?h2 = []" using nf by (simp_all add: put_entry_def)
  have nok: "entries_ok c (rs_entries ?h2) (rv_revision ` set ?next)" unfolding h2 nextt(2) by (rule nextt(3))
  have "set (drop (length ?next - 100) ?next) \<subseteq> set ?next" by (rule set_drop_subset)
  then obtain h3 where m: "materialize c ?next (map rv_revision (take (length ?next - 100) ?next)) (drop (length ?next - 100) ?next) ?h2 = (Inr (), h3)"
    "rs_faults h3 = []" using materialize_no_fault [OF nextt(1) nok _ h2(2)] by (metis image_mono)
  have "\<exists>pruned h4. prune c ?next ?h2 = (pruned, h4) \<and> rs_faults h4 = [] \<and> length (case pruned of None \<Rightarrow> ?next | Some es \<Rightarrow> es) \<le> 120"
  proof (cases "120 < length ?next")
    case True
    thus ?thesis using m by (simp add: prune_def materializeForPrune_def RETAINED_REVISIONS_def REVISION_PRUNE_SLACK_def del: append_is_Nil_conv take_append drop_append)
  next
    case False
    thus ?thesis using h2(2) by (simp add: prune_def RETAINED_REVISIONS_def REVISION_PRUNE_SLACK_def)
  qed
  then obtain pruned h4 where p: "prune c ?next ?h2 = (pruned, h4)" "rs_faults h4 = []" "length (case pruned of None \<Rightarrow> ?next | Some es \<Rightarrow> es) \<le> 120"
    by blast
  define kept where "kept = (case pruned of None \<Rightarrow> ?next | Some es \<Rightarrow> es)"
  have "appendRevisionHistory c now doc opts h = (Inr ?e, remove_unlisted (map rv_revision kept) ?next (put_index (map stripPackageFiles kept) h4))"
    unfolding appendRevisionHistory_def index_shape [OF ok] sum.case find_unlisted [OF new] option.case Let_def write_no_fault [OF nf] prod.case p(1)
      kept_def [symmetric] write_no_fault [OF p(2)] ..
  moreover have "index_of (remove_unlisted (map rv_revision kept) ?next (put_index (map stripPackageFiles kept) h4)) = map stripPackageFiles kept"
    by (simp only: index_of_def remove_unlisted_same(1)) (simp add: put_index_def)
  ultimately show "length (index_of (snd (appendRevisionHistory c now doc opts h))) \<le> 120"
    "fst (appendRevisionHistory c now doc opts h) = Inr ?e" using p(3) by (simp_all add: kept_def)
qed

end
