(* ===== verification/RevisionProperties.thy ===== *)
theory RevisionProperties
  imports RevisionFacts
begin

text \<open>
  The properties of the revision history, over every sequence of appends with failures of writes.
\<close>

section \<open>Canonical JSON\<close>

abbreviation on_values :: "('a \<Rightarrow> 'b) \<Rightarrow> (string \<times> 'a) list \<Rightarrow> (string \<times> 'b) list" where
  "on_values f \<equiv> map (apsnd f)"

lemma norm_fields_map: "json_norm_fields kvs = on_values json_norm kvs"
  by (induction kvs) auto

lemma norm_list_map: "json_norm_list xs = map json_norm xs"
  by (induction xs) auto

lemma sort_values: "sort_key fst (on_values f xs) = on_values f (sort_key fst xs)"
proof (induction xs)
  case (Cons x xs)
  have "insort_key fst (apsnd f x) (on_values f ys) = on_values f (insort_key fst x ys)" for ys
    by (induction ys) auto
  thus ?case using Cons by simp
qed simp

lemma sort_twice [simp]: "sort_key f (sort_key f xs) = sort_key f xs"
  by (rule sort_key_id_if_sorted) simp

lemma norm_obj: "json_norm (JObj kvs) = JObj (on_values json_norm (sort_key fst kvs))"
  by (simp add: norm_fields_map sort_values)

lemma norm_idem [simp]: "json_norm (json_norm v) = json_norm v"
proof (induction v)
  case (JArr xs)
  thus ?case by (simp add: norm_list_map)
next
  case (JObj kvs)
  hence "apsnd json_norm (apsnd json_norm kv) = apsnd json_norm kv" if "kv \<in> set (sort_key fst kvs)" for kv
    using that by (cases kv) auto
  hence "on_values json_norm (on_values json_norm (sort_key fst kvs)) = on_values json_norm (sort_key fst kvs)" by simp
  thus ?case unfolding norm_obj by (simp only: sort_values sort_twice)
qed simp_all

lemma map_of_sorted: "map_of (sort_key fst kvs) k = map_of (kvs :: ('a :: linorder \<times> 'b) list) k"
proof -
  have "map_of xs k = map_of (filter (\<lambda>kv. fst kv = k) xs) k" for xs :: "('a \<times> 'b) list"
    by (induction xs) auto
  thus ?thesis using sort_key_stable [of fst k kvs] by metis
qed

lemma jfield_norm: "jfield k (json_norm v) = json_norm (jfield k v)"
proof (cases v)
  case (JObj kvs)
  have "map_of (on_values json_norm xs) k = map_option json_norm (map_of xs k)" for xs by (induction xs) auto
  thus ?thesis unfolding JObj norm_obj by (simp add: map_of_sorted split: option.splits)
qed simp_all

lemma norm_undefined [simp]: "json_norm v = JUndefined \<longleftrightarrow> v = JUndefined"
  by (cases v) simp_all

lemma semanticProjection_norm: "semanticProjection (json_norm v) = semanticProjection v"
proof (cases v)
  case (JObj kvs)
  have keys: "filter (\<lambda>kv. fst kv \<noteq> ''presentation'') (on_values json_norm xs) = on_values json_norm (filter (\<lambda>kv. fst kv \<noteq> ''presentation'') xs)" for xs
    by (induction xs) auto
  let ?P = "\<lambda>kv. fst kv \<noteq> ''presentation''"
  have "semanticProjection (json_norm (JObj kvs)) = json_norm (JObj (filter ?P (on_values json_norm (sort_key fst kvs))))"
    by (simp only: norm_obj semanticProjection_def canonicalJson_doc_def json.case)
  also have "\<dots> = json_norm (json_norm (JObj (filter ?P kvs)))"
    unfolding keys norm_obj by (simp only: sort_values sort_twice filter_sort)
  also have "\<dots> = semanticProjection (JObj kvs)" by (simp only: norm_idem semanticProjection_def canonicalJson_doc_def json.case)
  finally show ?thesis unfolding JObj .
qed (simp_all add: semanticProjection_def canonicalJson_doc_def norm_list_map)

lemma norm_field: "json_norm (JObj (a @ (k, json_norm v) # b)) = json_norm (JObj (a @ (k, v) # b))"
proof -
  have "on_values json_norm (a @ (k, json_norm v) # b) = on_values json_norm (a @ (k, v) # b)" by simp
  thus ?thesis by (simp only: json_norm.simps norm_fields_map)
qed

text \<open>The revisions do not depend on the order of keys in a definition or of files in a package.\<close>

lemma documentRevisions_norm:
  "documentRevisions c (json_norm v) (sort_key fst files) = documentRevisions c v files"
proof -
  have "json_norm (JObj (on_values JStr (sort_key fst files))) = json_norm (JObj (on_values JStr files))"
    unfolding norm_obj by (simp only: sort_values sort_twice)
  hence files: "json_norm (JObj [(''definition'', w), (''files'', JObj (on_values JStr (sort_key fst files)))])
      = json_norm (JObj [(''definition'', w), (''files'', JObj (on_values JStr files))])" for w
    using norm_field [of "[(''definition'', w)]" "''files''" "JObj (on_values JStr (sort_key fst files))" "[]"]
      norm_field [of "[(''definition'', w)]" "''files''" "JObj (on_values JStr files)" "[]"] by simp
  have doc: "json_norm (JObj [(''definition'', json_norm v), x]) = json_norm (JObj [(''definition'', v), x])" for x
    using norm_field [of "[]" "''definition''" v "[x]"] by simp
  have pairs: "map (\<lambda>(p, h). (p, JStr h)) fs = on_values JStr fs" for fs by (induction fs) auto
  have layout: "json_norm (if jfield k (json_norm v) = JUndefined then JNull else jfield k (json_norm v))
      = json_norm (if jfield k v = JUndefined then JNull else jfield k v)" for k
    by (simp add: jfield_norm)
  show ?thesis
    unfolding documentRevisions_def Let_def canonicalJson_doc_def semanticProjection_norm pairs files layout doc ..
qed

section \<open>Histories\<close>

inductive revision_history :: "'b codec \<Rightarrow> revision_store \<Rightarrow> bool" for c where
  rh_empty: "revision_history c \<lparr>rs_index = Absent, rs_entries = \<lambda>_. Absent, rs_faults = faults\<rparr>"
| rh_append: "revision_history c h \<Longrightarrow> append_ok c now doc opts h \<Longrightarrow> revision_history c (snd (appendRevisionHistory c now doc opts h))"
| rh_faults: "revision_history c h \<Longrightarrow> revision_history c (h\<lparr>rs_faults := faults\<rparr>)"

lemma history_sound: "revision_history c h \<Longrightarrow> history_ok c h"
proof (induction rule: revision_history.induct)
  case (rh_append h now doc opts)
  obtain res h' where run: "appendRevisionHistory c now doc opts h = (res, h')" by fastforce
  show ?case using append_cases [OF rh_append(3,2) run] by (simp add: run)
next
  case (rh_faults h faults)
  thus ?case using history_later [OF rh_faults(2), of "h\<lparr>rs_faults := faults\<rparr>"] by (simp add: same_entry_def)
qed (simp_all add: history_ok_def entries_ok_def index_of_def)

lemma stripped_valid:
  assumes "readable c r g"
  shows "validateRevisionEntry c (stripPackageFiles g) False = Inr ()"
  using assms by (auto simp: readable_def validateRevisionEntry_def stripPackageFiles_def split: sum.splits)

lemma validate_entries_ok:
  "distinct (map rv_revision es) \<Longrightarrow> set (map rv_revision es) \<inter> set seen = {} \<Longrightarrow> (\<And>e. e \<in> set es \<Longrightarrow> validateRevisionEntry c e False = Inr ())
    \<Longrightarrow> validate_entries c seen es = Inr ()"
  by (induction es arbitrary: seen) (auto simp: throw_if_def)

lemma listed_strip:
  assumes "history_ok c h" and "e \<in> set (index_of h)"
  obtains g where "e = stripPackageFiles g" "readable c (rv_revision e) g" "read_revision c h (rv_revision e) = Inr (Some g)"
    "rv_packageFiles g \<noteq> None"
proof -
  obtain f where f: "rs_entries h (rv_revision e) = Stored f" "e = stripPackageFiles f" using assms by (auto simp: history_ok_def)
  obtain g where g: "reads (rs_entries h) (listed h) (rv_revision e) g" "readable c (rv_revision e) g" "read_revision c h (rv_revision e) = Inr (Some g)"
    using history_reads [OF assms(1), of "rv_revision e"] assms(2) by blast
  hence "stripPackageFiles g = stripPackageFiles f" "rv_packageFiles g \<noteq> None" using f(1) by (auto simp: reads_def)
  thus thesis using that g f(2) by metis
qed

text \<open>What the code relies on from base64, SHA-256 and the text of its digests.\<close>

definition codec_ok :: "'b codec \<Rightarrow> bool" where
  "codec_ok c \<longleftrightarrow> (\<forall>b. co_decode c (co_encode c b) = b) \<and> (\<forall>b. hex64 (co_digest c b)) \<and> (\<forall>ns v. co_hash c ns v \<noteq> [])"

section \<open>A sample history\<close>

text \<open>A package of one file is saved, then its layout is changed without a new package.\<close>

definition sample_codec :: "string codec" where
  "sample_codec = \<lparr>co_encode = \<lambda>b. b, co_decode = \<lambda>s. s, co_digest = \<lambda>_. replicate 64 CHR ''a'',
     co_hash = \<lambda>ns v. ''sha-'' @ ns @ (if jfield ''presentation'' (jfield ''definition'' v) = JUndefined then [] else ''-moved''),
     co_fold = \<lambda>s. s\<rparr>"

definition package_definition :: "(string \<times> json) list \<Rightarrow> json" where
  "package_definition extra = JObj ([(''schemaVersion'', JNum (Finite 2)), (''id'', JStr ''draft''), (''name'', JStr ''Draft''),
     (''resources'', JObj []),
     (''graph'', JObj
        [(''nodes'', JArr
           [JObj [(''id'', JStr ''in''), (''kind'', JStr ''input''), (''outputs'', JObj [(''text'', JStr ''string'')])],
            JObj [(''id'', JStr ''out''), (''kind'', JStr ''output''), (''inputs'', JObj [(''text'', JStr ''string'')])]]),
         (''edges'', JArr [JObj [(''kind'', JStr ''data''), (''from'', JStr ''in.text''), (''to'', JStr ''out.text'')]])])] @ extra)"

definition sample_files :: "string dict" where
  "sample_files = [(''prompts/ask.md'', ''Ask.''), (''notes.md'', ''Notes.'')]"

definition sample_document :: document where
  "sample_document = documentValue sample_codec (package_definition []) sample_files"

definition moved_document :: document where
  "moved_document = documentValue sample_codec (package_definition [(''presentation'', JObj [(''nodes'', JObj [])])]) sample_files"

definition sample_options :: "string append_options" where
  "sample_options = \<lparr>ao_parentRevision = None, ao_origin = OriginCanvas, ao_message = None, ao_packageFiles = Some sample_files\<rparr>"

definition moved_options :: "string append_options" where
  "moved_options = \<lparr>ao_parentRevision = Some (do_documentRevision sample_document), ao_origin = OriginCanvas, ao_message = None,
     ao_packageFiles = None\<rparr>"

definition no_history :: revision_store where
  "no_history = \<lparr>rs_index = Absent, rs_entries = \<lambda>_. Absent, rs_faults = []\<rparr>"

definition sample_history :: revision_store where
  "sample_history = snd (appendRevisionHistory sample_codec (Finite 1) sample_document sample_options no_history)"

definition moved_history :: revision_store where
  "moved_history = snd (appendRevisionHistory sample_codec (Finite 2) moved_document moved_options sample_history)"

lemma sample_document_run:
  "append_ok sample_codec (Finite 1) sample_document sample_options no_history"
  "append_ok sample_codec (Finite 2) moved_document moved_options sample_history"
  "map rv_revision (index_of sample_history) = [do_documentRevision sample_document]"
  "rv_packageFiles (new_entry sample_codec (Finite 2) moved_document moved_options) = None"
  "do_documentRevision moved_document \<noteq> do_documentRevision sample_document"
  "do_semanticRevision moved_document = do_semanticRevision sample_document"
  by code_simp+

lemma sample_codec_ok: "codec_ok sample_codec"
  by (simp add: codec_ok_def sample_codec_def hex64_def list_all_iff)

lemma moved_history_run:
  "fst (appendRevisionHistory sample_codec (Finite 2) moved_document moved_options sample_history)
     = Inr (new_entry sample_codec (Finite 2) moved_document moved_options)"
  "map rv_revision (index_of moved_history) = [do_documentRevision sample_document, do_documentRevision moved_document]"
  "rs_faults sample_history = []"
  by code_simp+

lemma sample_reachable: "revision_history sample_codec no_history" "revision_history sample_codec sample_history"
    "revision_history sample_codec moved_history"
proof -
  show empty: "revision_history sample_codec no_history" unfolding no_history_def by (rule rh_empty)
  show sample: "revision_history sample_codec sample_history"
    unfolding sample_history_def by (rule rh_append [OF empty sample_document_run(1)])
  show "revision_history sample_codec moved_history"
    unfolding moved_history_def by (rule rh_append [OF sample sample_document_run(2)])
qed

text \<open>C18: After any sequence of appends, with any failures of writes and removals on the way, the history is
  listed without error, and every listed revision is read back: the recursion
  through its ancestors ends and gives the entry with package files that pass every check against the
  revisions of its document.\<close>

theorem revisions_readable:
  assumes "revision_history c h"
  shows "readRevisionHistory c h = Inr (index_of h) \<and> (\<forall>e\<in>set (index_of h). \<exists>g. readRevision (2 * length (index_of h) + 1) c h (rv_revision e) = Some (Inr (Some g))
          \<and> stripPackageFiles g = e \<and> rv_packageFiles g \<noteq> None \<and> validateRevisionEntry c g True = Inr ())"
proof (intro conjI ballI)
  have ok: "history_ok c h" by (rule history_sound [OF assms])
  have valid: "validateRevisionEntry c e False = Inr ()" "stripPackageFiles e = e" if "e \<in> set (index_of h)" for e
    using listed_strip [OF ok that] stripped_valid strip_fields(4) by metis+
  have "validate_entries c [] (index_of h) = Inr ()" using ok valid(1) by (intro validate_entries_ok) (simp_all add: history_ok_def)
  thus "readRevisionHistory c h = Inr (index_of h)"
    using valid(2) by (simp add: readRevisionHistory_def index_shape [OF ok] map_idI)
  show "\<exists>g. readRevision (2 * length (index_of h) + 1) c h (rv_revision e) = Some (Inr (Some g))
      \<and> stripPackageFiles g = e \<and> rv_packageFiles g \<noteq> None \<and> validateRevisionEntry c g True = Inr ()" if e: "e \<in> set (index_of h)" for e
  proof -
    obtain g where g: "e = stripPackageFiles g" "readable c (rv_revision e) g" "read_revision c h (rv_revision e) = Inr (Some g)"
      "rv_packageFiles g \<noteq> None" by (rule listed_strip [OF ok e])
    have "readRevision (2 * length (index_of h) + 1) c h (rv_revision e) = Some (Inr (Some g))"
      using g(3) unfolding read_revision_def by (cases "readRevision (2 * length (index_of h) + 1) c h (rv_revision e)") simp_all
    thus ?thesis using g by (auto simp: readable_def)
  qed
qed

theorem revisions_readable_witness:
  "revision_history sample_codec moved_history \<and> length (index_of moved_history) = 2
     \<and> readRevisionHistory sample_codec moved_history = Inr (index_of moved_history)
     \<and> (\<exists>g. readRevision 5 sample_codec moved_history (do_documentRevision moved_document) = Some (Inr (Some g)) \<and> rv_packageFiles g \<noteq> None)"
proof -
  have len: "length (index_of moved_history) = 2" using moved_history_run(2) map_eq_imp_length_eq by fastforce
  moreover have "do_documentRevision moved_document \<in> rv_revision ` set (index_of moved_history)"
    unfolding set_map [symmetric] moved_history_run(2) by simp
  ultimately show ?thesis using revisions_readable [OF sample_reachable(3)] sample_reachable(3) by fastforce
qed

text \<open>C19: An append never changes what a revision reads as. Whatever fails, every revision that is still listed
  reads exactly as before, also when pruning dropped the ancestor that held its package files; the last 99
  revisions stay listed; after success the appended revision is read back, a new one with the files it
  was given or those of its parent; and when nothing fails a new revision leaves at most 120.\<close>

theorem append_preserves:
  assumes "revision_history c h" and "append_ok c now doc opts h" and "appendRevisionHistory c now doc opts h = (res, h')"
  shows "(\<forall>r\<in>listed h \<inter> listed h'. read_revision c h' r = read_revision c h r)
    \<and> set (map rv_revision (drop (length (index_of h) - 99) (index_of h))) \<subseteq> listed h'
    \<and> (\<forall>e. res = Inr e \<longrightarrow> (\<exists>g. read_revision c h' (do_documentRevision doc) = Inr (Some g) \<and> stripPackageFiles g = stripPackageFiles e
          \<and> (do_documentRevision doc \<notin> listed h \<longrightarrow> rv_packageFiles g = append_files c h opts)))
    \<and> (rs_faults h = [] \<and> do_documentRevision doc \<notin> listed h \<longrightarrow> length (index_of h') \<le> 120)"
proof -
  have ok: "history_ok c h" by (rule history_sound [OF assms(1)])
  note cs = append_cases [OF ok assms(2,3)]
  have bound: "rs_faults h = [] \<and> do_documentRevision doc \<notin> listed h \<Longrightarrow> length (index_of h') \<le> 120"
    using append_bound(1) [OF ok assms(2)] assms(3) by simp
  have later: "set (map rv_revision (drop (length (index_of h) - 99) (index_of h))) \<subseteq> listed h" by (auto dest: in_set_dropD)
  show ?thesis
  proof (cases "do_documentRevision doc \<in> listed h")
    case True
    thus ?thesis using cs later by auto
  next
    case new: False
    from cs new consider (quiet) "res = Inl RevisionWriteFailed" "index_of h' = index_of h" "\<forall>r. read_revision c h' r = read_revision c h r"
      | (appended) "new_listed c now doc opts h h'" "res = Inl RevisionWriteFailed \<or> res = Inr (new_entry c now doc opts)" by auto
    thus ?thesis
    proof cases
      case quiet
      thus ?thesis using later bound by auto
    next
      case appended
      obtain kept where kept: "pruned_index (index_of h @ [new_entry c now doc opts]) kept" "index_of h' = map stripPackageFiles kept"
        using appended(1) by (auto simp: new_listed_def)
      have "set (drop (length (index_of h) - 99) (index_of h)) \<subseteq> set kept" using kept(1) by (auto simp: pruned_index_def dest: in_set_dropD)
      hence "set (map rv_revision (drop (length (index_of h) - 99) (index_of h))) \<subseteq> listed h'" unfolding kept(2) by (auto simp: image_image)
      thus ?thesis using appended bound by (auto simp: new_listed_def)
    qed
  qed
qed

theorem append_preserves_witness:
  "\<exists>g. length (index_of moved_history) \<le> 120
     \<and> read_revision sample_codec moved_history (do_documentRevision sample_document) = read_revision sample_codec sample_history (do_documentRevision sample_document)
     \<and> read_revision sample_codec moved_history (do_documentRevision moved_document) = Inr (Some g)
     \<and> rv_packageFiles g = append_files sample_codec sample_history moved_options"
proof -
  let ?run = "appendRevisionHistory sample_codec (Finite 2) moved_document moved_options sample_history"
  have run: "?run = (Inr (new_entry sample_codec (Finite 2) moved_document moved_options), moved_history)"
    using moved_history_run(1) by (simp add: moved_history_def prod_eq_iff)
  have "listed sample_history = {do_documentRevision sample_document}"
    "listed moved_history = {do_documentRevision sample_document, do_documentRevision moved_document}"
    by (simp_all only: set_map [symmetric] sample_document_run(3) moved_history_run(2)) simp_all
  thus ?thesis
    using append_preserves [OF sample_reachable(2) sample_document_run(2) run] sample_document_run(5) moved_history_run(3) by auto
qed

section \<open>Saving and reading back\<close>

lemma validate_closure_iff:
  "validate_closure c names paths = Inr () \<longleftrightarrow> (\<forall>path\<in>set paths. validateClosurePath c path = Inr ()
     \<and> \<not> list_ex (\<lambda>d. d \<in> set names) (parent_paths (split_on CHR ''/'' path)))"
proof (induction paths)
  case (Cons path paths)
  thus ?case by (cases "validateClosurePath c path") (auto simp: throw_if_def)
qed simp

lemma validateFileClosure_sort:
  "validateFileClosure c (map fst (packageFilesValue c files)) = Inr () \<longleftrightarrow> validateFileClosure c (map fst files) = Inr ()"
proof -
  have "set (map fst (packageFilesValue c files)) = set (map fst files)" by (auto simp: packageFilesValue_def image_image case_prod_beta)
  thus ?thesis unfolding validateFileClosure_def validate_closure_iff list_ex_iff by simp
qed

lemma file_digests_value: "file_digests (packageFilesValue c files) = sort_key fst (map (\<lambda>(p, b). (p, co_digest c b)) files)"
proof -
  have m: "(\<lambda>(p, b). (p, f b)) = apsnd f" for f :: "'a \<Rightarrow> string" by auto
  have "file_digests (packageFilesValue c files) = on_values (co_digest c) (sort_key fst files)"
    by (simp add: file_digests_def packageFilesValue_def comp_def case_prod_beta apsnd_def map_prod_def)
  thus ?thesis unfolding m sort_values .
qed

text \<open>The document the code builds from a definition and files is readable with those files.\<close>

lemma document_readable:
  assumes laws: "codec_ok c" and closure: "validateFileClosure c (map fst files) = Inr ()"
    and def: "decodeDefinition (Some (canonicalJson_doc v)) = Inr d" "bd_id d = do_blueprintId (documentValue c v files)" "bd_id d \<noteq> []"
    and opts: "ao_packageFiles opts = Some files" "ao_parentRevision opts \<noteq> Some []" and now: "js_is_finite now"
  shows "append_ok c now (documentValue c v files) opts h"
    "append_files c h opts = Some (packageFilesValue c files)"
proof -
  let ?doc = "documentValue c v files" and ?fs = "packageFilesValue c files"
  let ?g = "(new_entry c now ?doc opts)\<lparr>rv_packageFiles := Some ?fs\<rparr>"
  obtain doc semantic layout where revs: "documentRevisions c v (map (\<lambda>(p, b). (p, co_digest c b)) files) = (doc, semantic, layout)"
    by (metis prod_cases3)
  have d: "do_documentRevision ?doc = doc" "do_semanticRevision ?doc = semantic" "do_layoutRevision ?doc = layout"
    "do_definitionJson ?doc = Some (canonicalJson_doc v)"
    by (simp_all add: documentValue_def revs)
  have nonempty: "doc \<noteq> []" "semantic \<noteq> []" "layout \<noteq> []"
    using revs laws by (auto simp: documentRevisions_def Let_def codec_ok_def)
  have path: "validateClosurePath c p = Inr ()" if "(p, f) \<in> set ?fs" for p f
    using closure [folded validateFileClosure_sort [of c files]] that
    unfolding validateFileClosure_def validate_closure_iff by force
  have pfile: "\<exists>b. f = \<lparr>pf_digest = co_digest c b, pf_base64 = co_encode c b\<rparr>" if "(p, f) \<in> set ?fs" for p f
    using that by (auto simp: packageFilesValue_def)
  have bytes: "list_all (bytes_ok c) ?fs"
    unfolding list_all_iff bytes_ok_def using path pfile laws by (fastforce simp: codec_ok_def Let_def)
  have shape: "package_shape_ok ?fs"
    unfolding package_shape_ok_def list_all_iff using path pfile laws by (fastforce simp: codec_ok_def validateClosurePath_def throw_if_def)
  have "documentRevisions c (canonicalJson_doc v) (file_digests ?fs) = document_revisions_of ?doc"
    unfolding file_digests_value canonicalJson_doc_def documentRevisions_norm revs document_revisions_of_def d ..
  hence "validateRevisionEntry c ?g True = Inr ()"
    using def closure [folded validateFileClosure_sort [of c files]] bytes d
    by (simp add: validateRevisionEntry_def throw_if_def new_entry_def validatePackageFiles_def)
  moreover have "revision_shape_ok ?g"
    using nonempty d now opts def shape by (simp add: revision_shape_ok_def document_shape_ok_def new_entry_def)
  ultimately show "append_ok c now ?doc opts h" "append_files c h opts = Some ?fs"
    using opts by (simp_all add: append_ok_def append_files_def readable_def new_entry_def)
qed

text \<open>C20: Saving a definition with its package and reading the revision back gives exactly the saved bytes of
  every file, in the order of the paths, and the saved definition, whatever the order of keys and files
  was. The codec's laws are that decoding undoes encoding and that digests are 64 hexadecimal digits.\<close>

theorem saved_package_reads:
  assumes "revision_history c h" and "codec_ok c" and "validateFileClosure c (map fst files) = Inr ()"
    and "decodeDefinition (Some (canonicalJson_doc v)) = Inr d" and "bd_id d = do_blueprintId (documentValue c v files)" and "bd_id d \<noteq> []"
    and "ao_packageFiles opts = Some files" and "ao_parentRevision opts \<noteq> Some []" and "js_is_finite now"
    and "do_documentRevision (documentValue c v files) \<notin> listed h"
    and "appendRevisionHistory c now (documentValue c v files) opts h = (Inr e, h')"
  shows "\<exists>g fs. read_revision c h' (rv_revision e) = Inr (Some g) \<and> rv_packageFiles g = Some fs
    \<and> map (apsnd (\<lambda>f. co_decode c (pf_base64 f))) fs = sort_key fst files
    \<and> decodeDefinition (do_definitionJson (rv_document g)) = Inr d"
proof -
  have ok: "history_ok c h" by (rule history_sound [OF assms(1)])
  have a: "append_ok c now (documentValue c v files) opts h" "append_files c h opts = Some (packageFilesValue c files)"
    using document_readable [OF assms(2-9)] by simp_all
  have "e = new_entry c now (documentValue c v files) opts" "new_listed c now (documentValue c v files) opts h h'"
    using append_cases [OF ok a(1) assms(11)] assms(10) by auto
  moreover have "map (apsnd (\<lambda>f. co_decode c (pf_base64 f))) (packageFilesValue c files) = sort_key fst files"
    using assms(2) by (simp add: packageFilesValue_def codec_ok_def comp_def case_prod_beta)
  ultimately show ?thesis
    using a(2) assms(4) by (auto simp: new_listed_def new_entry_def documentValue_def split: prod.splits)
qed

theorem saved_package_reads_witness:
  "\<exists>g fs. read_revision sample_codec sample_history (do_documentRevision sample_document) = Inr (Some g) \<and> rv_packageFiles g = Some fs
     \<and> map (apsnd (\<lambda>f. co_decode sample_codec (pf_base64 f))) fs = [(''notes.md'', ''Notes.''), (''prompts/ask.md'', ''Ask.'')]"
proof -
  have "(case decodeDefinition (Some (canonicalJson_doc (package_definition []))) of Inl _ \<Rightarrow> False
      | Inr d \<Rightarrow> bd_id d = do_blueprintId sample_document \<and> bd_id d \<noteq> [])" by code_simp
  then obtain d where d: "decodeDefinition (Some (canonicalJson_doc (package_definition []))) = Inr d" "bd_id d = do_blueprintId sample_document" "bd_id d \<noteq> []"
    by (auto split: sum.splits)
  have closure: "validateFileClosure sample_codec (map fst sample_files) = Inr ()" by code_simp
  have fresh: "do_documentRevision sample_document \<notin> listed no_history" by (simp add: index_of_def no_history_def)
  have "fst (appendRevisionHistory sample_codec (Finite 1) sample_document sample_options no_history)
      = Inr (new_entry sample_codec (Finite 1) sample_document sample_options)" by code_simp
  hence run: "appendRevisionHistory sample_codec (Finite 1) sample_document sample_options no_history
      = (Inr (new_entry sample_codec (Finite 1) sample_document sample_options), sample_history)"
    by (simp add: sample_history_def prod_eq_iff)
  have opts: "ao_packageFiles sample_options = Some sample_files" "ao_parentRevision sample_options \<noteq> Some []" "js_is_finite (Finite 1)"
    by (simp_all add: sample_options_def)
  have sorted: "sort_key fst sample_files = [(''notes.md'', ''Notes.''), (''prompts/ask.md'', ''Ask.'')]" by code_simp
  have rev: "rv_revision (new_entry sample_codec (Finite 1) sample_document sample_options) = do_documentRevision sample_document"
    by (simp add: new_entry_def)
  show ?thesis
    using saved_package_reads [OF sample_reachable(1) sample_codec_ok closure d(1) d(2) [unfolded sample_document_def] d(3) opts
        fresh [unfolded sample_document_def] run [unfolded sample_document_def]]
    unfolding sorted sample_document_def [symmetric] rev by (elim exE conjE) (intro exI conjI)
qed

section \<open>Ancestors in a circle\<close>

text \<open>C40: An index in which every revision of a set inherits its files from another revision of that set, so
  that the ancestors go in a circle, makes every read of such a revision recurse without end, although the
  walk keeps a set of visited revisions: each level of the recursion starts a new one.\<close>

theorem ancestor_circle_diverges:
  assumes "readRevisionIndex h = Inr es" and "r \<in> K"
    and "\<forall>r\<in>K. \<exists>item e p. List.find (\<lambda>e. rv_revision e = r) es = Some item \<and> loadRevisionEntry h item = Inr e
      \<and> validateRevisionEntry c e False = Inr () \<and> rv_packageFiles e = None \<and> rv_parentRevision e = Some p \<and> p \<in> K - {r}"
  shows "readRevision n c h r = None"
  using assms(2)
proof (induction n arbitrary: r rule: less_induct)
  case (less n)
  obtain item e p where step: "List.find (\<lambda>e. rv_revision e = r) es = Some item" "loadRevisionEntry h item = Inr e"
    "validateRevisionEntry c e False = Inr ()" "rv_packageFiles e = None" "rv_parentRevision e = Some p" "p \<in> K - {r}"
    using assms(3) less.prems by blast
  show ?case
  proof (cases n)
    case (Suc m)
    have "inheritedPackageFiles m c h e [r] = None"
    proof (cases m)
      case (Suc k)
      have "readRevision k c h p = None" using less.IH [of k p] step(6) \<open>n = Suc m\<close> Suc by simp
      thus ?thesis using step(4-6) Suc by (auto simp: rbind_def)
    qed simp
    thus ?thesis using Suc assms(1) step by (simp add: rbind_def)
  qed simp
qed

text \<open>Two layout revisions that name each other as parents pass the check of the history.\<close>

definition circle_entry :: "document \<Rightarrow> document \<Rightarrow> revision_record" where
  "circle_entry doc parent = new_entry sample_codec (Finite 1) doc (moved_options\<lparr>ao_parentRevision := Some (do_documentRevision parent)\<rparr>)"

definition circle_history :: revision_store where
  "circle_history = \<lparr>rs_index = Stored [circle_entry sample_document moved_document, circle_entry moved_document sample_document],
     rs_entries = \<lambda>_. Absent, rs_faults = []\<rparr>"

lemma circle_history_run:
  "readRevisionHistory sample_codec circle_history = Inr (index_of circle_history)"
  "readRevisionIndex circle_history = Inr (index_of circle_history)"
  "validateRevisionEntry sample_codec (circle_entry sample_document moved_document) False = Inr ()"
  "validateRevisionEntry sample_codec (circle_entry moved_document sample_document) False = Inr ()"
  by code_simp+

theorem ancestor_circle_diverges_witness:
  "readRevisionHistory sample_codec circle_history = Inr (index_of circle_history)
     \<and> readRevision 1000 sample_codec circle_history (do_documentRevision sample_document) = None"
proof -
  let ?a = "do_documentRevision sample_document" and ?b = "do_documentRevision moved_document"
  have neq: "?b \<noteq> ?a" by (rule sample_document_run(5))
  have K: "\<forall>r\<in>{?a, ?b}. \<exists>item e p. List.find (\<lambda>e. rv_revision e = r) (index_of circle_history) = Some item
      \<and> loadRevisionEntry circle_history item = Inr e \<and> validateRevisionEntry sample_codec e False = Inr ()
      \<and> rv_packageFiles e = None \<and> rv_parentRevision e = Some p \<and> p \<in> {?a, ?b} - {r}"
    using neq neq [symmetric] circle_history_run(3,4)
    by (auto simp: circle_history_def index_of_def circle_entry_def new_entry_def loadRevisionEntry_def moved_options_def)
  have "readRevision 1000 sample_codec circle_history ?a = None"
    by (rule ancestor_circle_diverges [OF circle_history_run(2) _ K]) simp
  thus ?thesis using circle_history_run(1) by simp
qed

end
