(* ===== verification/PackageStore.thy ===== *)
theory PackageStore
  imports Revisions "HOL-Library.AList"
begin

text \<open>
  Saving a Blueprint package: the document part of \<open>definition/persist.ts\<close>. A save compares the stored
  document revision, appends to the revision history first, and then either renames one staged
  \<open>blueprint.json\<close> or, when it brings package files along, publishes a durable commit intent. Every load
  replays a pending intent before it looks at the package.

  The package directory is a dictionary from relative paths to files and directories. Every change of a
  file or directory consumes one fault of the history's list: it happens, fails before, or fails after it
  happened, so an operation can be interrupted at each of its steps. The document, the intent and the
  history lie at reserved paths that no package path reaches, and are fields of their own. A definition
  is given by its JSON value: decoding keeps a value it accepts as it is. There are no symbolic links, and
  nothing else changes the directory during an operation.
\<close>

section \<open>The package directory\<close>

datatype 'b fs_entry = FileEntry 'b | DirEntry

record definition_commit =
  dc_document :: document
  dc_packageFiles :: "package_file dict"
  dc_cleanup :: "string list"

record 'b package_store =
  pk_blueprint :: "json_text option"
  pk_commit :: "definition_commit stored_file"
  pk_tree :: "'b fs_entry dict"
  pk_history :: revision_store

datatype persist_error =
    DefinitionDocumentMissing | DocumentRevisionConflict "string option" "string option" | DefinitionCommitPending
  | IoWriteFailed | DefinitionUndecodable definition_error | DefinitionRejected "issue list"
  | PackageResourceMissing string | PackageFsError | CommitRejected | HistoryError revision_error

definition pbind :: "('e + 'a) \<times> 's \<Rightarrow> ('a \<Rightarrow> 's \<Rightarrow> ('e + 'c) \<times> 's) \<Rightarrow> ('e + 'c) \<times> 's" where
  "pbind m f = (case m of (Inl e, s) \<Rightarrow> (Inl e, s) | (Inr a, s) \<Rightarrow> f a s)"

lemma pbind_simps [simp]: "pbind (Inl e, s) f = (Inl e, s)" "pbind (Inr a, s) f = f a s"
  by (simp_all add: pbind_def)

definition on_error :: "('e \<Rightarrow> 'f) \<Rightarrow> 'e + 'a \<Rightarrow> 'f + 'a" where
  "on_error f x = (case x of Inl e \<Rightarrow> Inl (f e) | Inr a \<Rightarrow> Inr a)"

lemma on_error_simps [simp]: "on_error f (Inl e) = Inl (f e)" "on_error f (Inr a) = Inr a"
  "on_error f x = Inr a \<longleftrightarrow> x = Inr a"
  by (cases x; simp add: on_error_def)+

text \<open>One change of the disk with its fault.\<close>

definition pk_write :: "('b package_store \<Rightarrow> 'b package_store) \<Rightarrow> 'b package_store \<Rightarrow> (persist_error + unit) \<times> 'b package_store" where
  "pk_write change s =
     (case next_fault (pk_history s) of (f, h) \<Rightarrow>
        let s1 = s\<lparr>pk_history := h\<rparr> in
        case f of
          NoFault \<Rightarrow> (Inr (), change s1)
        | FaultBefore \<Rightarrow> (Inl PackageFsError, s1)
        | FaultAfter \<Rightarrow> (Inl PackageFsError, change s1))"

definition ancestors :: "string \<Rightarrow> string list" where
  "ancestors p = parent_paths (split_on CHR ''/'' p)"

definition under :: "string \<Rightarrow> string \<Rightarrow> bool" where
  "under d p \<longleftrightarrow> take (Suc (length d)) p = d @ ''/''"

definition set_entry :: "string \<Rightarrow> 'b fs_entry \<Rightarrow> 'b package_store \<Rightarrow> 'b package_store" where
  "set_entry p e s = s\<lparr>pk_tree := (p, e) # filter (\<lambda>(q, _). q \<noteq> p) (pk_tree s)\<rparr>"

definition del_entry :: "string \<Rightarrow> 'b package_store \<Rightarrow> 'b package_store" where
  "del_entry p s = s\<lparr>pk_tree := filter (\<lambda>(q, _). q \<noteq> p) (pk_tree s)\<rparr>"

definition is_file :: "'b fs_entry option \<Rightarrow> bool" where
  "is_file x \<longleftrightarrow> (case x of Some (FileEntry _) \<Rightarrow> True | _ \<Rightarrow> False)"

text \<open>Creating missing directories from the outermost one.\<close>

fun make_dirs :: "string list \<Rightarrow> 'b package_store \<Rightarrow> (persist_error + unit) \<times> 'b package_store" where
  "make_dirs [] s = (Inr (), s)"
| "make_dirs (d # ds) s =
     (case map_of (pk_tree s) d of
        Some (FileEntry _) \<Rightarrow> (Inl PackageFsError, s)
      | Some DirEntry \<Rightarrow> make_dirs ds s
      | None \<Rightarrow> pbind (pk_write (set_entry d DirEntry) s) (\<lambda>_. make_dirs ds))"

definition mkdirDurable :: "string \<Rightarrow> 'b package_store \<Rightarrow> (persist_error + unit) \<times> 'b package_store" where
  "mkdirDurable p = make_dirs (ancestors p @ [p])"

definition atomicWriteBytes :: "string \<Rightarrow> 'b \<Rightarrow> 'b package_store \<Rightarrow> (persist_error + unit) \<times> 'b package_store" where
  "atomicWriteBytes p b s =
     pbind (make_dirs (ancestors p) s) (\<lambda>_ s.
       if map_of (pk_tree s) p = Some DirEntry then (Inl PackageFsError, s)
       else pk_write (set_entry p (FileEntry b)) s)"

definition children :: "'b fs_entry dict \<Rightarrow> string \<Rightarrow> string list" where
  "children t d = map fst (filter (\<lambda>(q, _). under d q \<and> CHR ''/'' \<notin> set (drop (Suc (length d)) q)) t)"

text \<open>The fuel bounds the depth of the recursion: a child has a longer path.\<close>

fun removeEmptyDirectory :: "nat \<Rightarrow> string \<Rightarrow> 'b package_store \<Rightarrow> (persist_error + unit) \<times> 'b package_store"
and remove_children :: "nat \<Rightarrow> string list \<Rightarrow> 'b package_store \<Rightarrow> (persist_error + unit) \<times> 'b package_store" where
  "removeEmptyDirectory 0 d s = (Inl PackageFsError, s)"
| "removeEmptyDirectory (Suc n) d s =
     pbind (remove_children n (children (pk_tree s) d) s) (\<lambda>_. pk_write (del_entry d))"
| "remove_children n [] s = (Inr (), s)"
| "remove_children n (q # qs) s =
     (if map_of (pk_tree s) q \<noteq> Some DirEntry then (Inl PackageFsError, s)
      else pbind (removeEmptyDirectory n q s) (\<lambda>_. remove_children n qs))"

definition path_bound :: "'b fs_entry dict \<Rightarrow> nat" where
  "path_bound t = Suc (sum_list (map (length \<circ> fst) t))"

fun clean_files :: "string list \<Rightarrow> string list \<Rightarrow> 'b package_store \<Rightarrow> (persist_error + unit) \<times> 'b package_store" where
  "clean_files names [] s = (Inr (), s)"
| "clean_files names (p # ps) s =
     (if p \<in> set names \<or> \<not> is_file (map_of (pk_tree s) p) then clean_files names ps s
      else pbind (pk_write (del_entry p) s) (\<lambda>_. clean_files names ps))"

fun write_files :: "'b dict \<Rightarrow> 'b package_store \<Rightarrow> (persist_error + unit) \<times> 'b package_store" where
  "write_files [] s = (Inr (), s)"
| "write_files ((p, b) # fs) s =
     pbind (if map_of (pk_tree s) p = Some DirEntry then removeEmptyDirectory (path_bound (pk_tree s)) p s else (Inr (), s)) (\<lambda>_ s.
     pbind (atomicWriteBytes p b s) (\<lambda>_. write_files fs))"

definition applyPackageClosure :: "'b dict \<Rightarrow> string list \<Rightarrow> 'b package_store \<Rightarrow> (persist_error + unit) \<times> 'b package_store" where
  "applyPackageClosure files cleanup s = pbind (clean_files (map fst files) cleanup s) (\<lambda>_. write_files files)"

section \<open>Reading a package\<close>

definition dir_files :: "'b fs_entry dict \<Rightarrow> string \<Rightarrow> 'b dict" where
  "dir_files t d = sort_key fst (concat (map (\<lambda>(q, e). case e of FileEntry b \<Rightarrow> if under d q then [(q, b)] else [] | DirEntry \<Rightarrow> []) t))"

definition collect :: "'b codec \<Rightarrow> 'b fs_entry dict \<Rightarrow> string \<Rightarrow> 'b dict \<Rightarrow> persist_error + 'b dict" where
  "collect c t path files =
     ebind (on_error HistoryError (validateClosurePath c path)) (\<lambda>_.
     case map_of t path of
       Some (FileEntry b) \<Rightarrow> Inr (AList.update path b files)
     | Some DirEntry \<Rightarrow> Inr (fold (\<lambda>(q, b). AList.update q b) (dir_files t path) files)
     | None \<Rightarrow> Inl (if list_ex (\<lambda>d. is_file (map_of t d)) (ancestors path) then PackageFsError else PackageResourceMissing path))"

fun collect_paths :: "'b codec \<Rightarrow> 'b fs_entry dict \<Rightarrow> string list \<Rightarrow> 'b dict \<Rightarrow> persist_error + 'b dict" where
  "collect_paths c t [] files = Inr files"
| "collect_paths c t (p # ps) files = ebind (collect c t p files) (collect_paths c t ps)"

definition resource_paths :: "blueprint_definition \<Rightarrow> string list" where
  "resource_paths d = List.map_filter (rr_path \<circ> snd) (bd_resources d)"

definition readPackageFiles :: "'b codec \<Rightarrow> 'b fs_entry dict \<Rightarrow> blueprint_definition \<Rightarrow> persist_error + 'b dict" where
  "readPackageFiles c t d = collect_paths c t ((if map_of t ''lib'' = None then [] else [''lib'']) @ resource_paths d) []"

section \<open>Commits\<close>

definition decode_valid :: "json_text \<Rightarrow> persist_error + blueprint_definition" where
  "decode_valid text = ebind (on_error DefinitionUndecodable (decodeDefinition text)) (\<lambda>d.
     ebind (on_error DefinitionRejected (validateDefinition d)) (\<lambda>_. Inr d))"

definition commit_bytes :: "'b codec \<Rightarrow> definition_commit \<Rightarrow> 'b dict" where
  "commit_bytes c cm = map (\<lambda>(p, f). (p, co_decode c (pf_base64 f))) (dc_packageFiles cm)"

definition validateDefinitionCommit :: "'b codec \<Rightarrow> definition_commit \<Rightarrow> persist_error + unit" where
  "validateDefinitionCommit c cm =
     ebind (decode_valid (do_definitionJson (dc_document cm))) (\<lambda>_.
     throw_if (\<not> list_all (bytes_ok c) (dc_packageFiles cm) \<or> \<not> list_all (\<lambda>p. validateClosurePath c p = Inr ()) (dc_cleanup cm)) CommitRejected
     (throw_if (documentValue c (the (do_definitionJson (dc_document cm))) (commit_bytes c cm) \<noteq> dc_document cm) CommitRejected (Inr ())))"

text \<open>Declared resources without a captured file were empty directories.\<close>

fun make_empty_resources :: "'b codec \<Rightarrow> string list \<Rightarrow> string list \<Rightarrow> 'b package_store \<Rightarrow> (persist_error + unit) \<times> 'b package_store" where
  "make_empty_resources c names [] s = (Inr (), s)"
| "make_empty_resources c names (p # ps) s =
     (if list_ex (\<lambda>q. q = p \<or> under p q) names then make_empty_resources c names ps s
      else if validateClosurePath c p \<noteq> Inr () then (Inl (HistoryError PackageBoundaryError), s)
      else pbind (mkdirDurable p s) (\<lambda>_. make_empty_resources c names ps))"

definition same_package :: "package_file dict option \<Rightarrow> package_file dict \<Rightarrow> bool" where
  "same_package a b \<longleftrightarrow> map_option (sort_key fst) a = Some (sort_key fst b)"

definition replay :: "'b codec \<Rightarrow> definition_commit \<Rightarrow> 'b package_store \<Rightarrow> (persist_error + unit) \<times> 'b package_store" where
  "replay c cm s =
     (case decode_valid (do_definitionJson (dc_document cm)) of
        Inl e \<Rightarrow> (Inl e, s)
      | Inr d \<Rightarrow>
          pbind (on_error HistoryError (read_revision c (pk_history s) (do_documentRevision (dc_document cm))), s) (\<lambda>found s.
          if \<not> same_package (Option.bind found rv_packageFiles) (dc_packageFiles cm) then (Inl CommitRejected, s)
          else pbind (applyPackageClosure (commit_bytes c cm) (dc_cleanup cm) s) (\<lambda>_ s.
          pbind (make_empty_resources c (map fst (dc_packageFiles cm)) (resource_paths d) s) (\<lambda>_ s.
          pbind (readPackageFiles c (pk_tree s) d, s) (\<lambda>files s.
          if documentValue c (the (do_definitionJson (dc_document cm))) files \<noteq> dc_document cm then (Inl CommitRejected, s)
          else pbind (pk_write (\<lambda>s. s\<lparr>pk_blueprint := Some (do_definitionJson (dc_document cm))\<rparr>) s) (\<lambda>_.
               pk_write (\<lambda>s. s\<lparr>pk_commit := Absent\<rparr>)))))))"

definition recoverDefinitionCommit :: "'b codec \<Rightarrow> 'b package_store \<Rightarrow> (persist_error + unit) \<times> 'b package_store" where
  "recoverDefinitionCommit c s =
     (case pk_commit s of
        Absent \<Rightarrow> (Inr (), s)
      | Stored cm \<Rightarrow>
          (case pbind (validateDefinitionCommit c cm, s) (\<lambda>_. replay c cm) of
             (Inr _, s1) \<Rightarrow> (Inr (), s1)
           | (Inl _, s1) \<Rightarrow> (Inl DefinitionCommitPending, s1))
      | _ \<Rightarrow> (Inl DefinitionCommitPending, s))"

section \<open>Loading and saving\<close>

definition read_package :: "'b codec \<Rightarrow> 'b package_store \<Rightarrow> persist_error + document \<times> 'b dict" where
  "read_package c s =
     (case pk_blueprint s of
        None \<Rightarrow> Inl DefinitionDocumentMissing
      | Some text \<Rightarrow>
          ebind (decode_valid text) (\<lambda>d.
          ebind (readPackageFiles c (pk_tree s) d) (\<lambda>files. Inr (documentValue c (the text) files, files))))"

definition loadDefinitionPackage :: "'b codec \<Rightarrow> 'b package_store \<Rightarrow> (persist_error + document \<times> 'b dict) \<times> 'b package_store" where
  "loadDefinitionPackage c s = pbind (recoverDefinitionCommit c s) (\<lambda>_ s. (read_package c s, s))"

definition loadDefinitionDocument :: "'b codec \<Rightarrow> 'b package_store \<Rightarrow> (persist_error + document) \<times> 'b package_store" where
  "loadDefinitionDocument c s = pbind (loadDefinitionPackage c s) (\<lambda>(doc, _) s. (Inr doc, s))"

record 'b save_request =
  sr_expectedRevision :: "string option"
  sr_definition :: json
  sr_origin :: "revision_origin option"
  sr_message :: "string option"
  sr_packageFiles :: "'b dict option"

definition history_files :: "'b codec \<Rightarrow> 'b save_request \<Rightarrow> document option \<Rightarrow> document \<Rightarrow> 'b dict \<Rightarrow> revision_store
    \<Rightarrow> revision_error + 'b dict option" where
  "history_files c q stored doc files h =
     (case (if sr_packageFiles q = None then stored else None) of
        None \<Rightarrow> Inr (Some files)
      | Some old \<Rightarrow>
          ebind (read_revision c h (do_documentRevision old)) (\<lambda>found.
          Inr (if Option.bind found rv_packageFiles \<noteq> None \<and> do_semanticRevision old = do_semanticRevision doc then None else Some files)))"

definition publish_history ::
  "'b codec \<Rightarrow> js_number \<Rightarrow> 'b save_request \<Rightarrow> document option \<Rightarrow> document \<Rightarrow> 'b dict \<Rightarrow> 'b package_store
     \<Rightarrow> (persist_error + unit) \<times> 'b package_store" where
  "publish_history c now q stored doc files s =
     pbind (on_error HistoryError (history_files c q stored doc files (pk_history s)), s) (\<lambda>own s.
     case appendRevisionHistory c now doc
         \<lparr>ao_parentRevision = map_option do_documentRevision stored,
          ao_origin = (case sr_origin q of None \<Rightarrow> OriginCanvas | Some x \<Rightarrow> x), ao_message = sr_message q, ao_packageFiles = own\<rparr>
         (pk_history s) of
       (Inl e, h) \<Rightarrow> (Inl (HistoryError e), s\<lparr>pk_history := h\<rparr>)
     | (Inr _, h) \<Rightarrow> (Inr (), s\<lparr>pk_history := h\<rparr>))"

definition cleanup_of :: "'b codec \<Rightarrow> 'b fs_entry dict \<Rightarrow> document option \<Rightarrow> persist_error + string list" where
  "cleanup_of c t stored =
     (case stored of
        None \<Rightarrow> Inr []
      | Some old \<Rightarrow>
          ebind (on_error DefinitionUndecodable (decodeDefinition (do_definitionJson old))) (\<lambda>d.
          ebind (readPackageFiles c t d) (\<lambda>files. Inr (map fst files))))"

definition publish_commit ::
  "'b codec \<Rightarrow> document option \<Rightarrow> document \<Rightarrow> 'b dict \<Rightarrow> 'b package_store \<Rightarrow> (persist_error + unit) \<times> 'b package_store" where
  "publish_commit c stored doc files s =
     pbind (cleanup_of c (pk_tree s) stored, s) (\<lambda>cleanup s.
     let cm = \<lparr>dc_document = doc, dc_packageFiles = packageFilesValue c files, dc_cleanup = cleanup\<rparr> in
     pbind (validateDefinitionCommit c cm, s) (\<lambda>_ s.
     pbind (pk_write (\<lambda>s. s\<lparr>pk_commit := Stored cm\<rparr>) s) (\<lambda>_. recoverDefinitionCommit c)))"

text \<open>The body of the \<open>try\<close>; the first change is the staged copy.\<close>

definition save_attempt ::
  "'b codec \<Rightarrow> js_number \<Rightarrow> 'b save_request \<Rightarrow> document option \<Rightarrow> document \<Rightarrow> 'b dict \<Rightarrow> 'b package_store
     \<Rightarrow> (persist_error + unit) \<times> 'b package_store" where
  "save_attempt c now q stored doc files s =
     pbind (pk_write (\<lambda>s. s) s) (\<lambda>_ s.
     pbind (publish_history c now q stored doc files s) (\<lambda>_ s.
     if sr_packageFiles q \<noteq> None then publish_commit c stored doc files s
     else pk_write (\<lambda>s. s\<lparr>pk_blueprint := Some (Some (sr_definition q))\<rparr>) s))"

definition save_from ::
  "'b codec \<Rightarrow> js_number \<Rightarrow> 'b save_request \<Rightarrow> document option \<Rightarrow> 'b package_store \<Rightarrow> (persist_error + document) \<times> 'b package_store" where
  "save_from c now q stored s =
     (if map_option do_documentRevision stored \<noteq> sr_expectedRevision q
      then (Inl (DocumentRevisionConflict (sr_expectedRevision q) (map_option do_documentRevision stored)), s)
      else pbind (decode_valid (Some (sr_definition q)), s) (\<lambda>d s.
        pbind (case sr_packageFiles q of Some fs \<Rightarrow> Inr fs | None \<Rightarrow> readPackageFiles c (pk_tree s) d, s) (\<lambda>files s.
        let doc = documentValue c (sr_definition q) files in
        (case save_attempt c now q stored doc files s of
           (Inr _, s1) \<Rightarrow> (Inr doc, s1)
         | (Inl _, s1) \<Rightarrow> (Inl (if pk_commit s1 \<noteq> Absent then DefinitionCommitPending else IoWriteFailed), s1)))))"

definition saveDefinitionDocument ::
  "'b codec \<Rightarrow> js_number \<Rightarrow> 'b save_request \<Rightarrow> 'b package_store \<Rightarrow> (persist_error + document) \<times> 'b package_store" where
  "saveDefinitionDocument c now q s =
     (case loadDefinitionDocument c s of
        (Inr doc, s1) \<Rightarrow> save_from c now q (Some doc) s1
      | (Inl e, s1) \<Rightarrow> if e = DefinitionDocumentMissing then save_from c now q None s1 else (Inl e, s1))"

end
