(* ===== verification/PackageFacts.thy ===== *)
theory PackageFacts
  imports PackageStore RevisionProperties
begin

text \<open>
  What the operations of a package store keep: the changes of the directory leave documents, intent and
  history alone and touch no file outside the closure, and a replay that ends has put the intended document in
  place.
\<close>

section \<open>Changes of the disk\<close>

definition put_faults :: "write_fault list \<Rightarrow> 'b package_store \<Rightarrow> 'b package_store" where
  "put_faults fs s = s\<lparr>pk_history := (pk_history s)\<lparr>rs_faults := fs\<rparr>\<rparr>"

lemma put_faults_fields [simp]:
  "pk_blueprint (put_faults fs s) = pk_blueprint s" "pk_commit (put_faults fs s) = pk_commit s" "pk_tree (put_faults fs s) = pk_tree s"
  "rs_index (pk_history (put_faults fs s)) = rs_index (pk_history s)" "rs_entries (pk_history (put_faults fs s)) = rs_entries (pk_history s)"
  "rs_faults (pk_history (put_faults fs s)) = fs"
  by (simp_all add: put_faults_def)

lemma put_faults_same: "rs_faults (pk_history s) = fs \<Longrightarrow> put_faults fs s = s"
  by (cases s; cases "pk_history s") (simp add: put_faults_def)

lemma pk_write_cases:
  obtains fs where "pk_write change s \<in> {(Inr (), change (put_faults fs s)), (Inl PackageFsError, put_faults fs s),
      (Inl PackageFsError, change (put_faults fs s))}"
proof (cases "rs_faults (pk_history s)")
  case Nil
  thus thesis using that [of "[]"] put_faults_same [OF Nil] by (simp add: pk_write_def next_fault_def Let_def)
next
  case (Cons f fs)
  thus thesis using that [of fs] by (cases f) (simp_all add: pk_write_def next_fault_def Let_def put_faults_def)
qed

lemma pk_write_no_fault: "rs_faults (pk_history s) = [] \<Longrightarrow> pk_write change s = (Inr (), change s)"
  by (simp add: pk_write_def next_fault_def Let_def)

section \<open>Operations on the directory\<close>

definition files_of :: "'b package_store \<Rightarrow> string \<Rightarrow> 'b option" where
  "files_of s p = (case map_of (pk_tree s) p of Some (FileEntry b) \<Rightarrow> Some b | _ \<Rightarrow> None)"

lemma map_of_other: "map_of (filter (\<lambda>(q, _). q \<noteq> p) t) = (map_of t)(p := None)"
  by (induction t) auto

lemma map_of_entries [simp]:
  "map_of (pk_tree (set_entry p e s)) = (map_of (pk_tree s))(p \<mapsto> e)"
  "map_of (pk_tree (del_entry p s)) = (map_of (pk_tree s))(p := None)"
  by (simp_all add: set_entry_def del_entry_def map_of_other)

text \<open>Paths and the directories they lie in.\<close>

lemma path_cases [case_names name below]:
  assumes "\<And>p. CHR ''/'' \<notin> set p \<Longrightarrow> P p" and "\<And>x p. CHR ''/'' \<notin> set x \<Longrightarrow> P p \<Longrightarrow> P (x @ CHR ''/'' # p)"
  shows "P p"
proof (induction p rule: length_induct)
  case (1 p)
  show ?case
  proof (cases "CHR ''/'' \<in> set p")
    case True
    then obtain x y where p: "p = x @ CHR ''/'' # y" "CHR ''/'' \<notin> set x" by (metis split_list_first)
    hence "P y" using 1 by simp
    thus ?thesis using assms(2) p by blast
  qed (rule assms(1))
qed

lemma split_on_name: "c \<notin> set x \<Longrightarrow> split_on c x = [x]"
  by (induction x) auto

lemma split_on_below: "c \<notin> set x \<Longrightarrow> split_on c (x @ c # p) = x # split_on c p"
  by (induction x) auto

lemma ancestors_name [simp]: "CHR ''/'' \<notin> set x \<Longrightarrow> ancestors x = []"
  by (simp add: ancestors_def split_on_name)

lemma ancestors_below:
  "CHR ''/'' \<notin> set x \<Longrightarrow> ancestors (x @ CHR ''/'' # p) = x # map (\<lambda>s. x @ CHR ''/'' # s) (ancestors p)"
  by (cases "split_on CHR ''/'' p") (simp_all add: ancestors_def split_on_below)

lemma under_iff: "under d p \<longleftrightarrow> (\<exists>s. p = d @ CHR ''/'' # s)"
proof
  assume "under d p"
  hence "p = (d @ ''/'') @ drop (Suc (length d)) p" unfolding under_def by (metis append_take_drop_id)
  thus "\<exists>s. p = d @ CHR ''/'' # s" by auto
qed (auto simp: under_def)

lemma ancestors_under [simp]: "d \<in> set (ancestors p) \<longleftrightarrow> under d p"
proof (induction p arbitrary: d rule: path_cases)
  case (name p)
  thus ?case by (auto simp: under_iff)
next
  case (below x p)
  have "(\<exists>s. x @ CHR ''/'' # p = d @ CHR ''/'' # s) \<longleftrightarrow> d = x \<or> (\<exists>d'. d = x @ CHR ''/'' # d' \<and> (\<exists>s. p = d' @ CHR ''/'' # s))"
    using below(1) by (fastforce simp: append_eq_append_conv2 append_eq_Cons_conv Cons_eq_append_conv)
  thus ?case using below by (auto simp: ancestors_below under_iff image_iff)
qed

lemma under_trans: "under a b \<Longrightarrow> under b c \<Longrightarrow> under a c"
  by (auto simp: under_iff)

lemma under_length: "under a b \<Longrightarrow> length a < length b"
  by (auto simp: under_iff)

lemma under_irrefl [simp]: "\<not> under a a"
  using under_length by blast

lemma under_chain: "under a p \<Longrightarrow> under b p \<Longrightarrow> a = b \<or> under a b \<or> under b a"
  by (auto simp: under_iff append_eq_append_conv2 append_eq_Cons_conv Cons_eq_append_conv)

text \<open>The directories of a path come from the outside in.\<close>

definition nested :: "string list \<Rightarrow> bool" where
  "nested ds \<longleftrightarrow> (\<forall>i<length ds. ancestors (ds ! i) = take i ds)"

lemma nested_path: "nested (ancestors p @ [p])"
proof (induction p rule: path_cases)
  case (name p)
  thus ?case by (simp add: nested_def)
next
  case (below x p)
  have "ancestors ((x # map (\<lambda>s. x @ CHR ''/'' # s) (ancestors p @ [p])) ! i) = take i (x # map (\<lambda>s. x @ CHR ''/'' # s) (ancestors p @ [p]))"
    if "i < Suc (length (ancestors p @ [p]))" for i
    using that below by (cases i) (auto simp: nested_def ancestors_below take_map nth_append less_Suc_eq split: if_splits)
  thus ?case using below(1) unfolding nested_def ancestors_below [OF below(1)] by auto
qed

lemma nested_append: "nested (ds @ es) \<Longrightarrow> nested ds"
  unfolding nested_def by (metis append_eq_conv_conj length_append nth_append order_less_imp_le take_append take_all_iff trans_less_add1 append_Nil2 diff_is_0_eq take_0)

text \<open>Everything in the directory lies in directories.\<close>

definition inside :: "(string \<rightharpoonup> 'b fs_entry) \<Rightarrow> bool" where
  "inside m \<longleftrightarrow> (\<forall>p a. m p \<noteq> None \<longrightarrow> under a p \<longrightarrow> m a = Some DirEntry)"

definition tree_ok :: "'b fs_entry dict \<Rightarrow> bool" where
  "tree_ok t \<longleftrightarrow> distinct (map fst t) \<and> inside (map_of t)"

lemma tree_okD: "tree_ok t \<Longrightarrow> map_of t p = Some e \<Longrightarrow> under a p \<Longrightarrow> map_of t a = Some DirEntry"
  unfolding tree_ok_def inside_def by blast

lemma distinct_entries:
  "distinct (map fst (pk_tree s)) \<Longrightarrow> distinct (map fst (pk_tree (set_entry p e s)))"
  "distinct (map fst (pk_tree s)) \<Longrightarrow> distinct (map fst (pk_tree (del_entry p s)))"
  by (auto simp: set_entry_def del_entry_def distinct_map_filter)

lemma inside_upd:
  assumes "inside m" and "\<And>a. under a p \<Longrightarrow> m a = Some DirEntry" and "e = DirEntry \<or> m p \<noteq> Some DirEntry"
  shows "inside (m(p \<mapsto> e))"
  using assms unfolding inside_def by (metis fun_upd_apply option.distinct(1) under_irrefl)

lemma inside_del: "inside m \<Longrightarrow> (\<And>q. under p q \<Longrightarrow> m q = None) \<Longrightarrow> inside (m(p := None))"
  unfolding inside_def by (metis fun_upd_apply)

lemma tree_ok_set:
  "tree_ok (pk_tree s) \<Longrightarrow> (\<And>a. under a p \<Longrightarrow> map_of (pk_tree s) a = Some DirEntry)
    \<Longrightarrow> e = DirEntry \<or> map_of (pk_tree s) p \<noteq> Some DirEntry \<Longrightarrow> tree_ok (pk_tree (set_entry p e s))"
  unfolding tree_ok_def map_of_entries by (blast intro: distinct_entries inside_upd)

lemma tree_ok_del:
  "tree_ok (pk_tree s) \<Longrightarrow> (\<And>q. under p q \<Longrightarrow> map_of (pk_tree s) q = None) \<Longrightarrow> tree_ok (pk_tree (del_entry p s))"
  unfolding tree_ok_def map_of_entries by (blast intro: distinct_entries inside_del)

text \<open>A change of the directory during a replay of the files \<open>F\<close> that may remove the files \<open>C\<close>.\<close>

definition same_docs :: "'b package_store \<Rightarrow> 'b package_store \<Rightarrow> bool" where
  "same_docs s t \<longleftrightarrow> pk_blueprint t = pk_blueprint s \<and> pk_commit t = pk_commit s
     \<and> rs_index (pk_history t) = rs_index (pk_history s) \<and> rs_entries (pk_history t) = rs_entries (pk_history s)"

definition dir_step :: "string set \<Rightarrow> 'b dict \<Rightarrow> 'b package_store \<Rightarrow> 'b package_store \<Rightarrow> bool" where
  "dir_step C F s t \<longleftrightarrow> same_docs s t \<and> (tree_ok (pk_tree s) \<longrightarrow> tree_ok (pk_tree t))
     \<and> (\<forall>p. files_of t p = files_of s p \<or> p \<in> C \<and> files_of t p = None \<or> (\<exists>b. (p, b) \<in> set F \<and> files_of t p = Some b))"

lemma dir_step_refl [simp]: "dir_step C F s s"
  by (simp add: dir_step_def same_docs_def)

lemma dir_step_trans: "dir_step C F s t \<Longrightarrow> dir_step C F t u \<Longrightarrow> dir_step C F s u"
  unfolding dir_step_def same_docs_def by (intro conjI allI) (metis)+

lemma files_put_faults [simp]: "files_of (put_faults fs s) = files_of s"
  by (simp add: files_of_def fun_eq_iff)

lemma dir_step_faults [simp]: "dir_step C F s (put_faults fs s)"
  by (simp add: dir_step_def same_docs_def)

lemma files_of_set: "files_of (set_entry p e s) = (files_of s)(p := (case e of FileEntry b \<Rightarrow> Some b | DirEntry \<Rightarrow> None))"
  by (auto simp: files_of_def fun_eq_iff split: fs_entry.splits)

lemma files_of_del: "files_of (del_entry p s) = (files_of s)(p := None)"
  by (auto simp: files_of_def fun_eq_iff)

lemma same_docs_entries [simp]: "same_docs s (set_entry p e s)" "same_docs s (del_entry p s)"
  by (simp_all add: same_docs_def set_entry_def del_entry_def)

lemma files_none: "files_of s p = None \<longleftrightarrow> map_of (pk_tree s) p \<in> {None, Some DirEntry}"
  by (auto simp: files_of_def split: option.splits fs_entry.splits)

lemma write_step:
  assumes "\<And>fs. dir_step C F (put_faults fs s) (change (put_faults fs s))"
  shows "dir_step C F s (snd (pk_write change s))"
proof -
  obtain fs where "pk_write change s \<in> {(Inr (), change (put_faults fs s)), (Inl PackageFsError, put_faults fs s),
      (Inl PackageFsError, change (put_faults fs s))}" by (rule pk_write_cases)
  thus ?thesis using dir_step_trans [OF dir_step_faults assms] by auto
qed

text \<open>One change, with what it makes of the file table when it succeeds.\<close>

lemma write_entry:
  assumes "pk_write change s = (res, t)" and "\<And>fs. dir_step C F (put_faults fs s) (change (put_faults fs s))"
    and "\<And>fs. map_of (pk_tree (change (put_faults fs s))) = m"
  shows "dir_step C F s t" "map_of (pk_tree t) = m \<or> res \<noteq> Inr () \<and> map_of (pk_tree t) = map_of (pk_tree s)"
    "rs_faults (pk_history s) = [] \<Longrightarrow> res = Inr () \<and> t = change s"
proof -
  obtain fs where w: "pk_write change s \<in> {(Inr (), change (put_faults fs s)), (Inl PackageFsError, put_faults fs s),
      (Inl PackageFsError, change (put_faults fs s))}" by (rule pk_write_cases)
  show "dir_step C F s t" using write_step [of C F s change] assms(1,2) by simp
  show "map_of (pk_tree t) = m \<or> res \<noteq> Inr () \<and> map_of (pk_tree t) = map_of (pk_tree s)" using w assms(1,3) by auto
  show "rs_faults (pk_history s) = [] \<Longrightarrow> res = Inr () \<and> t = change s" using assms(1) pk_write_no_fault [of s change] by simp
qed

lemma step_set:
  assumes "tree_ok (pk_tree s) \<Longrightarrow> (\<And>a. under a p \<Longrightarrow> map_of (pk_tree s) a = Some DirEntry)"
    and "case e of DirEntry \<Rightarrow> map_of (pk_tree s) p = None | FileEntry b \<Rightarrow> map_of (pk_tree s) p \<noteq> Some DirEntry \<and> (p, b) \<in> set F"
  shows "dir_step C F s (set_entry p e s)"
proof -
  have "files_of s p = None" if "e = DirEntry" using assms(2) that by (simp add: files_of_def)
  hence "files_of (set_entry p e s) q = files_of s q \<or> q \<in> C \<and> files_of (set_entry p e s) q = None
      \<or> (\<exists>b. (q, b) \<in> set F \<and> files_of (set_entry p e s) q = Some b)" for q
    using assms(2) by (cases e) (auto simp: files_of_set)
  moreover have "tree_ok (pk_tree (set_entry p e s))" if "tree_ok (pk_tree s)"
    using tree_ok_set [OF that assms(1) [OF that]] assms(2) by (cases e) auto
  ultimately show ?thesis by (simp add: dir_step_def)
qed

lemma step_del:
  assumes "tree_ok (pk_tree s) \<Longrightarrow> (\<And>q. under p q \<Longrightarrow> map_of (pk_tree s) q = None)" and "p \<in> C \<or> files_of s p = None"
  shows "dir_step C F s (del_entry p s)"
  using assms tree_ok_del [of s p] by (auto simp: dir_step_def files_of_del)

lemma make_dirs_step:
  assumes "nested (pre @ ds)" and "\<forall>a\<in>set pre. map_of (pk_tree s) a = Some DirEntry" and "make_dirs ds s = (res, t)"
  shows "dir_step C F s t \<and> (\<forall>q. map_of (pk_tree t) q = map_of (pk_tree s) q \<or> q \<in> set ds \<and> map_of (pk_tree s) q = None \<and> map_of (pk_tree t) q = Some DirEntry)
    \<and> (res = Inr () \<longrightarrow> (\<forall>a\<in>set (pre @ ds). map_of (pk_tree t) a = Some DirEntry))
    \<and> (rs_faults (pk_history s) = [] \<and> (\<forall>d\<in>set ds. files_of s d = None) \<longrightarrow> res = Inr () \<and> rs_faults (pk_history t) = [])"
  using assms
proof (induction ds arbitrary: pre s)
  case (Cons d ds)
  have "ancestors d = pre" using Cons.prems(1) [unfolded nested_def, rule_format, of "length pre"] by simp
  hence anc: "set (ancestors d) = set pre" by simp
  have nest: "nested ((pre @ [d]) @ ds)" using Cons.prems(1) by simp
  show ?case
  proof (cases "map_of (pk_tree s) d")
    case None
    obtain r s1 where w: "pk_write (set_entry d DirEntry) s = (r, s1)" by fastforce
    have up: "map_of (pk_tree s) a = Some DirEntry" if "under a d" for a using that anc Cons.prems(2) by (metis ancestors_under)
    note e = write_entry [OF w, where m = "(map_of (pk_tree s))(d \<mapsto> DirEntry)", where C = C and F = F]
    have st: "dir_step C F s s1" by (rule e(1)) (use up None in \<open>auto intro!: step_set\<close>)
    have m: "map_of (pk_tree s1) = (map_of (pk_tree s))(d \<mapsto> DirEntry) \<or> r \<noteq> Inr () \<and> map_of (pk_tree s1) = map_of (pk_tree s)"
      by (rule e(2)) (use up None in \<open>auto intro!: step_set\<close>)
    have nf: "r = Inr () \<and> s1 = set_entry d DirEntry s" if "rs_faults (pk_history s) = []"
      by (rule e(3)) (use up None that in \<open>auto intro!: step_set\<close>)
    show ?thesis
    proof (cases r)
      case (Inl x)
      thus ?thesis using Cons.prems(3) None w st m nf by (auto split: if_splits)
    next
      case (Inr u)
      hence m1: "map_of (pk_tree s1) = (map_of (pk_tree s))(d \<mapsto> DirEntry)" using m by auto
      have go: "make_dirs ds s1 = (res, t)" using Cons.prems(3) None w Inr by simp
      have pre: "\<forall>a\<in>set (pre @ [d]). map_of (pk_tree s1) a = Some DirEntry" using Cons.prems(2) m1 by auto
      note ih = Cons.IH [OF nest pre go]
      have "files_of s1 q = files_of s q" for q using m1 None by (simp add: files_of_def)
      moreover have "rs_faults (pk_history s1) = []" if "rs_faults (pk_history s) = []" using nf [OF that] that by (simp add: set_entry_def)
      ultimately show ?thesis using ih dir_step_trans [OF st] m1 None by (auto simp: fun_upd_apply split: if_splits)
    qed
  next
    case (Some e)
    show ?thesis
    proof (cases e)
      case (FileEntry b)
      thus ?thesis using Cons.prems(3) Some by (auto simp: files_of_def)
    next
      case DirEntry
      hence go: "make_dirs ds s = (res, t)" and pre: "\<forall>a\<in>set (pre @ [d]). map_of (pk_tree s) a = Some DirEntry" using Cons.prems(2,3) Some by auto
      show ?thesis using Cons.IH [OF nest pre go] by auto
    qed
  qed
qed simp

lemma atomicWrite_step:
  assumes "(p, b) \<in> set F" and "atomicWriteBytes p b s = (res, t)"
  shows "dir_step C F s t"
    "map_of (pk_tree t) q = map_of (pk_tree s) q \<or> under q p \<and> map_of (pk_tree t) q = Some DirEntry \<or> q = p \<and> map_of (pk_tree t) q = Some (FileEntry b)"
    "res = Inr () \<Longrightarrow> map_of (pk_tree t) p = Some (FileEntry b)"
    "rs_faults (pk_history s) = [] \<Longrightarrow> (\<And>a. under a p \<Longrightarrow> files_of s a = None) \<Longrightarrow> map_of (pk_tree s) p \<noteq> Some DirEntry
       \<Longrightarrow> res = Inr () \<and> rs_faults (pk_history t) = []"
proof -
  obtain r s1 where mk: "make_dirs (ancestors p) s = (r, s1)" by fastforce
  have "nested ([] @ ancestors p)" using nested_path [of p] nested_append by simp
  note m = make_dirs_step [OF this _ mk, of C F, simplified]
  have p: "map_of (pk_tree s1) p = map_of (pk_tree s) p" using m under_irrefl by blast
  have run: "(res, t) = pbind (r, s1) (\<lambda>_ s. if map_of (pk_tree s) p = Some DirEntry then (Inl PackageFsError, s) else pk_write (set_entry p (FileEntry b)) s)"
    using assms(2) mk by (simp add: atomicWriteBytes_def)
  have "dir_step C F s t
    \<and> (map_of (pk_tree t) q = map_of (pk_tree s) q \<or> under q p \<and> map_of (pk_tree t) q = Some DirEntry \<or> q = p \<and> map_of (pk_tree t) q = Some (FileEntry b))
    \<and> (res = Inr () \<longrightarrow> map_of (pk_tree t) p = Some (FileEntry b))
    \<and> (rs_faults (pk_history s) = [] \<and> (\<forall>a. under a p \<longrightarrow> files_of s a = None) \<and> map_of (pk_tree s) p \<noteq> Some DirEntry
       \<longrightarrow> res = Inr () \<and> rs_faults (pk_history t) = [])"
  proof (cases "r = Inr () \<and> map_of (pk_tree s1) p \<noteq> Some DirEntry")
    case False
    hence "t = s1" "res \<noteq> Inr ()" using run by (cases r; auto split: if_splits)+
    thus ?thesis using m p False by (cases "r = Inr ()") auto
  next
    case True
    obtain r2 s2 where w: "pk_write (set_entry p (FileEntry b)) s1 = (r2, s2)" by fastforce
    hence rt: "res = r2" "t = s2" using run True by simp_all
    have step: "dir_step C F (put_faults fs s1) (set_entry p (FileEntry b) (put_faults fs s1))" for fs
      using m True assms(1) by (intro step_set) simp_all
    have tab: "map_of (pk_tree (set_entry p (FileEntry b) (put_faults fs s1))) = (map_of (pk_tree s1))(p \<mapsto> FileEntry b)" for fs
      by simp
    note e = write_entry [OF w step tab]
    have "rs_faults (pk_history (set_entry p (FileEntry b) s1)) = rs_faults (pk_history s1)" by (simp add: set_entry_def)
    thus ?thesis using e m True rt dir_step_trans [OF conjunct1 [OF m] e(1)] by (auto split: if_splits)
  qed
  thus "dir_step C F s t"
    "map_of (pk_tree t) q = map_of (pk_tree s) q \<or> under q p \<and> map_of (pk_tree t) q = Some DirEntry \<or> q = p \<and> map_of (pk_tree t) q = Some (FileEntry b)"
    "res = Inr () \<Longrightarrow> map_of (pk_tree t) p = Some (FileEntry b)"
    "rs_faults (pk_history s) = [] \<Longrightarrow> (\<And>a. under a p \<Longrightarrow> files_of s a = None) \<Longrightarrow> map_of (pk_tree s) p \<noteq> Some DirEntry
       \<Longrightarrow> res = Inr () \<and> rs_faults (pk_history t) = []" by blast+
qed

section \<open>Removing directories\<close>

text \<open>What a removal of the directories at and below some paths does; no file is touched.\<close>

definition at_or_under :: "string set \<Rightarrow> string \<Rightarrow> bool" where
  "at_or_under D q \<longleftrightarrow> (\<exists>d\<in>D. q = d \<or> under d q)"

definition dirs_removed :: "string set \<Rightarrow> 'b package_store \<Rightarrow> 'b package_store \<Rightarrow> bool" where
  "dirs_removed D s t \<longleftrightarrow> same_docs s t \<and> (tree_ok (pk_tree s) \<longrightarrow> tree_ok (pk_tree t))
     \<and> (\<forall>q. map_of (pk_tree t) q = map_of (pk_tree s) q
          \<or> at_or_under D q \<and> map_of (pk_tree s) q = Some DirEntry \<and> map_of (pk_tree t) q = None)"

lemma dirs_removed_refl [simp]: "dirs_removed D s s"
  by (simp add: dirs_removed_def same_docs_def)

lemma dirs_removed_trans: "dirs_removed D s t \<Longrightarrow> dirs_removed E t u \<Longrightarrow> dirs_removed (D \<union> E) s u"
proof -
  assume a: "dirs_removed D s t" "dirs_removed E t u"
  have "at_or_under D q \<Longrightarrow> at_or_under (D \<union> E) q" "at_or_under E q \<Longrightarrow> at_or_under (D \<union> E) q" for q
    by (auto simp: at_or_under_def)
  thus ?thesis using a unfolding dirs_removed_def same_docs_def by (intro conjI allI; metis)
qed

lemma dirs_removed_files: "dirs_removed D s t \<Longrightarrow> files_of t = files_of s"
proof (rule ext)
  assume a: "dirs_removed D s t"
  fix q
  have "map_of (pk_tree t) q = map_of (pk_tree s) q \<or> map_of (pk_tree s) q = Some DirEntry \<and> map_of (pk_tree t) q = None"
    using a unfolding dirs_removed_def by blast
  thus "files_of t q = files_of s q" by (auto simp: files_of_def)
qed

lemma dirs_removed_step: "dirs_removed D s t \<Longrightarrow> dir_step C F s t"
  using dirs_removed_files [of D s t] by (simp add: dir_step_def dirs_removed_def)

text \<open>Paths below a directory go through one of its children.\<close>

lemma children_iff: "q \<in> set (children t d) \<longleftrightarrow> (\<exists>x. q = d @ CHR ''/'' # x \<and> CHR ''/'' \<notin> set x) \<and> map_of t q \<noteq> None"
proof -
  have "map_of t q \<noteq> None \<longleftrightarrow> (\<exists>e. (q, e) \<in> set t)" by (force simp: map_of_eq_None_iff)
  thus ?thesis by (force simp: children_def under_iff)
qed

lemma below_child:
  assumes "tree_ok t" and "under d q" and "map_of t q \<noteq> None"
  shows "at_or_under (set (children t d)) q"
proof -
  obtain y where y: "q = d @ CHR ''/'' # y" using assms(2) by (auto simp: under_iff)
  show ?thesis
  proof (cases "CHR ''/'' \<in> set y")
    case True
    then obtain x z where x: "y = x @ CHR ''/'' # z" "CHR ''/'' \<notin> set x" by (metis split_list_first)
    have "under (d @ CHR ''/'' # x) q" unfolding y x under_iff by auto
    moreover from this have "map_of t (d @ CHR ''/'' # x) \<noteq> None" using assms(1,3) by (auto dest: tree_okD)
    ultimately show ?thesis using x(2) unfolding at_or_under_def by (metis children_iff)
  next
    case False
    thus ?thesis using assms(3) y unfolding at_or_under_def by (metis children_iff)
  qed
qed

lemma children_apart:
  assumes "a \<in> set (children t d)" and "b \<in> set (children t d)"
  shows "\<not> under a b"
proof
  assume "under a b"
  then obtain s where "b = a @ CHR ''/'' # s" by (auto simp: under_iff)
  thus False using assms by (auto simp: children_iff)
qed

lemma del_dir:
  assumes "pk_write (del_entry d) s = (res, t)" and "files_of s d = None"
    and "tree_ok (pk_tree s) \<Longrightarrow> (\<And>q. under d q \<Longrightarrow> map_of (pk_tree s) q = None)"
  shows "dirs_removed {d} s t" "res = Inr () \<Longrightarrow> map_of (pk_tree t) = (map_of (pk_tree s))(d := None)"
    "rs_faults (pk_history s) = [] \<Longrightarrow> res = Inr () \<and> rs_faults (pk_history t) = []"
proof -
  obtain fs where w: "pk_write (del_entry d) s \<in> {(Inr (), del_entry d (put_faults fs s)), (Inl PackageFsError, put_faults fs s),
      (Inl PackageFsError, del_entry d (put_faults fs s))}" by (rule pk_write_cases)
  have "dirs_removed {d} s (put_faults fs s)" by (simp add: dirs_removed_def same_docs_def)
  moreover have "dirs_removed {d} s (del_entry d (put_faults fs s))"
  proof -
    have "tree_ok (pk_tree (del_entry d (put_faults fs s)))" if "tree_ok (pk_tree s)"
      using tree_ok_del [of "put_faults fs s" d] assms(3) [OF that] that by simp
    moreover have "same_docs s (del_entry d (put_faults fs s))" by (simp add: same_docs_def del_entry_def)
    ultimately show ?thesis using assms(2) by (auto simp: dirs_removed_def files_none at_or_under_def)
  qed
  ultimately show "dirs_removed {d} s t" using w assms(1) by auto
  show "res = Inr () \<Longrightarrow> map_of (pk_tree t) = (map_of (pk_tree s))(d := None)" using w assms(1) by auto
  show "res = Inr () \<and> rs_faults (pk_history t) = []" if "rs_faults (pk_history s) = []"
    using pk_write_no_fault [OF that, of "del_entry d"] assms(1) that by (simp add: del_entry_def)
qed

definition removable :: "nat \<Rightarrow> 'b package_store \<Rightarrow> string \<Rightarrow> bool" where
  "removable n s d \<longleftrightarrow> 0 < n \<and> map_of (pk_tree s) d = Some DirEntry
     \<and> (\<forall>q. under d q \<longrightarrow> files_of s q = None \<and> (map_of (pk_tree s) q \<noteq> None \<longrightarrow> length q < n + length d))"

lemma removable_child:
  assumes "removable (Suc n) s d" and q: "q \<in> set (children (pk_tree s) d)"
  shows "removable n s q"
proof -
  have dq: "under d q" "map_of (pk_tree s) q \<noteq> None" using q by (auto simp: children_iff under_iff)
  hence "files_of s q = None" "length q < Suc n + length d" "length d < length q" using assms(1) under_length by (auto simp: removable_def)
  moreover have "files_of s r = None \<and> (map_of (pk_tree s) r \<noteq> None \<longrightarrow> length r < n + length q)" if "under q r" for r
  proof -
    have "under d r" using dq(1) that by (rule under_trans)
    hence "files_of s r = None \<and> (map_of (pk_tree s) r \<noteq> None \<longrightarrow> length r < Suc n + length d)" using assms(1) by (auto simp: removable_def)
    thus ?thesis using \<open>length d < length q\<close> by auto
  qed
  ultimately show ?thesis using dq(2) by (auto simp: removable_def files_none)
qed

lemma removable_later:
  assumes "removable n s d" and "dirs_removed E s t" and "\<not> at_or_under E d"
  shows "removable n t d"
  using assms dirs_removed_files [OF assms(2)] unfolding removable_def dirs_removed_def by metis

lemma removal:
  shows "removeEmptyDirectory n d s = (res, t) \<Longrightarrow> files_of s d = None \<Longrightarrow> dirs_removed {d} s t
      \<and> (res = Inr () \<and> tree_ok (pk_tree s) \<longrightarrow> (\<forall>q. at_or_under {d} q \<longrightarrow> map_of (pk_tree t) q = None))
      \<and> (rs_faults (pk_history s) = [] \<and> tree_ok (pk_tree s) \<and> removable n s d \<longrightarrow> res = Inr () \<and> rs_faults (pk_history t) = [])"
    and "remove_children n qs s = (res, t) \<Longrightarrow> dirs_removed (set qs) s t
      \<and> (res = Inr () \<and> tree_ok (pk_tree s) \<longrightarrow> (\<forall>q. at_or_under (set qs) q \<longrightarrow> map_of (pk_tree t) q = None))
      \<and> (rs_faults (pk_history s) = [] \<and> tree_ok (pk_tree s) \<and> distinct qs \<and> (\<forall>a\<in>set qs. removable n s a \<and> (\<forall>b\<in>set qs. \<not> under a b))
           \<longrightarrow> res = Inr () \<and> rs_faults (pk_history t) = [])"
proof (induction n d s and n qs s arbitrary: res t and res t rule: removeEmptyDirectory_remove_children.induct)
  case (1 d s)
  thus ?case by (auto simp: removable_def)
next
  case (2 n d s)
  let ?cs = "children (pk_tree s) d"
  obtain r s1 where ch: "remove_children n ?cs s = (r, s1)" by fastforce
  note ih = "2.IH" [OF ch]
  have keep: "\<not> at_or_under (set ?cs) d" using under_length by (fastforce simp: at_or_under_def children_iff under_iff)
  have d1: "dirs_removed {d} s s1"
  proof -
    have "at_or_under (set ?cs) q \<Longrightarrow> at_or_under {d} q" for q
      using under_trans by (fastforce simp: at_or_under_def children_iff under_iff)
    thus ?thesis using ih unfolding dirs_removed_def by blast
  qed
  have same: "map_of (pk_tree s1) d = map_of (pk_tree s) d" using ih keep unfolding dirs_removed_def by blast
  have gone: "map_of (pk_tree s1) q = None" if "tree_ok (pk_tree s)" "r = Inr ()" "under d q" for q
  proof (cases "map_of (pk_tree s) q")
    case None
    thus ?thesis using ih unfolding dirs_removed_def by metis
  next
    case (Some e)
    thus ?thesis using below_child [OF that(1,3)] ih that(1,2) by simp
  qed
  have dist: "distinct ?cs" if "tree_ok (pk_tree s)"
    using that unfolding tree_ok_def children_def by (simp add: distinct_map_filter)
  have prog: "r = Inr () \<and> rs_faults (pk_history s1) = []"
    if "rs_faults (pk_history s) = []" "tree_ok (pk_tree s)" "removable (Suc n) s d"
    using ih that dist removable_child children_apart by blast
  show ?case
  proof (cases r)
    case (Inl e)
    thus ?thesis using "2.prems" ch d1 prog by auto
  next
    case (Inr u)
    hence w: "pk_write (del_entry d) s1 = (res, t)" and r: "r = Inr ()" using "2.prems"(1) ch by simp_all
    have none: "files_of s1 d = None" using "2.prems"(2) dirs_removed_files [OF d1] by simp
    show ?thesis
    proof (cases "tree_ok (pk_tree s)")
      case True
      note e = del_dir [OF w none gone [OF True r]]
      have "dirs_removed {d} s t" using dirs_removed_trans [OF d1 e(1)] by simp
      thus ?thesis using e(2,3) gone [OF True r] prog by (auto simp: at_or_under_def)
    next
      case False
      obtain fs where "pk_write (del_entry d) s1 \<in> {(Inr (), del_entry d (put_faults fs s1)), (Inl PackageFsError, put_faults fs s1),
          (Inl PackageFsError, del_entry d (put_faults fs s1))}" by (rule pk_write_cases)
      note x = this
      have "same_docs s1 t" using x w by (auto simp: same_docs_def del_entry_def)
      moreover have "map_of (pk_tree t) = map_of (pk_tree s1) \<or> map_of (pk_tree t) = (map_of (pk_tree s1))(d := None)"
        using x w by auto
      moreover have "map_of (pk_tree t) q = map_of (pk_tree s) q
          \<or> at_or_under {d} q \<and> map_of (pk_tree s) q = Some DirEntry \<and> map_of (pk_tree t) q = None" for q
      proof (cases "q = d")
        case True
        thus ?thesis using calculation(2) same "2.prems"(2) by (auto simp: files_none at_or_under_def)
      next
        case False
        hence "map_of (pk_tree t) q = map_of (pk_tree s1) q" using calculation(2) by auto
        thus ?thesis using d1 unfolding dirs_removed_def by metis
      qed
      ultimately have "dirs_removed {d} s t" using d1 False unfolding dirs_removed_def same_docs_def by simp
      thus ?thesis using False by simp
    qed
  qed
next
  case (3 n s)
  thus ?case by (simp add: at_or_under_def)
next
  case (4 n q qs s)
  show ?case
  proof (cases "map_of (pk_tree s) q = Some DirEntry")
    case False
    thus ?thesis using "4.prems" by (auto simp: removable_def)
  next
    case True
    obtain r s1 where rm: "removeEmptyDirectory n q s = (r, s1)" by fastforce
    have none: "files_of s q = None" using True by (simp add: files_of_def)
    have neg: "\<not> map_of (pk_tree s) q \<noteq> Some DirEntry" using True by simp
    note ih1 = "4.IH"(1) [OF neg rm none]
    show ?thesis
    proof (cases r)
      case (Inl e)
      have "dirs_removed (set (q # qs)) s s1" using ih1 dirs_removed_trans [OF conjunct1 [OF ih1] dirs_removed_refl, of "set qs"] by simp
      thus ?thesis using "4.prems" True rm Inl ih1 by auto
    next
      case (Inr u)
      hence go: "remove_children n qs s1 = (res, t)" and r: "r = Inr ()" using "4.prems" True rm by simp_all
      note ih2 = "4.IH"(2) [OF neg go]
      have d: "dirs_removed (set (q # qs)) s t" using dirs_removed_trans [OF conjunct1 [OF ih1] conjunct1 [OF ih2]] by simp
      have ok1: "tree_ok (pk_tree s1)" if "tree_ok (pk_tree s)" using ih1 that by (simp add: dirs_removed_def)
      have gone: "map_of (pk_tree t) x = None" if "res = Inr ()" "tree_ok (pk_tree s)" "at_or_under (set (q # qs)) x" for x
      proof (cases "at_or_under {q} x")
        case True
        hence "map_of (pk_tree s1) x = None" using ih1 r that(2) by blast
        thus ?thesis using ih2 unfolding dirs_removed_def by metis
      next
        case False
        hence "at_or_under (set qs) x" using that(3) by (auto simp: at_or_under_def)
        thus ?thesis using ih2 ok1 that by blast
      qed
      have "res = Inr () \<and> rs_faults (pk_history t) = []"
        if h: "rs_faults (pk_history s) = []" "tree_ok (pk_tree s)" "distinct (q # qs)"
          "\<forall>a\<in>set (q # qs). removable n s a \<and> (\<forall>b\<in>set (q # qs). \<not> under a b)"
      proof (rule mp [OF conjunct2 [OF conjunct2 [OF ih2]]], intro conjI ballI)
        show "rs_faults (pk_history s1) = []" using ih1 h by simp
        show "tree_ok (pk_tree s1)" "distinct qs" using ok1 h by simp_all
        fix a
        assume a: "a \<in> set qs"
        show "removable n s1 a"
        proof (rule removable_later [OF _ conjunct1 [OF ih1]])
          show "removable n s a" using h(4) a by simp
          show "\<not> at_or_under {q} a" using h(3,4) a unfolding at_or_under_def by auto
        qed
        show "\<not> under a b" if "b \<in> set qs" for b using h(4) a that by simp
      qed
      thus ?thesis using d gone by blast
    qed
  qed
qed

section \<open>Replaying a closure\<close>

lemma dir_step_mono: "dir_step C F s t \<Longrightarrow> C \<subseteq> C' \<Longrightarrow> set F \<subseteq> set F' \<Longrightarrow> dir_step C' F' s t"
proof -
  assume a: "dir_step C F s t" and sub: "C \<subseteq> C'" "set F \<subseteq> set F'"
  have "files_of t p = files_of s p \<or> p \<in> C' \<and> files_of t p = None \<or> (\<exists>b. (p, b) \<in> set F' \<and> files_of t p = Some b)" for p
  proof -
    have "files_of t p = files_of s p \<or> p \<in> C \<and> files_of t p = None \<or> (\<exists>b. (p, b) \<in> set F \<and> files_of t p = Some b)"
      using a unfolding dir_step_def by blast
    thus ?thesis using sub by auto
  qed
  thus ?thesis using a by (simp add: dir_step_def)
qed

lemma clean_step:
  assumes "clean_files names ps s = (res, t)"
  shows "dir_step (set ps - set names) [] s t
    \<and> (res = Inr () \<longrightarrow> (\<forall>q\<in>set ps - set names. files_of t q = None))
    \<and> (rs_faults (pk_history s) = [] \<longrightarrow> res = Inr () \<and> rs_faults (pk_history t) = [])"
  using assms
proof (induction ps arbitrary: s)
  case (Cons p ps)
  let ?C = "set (p # ps) - set names"
  have sub: "set ps - set names \<subseteq> ?C" by auto
  show ?case
  proof (cases "p \<in> set names \<or> \<not> is_file (map_of (pk_tree s) p)")
    case True
    hence go: "clean_files names ps s = (res, t)" using Cons.prems by (auto split: if_splits)
    note ih = Cons.IH [OF go]
    have st: "dir_step ?C [] s t" by (rule dir_step_mono [OF conjunct1 [OF ih] sub order_refl])
    have "files_of t p = None" if "p \<notin> set names"
    proof -
      have "files_of s p = None" using that True by (auto simp: files_of_def is_file_def split: option.splits fs_entry.splits)
      thus ?thesis using st unfolding dir_step_def by (metis empty_iff list.set(1))
    qed
    thus ?thesis using ih st by auto
  next
    case False
    obtain r s1 where w: "pk_write (del_entry p) s = (r, s1)" by fastforce
    obtain b where b: "map_of (pk_tree s) p = Some (FileEntry b)" using False by (auto simp: is_file_def split: option.splits fs_entry.splits)
    have "map_of (pk_tree s) q = None" if "tree_ok (pk_tree s)" "under p q" for q
      using tree_okD [OF that(1) _ that(2)] b by (cases "map_of (pk_tree s) q") auto
    hence step: "dir_step ?C [] (put_faults fs s) (del_entry p (put_faults fs s))" for fs
      using False by (intro step_del) simp_all
    have tab: "map_of (pk_tree (del_entry p (put_faults fs s))) = (map_of (pk_tree s))(p := None)" for fs by simp
    note e = write_entry [OF w step tab]
    show ?thesis
    proof (cases r)
      case (Inl x)
      thus ?thesis using Cons.prems False w e by auto
    next
      case (Inr u)
      hence go: "clean_files names ps s1 = (res, t)" using Cons.prems False w by simp
      note ih = Cons.IH [OF go]
      have "map_of (pk_tree s1) p = None" using e(2) Inr by auto
      hence "files_of s1 p = None" by (simp add: files_of_def)
      hence "files_of t p = None" using conjunct1 [OF ih] unfolding dir_step_def by (metis empty_iff list.set(1))
      moreover have "dir_step ?C [] s t" by (rule dir_step_trans [OF e(1) dir_step_mono [OF conjunct1 [OF ih] sub order_refl]])
      moreover have "rs_faults (pk_history s1) = []" if "rs_faults (pk_history s) = []" using e(3) that by (simp add: del_entry_def)
      ultimately show ?thesis using ih by auto
    qed
  qed
qed simp

text \<open>No file lies in the way of the files \<open>F\<close>: none is a directory of one of them, and none lies below one.\<close>

definition apart :: "'b dict \<Rightarrow> bool" where
  "apart F \<longleftrightarrow> (\<forall>p\<in>fst ` set F. \<forall>q\<in>fst ` set F. \<not> under p q)"

definition clear_way :: "'b dict \<Rightarrow> 'b package_store \<Rightarrow> bool" where
  "clear_way F s \<longleftrightarrow> (\<forall>p\<in>fst ` set F. \<forall>q. under p q \<or> under q p \<longrightarrow> files_of s q = None)"

lemma dir_step_files:
  "dir_step C F s t \<Longrightarrow> files_of s q = None \<Longrightarrow> q \<notin> fst ` set F \<Longrightarrow> files_of t q = None"
  by (force simp: dir_step_def)

lemma clear_way_step: "dir_step C F s t \<Longrightarrow> set F \<subseteq> set G \<Longrightarrow> apart G \<Longrightarrow> clear_way G s \<Longrightarrow> clear_way G t"
  unfolding clear_way_def apart_def by (meson dir_step_files image_mono subsetD)

lemma path_bound_gt: "map_of t q \<noteq> None \<Longrightarrow> length q < path_bound t"
proof -
  assume "map_of t q \<noteq> None"
  then obtain e where "(q, e) \<in> set t" by (auto dest: map_of_SomeD)
  hence "(length \<circ> fst) (q, e) \<in> set (map (length \<circ> fst) t)" unfolding set_map by (rule imageI)
  hence "length q \<in> set (map (length \<circ> fst) t)" by simp
  hence "length q \<le> sum_list (map (length \<circ> fst) t)" by (rule member_le_sum_list) simp
  thus ?thesis by (simp add: path_bound_def)
qed

lemma write_files_step:
  assumes "write_files fs s = (res, t)"
  shows "dir_step {} fs s t
    \<and> (res = Inr () \<and> distinct (map fst fs) \<longrightarrow> (\<forall>(p, b)\<in>set fs. files_of t p = Some b))
    \<and> (rs_faults (pk_history s) = [] \<and> tree_ok (pk_tree s) \<and> apart fs \<and> clear_way fs s \<longrightarrow> res = Inr () \<and> rs_faults (pk_history t) = [])"
  using assms
proof (induction fs arbitrary: s)
  case (Cons pb fs)
  obtain p b where pb: "pb = (p, b)" by (cases pb)
  let ?F = "(p, b) # fs"
  let ?rm = "if map_of (pk_tree s) p = Some DirEntry then removeEmptyDirectory (path_bound (pk_tree s)) p s else (Inr (), s)"
  obtain r1 s1 where rm: "?rm = (r1, s1)" by fastforce
  obtain r2 s2 where wr: "atomicWriteBytes p b s1 = (r2, s2)" by fastforce
  have run: "(res, t) = pbind (r1, s1) (\<lambda>_ s. pbind (atomicWriteBytes p b s) (\<lambda>_. write_files fs))"
    using Cons.prems rm unfolding pb by simp
  have one: "dirs_removed {p} s s1 \<and> (r1 = Inr () \<and> tree_ok (pk_tree s) \<longrightarrow> map_of (pk_tree s1) p \<noteq> Some DirEntry)
    \<and> (rs_faults (pk_history s) = [] \<and> tree_ok (pk_tree s) \<and> clear_way ?F s \<longrightarrow> r1 = Inr () \<and> rs_faults (pk_history s1) = [])"
  proof (cases "map_of (pk_tree s) p = Some DirEntry")
    case True
    have none: "files_of s p = None" using True by (simp add: files_of_def)
    have "removable (path_bound (pk_tree s)) s p" if "clear_way ?F s"
      using that True path_bound_gt [of "pk_tree s"] unfolding removable_def clear_way_def by (fastforce simp: path_bound_def)
    moreover have "at_or_under {p} p" by (simp add: at_or_under_def)
    ultimately show ?thesis using removal(1) [of "path_bound (pk_tree s)" p s r1 s1, OF _ none] rm True by auto
  next
    case False
    thus ?thesis using rm by auto
  qed
  have st1: "dir_step {} ?F s s1" using one dirs_removed_step by blast
  note two = atomicWrite_step [OF _ wr, of ?F, simplified]
  have st2: "dir_step {} ?F s1 s2" by (rule two(1))
  have sub: "dir_step {} fs s2 t \<Longrightarrow> dir_step {} ?F s2 t" by (rule dir_step_mono) auto
  show ?case
  proof (cases "r1 = Inr () \<and> r2 = Inr ()")
    case False
    have "t = s1 \<or> t = s2" "res \<noteq> Inr ()" using run wr False by (cases r1; cases r2; auto)+
    moreover have "r1 = Inr () \<and> r2 = Inr ()"
      if h: "rs_faults (pk_history s) = []" "tree_ok (pk_tree s)" "apart ?F" "clear_way ?F s"
    proof -
      have r1: "r1 = Inr ()" "rs_faults (pk_history s1) = []" using one h by auto
      have "clear_way ?F s1" using clear_way_step [OF st1 order_refl h(3,4)] .
      hence "files_of s1 a = None" if "under a p" for a using that by (auto simp: clear_way_def)
      thus ?thesis using two(4) r1 one h(2) by auto
    qed
    ultimately show ?thesis using False st1 dir_step_trans [OF st1 st2] unfolding pb by auto
  next
    case True
    hence go: "write_files fs s2 = (res, t)" using run wr by auto
    note ih = Cons.IH [OF go]
    have "files_of s2 p = Some b" using two(3) True by (simp add: files_of_def)
    hence "files_of t p = Some b" if "p \<notin> set (map fst fs)" using ih that by (force simp: dir_step_def)
    moreover have "res = Inr () \<and> rs_faults (pk_history t) = []"
      if h: "rs_faults (pk_history s) = []" "tree_ok (pk_tree s)" "apart ?F" "clear_way ?F s"
    proof (rule mp [OF conjunct2 [OF conjunct2 [OF ih]]], intro conjI)
      have r1: "rs_faults (pk_history s1) = []" using one h by auto
      have c1: "clear_way ?F s1" using clear_way_step [OF st1 order_refl h(3,4)] .
      hence "files_of s1 a = None" if "under a p" for a using that by (auto simp: clear_way_def)
      thus "rs_faults (pk_history s2) = []" using two(4) r1 one h(2) True by auto
      show "tree_ok (pk_tree s2)" using st1 st2 h(2) by (simp add: dir_step_def)
      show "apart fs" using h(3) by (auto simp: apart_def)
      show "clear_way fs s2" using clear_way_step [OF st2 order_refl h(3) c1] by (auto simp: clear_way_def)
    qed
    ultimately show ?thesis using ih dir_step_trans [OF st1 dir_step_trans [OF st2 sub]] unfolding pb by auto
  qed
qed simp

lemma make_empty_step:
  assumes "make_empty_resources c names ps s = (res, t)"
  shows "dir_step {} [] s t
    \<and> (\<forall>q. map_of (pk_tree s) q \<noteq> None \<longrightarrow> map_of (pk_tree t) q = map_of (pk_tree s) q)
    \<and> (res = Inr () \<longrightarrow> (\<forall>p\<in>set ps. list_ex (\<lambda>q. q = p \<or> under p q) names \<or> map_of (pk_tree t) p = Some DirEntry))
    \<and> (rs_faults (pk_history s) = []
        \<and> (\<forall>p\<in>set ps. validateClosurePath c p = Inr ()
             \<and> (list_ex (\<lambda>q. q = p \<or> under p q) names \<or> (\<forall>q. q = p \<or> under q p \<longrightarrow> files_of s q = None)))
       \<longrightarrow> res = Inr () \<and> rs_faults (pk_history t) = [])"
  using assms
proof (induction ps arbitrary: s)
  case (Cons p ps)
  consider (covered) "list_ex (\<lambda>q. q = p \<or> under p q) names" | (bad) "\<not> list_ex (\<lambda>q. q = p \<or> under p q) names" "validateClosurePath c p \<noteq> Inr ()"
    | (mk) "\<not> list_ex (\<lambda>q. q = p \<or> under p q) names" "validateClosurePath c p = Inr ()" by blast
  thus ?case
  proof cases
    case covered
    thus ?thesis using Cons by auto
  next
    case bad
    thus ?thesis using Cons.prems by auto
  next
    case mk
    obtain r s1 where m: "make_dirs (ancestors p @ [p]) s = (r, s1)" by fastforce
    have "nested ([] @ ancestors p @ [p])" using nested_path [of p] by simp
    note step = make_dirs_step [OF this _ m, of "{}" "[]", simplified]
    have run: "(res, t) = pbind (r, s1) (\<lambda>_. make_empty_resources c names ps)" using Cons.prems mk m by (simp add: mkdirDurable_def)
    have files: "files_of s1 q = None" if "files_of s q = None" for q using step that dir_step_files [of "{}" "[]" s s1 q] by simp
    show ?thesis
    proof (cases r)
      case (Inl x)
      thus ?thesis using run step mk by auto
    next
      case (Inr u)
      hence go: "make_empty_resources c names ps s1 = (res, t)" using run by simp
      note ih = Cons.IH [OF go]
      have p: "map_of (pk_tree s1) p = Some DirEntry" using step Inr by simp
      have st: "dir_step {} [] s t" using dir_step_trans step ih by blast
      have tab: "map_of (pk_tree t) q = map_of (pk_tree s) q" if "map_of (pk_tree s) q \<noteq> None" for q using step ih that by metis
      have pt: "map_of (pk_tree t) p = Some DirEntry" using ih p by (metis option.distinct(1))
      have "res = Inr () \<and> rs_faults (pk_history t) = []"
        if h: "rs_faults (pk_history s) = []" "\<forall>p\<in>set (p # ps). validateClosurePath c p = Inr ()
             \<and> (list_ex (\<lambda>q. q = p \<or> under p q) names \<or> (\<forall>q. q = p \<or> under q p \<longrightarrow> files_of s q = None))"
      proof (rule mp [OF conjunct2 [OF conjunct2 [OF conjunct2 [OF ih]]]], intro conjI)
        show "rs_faults (pk_history s1) = []" using step h mk by auto
        show "\<forall>p\<in>set ps. validateClosurePath c p = Inr ()
             \<and> (list_ex (\<lambda>q. q = p \<or> under p q) names \<or> (\<forall>q. q = p \<or> under q p \<longrightarrow> files_of s1 q = None))"
          using h(2) files by (meson list.set_intros(2))
      qed
      thus ?thesis using st tab pt ih by auto
    qed
  qed
qed simp

text \<open>The whole replay of the files.\<close>

definition clearable :: "string set \<Rightarrow> 'b dict \<Rightarrow> 'b package_store \<Rightarrow> bool" where
  "clearable C F s \<longleftrightarrow> (\<forall>p\<in>fst ` set F. \<forall>q. under p q \<or> under q p \<longrightarrow> files_of s q = None \<or> q \<in> C)"

lemma apply_step:
  assumes "applyPackageClosure F cleanup s = (res, t)"
  defines "C \<equiv> set cleanup - fst ` set F"
  shows "dir_step C F s t"
    "res = Inr () \<Longrightarrow> distinct (map fst F) \<Longrightarrow> (p, b) \<in> set F \<Longrightarrow> files_of t p = Some b"
    "res = Inr () \<Longrightarrow> q \<in> C \<Longrightarrow> files_of t q = None"
    "rs_faults (pk_history s) = [] \<Longrightarrow> tree_ok (pk_tree s) \<Longrightarrow> apart F \<Longrightarrow> clearable C F s \<Longrightarrow> res = Inr () \<and> rs_faults (pk_history t) = []"
proof -
  obtain r s1 where cl: "clean_files (map fst F) cleanup s = (r, s1)" by fastforce
  note c = clean_step [OF cl]
  have st1: "dir_step C [] s s1" using c by (simp add: C_def)
  have st1': "dir_step C F s s1" by (rule dir_step_mono [OF st1]) simp_all
  have run: "(res, t) = pbind (r, s1) (\<lambda>_. write_files F)" using assms(1) cl by (simp add: applyPackageClosure_def)
  have fail: "res \<noteq> Inr ()" "t = s1" if "r \<noteq> Inr ()" using run that by (cases r; simp)+
  have go: "write_files F s1 = (res, t)" if "r = Inr ()" using run that by simp
  note w = write_files_step [OF go]
  show "dir_step C F s t"
  proof (cases "r = Inr ()")
    case True
    have "dir_step C F s1 t" by (rule dir_step_mono [OF conjunct1 [OF w [OF True]]]) simp_all
    thus ?thesis by (rule dir_step_trans [OF st1'])
  next
    case False
    thus ?thesis using st1' fail by simp
  qed
  show "files_of t p = Some b" if "res = Inr ()" "distinct (map fst F)" "(p, b) \<in> set F" using w fail that by blast
  show "files_of t q = None" if "res = Inr ()" "q \<in> C" 
  proof -
    have r: "r = Inr ()" using fail that(1) by blast
    hence "files_of s1 q = None" using c that(2) by (simp add: C_def)
    moreover have "q \<notin> fst ` set F" using that(2) by (simp add: C_def)
    ultimately show ?thesis using w [OF r] dir_step_files by blast
  qed
  show "res = Inr () \<and> rs_faults (pk_history t) = []"
    if h: "rs_faults (pk_history s) = []" "tree_ok (pk_tree s)" "apart F" "clearable C F s"
  proof -
    have r: "r = Inr ()" "rs_faults (pk_history s1) = []" using c h by auto
    have "files_of s1 q = None" if "files_of s q = None \<or> q \<in> C" for q
      using that c r(1) dir_step_files [OF st1, of q] by (auto simp: C_def)
    hence "clear_way F s1" using h(4) unfolding clear_way_def clearable_def by blast
    moreover have "tree_ok (pk_tree s1)" using st1 h(2) by (simp add: dir_step_def)
    ultimately show ?thesis using w [OF r(1)] r h by blast
  qed
qed

section \<open>Reading\<close>

lemma dir_files_iff: "distinct (map fst t) \<Longrightarrow> (q, b) \<in> set (dir_files t d) \<longleftrightarrow> under d q \<and> map_of t q = Some (FileEntry b)"
  by (fastforce simp: dir_files_def split: fs_entry.splits if_splits)

lemma dir_files_distinct: "distinct (map fst t) \<Longrightarrow> distinct (map fst (dir_files t d))"
proof -
  assume d: "distinct (map fst t)"
  let ?f = "\<lambda>(q, e). case e of FileEntry b \<Rightarrow> if under d q then [(q, b)] else [] | DirEntry \<Rightarrow> []"
  have sub: "(q, b) \<in> set (concat (map ?f t)) \<Longrightarrow> (q, FileEntry b) \<in> set t" for q b and t :: "'b fs_entry dict"
    by (auto split: fs_entry.splits if_splits)
  have "distinct (map fst (concat (map ?f t)))" using d
  proof (induction t)
    case (Cons pe t)
    obtain p e where pe: "pe = (p, e)" by (cases pe)
    have "p \<notin> fst ` set (concat (map ?f t))"
    proof
      assume "p \<in> fst ` set (concat (map ?f t))"
      then obtain b where "(p, b) \<in> set (concat (map ?f t))" by auto
      hence "(p, FileEntry b) \<in> set t" by (rule sub)
      thus False using Cons.prems unfolding pe by (simp add: image_iff) (metis fst_conv)
    qed
    thus ?case using Cons unfolding pe by (cases e) simp_all
  qed simp
  thus ?thesis unfolding dir_files_def by (simp add: distinct_map)
qed

lemma fold_update:
  "map_of (fold (\<lambda>(q, b). AList.update q b) fs acc) q = (case map_of (rev fs) q of None \<Rightarrow> map_of acc q | Some b \<Rightarrow> Some b)"
  by (induction fs arbitrary: acc) (auto simp: update_conv' map_add_def split: option.splits)

lemma fold_update_distinct: "distinct (map fst acc) \<Longrightarrow> distinct (map fst (fold (\<lambda>(q, b). AList.update q b) fs acc))"
  by (induction fs arbitrary: acc) (auto simp: distinct_update)

lemma collect_ok:
  assumes "tree_ok (pk_tree s)" and "validateClosurePath c r = Inr ()" and "map_of (pk_tree s) r \<noteq> None" and "distinct (map fst acc)"
  obtains out where "collect c (pk_tree s) r acc = Inr out" "distinct (map fst out)"
    "\<And>q. map_of out q = (if (q = r \<or> under r q) \<and> files_of s q \<noteq> None then files_of s q else map_of acc q)"
proof -
  have dist: "distinct (map fst (pk_tree s))" using assms(1) by (simp add: tree_ok_def)
  obtain e where e: "map_of (pk_tree s) r = Some e" using assms(3) by blast
  show thesis
  proof (cases e)
    case (FileEntry b)
    have "files_of s q = None" if "under r q" for q
    proof (cases "map_of (pk_tree s) q")
      case (Some x)
      thus ?thesis using tree_okD [OF assms(1) Some that] e FileEntry by simp
    qed (simp add: files_of_def)
    hence "map_of (AList.update r b acc) q = (if (q = r \<or> under r q) \<and> files_of s q \<noteq> None then files_of s q else map_of acc q)" for q
      using e FileEntry by (auto simp: update_conv' files_of_def)
    thus thesis using that [of "AList.update r b acc"] e FileEntry assms(2,4) by (simp add: collect_def distinct_update)
  next
    case DirEntry
    let ?out = "fold (\<lambda>(q, b). AList.update q b) (dir_files (pk_tree s) r) acc"
    have "map_of (rev (dir_files (pk_tree s) r)) q = (if under r q then files_of s q else None)" for q
    proof -
      have "distinct (map fst (rev (dir_files (pk_tree s) r)))" using dir_files_distinct [OF dist, of r] by (simp add: rev_map [symmetric])
      hence "map_of (rev (dir_files (pk_tree s) r)) q = Some b \<longleftrightarrow> (if under r q then files_of s q else None) = Some b" for b
        using dir_files_iff [OF dist, of q b r]
        by (simp add: map_of_eq_Some_iff files_of_def split: option.splits fs_entry.splits)
      thus ?thesis by (metis option.exhaust)
    qed
    moreover have "files_of s r = None" using e DirEntry by (simp add: files_of_def)
    ultimately have "map_of ?out q = (if (q = r \<or> under r q) \<and> files_of s q \<noteq> None then files_of s q else map_of acc q)" for q
      using fold_update [of "dir_files (pk_tree s) r" acc q] by (auto split: option.splits)
    thus thesis using that [of ?out] e DirEntry assms(2,4) by (simp add: collect_def fold_update_distinct)
  qed
qed

lemma collect_paths_ok:
  assumes "tree_ok (pk_tree s)" and "\<forall>r\<in>set rs. validateClosurePath c r = Inr () \<and> map_of (pk_tree s) r \<noteq> None" and "distinct (map fst acc)"
  shows "\<exists>out. collect_paths c (pk_tree s) rs acc = Inr out \<and> distinct (map fst out)
    \<and> (\<forall>q. map_of out q = (if at_or_under (set rs) q \<and> files_of s q \<noteq> None then files_of s q else map_of acc q))"
  using assms(2,3)
proof (induction rs arbitrary: acc)
  case (Cons r rs)
  obtain out where out: "collect c (pk_tree s) r acc = Inr out" "distinct (map fst out)"
    "\<And>q. map_of out q = (if (q = r \<or> under r q) \<and> files_of s q \<noteq> None then files_of s q else map_of acc q)"
    using collect_ok [OF assms(1), of c r acc] Cons.prems by auto
  obtain res where res: "collect_paths c (pk_tree s) rs out = Inr res" "distinct (map fst res)"
    "\<And>q. map_of res q = (if at_or_under (set rs) q \<and> files_of s q \<noteq> None then files_of s q else map_of out q)"
    using Cons.IH [OF _ out(2)] Cons.prems(1) by auto
  have "map_of res q = (if at_or_under (set (r # rs)) q \<and> files_of s q \<noteq> None then files_of s q else map_of acc q)" for q
    unfolding res(3) out(3) by (auto simp: at_or_under_def)
  thus ?case using out(1) res(1,2) by simp
qed (simp add: at_or_under_def)

end
