(* ===== verification/PackageProperties.thy ===== *)
theory PackageProperties
  imports PackageFacts
begin

text \<open>
  The properties of saving a package: a save with failures at any of its steps leaves the old package or leads
  to the new one, an interrupted commit completes when nothing is in its way, and files outside the package
  can block it.
\<close>

section \<open>Loads after a save\<close>

definition read_doc :: "'b codec \<Rightarrow> 'b package_store \<Rightarrow> persist_error + document" where
  "read_doc c s = (case read_package c s of Inl e \<Rightarrow> Inl e | Inr (doc, _) \<Rightarrow> Inr doc)"

definition landed :: "'b codec \<Rightarrow> document \<Rightarrow> 'b package_store \<Rightarrow> bool" where
  "landed c doc s \<longleftrightarrow> pk_commit s = Absent \<and> read_doc c s = Inr doc"

lemma read_doc_cong: "pk_blueprint t = pk_blueprint s \<Longrightarrow> pk_tree t = pk_tree s \<Longrightarrow> read_doc c t = read_doc c s"
  by (simp only: read_doc_def read_package_def)

lemma read_doc_put_faults [simp]: "read_doc c (put_faults fs s) = read_doc c s"
  by (rule read_doc_cong) simp_all

lemma landed_put_faults [simp]: "landed c doc (put_faults fs s) = landed c doc s"
  by (simp add: landed_def)

lemma load_eq: "loadDefinitionDocument c s = (case recoverDefinitionCommit c s of (Inl e, t) \<Rightarrow> (Inl e, t) | (Inr _, t) \<Rightarrow> (read_doc c t, t))"
  by (auto simp: loadDefinitionDocument_def loadDefinitionPackage_def read_doc_def pbind_def split: prod.splits sum.splits)

text \<open>The two stages of a replay: the directory, then the document and the intent.\<close>

definition publish_blueprint :: "definition_commit \<Rightarrow> 'b package_store \<Rightarrow> (persist_error + unit) \<times> 'b package_store" where
  "publish_blueprint cm s = pbind (pk_write (\<lambda>s. s\<lparr>pk_blueprint := Some (do_definitionJson (dc_document cm))\<rparr>) s) (\<lambda>_.
     pk_write (\<lambda>s. s\<lparr>pk_commit := Absent\<rparr>))"

lemma replay_cases:
  assumes "replay c cm s = (res, t)" and d: "decode_valid (do_definitionJson (dc_document cm)) = Inr d"
  obtains (unread) "res \<noteq> Inr ()" "t = s" "\<not> (\<exists>found. read_revision c (pk_history s) (do_documentRevision (dc_document cm)) = Inr found
        \<and> same_package (Option.bind found rv_packageFiles) (dc_packageFiles cm))"
  | (files) r1 s1 where "applyPackageClosure (commit_bytes c cm) (dc_cleanup cm) s = (r1, s1)" "r1 \<noteq> Inr ()" "res \<noteq> Inr ()" "t = s1"
  | (dirs) s1 r2 s2 where "applyPackageClosure (commit_bytes c cm) (dc_cleanup cm) s = (Inr (), s1)"
      "make_empty_resources c (map fst (dc_packageFiles cm)) (resource_paths d) s1 = (r2, s2)" "r2 \<noteq> Inr ()" "res \<noteq> Inr ()" "t = s2"
  | (mismatch) s1 s2 where "applyPackageClosure (commit_bytes c cm) (dc_cleanup cm) s = (Inr (), s1)"
      "make_empty_resources c (map fst (dc_packageFiles cm)) (resource_paths d) s1 = (Inr (), s2)"
      "\<not> (\<exists>fs. readPackageFiles c (pk_tree s2) d = Inr fs \<and> documentValue c (the (do_definitionJson (dc_document cm))) fs = dc_document cm)"
      "res \<noteq> Inr ()" "t = s2"
  | (publish) s1 s2 fs where "applyPackageClosure (commit_bytes c cm) (dc_cleanup cm) s = (Inr (), s1)"
      "make_empty_resources c (map fst (dc_packageFiles cm)) (resource_paths d) s1 = (Inr (), s2)"
      "readPackageFiles c (pk_tree s2) d = Inr fs" "documentValue c (the (do_definitionJson (dc_document cm))) fs = dc_document cm"
      "publish_blueprint cm s2 = (res, t)"
proof (cases "\<exists>found. read_revision c (pk_history s) (do_documentRevision (dc_document cm)) = Inr found
        \<and> same_package (Option.bind found rv_packageFiles) (dc_packageFiles cm)")
  case False
  hence "res \<noteq> Inr ()" "t = s"
    using assms by (cases "read_revision c (pk_history s) (do_documentRevision (dc_document cm))"; auto simp: replay_def)+
  thus thesis using unread False by blast
next
  case True
  then obtain found where found: "read_revision c (pk_history s) (do_documentRevision (dc_document cm)) = Inr found"
    "same_package (Option.bind found rv_packageFiles) (dc_packageFiles cm)" by blast
  obtain r1 s1 where ap: "applyPackageClosure (commit_bytes c cm) (dc_cleanup cm) s = (r1, s1)" by fastforce
  obtain r2 s2 where mk: "make_empty_resources c (map fst (dc_packageFiles cm)) (resource_paths d) s1 = (r2, s2)" by fastforce
  show thesis
  proof (cases "r1 = Inr ()")
    case False
    hence "res \<noteq> Inr ()" "t = s1" using assms found ap by (cases r1; simp add: replay_def)+
    thus thesis using files ap False by blast
  next
    case r1: True
    show thesis
    proof (cases "r2 = Inr ()")
      case False
      hence "res \<noteq> Inr ()" "t = s2" using assms found ap mk r1 by (cases r2; simp add: replay_def)+
      thus thesis using dirs ap mk r1 False by blast
    next
      case r2: True
      show thesis
      proof (cases "\<exists>fs. readPackageFiles c (pk_tree s2) d = Inr fs \<and> documentValue c (the (do_definitionJson (dc_document cm))) fs = dc_document cm")
        case False
        hence "res \<noteq> Inr ()" "t = s2"
          using assms found ap mk r1 r2 by (cases "readPackageFiles c (pk_tree s2) d"; auto simp: replay_def)+
        thus thesis using mismatch ap mk r1 r2 False by blast
      next
        case True
        then obtain fs where fs: "readPackageFiles c (pk_tree s2) d = Inr fs" "documentValue c (the (do_definitionJson (dc_document cm))) fs = dc_document cm"
          by blast
        have "publish_blueprint cm s2 = (res, t)" using assms found ap mk r1 r2 fs by (simp add: replay_def publish_blueprint_def)
        thus thesis using publish ap mk r1 r2 fs by blast
      qed
    qed
  qed
qed

lemma publish_cases:
  assumes "publish_blueprint cm s = (res, t)"
  obtains "res \<noteq> Inr ()" "pk_commit t = pk_commit s" "pk_tree t = pk_tree s"
      "rs_index (pk_history t) = rs_index (pk_history s)" "rs_entries (pk_history t) = rs_entries (pk_history s)"
  | "pk_commit t = Absent" "pk_blueprint t = Some (do_definitionJson (dc_document cm))" "pk_tree t = pk_tree s"
proof -
  let ?text = "do_definitionJson (dc_document cm)"
  obtain fs where w1: "pk_write (\<lambda>s. s\<lparr>pk_blueprint := Some ?text\<rparr>) s \<in> {(Inr (), (put_faults fs s)\<lparr>pk_blueprint := Some ?text\<rparr>),
      (Inl PackageFsError, put_faults fs s), (Inl PackageFsError, (put_faults fs s)\<lparr>pk_blueprint := Some ?text\<rparr>)}" by (rule pk_write_cases)
  let ?s3 = "(put_faults fs s)\<lparr>pk_blueprint := Some ?text\<rparr>"
  obtain gs where w2: "pk_write (\<lambda>s. s\<lparr>pk_commit := Absent\<rparr>) ?s3 \<in> {(Inr (), (put_faults gs ?s3)\<lparr>pk_commit := Absent\<rparr>),
      (Inl PackageFsError, put_faults gs ?s3), (Inl PackageFsError, (put_faults gs ?s3)\<lparr>pk_commit := Absent\<rparr>)}" by (rule pk_write_cases)
  from w1 consider "res \<noteq> Inr ()" "pk_commit t = pk_commit s" "pk_tree t = pk_tree s"
      "rs_index (pk_history t) = rs_index (pk_history s)" "rs_entries (pk_history t) = rs_entries (pk_history s)"
    | "(res, t) = pk_write (\<lambda>s. s\<lparr>pk_commit := Absent\<rparr>) ?s3"
    using assms unfolding publish_blueprint_def by auto
  thus thesis
  proof cases
    case 2
    thus thesis using w2 that by auto
  qed (rule that)
qed

text \<open>A replay puts the document in place, or it keeps the intent and fails.\<close>

lemma apply_docs: "applyPackageClosure F cleanup s = (res, t) \<Longrightarrow> pk_commit t = pk_commit s"
  using apply_step(1) by (fastforce simp: dir_step_def same_docs_def)

lemma make_empty_docs: "make_empty_resources c names ps s = (res, t) \<Longrightarrow> pk_commit t = pk_commit s"
  using make_empty_step by (fastforce simp: dir_step_def same_docs_def)

lemma replay_outcome:
  assumes "replay c cm s = (res, t)"
  shows "landed c (dc_document cm) t \<or> (res \<noteq> Inr () \<and> pk_commit t = pk_commit s)"
proof (cases "decode_valid (do_definitionJson (dc_document cm))")
  case (Inl e)
  thus ?thesis using assms by (auto simp: replay_def)
next
  case (Inr d)
  from assms Inr show ?thesis
  proof (cases rule: replay_cases)
    case (dirs s1 r2 s2)
    thus ?thesis using apply_docs [OF dirs(1)] make_empty_docs [OF dirs(2)] by simp
  next
    case (mismatch s1 s2)
    thus ?thesis using apply_docs [OF mismatch(1)] make_empty_docs [OF mismatch(2)] by simp
  next
    case (publish s1 s2 fs)
    from publish(5) show ?thesis
    proof (cases rule: publish_cases)
      case 1
      thus ?thesis using apply_docs [OF publish(1)] make_empty_docs [OF publish(2)] by simp
    next
      case 2
      thus ?thesis using publish(3,4) Inr by (simp add: landed_def read_doc_def read_package_def)
    qed
  qed (auto dest: apply_docs)
qed

lemma recover_outcome:
  assumes "recoverDefinitionCommit c s = (res, t)"
  obtains (idle) "pk_commit s = Absent" "res = Inr ()" "t = s"
  | (done_) cm where "pk_commit s = Stored cm" "landed c (dc_document cm) t" "res = Inr () \<or> res = Inl DefinitionCommitPending"
  | (pending) "pk_commit s \<noteq> Absent" "pk_commit t = pk_commit s" "res = Inl DefinitionCommitPending"
proof (cases "pk_commit s")
  case (Stored cm)
  obtain r u where r: "pbind (validateDefinitionCommit c cm, s) (\<lambda>_. replay c cm) = (r, u)" by fastforce
  have t: "t = u" "res = (case r of Inr _ \<Rightarrow> Inr () | Inl _ \<Rightarrow> Inl DefinitionCommitPending)"
    using assms Stored r by (auto simp: recoverDefinitionCommit_def split: sum.splits)
  have "landed c (dc_document cm) u \<or> (r \<noteq> Inr () \<and> pk_commit u = pk_commit s)"
  proof (cases "validateDefinitionCommit c cm")
    case (Inl e)
    thus ?thesis using r by auto
  next
    case (Inr x)
    thus ?thesis using r replay_outcome [of c cm s r u] by simp
  qed
  thus thesis
  proof
    assume "landed c (dc_document cm) u"
    thus thesis using t by (intro done_ [OF Stored]) (auto split: sum.splits)
  next
    assume "r \<noteq> Inr () \<and> pk_commit u = pk_commit s"
    thus thesis using t Stored by (intro pending) (auto split: sum.splits)
  qed
next
  case Absent
  hence "res = Inr ()" "t = s" using assms by (simp_all add: recoverDefinitionCommit_def)
  with Absent show thesis by (rule idle)
next
  case NotJson
  hence "t = s" "res = Inl DefinitionCommitPending" using assms by (simp_all add: recoverDefinitionCommit_def)
  thus thesis using NotJson by (intro pending) simp_all
next
  case WrongShape
  hence "t = s" "res = Inl DefinitionCommitPending" using assms by (simp_all add: recoverDefinitionCommit_def)
  thus thesis using WrongShape by (intro pending) simp_all
qed

text \<open>Loads, each with failures of its own.\<close>

inductive later_loads :: "'b codec \<Rightarrow> 'b package_store \<Rightarrow> 'b package_store \<Rightarrow> bool" for c s where
  ll_none: "later_loads c s s"
| ll_load: "later_loads c s t \<Longrightarrow> later_loads c s (snd (loadDefinitionDocument c t))"
| ll_faults: "later_loads c s t \<Longrightarrow> later_loads c s (put_faults fs t)"

text \<open>The disk holds what \<open>r\<close> says, or the new document, or an intent for it.\<close>

definition settling :: "'b codec \<Rightarrow> persist_error + document \<Rightarrow> document \<Rightarrow> 'b package_store \<Rightarrow> bool" where
  "settling c r new s \<longleftrightarrow>
     pk_commit s = Absent \<and> read_doc c s = r \<or> landed c new s \<or> (\<exists>cm. pk_commit s = Stored cm \<and> dc_document cm = new)"

lemma settling_load:
  assumes "settling c r new s"
  shows "settling c r new (snd (loadDefinitionDocument c s))" "fst (loadDefinitionDocument c s) \<in> {r, Inr new, Inl DefinitionCommitPending}"
proof -
  obtain x t where rc: "recoverDefinitionCommit c s = (x, t)" by fastforce
  have "settling c r new (snd (loadDefinitionDocument c s)) \<and> fst (loadDefinitionDocument c s) \<in> {r, Inr new, Inl DefinitionCommitPending}"
    using rc
  proof (cases rule: recover_outcome)
    case idle
    thus ?thesis using assms rc by (auto simp: load_eq settling_def landed_def)
  next
    case (done_ cm)
    hence "landed c new t" using assms by (auto simp: settling_def landed_def)
    thus ?thesis using done_(3) rc by (auto simp: load_eq settling_def landed_def)
  next
    case pending
    thus ?thesis using assms rc by (auto simp: load_eq settling_def landed_def)
  qed
  thus "settling c r new (snd (loadDefinitionDocument c s))" "fst (loadDefinitionDocument c s) \<in> {r, Inr new, Inl DefinitionCommitPending}" by blast+
qed

lemma settling_put_faults [simp]: "settling c r new (put_faults fs s) = settling c r new s"
  by (simp add: settling_def)

lemma settling_later: "later_loads c s t \<Longrightarrow> settling c r new s \<Longrightarrow> settling c r new t"
  by (induction rule: later_loads.induct) (simp_all add: settling_load)

lemma landed_later: "later_loads c s t \<Longrightarrow> landed c new s \<Longrightarrow> landed c new t"
proof (induction rule: later_loads.induct)
  case (ll_load t)
  thus ?case by (simp add: load_eq recoverDefinitionCommit_def landed_def)
qed simp_all

lemma landed_load: "landed c new s \<Longrightarrow> loadDefinitionDocument c s = (Inr new, s)"
  by (simp add: load_eq recoverDefinitionCommit_def landed_def)

section \<open>Atomic saves\<close>

definition same_package_dir :: "'b package_store \<Rightarrow> 'b package_store \<Rightarrow> bool" where
  "same_package_dir s t \<longleftrightarrow> pk_blueprint t = pk_blueprint s \<and> pk_commit t = pk_commit s \<and> pk_tree t = pk_tree s"

lemma same_dir_settles:
  "same_package_dir s t \<Longrightarrow> pk_commit s = Absent \<Longrightarrow> settling c (read_doc c s) new t"
  using read_doc_cong [of t s c] by (simp add: same_package_dir_def settling_def)

lemma publish_history_dir: "publish_history c now q stored doc files s = (res, t) \<Longrightarrow> same_package_dir s t"
  by (auto simp: publish_history_def same_package_dir_def pbind_def split: sum.splits prod.splits)

lemma publish_commit_outcome:
  assumes "publish_commit c stored doc files s = (res, t)" and none: "pk_commit s = Absent"
  shows "settling c (read_doc c s) doc t" "res = Inr () \<Longrightarrow> landed c doc t"
proof -
  have "settling c (read_doc c s) doc t \<and> (res = Inr () \<longrightarrow> landed c doc t)"
  proof (cases "cleanup_of c (pk_tree s) stored")
    case (Inl e)
    thus ?thesis using assms same_dir_settles [of s s] by (auto simp: publish_commit_def same_package_dir_def)
  next
    case (Inr cleanup)
    let ?cm = "\<lparr>dc_document = doc, dc_packageFiles = packageFilesValue c files, dc_cleanup = cleanup\<rparr>"
    show ?thesis
    proof (cases "validateDefinitionCommit c ?cm")
      case (Inl e)
      thus ?thesis using assms Inr same_dir_settles [of s s] by (auto simp: publish_commit_def same_package_dir_def Let_def)
    next
      case valid: (Inr u)
      have run: "(res, t) = pbind (pk_write (\<lambda>s. s\<lparr>pk_commit := Stored ?cm\<rparr>) s) (\<lambda>_. recoverDefinitionCommit c)"
        using assms(1) Inr valid by (simp add: publish_commit_def Let_def)
      obtain fs where w: "pk_write (\<lambda>s. s\<lparr>pk_commit := Stored ?cm\<rparr>) s \<in> {(Inr (), (put_faults fs s)\<lparr>pk_commit := Stored ?cm\<rparr>),
          (Inl PackageFsError, put_faults fs s), (Inl PackageFsError, (put_faults fs s)\<lparr>pk_commit := Stored ?cm\<rparr>)}" by (rule pk_write_cases)
      let ?s1 = "(put_faults fs s)\<lparr>pk_commit := Stored ?cm\<rparr>"
      have s1: "settling c (read_doc c s) doc ?s1" by (simp add: settling_def)
      from w consider "res \<noteq> Inr ()" "t = put_faults fs s" | "res \<noteq> Inr ()" "t = ?s1" | "recoverDefinitionCommit c ?s1 = (res, t)"
        using run by auto
      thus ?thesis
      proof cases
        case 1
        thus ?thesis using none by (simp add: settling_def)
      next
        case 2
        thus ?thesis using s1 by simp
      next
        case 3
        thus ?thesis
        proof (cases rule: recover_outcome)
          case (done_ cm)
          thus ?thesis by (auto simp: settling_def)
        qed (simp_all add: settling_def)
      qed
    qed
  qed
  thus "settling c (read_doc c s) doc t" "res = Inr () \<Longrightarrow> landed c doc t" by blast+
qed

lemma save_attempt_outcome:
  assumes "save_attempt c now q stored doc files s = (res, t)" and none: "pk_commit s = Absent"
    and new: "sr_packageFiles q = None \<Longrightarrow> \<exists>d. decode_valid (Some (sr_definition q)) = Inr d \<and> readPackageFiles c (pk_tree s) d = Inr files"
    and doc: "doc = documentValue c (sr_definition q) files"
  shows "settling c (read_doc c s) doc t" "res = Inr () \<Longrightarrow> landed c doc t"
proof -
  obtain r1 s1 where w1: "pk_write (\<lambda>s. s) s = (r1, s1)" by fastforce
  have d1: "same_package_dir s s1" using pk_write_cases [of "\<lambda>s. s" s] w1 by (fastforce simp: same_package_dir_def)
  obtain r2 s2 where h: "publish_history c now q stored doc files s1 = (r2, s2)" by fastforce
  have d2: "same_package_dir s s2" using publish_history_dir [OF h] d1 by (simp add: same_package_dir_def)
  have none2: "pk_commit s2 = Absent" "read_doc c s2 = read_doc c s"
    using d2 none read_doc_cong [of s2 s c] by (simp_all add: same_package_dir_def)
  have run: "(res, t) = pbind (r1, s1) (\<lambda>_ s. pbind (publish_history c now q stored doc files s) (\<lambda>_ s.
     if sr_packageFiles q \<noteq> None then publish_commit c stored doc files s
     else pk_write (\<lambda>s. s\<lparr>pk_blueprint := Some (Some (sr_definition q))\<rparr>) s))" using assms(1) w1 by (simp add: save_attempt_def)
  have "settling c (read_doc c s) doc t \<and> (res = Inr () \<longrightarrow> landed c doc t)"
  proof (cases "r1 = Inr () \<and> r2 = Inr ()")
    case False
    hence "res \<noteq> Inr ()" "t = s1 \<or> t = s2" using run h by (cases r1; cases r2; auto)+
    thus ?thesis using same_dir_settles [OF d1 none] same_dir_settles [OF d2 none] by auto
  next
    case True
    hence run2: "(res, t) = (if sr_packageFiles q \<noteq> None then publish_commit c stored doc files s2
        else pk_write (\<lambda>s. s\<lparr>pk_blueprint := Some (Some (sr_definition q))\<rparr>) s2)" using run h by auto
    show ?thesis
    proof (cases "sr_packageFiles q")
      case (Some fs)
      hence "publish_commit c stored doc files s2 = (res, t)" using run2 by simp
      from publish_commit_outcome [OF this none2(1)] none2(2) show ?thesis by simp
    next
      case None
      obtain d where d: "decode_valid (Some (sr_definition q)) = Inr d" "readPackageFiles c (pk_tree s) d = Inr files" using new None by blast
      obtain fs where w: "pk_write (\<lambda>s. s\<lparr>pk_blueprint := Some (Some (sr_definition q))\<rparr>) s2
          \<in> {(Inr (), (put_faults fs s2)\<lparr>pk_blueprint := Some (Some (sr_definition q))\<rparr>), (Inl PackageFsError, put_faults fs s2),
            (Inl PackageFsError, (put_faults fs s2)\<lparr>pk_blueprint := Some (Some (sr_definition q))\<rparr>)}" by (rule pk_write_cases)
      let ?s3 = "(put_faults fs s2)\<lparr>pk_blueprint := Some (Some (sr_definition q))\<rparr>"
      have "landed c doc ?s3" using d d2 none2 by (simp add: landed_def read_doc_def read_package_def same_package_dir_def doc)
      moreover have "settling c (read_doc c s) doc (put_faults fs s2)" using same_dir_settles [OF d2 none] by simp
      ultimately show ?thesis using w run2 None by (auto simp: settling_def)
    qed
  qed
  thus "settling c (read_doc c s) doc t" "res = Inr () \<Longrightarrow> landed c doc t" by blast+
qed

text \<open>What a load says before a save, as the stored document of the save.\<close>

definition stored_of :: "persist_error + document \<Rightarrow> document option" where
  "stored_of r = (case r of Inr doc \<Rightarrow> Some doc | Inl _ \<Rightarrow> None)"

lemma save_outcome:
  assumes load: "loadDefinitionDocument c s = (r, s1)" "r \<noteq> Inl DefinitionCommitPending"
    and save: "saveDefinitionDocument c now q s = (res, t)"
  shows "\<exists>files. (\<forall>fs. sr_packageFiles q = Some fs \<longrightarrow> files = fs) \<and> settling c r (documentValue c (sr_definition q) files) t
    \<and> (\<forall>doc. res = Inr doc \<longrightarrow> doc = documentValue c (sr_definition q) files \<and> landed c doc t
         \<and> map_option do_documentRevision (stored_of r) = sr_expectedRevision q)"
proof -
  obtain x s0 where rc: "recoverDefinitionCommit c s = (x, s0)" by fastforce
  have "pk_commit s1 = Absent \<and> r = read_doc c s1" using rc
  proof (cases rule: recover_outcome)
    case idle
    thus ?thesis using load rc by (auto simp: load_eq)
  next
    case (done_ cm)
    thus ?thesis using load rc by (auto simp: load_eq landed_def)
  next
    case pending
    thus ?thesis using load rc by (auto simp: load_eq)
  qed
  hence s1: "pk_commit s1 = Absent" "r = read_doc c s1" by simp_all
  define fallback where "fallback = (case sr_packageFiles q of Some fs \<Rightarrow> fs | None \<Rightarrow> [])"
  have quiet: ?thesis if "t = s1" "\<And>doc. res \<noteq> Inr doc"
    using that s1 by (intro exI [of _ fallback]) (auto simp: settling_def fallback_def)
  show ?thesis
  proof (cases "(\<exists>doc. r = Inr doc) \<or> r = Inl DefinitionDocumentMissing")
    case False
    then obtain e where "r = Inl e" "e \<noteq> DefinitionDocumentMissing" by (cases r) auto
    hence "t = s1" "res = Inl e" using save load by (simp_all add: saveDefinitionDocument_def)
    thus ?thesis using quiet by blast
  next
    case True
    have run: "save_from c now q (stored_of r) s1 = (res, t)" using save load True by (auto simp: saveDefinitionDocument_def stored_of_def)
    show ?thesis
    proof (cases "map_option do_documentRevision (stored_of r) = sr_expectedRevision q")
      case False
      hence "t = s1" "\<And>doc. res \<noteq> Inr doc" using run by (auto simp: save_from_def)
      thus ?thesis by (rule quiet)
    next
      case cas: True
      show ?thesis
      proof (cases "decode_valid (Some (sr_definition q))")
        case (Inl e)
        hence "t = s1" "\<And>doc. res \<noteq> Inr doc" using run cas by (auto simp: save_from_def)
        thus ?thesis by (rule quiet)
      next
        case (Inr d)
        let ?files = "case sr_packageFiles q of Some fs \<Rightarrow> Inr fs | None \<Rightarrow> readPackageFiles c (pk_tree s1) d"
        show ?thesis
        proof (cases ?files)
          case (Inl e)
          hence "t = s1" "\<And>doc. res \<noteq> Inr doc" using run cas Inr by (auto simp: save_from_def)
          thus ?thesis by (rule quiet)
        next
          case files: (Inr files)
          let ?doc = "documentValue c (sr_definition q) files"
          obtain r2 s2 where at: "save_attempt c now q (stored_of r) ?doc files s1 = (r2, s2)" by fastforce
          have t: "t = s2" "res = (case r2 of Inr _ \<Rightarrow> Inr ?doc | Inl _ \<Rightarrow> Inl (if pk_commit s2 \<noteq> Absent then DefinitionCommitPending else IoWriteFailed))"
            using run cas Inr files at by (auto simp: save_from_def Let_def split: sum.splits)
          have "sr_packageFiles q = None \<Longrightarrow> \<exists>d. decode_valid (Some (sr_definition q)) = Inr d \<and> readPackageFiles c (pk_tree s1) d = Inr files"
            using Inr files by simp
          note o = save_attempt_outcome [OF at s1(1) this refl]
          have "\<forall>fs. sr_packageFiles q = Some fs \<longrightarrow> files = fs" using files by auto
          thus ?thesis using o t s1(2) cas by (intro exI [of _ files]) (auto split: sum.splits)
        qed
      qed
    qed
  qed
qed

text \<open>C21: A save is atomic, whatever fails in it and in the loads after it. When the last load gave \<open>r\<close> (the old
  document, or that there is none) every later load gives \<open>r\<close>, or the document of the new definition and
  exactly the saved files, or reports a pending commit; it never gives a mixture. A save that is acknowledged found
  the revision it expected, and every later load gives the document it returned.\<close>

theorem save_atomic:
  assumes "loadDefinitionDocument c s = (r, s1)" and "r \<noteq> Inl DefinitionCommitPending" and "saveDefinitionDocument c now q s = (res, s')"
  shows "\<exists>files. (\<forall>fs. sr_packageFiles q = Some fs \<longrightarrow> files = fs)
    \<and> (\<forall>t. later_loads c s' t \<longrightarrow> fst (loadDefinitionDocument c t) \<in> {r, Inr (documentValue c (sr_definition q) files), Inl DefinitionCommitPending})
    \<and> (\<forall>doc. res = Inr doc \<longrightarrow> doc = documentValue c (sr_definition q) files
         \<and> map_option do_documentRevision (stored_of r) = sr_expectedRevision q
         \<and> (\<forall>t. later_loads c s' t \<longrightarrow> fst (loadDefinitionDocument c t) = Inr doc))"
proof -
  obtain files where f: "\<forall>fs. sr_packageFiles q = Some fs \<longrightarrow> files = fs" "settling c r (documentValue c (sr_definition q) files) s'"
    "\<forall>doc. res = Inr doc \<longrightarrow> doc = documentValue c (sr_definition q) files \<and> landed c doc s' \<and> map_option do_documentRevision (stored_of r) = sr_expectedRevision q"
    using save_outcome [OF assms] by blast
  have "fst (loadDefinitionDocument c t) \<in> {r, Inr (documentValue c (sr_definition q) files), Inl DefinitionCommitPending}"
    if "later_loads c s' t" for t by (rule settling_load(2) [OF settling_later [OF that f(2)]])
  moreover have "fst (loadDefinitionDocument c t) = Inr doc" if "res = Inr doc" "later_loads c s' t" for t doc
  proof -
    have "landed c doc s'" using f(3) that(1) by blast
    from landed_load [OF landed_later [OF that(2) this]] show ?thesis by simp
  qed
  ultimately show ?thesis using f by blast
qed

section \<open>A sample package\<close>

text \<open>A package with one file in \<open>lib\<close>; a save moves a node and brings two other files.\<close>

definition moved_definition :: json where
  "moved_definition = package_definition [(''presentation'', JObj [(''nodes'', JObj [])])]"

definition old_files :: "string dict" where
  "old_files = [(''lib/old.md'', ''Old.'')]"

definition new_files :: "string dict" where
  "new_files = [(''lib/notes/a.md'', ''A.''), (''lib/new.md'', ''New.'')]"

definition package_before :: "write_fault list \<Rightarrow> string package_store" where
  "package_before faults = \<lparr>pk_blueprint = Some (Some (package_definition [])), pk_commit = Absent,
     pk_tree = [(''lib'', DirEntry), (''lib/old.md'', FileEntry ''Old.'')], pk_history = no_history\<lparr>rs_faults := faults\<rparr>\<rparr>"

definition old_document :: document where
  "old_document = documentValue sample_codec (package_definition []) old_files"

definition new_document :: document where
  "new_document = documentValue sample_codec moved_definition new_files"

definition package_request :: "string save_request" where
  "package_request = \<lparr>sr_expectedRevision = Some (do_documentRevision old_document), sr_definition = moved_definition,
     sr_origin = None, sr_message = None, sr_packageFiles = Some new_files\<rparr>"

text \<open>The fault hits the creation of the directory of the second file, in the middle of the replay.\<close>

definition interruption :: "write_fault list" where
  "interruption = replicate 5 NoFault @ [FaultAfter]"

lemma sample_save_run:
  "fst (loadDefinitionDocument sample_codec (package_before faults)) = Inr old_document"
  "fst (saveDefinitionDocument sample_codec (Finite 1) package_request (package_before [])) = Inr new_document"
  "fst (saveDefinitionDocument sample_codec (Finite 1) package_request (package_before interruption)) = Inl DefinitionCommitPending"
  "old_document \<noteq> new_document"
  by code_simp+

theorem save_atomic_witness:
  "\<exists>s'. saveDefinitionDocument sample_codec (Finite 1) package_request (package_before []) = (Inr new_document, s')
     \<and> fst (loadDefinitionDocument sample_codec (put_faults [FaultBefore] s')) = Inr new_document"
proof -
  obtain s' where save: "saveDefinitionDocument sample_codec (Finite 1) package_request (package_before []) = (Inr new_document, s')"
    using sample_save_run(2) by (metis prod.collapse)
  obtain s1 where load: "loadDefinitionDocument sample_codec (package_before []) = (Inr old_document, s1)"
    using sample_save_run(1) by (metis prod.collapse)
  have "later_loads sample_codec s' (put_faults [FaultBefore] s')" by (rule ll_faults [OF ll_none])
  thus ?thesis using save_atomic [OF load _ save] save by auto
qed

section \<open>Completing an interrupted save\<close>

lemma readRevision_cong:
  assumes "rs_index g = rs_index h" "rs_entries g = rs_entries h"
  shows "readRevision n c g = readRevision n c h \<and> inheritedPackageFiles n c g = inheritedPackageFiles n c h"
proof (induction n)
  case 0
  show ?case by (simp add: fun_eq_iff)
next
  case (Suc n)
  have "readRevisionIndex g = readRevisionIndex h" "loadRevisionEntry g = loadRevisionEntry h"
    using assms by (simp_all add: readRevisionIndex_def loadRevisionEntry_def fun_eq_iff)
  thus ?case using Suc by (simp only: fun_eq_iff readRevision.simps inheritedPackageFiles.simps) simp
qed

lemma read_revision_cong:
  "rs_index g = rs_index h \<Longrightarrow> rs_entries g = rs_entries h \<Longrightarrow> read_revision c g r = read_revision c h r"
  by (simp only: read_revision_def index_of_def readRevision_cong [THEN conjunct1, of g h])

text \<open>Package files that the roots of a definition, \<open>lib\<close> and its resources, read as a whole.\<close>

definition package_roots :: "blueprint_definition \<Rightarrow> string list" where
  "package_roots d = ''lib'' # resource_paths d"

definition package_fits :: "'b codec \<Rightarrow> string list \<Rightarrow> 'b dict \<Rightarrow> bool" where
  "package_fits c roots F \<longleftrightarrow> distinct (map fst F) \<and> validateFileClosure c (map fst F) = Inr ()
     \<and> (\<forall>p\<in>fst ` set F. at_or_under (set roots) p \<and> (\<forall>r\<in>set roots. \<not> under p r))
     \<and> (\<forall>r\<in>set roots. validateClosurePath c r = Inr ())"

text \<open>Files that are neither captured (\<open>C\<close>) nor part of the package are out of its way.\<close>

definition unobstructed :: "string list \<Rightarrow> 'b dict \<Rightarrow> string list \<Rightarrow> 'b package_store \<Rightarrow> bool" where
  "unobstructed C F roots s \<longleftrightarrow> (\<forall>q. files_of s q \<noteq> None \<longrightarrow> q \<in> set C \<or> q \<in> fst ` set F
     \<or> (\<forall>r\<in>set roots \<union> fst ` set F. q \<noteq> r \<and> \<not> under r q \<and> \<not> under q r))"

lemma fitsD:
  assumes "package_fits c roots F" and "p \<in> fst ` set F"
  shows "at_or_under (set roots) p" "r \<in> set roots \<Longrightarrow> \<not> under p r"
  using assms unfolding package_fits_def by blast+

lemma fits_apart: "package_fits c roots F \<Longrightarrow> apart F"
proof -
  assume "package_fits c roots F"
  hence "\<not> list_ex (\<lambda>d. d \<in> set (map fst F)) (ancestors q)" if "q \<in> set (map fst F)" for q
    using that unfolding package_fits_def validateFileClosure_def validate_closure_iff ancestors_def by blast
  thus ?thesis unfolding apart_def list_ex_iff ancestors_under [symmetric] set_map by blast
qed

lemma unobstructed_step:
  assumes "dir_step (set C - fst ` set F) F s t" and "unobstructed C F roots s"
  shows "unobstructed C F roots t"
proof -
  have "files_of s q \<noteq> None \<or> q \<in> fst ` set F" if "files_of t q \<noteq> None" for q
    using that dir_step_files [OF assms(1), of q] by metis
  thus ?thesis using assms(2) unfolding unobstructed_def by (meson)
qed

lemma unobstructed_clearable:
  assumes "apart F" and "unobstructed C F roots s"
  shows "clearable (set C - fst ` set F) F s"
  unfolding clearable_def
proof (intro ballI allI impI)
  fix p q assume p: "p \<in> fst ` set F" and pq: "under p q \<or> under q p"
  hence "q \<notin> fst ` set F" using assms(1) by (auto simp: apart_def)
  thus "files_of s q = None \<or> q \<in> set C - fst ` set F" using assms(2) p pq unfolding unobstructed_def by blast
qed

lemma dict_eq:
  fixes a b :: "(string \<times> 'c) list"
  assumes "distinct (map fst a)" "distinct (map fst b)" "map_of a = map_of b"
  shows "sort_key fst a = sort_key fst b"
proof (rule map_sorted_distinct_set_unique)
  have set: "set a = set b" using assms by (metis graph_map_of_if_distinct_dom)
  have "inj_on fst (set a)" using assms(1) by (simp add: distinct_map)
  thus "inj_on fst (set (sort_key fst a) \<union> set (sort_key fst b))" using set by simp
  show "distinct (map fst (sort_key fst a))" "distinct (map fst (sort_key fst b))" using assms(1,2) by (auto simp: distinct_map)
  show "set (sort_key fst a) = set (sort_key fst b)" using set by simp
qed simp_all

lemma documentValue_sort: "sort_key fst a = sort_key fst b \<Longrightarrow> documentValue c v a = documentValue c v b"
proof -
  assume ab: "sort_key fst a = sort_key fst b"
  have m: "(\<lambda>(p, b). (p, co_digest c b)) = apsnd (co_digest c)" by auto
  have "documentRevisions c v (on_values (co_digest c) a) = documentRevisions c v (on_values (co_digest c) b)"
    by (metis ab documentRevisions_norm sort_values)
  thus ?thesis unfolding documentValue_def m by simp
qed

text \<open>The commit and the state it is replayed on.\<close>

definition commit_ready :: "'b codec \<Rightarrow> definition_commit \<Rightarrow> blueprint_definition \<Rightarrow> 'b package_store \<Rightarrow> bool" where
  "commit_ready c cm d s \<longleftrightarrow> tree_ok (pk_tree s) \<and> unobstructed (dc_cleanup cm) (commit_bytes c cm) (package_roots d) s
     \<and> (\<exists>found. read_revision c (pk_history s) (do_documentRevision (dc_document cm)) = Inr found
          \<and> same_package (Option.bind found rv_packageFiles) (dc_packageFiles cm))"

lemma commit_names: "map fst (commit_bytes c cm) = map fst (dc_packageFiles cm)"
  by (simp add: commit_bytes_def comp_def case_prod_beta)

lemma commit_ready_same:
  assumes "commit_ready c cm d s" and "pk_tree t = pk_tree s"
    and "rs_index (pk_history t) = rs_index (pk_history s)" "rs_entries (pk_history t) = rs_entries (pk_history s)"
  shows "commit_ready c cm d t"
proof -
  have "read_revision c (pk_history t) r = read_revision c (pk_history s) r" for r by (rule read_revision_cong [OF assms(3,4)])
  moreover have "files_of t = files_of s" using assms(2) by (simp add: files_of_def fun_eq_iff)
  ultimately show ?thesis using assms(1,2) by (simp add: commit_ready_def unobstructed_def)
qed

lemma commit_ready_put_faults [simp]: "commit_ready c cm d (put_faults fs s) = commit_ready c cm d s"
  by (rule iffI; erule commit_ready_same) simp_all

lemma commit_ready_step:
  assumes "dir_step (set (dc_cleanup cm) - fst ` set (commit_bytes c cm)) (commit_bytes c cm) s t" and "commit_ready c cm d s"
  shows "commit_ready c cm d t"
proof -
  have "read_revision c (pk_history t) r = read_revision c (pk_history s) r" for r
    using assms(1) by (intro read_revision_cong) (simp_all add: dir_step_def same_docs_def)
  thus ?thesis using assms unobstructed_step [OF assms(1)] by (auto simp: commit_ready_def dir_step_def)
qed

text \<open>The states of a replay.\<close>

lemma replay_stages:
  assumes ap: "applyPackageClosure (commit_bytes c cm) (dc_cleanup cm) s = (r1, s1)"
    and mk: "make_empty_resources c (map fst (dc_packageFiles cm)) (resource_paths d) s1 = (r2, s2)"
  shows "dir_step (set (dc_cleanup cm) - fst ` set (commit_bytes c cm)) (commit_bytes c cm) s s1"
    "dir_step (set (dc_cleanup cm) - fst ` set (commit_bytes c cm)) (commit_bytes c cm) s s2"
proof -
  show a: "dir_step (set (dc_cleanup cm) - fst ` set (commit_bytes c cm)) (commit_bytes c cm) s s1" by (rule apply_step(1) [OF ap])
  have "dir_step {} [] s1 s2" using make_empty_step [OF mk] by blast
  hence "dir_step (set (dc_cleanup cm) - fst ` set (commit_bytes c cm)) (commit_bytes c cm) s1 s2" by (rule dir_step_mono) simp_all
  with a show "dir_step (set (dc_cleanup cm) - fst ` set (commit_bytes c cm)) (commit_bytes c cm) s s2" by (rule dir_step_trans)
qed

text \<open>Without failures a replay ends, and the package is read back.\<close>

lemma replay_reads:
  assumes fits: "package_fits c (package_roots d) (commit_bytes c cm)" and ready: "commit_ready c cm d s"
    and ap: "applyPackageClosure (commit_bytes c cm) (dc_cleanup cm) s = (Inr (), s1)"
    and mk: "make_empty_resources c (map fst (dc_packageFiles cm)) (resource_paths d) s1 = (Inr (), s2)"
  obtains fs where "readPackageFiles c (pk_tree s2) d = Inr fs" "sort_key fst fs = sort_key fst (commit_bytes c cm)"
proof -
  let ?F = "commit_bytes c cm" and ?roots = "set (package_roots d)"
  have dist: "distinct (map fst ?F)" using fits by (simp add: package_fits_def)
  have "tree_ok (pk_tree s2)" and un: "unobstructed (dc_cleanup cm) ?F (package_roots d) s2"
    using commit_ready_step [OF replay_stages(2) [OF ap mk] ready] by (auto simp: commit_ready_def)
  note tree = \<open>tree_ok (pk_tree s2)\<close>
  have m2: "dir_step {} [] s1 s2" using make_empty_step [OF mk] by blast
  have val: "files_of s2 p = map_of ?F p" if "at_or_under ?roots p" for p
  proof (cases "p \<in> fst ` set ?F")
    case True
    then obtain b where b: "(p, b) \<in> set ?F" by auto
    have "files_of s1 p = Some b" by (rule apply_step(2) [OF ap refl dist b])
    thus ?thesis using m2 b dist by (auto simp: dir_step_def)
  next
    case False
    have "files_of s2 p = None"
    proof (rule ccontr)
      assume f: "files_of s2 p \<noteq> None"
      hence "p \<in> set (dc_cleanup cm)" using un False that unfolding unobstructed_def at_or_under_def by blast
      hence "files_of s1 p = None" using apply_step(3) [OF ap refl] False by simp
      thus False using m2 f by (auto simp: dir_step_def)
    qed
    moreover have "map_of ?F p = None" using False by (simp add: map_of_eq_None_iff)
    ultimately show ?thesis by simp
  qed
  have present: "map_of (pk_tree s2) r \<noteq> None" if "r \<in> set (resource_paths d)" for r
  proof -
    have "list_ex (\<lambda>q. q = r \<or> under r q) (map fst ?F) \<or> map_of (pk_tree s2) r = Some DirEntry"
      using make_empty_step [OF mk] that unfolding commit_names by blast
    then consider n where "n \<in> fst ` set ?F" "n = r \<or> under r n" | "map_of (pk_tree s2) r = Some DirEntry"
      unfolding list_ex_iff set_map by blast
    thus ?thesis
    proof cases
      case 1
      have "at_or_under ?roots n" by (rule fitsD(1) [OF fits 1(1)])
      hence "files_of s2 n \<noteq> None" using val 1(1) by (auto simp: map_of_eq_None_iff)
      then obtain e where "map_of (pk_tree s2) n = Some e" by (auto simp: files_of_def split: option.splits)
      thus ?thesis using 1(2) tree_okD [OF tree] by auto
    qed simp
  qed
  let ?rs = "(if map_of (pk_tree s2) ''lib'' = None then [] else [''lib'']) @ resource_paths d"
  have rs: "\<forall>r\<in>set ?rs. validateClosurePath c r = Inr () \<and> map_of (pk_tree s2) r \<noteq> None"
    using fits present by (auto simp: package_fits_def package_roots_def)
  have "distinct (map fst ([] :: 'a dict))" by simp
  from collect_paths_ok [OF tree rs this] obtain out where out: "collect_paths c (pk_tree s2) ?rs [] = Inr out" "distinct (map fst out)"
    "\<forall>q. map_of out q = (if at_or_under (set ?rs) q \<and> files_of s2 q \<noteq> None then files_of s2 q else map_of [] q)"
    by (elim exE conjE)
  have "map_of out q = map_of ?F q" for q
  proof (cases "at_or_under ?roots q \<and> files_of s2 q \<noteq> None")
    case True
    have "at_or_under (set ?rs) q"
    proof (cases "q = ''lib'' \<or> under ''lib'' q")
      case lib: True
      obtain e where "map_of (pk_tree s2) q = Some e" using True by (auto simp: files_of_def split: option.splits)
      hence "map_of (pk_tree s2) ''lib'' \<noteq> None" using lib tree_okD [OF tree] by auto
      thus ?thesis using lib by (auto simp: at_or_under_def)
    next
      case False
      thus ?thesis using True by (auto simp: at_or_under_def package_roots_def)
    qed
    thus ?thesis using out(3) val True by simp
  next
    case False
    have "at_or_under (set ?rs) q \<Longrightarrow> at_or_under ?roots q" by (auto simp: at_or_under_def package_roots_def split: if_splits)
    hence "map_of out q = None" using out(3) False by auto
    moreover have "map_of ?F q = None"
    proof (rule ccontr)
      assume q: "map_of ?F q \<noteq> None"
      hence "q \<in> fst ` set ?F" by (simp add: map_of_eq_None_iff)
      hence "at_or_under ?roots q" by (rule fitsD(1) [OF fits])
      thus False using val False q by simp
    qed
    ultimately show ?thesis by simp
  qed
  hence "sort_key fst out = sort_key fst ?F" using out(2) dist by (intro dict_eq) auto
  thus thesis using that [of out] out(1) by (simp add: readPackageFiles_def)
qed

text \<open>The package is in place with its files.\<close>

definition landed_with :: "'b codec \<Rightarrow> definition_commit \<Rightarrow> 'b package_store \<Rightarrow> bool" where
  "landed_with c cm s \<longleftrightarrow> pk_commit s = Absent
     \<and> (\<exists>fs. read_package c s = Inr (dc_document cm, fs) \<and> sort_key fst fs = sort_key fst (commit_bytes c cm))"

lemma landed_with_load:
  assumes "landed_with c cm s"
  obtains fs where "loadDefinitionPackage c s = (Inr (dc_document cm, fs), s)" "sort_key fst fs = sort_key fst (commit_bytes c cm)"
    "snd (loadDefinitionDocument c s) = s"
  using assms by (auto simp: landed_with_def loadDefinitionPackage_def loadDefinitionDocument_def recoverDefinitionCommit_def)

lemma read_package_put_faults [simp]: "read_package c (put_faults fs s) = read_package c s"
  by (simp only: read_package_def put_faults_fields)

lemma landed_with_put_faults [simp]: "landed_with c cm (put_faults fs s) = landed_with c cm s"
  by (simp add: landed_with_def)

lemma replay_keeps_ready:
  assumes "replay c cm s = (res, t)" and ready: "commit_ready c cm d s" and d: "decode_valid (do_definitionJson (dc_document cm)) = Inr d"
    and fits: "package_fits c (package_roots d) (commit_bytes c cm)"
  shows "landed_with c cm t \<or> pk_commit t = pk_commit s \<and> commit_ready c cm d t"
  using assms(1) d
proof (cases rule: replay_cases)
  case unread
  thus ?thesis using ready by simp
next
  case (files r1 s1)
  thus ?thesis using commit_ready_step [OF apply_step(1) [OF files(1)] ready] apply_docs [OF files(1)] by simp
next
  case (dirs s1 r2 s2)
  thus ?thesis using commit_ready_step [OF replay_stages(2) [OF dirs(1,2)] ready] apply_docs [OF dirs(1)] make_empty_docs [OF dirs(2)] by simp
next
  case (mismatch s1 s2)
  thus ?thesis
    using commit_ready_step [OF replay_stages(2) [OF mismatch(1,2)] ready] apply_docs [OF mismatch(1)] make_empty_docs [OF mismatch(2)] by simp
next
  case (publish s1 s2 fs)
  have r: "commit_ready c cm d s2" by (rule commit_ready_step [OF replay_stages(2) [OF publish(1,2)] ready])
  obtain fs' where "readPackageFiles c (pk_tree s2) d = Inr fs'" "sort_key fst fs' = sort_key fst (commit_bytes c cm)"
    by (rule replay_reads [OF fits ready publish(1,2)])
  hence sorted: "sort_key fst fs = sort_key fst (commit_bytes c cm)" using publish(3) by simp
  from publish(5) show ?thesis
  proof (cases rule: publish_cases)
    case 1
    thus ?thesis using commit_ready_same [OF r 1(3-5)] apply_docs [OF publish(1)] make_empty_docs [OF publish(2)] by simp
  next
    case 2
    thus ?thesis using publish(3,4) sorted d by (simp add: landed_with_def read_package_def)
  qed
qed

lemma replay_completes:
  assumes fits: "package_fits c (package_roots d) (commit_bytes c cm)" and ready: "commit_ready c cm d s"
    and d: "decode_valid (do_definitionJson (dc_document cm)) = Inr d" and nf: "rs_faults (pk_history s) = []"
    and doc: "documentValue c (the (do_definitionJson (dc_document cm))) (commit_bytes c cm) = dc_document cm"
    and run: "replay c cm s = (res, t)"
  shows "res = Inr ()" "\<exists>fs. read_package c t = Inr (dc_document cm, fs) \<and> sort_key fst fs = sort_key fst (commit_bytes c cm)"
proof -
  let ?F = "commit_bytes c cm" and ?C = "set (dc_cleanup cm) - fst ` set (commit_bytes c cm)"
  have un: "unobstructed (dc_cleanup cm) ?F (package_roots d) s" and tree: "tree_ok (pk_tree s)" using ready by (auto simp: commit_ready_def)
  have ap_ok: "r1 = Inr () \<and> rs_faults (pk_history s1) = []" if "applyPackageClosure ?F (dc_cleanup cm) s = (r1, s1)" for r1 s1
    using apply_step(4) [OF that nf tree fits_apart [OF fits] unobstructed_clearable [OF fits_apart [OF fits] un]] .
  have mk_ok: "r2 = Inr () \<and> rs_faults (pk_history s2) = []"
    if ap: "applyPackageClosure ?F (dc_cleanup cm) s = (Inr (), s1)"
      and mk: "make_empty_resources c (map fst (dc_packageFiles cm)) (resource_paths d) s1 = (r2, s2)" for s1 r2 s2
  proof (rule mp [OF conjunct2 [OF conjunct2 [OF conjunct2 [OF make_empty_step [OF mk]]]]], intro conjI ballI)
    show "rs_faults (pk_history s1) = []" using ap_ok [OF ap] by simp
    fix p assume p: "p \<in> set (resource_paths d)"
    show "validateClosurePath c p = Inr ()" using fits p by (simp add: package_fits_def package_roots_def)
    show "list_ex (\<lambda>q. q = p \<or> under p q) (map fst (dc_packageFiles cm)) \<or> (\<forall>q. q = p \<or> under q p \<longrightarrow> files_of s1 q = None)"
    proof (cases "list_ex (\<lambda>q. q = p \<or> under p q) (map fst (dc_packageFiles cm))")
      case False
      have "files_of s1 q = None" if q: "q = p \<or> under q p" for q
      proof (rule ccontr)
        assume f: "files_of s1 q \<noteq> None"
        have root: "p \<in> set (package_roots d)" using p by (simp add: package_roots_def)
        have "q \<notin> fst ` set ?F"
        proof
          assume n: "q \<in> fst ` set ?F"
          hence "q \<in> set (map fst (dc_packageFiles cm))" unfolding commit_names [of c cm, symmetric] by simp
          hence "q \<noteq> p" using False by (auto simp: list_ex_iff)
          thus False using q fitsD(2) [OF fits n root] by blast
        qed
        moreover have "unobstructed (dc_cleanup cm) ?F (package_roots d) s1" by (rule unobstructed_step [OF apply_step(1) [OF ap] un])
        ultimately have "q \<in> ?C" using f q root unfolding unobstructed_def by blast
        hence "files_of s1 q = None" by (rule apply_step(3) [OF ap refl])
        thus False using f by simp
      qed
      thus ?thesis by blast
    qed simp
  qed
  have "res = Inr () \<and> (\<exists>fs. read_package c t = Inr (dc_document cm, fs) \<and> sort_key fst fs = sort_key fst ?F)"
    using run d
  proof (cases rule: replay_cases)
    case unread
    thus ?thesis using ready unfolding commit_ready_def by blast
  next
    case (files r1 s1)
    thus ?thesis using ap_ok by blast
  next
    case (dirs s1 r2 s2)
    thus ?thesis using mk_ok by blast
  next
    case (mismatch s1 s2)
    obtain fs where "readPackageFiles c (pk_tree s2) d = Inr fs" "sort_key fst fs = sort_key fst ?F"
      by (rule replay_reads [OF fits ready mismatch(1,2)])
    thus ?thesis using mismatch(3) doc documentValue_sort by metis
  next
    case (publish s1 s2 fs)
    obtain fs' where fs': "readPackageFiles c (pk_tree s2) d = Inr fs'" "sort_key fst fs' = sort_key fst ?F"
      by (rule replay_reads [OF fits ready publish(1,2)])
    have "rs_faults (pk_history s2) = []" using mk_ok [OF publish(1,2)] by simp
    hence "res = Inr ()" "t = s2\<lparr>pk_blueprint := Some (do_definitionJson (dc_document cm)), pk_commit := Absent\<rparr>"
      using publish(5) by (simp_all add: publish_blueprint_def pk_write_no_fault)
    thus ?thesis using publish(3,4) fs' d by (simp add: read_package_def)
  qed
  thus "res = Inr ()" "\<exists>fs. read_package c t = Inr (dc_document cm, fs) \<and> sort_key fst fs = sort_key fst ?F" by blast+
qed

text \<open>A validated intent stays ready under loads with failures, until it has landed.\<close>

lemma recover_keeps_ready:
  assumes "recoverDefinitionCommit c s = (res, t)" and "pk_commit s = Stored cm" and ready: "commit_ready c cm d s"
    and d: "decode_valid (do_definitionJson (dc_document cm)) = Inr d" and fits: "package_fits c (package_roots d) (commit_bytes c cm)"
  shows "landed_with c cm t \<or> pk_commit t = Stored cm \<and> commit_ready c cm d t"
proof -
  obtain r u where r: "pbind (validateDefinitionCommit c cm, s) (\<lambda>_. replay c cm) = (r, u)" by fastforce
  hence "t = u" using assms(1,2) by (auto simp: recoverDefinitionCommit_def split: sum.splits)
  thus ?thesis
    using r assms(2) ready replay_keeps_ready [OF _ ready d fits, of r u] by (cases "validateDefinitionCommit c cm") auto
qed

lemma ready_later:
  assumes "later_loads c s t" and "pk_commit s = Stored cm" and "commit_ready c cm d s"
    and d: "decode_valid (do_definitionJson (dc_document cm)) = Inr d" and fits: "package_fits c (package_roots d) (commit_bytes c cm)"
  shows "landed_with c cm t \<or> pk_commit t = Stored cm \<and> commit_ready c cm d t"
  using assms(1)
proof (induction rule: later_loads.induct)
  case (ll_load t)
  show ?case
  proof (cases "landed_with c cm t")
    case True
    thus ?thesis using landed_with_load [OF True] by metis
  next
    case False
    hence t: "pk_commit t = Stored cm" "commit_ready c cm d t" using ll_load by simp_all
    obtain r u where r: "recoverDefinitionCommit c t = (r, u)" by fastforce
    have "snd (loadDefinitionDocument c t) = u" using r by (auto simp: load_eq split: sum.splits)
    thus ?thesis using recover_keeps_ready [OF r t d fits] by simp
  qed
qed (use assms in simp_all)

lemma ready_loads:
  assumes "later_loads c s t" and "pk_commit s = Stored cm" and "commit_ready c cm d s"
    and d: "decode_valid (do_definitionJson (dc_document cm)) = Inr d" and fits: "package_fits c (package_roots d) (commit_bytes c cm)"
    and valid: "validateDefinitionCommit c cm = Inr ()"
  shows "\<exists>fs u. loadDefinitionPackage c (put_faults [] t) = (Inr (dc_document cm, fs), u) \<and> sort_key fst fs = sort_key fst (commit_bytes c cm)"
proof (cases "landed_with c cm (put_faults [] t)")
  case True
  then obtain fs where "loadDefinitionPackage c (put_faults [] t) = (Inr (dc_document cm, fs), put_faults [] t)"
    "sort_key fst fs = sort_key fst (commit_bytes c cm)" by (rule landed_with_load)
  thus ?thesis by blast
next
  case False
  let ?t = "put_faults [] t"
  have t: "pk_commit ?t = Stored cm" "commit_ready c cm d ?t" using ready_later [OF assms(1-5)] False by simp_all
  obtain r u where run: "replay c cm ?t = (r, u)" by fastforce
  have doc: "documentValue c (the (do_definitionJson (dc_document cm))) (commit_bytes c cm) = dc_document cm"
    using valid by (auto simp: validateDefinitionCommit_def ebind_Inr)
  note ok = replay_completes [OF fits t(2) d _ doc run]
  have "recoverDefinitionCommit c ?t = (Inr (), u)" using t(1) valid run ok(1) by (simp add: recoverDefinitionCommit_def)
  thus ?thesis using ok(2) by (auto simp: loadDefinitionPackage_def)
qed

text \<open>The intent a save writes.\<close>

lemma commit_bytes_value: "codec_ok c \<Longrightarrow> dc_packageFiles cm = packageFilesValue c files \<Longrightarrow> commit_bytes c cm = sort_key fst files"
  by (simp add: commit_bytes_def packageFilesValue_def codec_ok_def comp_def case_prod_beta)

lemma fits_sort: "package_fits c roots (sort_key fst files) \<longleftrightarrow> package_fits c roots files"
proof -
  have "distinct (map fst (sort_key fst files)) = distinct (map fst files)" by (simp add: distinct_map)
  moreover have "map fst (sort_key fst files) = map fst (packageFilesValue c files)" by (simp add: packageFilesValue_def comp_def case_prod_beta)
  ultimately show ?thesis using validateFileClosure_sort [of c files] by (simp add: package_fits_def)
qed

lemma unobstructed_sort: "unobstructed C (sort_key fst files) roots s \<longleftrightarrow> unobstructed C files roots s"
  by (simp add: unobstructed_def)

lemma stored_revision_nonempty:
  assumes "codec_ok c" and "read_doc c s = Inr doc"
  shows "do_documentRevision doc \<noteq> []"
proof -
  obtain v files where "doc = documentValue c v files"
    using assms(2) by (auto simp: read_doc_def read_package_def ebind_Inr split: option.splits sum.splits prod.splits)
  thus ?thesis using assms(1) by (simp add: documentValue_def documentRevisions_def Let_def codec_ok_def)
qed

lemma publish_history_admits:
  assumes run: "publish_history c now q stored (documentValue c v files) files s = (Inr (), t)"
    and hist: "revision_history c (pk_history s)" and laws: "codec_ok c" and files: "sr_packageFiles q = Some files"
    and d: "decodeDefinition (Some (canonicalJson_doc v)) = Inr d" "bd_id d = do_blueprintId (documentValue c v files)" "bd_id d \<noteq> []"
    and now: "js_is_finite now" and closure: "validateFileClosure c (map fst files) = Inr ()"
    and parent: "map_option do_documentRevision stored \<noteq> Some []"
    and known: "do_documentRevision (documentValue c v files) \<notin> listed (pk_history s)
      \<or> (\<exists>e. read_revision c (pk_history s) (do_documentRevision (documentValue c v files)) = Inr (Some e) \<and> rv_packageFiles e = Some (packageFilesValue c files))"
  shows "\<exists>e. read_revision c (pk_history t) (do_documentRevision (documentValue c v files)) = Inr (Some e) \<and> rv_packageFiles e = Some (packageFilesValue c files)"
proof -
  let ?doc = "documentValue c v files" and ?h = "pk_history s"
  let ?opts = "\<lparr>ao_parentRevision = map_option do_documentRevision stored,
     ao_origin = (case sr_origin q of None \<Rightarrow> OriginCanvas | Some x \<Rightarrow> x), ao_message = sr_message q, ao_packageFiles = Some files\<rparr>"
  have own: "history_files c q stored ?doc files ?h = Inr (Some files)" using files by (simp add: history_files_def)
  obtain x h where app: "appendRevisionHistory c now ?doc ?opts ?h = (x, h)" by fastforce
  hence x: "\<exists>e. x = Inr e" "pk_history t = h" using run own by (auto simp: publish_history_def split: sum.splits)
  have ok: "history_ok c ?h" by (rule history_sound [OF hist])
  have a: "append_ok c now ?doc ?opts ?h" "append_files c ?h ?opts = Some (packageFilesValue c files)"
    by (rule document_readable [OF laws closure d]; use now parent in simp)+
  show ?thesis
  proof (cases "do_documentRevision ?doc \<in> listed ?h")
    case True
    hence "h = ?h" using append_cases [OF ok a(1) app] by simp
    thus ?thesis using known True x(2) by simp
  next
    case False
    hence "new_listed c now ?doc ?opts ?h h" using append_cases [OF ok a(1) app] x(1) by auto
    thus ?thesis using a(2) x(2) by (auto simp: new_listed_def)
  qed
qed

lemma publish_commit_ready:
  assumes run: "publish_commit c stored doc files s = (res, t)" and none: "pk_commit s = Absent" and some: "pk_commit t \<noteq> Absent"
    and cleanup: "cleanup_of c (pk_tree s) stored = Inr cleanup"
  defines "cm \<equiv> \<lparr>dc_document = doc, dc_packageFiles = packageFilesValue c files, dc_cleanup = cleanup\<rparr>"
  assumes ready: "commit_ready c cm d s" and d: "decode_valid (do_definitionJson doc) = Inr d"
    and fits: "package_fits c (package_roots d) (commit_bytes c cm)"
  shows "pk_commit t = Stored cm \<and> commit_ready c cm d t \<and> validateDefinitionCommit c cm = Inr ()"
proof (cases "validateDefinitionCommit c cm")
  case (Inl e)
  hence "t = s" using run cleanup by (simp add: publish_commit_def Let_def cm_def)
  thus ?thesis using none some by simp
next
  case (Inr u)
  have run': "(res, t) = pbind (pk_write (\<lambda>s. s\<lparr>pk_commit := Stored cm\<rparr>) s) (\<lambda>_. recoverDefinitionCommit c)"
    using run Inr cleanup by (simp add: publish_commit_def Let_def cm_def)
  obtain fs where w: "pk_write (\<lambda>s. s\<lparr>pk_commit := Stored cm\<rparr>) s \<in> {(Inr (), (put_faults fs s)\<lparr>pk_commit := Stored cm\<rparr>),
      (Inl PackageFsError, put_faults fs s), (Inl PackageFsError, (put_faults fs s)\<lparr>pk_commit := Stored cm\<rparr>)}" by (rule pk_write_cases)
  let ?s1 = "(put_faults fs s)\<lparr>pk_commit := Stored cm\<rparr>"
  have ready1: "commit_ready c cm d ?s1" by (rule commit_ready_same [OF ready]) simp_all
  have dcm: "decode_valid (do_definitionJson (dc_document cm)) = Inr d" using d by (simp add: cm_def)
  from w consider "t = put_faults fs s" | "t = ?s1" | "recoverDefinitionCommit c ?s1 = (res, t)" using run' by auto
  thus ?thesis
  proof cases
    case 1
    thus ?thesis using none some by simp
  next
    case 2
    thus ?thesis using ready1 Inr by simp
  next
    case 3
    have "landed_with c cm t \<or> pk_commit t = Stored cm \<and> commit_ready c cm d t"
      by (rule recover_keeps_ready [OF 3 _ ready1 dcm fits]) simp
    thus ?thesis using some Inr by (auto simp: landed_with_def)
  qed
qed

text \<open>C22: A save with package files that reports a pending commit is completed by the first load without failures,
  however often and wherever the save and the loads before were interrupted: that load gives the new document,
  and reading the package gives exactly the saved files. The conditions say that nothing is in the way:
  the files belong to the roots of the definition, every other file on a path of the package is one the old
  package captured, and a revision that is already in the history has the same files.\<close>

theorem interrupted_save_completes:
  assumes hist: "revision_history c (pk_history s)" and laws: "codec_ok c" and tree: "tree_ok (pk_tree s)" and none: "pk_commit s = Absent"
    and files: "sr_packageFiles q = Some files" and now: "js_is_finite now"
    and d: "decode_valid (Some (canonicalJson_doc (sr_definition q))) = Inr d" "bd_id d = do_blueprintId (documentValue c (sr_definition q) files)" "bd_id d \<noteq> []"
    and fits: "package_fits c (package_roots d) files"
    and load: "fst (loadDefinitionDocument c s) = (case stored of Some old \<Rightarrow> Inr old | None \<Rightarrow> Inl DefinitionDocumentMissing)"
    and cleanup: "cleanup_of c (pk_tree s) stored = Inr cleanup" "unobstructed cleanup files (package_roots d) s"
    and known: "do_documentRevision (documentValue c (sr_definition q) files) \<notin> listed (pk_history s)
      \<or> (\<exists>e. read_revision c (pk_history s) (do_documentRevision (documentValue c (sr_definition q) files)) = Inr (Some e)
            \<and> rv_packageFiles e = Some (packageFilesValue c files))"
    and save: "saveDefinitionDocument c now q s = (Inl DefinitionCommitPending, s')" and later: "later_loads c s' t"
  shows "\<exists>fs u. loadDefinitionPackage c (put_faults [] t) = (Inr (documentValue c (sr_definition q) files, fs), u)
    \<and> sort_key fst fs = sort_key fst files"
proof -
  let ?v = "sr_definition q"
  let ?doc = "documentValue c ?v files"
  have load_s: "loadDefinitionDocument c s = (read_doc c s, s)" using none by (simp add: load_eq recoverDefinitionCommit_def)
  hence rd: "read_doc c s = (case stored of Some old \<Rightarrow> Inr old | None \<Rightarrow> Inl DefinitionDocumentMissing)" using load by simp
  have run: "save_from c now q stored s = (Inl DefinitionCommitPending, s')"
    using save load_s rd by (cases stored) (simp_all add: saveDefinitionDocument_def)
  obtain r1 where at: "save_attempt c now q stored ?doc files s = (r1, s')" and pend: "pk_commit s' \<noteq> Absent"
  proof (cases "decode_valid (Some ?v)")
    case (Inr d')
    obtain r u where a: "save_attempt c now q stored ?doc files s = (r, u)" by fastforce
    hence "s' = u \<and> pk_commit u \<noteq> Absent"
      using run files Inr by (auto simp: save_from_def Let_def split: if_splits sum.splits)
    thus thesis using that a by simp
  next
    case (Inl e)
    have "e \<noteq> DefinitionCommitPending" using Inl by (auto simp: decode_valid_def ebind_def on_error_def split: sum.splits)
    thus thesis using run Inl by (auto simp: save_from_def split: if_splits)
  qed
  obtain r2 s1 where w: "pk_write (\<lambda>s. s) s = (r2, s1)" by fastforce
  obtain fs0 where s1: "s1 = put_faults fs0 s" using pk_write_cases [of "\<lambda>s. s" s] w by (metis (no_types, lifting) insertE prod.inject singletonD)
  obtain r3 s2 where h: "publish_history c now q stored ?doc files s1 = (r3, s2)" by fastforce
  have dir: "same_package_dir s1 s2" by (rule publish_history_dir [OF h])
  have go: "(r1, s') = pbind (r2, s1) (\<lambda>_ s. pbind (publish_history c now q stored ?doc files s) (\<lambda>_. publish_commit c stored ?doc files))"
    using at w files by (simp add: save_attempt_def)
  have ok: "r2 = Inr ()" "r3 = Inr ()" using go h dir none pend s1 by (cases r2; cases r3; auto simp: same_package_dir_def)+
  hence pub: "publish_commit c stored ?doc files s2 = (r1, s')" using go h by simp
  define cm where "cm = \<lparr>dc_document = ?doc, dc_packageFiles = packageFilesValue c files, dc_cleanup = cleanup\<rparr>"
  have F: "commit_bytes c cm = sort_key fst files" by (rule commit_bytes_value [OF laws]) (simp add: cm_def)
  have json: "do_definitionJson ?doc = Some (canonicalJson_doc ?v)" by (simp add: documentValue_def split: prod.splits)
  have dec: "decodeDefinition (Some (canonicalJson_doc ?v)) = Inr d" using d(1) by (auto simp: decode_valid_def ebind_Inr)
  have parent: "map_option do_documentRevision stored \<noteq> Some []" using stored_revision_nonempty [OF laws] rd by (cases stored) auto
  have hist1: "revision_history c (pk_history s1)" unfolding s1 put_faults_def using rh_faults [OF hist] by simp
  have known1: "do_documentRevision ?doc \<notin> listed (pk_history s1)
      \<or> (\<exists>e. read_revision c (pk_history s1) (do_documentRevision ?doc) = Inr (Some e) \<and> rv_packageFiles e = Some (packageFilesValue c files))"
    using known read_revision_cong [of "pk_history s1" "pk_history s" c] unfolding s1 by (simp add: index_of_def)
  have closure: "validateFileClosure c (map fst files) = Inr ()" using fits by (simp add: package_fits_def)
  obtain e where e: "read_revision c (pk_history s2) (do_documentRevision ?doc) = Inr (Some e)" "rv_packageFiles e = Some (packageFilesValue c files)"
    using publish_history_admits [OF h [unfolded ok(2)] hist1 laws files dec d(2,3) now closure parent known1] by blast
  have tree2: "pk_tree s2 = pk_tree s" "pk_commit s2 = Absent" using dir none unfolding s1 by (simp_all add: same_package_dir_def)
  have ready: "commit_ready c cm d s2"
  proof -
    have "files_of s2 = files_of s" using tree2 by (simp add: files_of_def fun_eq_iff)
    hence "unobstructed cleanup (sort_key fst files) (package_roots d) s2" using cleanup(2) by (simp add: unobstructed_def)
    thus ?thesis using tree tree2 e F by (simp add: commit_ready_def cm_def same_package_def)
  qed
  have fitsF: "package_fits c (package_roots d) (commit_bytes c cm)" unfolding F fits_sort by (rule fits)
  have "pk_commit s' = Stored cm \<and> commit_ready c cm d s' \<and> validateDefinitionCommit c cm = Inr ()"
    unfolding cm_def
    by (rule publish_commit_ready [OF pub tree2(2) pend]) (use cleanup(1) tree2 ready fitsF d(1) json in \<open>simp_all add: cm_def\<close>)
  hence "\<exists>fs u. loadDefinitionPackage c (put_faults [] t) = (Inr (dc_document cm, fs), u) \<and> sort_key fst fs = sort_key fst (commit_bytes c cm)"
    using d(1) json fitsF by (intro ready_loads [OF later, where d = d]) (simp_all add: cm_def)
  thus ?thesis unfolding F by (simp add: cm_def)
qed

lemma sample_save_fits:
  "case decode_valid (Some (canonicalJson_doc moved_definition)) of Inl _ \<Rightarrow> False | Inr d \<Rightarrow>
     bd_id d = do_blueprintId new_document \<and> bd_id d \<noteq> [] \<and> resource_paths d = []"
  "cleanup_of sample_codec (pk_tree (package_before faults)) (Some old_document) = Inr [''lib/old.md'']"
  "validateFileClosure sample_codec (map fst new_files) = Inr ()"
  "validateClosurePath sample_codec ''lib'' = Inr ()"
  by code_simp+

theorem interrupted_save_completes_witness:
  "\<exists>s' fs u. saveDefinitionDocument sample_codec (Finite 1) package_request (package_before interruption) = (Inl DefinitionCommitPending, s')
     \<and> loadDefinitionPackage sample_codec (put_faults [] s') = (Inr (new_document, fs), u)
     \<and> sort_key fst fs = [(''lib/new.md'', ''New.''), (''lib/notes/a.md'', ''A.'')]"
proof -
  let ?s = "package_before interruption"
  obtain s' where save: "saveDefinitionDocument sample_codec (Finite 1) package_request ?s = (Inl DefinitionCommitPending, s')"
    using sample_save_run(3) by (metis prod.collapse)
  have req: "sr_definition package_request = moved_definition" "sr_packageFiles package_request = Some new_files" by (simp_all add: package_request_def)
  obtain d where d: "decode_valid (Some (canonicalJson_doc moved_definition)) = Inr d" "bd_id d = do_blueprintId new_document" "bd_id d \<noteq> []"
    "package_roots d = [''lib'']"
    using sample_save_fits(1) by (auto simp: package_roots_def split: sum.splits)
  have hist: "revision_history sample_codec (pk_history ?s)"
    unfolding package_before_def by (simp add: rh_faults sample_reachable(1))
  have tree: "tree_ok (pk_tree ?s)"
    by (simp add: package_before_def tree_ok_def inside_def under_iff) (auto simp: append_eq_Cons_conv Cons_eq_append_conv)
  have fits: "package_fits sample_codec [''lib''] new_files"
    using sample_save_fits(3,4) by (simp add: package_fits_def new_files_def at_or_under_def under_def)
  have files: "files_of ?s q \<noteq> None \<Longrightarrow> q = ''lib/old.md''" for q
    by (auto simp: files_of_def package_before_def split: if_splits)
  hence un: "unobstructed [''lib/old.md''] new_files [''lib''] ?s" by (auto simp: unobstructed_def)
  have new: "listed (pk_history ?s) = {}" by (simp add: package_before_def no_history_def index_of_def)
  have load: "fst (loadDefinitionDocument sample_codec ?s) = (case Some old_document of Some old \<Rightarrow> Inr old | None \<Rightarrow> Inl DefinitionDocumentMissing)"
    using sample_save_run(1) by simp
  have sorted: "sort_key fst new_files = [(''lib/new.md'', ''New.''), (''lib/notes/a.md'', ''A.'')]" by code_simp
  have now: "js_is_finite (Finite 1)" by simp
  have none: "pk_commit ?s = Absent" by (simp add: package_before_def)
  have d2: "bd_id d = do_blueprintId (documentValue sample_codec (sr_definition package_request) new_files)"
    using d(2) by (simp add: req new_document_def)
  have d1: "decode_valid (Some (canonicalJson_doc (sr_definition package_request))) = Inr d" using d(1) by (simp add: req)
  have "\<exists>fs u. loadDefinitionPackage sample_codec (put_faults [] s') = (Inr (documentValue sample_codec (sr_definition package_request) new_files, fs), u)
      \<and> sort_key fst fs = sort_key fst new_files"
    by (rule interrupted_save_completes [OF hist sample_codec_ok tree none req(2) now d1 d2 d(3) _ load sample_save_fits(2) _ _ save ll_none])
       (use fits un new d(4) in simp_all)
  thus ?thesis using save unfolding sorted req new_document_def [symmetric] by blast
qed

section \<open>Files in the way\<close>

lemma collect_paths_found:
  "collect_paths c t rs acc = Inr out \<Longrightarrow> \<forall>r\<in>set rs. validateClosurePath c r = Inr () \<and> map_of t r \<noteq> None"
proof (induction rs arbitrary: acc)
  case (Cons r rs)
  thus ?case by (auto simp: ebind_Inr collect_def split: option.splits)
qed simp

lemma read_contains:
  assumes "readPackageFiles c (pk_tree s) d = Inr fs" and tree: "tree_ok (pk_tree s)" and "files_of s u \<noteq> None" and "at_or_under (set (package_roots d)) u"
  shows "u \<in> fst ` set fs"
proof -
  let ?rs = "(if map_of (pk_tree s) ''lib'' = None then [] else [''lib'']) @ resource_paths d"
  have run: "collect_paths c (pk_tree s) ?rs [] = Inr fs" using assms(1) by (simp add: readPackageFiles_def)
  have "distinct (map fst ([] :: 'a dict))" by simp
  from collect_paths_ok [OF tree collect_paths_found [OF run] this] run
  have tab: "\<forall>q. map_of fs q = (if at_or_under (set ?rs) q \<and> files_of s q \<noteq> None then files_of s q else map_of [] q)" by auto
  obtain e where e: "map_of (pk_tree s) u = Some e" using assms(3) by (auto simp: files_of_def split: option.splits)
  have "at_or_under (set ?rs) u"
  proof (cases "u = ''lib'' \<or> under ''lib'' u")
    case True
    hence "map_of (pk_tree s) ''lib'' \<noteq> None" using e tree_okD [OF tree e] by auto
    thus ?thesis using True by (auto simp: at_or_under_def)
  next
    case False
    thus ?thesis using assms(4) by (auto simp: at_or_under_def package_roots_def)
  qed
  hence "map_of fs u \<noteq> None" using tab assms(3) by simp
  thus ?thesis by (simp add: map_of_eq_None_iff)
qed

definition blocked :: "'b codec \<Rightarrow> definition_commit \<Rightarrow> string \<Rightarrow> 'b package_store \<Rightarrow> bool" where
  "blocked c cm u s \<longleftrightarrow> pk_commit s = Stored cm \<and> tree_ok (pk_tree s) \<and> files_of s u \<noteq> None"

lemma blocked_step:
  assumes "dir_step (set (dc_cleanup cm) - fst ` set (commit_bytes c cm)) (commit_bytes c cm) s t" and "blocked c cm u s" and "u \<notin> set (dc_cleanup cm)"
  shows "blocked c cm u t"
  using assms unfolding blocked_def dir_step_def same_docs_def by (metis DiffD1 option.distinct(1))

lemma replay_blocked:
  assumes run: "replay c cm s = (res, t)" and b: "blocked c cm u s" and d: "decode_valid (do_definitionJson (dc_document cm)) = Inr d"
    and u: "u \<notin> set (dc_cleanup cm)" "at_or_under (set (package_roots d)) u"
    and collision: "\<forall>fs. u \<in> fst ` set fs \<longrightarrow> documentValue c (the (do_definitionJson (dc_document cm))) fs \<noteq> dc_document cm"
  shows "res \<noteq> Inr () \<and> blocked c cm u t"
  using run d
proof (cases rule: replay_cases)
  case unread
  thus ?thesis using b by simp
next
  case (files r1 s1)
  thus ?thesis using blocked_step [OF apply_step(1) [OF files(1)] b u(1)] by simp
next
  case (dirs s1 r2 s2)
  thus ?thesis using blocked_step [OF replay_stages(2) [OF dirs(1,2)] b u(1)] by simp
next
  case (mismatch s1 s2)
  thus ?thesis using blocked_step [OF replay_stages(2) [OF mismatch(1,2)] b u(1)] by simp
next
  case (publish s1 s2 fs)
  have "blocked c cm u s2" by (rule blocked_step [OF replay_stages(2) [OF publish(1,2)] b u(1)])
  hence "u \<in> fst ` set fs" using read_contains [OF publish(3) _ _ u(2)] by (simp add: blocked_def)
  thus ?thesis using collision publish(4) by blast
qed

text \<open>C37: A file at or below a root of the definition that is neither captured in the intent nor part of its
  package blocks the package for ever: every load from then on reports the pending commit, whatever fails
  or does not fail, and the file stays. The hypothesis on the codec is that SHA-256 tells the two file sets
  apart.\<close>

theorem uncaptured_file_blocks:
  assumes later: "later_loads c s t" and intent: "pk_commit s = Stored cm" and tree: "tree_ok (pk_tree s)" and there: "files_of s u \<noteq> None"
    and d: "decode_valid (do_definitionJson (dc_document cm)) = Inr d" and u: "u \<notin> set (dc_cleanup cm)" "at_or_under (set (package_roots d)) u"
    and collision: "\<forall>fs. u \<in> fst ` set fs \<longrightarrow> documentValue c (the (do_definitionJson (dc_document cm))) fs \<noteq> dc_document cm"
  shows "fst (loadDefinitionDocument c t) = Inl DefinitionCommitPending \<and> files_of t u \<noteq> None"
proof -
  have step: "fst (loadDefinitionDocument c t) = Inl DefinitionCommitPending \<and> blocked c cm u (snd (loadDefinitionDocument c t))"
    if b: "blocked c cm u t" for t
  proof -
    obtain r v where r: "pbind (validateDefinitionCommit c cm, t) (\<lambda>_. replay c cm) = (r, v)" by fastforce
    have "r \<noteq> Inr () \<and> blocked c cm u v"
    proof (cases "validateDefinitionCommit c cm")
      case (Inl e)
      thus ?thesis using r b by auto
    next
      case (Inr x)
      thus ?thesis using r replay_blocked [OF _ b d u collision, of r v] by simp
    qed
    moreover have "recoverDefinitionCommit c t = (case r of Inr _ \<Rightarrow> (Inr (), v) | Inl _ \<Rightarrow> (Inl DefinitionCommitPending, v))"
      using b r by (simp add: recoverDefinitionCommit_def blocked_def split: sum.splits)
    ultimately show ?thesis by (cases r) (simp_all add: load_eq)
  qed
  have "blocked c cm u t" using later
  proof (induction rule: later_loads.induct)
    case ll_none
    show ?case using intent tree there by (simp add: blocked_def)
  next
    case (ll_load t)
    thus ?case using step by simp
  next
    case (ll_faults t fs)
    thus ?case by (simp add: blocked_def)
  qed
  thus ?thesis using step by (simp add: blocked_def)
qed

text \<open>An empty package is restored while \<open>lib\<close> holds a temporary file of an interrupted write. This codec tells
  packages apart by the names of their files.\<close>

definition names_codec :: "string codec" where
  "names_codec = sample_codec\<lparr>co_hash := \<lambda>ns v. ''sha-'' @ ns @ (case jfield ''files'' v of JObj kvs \<Rightarrow> concat (map fst kvs) | _ \<Rightarrow> [])\<rparr>"

definition empty_commit :: definition_commit where
  "empty_commit = \<lparr>dc_document = documentValue names_codec (package_definition []) [], dc_packageFiles = [], dc_cleanup = []\<rparr>"

definition leftover_store :: "string package_store" where
  "leftover_store = \<lparr>pk_blueprint = None, pk_commit = Stored empty_commit,
     pk_tree = [(''lib'', DirEntry), (''lib/a.md.7.tmp'', FileEntry ''A'')], pk_history = no_history\<rparr>"

lemma names_codec_apart:
  assumes "''lib/a.md.7.tmp'' \<in> fst ` set fs"
  shows "documentValue names_codec v fs \<noteq> documentValue names_codec v []"
proof -
  have field: "jfield ''files'' (canonicalJson_doc (JObj [(''definition'', w), (''files'', JObj kvs)])) = json_norm (JObj kvs)" for w kvs
    unfolding canonicalJson_doc_def jfield_norm by simp
  have hash: "co_hash names_codec ns w = ''sha-'' @ ns @ (case jfield ''files'' w of JObj kvs \<Rightarrow> concat (map fst kvs) | _ \<Rightarrow> [])" for ns w
    by (simp add: names_codec_def)
  have rev: "do_semanticRevision (documentValue names_codec v gs) = ''sha-'' @ ''xuanling-blueprint-document-semantic-v2''
      @ concat (map fst (sort_key fst gs))" for gs :: "string dict"
  proof -
    have m: "map (\<lambda>(p, h). (p, JStr h)) (map (\<lambda>(p, b). (p, co_digest names_codec b)) gs) = on_values (\<lambda>b. JStr (co_digest names_codec b)) gs"
      by (induction gs) auto
    have n: "json_norm (JObj (on_values (\<lambda>b. JStr (co_digest names_codec b)) gs)) = JObj (on_values (\<lambda>b. JStr (co_digest names_codec b)) (sort_key fst gs))"
      unfolding norm_obj sort_values by (auto simp: comp_def apsnd_def map_prod_def)
    show ?thesis
      unfolding documentValue_def documentRevisions_def Let_def prod.case m
      by (simp add: hash field n del: json_norm.simps json_norm_fields.simps)
  qed
  have named: "concat (map fst (sort_key fst fs)) \<noteq> []" using assms by (force simp: concat_eq_Nil_conv)
  show ?thesis
  proof
    assume "documentValue names_codec v fs = documentValue names_codec v []"
    then have "do_semanticRevision (documentValue names_codec v fs) = do_semanticRevision (documentValue names_codec v [])"
      by simp
    then show False using named unfolding rev by simp
  qed
qed

theorem uncaptured_file_blocks_witness:
  "fst (loadDefinitionDocument names_codec (put_faults [] leftover_store)) = Inl DefinitionCommitPending
     \<and> files_of (put_faults [] leftover_store) ''lib/a.md.7.tmp'' = Some ''A''"
proof -
  have json: "do_definitionJson (dc_document empty_commit) = Some (canonicalJson_doc (package_definition []))"
    by (simp add: empty_commit_def documentValue_def split: prod.splits)
  have "case decode_valid (Some (canonicalJson_doc (package_definition []))) of Inl _ \<Rightarrow> False | Inr d \<Rightarrow> True" by code_simp
  then obtain d where d: "decode_valid (do_definitionJson (dc_document empty_commit)) = Inr d" unfolding json by (auto split: sum.splits)
  have intent: "pk_commit leftover_store = Stored empty_commit" by (simp add: leftover_store_def)
  have tree: "tree_ok (pk_tree leftover_store)"
    by (simp add: leftover_store_def tree_ok_def inside_def under_iff) (auto simp: append_eq_Cons_conv Cons_eq_append_conv)
  have there: "files_of leftover_store ''lib/a.md.7.tmp'' \<noteq> None" by (simp add: files_of_def leftover_store_def)
  have root: "at_or_under (set (package_roots d)) ''lib/a.md.7.tmp''" by (simp add: at_or_under_def package_roots_def under_def)
  have doc: "dc_document empty_commit = documentValue names_codec (canonicalJson_doc (package_definition [])) []" by code_simp
  have apart: "\<forall>fs. ''lib/a.md.7.tmp'' \<in> fst ` set fs
      \<longrightarrow> documentValue names_codec (the (do_definitionJson (dc_document empty_commit))) fs \<noteq> dc_document empty_commit"
    using names_codec_apart [of _ "canonicalJson_doc (package_definition [])"] doc json by simp
  have out: "''lib/a.md.7.tmp'' \<notin> set (dc_cleanup empty_commit)" by (simp add: empty_commit_def)
  show ?thesis
    using uncaptured_file_blocks [OF ll_faults [OF ll_none] intent tree there d out root apart, of "[]"]
    by (simp add: files_of_def leftover_store_def)
qed

end
