(* ===== verification/WriterLease.thy ===== *)
theory WriterLease
  imports Prelude
begin

text \<open>
  The writer lease of a runtime root, \<open>persistence/lease.ts\<close>. Several processes compete for one file by file
  operations that interleave; within a process the operations of the lease are synchronous. A contender
  is one \<open>WriterLease\<close> object: its payload, what it remembers, and the file operation it makes next. One
  step makes exactly one operation on the lease file or the takeover guard. Each file carries the
  contender that created it, which stands for the identity of the inode: a write through an open
  descriptor has no effect when the path holds another file by then. Errors of the disk other than absent
  and existing files are not modelled, and owner tokens are unique.
\<close>

section \<open>The lease file\<close>

record lease_payload =
  lp_ownerId :: string
  lp_pid :: int
  lp_startedAt :: js_number
  lp_runtimeRoot :: string

record lease_options =
  lo_takeoverThreshold :: int
  lo_links :: bool

datatype lease_error =
    AlreadyActive lease_payload | LeaseInvalid string "int option" | LeaseLost | LeaseFileExists

text \<open>The text of a lease file: what \<open>JSON.parse\<close> makes of it and the digits behind its first \<open>pid\<close> key.\<close>

record raw_lease =
  rl_json :: json_text
  rl_pid :: "int option"

definition safe_pid :: "int \<Rightarrow> bool" where
  "safe_pid n \<longleftrightarrow> \<bar>n\<bar> \<le> 2 ^ 53 - 1"

definition validPayload :: "json \<Rightarrow> bool" where
  "validPayload v \<longleftrightarrow>
     (case jfield ''ownerId'' v of JStr s \<Rightarrow> s \<noteq> [] | _ \<Rightarrow> False)
     \<and> (case jfield ''pid'' v of JNum x \<Rightarrow> (case js_int x of Some n \<Rightarrow> safe_pid n \<and> n > 0 | None \<Rightarrow> False) | _ \<Rightarrow> False)
     \<and> (case jfield ''startedAt'' v of JNum x \<Rightarrow> js_is_finite x | _ \<Rightarrow> False)
     \<and> (case jfield ''runtimeRoot'' v of JStr s \<Rightarrow> s \<noteq> [] | _ \<Rightarrow> False)"

definition payload_of :: "json \<Rightarrow> lease_payload" where
  "payload_of v = \<lparr>
     lp_ownerId = (case jfield ''ownerId'' v of JStr s \<Rightarrow> s | _ \<Rightarrow> []),
     lp_pid = (case jfield ''pid'' v of JNum x \<Rightarrow> (case js_int x of Some n \<Rightarrow> n | None \<Rightarrow> 0) | _ \<Rightarrow> 0),
     lp_startedAt = (case jfield ''startedAt'' v of JNum x \<Rightarrow> x | _ \<Rightarrow> NaN),
     lp_runtimeRoot = (case jfield ''runtimeRoot'' v of JStr s \<Rightarrow> s | _ \<Rightarrow> [])\<rparr>"

definition payload_text :: "lease_payload \<Rightarrow> raw_lease" where
  "payload_text p = \<lparr>
     rl_json = Some (JObj [(''ownerId'', JStr (lp_ownerId p)), (''pid'', JNum (Finite (of_int (lp_pid p)))),
       (''startedAt'', JNum (lp_startedAt p)), (''runtimeRoot'', JStr (lp_runtimeRoot p))]),
     rl_pid = Some (lp_pid p)\<rparr>"

definition empty_text :: raw_lease where
  "empty_text = \<lparr>rl_json = None, rl_pid = None\<rparr>"

definition extractPid :: "raw_lease \<Rightarrow> int option" where
  "extractPid r = (case rl_pid r of Some n \<Rightarrow> if safe_pid n \<and> n > 0 then Some n else None | None \<Rightarrow> None)"

datatype existing_lease = ValidLease lease_payload int | MalformedLease int "int option"

definition readExisting :: "raw_lease \<Rightarrow> int \<Rightarrow> existing_lease" where
  "readExisting r heartbeatAt =
     (case rl_json r of
        Some v \<Rightarrow> if validPayload v then ValidLease (payload_of v) heartbeatAt else MalformedLease heartbeatAt (extractPid r)
      | None \<Rightarrow> MalformedLease heartbeatAt (extractPid r))"

fun stale :: "int \<Rightarrow> int \<Rightarrow> (int \<Rightarrow> string option \<Rightarrow> bool) \<Rightarrow> existing_lease \<Rightarrow> bool" where
  "stale now threshold alive (ValidLease p hb) \<longleftrightarrow> \<not> alive (lp_pid p) (Some (lp_ownerId p)) \<and> now - hb > threshold"
| "stale now threshold alive (MalformedLease hb (Some pid)) \<longleftrightarrow> \<not> alive pid None \<and> now - hb > threshold"
| "stale now threshold alive (MalformedLease hb None) \<longleftrightarrow> False"

fun activeOwnerError :: "existing_lease \<Rightarrow> lease_error" where
  "activeOwnerError (ValidLease p _) = AlreadyActive p"
| "activeOwnerError (MalformedLease _ None) = LeaseInvalid ''malformed-owner'' None"
| "activeOwnerError (MalformedLease _ (Some pid)) = LeaseInvalid ''owner-alive-or-heartbeat-fresh'' (Some pid)"

section \<open>Contenders\<close>

record lease_file =
  lf_creator :: string
  lf_text :: raw_lease
  lf_mtime :: int

record guard_file =
  gf_creator :: string
  gf_token :: "string option"
  gf_mtime :: int

record lease_disk =
  ld_lease :: "lease_file option"
  ld_guard :: "guard_file option"

text \<open>Where \<open>writeExclusive\<close> and \<open>readExisting\<close> are called: first in \<open>acquire\<close>, then in \<open>acquireExisting\<close>
  before and under the takeover guard.\<close>

datatype lease_stage = Initially | Unguarded | Guarded

datatype lease_state =
    Preparing lease_stage | Linking lease_stage | Filling lease_stage
  | Inspecting lease_stage | Reading lease_stage int
  | Claiming nat | Tokening | Aging nat | Clearing
  | Staging | Replacing | Verifying
  | Unclaiming "lease_error option" | Unguarding "lease_error option"
  | Owning | Touching | Removing | Closed | Refused lease_error | Gone

record contender =
  ct_payload :: lease_payload
  ct_state :: lease_state
  ct_stamp :: int
  ct_held :: bool
  ct_lost :: bool

definition owned_by :: "string \<Rightarrow> lease_disk \<Rightarrow> bool" where
  "owned_by ownerId disk \<longleftrightarrow>
     (case ld_lease disk of
        None \<Rightarrow> False
      | Some f \<Rightarrow> (case rl_json (lf_text f) of
          None \<Rightarrow> False
        | Some v \<Rightarrow> validPayload v \<and> lp_ownerId (payload_of v) = ownerId))"

abbreviation goto :: "lease_state \<Rightarrow> contender \<Rightarrow> contender" where
  "goto l c \<equiv> c\<lparr>ct_state := l\<rparr>"

text \<open>\<open>WriterLease.installed\<close> comes at once, or under the guard after \<open>verifyInstalled\<close>.\<close>

fun link_created :: "lease_stage \<Rightarrow> contender \<Rightarrow> contender" where
  "link_created Guarded c = goto Verifying c"
| "link_created _ c = c\<lparr>ct_state := Owning, ct_held := True\<rparr>"

fun occupied :: "lease_stage \<Rightarrow> contender \<Rightarrow> contender" where
  "occupied Initially c = goto (Inspecting Unguarded) c"
| "occupied Unguarded c = goto (Refused LeaseFileExists) c"
| "occupied Guarded c = goto (Unclaiming (Some LeaseFileExists)) c"

fun judge :: "lease_stage \<Rightarrow> bool \<Rightarrow> existing_lease \<Rightarrow> contender \<Rightarrow> contender" where
  "judge Guarded True e c = goto Staging c"
| "judge Guarded False e c = goto (Unclaiming (Some (activeOwnerError e))) c"
| "judge _ True e c = goto (Claiming 0) c"
| "judge _ False e c = goto (Refused (activeOwnerError e)) c"

definition busy_guard :: "contender \<Rightarrow> contender" where
  "busy_guard c = goto (Refused (LeaseInvalid ''takeover-in-progress'' None)) c"

definition contender_step ::
  "lease_options \<Rightarrow> (int \<Rightarrow> string option \<Rightarrow> bool) \<Rightarrow> int \<Rightarrow> contender \<Rightarrow> lease_disk \<Rightarrow> contender \<times> lease_disk" where
  "contender_step opts alive now c disk =
     (let o' = lp_ownerId (ct_payload c) in
      case ct_state c of
        Preparing st \<Rightarrow> (c\<lparr>ct_state := Linking st, ct_stamp := now\<rparr>, disk)
      | Linking st \<Rightarrow>
          if ld_lease disk \<noteq> None then (occupied st c, disk)
          else if lo_links opts
          then (link_created st c, disk\<lparr>ld_lease := Some \<lparr>lf_creator = o', lf_text = payload_text (ct_payload c), lf_mtime = ct_stamp c\<rparr>\<rparr>)
          else (goto (Filling st) c, disk\<lparr>ld_lease := Some \<lparr>lf_creator = o', lf_text = empty_text, lf_mtime = now\<rparr>\<rparr>)
      | Filling st \<Rightarrow>
          (link_created st c,
           case ld_lease disk of
             Some f \<Rightarrow> if lf_creator f = o' then disk\<lparr>ld_lease := Some (f\<lparr>lf_text := payload_text (ct_payload c), lf_mtime := now\<rparr>)\<rparr> else disk
           | None \<Rightarrow> disk)
      | Inspecting st \<Rightarrow>
          (case ld_lease disk of None \<Rightarrow> goto (Preparing st) c | Some f \<Rightarrow> goto (Reading st (lf_mtime f)) c, disk)
      | Reading st hb \<Rightarrow>
          (case ld_lease disk of
             None \<Rightarrow> goto (Preparing st) c
           | Some f \<Rightarrow> let e = readExisting (lf_text f) hb in judge st (stale now (lo_takeoverThreshold opts) alive e) e c, disk)
      | Claiming n \<Rightarrow>
          if ld_guard disk = None
          then (goto Tokening c, disk\<lparr>ld_guard := Some \<lparr>gf_creator = o', gf_token = None, gf_mtime = now\<rparr>\<rparr>)
          else (goto (Aging n) c, disk)
      | Tokening \<Rightarrow>
          (goto (Inspecting Guarded) c,
           case ld_guard disk of
             Some g \<Rightarrow> if gf_creator g = o' then disk\<lparr>ld_guard := Some (g\<lparr>gf_token := Some o', gf_mtime := now\<rparr>)\<rparr> else disk
           | None \<Rightarrow> disk)
      | Aging n \<Rightarrow>
          (case ld_guard disk of
             None \<Rightarrow> if n = 0 then goto (Claiming 1) c else busy_guard c
           | Some g \<Rightarrow> if n > 0 \<or> now - gf_mtime g \<le> lo_takeoverThreshold opts then busy_guard c else goto Clearing c, disk)
      | Clearing \<Rightarrow> (goto (Claiming 1) c, disk\<lparr>ld_guard := None\<rparr>)
      | Staging \<Rightarrow> (c\<lparr>ct_state := Replacing, ct_stamp := now\<rparr>, disk)
      | Replacing \<Rightarrow>
          (goto Verifying c, disk\<lparr>ld_lease := Some \<lparr>lf_creator = o', lf_text = payload_text (ct_payload c), lf_mtime = ct_stamp c\<rparr>\<rparr>)
      | Verifying \<Rightarrow>
          (if owned_by o' disk then c\<lparr>ct_state := Unclaiming None, ct_held := True\<rparr> else goto (Unclaiming (Some LeaseLost)) c, disk)
      | Unclaiming r \<Rightarrow>
          (if map_option gf_token (ld_guard disk) = Some (Some o') then goto (Unguarding r) c
           else goto (case r of None \<Rightarrow> Owning | Some e \<Rightarrow> Refused e) c, disk)
      | Unguarding r \<Rightarrow> (goto (case r of None \<Rightarrow> Owning | Some e \<Rightarrow> Refused e) c, disk\<lparr>ld_guard := None\<rparr>)
      | Touching \<Rightarrow>
          (goto Owning c,
           case ld_lease disk of
             Some f \<Rightarrow> if lf_creator f = o' then disk\<lparr>ld_lease := Some (f\<lparr>lf_mtime := now\<rparr>)\<rparr> else disk
           | None \<Rightarrow> disk)
      | Removing \<Rightarrow> (goto Closed c, disk\<lparr>ld_lease := None\<rparr>)
      | _ \<Rightarrow> (c, disk))"

section \<open>Processes\<close>

record lease_world =
  lw_disk :: lease_disk
  lw_now :: int
  lw_alive :: "int list"
  lw_contenders :: "contender dict"

fun at_rest :: "lease_state \<Rightarrow> bool" where
  "at_rest Owning = True" | "at_rest Closed = True" | "at_rest (Refused _) = True" | "at_rest Gone = True" | "at_rest _ = False"

abbreviation ct_pid :: "contender \<Rightarrow> int" where
  "ct_pid c \<equiv> lp_pid (ct_payload c)"

definition process_idle :: "lease_world \<Rightarrow> int \<Rightarrow> bool" where
  "process_idle w pid \<longleftrightarrow>
     list_all (\<lambda>k. case map_of (lw_contenders w) k of Some c \<Rightarrow> ct_pid c = pid \<longrightarrow> at_rest (ct_state c) | None \<Rightarrow> True) (map fst (lw_contenders w))"

text \<open>The owner tokens \<open>heldOwners\<close> of the process that asks decide about its own process id.\<close>

definition ownerAlive :: "lease_world \<Rightarrow> int \<Rightarrow> int \<Rightarrow> string option \<Rightarrow> bool" where
  "ownerAlive w self pid ownerId \<longleftrightarrow>
     (if pid = self
      then (case Option.bind ownerId (map_of (lw_contenders w)) of Some c \<Rightarrow> ct_held c \<and> ct_pid c = self | None \<Rightarrow> False)
      else pid \<in> set (lw_alive w))"

definition put_contender :: "string \<Rightarrow> contender \<Rightarrow> lease_world \<Rightarrow> lease_world" where
  "put_contender o' c w = w\<lparr>lw_contenders := AList.update o' c (lw_contenders w)\<rparr>"

text \<open>An operation of an installed owner starts while its process runs no other operation.\<close>

definition owner_op :: "(contender \<Rightarrow> contender) \<Rightarrow> string \<Rightarrow> lease_world \<Rightarrow> lease_world option" where
  "owner_op f o' w =
     (case map_of (lw_contenders w) o' of
        Some c \<Rightarrow> if ct_state c = Owning \<and> process_idle w (ct_pid c) then Some (put_contender o' (f c) w) else None
      | None \<Rightarrow> None)"

definition markLost :: "contender \<Rightarrow> contender" where
  "markLost c = c\<lparr>ct_lost := True, ct_held := False\<rparr>"

definition assertOwned :: "lease_disk \<Rightarrow> contender \<Rightarrow> contender" where
  "assertOwned disk c = (if ct_lost c \<or> owned_by (lp_ownerId (ct_payload c)) disk then c else markLost c)"

definition heartbeat :: "lease_disk \<Rightarrow> contender \<Rightarrow> contender" where
  "heartbeat disk c =
     (if ct_lost c then c
      else if owned_by (lp_ownerId (ct_payload c)) disk then goto Touching c else markLost c)"

definition release :: "lease_disk \<Rightarrow> contender \<Rightarrow> contender" where
  "release disk c =
     (if ct_lost c then goto Closed c
      else if owned_by (lp_ownerId (ct_payload c)) disk then c\<lparr>ct_held := False, ct_state := Removing\<rparr>
      else c\<lparr>ct_held := False, ct_state := Closed\<rparr>)"

definition acquire_start :: "string \<Rightarrow> int \<Rightarrow> int \<Rightarrow> string \<Rightarrow> contender" where
  "acquire_start o' pid now path =
     \<lparr>ct_payload = \<lparr>lp_ownerId = o', lp_pid = pid, lp_startedAt = Finite (of_int now), lp_runtimeRoot = path\<rparr>,
      ct_state = Preparing Initially, ct_stamp = now, ct_held = False, ct_lost = False\<rparr>"

text \<open>A token is new: no contender and no file on the disk has it.\<close>

definition fresh_token :: "string \<Rightarrow> lease_world \<Rightarrow> bool" where
  "fresh_token o' w \<longleftrightarrow> o' \<noteq> [] \<and> map_of (lw_contenders w) o' = None
     \<and> (case ld_lease (lw_disk w) of Some f \<Rightarrow> lf_creator f \<noteq> o' \<and> \<not> owned_by o' (lw_disk w) | None \<Rightarrow> True)
     \<and> (case ld_guard (lw_disk w) of Some g \<Rightarrow> gf_creator g \<noteq> o' \<and> gf_token g \<noteq> Some o' | None \<Rightarrow> True)"

datatype lease_event =
    Acquire string int string | Proceed string | Check string | Beat string | Release string
  | Pass nat | Crash int | Spawn int

fun crash_contender :: "int \<Rightarrow> contender \<Rightarrow> contender" where
  "crash_contender pid c = (if ct_pid c = pid then c\<lparr>ct_state := Gone, ct_held := False\<rparr> else c)"

fun lease_fire :: "lease_options \<Rightarrow> lease_event \<Rightarrow> lease_world \<Rightarrow> lease_world option" where
  "lease_fire opts (Acquire o' pid path) w =
     (if fresh_token o' w \<and> pid \<in> set (lw_alive w) \<and> safe_pid pid \<and> pid > 0 \<and> path \<noteq> [] \<and> process_idle w pid
      then Some (put_contender o' (acquire_start o' pid (lw_now w) path) w) else None)"
| "lease_fire opts (Proceed o') w =
     (case map_of (lw_contenders w) o' of
        Some c \<Rightarrow>
          if at_rest (ct_state c) then None
          else (case contender_step opts (ownerAlive w (ct_pid c)) (lw_now w) c (lw_disk w) of
                  (c1, disk) \<Rightarrow> Some (put_contender o' c1 (w\<lparr>lw_disk := disk\<rparr>)))
      | None \<Rightarrow> None)"
| "lease_fire opts (Check o') w = owner_op (assertOwned (lw_disk w)) o' w"
| "lease_fire opts (Beat o') w = owner_op (heartbeat (lw_disk w)) o' w"
| "lease_fire opts (Release o') w = owner_op (release (lw_disk w)) o' w"
| "lease_fire opts (Pass d) w = Some (w\<lparr>lw_now := lw_now w + int d\<rparr>)"
| "lease_fire opts (Crash pid) w =
     (if pid \<in> set (lw_alive w)
      then Some (w\<lparr>lw_alive := removeAll pid (lw_alive w), lw_contenders := map (\<lambda>(k, c). (k, crash_contender pid c)) (lw_contenders w)\<rparr>)
      else None)"
| "lease_fire opts (Spawn pid) w = (if pid \<in> set (lw_alive w) then None else Some (w\<lparr>lw_alive := pid # lw_alive w\<rparr>))"

fun lease_run :: "lease_options \<Rightarrow> lease_event list \<Rightarrow> lease_world \<Rightarrow> lease_world option" where
  "lease_run opts [] w = Some w"
| "lease_run opts (e # es) w = Option.bind (lease_fire opts e w) (lease_run opts es)"

text \<open>Nobody contends yet; the disk may hold a lease of an earlier time.\<close>

definition lease_begin :: "lease_file option \<Rightarrow> guard_file option \<Rightarrow> int \<Rightarrow> int list \<Rightarrow> lease_world" where
  "lease_begin f g now pids =
     \<lparr>lw_disk = \<lparr>ld_lease = f, ld_guard = g\<rparr>, lw_now = now, lw_alive = pids, lw_contenders = []\<rparr>"

end
