(* ===== verification/LeaseFacts.thy ===== *)
theory LeaseFacts
  imports WriterLease
begin

text \<open>
  Facts about runs of the lease protocol: what a step may do to the two files, payloads that
  are read back as they were written, and the invariant of runs in which no takeover guard is left behind.
\<close>

section \<open>Payloads\<close>

definition payload_valid :: "lease_payload \<Rightarrow> bool" where
  "payload_valid p \<longleftrightarrow> lp_ownerId p \<noteq> [] \<and> safe_pid (lp_pid p) \<and> lp_pid p > 0 \<and> js_is_finite (lp_startedAt p) \<and> lp_runtimeRoot p \<noteq> []"

lemma payload_read:
  assumes "rl_json (payload_text p) = Some v"
  shows "validPayload v \<longleftrightarrow> payload_valid p" "payload_of v = p"
proof -
  have fields: "jfield ''ownerId'' v = JStr (lp_ownerId p)" "jfield ''pid'' v = JNum (Finite (of_int (lp_pid p)))"
    "jfield ''startedAt'' v = JNum (lp_startedAt p)" "jfield ''runtimeRoot'' v = JStr (lp_runtimeRoot p)"
    using assms by (auto simp: payload_text_def)
  show "validPayload v \<longleftrightarrow> payload_valid p" by (auto simp: validPayload_def fields payload_valid_def)
  show "payload_of v = p" by (simp add: payload_of_def fields)
qed

lemma payload_existing: "payload_valid p \<Longrightarrow> readExisting (payload_text p) hb = ValidLease p hb"
  using payload_read [of p] by (simp add: readExisting_def payload_text_def)

lemma owned_payload:
  "payload_valid p \<Longrightarrow> owned_by o' (d\<lparr>ld_lease := Some f\<rparr>) \<longleftrightarrow> lp_ownerId p = o'" if "lf_text f = payload_text p"
  using that payload_read [of p] by (simp add: owned_by_def payload_text_def)

lemma owned_payload_disk:
  "ld_lease d = Some f \<Longrightarrow> lf_text f = payload_text p \<Longrightarrow> payload_valid p \<Longrightarrow> owned_by o' d \<longleftrightarrow> lp_ownerId p = o'"
  using payload_read [of p] by (simp add: owned_by_def payload_text_def)

lemma empty_existing [simp]: "readExisting empty_text hb = MalformedLease hb None"
  by (simp add: readExisting_def empty_text_def extractPid_def)

section \<open>Contenders of a world\<close>

abbreviation contenders :: "lease_world \<Rightarrow> string \<Rightarrow> contender option" where
  "contenders w \<equiv> map_of (lw_contenders w)"

lemma process_idle_iff:
  "process_idle w pid \<longleftrightarrow> (\<forall>k c. contenders w k = Some c \<and> ct_pid c = pid \<longrightarrow> at_rest (ct_state c))"
proof -
  have "k \<in> set (map fst (lw_contenders w))" if "contenders w k = Some c" for k c
    using that by (auto dest: map_of_SomeD intro!: image_eqI)
  thus ?thesis unfolding process_idle_def list_all_iff by (auto split: option.splits)
qed

lemma put_contender_fields [simp]:
  "contenders (put_contender k c w) = (contenders w)(k \<mapsto> c)" "lw_disk (put_contender k c w) = lw_disk w"
  "lw_now (put_contender k c w) = lw_now w" "lw_alive (put_contender k c w) = lw_alive w"
  by (simp_all add: put_contender_def update_conv')

lemma crash_contenders: "map_of (map (\<lambda>(k, c). (k, f c)) kvs) k = map_option f (map_of kvs k)"
  by (induction kvs) auto

lemma crash_fields [simp]:
  "ct_payload (crash_contender pid c) = ct_payload c" "ct_lost (crash_contender pid c) = ct_lost c"
  "ct_state (crash_contender pid c) = (if ct_pid c = pid then Gone else ct_state c)"
  "ct_held (crash_contender pid c) \<longleftrightarrow> ct_pid c \<noteq> pid \<and> ct_held c"
  by (auto split: if_splits)

declare crash_contender.simps [simp del]

lemma link_created_fields [simp]:
  "ct_payload (link_created st c) = ct_payload c" "ct_lost (link_created st c) = ct_lost c"
  by (cases st; simp)+

lemma occupied_fields [simp]:
  "ct_payload (occupied st c) = ct_payload c" "ct_lost (occupied st c) = ct_lost c" "ct_held (occupied st c) = ct_held c"
  by (cases st; simp)+

lemma judge_fields [simp]:
  "ct_payload (judge st b e c) = ct_payload c" "ct_lost (judge st b e c) = ct_lost c" "ct_held (judge st b e c) = ct_held c"
  by (cases st; cases b; simp)+

lemma step_payload:
  "contender_step opts alive now c disk = (c1, d1) \<Longrightarrow> ct_payload c1 = ct_payload c \<and> ct_lost c1 = ct_lost c"
  by (cases "ct_state c") (auto simp: contender_step_def Let_def busy_guard_def split: option.splits if_splits)

lemma owner_op_Some:
  "owner_op f k w = Some w' \<longleftrightarrow>
     (\<exists>c. contenders w k = Some c \<and> ct_state c = Owning \<and> process_idle w (ct_pid c) \<and> w' = put_contender k (f c) w)"
  by (auto simp: owner_op_def split: option.splits)

lemma owner_payload [simp]:
  "ct_payload (assertOwned d c) = ct_payload c" "ct_payload (heartbeat d c) = ct_payload c" "ct_payload (release d c) = ct_payload c"
  by (simp_all add: assertOwned_def heartbeat_def release_def markLost_def)

lemma proceed_cases:
  assumes "lease_fire opts (Proceed k) w = Some w'"
  obtains c c1 d1 where "contenders w k = Some c" "\<not> at_rest (ct_state c)"
    "contender_step opts (ownerAlive w (ct_pid c)) (lw_now w) c (lw_disk w) = (c1, d1)"
    "w' = put_contender k c1 (w\<lparr>lw_disk := d1\<rparr>)"
  using assms by (auto split: option.splits if_splits prod.splits)

text \<open>Payloads name their contender and are valid, and the process of a contender that is not gone is alive.\<close>

definition lease_wf :: "lease_world \<Rightarrow> bool" where
  "lease_wf w \<longleftrightarrow> (\<forall>k c. contenders w k = Some c \<longrightarrow>
     lp_ownerId (ct_payload c) = k \<and> payload_valid (ct_payload c) \<and> (ct_state c \<noteq> Gone \<longrightarrow> ct_pid c \<in> set (lw_alive w)))"

lemma lease_wfD:
  "lease_wf w \<Longrightarrow> contenders w k = Some c \<Longrightarrow> lp_ownerId (ct_payload c) = k \<and> payload_valid (ct_payload c)"
  "lease_wf w \<Longrightarrow> contenders w k = Some c \<Longrightarrow> ct_state c \<noteq> Gone \<Longrightarrow> ct_pid c \<in> set (lw_alive w)"
  unfolding lease_wf_def by blast+

lemma lease_wf_fire:
  assumes wf: "lease_wf w" and run: "lease_fire opts e w = Some w'"
  shows "lease_wf w'"
proof (cases e)
  case (Acquire o' pid path)
  have "payload_valid (ct_payload (acquire_start o' pid (lw_now w) path))"
    if "o' \<noteq> []" "safe_pid pid" "pid > 0" "path \<noteq> []" using that by (simp add: payload_valid_def acquire_start_def)
  thus ?thesis using run wf Acquire
    by (auto simp: lease_wf_def fresh_token_def split: if_splits) (auto simp: acquire_start_def)
next
  case (Proceed k)
  from run [unfolded Proceed] show ?thesis
  proof (cases rule: proceed_cases)
    case (1 c c1 d1)
    from step_payload [OF 1(3)] have "ct_payload c1 = ct_payload c" by simp
    moreover have "ct_state c \<noteq> Gone" using 1(2) by auto
    ultimately show ?thesis using wf 1(1) unfolding 1(4) by (auto simp: lease_wf_def)
  qed
next
  case (Crash pid)
  thus ?thesis using run wf by (auto simp: lease_wf_def crash_contenders split: if_splits)
qed (use run wf in \<open>auto simp: lease_wf_def owner_op_Some split: if_splits\<close>)

lemma lease_run_invariant:
  assumes "lease_run opts es w = Some w'" and "P w" and "\<And>e w w'. P w \<Longrightarrow> lease_fire opts e w = Some w' \<Longrightarrow> P w'"
  shows "P w'"
  using assms(1,2)
proof (induction es arbitrary: w)
  case (Cons e es)
  thus ?case using assms(3) by (auto simp: bind_eq_Some_conv)
qed simp

lemma lease_wf_begin [simp]: "lease_wf (lease_begin f g now pids)"
  by (simp add: lease_wf_def lease_begin_def)

section \<open>Tokens on the disk\<close>

text \<open>A contender whose acquisition is over writes its token no more.\<close>

fun acquisition_over :: "lease_state \<Rightarrow> bool" where
  "acquisition_over Owning = True" | "acquisition_over Touching = True" | "acquisition_over Removing = True"
| "acquisition_over Closed = True" | "acquisition_over (Refused _) = True" | "acquisition_over Gone = True"
| "acquisition_over _ = False"

lemma step_token:
  assumes "contender_step opts alive now c disk = (c1, d1)" and "payload_valid (ct_payload c)" and "owned_by o' d1"
  shows "owned_by o' disk \<or> \<not> acquisition_over (ct_state c) \<and> o' = lp_ownerId (ct_payload c)"
proof -
  have "ld_lease d1 = ld_lease disk \<or> ld_lease d1 = None \<or> (\<exists>f t. ld_lease disk = Some f \<and> ld_lease d1 = Some (f\<lparr>lf_mtime := t\<rparr>))
      \<or> (\<exists>f. ld_lease d1 = Some f \<and> lf_text f \<in> {payload_text (ct_payload c), empty_text}) \<and> \<not> acquisition_over (ct_state c)"
    using assms(1) by (cases "ct_state c") (auto simp: contender_step_def Let_def split: option.splits if_splits)
  thus ?thesis using assms(2,3) payload_read [of "ct_payload c"]
    by (auto simp: owned_by_def empty_text_def split: option.splits)
qed

lemma step_over:
  "contender_step opts alive now c disk = (c1, d1) \<Longrightarrow> acquisition_over (ct_state c) \<Longrightarrow> acquisition_over (ct_state c1)"
  by (cases "ct_state c") (auto simp: contender_step_def)

definition fenced_off :: "string \<Rightarrow> lease_world \<Rightarrow> bool" where
  "fenced_off k w \<longleftrightarrow> lease_wf w \<and> (\<exists>c. contenders w k = Some c \<and> acquisition_over (ct_state c) \<and> (ct_lost c \<or> \<not> owned_by k (lw_disk w)))"


lemma fenced_off_fire:
  assumes off: "fenced_off k w" and run: "lease_fire opts e w = Some w'"
  shows "fenced_off k w'"
proof -
  obtain c where wf: "lease_wf w" and c: "contenders w k = Some c" "acquisition_over (ct_state c)" "ct_lost c \<or> \<not> owned_by k (lw_disk w)"
    using off by (auto simp: fenced_off_def)
  note wf' = lease_wf_fire [OF wf run]
  show ?thesis
  proof (cases e)
    case (Proceed i)
    from run [unfolded Proceed] show ?thesis
    proof (cases rule: proceed_cases)
      case (1 d d1 disk)
      note ids = lease_wfD(1) [OF wf 1(1)]
      have disk: "owned_by k (lw_disk w) \<or> \<not> acquisition_over (ct_state d) \<and> k = i" if "owned_by k disk"
        using step_token [OF 1(3) _ that] ids by simp
      show ?thesis
      proof (cases "i = k")
        case True
        hence "d = c" using 1(1) c(1) by simp
        thus ?thesis using True c wf' step_payload [OF 1(3)] step_over [OF 1(3)] disk unfolding 1(4) by (auto simp: fenced_off_def)
      next
        case False
        thus ?thesis using c wf' disk unfolding 1(4) by (auto simp: fenced_off_def)
      qed
    qed
  qed (use run c wf' lease_wfD(1) [OF wf c(1)] in \<open>auto simp: fenced_off_def fresh_token_def owner_op_Some crash_contenders
      assertOwned_def heartbeat_def release_def markLost_def split: if_splits\<close>)
qed


section \<open>Runs without a left over guard\<close>

fun holds_guard :: "lease_state \<Rightarrow> bool" where
  "holds_guard (Preparing st) \<longleftrightarrow> st = Guarded"
| "holds_guard (Linking st) \<longleftrightarrow> st = Guarded"
| "holds_guard (Filling st) \<longleftrightarrow> st = Guarded"
| "holds_guard (Inspecting st) \<longleftrightarrow> st = Guarded"
| "holds_guard (Reading st _) \<longleftrightarrow> st = Guarded"
| "holds_guard (Unclaiming _) \<longleftrightarrow> True"
| "holds_guard (Unguarding _) \<longleftrightarrow> True"
| "holds_guard l \<longleftrightarrow> l \<in> {Tokening, Staging, Replacing, Verifying}"

text \<open>No process ends while one of its contenders holds the guard, and nobody holds it longer than the
  takeover threshold.\<close>

fun orderly :: "lease_options \<Rightarrow> lease_event \<Rightarrow> lease_world \<Rightarrow> bool" where
  "orderly opts (Pass d) w \<longleftrightarrow>
     (case ld_guard (lw_disk w) of Some g \<Rightarrow> lw_now w + int d - gf_mtime g \<le> lo_takeoverThreshold opts | None \<Rightarrow> True)"
| "orderly opts (Crash pid) w \<longleftrightarrow>
     (case ld_guard (lw_disk w) of
        Some g \<Rightarrow> (case contenders w (gf_creator g) of Some c \<Rightarrow> ct_pid c \<noteq> pid | None \<Rightarrow> True)
      | None \<Rightarrow> True)"
| "orderly opts _ w \<longleftrightarrow> True"

fun orderly_run :: "lease_options \<Rightarrow> lease_event list \<Rightarrow> lease_world \<Rightarrow> bool" where
  "orderly_run opts [] w \<longleftrightarrow> True"
| "orderly_run opts (e # es) w \<longleftrightarrow>
     orderly opts e w \<and> (case lease_fire opts e w of Some w' \<Rightarrow> orderly_run opts es w' | None \<Rightarrow> True)"

lemma orderly_run_invariant:
  assumes "lease_run opts es w = Some w'" and "orderly_run opts es w" and "P w"
    and "\<And>e w w'. P w \<Longrightarrow> orderly opts e w \<Longrightarrow> lease_fire opts e w = Some w' \<Longrightarrow> P w'"
  shows "P w'"
  using assms(1-3)
proof (induction es arbitrary: w)
  case (Cons e es)
  thus ?case using assms(4) by (auto simp: bind_eq_Some_conv)
qed simp

text \<open>Exactly the contender that created the guard is inside.\<close>

definition guard_is :: "string \<Rightarrow> lease_state \<Rightarrow> guard_file option \<Rightarrow> bool" where
  "guard_is k l x \<longleftrightarrow> (\<exists>g. x = Some g \<and> gf_creator g = k \<and> gf_token g = (if l = Tokening then None else Some k))"

definition guard_inv :: "lease_options \<Rightarrow> lease_world \<Rightarrow> bool" where
  "guard_inv opts w \<longleftrightarrow>
     (\<forall>k c. contenders w k = Some c \<longrightarrow> ct_state c \<noteq> Clearing \<and>
        (holds_guard (ct_state c) \<longrightarrow> guard_is k (ct_state c) (ld_guard (lw_disk w))))
     \<and> (\<forall>g. ld_guard (lw_disk w) = Some g \<longrightarrow> lw_now w - gf_mtime g \<le> lo_takeoverThreshold opts
           \<and> (\<exists>c. contenders w (gf_creator g) = Some c \<and> holds_guard (ct_state c)))"

lemma step_guard:
  assumes "contender_step opts alive now c disk = (c1, d1)" and "lp_ownerId (ct_payload c) = k" and "ct_state c \<noteq> Clearing" and "\<not> at_rest (ct_state c)"
    and "holds_guard (ct_state c) \<Longrightarrow> \<exists>g. ld_guard disk = Some g \<and> gf_creator g = k \<and> gf_token g = (if ct_state c = Tokening then None else Some k)"
    and "\<And>g. ld_guard disk = Some g \<Longrightarrow> now - gf_mtime g \<le> lo_takeoverThreshold opts" and "0 \<le> lo_takeoverThreshold opts"
  shows "ct_state c1 \<noteq> Clearing \<and> (if holds_guard (ct_state c1)
     then (ld_guard disk = None \<or> holds_guard (ct_state c))
       \<and> (\<exists>g. ld_guard d1 = Some g \<and> gf_creator g = k \<and> gf_token g = (if ct_state c1 = Tokening then None else Some k)
            \<and> now - gf_mtime g \<le> lo_takeoverThreshold opts)
     else ld_guard d1 = (if holds_guard (ct_state c) then None else ld_guard disk))"
proof (cases "ct_state c")
  case (Preparing st) thus ?thesis using assms by (cases st) (auto simp: contender_step_def Let_def)
next
  case (Linking st) thus ?thesis using assms by (cases st) (auto simp: contender_step_def Let_def split: if_splits)
next
  case (Filling st) thus ?thesis using assms by (cases st) (auto simp: contender_step_def Let_def split: if_splits option.splits)
next
  case (Inspecting st) thus ?thesis using assms by (cases st) (auto simp: contender_step_def Let_def split: if_splits option.splits)
next
  case (Reading st hb)
  have "ct_state (judge st b e c) \<noteq> Clearing \<and> holds_guard (ct_state (judge st b e c)) = (st = Guarded) \<and> ct_state (judge st b e c) \<noteq> Tokening" for b e
    by (cases st; cases b) auto
  thus ?thesis using assms Reading by (auto simp: contender_step_def Let_def split: if_splits option.splits)
next
  case (Unclaiming r) thus ?thesis using assms by (cases r) (auto simp: contender_step_def Let_def split: if_splits option.splits)
next
  case (Unguarding r) thus ?thesis using assms by (cases r) (auto simp: contender_step_def Let_def split: if_splits option.splits)
next
  case (Aging n) thus ?thesis using assms by (auto simp: contender_step_def Let_def busy_guard_def split: if_splits option.splits)
next
  case (Claiming n) thus ?thesis using assms by (auto simp: contender_step_def Let_def split: if_splits option.splits)
qed (use assms in \<open>auto simp: contender_step_def Let_def split: if_splits option.splits\<close>)

lemma guard_invD:
  "guard_inv opts w \<Longrightarrow> contenders w k = Some c \<Longrightarrow> holds_guard (ct_state c) \<Longrightarrow>
     guard_is k (ct_state c) (ld_guard (lw_disk w))"
  "guard_inv opts w \<Longrightarrow> contenders w k = Some c \<Longrightarrow> ct_state c \<noteq> Clearing"
  unfolding guard_inv_def by blast+

lemma guard_inv_fire:
  assumes inv: "guard_inv opts w" and wf: "lease_wf w" and ok: "orderly opts e w" and run: "lease_fire opts e w = Some w'"
    and threshold: "0 \<le> lo_takeoverThreshold opts"
  shows "guard_inv opts w'"
proof (cases e)
  case (Proceed i)
  from run [unfolded Proceed] show ?thesis
  proof (cases rule: proceed_cases)
    case (1 c c1 d1)
    let ?g = "ld_guard (lw_disk w)"
    have step: "ct_state c1 \<noteq> Clearing \<and> (if holds_guard (ct_state c1)
     then (?g = None \<or> holds_guard (ct_state c)) \<and> guard_is i (ct_state c1) (ld_guard d1)
       \<and> (\<forall>g. ld_guard d1 = Some g \<longrightarrow> lw_now w - gf_mtime g \<le> lo_takeoverThreshold opts)
     else ld_guard d1 = (if holds_guard (ct_state c) then None else ?g))"
      using step_guard [OF 1(3), of i] inv 1 threshold lease_wfD [OF wf 1(1)] guard_invD [OF inv 1(1)]
      by (auto simp: guard_inv_def guard_is_def split: if_splits)
    have others: "ld_guard d1 = ?g \<and> \<not> holds_guard (ct_state c1)" if "contenders w j = Some d" "j \<noteq> i" "holds_guard (ct_state d)" for j d
      using guard_invD(1) [OF inv that(1,3)] guard_invD(1) [OF inv 1(1)] that(2) step by (auto simp: guard_is_def split: if_splits)
    show ?thesis unfolding 1(4) guard_inv_def
    proof (intro conjI allI impI)
      fix k d
      assume d: "contenders (put_contender i c1 (w\<lparr>lw_disk := d1\<rparr>)) k = Some d"
      show "ct_state d \<noteq> Clearing" using d step guard_invD(2) [OF inv] by (auto split: if_splits)
      assume "holds_guard (ct_state d)"
      thus "guard_is k (ct_state d) (ld_guard (lw_disk (put_contender i c1 (w\<lparr>lw_disk := d1\<rparr>))))"
        using d step others guard_invD(1) [OF inv] by (auto split: if_splits)
    next
      fix g
      assume g: "ld_guard (lw_disk (put_contender i c1 (w\<lparr>lw_disk := d1\<rparr>))) = Some g"
      show "lw_now (put_contender i c1 (w\<lparr>lw_disk := d1\<rparr>)) - gf_mtime g \<le> lo_takeoverThreshold opts"
        using g step inv by (auto simp: guard_inv_def split: if_splits)
      show "\<exists>c. contenders (put_contender i c1 (w\<lparr>lw_disk := d1\<rparr>)) (gf_creator g) = Some c \<and> holds_guard (ct_state c)"
      proof (cases "holds_guard (ct_state c1)")
        case True
        thus ?thesis using g step by (auto simp: guard_is_def)
      next
        case False
        hence "?g = Some g" "\<not> holds_guard (ct_state c)" using g step by (auto split: if_splits)
        then obtain e where "contenders w (gf_creator g) = Some e" "holds_guard (ct_state e)" using inv by (auto simp: guard_inv_def)
        thus ?thesis using 1(1) \<open>\<not> holds_guard (ct_state c)\<close> by auto
      qed
    qed
  qed
next
  case (Acquire o' pid path)
  thus ?thesis using run inv by (auto simp: guard_inv_def acquire_start_def fresh_token_def split: if_splits)
next
  case (Crash pid)
  thus ?thesis using run inv ok by (auto simp: guard_inv_def crash_contenders split: if_splits option.splits)
next
  case (Pass d)
  thus ?thesis using run inv ok by (auto simp: guard_inv_def)
qed (use run inv in \<open>auto simp: guard_inv_def owner_op_Some assertOwned_def heartbeat_def release_def markLost_def split: if_splits\<close>)


section \<open>Ownership in orderly runs\<close>

fun claims_lease :: "lease_state \<Rightarrow> bool \<Rightarrow> bool" where
  "claims_lease (Filling _) _ \<longleftrightarrow> True"
| "claims_lease (Unclaiming r) _ \<longleftrightarrow> r = None"
| "claims_lease (Unguarding r) _ \<longleftrightarrow> r = None"
| "claims_lease Owning lost \<longleftrightarrow> \<not> lost"
| "claims_lease l _ \<longleftrightarrow> l \<in> {Verifying, Touching, Removing}"

abbreviation claims :: "contender \<Rightarrow> bool" where
  "claims c \<equiv> claims_lease (ct_state c) (ct_lost c)"

definition lease_is :: "string \<Rightarrow> contender \<Rightarrow> lease_file option \<Rightarrow> bool" where
  "lease_is k c x \<longleftrightarrow> (\<exists>f. x = Some f \<and> lf_creator f = k
     \<and> lf_text f = (case ct_state c of Filling _ \<Rightarrow> empty_text | _ \<Rightarrow> payload_text (ct_payload c)))"

fun remembers :: "lease_state \<Rightarrow> bool \<Rightarrow> bool" where
  "remembers (Unclaiming r) _ \<longleftrightarrow> r = None"
| "remembers (Unguarding r) _ \<longleftrightarrow> r = None"
| "remembers Owning lost \<longleftrightarrow> \<not> lost"
| "remembers l _ \<longleftrightarrow> l = Touching"

definition claim_inv :: "lease_world \<Rightarrow> bool" where
  "claim_inv w \<longleftrightarrow>
     (\<forall>k c. contenders w k = Some c \<longrightarrow>
        (claims c \<longrightarrow> lease_is k c (ld_lease (lw_disk w)))
        \<and> (remembers (ct_state c) (ct_lost c) \<longrightarrow> ct_held c)
        \<and> (ct_state c \<in> {Staging, Replacing} \<longrightarrow>
             ld_lease (lw_disk w) \<noteq> None \<and> (\<forall>j d. contenders w j = Some d \<longrightarrow> \<not> claims d))
        \<and> (\<not> at_rest (ct_state c) \<longrightarrow>
             (\<forall>j d. contenders w j = Some d \<and> ct_pid d = ct_pid c \<and> j \<noteq> k \<longrightarrow> at_rest (ct_state d))))"

lemma claim_invI:
  assumes "\<And>k c. contenders w k = Some c \<Longrightarrow> claims c \<Longrightarrow> lease_is k c (ld_lease (lw_disk w))"
    and "\<And>k c. contenders w k = Some c \<Longrightarrow> remembers (ct_state c) (ct_lost c) \<Longrightarrow> ct_held c"
    and "\<And>k c. contenders w k = Some c \<Longrightarrow> ct_state c \<in> {Staging, Replacing} \<Longrightarrow> ld_lease (lw_disk w) \<noteq> None"
    and "\<And>k c j d. contenders w k = Some c \<Longrightarrow> ct_state c \<in> {Staging, Replacing} \<Longrightarrow> contenders w j = Some d \<Longrightarrow> \<not> claims d"
    and "\<And>k c j d. contenders w k = Some c \<Longrightarrow> \<not> at_rest (ct_state c) \<Longrightarrow> contenders w j = Some d \<Longrightarrow> ct_pid d = ct_pid c \<Longrightarrow> j \<noteq> k
      \<Longrightarrow> at_rest (ct_state d)"
  shows "claim_inv w"
  unfolding claim_inv_def by (intro allI impI conjI) (use assms in \<open>simp_all, blast?\<close>)

lemma claim_invD:
  assumes "claim_inv w" and "contenders w k = Some c"
  shows "claims c \<Longrightarrow> lease_is k c (ld_lease (lw_disk w))"
    and "remembers (ct_state c) (ct_lost c) \<Longrightarrow> ct_held c"
    and "ct_state c \<in> {Staging, Replacing} \<Longrightarrow> ld_lease (lw_disk w) \<noteq> None"
    and "ct_state c \<in> {Staging, Replacing} \<Longrightarrow> contenders w j = Some d \<Longrightarrow> \<not> claims d"
    and "\<not> at_rest (ct_state c) \<Longrightarrow> contenders w j = Some d \<Longrightarrow> ct_pid d = ct_pid c \<Longrightarrow> j \<noteq> k \<Longrightarrow> at_rest (ct_state d)"
  using assms unfolding claim_inv_def by blast+

lemma link_created_state: "ct_state (link_created st c) = (if st = Guarded then Verifying else Owning)" "ct_held (link_created st c) \<longleftrightarrow> st \<noteq> Guarded \<or> ct_held c"
  by (cases st; simp)+

lemma occupied_state:
  "ct_state (occupied st c) = (case st of Initially \<Rightarrow> Inspecting Unguarded | Unguarded \<Rightarrow> Refused LeaseFileExists | Guarded \<Rightarrow> Unclaiming (Some LeaseFileExists))"
  by (cases st) auto

lemma judge_state:
  "ct_state (judge st b e c) = (case st of Guarded \<Rightarrow> if b then Staging else Unclaiming (Some (activeOwnerError e))
     | _ \<Rightarrow> if b then Claiming 0 else Refused (activeOwnerError e))"
  by (cases st; cases b) auto

lemma step_claim:
  assumes "contender_step opts alive now c disk = (c1, d1)" and "lp_ownerId (ct_payload c) = k" and "payload_valid (ct_payload c)"
    and "claims c \<Longrightarrow> lease_is k c (ld_lease disk)" and "ct_state c \<in> {Staging, Replacing} \<Longrightarrow> ld_lease disk \<noteq> None"
    and "remembers (ct_state c) (ct_lost c) \<Longrightarrow> ct_held c" and "\<not> at_rest (ct_state c)"
  shows "(claims c1 \<longrightarrow> lease_is k c1 (ld_lease d1))
    \<and> (remembers (ct_state c1) (ct_lost c1) \<longrightarrow> ct_held c1)
    \<and> (ld_lease d1 = ld_lease disk \<or> ld_lease disk = None \<or> claims c \<or> ct_state c = Replacing)
    \<and> (claims c1 \<longrightarrow> claims c \<or> ld_lease disk = None \<or> ct_state c = Replacing)
    \<and> (ct_state c1 \<in> {Staging, Replacing} \<longrightarrow> ld_lease d1 = ld_lease disk \<and>
         (ct_state c = Staging \<or> (\<exists>f hb. ct_state c = Reading Guarded hb \<and> ld_lease disk = Some f
            \<and> stale now (lo_takeoverThreshold opts) alive (readExisting (lf_text f) hb))))"
proof (cases "ct_state c")
  case (Linking st) thus ?thesis using assms by (cases st) (auto simp: contender_step_def Let_def lease_is_def link_created_state split: if_splits)
next
  case (Filling st) thus ?thesis using assms by (cases st) (auto simp: contender_step_def Let_def lease_is_def link_created_state split: if_splits option.splits)
next
  case (Inspecting st) thus ?thesis using assms by (cases st) (auto simp: contender_step_def Let_def split: if_splits option.splits)
next
  case (Reading st hb)
  thus ?thesis using assms by (cases st) (auto simp: contender_step_def Let_def judge_state split: if_splits option.splits)
next
  case (Unclaiming r) thus ?thesis using assms by (cases r) (auto simp: contender_step_def Let_def lease_is_def split: if_splits option.splits)
next
  case (Unguarding r) thus ?thesis using assms by (cases r) (auto simp: contender_step_def Let_def lease_is_def split: if_splits option.splits)
next
  case Verifying
  hence "owned_by k disk" using assms(2-4) owned_payload_disk by (auto simp: lease_is_def)
  thus ?thesis using assms Verifying by (auto simp: contender_step_def Let_def lease_is_def)
next
  case (Aging n) thus ?thesis using assms by (auto simp: contender_step_def Let_def busy_guard_def split: if_splits option.splits)
qed (use assms in \<open>auto simp: contender_step_def Let_def lease_is_def split: if_splits option.splits\<close>)

lemma live_owner_not_stale:
  assumes wf: "lease_wf w" and inv: "claim_inv w"
    and c: "contenders w k = Some c" "ct_state c = Reading Guarded hb" and f: "ld_lease (lw_disk w) = Some f"
    and stale: "stale now threshold (ownerAlive w (ct_pid c)) (readExisting (lf_text f) hb)"
    and d: "contenders w j = Some d"
  shows "\<not> claims d"
proof
  assume cl: "claims d"
  note there = claim_invD(1) [OF inv d cl]
  have own: "lp_ownerId (ct_payload d) = j" "payload_valid (ct_payload d)" using lease_wfD(1) [OF wf d] by auto
  have alive: "ct_pid d \<in> set (lw_alive w)" using lease_wfD(2) [OF wf d] cl by (cases "ct_state d") simp_all
  have "ct_held d" if "ct_pid d = ct_pid c"
  proof -
    have "j \<noteq> k" using c d cl by auto
    hence "at_rest (ct_state d)" using claim_invD(5) [OF inv c(1) _ d that] c(2) by simp
    hence "ct_state d = Owning" using cl by (cases "ct_state d") auto
    thus ?thesis using claim_invD(2) [OF inv d] cl by simp
  qed
  hence "ownerAlive w (ct_pid c) (ct_pid d) (Some j)" using alive d by (simp add: ownerAlive_def)
  thus False using stale f there own payload_existing [OF own(2)]
    by (auto simp: lease_is_def split: lease_state.splits)
qed

lemma claim_inv_new:
  assumes inv: "claim_inv w" and idle: "process_idle w (ct_pid c)" and new: "contenders w k = None" and c: "ct_state c = Preparing Initially"
  shows "claim_inv (put_contender k c w)"
proof (rule claim_invI)
  fix i d
  assume d: "contenders (put_contender k c w) i = Some d"
  have old: "contenders w i = Some d" if "i \<noteq> k" using d that by simp
  have self: "d = c" if "i = k" using d that by simp
  show "claims d \<Longrightarrow> lease_is i d (ld_lease (lw_disk (put_contender k c w)))"
    using self c claim_invD(1) [OF inv old] by (cases "i = k") auto
  show "remembers (ct_state d) (ct_lost d) \<Longrightarrow> ct_held d" using self c claim_invD(2) [OF inv old] by (cases "i = k") auto
  show "ct_state d \<in> {Staging, Replacing} \<Longrightarrow> ld_lease (lw_disk (put_contender k c w)) \<noteq> None"
    using self c claim_invD(3) [OF inv old] by (cases "i = k") auto
  show "\<not> claims e" if st: "ct_state d \<in> {Staging, Replacing}" and e: "contenders (put_contender k c w) j = Some e" for j e
    using self st c claim_invD(4) [OF inv old st, of j e] e by (cases "i = k"; cases "j = k") auto
  show "at_rest (ct_state e)"
    if b: "\<not> at_rest (ct_state d)" and e: "contenders (put_contender k c w) j = Some e" "ct_pid e = ct_pid d" "j \<noteq> i" for j e
  proof (cases "i = k")
    case True
    thus ?thesis using e self idle by (auto simp: process_idle_iff)
  next
    case False
    have "j \<noteq> k" using idle b e old [OF False] by (auto simp: process_idle_iff)
    thus ?thesis using claim_invD(5) [OF inv old [OF False] b, of j e] e by simp
  qed
qed

lemma claim_inv_owner:
  assumes inv: "claim_inv w" and c: "contenders w k = Some c" "ct_state c = Owning" and idle: "process_idle w (ct_pid c)"
    and c': "ct_payload c' = ct_payload c" "ct_state c' \<in> {Owning, Touching, Removing, Closed}" "claims c' \<Longrightarrow> \<not> ct_lost c"
      "remembers (ct_state c') (ct_lost c') \<Longrightarrow> ct_held c'"
  shows "claim_inv (put_contender k c' w)"
proof (rule claim_invI)
  fix i d
  assume d: "contenders (put_contender k c' w) i = Some d"
  have old: "contenders w i = Some d" if "i \<noteq> k" using d that by simp
  have self: "d = c'" if "i = k" using d that by simp
  have mine: "lease_is k c' (ld_lease (lw_disk w))" if "claims c'"
    using claim_invD(1) [OF inv c(1)] c(2) c' that by (auto simp: lease_is_def)
  show "claims d \<Longrightarrow> lease_is i d (ld_lease (lw_disk (put_contender k c' w)))"
    using self mine claim_invD(1) [OF inv old] by (cases "i = k") auto
  show "remembers (ct_state d) (ct_lost d) \<Longrightarrow> ct_held d" using self c'(4) claim_invD(2) [OF inv old] by (cases "i = k") auto
  show "ct_state d \<in> {Staging, Replacing} \<Longrightarrow> ld_lease (lw_disk (put_contender k c' w)) \<noteq> None"
    using self c'(2) claim_invD(3) [OF inv old] by (cases "i = k") auto
  show "\<not> claims e" if st: "ct_state d \<in> {Staging, Replacing}" and e: "contenders (put_contender k c' w) j = Some e" for j e
  proof -
    have "i \<noteq> k" using self st c'(2) by auto
    note no = claim_invD(4) [OF inv old [OF this] st]
    have "\<not> claims c'" using no [OF c(1)] c(2) c'(3) by auto
    thus ?thesis using no [of j e] e by (cases "j = k") auto
  qed
  show "at_rest (ct_state e)"
    if b: "\<not> at_rest (ct_state d)" and e: "contenders (put_contender k c' w) j = Some e" "ct_pid e = ct_pid d" "j \<noteq> i" for j e
  proof (cases "i = k")
    case True
    thus ?thesis using e self idle c'(1) by (auto simp: process_idle_iff)
  next
    case False
    have "ct_pid d \<noteq> ct_pid c" using idle b old [OF False] by (auto simp: process_idle_iff)
    hence "j \<noteq> k" using e c'(1) by auto
    thus ?thesis using claim_invD(5) [OF inv old [OF False] b, of j e] e by simp
  qed
qed

lemma claim_inv_owner_op:
  assumes inv: "claim_inv w" and run: "owner_op f k w = Some w'"
    and f: "\<And>c. ct_state c = Owning \<Longrightarrow> \<not> ct_lost c \<longrightarrow> ct_held c \<Longrightarrow> ct_payload (f c) = ct_payload c
      \<and> ct_state (f c) \<in> {Owning, Touching, Removing, Closed} \<and> (claims (f c) \<longrightarrow> \<not> ct_lost c)
      \<and> (remembers (ct_state (f c)) (ct_lost (f c)) \<longrightarrow> ct_held (f c))"
  shows "claim_inv w'"
proof -
  obtain c where c: "contenders w k = Some c" "ct_state c = Owning" "process_idle w (ct_pid c)" "w' = put_contender k (f c) w"
    using run by (auto simp: owner_op_Some)
  have "\<not> ct_lost c \<longrightarrow> ct_held c" using claim_invD(2) [OF inv c(1)] c(2) by simp
  from f [OF c(2) this] show ?thesis unfolding c(4) by (intro claim_inv_owner [OF inv c(1-3)]) simp_all
qed

lemma claim_inv_same: "claim_inv w \<Longrightarrow> lw_disk w' = lw_disk w \<Longrightarrow> lw_contenders w' = lw_contenders w \<Longrightarrow> claim_inv w'"
  by (simp only: claim_inv_def)

lemma claim_inv_fire:
  assumes inv: "claim_inv w" and guard: "guard_inv opts w" and wf: "lease_wf w" and run: "lease_fire opts e w = Some w'"
  shows "claim_inv w'"
proof (cases e)
  case (Proceed i)
  from run [unfolded Proceed] show ?thesis
  proof (cases rule: proceed_cases)
    case (1 c c1 d1)
    let ?x = "ld_lease (lw_disk w)"
    note I = claim_invD [OF inv 1(1)]
    have step: "(claims c1 \<longrightarrow> lease_is i c1 (ld_lease d1))
      \<and> (remembers (ct_state c1) (ct_lost c1) \<longrightarrow> ct_held c1)
      \<and> (ld_lease d1 = ?x \<or> ?x = None \<or> claims c \<or> ct_state c = Replacing)
      \<and> (claims c1 \<longrightarrow> claims c \<or> ?x = None \<or> ct_state c = Replacing)
      \<and> (ct_state c1 \<in> {Staging, Replacing} \<longrightarrow> ld_lease d1 = ?x \<and>
           (ct_state c = Staging \<or> (\<exists>f hb. ct_state c = Reading Guarded hb \<and> ?x = Some f
              \<and> stale (lw_now w) (lo_takeoverThreshold opts) (ownerAlive w (ct_pid c)) (readExisting (lf_text f) hb))))"
      using lease_wfD(1) [OF wf 1(1)] by (intro step_claim [OF 1(3)] I 1(2)) auto
    have pay: "ct_payload c1 = ct_payload c" using step_payload [OF 1(3)] by simp
    have other: "lease_is j d (ld_lease d1)" if "contenders w j = Some d" "j \<noteq> i" "claims d" for j d
    proof -
      have there: "lease_is j d ?x" by (rule claim_invD(1) [OF inv that(1,3)])
      moreover have "?x \<noteq> None" "\<not> claims c" "ct_state c \<noteq> Replacing"
        using there I(1) that I(4) [OF _ that(1)] by (auto simp: lease_is_def)
      ultimately show ?thesis using step by auto
    qed
    have staging: "ld_lease d1 = ?x \<and> ?x \<noteq> None \<and> \<not> claims c1" if "contenders w j = Some d" "j \<noteq> i" "ct_state d \<in> {Staging, Replacing}" for j d
    proof -
      have "ct_state c \<noteq> Replacing"
        using guard_invD(1) [OF guard that(1)] guard_invD(1) [OF guard 1(1)] that(2,3) by (auto simp: guard_is_def)
      thus ?thesis using claim_invD(3,4) [OF inv that(1,3)] 1(1) step by auto
    qed
    have mine: "ld_lease d1 \<noteq> None \<and> \<not> claims c1 \<and> (\<forall>j d. contenders w j = Some d \<longrightarrow> \<not> claims d)" if "ct_state c1 \<in> {Staging, Replacing}"
    proof -
      note last = mp [OF conjunct2 [OF conjunct2 [OF conjunct2 [OF conjunct2 [OF step]]]] that]
      have off: "\<not> claims c1" using that by auto
      from conjunct2 [OF last] show ?thesis
      proof (elim disjE exE conjE)
        assume "ct_state c = Staging"
        thus ?thesis using I(3,4) last off by auto
      next
        fix f hb
        assume r: "ct_state c = Reading Guarded hb" "?x = Some f"
          "stale (lw_now w) (lo_takeoverThreshold opts) (ownerAlive w (ct_pid c)) (readExisting (lf_text f) hb)"
        thus ?thesis using live_owner_not_stale [OF wf inv 1(1) r] last off by auto
      qed
    qed
    show ?thesis unfolding 1(4) claim_inv_def
    proof (intro allI impI conjI)
      fix k d
      assume d: "contenders (put_contender i c1 (w\<lparr>lw_disk := d1\<rparr>)) k = Some d"
      show "claims d \<Longrightarrow> lease_is k d (ld_lease (lw_disk (put_contender i c1 (w\<lparr>lw_disk := d1\<rparr>))))"
        using d step other by (auto split: if_splits)
      show "remembers (ct_state d) (ct_lost d) \<Longrightarrow> ct_held d"
        using d step claim_invD(2) [OF inv] by (auto split: if_splits)
      show "ct_state d \<in> {Staging, Replacing} \<Longrightarrow> ld_lease (lw_disk (put_contender i c1 (w\<lparr>lw_disk := d1\<rparr>))) \<noteq> None"
        using d mine staging by (auto split: if_splits)
      show "ct_state d \<in> {Staging, Replacing} \<Longrightarrow> contenders (put_contender i c1 (w\<lparr>lw_disk := d1\<rparr>)) j = Some e \<Longrightarrow> \<not> claims e" for j e
      proof (cases "k = i")
        case True
        assume "ct_state d \<in> {Staging, Replacing}" "contenders (put_contender i c1 (w\<lparr>lw_disk := d1\<rparr>)) j = Some e"
        thus ?thesis using True d mine by (cases "j = i") auto
      next
        case False
        assume st: "ct_state d \<in> {Staging, Replacing}" and e: "contenders (put_contender i c1 (w\<lparr>lw_disk := d1\<rparr>)) j = Some e"
        have "contenders w k = Some d" using d False by simp
        thus ?thesis using staging [OF _ False st] claim_invD(4) [OF inv _ st, of k j e] e by (cases "j = i") simp_all
      qed
      show "\<not> at_rest (ct_state d) \<Longrightarrow>
          contenders (put_contender i c1 (w\<lparr>lw_disk := d1\<rparr>)) j = Some e \<and> ct_pid e = ct_pid d \<and> j \<noteq> k \<Longrightarrow> at_rest (ct_state e)" for j e
      proof (cases "k = i")
        case True
        assume "contenders (put_contender i c1 (w\<lparr>lw_disk := d1\<rparr>)) j = Some e \<and> ct_pid e = ct_pid d \<and> j \<noteq> k"
        thus ?thesis using True d pay I(5) [OF 1(2), of j e] by (auto split: if_splits)
      next
        case False
        assume busy: "\<not> at_rest (ct_state d)"
          and e: "contenders (put_contender i c1 (w\<lparr>lw_disk := d1\<rparr>)) j = Some e \<and> ct_pid e = ct_pid d \<and> j \<noteq> k"
        have old: "contenders w k = Some d" using d False by simp
        note rest = claim_invD(5) [OF inv old busy]
        show ?thesis using rest [of i c] rest [of j e] 1(1,2) e pay by (cases "j = i") simp_all
      qed
    qed
  qed
next
  case (Acquire o' pid path)
  then have w': "w' = put_contender o' (acquire_start o' pid (lw_now w) path) w" and idle: "process_idle w pid" and new: "contenders w o' = None"
    using run by (auto simp: fresh_token_def split: if_splits)
  show ?thesis unfolding w' by (rule claim_inv_new [OF inv _ new]) (use idle in \<open>simp_all add: acquire_start_def\<close>)
next
  case (Crash pid)
  then have w': "contenders w' k = map_option (crash_contender pid) (contenders w k)" "lw_disk w' = lw_disk w" for k
    using run by (auto simp: crash_contenders split: if_splits)
  show ?thesis
  proof (rule claim_invI)
    fix k d
    assume "contenders w' k = Some d"
    then obtain d0 where d: "contenders w k = Some d0" "d = crash_contender pid d0" by (auto simp: w')
    note I = claim_invD [OF inv d(1)]
    show "claims d \<Longrightarrow> lease_is k d (ld_lease (lw_disk w'))" using I(1) by (cases "ct_state d0") (simp_all add: d(2) w' lease_is_def split: if_splits)
    show "remembers (ct_state d) (ct_lost d) \<Longrightarrow> ct_held d" using I(2) by (simp add: d(2) split: if_splits)
    show "ct_state d \<in> {Staging, Replacing} \<Longrightarrow> ld_lease (lw_disk w') \<noteq> None" using I(3) by (simp add: d(2) w' split: if_splits)
    show "\<not> claims e" if st: "ct_state d \<in> {Staging, Replacing}" and e: "contenders w' j = Some e" for j e
    proof -
      obtain e0 where "contenders w j = Some e0" "e = crash_contender pid e0" using e by (auto simp: w')
      thus ?thesis using I(4) [of j e0] st by (simp add: d(2) split: if_splits)
    qed
    show "at_rest (ct_state e)" if b: "\<not> at_rest (ct_state d)" and e: "contenders w' j = Some e" "ct_pid e = ct_pid d" "j \<noteq> k" for j e
    proof -
      obtain e0 where "contenders w j = Some e0" "e = crash_contender pid e0" using e by (auto simp: w')
      thus ?thesis using I(5) [of j e0] b e by (simp add: d(2) split: if_splits)
    qed
  qed
next
  case (Check o')
  have "owner_op (assertOwned (lw_disk w)) o' w = Some w'" using run Check by simp
  thus ?thesis by (rule claim_inv_owner_op [OF inv]) (auto simp: assertOwned_def markLost_def)
next
  case (Beat o')
  have "owner_op (heartbeat (lw_disk w)) o' w = Some w'" using run Beat by simp
  thus ?thesis by (rule claim_inv_owner_op [OF inv]) (auto simp: heartbeat_def markLost_def)
next
  case (Release o')
  have "owner_op (release (lw_disk w)) o' w = Some w'" using run Release by simp
  thus ?thesis by (rule claim_inv_owner_op [OF inv]) (auto simp: release_def)
next
  case (Pass d)
  hence w': "w' = w\<lparr>lw_now := lw_now w + int d\<rparr>" using run by simp
  show ?thesis by (rule claim_inv_same [OF inv]) (simp_all add: w')
next
  case (Spawn pid)
  hence w': "w' = w\<lparr>lw_alive := pid # lw_alive w\<rparr>" using run by (simp split: if_splits)
  show ?thesis by (rule claim_inv_same [OF inv]) (simp_all add: w')
qed

end
