(* ===== verification/LeaseProperties.thy ===== *)
theory LeaseProperties
  imports LeaseFacts
begin

text \<open>
  Properties of the writer lease: at most one live owner in runs that leave no takeover guard behind, the
  race of two contenders over a guard left behind, fencing that holds in every run, and what an
  acquisition without competition does.
\<close>

section \<open>One owner\<close>

text \<open>A contender is installed when its acquisition returned a lease that it has not found lost; a
  crashed one is not.\<close>

definition installed :: "lease_world \<Rightarrow> string \<Rightarrow> bool" where
  "installed w k \<longleftrightarrow> (case contenders w k of Some c \<Rightarrow> ct_state c \<in> {Owning, Touching, Removing} \<and> \<not> ct_lost c | None \<Rightarrow> False)"

lemma orderly_invariants:
  assumes "lease_run opts es (lease_begin f None now pids) = Some w" and "orderly_run opts es (lease_begin f None now pids)"
    and "0 \<le> lo_takeoverThreshold opts"
  shows "lease_wf w \<and> guard_inv opts w \<and> claim_inv w"
proof (rule orderly_run_invariant [OF assms(1,2)])
  show "lease_wf (lease_begin f None now pids) \<and> guard_inv opts (lease_begin f None now pids) \<and> claim_inv (lease_begin f None now pids)"
    by (simp add: guard_inv_def claim_inv_def) (simp add: lease_begin_def)
qed (use assms(3) lease_wf_fire guard_inv_fire claim_inv_fire in blast)

text \<open>C23: Whatever contenders, processes and clocks do, as long as no process dies and no time-out passes while
  a contender holds the takeover guard, at most one contender is installed, also while stale leases are
  taken over. The lease on the disk is its own, so its ownership check succeeds.\<close>

theorem single_owner:
  assumes "lease_run opts es (lease_begin f None now pids) = Some w" and "orderly_run opts es (lease_begin f None now pids)"
    and "0 \<le> lo_takeoverThreshold opts" and "installed w j"
  shows "owned_by j (lw_disk w) \<and> (\<forall>k. installed w k \<longrightarrow> k = j)"
proof -
  have inv: "lease_wf w" "claim_inv w" using orderly_invariants [OF assms(1-3)] by auto
  have own: "\<exists>g c. ld_lease (lw_disk w) = Some g \<and> lf_creator g = k \<and> contenders w k = Some c \<and> lf_text g = payload_text (ct_payload c)"
    if inst: "installed w k" for k
  proof -
    obtain c where c: "contenders w k = Some c" "ct_state c \<in> {Owning, Touching, Removing}" "\<not> ct_lost c"
      using inst by (auto simp: installed_def split: option.splits)
    hence "claims c" by auto
    thus ?thesis using claim_invD(1) [OF inv(2) c(1)] c by (auto simp: lease_is_def)
  qed
  obtain g c where g: "ld_lease (lw_disk w) = Some g" "contenders w j = Some c" "lf_text g = payload_text (ct_payload c)"
    using own [OF assms(4)] by blast
  have "owned_by j (lw_disk w)" using owned_payload_disk [OF g(1,3)] lease_wfD(1) [OF inv(1) g(2)] by simp
  moreover have "k = j" if "installed w k" for k using own [OF that] own [OF assms(4)] by auto
  ultimately show ?thesis by blast
qed

section \<open>A takeover\<close>

text \<open>The lease of process 1, which is dead, is 100 units old. Processes 2 and 3 compete for it.\<close>

definition old_lease :: lease_file where
  "old_lease = \<lparr>lf_creator = [], lf_text = payload_text \<lparr>lp_ownerId = ''old'', lp_pid = 1, lp_startedAt = Finite 0, lp_runtimeRoot = ''/r''\<rparr>, lf_mtime = 0\<rparr>"

definition lease_defaults :: lease_options where
  "lease_defaults = \<lparr>lo_takeoverThreshold = 30, lo_links = True\<rparr>"

definition steps :: "nat \<Rightarrow> lease_event \<Rightarrow> lease_event list" where
  "steps n e = replicate n e"

text \<open>\<open>a\<close> and \<open>b\<close> both see the stale lease before one of them claims the guard.\<close>

definition fair_takeover :: "lease_event list" where
  "fair_takeover = [Acquire ''a'' 2 ''/r'', Acquire ''b'' 3 ''/r''] @ steps 4 (Proceed ''a'') @ steps 4 (Proceed ''b'')
     @ [Proceed ''a'', Proceed ''b'', Pass 5, Proceed ''b''] @ steps 8 (Proceed ''a'') @ [Beat ''a'', Proceed ''a'']"

definition contested :: lease_world where
  "contested = lease_begin (Some old_lease) None 100 [2, 3, 4]"

lemma fair_takeover_run:
  "case lease_run lease_defaults fair_takeover contested of Some w \<Rightarrow> installed w ''a'' | None \<Rightarrow> False"
  "orderly_run lease_defaults fair_takeover contested"
  by code_simp+

theorem single_owner_witness:
  "\<exists>w. lease_run lease_defaults fair_takeover contested = Some w \<and> owned_by ''a'' (lw_disk w) \<and> \<not> installed w ''b''"
proof -
  obtain w where w: "lease_run lease_defaults fair_takeover contested = Some w" "installed w ''a''"
    using fair_takeover_run(1) by (auto split: option.splits)
  have threshold: "0 \<le> lo_takeoverThreshold lease_defaults" by (simp add: lease_defaults_def)
  show ?thesis
    using single_owner [OF w(1) [unfolded contested_def] fair_takeover_run(2) [unfolded contested_def] threshold w(2)] w(1) by auto
qed

section \<open>A guard left behind\<close>

text \<open>Process 4 dies right after it claimed the guard. Later \<open>a\<close> and \<open>b\<close> both find the guard too old before one of
  them removes it; then \<open>b\<close> removes the guard that \<open>a\<close> has just made.\<close>

definition racing_takeover :: "lease_event list" where
  "racing_takeover = [Acquire ''c'' 4 ''/r''] @ steps 5 (Proceed ''c'') @ [Crash 4, Pass 100]
     @ [Acquire ''a'' 2 ''/r'', Acquire ''b'' 3 ''/r''] @ steps 6 (Proceed ''a'') @ steps 6 (Proceed ''b'')
     @ steps 2 (Proceed ''a'') @ steps 2 (Proceed ''b'') @ steps 3 (Proceed ''a'')
     @ steps 8 (Proceed ''b'') @ [Check ''b''] @ steps 4 (Proceed ''a'')"

text \<open>The process the text of a lease names.\<close>

definition owner_pid :: "raw_lease \<Rightarrow> int option" where
  "owner_pid r = (case readExisting r 0 of ValidLease p _ \<Rightarrow> Some (lp_pid p) | MalformedLease _ pid \<Rightarrow> pid)"

lemma stale_dead:
  assumes "owner_pid r = Some pid" and "\<And>tok. \<not> alive pid tok"
  shows "stale now threshold alive (readExisting r hb) \<longleftrightarrow> now - hb > threshold"
  using assms by (auto simp: owner_pid_def readExisting_def split: option.splits if_splits)

text \<open>Turns of one contender while the time stands still, as long as the lease it reads has the text of the dead owner.\<close>

fun turns :: "lease_options \<Rightarrow> int \<Rightarrow> raw_lease \<Rightarrow> nat \<Rightarrow> contender \<Rightarrow> lease_disk \<Rightarrow> (contender \<times> lease_disk) option" where
  "turns opts n r 0 c D = Some (c, D)"
| "turns opts n r (Suc k) c D =
     (if at_rest (ct_state c) \<or> (case ct_state c of Reading _ _ \<Rightarrow> map_option lf_text (ld_lease D) \<noteq> Some r | _ \<Rightarrow> False) then None
      else case contender_step opts (\<lambda>_ _. False) n c D of (c', D') \<Rightarrow> turns opts n r k c' D')"

lemma step_dead:
  assumes "owner_pid r = Some pid" and "\<And>tok. \<not> alive pid tok"
    and "\<not> (case ct_state c of Reading _ _ \<Rightarrow> map_option lf_text (ld_lease D) \<noteq> Some r | _ \<Rightarrow> False)"
  shows "contender_step opts alive n c D = contender_step opts (\<lambda>_ _. False) n c D"
proof (cases "ct_state c")
  case (Reading st hb)
  then obtain f where "ld_lease D = Some f" "lf_text f = r" using assms(3) by auto
  thus ?thesis using Reading stale_dead [OF assms(1), of alive] stale_dead [OF assms(1), of "\<lambda>_ _. False"] assms(2) by (simp add: contender_step_def Let_def)
qed (simp_all add: contender_step_def)

text \<open>Two contenders in a world that has the clock and the processes of \<open>w\<close>.\<close>

definition race :: "lease_world \<Rightarrow> string \<Rightarrow> contender \<Rightarrow> string \<Rightarrow> contender \<Rightarrow> lease_disk \<Rightarrow> lease_world \<Rightarrow> bool" where
  "race w a A b B D x \<longleftrightarrow> lw_disk x = D \<and> lw_now x = lw_now w \<and> lw_alive x = lw_alive w
     \<and> contenders x a = Some A \<and> contenders x b = Some B"

definition racing :: "lease_options \<Rightarrow> lease_event list \<Rightarrow> lease_world \<Rightarrow> (lease_world \<Rightarrow> bool) \<Rightarrow> bool" where
  "racing opts es x Q \<longleftrightarrow> (\<exists>x'. lease_run opts es x = Some x' \<and> Q x')"

lemma lease_run_append: "lease_run opts (es @ es') x = Option.bind (lease_run opts es x) (lease_run opts es')"
  by (induction es arbitrary: x) (auto split: bind_splits)

lemma racing_append:
  assumes "racing opts es x Q" and "\<And>y. Q y \<Longrightarrow> racing opts es' y R"
  shows "racing opts (es @ es') x R"
  using assms by (fastforce simp: racing_def lease_run_append)

lemma race_turns:
  assumes "turns opts (lw_now w) r k A D = Some (A', D')" and "race w a A b B D x" and "a \<noteq> b"
    and "owner_pid r = Some pid" and "pid \<notin> set (lw_alive w)" and "ct_pid A \<in> set (lw_alive w)"
  shows "racing opts (steps k (Proceed a)) x (race w a A' b B D')"
  using assms(1,2,6)
proof (induction k arbitrary: A D x)
  case 0
  thus ?case by (simp add: racing_def steps_def)
next
  case (Suc k)
  obtain A1 D1 where s: "contender_step opts (\<lambda>_ _. False) (lw_now w) A D = (A1, D1)" by fastforce
  note t = Suc.prems(1) [unfolded turns.simps s prod.case]
  have alive: "\<not> ownerAlive x (ct_pid A) pid tok" for tok
    using assms(5) Suc.prems(2,3) by (auto simp: ownerAlive_def race_def)
  have "contender_step opts (ownerAlive x (ct_pid A)) (lw_now x) A (lw_disk x) = (A1, D1)"
    using step_dead [OF assms(4), where alive = "ownerAlive x (ct_pid A)" and c = A and D = D] alive t s Suc.prems(2) by (simp add: race_def split: if_splits)
  hence "lease_fire opts (Proceed a) x = Some (put_contender a A1 (x\<lparr>lw_disk := D1\<rparr>))"
    using t Suc.prems(2) by (simp add: race_def split: if_splits)
  moreover have "race w a A1 b B D1 (put_contender a A1 (x\<lparr>lw_disk := D1\<rparr>))"
    using Suc.prems(2) assms(3) by (simp add: race_def)
  moreover have "ct_pid A1 \<in> set (lw_alive w)" using step_payload [of opts "\<lambda>_ _. False" "lw_now w" A D] s Suc.prems(3) by simp
  ultimately show ?case using Suc.IH [of A1 D1] t by (simp add: racing_def steps_def split: if_splits)
qed

lemma race_swap: "race w a A b B D x \<longleftrightarrow> race w b B a A D x"
  by (auto simp: race_def)

lemma race_start:
  assumes "fresh_token a w" "fresh_token b w" "a \<noteq> b"
    and "pa \<in> set (lw_alive w)" "safe_pid pa" "pa > 0" "process_idle w pa"
    and "pb \<in> set (lw_alive w)" "safe_pid pb" "pb > 0" "process_idle w pb" and "pa \<noteq> pb" and "path \<noteq> []"
  shows "racing opts [Acquire a pa path, Acquire b pb path] w
    (race w a (acquire_start a pa (lw_now w) path) b (acquire_start b pb (lw_now w) path) (lw_disk w))"
proof -
  let ?x = "put_contender a (acquire_start a pa (lw_now w) path) w"
  have "fresh_token b ?x" using assms(2,3) by (auto simp: fresh_token_def split: option.splits)
  moreover have "process_idle ?x pb" using assms(11,12) by (auto simp: process_idle_iff acquire_start_def)
  ultimately show ?thesis using assms by (simp add: racing_def race_def)
qed

text \<open>The phases: both see the lease and the guard of long ago; \<open>a\<close> clears the guard and makes its own, then \<open>b\<close> does;
  \<open>a\<close> judges the lease; \<open>b\<close> ends its acquisition; \<open>a\<close> ends its own.\<close>

definition lease_of :: "contender \<Rightarrow> int \<Rightarrow> lease_file" where
  "lease_of c n = \<lparr>lf_creator = lp_ownerId (ct_payload c), lf_text = payload_text (ct_payload c), lf_mtime = n\<rparr>"

definition guard_of :: "contender \<Rightarrow> int \<Rightarrow> guard_file" where
  "guard_of c n = \<lparr>gf_creator = lp_ownerId (ct_payload c), gf_token = None, gf_mtime = n\<rparr>"

lemma race_phases:
  assumes f: "ld_lease D = Some f" "lo_takeoverThreshold opts < n - lf_mtime f" and c: "ct_state c = Preparing Initially" "ct_stamp c = n"
    and read: "owner_pid (lf_text f) = Some pid" and p: "payload_valid (ct_payload c)"
  shows "ld_guard D = Some g \<Longrightarrow> lo_takeoverThreshold opts < n - gf_mtime g \<Longrightarrow> turns opts n (lf_text f) 6 c D = Some (goto Clearing c, D)"
    and "turns opts n (lf_text f) 2 (goto Clearing c) D = Some (goto Tokening c, D\<lparr>ld_guard := Some (guard_of c n)\<rparr>)"
    and "ld_guard D = Some h \<Longrightarrow> gf_creator h \<noteq> lp_ownerId (ct_payload c) \<Longrightarrow>
      turns opts n (lf_text f) 3 (goto Tokening c) D = Some (goto Staging c, D)"
    and "ld_guard D = Some (guard_of c n) \<Longrightarrow> turns opts n (lf_text f) 8 (goto Tokening c) D
      = Some (c\<lparr>ct_state := Owning, ct_held := True\<rparr>, D\<lparr>ld_lease := Some (lease_of c n), ld_guard := None\<rparr>)"
proof -
  have s: "stale n (lo_takeoverThreshold opts) (\<lambda>_ _. False) (readExisting (lf_text f) (lf_mtime f))"
    using stale_dead [OF read, of "\<lambda>_ _. False"] f(2) by simp
  have own: "owned_by (lp_ownerId (ct_payload c)) (u\<lparr>ld_lease := Some (lease_of c n)\<rparr>)" for u
    using owned_payload_disk [OF _ _ p] by (simp add: lease_of_def)
  note run = eval_nat_numeral contender_step_def Let_def s f(1) c guard_of_def
  show "ld_guard D = Some g \<Longrightarrow> lo_takeoverThreshold opts < n - gf_mtime g \<Longrightarrow> turns opts n (lf_text f) 6 c D = Some (goto Clearing c, D)"
    by (simp add: run)
  show "turns opts n (lf_text f) 2 (goto Clearing c) D = Some (goto Tokening c, D\<lparr>ld_guard := Some (guard_of c n)\<rparr>)"
    by (simp add: run)
  show "ld_guard D = Some h \<Longrightarrow> gf_creator h \<noteq> lp_ownerId (ct_payload c) \<Longrightarrow>
      turns opts n (lf_text f) 3 (goto Tokening c) D = Some (goto Staging c, D)"
    by (simp add: run)
  show "ld_guard D = Some (guard_of c n) \<Longrightarrow> turns opts n (lf_text f) 8 (goto Tokening c) D
      = Some (c\<lparr>ct_state := Owning, ct_held := True\<rparr>, D\<lparr>ld_lease := Some (lease_of c n), ld_guard := None\<rparr>)"
    using own by (simp add: run lease_of_def)
qed

lemma race_last:
  assumes p: "payload_valid (ct_payload c)" and c: "ct_stamp c = n" and "ld_guard D = None"
  shows "turns opts n r 4 (goto Staging c) D = Some (c\<lparr>ct_state := Owning, ct_held := True\<rparr>, D\<lparr>ld_lease := Some (lease_of c n)\<rparr>)"
proof -
  have own: "owned_by (lp_ownerId (ct_payload c)) (u\<lparr>ld_lease := Some (lease_of c n)\<rparr>)" for u
    using owned_payload_disk [OF _ _ p] by (simp add: lease_of_def)
  thus ?thesis using assms by (simp add: eval_nat_numeral contender_step_def Let_def lease_of_def)
qed

text \<open>C38: A takeover guard that was left behind breaks the exclusion. In every world whose lease belongs to a
  dead process and is past the threshold, and whose takeover guard is past the threshold too, two
  idle processes can both take the lease over without a crash and without time passing: some order of
  the file operations of their two acquisitions ends the first with an installed lease that it owns on
  disk, and then the second with an installed lease that has replaced it, while the first still
  takes itself for the owner.\<close>

theorem takeover_race:
  assumes "ld_lease (lw_disk w) = Some f" and "owner_pid (lf_text f) = Some pid" and "pid \<notin> set (lw_alive w)"
    and "lo_takeoverThreshold opts < lw_now w - lf_mtime f"
    and "ld_guard (lw_disk w) = Some g" and "lo_takeoverThreshold opts < lw_now w - gf_mtime g"
    and "fresh_token a w" and "pa \<in> set (lw_alive w)" and "safe_pid pa" and "pa > 0" and "process_idle w pa"
    and "fresh_token b w" and "pb \<in> set (lw_alive w)" and "safe_pid pb" and "pb > 0" and "process_idle w pb"
    and "a \<noteq> b" and "pa \<noteq> pb" and "path \<noteq> []"
  shows "\<exists>es es' x y. lease_run opts es w = Some x \<and> installed x b \<and> owned_by b (lw_disk x)
    \<and> lease_run opts es' x = Some y \<and> installed y a \<and> owned_by a (lw_disk y) \<and> installed y b
    \<and> set es \<subseteq> {Acquire a pa path, Acquire b pb path, Proceed a, Proceed b} \<and> set es' \<subseteq> {Proceed a}"
proof -
  let ?n = "lw_now w" and ?r = "lf_text f" and ?D = "lw_disk w"
  let ?A = "acquire_start a pa ?n path" and ?B = "acquire_start b pb ?n path"
  define D1 where "D1 = ?D\<lparr>ld_guard := Some (guard_of ?A ?n)\<rparr>"
  define D2 where "D2 = ?D\<lparr>ld_guard := Some (guard_of ?B ?n)\<rparr>"
  define D3 where "D3 = ?D\<lparr>ld_lease := Some (lease_of ?B ?n), ld_guard := None\<rparr>"
  define D4 where "D4 = ?D\<lparr>ld_lease := Some (lease_of ?A ?n), ld_guard := None\<rparr>"
  have A: "ct_state ?A = Preparing Initially" "ct_stamp ?A = ?n" "lp_ownerId (ct_payload ?A) = a" "ct_pid ?A = pa" "payload_valid (ct_payload ?A)"
    and B: "ct_state ?B = Preparing Initially" "ct_stamp ?B = ?n" "lp_ownerId (ct_payload ?B) = b" "ct_pid ?B = pb" "payload_valid (ct_payload ?B)"
    using assms(7-16,19) by (simp_all add: acquire_start_def payload_valid_def fresh_token_def)
  note turn_a = race_turns [OF _ _ assms(17,2,3)] and turn_b = race_turns [OF _ _ assms(17) [symmetric] assms(2,3)]
  note phases_a = race_phases [OF _ assms(4) A(1,2) assms(2) A(5)] and phases_b = race_phases [OF _ assms(4) B(1,2) assms(2) B(5)]
  have 1: "racing opts (steps 6 (Proceed a)) x (race w a (goto Clearing ?A) b ?B ?D)" if "race w a ?A b ?B ?D x" for x
    by (rule turn_a [OF phases_a(1) that]) (use assms A in simp_all)
  have 2: "racing opts (steps 6 (Proceed b)) x (race w b (goto Clearing ?B) a (goto Clearing ?A) ?D)" if "race w a (goto Clearing ?A) b ?B ?D x" for x
    by (rule turn_b [OF phases_b(1) that [unfolded race_swap [of w a]]]) (use assms B in simp_all)
  have 3: "racing opts (steps 2 (Proceed a)) x (race w a (goto Tokening ?A) b (goto Clearing ?B) D1)" if "race w b (goto Clearing ?B) a (goto Clearing ?A) ?D x" for x
    by (rule turn_a [OF phases_a(2) [where D = "?D", folded D1_def] that [unfolded race_swap [of w b]]]) (use assms A in simp_all)
  have 4: "racing opts (steps 2 (Proceed b)) x (race w b (goto Tokening ?B) a (goto Tokening ?A) D2)" if "race w a (goto Tokening ?A) b (goto Clearing ?B) D1 x" for x
    by (rule turn_b [OF _ that [unfolded race_swap [of w a]]]) (use phases_b(2) [where D = D1] assms B in \<open>simp_all add: D1_def D2_def\<close>)
  have 5: "racing opts (steps 3 (Proceed a)) x (race w a (goto Staging ?A) b (goto Tokening ?B) D2)" if "race w b (goto Tokening ?B) a (goto Tokening ?A) D2 x" for x
    by (rule turn_a [OF phases_a(3) [where h = "guard_of ?B ?n"] that [unfolded race_swap [of w b]]]) (use assms A B assms(17) [symmetric] in \<open>simp_all add: D2_def guard_of_def\<close>)
  have 6: "racing opts (steps 8 (Proceed b)) x (race w b (?B\<lparr>ct_state := Owning, ct_held := True\<rparr>) a (goto Staging ?A) D3)"
    if "race w a (goto Staging ?A) b (goto Tokening ?B) D2 x" for x
    by (rule turn_b [OF _ that [unfolded race_swap [of w a]]]) (use phases_b(4) [where D = D2] assms B in \<open>simp_all add: D2_def D3_def\<close>)
  have 7: "racing opts (steps 4 (Proceed a)) x (race w a (?A\<lparr>ct_state := Owning, ct_held := True\<rparr>) b (?B\<lparr>ct_state := Owning, ct_held := True\<rparr>) D4)"
    if "race w b (?B\<lparr>ct_state := Owning, ct_held := True\<rparr>) a (goto Staging ?A) D3 x" for x
    by (rule turn_a [OF _ that [unfolded race_swap [of w b]]]) (use race_last [OF A(5,2), of D3] assms A in \<open>simp_all add: D3_def D4_def\<close>)
  have start: "racing opts [Acquire a pa path, Acquire b pb path] w (race w a ?A b ?B ?D)"
    by (rule race_start) (use assms in simp_all)
  let ?es = "((((([Acquire a pa path, Acquire b pb path] @ steps 6 (Proceed a)) @ steps 6 (Proceed b)) @ steps 2 (Proceed a))
    @ steps 2 (Proceed b)) @ steps 3 (Proceed a)) @ steps 8 (Proceed b)"
  have "racing opts ?es w (race w b (?B\<lparr>ct_state := Owning, ct_held := True\<rparr>) a (goto Staging ?A) D3)"
    by (intro racing_append [OF racing_append [OF racing_append [OF racing_append [OF racing_append [OF racing_append [OF start 1] 2] 3] 4] 5] 6])
  then obtain x where x: "lease_run opts ?es w = Some x" "race w b (?B\<lparr>ct_state := Owning, ct_held := True\<rparr>) a (goto Staging ?A) D3 x"
    by (auto simp: racing_def simp del: lease_run.simps)
  obtain y where y: "lease_run opts (steps 4 (Proceed a)) x = Some y"
    "race w a (?A\<lparr>ct_state := Owning, ct_held := True\<rparr>) b (?B\<lparr>ct_state := Owning, ct_held := True\<rparr>) D4 y"
    using 7 [OF x(2)] by (auto simp: racing_def)
  have lost: "\<not> ct_lost ?A" "\<not> ct_lost ?B" by (simp_all add: acquire_start_def)
  have "owned_by b D3" "owned_by a D4" using owned_payload_disk [OF _ _ A(5)] owned_payload_disk [OF _ _ B(5)] A(3) B(3)
    by (simp_all add: D3_def D4_def lease_of_def)
  hence "installed x b" "owned_by b (lw_disk x)" "installed y a" "owned_by a (lw_disk y)" "installed y b"
    using x(2) y(2) lost by (simp_all add: race_def installed_def)
  moreover have "set ?es \<subseteq> {Acquire a pa path, Acquire b pb path, Proceed a, Proceed b}" "set (steps 4 (Proceed a)) \<subseteq> {Proceed a}"
    by (simp_all add: steps_def)
  ultimately show ?thesis using x(1) y(1) by blast
qed

definition left_guard :: guard_file where
  "left_guard = \<lparr>gf_creator = ''gone'', gf_token = Some ''gone'', gf_mtime = 0\<rparr>"

theorem takeover_race_witness:
  "\<exists>es w. lease_run lease_defaults es (lease_begin (Some old_lease) (Some left_guard) 100 [2, 3]) = Some w \<and> installed w ''a'' \<and> installed w ''b''"
proof -
  let ?w = "lease_begin (Some old_lease) (Some left_guard) 100 [2, 3]"
  have o': "owner_pid (lf_text old_lease) = Some 1" by code_simp
  have "fresh_token ''a'' ?w" "fresh_token ''b'' ?w" by code_simp+
  moreover have "process_idle ?w 2" "process_idle ?w 3" by code_simp+
  ultimately obtain es es' x y where "lease_run lease_defaults es ?w = Some x" "lease_run lease_defaults es' x = Some y" "installed y ''a''" "installed y ''b''"
    using takeover_race [of ?w old_lease 1 lease_defaults left_guard "''a''" 2 "''b''" 3 "''/r''"] o'
    by (auto simp: lease_begin_def old_lease_def left_guard_def lease_defaults_def safe_pid_def)
  thus ?thesis by (intro exI [of _ "es @ es'"] exI [of _ y]) (simp add: lease_run_append)
qed

section \<open>Fencing\<close>

text \<open>The ownership check of a contender would succeed now.\<close>

definition passes :: "lease_world \<Rightarrow> string \<Rightarrow> bool" where
  "passes w k \<longleftrightarrow> (case contenders w k of Some c \<Rightarrow> \<not> ct_lost (assertOwned (lw_disk w) c) | None \<Rightarrow> False)"

lemma passes_iff: "lease_wf w \<Longrightarrow> passes w k \<longleftrightarrow> (\<exists>c. contenders w k = Some c \<and> \<not> ct_lost c \<and> owned_by k (lw_disk w))"
  using lease_wfD(1) [of w k] by (auto simp: passes_def assertOwned_def markLost_def split: option.splits)

text \<open>What durable writers rely on: one owner passes the check, and an owner that failed it stays out.\<close>

locale ownership_fence =
  fixes fire :: "'e \<Rightarrow> 'w \<Rightarrow> 'w option" and good :: "'w \<Rightarrow> bool" and owner :: "'w \<Rightarrow> string \<Rightarrow> bool" and settled :: "'w \<Rightarrow> string \<Rightarrow> bool"
  assumes good_fire: "good w \<Longrightarrow> fire e w = Some w' \<Longrightarrow> good w'"
    and one_owner: "good w \<Longrightarrow> owner w i \<Longrightarrow> owner w j \<Longrightarrow> i = j"
    and out_fire: "good w \<Longrightarrow> settled w k \<Longrightarrow> \<not> owner w k \<Longrightarrow> fire e w = Some w' \<Longrightarrow> settled w' k \<and> \<not> owner w' k"
begin

definition later :: "'w \<Rightarrow> 'w \<Rightarrow> bool" where
  "later = (\<lambda>v w. \<exists>e. fire e v = Some w)\<^sup>*\<^sup>*"

lemma good_later: "later v w \<Longrightarrow> good v \<Longrightarrow> good w"
  unfolding later_def by (induction rule: rtranclp_induct) (auto intro: good_fire)

lemma out_later:
  assumes "later v w" and "good v" and "settled v k" and "\<not> owner v k"
  shows "settled w k \<and> \<not> owner w k"
  using assms(1) unfolding later_def
proof (induction rule: rtranclp_induct)
  case (step x y)
  moreover have "good x" using good_later assms(2) step(1) unfolding later_def by blast
  ultimately show ?case using out_fire by blast
qed (use assms in simp)

text \<open>Two owners at two times of a run are the same, unless the first is not settled or the check let it go.\<close>

lemma owner_handed_over:
  assumes "later u v" and "later v w" and "good u" and "owner v j" and "settled v i" and "i \<noteq> j"
  shows "\<not> owner w i"
  using out_later [OF assms(2) good_later [OF assms(1,3)] assms(5)] one_owner [OF good_later [OF assms(1,3)]] assms(4,6) by blast

end

definition acquired :: "lease_world \<Rightarrow> string \<Rightarrow> bool" where
  "acquired w k \<longleftrightarrow> (case contenders w k of Some c \<Rightarrow> acquisition_over (ct_state c) | None \<Rightarrow> False)"

lemma fenced_off_iff: "fenced_off k w \<longleftrightarrow> lease_wf w \<and> acquired w k \<and> \<not> passes w k"
  by (auto simp: fenced_off_def acquired_def passes_iff split: option.splits)

lemma fenced_off_later:
  assumes "lease_wf w" and "acquired w k" and "\<not> passes w k" and "lease_fire opts e w = Some w'"
  shows "acquired w' k \<and> \<not> passes w' k"
proof -
  have "fenced_off k w" using assms(1-3) by (simp add: fenced_off_iff)
  from fenced_off_fire [OF this assms(4)] show ?thesis by (simp add: fenced_off_iff)
qed

interpretation lease: ownership_fence "lease_fire opts" lease_wf passes acquired
proof
  show "\<And>w e w'. lease_wf w \<Longrightarrow> lease_fire opts e w = Some w' \<Longrightarrow> lease_wf w'" by (rule lease_wf_fire)
  show "\<And>w i j. lease_wf w \<Longrightarrow> passes w i \<Longrightarrow> passes w j \<Longrightarrow> i = j"
    by (auto simp: passes_iff owned_by_def split: option.splits)
  show "\<And>w k e w'. lease_wf w \<Longrightarrow> acquired w k \<Longrightarrow> \<not> passes w k \<Longrightarrow> lease_fire opts e w = Some w' \<Longrightarrow> acquired w' k \<and> \<not> passes w' k"
    by (rule fenced_off_later)
qed

lemma lease_run_later: "lease_run opts es w = Some w' \<Longrightarrow> lease.later opts w w'"
proof (induction es arbitrary: w)
  case Nil
  thus ?case by (simp add: lease.later_def)
next
  case (Cons e es)
  then obtain v where v: "lease_fire opts e w = Some v" "lease_run opts es v = Some w'" by (auto simp: bind_eq_Some_conv)
  have step: "(\<lambda>v w. \<exists>e. lease_fire opts e v = Some w) w v" using v(1) by blast
  show ?case
    using Cons.IH [OF v(2)] unfolding lease.later_def
    by (rule converse_rtranclp_into_rtranclp [where r = "\<lambda>v w. \<exists>e. lease_fire opts e v = Some w", OF step])
qed

text \<open>C24: In every run, also one with crashes and races, at most one contender passes the ownership check at any time,
  and a contender whose acquisition is over and that does not pass it will never pass it again.\<close>

theorem fencing:
  assumes "lease_run opts es (lease_begin f g now pids) = Some w" and "lease_run opts es' w = Some w'"
    and "acquired w k" and "\<not> passes w k"
  shows "\<not> passes w' k \<and> (\<forall>i j. passes w' i \<and> passes w' j \<longrightarrow> i = j)"
proof -
  have wf: "lease_wf w" by (rule lease.good_later [OF lease_run_later [OF assms(1)]]) simp
  have wf': "lease_wf w'" by (rule lease.good_later [OF lease_run_later [OF assms(2)] wf])
  show ?thesis
    using lease.out_later [OF lease_run_later [OF assms(2)] wf assms(3,4)] lease.one_owner [OF wf'] by blast
qed

text \<open>After the race \<open>b\<close> is fenced off, and stays so when \<open>a\<close> ends.\<close>

lemma race_over:
  "case lease_run lease_defaults racing_takeover contested of
     Some w \<Rightarrow> \<not> passes w ''b'' \<and> passes w ''a'' \<and> acquired w ''b''
       \<and> lease_run lease_defaults [Release ''a'', Proceed ''a'', Pass 1] w \<noteq> None
   | None \<Rightarrow> False"
  by code_simp

theorem fencing_witness:
  "\<exists>w w'. lease_run lease_defaults racing_takeover contested = Some w
     \<and> lease_run lease_defaults [Release ''a'', Proceed ''a'', Pass 1] w = Some w' \<and> \<not> passes w' ''b''"
proof -
  obtain w w' where w: "lease_run lease_defaults racing_takeover contested = Some w" "\<not> passes w ''b''"
    "acquired w ''b''" "lease_run lease_defaults [Release ''a'', Proceed ''a'', Pass 1] w = Some w'"
    using race_over by (auto simp del: lease_run.simps split: option.splits)
  thus ?thesis using fencing [OF w(1) [unfolded contested_def] w(4,3,2)] by blast
qed

section \<open>Acquisition without competition\<close>

definition alone :: "lease_options \<Rightarrow> (int \<Rightarrow> string option \<Rightarrow> bool) \<Rightarrow> int \<Rightarrow> contender \<times> lease_disk \<Rightarrow> contender \<times> lease_disk" where
  "alone opts alive now = (\<lambda>(c, disk). contender_step opts alive now c disk)"

text \<open>The contract of \<open>acquire\<close>: the error or none, and the disk.\<close>

definition acquire_contract ::
  "lease_options \<Rightarrow> (int \<Rightarrow> string option \<Rightarrow> bool) \<Rightarrow> int \<Rightarrow> lease_payload \<Rightarrow> lease_disk \<Rightarrow> lease_error option \<times> lease_disk" where
  "acquire_contract opts alive now p disk =
     (let mine = \<lparr>lf_creator = lp_ownerId p, lf_text = payload_text p, lf_mtime = now\<rparr> in
      case ld_lease disk of
        None \<Rightarrow> (None, disk\<lparr>ld_lease := Some mine\<rparr>)
      | Some f \<Rightarrow>
          let e = readExisting (lf_text f) (lf_mtime f) in
          if \<not> stale now (lo_takeoverThreshold opts) alive e then (Some (activeOwnerError e), disk)
          else if (case ld_guard disk of Some g \<Rightarrow> now - gf_mtime g \<le> lo_takeoverThreshold opts | None \<Rightarrow> False)
          then (Some (LeaseInvalid ''takeover-in-progress'' None), disk)
          else (None, disk\<lparr>ld_lease := Some mine, ld_guard := None\<rparr>))"

lemmas alone_simps = alone_def contender_step_def Let_def acquire_start_def busy_guard_def

text \<open>C27: An acquisition that no other writer disturbs ends after at most 16 file operations with what the contract says:
  it returns the lease when there was none or when its owner is dead and its heartbeat too old, unless somebody
  took the guard a short while ago; otherwise it names the owner and changes nothing.\<close>

theorem acquire_alone:
  assumes "o' \<noteq> []" and "safe_pid pid" and "pid > 0" and "path \<noteq> []"
  shows "case acquire_contract opts alive now (ct_payload (acquire_start o' pid now path)) disk of (r, disk1) \<Rightarrow>
     (\<exists>c. (alone opts alive now ^^ 16) (acquire_start o' pid now path, disk) = (c, disk1)
        \<and> ct_state c = (case r of None \<Rightarrow> Owning | Some e \<Rightarrow> Refused e) \<and> (r = None \<longrightarrow> ct_held c \<and> \<not> ct_lost c))"
proof -
  let ?c = "acquire_start o' pid now path" and ?p = "ct_payload (acquire_start o' pid now path)"
  have p: "lp_ownerId ?p = o'" "payload_valid ?p" using assms by (simp_all add: acquire_start_def payload_valid_def)
  have own: "owned_by o' d" if "ld_lease d = Some f" "lf_text f = payload_text ?p" for d f
    using owned_payload_disk [OF that p(2)] p(1) by simp
  show ?thesis
  proof (cases "ld_lease disk")
    case None
    thus ?thesis by (cases "lo_links opts") (simp_all add: acquire_contract_def eval_nat_numeral funpow_Suc_right alone_simps)
  next
    case (Some f)
    show ?thesis
    proof (cases "stale now (lo_takeoverThreshold opts) alive (readExisting (lf_text f) (lf_mtime f))")
      case False
      thus ?thesis using Some by (simp add: acquire_contract_def eval_nat_numeral funpow_Suc_right alone_simps)
    next
      case True
      show ?thesis
      proof (cases "ld_guard disk")
        case None
        thus ?thesis using Some True own by (simp add: acquire_contract_def eval_nat_numeral funpow_Suc_right alone_simps)
      next
        case (Some g)
        thus ?thesis using \<open>ld_lease disk = Some f\<close> True own
          by (cases "now - gf_mtime g \<le> lo_takeoverThreshold opts")
            (simp_all add: acquire_contract_def eval_nat_numeral funpow_Suc_right alone_simps)
      qed
    qed
  qed
qed


theorem acquire_alone_witness:
  "\<exists>c. (alone lease_defaults (\<lambda>pid _. pid \<noteq> 1) 100 ^^ 16) (acquire_start ''a'' 2 100 ''/r'', lw_disk contested)
     = (c, \<lparr>ld_lease = Some \<lparr>lf_creator = ''a'', lf_text = payload_text (ct_payload (acquire_start ''a'' 2 100 ''/r'')), lf_mtime = 100\<rparr>, ld_guard = None\<rparr>)
     \<and> ct_state c = Owning"
proof -
  have "acquire_contract lease_defaults (\<lambda>pid _. pid \<noteq> 1) 100 (ct_payload (acquire_start ''a'' 2 100 ''/r'')) (lw_disk contested)
    = (None, \<lparr>ld_lease = Some \<lparr>lf_creator = ''a'', lf_text = payload_text (ct_payload (acquire_start ''a'' 2 100 ''/r'')), lf_mtime = 100\<rparr>, ld_guard = None\<rparr>)"
    by code_simp
  thus ?thesis
    using acquire_alone [of "''a''" 2 "''/r''" lease_defaults "\<lambda>pid _. pid \<noteq> 1" 100 "lw_disk contested"]
    by (simp add: safe_pid_def) (elim exE conjE, intro exI conjI)
qed

end
