(* ===== verification/WorkspaceLease.thy ===== *)
theory WorkspaceLease
  imports Prelude
begin

text \<open>
  The fence around writes to one project, \<open>service/workspace-write-lease.ts\<close>. A guard holds the writer lease
  of the project and an intent file that names its Run and Attempt. The intent outlives a crash: later owners
  are refused until an operator confirms that its effects have ended.

  What the writer lease answers, whether a write or the removal of the intent or a write of a receipt fails, and the settlement of
  the Run are arguments of the operations. Of the writer lease the project keeps the guard that passes the
  ownership check: there is at most one (\<open>fencing\<close>). SHA-256 is a parameter. The queue of
  acquisitions within a process only delays them.
\<close>

section \<open>The observed sources\<close>

datatype 'b source_node =
    SourceFile int 'b | SourceLink int string | SourceDir int "(string \<times> 'b source_node) list" | SourceOther int

datatype 'b source_chunk = EntryChunk string int | LinkChunk string | FileChunk 'b

definition ignored_names :: "string list" where
  "ignored_names = [''.git'', ''.xuanling'', ''node_modules'', ''target'', ''dist'', ''build'', ''.cache'', ''.DS_Store'']"

definition source_limit :: int where
  "source_limit = 100000"

text \<open>\<open>visit\<close> on the sorted entries of a directory: what the hash is updated with, and the count of entries.\<close>

fun visit_node :: "string \<Rightarrow> 'b source_node \<Rightarrow> int \<Rightarrow> ('b source_chunk list \<times> int) option"
and visit_entries :: "string \<Rightarrow> (string \<times> 'b source_node) list \<Rightarrow> int \<Rightarrow> ('b source_chunk list \<times> int) option" where
  "visit_node path (SourceFile mode b) n = Some ([EntryChunk path mode, FileChunk b], n)"
| "visit_node path (SourceLink mode t) n = Some ([EntryChunk path mode, LinkChunk t], n)"
| "visit_node path (SourceDir mode es) n = map_option (\<lambda>(cs, n). (EntryChunk path mode # cs, n)) (visit_entries path es n)"
| "visit_node path (SourceOther mode) n = None"
| "visit_entries path [] n = Some ([], n)"
| "visit_entries path ((name, e) # es) n =
     (if name \<in> set ignored_names then visit_entries path es n
      else if n + 1 > source_limit then None
      else Option.bind (visit_node (if path = [] then name else path @ ''/'' @ name) e (n + 1)) (\<lambda>(cs, n).
           map_option (\<lambda>(ds, n). (cs @ ds, n)) (visit_entries path es n)))"

definition preimage :: "('b source_chunk list \<Rightarrow> string) \<Rightarrow> (string \<times> 'b source_node) list \<Rightarrow> string option" where
  "preimage digest entries = map_option (digest \<circ> fst) (visit_entries [] entries 0)"

section \<open>Guards\<close>

datatype workspace_error =
    WorkspaceWriteBusy | WorkspaceConflict | WorkspaceRecoveryRequired | WorkspaceObservationUnavailable
  | WorkspaceAborted | WorkspaceIoFailed | CoordinatorFailed | CoordinatorLost | IntentUnreadable

record write_owner =
  wo_runId :: string
  wo_attemptId :: string

record write_guard =
  wg_owner :: write_owner
  wg_conflicted :: bool
  wg_toolsActive :: nat
  wg_observed :: string
  wg_finished :: bool

record recovery_receipt =
  rx_owner :: json
  rx_note :: string

record 'b project =
  pj_entries :: "(string \<times> 'b source_node) list"
  pj_intent :: "json_text option"
  pj_receipts :: "recovery_receipt list"
  pj_guards :: "write_guard dict"
  pj_holder :: "string option"

text \<open>What the writer lease answers.\<close>

datatype lease_answer = LeaseGranted | LeaseActive | LeaseBroken

text \<open>What becomes of a write of the intent: it may fail before the file exists or leave any text.\<close>

datatype intent_write = IntentWritten | IntentNotOpened | IntentBroken json_text

definition intent_json :: "write_owner \<Rightarrow> js_number \<Rightarrow> string \<Rightarrow> json" where
  "intent_json owner pid observed = JObj [(''schemaVersion'', JNum (Finite 1)), (''runId'', JStr (wo_runId owner)),
     (''attemptId'', JStr (wo_attemptId owner)), (''pid'', JNum pid), (''observed'', JStr observed)]"

record acquire_facts =
  af_aborted :: bool
  af_lease :: lease_answer
  af_write :: intent_write
  af_pid :: js_number

text \<open>A granted lease belongs to nobody else; an acquisition that fails later gives it back.\<close>

definition acquire_write ::
  "('b source_chunk list \<Rightarrow> string) \<Rightarrow> string \<Rightarrow> write_owner \<Rightarrow> acquire_facts \<Rightarrow> 'b project \<Rightarrow> (workspace_error + write_guard) \<times> 'b project" where
  "acquire_write digest k owner facts w =
     (if af_aborted facts then (Inl WorkspaceAborted, w)
      else case af_lease facts of
        LeaseActive \<Rightarrow> (Inl WorkspaceWriteBusy, w)
      | LeaseBroken \<Rightarrow> (Inl WorkspaceRecoveryRequired, w)
      | LeaseGranted \<Rightarrow>
          let w1 = w\<lparr>pj_holder := None\<rparr> in
          if pj_intent w \<noteq> None then (Inl WorkspaceRecoveryRequired, w1)
          else (case preimage digest (pj_entries w) of
                  None \<Rightarrow> (Inl WorkspaceObservationUnavailable, w1)
                | Some h \<Rightarrow>
                    let g = \<lparr>wg_owner = owner, wg_conflicted = False, wg_toolsActive = 0, wg_observed = h, wg_finished = False\<rparr> in
                    (case af_write facts of
                       IntentNotOpened \<Rightarrow> (Inl WorkspaceIoFailed, w1)
                     | IntentBroken text \<Rightarrow> (Inl WorkspaceIoFailed, w1\<lparr>pj_intent := Some text\<rparr>)
                     | IntentWritten \<Rightarrow>
                         (Inr g, w\<lparr>pj_intent := Some (Some (intent_json owner (af_pid facts) h)),
                                   pj_guards := AList.update k g (pj_guards w), pj_holder := Some k\<rparr>))))"

definition beforeTool :: "('b source_chunk list \<Rightarrow> string) \<Rightarrow> 'b project \<Rightarrow> string \<Rightarrow> write_guard \<Rightarrow> workspace_error option \<times> write_guard" where
  "beforeTool digest w k g =
     (if pj_holder w \<noteq> Some k \<or> wg_conflicted g \<or> wg_toolsActive g > 0 \<or> preimage digest (pj_entries w) \<noteq> Some (wg_observed g)
      then (Some WorkspaceConflict, g\<lparr>wg_conflicted := True\<rparr>)
      else (None, g\<lparr>wg_toolsActive := Suc (wg_toolsActive g)\<rparr>))"

definition afterTool :: "('b source_chunk list \<Rightarrow> string) \<Rightarrow> 'b project \<Rightarrow> write_guard \<Rightarrow> write_guard" where
  "afterTool digest w g =
     (if wg_toolsActive g = 0 then g
      else case preimage digest (pj_entries w) of
        Some h \<Rightarrow> g\<lparr>wg_toolsActive := wg_toolsActive g - 1, wg_observed := h\<rparr>
      | None \<Rightarrow> g\<lparr>wg_toolsActive := wg_toolsActive g - 1, wg_conflicted := True\<rparr>)"

text \<open>What becomes of a removal of the intent: it may fail with the file still there, or only the sync of the
  directory after it fails.\<close>

datatype intent_removal = IntentRemoved | IntentKept | IntentUnsynced

definition finish :: "bool \<Rightarrow> intent_removal \<Rightarrow> string \<Rightarrow> write_guard \<Rightarrow> 'b project \<Rightarrow> (workspace_error + unit) \<times> 'b project" where
  "finish quiescent removal k g w =
     (if wg_finished g then (Inr (), w)
      else
        let w1 = w\<lparr>pj_guards := AList.update k (g\<lparr>wg_finished := True\<rparr>) (pj_guards w)\<rparr>;
            w2 = w1\<lparr>pj_holder := None\<rparr> in
        if pj_holder w \<noteq> Some k then (Inl CoordinatorLost, w1)
        else if quiescent \<and> wg_toolsActive g = 0
        then (if pj_intent w = None \<or> removal = IntentKept then (Inl WorkspaceIoFailed, w2)
              else (if removal = IntentUnsynced then Inl WorkspaceIoFailed else Inr (), w2\<lparr>pj_intent := None\<rparr>))
        else (Inr (), w2))"

section \<open>Reviewed recovery\<close>

record confirmation =
  cf_quiescent :: bool
  cf_note :: string

record reconcile_facts =
  rf_lease :: lease_answer
  rf_owned :: bool
  rf_receipt :: bool
  rf_removal :: intent_removal

text \<open>\<open>settle\<close> maps the Run store to a result and the new store. The receipt of an intent replaces an
  earlier one. The lease of the operator is released in the end.\<close>

definition reconcileWorkspace ::
  "write_owner \<Rightarrow> string list \<Rightarrow> confirmation \<Rightarrow> reconcile_facts \<Rightarrow> ('s \<Rightarrow> (workspace_error + 'r) \<times> 's) \<Rightarrow> 'b project \<times> 's
     \<Rightarrow> (workspace_error + 'r) \<times> 'b project \<times> 's" where
  "reconcileWorkspace owner attemptIds conf facts settle = (\<lambda>(w, s).
     case pj_intent w of
       None \<Rightarrow> (case settle s of (r, s1) \<Rightarrow> (r, w, s1))
     | Some text \<Rightarrow>
         if rf_lease facts \<noteq> LeaseGranted then (Inl CoordinatorFailed, w, s)
         else let w1 = w\<lparr>pj_holder := None\<rparr> in
         (case text of
           None \<Rightarrow> (Inl IntentUnreadable, w1, s)
         | Some prior \<Rightarrow>
             if prior = JNull then (Inl IntentUnreadable, w1, s)
             else (case (jstr (jfield ''runId'' prior), jstr (jfield ''attemptId'' prior)) of
                (Some run, Some att) \<Rightarrow>
                  if jfield ''schemaVersion'' prior \<noteq> JNum (Finite 1) then (Inl WorkspaceRecoveryRequired, w1, s)
                  else if run \<noteq> wo_runId owner then (case settle s of (r, s1) \<Rightarrow> (r, w1, s1))
                  else if att \<notin> set attemptIds \<or> \<not> cf_quiescent conf \<or> js_trim (cf_note conf) = [] then (Inl WorkspaceRecoveryRequired, w1, s)
                  else (case settle s of
                          (Inl e, s1) \<Rightarrow> (Inl e, w1, s1)
                        | (Inr r, s1) \<Rightarrow>
                            if \<not> rf_owned facts then (Inl CoordinatorLost, w1, s1)
                            else if \<not> rf_receipt facts then (Inl WorkspaceIoFailed, w1, s1)
                            else
                              let w2 = w1\<lparr>pj_receipts := filter (\<lambda>x. rx_owner x \<noteq> prior) (pj_receipts w1) @ [\<lparr>rx_owner = prior, rx_note = cf_note conf\<rparr>]\<rparr> in
                              if rf_removal facts = IntentKept then (Inl WorkspaceIoFailed, w2, s1)
                              else (if rf_removal facts = IntentUnsynced then Inl WorkspaceIoFailed else Inr r, w2\<lparr>pj_intent := None\<rparr>, s1))
              | _ \<Rightarrow> (Inl WorkspaceRecoveryRequired, w1, s))))"

definition needsWorkspaceWriteLease :: "string list \<Rightarrow> bool" where
  "needsWorkspaceWriteLease names \<longleftrightarrow> list_ex (\<lambda>n. n \<noteq> ''run_code'' \<and> n \<noteq> ''structured_output'') names"

section \<open>Runs of a project\<close>

datatype 'b project_event =
    EvAcquire string write_owner acquire_facts
  | EvBefore string | EvAfter string | EvFinish string bool intent_removal
  | EvReconcile write_owner "string list" confirmation reconcile_facts bool
  | EvSources "(string \<times> 'b source_node) list"
  | EvCrash "string list"
  | EvLeaseLost

definition with_guard :: "string \<Rightarrow> 'b project \<Rightarrow> (write_guard \<Rightarrow> write_guard) \<Rightarrow> 'b project" where
  "with_guard k w f =
     (case map_of (pj_guards w) k of Some g \<Rightarrow> w\<lparr>pj_guards := AList.update k (f g) (pj_guards w)\<rparr> | None \<Rightarrow> w)"

text \<open>A crash forgets the guards of a process; the settlement of a Run succeeds or fails; the sources
  change in any way. Every guard has a name of its own.\<close>

fun project_step :: "('b source_chunk list \<Rightarrow> string) \<Rightarrow> 'b project_event \<Rightarrow> 'b project \<Rightarrow> 'b project" where
  "project_step digest (EvAcquire k owner facts) w = (if map_of (pj_guards w) k = None then snd (acquire_write digest k owner facts w) else w)"
| "project_step digest (EvBefore k) w = with_guard k w (\<lambda>g. snd (beforeTool digest w k g))"
| "project_step digest (EvAfter k) w = with_guard k w (afterTool digest w)"
| "project_step digest (EvFinish k quiescent removal) w =
     (case map_of (pj_guards w) k of Some g \<Rightarrow> snd (finish quiescent removal k g w) | None \<Rightarrow> w)"
| "project_step digest (EvReconcile owner attempts conf facts ok) w =
     (case reconcileWorkspace owner attempts conf facts (\<lambda>s. (if ok then Inr () else Inl WorkspaceRecoveryRequired, s)) (w, ()) of (_, w1, _) \<Rightarrow> w1)"
| "project_step digest (EvSources es) w = w\<lparr>pj_entries := es\<rparr>"
| "project_step digest (EvCrash ks) w = w\<lparr>pj_guards := filter (\<lambda>(k, _). k \<notin> set ks) (pj_guards w),
     pj_holder := (case pj_holder w of Some k \<Rightarrow> if k \<in> set ks then None else Some k | None \<Rightarrow> None)\<rparr>"
| "project_step digest EvLeaseLost w = w\<lparr>pj_holder := None\<rparr>"

fun project_run :: "('b source_chunk list \<Rightarrow> string) \<Rightarrow> 'b project_event list \<Rightarrow> 'b project \<Rightarrow> 'b project" where
  "project_run digest [] w = w"
| "project_run digest (e # es) w = project_run digest es (project_step digest e w)"

end
