(* ===== verification/WorkspaceProperties.thy ===== *)
theory WorkspaceProperties
  imports WorkspaceLease
begin

text \<open>
  Properties of the fence around a project: an intent leaves the disk only by a quiescent finish or a confirmed
  recovery, no two guards run tools at once, and a damaged intent can never be cleared.
\<close>

abbreviation guards :: "'b project \<Rightarrow> string \<Rightarrow> write_guard option" where
  "guards w \<equiv> map_of (pj_guards w)"

definition project_begin :: "(string \<times> 'b source_node) list \<Rightarrow> json_text option \<Rightarrow> 'b project" where
  "project_begin entries intent = \<lparr>pj_entries = entries, pj_intent = intent, pj_receipts = [], pj_guards = [], pj_holder = None\<rparr>"

lemma project_run_append: "project_run digest (es @ fs) w = project_run digest fs (project_run digest es w)"
  by (induction es arbitrary: w) auto

lemma project_run_invariant:
  assumes "P w" and "\<And>e w. e \<in> set es \<Longrightarrow> P w \<Longrightarrow> P (project_step digest e w)"
  shows "P (project_run digest es w)"
  using assms by (induction es arbitrary: w) auto

lemma beforeTool_fields [simp]:
  "wg_owner (snd (beforeTool digest w k g)) = wg_owner g" "wg_finished (snd (beforeTool digest w k g)) = wg_finished g"
  by (simp_all add: beforeTool_def)

lemma afterTool_fields [simp]:
  "wg_owner (afterTool digest w g) = wg_owner g" "wg_finished (afterTool digest w g) = wg_finished g"
  "wg_toolsActive (afterTool digest w g) = wg_toolsActive g - 1"
  by (simp_all add: afterTool_def split: option.splits)

lemma with_guard_fields [simp]:
  "pj_intent (with_guard k w f) = pj_intent w" "pj_holder (with_guard k w f) = pj_holder w"
  "guards (with_guard k w f) = (guards w)(k := map_option f (guards w k))"
  by (auto simp: with_guard_def update_conv' fun_eq_iff split: option.splits)

lemma guards_crash: "map_of (filter (\<lambda>(k, _). k \<notin> K) gs) k = (if k \<in> K then None else map_of gs k)"
  by (induction gs) auto

text \<open>What an acquisition and a recovery do to the intent and the holder.\<close>

lemma acquire_cases:
  "snd (acquire_write digest k owner facts w) = w
   \<or> pj_intent (snd (acquire_write digest k owner facts w)) = pj_intent w
       \<and> guards (snd (acquire_write digest k owner facts w)) = guards w \<and> pj_holder (snd (acquire_write digest k owner facts w)) = None
   \<or> pj_intent w = None \<and> pj_holder (snd (acquire_write digest k owner facts w)) = None
       \<and> guards (snd (acquire_write digest k owner facts w)) = guards w
   \<or> pj_intent w = None \<and> pj_holder (snd (acquire_write digest k owner facts w)) = Some k
       \<and> (\<exists>h. pj_intent (snd (acquire_write digest k owner facts w)) = Some (Some (intent_json owner (af_pid facts) h))
            \<and> guards (snd (acquire_write digest k owner facts w)) = (guards w)(k \<mapsto> \<lparr>wg_owner = owner, wg_conflicted = False, wg_toolsActive = 0, wg_observed = h, wg_finished = False\<rparr>))"
  by (auto simp: acquire_write_def Let_def update_conv' split: lease_answer.splits option.splits intent_write.splits)

lemma acquire_refused: "pj_intent w \<noteq> None \<Longrightarrow> \<exists>e. fst (acquire_write digest k owner facts w) = Inl e"
  by (auto simp: acquire_write_def Let_def split: lease_answer.splits)

text \<open>The intent an operator may clear.\<close>

definition confirmed :: "write_owner \<Rightarrow> string list \<Rightarrow> confirmation \<Rightarrow> json_text \<Rightarrow> bool" where
  "confirmed owner attempts conf text \<longleftrightarrow>
     (case text of
        Some prior \<Rightarrow> jstr (jfield ''runId'' prior) = Some (wo_runId owner)
          \<and> (case jstr (jfield ''attemptId'' prior) of Some a \<Rightarrow> a \<in> set attempts | None \<Rightarrow> False)
          \<and> cf_quiescent conf \<and> js_trim (cf_note conf) \<noteq> []
      | None \<Rightarrow> False)"

lemma recovery_cases:
  assumes "reconcileWorkspace owner attempts conf facts settle (w, s) = (r, w1, s1)" and "pj_intent w = Some t"
  shows "guards w1 = guards w \<and> (w1 = w \<or> pj_holder w1 = None)
    \<and> (pj_intent w1 = Some t \<or> pj_intent w1 = None \<and> confirmed owner attempts conf t \<and> rf_owned facts \<and> (\<exists>x. settle s = (Inr x, s1))
         \<and> (\<exists>x\<in>set (pj_receipts w1). Some (rx_owner x) = t))"
  using assms unfolding reconcileWorkspace_def confirmed_def
  by (auto simp: Let_def split: if_splits option.splits sum.splits prod.splits)


section \<open>The fence\<close>

definition intent_of :: "write_owner \<Rightarrow> json_text \<Rightarrow> bool" where
  "intent_of owner t \<longleftrightarrow> (\<exists>pid h. t = Some (intent_json owner pid h))"

lemma intent_of_json [simp]: "intent_of owner (Some (intent_json owner pid h))"
  by (auto simp: intent_of_def)

text \<open>The holder of the lease is an unfinished guard, and the intent on the disk is its own.\<close>

definition fence_inv :: "'b project \<Rightarrow> bool" where
  "fence_inv w \<longleftrightarrow> (\<forall>k. pj_holder w = Some k \<longrightarrow>
     (\<exists>g t. guards w k = Some g \<and> \<not> wg_finished g \<and> pj_intent w = Some t \<and> intent_of (wg_owner g) t))"

lemma fence_inv_released: "pj_holder w = None \<Longrightarrow> fence_inv w"
  by (simp add: fence_inv_def)

lemma fence_inv_step: "fence_inv w \<Longrightarrow> fence_inv (project_step digest e w)"
proof (cases e)
  case (EvAcquire k owner facts)
  assume inv: "fence_inv w"
  show ?thesis
    using inv EvAcquire acquire_cases [of digest k owner facts w]
    by (auto simp: fence_inv_def)
next
  case (EvFinish k quiescent removal)
  assume inv: "fence_inv w"
  show ?thesis using inv EvFinish
    by (auto simp: fence_inv_def finish_def Let_def update_conv' split: option.splits if_splits)
next
  case (EvReconcile owner attempts conf facts ok)
  assume inv: "fence_inv w"
  obtain r w1 s1 where r: "reconcileWorkspace owner attempts conf facts (\<lambda>s. (if ok then Inr () else Inl WorkspaceRecoveryRequired, s)) (w, ()) = (r, w1, s1)"
    by (metis prod_cases3)
  show ?thesis
  proof (cases "pj_intent w")
    case None
    hence "w1 = w" using r by (simp add: reconcileWorkspace_def)
    thus ?thesis using r EvReconcile inv by simp
  next
    case (Some t)
    have "w1 = w \<or> pj_holder w1 = None" by (rule conjunct1 [OF conjunct2 [OF recovery_cases [OF r Some]]])
    thus ?thesis using r EvReconcile inv fence_inv_released by auto
  qed
next
  case (EvCrash ks)
  assume "fence_inv w"
  thus ?thesis using EvCrash by (auto simp: fence_inv_def guards_crash split: option.splits if_splits)
qed (auto simp: fence_inv_def)

lemma fence_inv_run: "fence_inv (project_run digest es (project_begin entries intent))"
  by (rule project_run_invariant) (simp_all add: fence_inv_released project_begin_def fence_inv_step)

text \<open>C26: After any history of acquisitions, tool calls, changes of the sources, crashes and lost leases, an intent on the
  disk refuses every acquisition, and one step takes it away only when the guard that wrote it finishes quiescent and
  without a running tool while it still holds the lease, or when an operator settled its Run and confirmed that its effects have ended;
  the confirmation leaves a receipt.\<close>

theorem fence_kept:
  assumes "w = project_run digest es (project_begin entries intent)" and "pj_intent w = Some t"
  shows "(\<exists>err. fst (acquire_write digest k owner facts w) = Inl err)
    \<and> (pj_intent (project_step digest e w) \<noteq> Some t \<longrightarrow> pj_intent (project_step digest e w) = None \<and>
        ((\<exists>j g removal. e = EvFinish j True removal \<and> removal \<noteq> IntentKept \<and> pj_holder w = Some j \<and> guards w j = Some g \<and> wg_toolsActive g = 0
            \<and> intent_of (wg_owner g) t)
         \<or> (\<exists>run attempts conf rfacts. e = EvReconcile run attempts conf rfacts True \<and> confirmed run attempts conf t
            \<and> (\<exists>x\<in>set (pj_receipts (project_step digest e w)). Some (rx_owner x) = t))))"
proof (intro conjI impI)
  show "\<exists>err. fst (acquire_write digest k owner facts w) = Inl err" by (rule acquire_refused) (simp add: assms(2))
  assume gone: "pj_intent (project_step digest e w) \<noteq> Some t"
  have inv: "fence_inv w" unfolding assms(1) by (rule fence_inv_run)
  have "pj_intent (project_step digest e w) = None \<and>
        ((\<exists>j g removal. e = EvFinish j True removal \<and> removal \<noteq> IntentKept \<and> pj_holder w = Some j \<and> guards w j = Some g \<and> wg_toolsActive g = 0
            \<and> intent_of (wg_owner g) t)
         \<or> (\<exists>run attempts conf rfacts. e = EvReconcile run attempts conf rfacts True \<and> confirmed run attempts conf t
            \<and> (\<exists>x\<in>set (pj_receipts (project_step digest e w)). Some (rx_owner x) = t)))"
  proof (cases e)
    case (EvAcquire k owner facts)
    thus ?thesis using gone assms(2) acquire_cases [of digest k owner facts w] by (auto split: if_splits)
  next
    case (EvFinish j quiescent removal)
    then obtain g where g: "guards w j = Some g" "quiescent" "removal \<noteq> IntentKept" "pj_holder w = Some j" "wg_toolsActive g = 0" "pj_intent (project_step digest e w) = None"
      using gone assms(2) by (auto simp: finish_def Let_def split: option.splits if_splits)
    then obtain g1 where "guards w j = Some g1" "intent_of (wg_owner g1) t"
      using inv assms(2) by (auto simp: fence_inv_def)
    thus ?thesis using g EvFinish assms(2) by auto
  next
    case (EvReconcile run attempts conf rfacts ok)
    obtain r w1 s1 where r: "reconcileWorkspace run attempts conf rfacts (\<lambda>s. (if ok then Inr () else Inl WorkspaceRecoveryRequired, s)) (w, ()) = (r, w1, s1)"
      by (metis prod_cases3)
    hence step: "project_step digest e w = w1" using EvReconcile by simp
    have "ok" using recovery_cases [OF r assms(2)] gone step by (auto split: if_splits)
    thus ?thesis using recovery_cases [OF r assms(2)] gone EvReconcile unfolding step by auto
  qed (use gone assms(2) in auto)
  thus "pj_intent (project_step digest e w) = None" and
    "(\<exists>j g removal. e = EvFinish j True removal \<and> removal \<noteq> IntentKept \<and> pj_holder w = Some j \<and> guards w j = Some g \<and> wg_toolsActive g = 0
            \<and> intent_of (wg_owner g) t)
         \<or> (\<exists>run attempts conf rfacts. e = EvReconcile run attempts conf rfacts True \<and> confirmed run attempts conf t
            \<and> (\<exists>x\<in>set (pj_receipts (project_step digest e w)). Some (rx_owner x) = t))" by blast+
qed


text \<open>Run \<open>r\<close> writes and the Host crashes; the operator settles Run \<open>r\<close>.\<close>

definition some_owner :: write_owner where
  "some_owner = \<lparr>wo_runId = ''r'', wo_attemptId = ''a''\<rparr>"

definition granted :: acquire_facts where
  "granted = \<lparr>af_aborted = False, af_lease = LeaseGranted, af_write = IntentWritten, af_pid = Finite 7\<rparr>"

definition project_crashed :: "string project" where
  "project_crashed = project_run (\<lambda>_. ''h'') [EvAcquire ''k'' some_owner granted, EvBefore ''k'', EvCrash [''k'']]
     (project_begin [(''f'', SourceFile 33188 ''x'')] None)"

definition confirmed_recovery :: "string project_event" where
  "confirmed_recovery = EvReconcile some_owner [''a''] \<lparr>cf_quiescent = True, cf_note = ''checked''\<rparr>
     \<lparr>rf_lease = LeaseGranted, rf_owned = True, rf_receipt = True, rf_removal = IntentRemoved\<rparr> True"

lemma project_crashed_intent:
  "pj_intent project_crashed = Some (Some (intent_json some_owner (Finite 7) ''h''))"
  "pj_intent (project_step (\<lambda>_. ''h'') confirmed_recovery project_crashed) = None"
  by code_simp+

theorem fence_kept_witness:
  "(\<exists>err. fst (acquire_write (\<lambda>_. ''h'') ''m'' some_owner granted project_crashed) = Inl err)
     \<and> (\<exists>x\<in>set (pj_receipts (project_step (\<lambda>_. ''h'') confirmed_recovery project_crashed)).
          rx_owner x = intent_json some_owner (Finite 7) ''h'')"
  using fence_kept [OF project_crashed_def project_crashed_intent(1), of "''m''" some_owner granted confirmed_recovery]
    project_crashed_intent(2)
  by (auto simp: confirmed_recovery_def)

section \<open>One writer\<close>

definition one_writer :: "'b project \<Rightarrow> bool" where
  "one_writer w \<longleftrightarrow> (\<forall>k g. guards w k = Some g \<and> wg_toolsActive g > 0 \<longrightarrow>
     pj_intent w \<noteq> None \<and> (\<forall>j. pj_holder w = Some j \<longrightarrow> j = k)
     \<and> (\<forall>j g1. guards w j = Some g1 \<and> wg_toolsActive g1 > 0 \<longrightarrow> j = k))"

lemma one_writerD:
  assumes "one_writer w" and "guards w k = Some g" and "wg_toolsActive g > 0"
  shows "pj_intent w \<noteq> None" and "pj_holder w = Some j \<Longrightarrow> j = k" and "guards w j = Some g1 \<Longrightarrow> wg_toolsActive g1 > 0 \<Longrightarrow> j = k"
  using assms unfolding one_writer_def by blast+

lemma nobody_active: "one_writer w \<Longrightarrow> pj_intent w = None \<Longrightarrow> guards w k = Some g \<Longrightarrow> wg_toolsActive g = 0"
  using one_writerD(1) by fastforce

lemma idle_one_writer: "(\<And>k g. guards w k = Some g \<Longrightarrow> wg_toolsActive g = 0) \<Longrightarrow> one_writer w"
  unfolding one_writer_def by (metis less_not_refl)

lemma one_writer_less:
  assumes "one_writer w" and "pj_intent w1 = pj_intent w" and "\<And>j. pj_holder w1 = Some j \<Longrightarrow> pj_holder w = Some j"
    and "\<And>k g. guards w1 k = Some g \<Longrightarrow> wg_toolsActive g > 0 \<Longrightarrow> \<exists>g0. guards w k = Some g0 \<and> wg_toolsActive g0 > 0"
  shows "one_writer w1"
  unfolding one_writer_def
proof (intro allI impI)
  fix k g
  assume "guards w1 k = Some g \<and> wg_toolsActive g > 0"
  then obtain g0 where g0: "guards w k = Some g0" "wg_toolsActive g0 > 0" using assms(4) by blast
  note W = one_writerD [OF assms(1) g0]
  have "j = k" if "guards w1 j = Some g1" "wg_toolsActive g1 > 0" for j g1 using assms(4) [OF that] W(3) by blast
  thus "pj_intent w1 \<noteq> None \<and> (\<forall>j. pj_holder w1 = Some j \<longrightarrow> j = k)
     \<and> (\<forall>j g1. guards w1 j = Some g1 \<and> wg_toolsActive g1 > 0 \<longrightarrow> j = k)"
    using W(1,2) assms(2,3) by auto
qed

fun is_reconcile :: "'b project_event \<Rightarrow> bool" where
  "is_reconcile (EvReconcile _ _ _ _ _) = True"
| "is_reconcile _ = False"

lemma one_writer_step:
  assumes inv: "one_writer w" and fence: "fence_inv w" and e: "\<not> is_reconcile e"
  shows "one_writer (project_step digest e w)"
proof (cases e)
  case (EvAcquire k owner facts)
  show ?thesis
  proof (cases "guards w k")
    case None
    hence step: "project_step digest e w = snd (acquire_write digest k owner facts w)" using EvAcquire by simp
    from acquire_cases [of digest k owner facts w] show ?thesis unfolding step
    proof (elim disjE conjE exE)
      assume "pj_intent (snd (acquire_write digest k owner facts w)) = pj_intent w"
        "guards (snd (acquire_write digest k owner facts w)) = guards w" "pj_holder (snd (acquire_write digest k owner facts w)) = None"
      thus "one_writer (snd (acquire_write digest k owner facts w))" by (intro one_writer_less [OF inv]) auto
    qed (use inv nobody_active [OF inv] in \<open>auto intro!: idle_one_writer split: if_splits\<close>)
  qed (use EvAcquire inv in simp)
next
  case (EvBefore k)
  show ?thesis
  proof (cases "guards w k")
    case (Some g)
    show ?thesis
    proof (cases "fst (beforeTool digest w k g) = None")
      case True
      hence admitted: "pj_holder w = Some k" "wg_toolsActive g = 0" by (auto simp: beforeTool_def split: if_splits)
      moreover have "pj_intent w \<noteq> None" using fence admitted by (auto simp: fence_inv_def)
      moreover have "wg_toolsActive g1 = 0" if "guards w j = Some g1" for j g1
        using one_writerD(2) [OF inv that _ admitted(1)] admitted(2) that Some by (cases "wg_toolsActive g1 > 0") auto
      ultimately show ?thesis using EvBefore Some by (auto simp: one_writer_def split: if_splits)
    next
      case False
      hence "wg_toolsActive (snd (beforeTool digest w k g)) = wg_toolsActive g" by (auto simp: beforeTool_def split: if_splits)
      thus ?thesis using EvBefore Some by (intro one_writer_less [OF inv]) (auto split: if_splits)
    qed
  qed (use EvBefore inv in \<open>simp add: with_guard_def\<close>)
next
  case (EvAfter k)
  show ?thesis
  proof (cases "guards w k")
    case (Some g)
    thus ?thesis using EvAfter by (intro one_writer_less [OF inv]) (auto split: if_splits)
  qed (use EvAfter inv in \<open>simp add: with_guard_def\<close>)
next
  case (EvFinish k quiescent removal)
  show ?thesis
  proof (cases "guards w k")
    case (Some g)
    have clean: "wg_toolsActive g1 = 0" if "pj_holder w = Some k" "wg_toolsActive g = 0" "guards w j = Some g1" for j g1
      using one_writerD(2) [OF inv that(3) _ that(1)] that Some by (cases "wg_toolsActive g1 > 0") auto
    show ?thesis
    proof (cases "pj_intent (snd (finish quiescent removal k g w)) = pj_intent w")
      case True
      thus ?thesis using EvFinish Some
        by (intro one_writer_less [OF inv]) (auto simp: finish_def Let_def update_conv' split: if_splits)
    next
      case False
      hence "pj_holder w = Some k" "wg_toolsActive g = 0" by (auto simp: finish_def Let_def split: if_splits)
      thus ?thesis using EvFinish Some clean
        by (intro idle_one_writer) (auto simp: finish_def Let_def update_conv' split: if_splits)
    qed
  qed (use EvFinish inv in simp)
next
  case (EvCrash ks)
  thus ?thesis by (intro one_writer_less [OF inv]) (auto simp: guards_crash split: if_splits option.splits)
qed (use inv e in \<open>auto simp: one_writer_def\<close>)

text \<open>C25: Without a recovery by an operator, at most one guard of a project has a tool running at any time, through
  crashes, lost leases and aborted acquisitions, and its project stays fenced until the tool has ended.\<close>

theorem tool_exclusion:
  assumes "w = project_run digest es (project_begin entries intent)" and "\<not> list_ex is_reconcile es"
    and "guards w j = Some a" "wg_toolsActive a > 0" and "guards w k = Some b" "wg_toolsActive b > 0"
  shows "j = k \<and> pj_intent w \<noteq> None"
proof -
  have "fence_inv w \<and> one_writer w" unfolding assms(1)
  proof (rule project_run_invariant)
    show "fence_inv (project_begin entries intent) \<and> one_writer (project_begin entries intent)"
      by (simp add: fence_inv_released project_begin_def one_writer_def)
    fix e and v :: "'a project"
    assume "e \<in> set es" "fence_inv v \<and> one_writer v"
    moreover from this have "\<not> is_reconcile e" using assms(2) by (auto simp: list_ex_iff)
    ultimately show "fence_inv (project_step digest e v) \<and> one_writer (project_step digest e v)"
      using fence_inv_step one_writer_step by blast
  qed
  thus ?thesis using one_writerD [OF _ assms(5,6)] assms(3,4) by blast
qed


text \<open>Two guards with a tool running each would be the same: here one runs, the acquisition of another is refused.\<close>

definition tool_running :: "string project_event list" where
  "tool_running = [EvAcquire ''k'' some_owner granted, EvBefore ''k'', EvAcquire ''m'' some_owner granted, EvBefore ''m'', EvLeaseLost]"

lemma tool_running_guard:
  "case guards (project_run (\<lambda>_. ''h'') tool_running (project_begin [(''f'', SourceFile 33188 ''x'')] None)) ''k'' of
     Some g \<Rightarrow> wg_toolsActive g > 0 | None \<Rightarrow> False"
  "\<not> list_ex is_reconcile tool_running"
  by code_simp+

theorem tool_exclusion_witness:
  "pj_intent (project_run (\<lambda>_. ''h'') tool_running (project_begin [(''f'', SourceFile 33188 ''x'')] None)) \<noteq> None"
proof -
  obtain g where g: "guards (project_run (\<lambda>_. ''h'') tool_running (project_begin [(''f'', SourceFile 33188 ''x'')] None)) ''k'' = Some g"
    "wg_toolsActive g > 0"
    using tool_running_guard(1) by (auto split: option.splits)
  show ?thesis using tool_exclusion [OF refl tool_running_guard(2) g g] by simp
qed

section \<open>A damaged intent\<close>

definition damaged :: "'b project \<Rightarrow> bool" where
  "damaged w \<longleftrightarrow> pj_intent w = Some None \<and> pj_holder w = None"

lemma damaged_step:
  assumes "damaged w"
  shows "damaged (project_step digest e w)"
proof (cases e)
  case (EvAcquire k owner facts)
  thus ?thesis using assms by (auto simp: damaged_def acquire_write_def Let_def split: lease_answer.splits)
qed (use assms in \<open>auto simp: damaged_def finish_def reconcileWorkspace_def Let_def split: option.splits\<close>)

text \<open>C39: An intent whose text is no JSON (the Host died or the disk failed between creating the file and writing it)
  stays for ever: whatever is tried afterwards, every acquisition is refused, and every recovery fails before it
  settles a Run, also a Run that has nothing to do with the intent.\<close>

theorem damaged_intent_blocks:
  assumes "pj_intent w = Some None" and "pj_holder w = None" and "w' = project_run digest es w"
  shows "pj_intent w' = Some None \<and> (\<exists>err. fst (acquire_write digest k owner facts w') = Inl err)
    \<and> (\<exists>err w1. reconcileWorkspace run attempts conf rfacts settle (w', s) = (Inl err, w1, s) \<and> pj_intent w1 = Some None)"
proof -
  have "damaged w'" unfolding assms(3)
    by (rule project_run_invariant) (use assms(1,2) in \<open>simp_all add: damaged_def [of w] damaged_step\<close>)
  thus ?thesis using acquire_refused [of w' digest k owner facts]
    by (auto simp: damaged_def reconcileWorkspace_def Let_def)
qed

definition broken_facts :: acquire_facts where
  "broken_facts = granted\<lparr>af_write := IntentBroken None\<rparr>"

definition project_damaged :: "string project" where
  "project_damaged = project_step (\<lambda>_. ''h'') (EvAcquire ''k'' some_owner broken_facts) (project_begin [] None)"

lemma project_damaged_state: "pj_intent project_damaged = Some None" "pj_holder project_damaged = None"
  by code_simp+

theorem damaged_intent_blocks_witness:
  "\<exists>err w1. reconcileWorkspace some_owner [''a''] \<lparr>cf_quiescent = True, cf_note = ''checked''\<rparr>
     \<lparr>rf_lease = LeaseGranted, rf_owned = True, rf_receipt = True, rf_removal = IntentRemoved\<rparr> (\<lambda>n. (Inr (), Suc n))
     (project_run (\<lambda>_. ''h'') [confirmed_recovery] project_damaged, 0 :: nat) = (Inl err, w1, 0)"
  using conjunct2 [OF conjunct2 [OF damaged_intent_blocks [OF project_damaged_state refl, of "\<lambda>_. ''h''" "[confirmed_recovery]" "[]"
    some_owner broken_facts some_owner "[''a'']" "\<lparr>cf_quiescent = True, cf_note = ''checked''\<rparr>"
    "\<lparr>rf_lease = LeaseGranted, rf_owned = True, rf_receipt = True, rf_removal = IntentRemoved\<rparr>" "\<lambda>n. (Inr (), Suc n)" 0]]]
  by (elim exE conjE) (intro exI)

end
