(* ===== verification/Spec2Isabelle.thy ===== *)
theory Spec2Isabelle
  imports RunProperties OperationProperties AdmissionProperties GraphProperties DriverProperties
    RecoveryProperties TeamProperties MessageProperties NodeProperties QueryProperties CompositionProperties ZipProperties
    EditorProperties RevisionProperties PackageProperties LeaseProperties WorkspaceProperties
begin

text \<open>
  Verification of the run engine of the XuanLing Blueprint plugin
  (\<open>src/integrations/deepseek-harness/xuanling-blueprint/src\<close>; file names below are relative to it).

  \<^bold>\<open>The program.\<close> A Blueprint is a versioned graph of nodes (agent tasks, conditions, human decisions,
  joins, child Blueprints, TeamStages). Starting it creates a Run: one durable JSON record that holds the
  frozen definition, the Attempts of the nodes, an optional TeamStage and a bounded log. All state changes
  of a Run go through one read-modify-write operation of the Run store. A driver repeatedly asks the
  scheduler which nodes are ready, launches them as jobs and settles the Run when the selected paths are
  settled. External effects are announced as durable intents before they happen; what a crash leaves
  without a result is quarantined on the next start and needs a reviewed resolution.

  \<^bold>\<open>Theories and sources.\<close>
  \<^item> \<open>Prelude\<close>: JSON values, result type \<open>error + 'a\<close>, list and option lemmas, bounded logs, the collection
    \<open>frame_simps\<close>.
  \<^item> \<open>RunTypes\<close>, \<open>RunSchema\<close>: \<open>persistence/records.ts\<close> and the diagnostics records of \<open>host/\<close>; every
    interface is a record, every union a datatype, every zod schema a bool-valued function.
  \<^item> \<open>RunStates\<close>: the transition table of \<open>orchestration/state.ts\<close>.
  \<^item> \<open>Domain\<close>: the tables of \<open>persistence/directory-domain.ts\<close>. A table is a list of rows, two flags for
    being closed and for holding the lease, and one fault, which says whether a write succeeds, fails before the
    atomic rename, or fails after it; between operations a history may change the flags and the fault. The locale \<open>kv_table\<close> is the contract the store relies
    on, interpreted on the Run table and the command table.
  \<^item> \<open>Admission\<close>: \<open>persistence/command-admission.ts\<close>.
  \<^item> \<open>StoreCore\<close>, \<open>RunStore\<close>: \<open>persistence/run-store.ts\<close> without TeamStages. \<open>commit\<close> is the function
    that \<open>applyTransition\<close> passes to the table; a reducer is a function from a record to an error or a new
    record. The locale \<open>run_reducer\<close> says what \<open>commit\<close> needs of a reducer to keep the invariants; it is
    interpreted on every reducer of the program, also on those of the driver, of recovery, of the effect
    runner and of the managed sessions.
  \<^item> \<open>ArtifactContract\<close>, \<open>TeamStore\<close>, \<open>TeamArtifacts\<close>, \<open>TeamContract\<close>: \<open>teamstage/artifact-contract.ts\<close> and
    the TeamStage operations of the store.
  \<^item> \<open>TeamEffects\<close>: \<open>teamstage/runner.ts\<close>; the external effect is an arbitrary function on the store.
  \<^item> \<open>Recovery\<close>: \<open>orchestration/recovery.ts\<close> and \<open>host/teamstage-recovery.ts\<close>.
  \<^item> \<open>Definition\<close>, \<open>Validator\<close>, \<open>CycleSearch\<close>: \<open>definition/types.ts\<close>, \<open>codec.ts\<close>, \<open>resource-ref.ts\<close> and
    \<open>validator.ts\<close>.
  \<^item> \<open>Scheduler\<close>, \<open>RunDriver\<close>: \<open>orchestration/scheduler.ts\<close> and the decisions of \<open>driveRun\<close> in
    \<open>service/run-execution.ts\<close>.
  \<^item> \<open>NodeValues\<close>, \<open>NodeExecution\<close>: \<open>host/node-values.ts\<close>, the node job \<open>executeRunNode\<close> of
    \<open>service/run-execution.ts\<close> and \<open>childOutputs\<close> of \<open>service/child-run-execution.ts\<close>.
  \<^item> \<open>RunQuery\<close>: the pages of the Run history, \<open>persistence/run-query.ts\<close>.
  \<^item> \<open>Composition\<close>: public ports and the closure of called Blueprints, \<open>definition/composition.ts\<close>.
  \<^item> \<open>Utf\<close>, \<open>ZipArchive\<close>, \<open>ZipFacts\<close>: the UTF-8 coding of the standard library and the ZIP container of
    \<open>portability/zip.ts\<close>, over bytes (\<open>8 word\<close>), UTF-16 code units and a 32-bit checksum.
  \<^item> \<open>Editor\<close>, \<open>EditorCommands\<close>: the graph editor of the browser, \<open>client/features/authoring/logic/graph/\<close>
    (\<open>graph-types.ts\<close>, \<open>graph-history.ts\<close>, \<open>graph-commands.ts\<close>, \<open>port-visibility.ts\<close>, \<open>graph-editor.ts\<close>,
    \<open>graph-serialization.ts\<close> and the layout check of \<open>clipboard.ts\<close>). A command maps the state to an error or a
    value and the new state. \<open>EditorFacts\<close> and \<open>EditorLaws\<close> hold the laws of commands as the locales
    \<open>editor_command\<close>, \<open>timeline_command\<close> and \<open>edit_command\<close>, interpreted on every command; \<open>EditorHistory\<close> closes
    them under sequences and transactions, \<open>EditorSaving\<close> is about opening and saving. A transaction
    compares the graph before and after by value, where \<open>graph-history.ts\<close> compares JSON texts, so a change that
    only reorders keys counts as none. In the histories of commands (\<open>editor_step\<close>) a node is added with an identity
    of the identity pattern, as every caller does, and \<open>importLayout\<close> is only part of opening a definition.
  \<^item> \<open>Revisions\<close>: \<open>definition/document.ts\<close> and the revision history of \<open>definition/persist.ts\<close>: index, entries
    with inherited package files, appends and pruning. \<open>RevisionFacts\<close> relates a store to what its entries read
    as: \<open>chain\<close> is the walk from an entry to the files it inherits. Appended documents agree with their
    files (\<open>append_ok\<close>): \<open>appendRevisionHistory\<close> relies on its callers for that.
  \<^item> \<open>PackageStore\<close>: loading and saving a package, the document part of \<open>definition/persist.ts\<close> with
    \<open>persistence/durable-fs.ts\<close> and the tree walk of \<open>resources/snapshotter.ts\<close>. A package directory is a
    dictionary from paths to entries; \<open>blueprint.json\<close>, the commit intent and the history are fields. Every change
    of the disk takes one fault. \<open>PackageFacts\<close> relates the tree before and after an interrupted operation:
    \<open>dir_step\<close> bounds what a step may change, \<open>tree_ok\<close> is the shape of a directory tree.
  \<^item> \<open>WriterLease\<close>: \<open>persistence/lease.ts\<close> as a protocol of contenders whose file operations interleave;
    \<open>lease_fire\<close> is one event (a file operation, the start of an operation, a crash, a new process, passing
    time). \<open>LeaseFacts\<close> holds the invariants \<open>guard_inv\<close> and \<open>claim_inv\<close> of runs without a left over guard.
  \<^item> \<open>WorkspaceLease\<close>: \<open>service/workspace-write-lease.ts\<close>, guards and the durable intent of a project; the
    writer lease enters as the one guard that passes its ownership check.
  \<^item> \<open>NodeSessions\<close>: messages of \<open>service/managed-node-session.ts\<close> and the reducers of child Runs.

  \<^bold>\<open>Histories.\<close> \<open>RunHistory\<close> defines \<open>store_step\<close>, one rule per operation of the components above, with
  arbitrary arguments, clocks, identifiers and write faults, and a rule for closing and reopening the
  domain; \<open>store_history\<close> is its reflexive transitive closure. \<open>AdmissionHistory\<close> proves the invariants that
  relate the command table and the Run table. A theorem about all histories therefore covers every
  interleaving of completed store operations, failed writes and restarts.

  \<^bold>\<open>What is shown.\<close>
  \<^item> \<open>RunProperties\<close>: terminal Runs are immutable, Attempts and results are final, Runs are well formed,
    states move forward along the transition table, identity and captured bindings are frozen.
  \<^item> \<open>AdmissionProperties\<close>: one Run per command, idempotent creation, identity and ambiguity of command keys.
  \<^item> \<open>OperationProperties\<close>: no second dispatch of a node, no dispatch after cancellation, one result per
    Attempt, one application per decision, cancellation against settlement.
  \<^item> \<open>TeamProperties\<close>: monotone TeamStages, effects announced once and before they happen, atomic settlement.
  \<^item> \<open>MessageProperties\<close>: at most one delivery of a managed message.
  \<^item> \<open>RecoveryProperties\<close>: the scan on start, the Runs that make it fail for ever, and reviewed resolutions.
  \<^item> \<open>GraphProperties\<close>: decoding, validation, the cycle search, agreement of browser and host checks.
  \<^item> \<open>NodeProperties\<close>: typed data flow between nodes, no effect of a refused job, no open Attempt behind a
    finished job.
  \<^item> \<open>QueryProperties\<close>: complete pages without repetition.
  \<^item> \<open>CompositionProperties\<close>: the walk through called Blueprints ends and lists children first.
  \<^item> \<open>EditorProperties\<close>: the graph stays valid under every history of editor commands, the undo stacks refine
    an abstract timeline, transactions are atomic, an accepted definition opens exactly when the layout check
    takes its control routes and then opening and saving keeps it, the connection check is exact.
  \<^item> \<open>RevisionProperties\<close>: after any appends with failures every listed revision is read with its files,
    appends and pruning never change what it reads as, saving and reading back gives the same bytes.
  \<^item> \<open>PackageProperties\<close>: saves are atomic under failures at every change of the disk, an interrupted save is
    completed by the next load, and a foreign file below a root of the package blocks it for ever.
  \<^item> \<open>LeaseProperties\<close>: one live owner in orderly runs, fencing in all runs, the contract of an undisturbed
    acquisition, and a race of two contenders over a guard that was left behind, in every world that has one. The locale \<open>ownership_fence\<close> is what
    durable writers rely on, interpreted on the runs of the protocol.
  \<^item> \<open>WorkspaceProperties\<close>: the fence of a project falls only by a quiescent finish or a confirmed recovery, one
    writer at a time, and what a damaged intent blocks.
  \<^item> \<open>ZipProperties\<close>: round trip, safety and error behaviour of the container, correctness of the checksum.
  \<^item> \<open>DriverProperties\<close>: safety of launches, concurrency bound, completeness of success, progress, and what
    control cycles do.

  \<^bold>\<open>Bounds and fuel.\<close> The depth-first search of \<open>collectDataCycles\<close> carries fuel, the number of nodes and
  edges plus two; \<open>cycle_search_total\<close> proves that it always suffices. The walk of
  \<open>resolveBlueprintClosure\<close> carries fuel for its depth: one per known Blueprint and one more are enough,
  because an ancestor is never entered again (\<open>walk_total\<close>). Following the pages of a query takes at most
  one page per Run and one more. The depth first search of the
  editor's connection check terminates by a measure, without fuel. \<open>readRevision\<close> and \<open>inheritedPackageFiles\<close> carry
  fuel for their calls of each other; twice the length of the index and one more is enough for every
  history that appends can produce (\<open>readRevision_chain\<close>), and circular ancestors use up any fuel. \<open>removeEmptyDirectory\<close> carries fuel for its depth;
  \<open>path_bound\<close>, the length of all paths of the tree, is enough because a child has a longer path. All other functions are total. Sequence numbers and revisions are natural numbers: the source bounds them by safe
  integers, which no history of realistic length reaches. Clocks are functions from the calls of
  \<open>Date.now\<close> within an operation to integers; nothing assumes that they increase.

  \<^bold>\<open>Parameters.\<close> SHA-256, base64 and the folding of names by Unicode tables (the record \<open>codec\<close>), random identifiers, the JSON Schema validator, the native effect of a dispatch,
  the live session registry, the decompressor and the normalisation of names of the ZIP reader, the package
  loader of a composition, the default positions and the random parts of identities of the editor and, in the record \<open>exec_env\<close>, what the Host does for a node job (preparation,
  agent, Team driver, child Run, abort signal and writes of others in between) are arguments of the definitions that use them.

  \<^bold>\<open>Not modelled.\<close> Promise scheduling inside one store operation (the per-Run queue makes it one step),
  observers, the file system below the tables, Host agents, Team adapters and their drivers, the wire
  handlers, and of the editor the clipboard, alignment, collision layout and the screen. Of package
  saving: symbolic links, permissions, the temporary file of \<open>atomicWriteBytes\<close>, which a process killed in
  between leaves behind (a witness of \<open>uncaptured_file_blocks\<close> has one in its initial state), the older semantic save, and
  \<open>restorePackageFiles\<close>, which nothing calls.
\<close>

end
